(* ===== verification/Prelude.thy ===== *)
theory Prelude
  imports Main "HOL-Library.Word"
begin

text \<open>
  Shared vocabulary of the development: the machine integer types of the C sources, the faults
  a C statement can raise (a failed assertion, a null pointer, an access outside an object, a
  lookup the code takes for granted, a loop that does not end, a call the C standard leaves undefined), the
  error monad that propagates them, little-endian views of words as bytes, and generic lemmas on
  lists and words.
\<close>

unbundle bit_operations_syntax

section \<open>Types\<close>

type_synonym u8 = "8 word"
type_synonym u16 = "16 word"
type_synonym u32 = "32 word"
type_synonym u64 = "64 word"
type_synonym addr = nat

section \<open>Faults and the error monad\<close>

datatype fault = AssertFail | NullDeref | OutOfRange | NotFound | Diverge | Undefined

type_synonym 'a res = "fault + 'a"

fun rbind :: "'a res \<Rightarrow> ('a \<Rightarrow> 'b res) \<Rightarrow> 'b res" where
  "rbind (Inl f) k = Inl f"
| "rbind (Inr x) k = k x"

definition guard :: "bool \<Rightarrow> fault \<Rightarrow> unit res" where
  "guard b f = (if b then Inr () else Inl f)"

lemma rbind_Inr_iff: "rbind m k = Inr y \<longleftrightarrow> (\<exists>x. m = Inr x \<and> k x = Inr y)"
  by (cases m) auto

lemma rbind_assoc: "rbind (rbind m k) h = rbind m (\<lambda>x. rbind (k x) h)"
  by (cases m) auto

lemma rbind_Inr_right [simp]: "rbind m Inr = m"
  by (cases m) auto

lemma guard_True [simp]: "guard True f = Inr ()"
  by (simp add: guard_def)

lemma guard_False [simp]: "guard False f = Inl f"
  by (simp add: guard_def)

section \<open>Lists\<close>

text \<open>
  Array accesses of C on a list: a read or a write outside the object is a fault, never a
  silent no-op.
\<close>

definition rd :: "'a list \<Rightarrow> nat \<Rightarrow> 'a res" where
  "rd xs i = (if i < length xs then Inr (xs ! i) else Inl OutOfRange)"

definition wr :: "'a list \<Rightarrow> nat \<Rightarrow> 'a \<Rightarrow> 'a list res" where
  "wr xs i v = (if i < length xs then Inr (xs[i := v]) else Inl OutOfRange)"

text \<open>Overwriting a stretch of an array (memset, memcpy).\<close>

definition overlay :: "'a list \<Rightarrow> nat \<Rightarrow> 'a list \<Rightarrow> 'a list" where
  "overlay xs i ys = take i xs @ ys @ drop (i + length ys) xs"

definition wr_block :: "'a list \<Rightarrow> nat \<Rightarrow> 'a list \<Rightarrow> 'a list res" where
  "wr_block xs i ys = (if i + length ys \<le> length xs then Inr (overlay xs i ys) else Inl OutOfRange)"

lemma rd_in [simp]: "i < length xs \<Longrightarrow> rd xs i = Inr (xs ! i)"
  by (simp add: rd_def)

lemma wr_in [simp]: "i < length xs \<Longrightarrow> wr xs i v = Inr (xs[i := v])"
  by (simp add: wr_def)

lemma wr_block_in [simp]: "i + length ys \<le> length xs \<Longrightarrow> wr_block xs i ys = Inr (overlay xs i ys)"
  by (simp add: wr_block_def)

lemma length_overlay [simp]: "i + length ys \<le> length xs \<Longrightarrow> length (overlay xs i ys) = length xs"
  by (simp add: overlay_def)

lemma nth_overlay:
  assumes "i + length ys \<le> length xs" and "j < length xs"
  shows "overlay xs i ys ! j = (if i \<le> j \<and> j < i + length ys then ys ! (j - i) else xs ! j)"
  using assms by (auto simp: overlay_def nth_append min_def)

lemma nth_overlay_out:
  assumes "i + length ys \<le> length xs" and "j < i \<or> i + length ys \<le> j"
  shows "overlay xs i ys ! j = xs ! j"
proof (cases "j < i")
  case False
  have "overlay xs i ys ! (i + length ys + (j - (i + length ys))) = xs ! j"
    unfolding overlay_def using assms False by (auto simp: nth_append)
  then show ?thesis using assms False by simp
qed (use assms in \<open>simp add: overlay_def nth_append\<close>)

lemma take_drop_overlay [simp]:
  "i + length ys \<le> length xs \<Longrightarrow> take (length ys) (drop i (overlay xs i ys)) = ys"
  by (simp add: overlay_def)

lemma take_drop_eqI:
  assumes "i + k \<le> length xs" and "i + k \<le> length ys"
    and "\<And>j. i \<le> j \<Longrightarrow> j < i + k \<Longrightarrow> xs ! j = ys ! j"
  shows "take k (drop i xs) = take k (drop i ys)"
  by (rule nth_equalityI) (use assms in auto)

section \<open>Loops and frames of computations\<close>

text \<open>A C loop over a known list of indices.\<close>

fun foreach :: "('i \<Rightarrow> 's \<Rightarrow> 's res) \<Rightarrow> 'i list \<Rightarrow> 's \<Rightarrow> 's res" where
  "foreach f [] s = Inr s"
| "foreach f (x # xs) s = rbind (f x s) (foreach f xs)"

text \<open>Recursive calls inside a bind or a loop see where their arguments come from (declared \<open>fundef_cong\<close> where that is needed).\<close>

lemma foreach_cong:
  "s = s' \<Longrightarrow> xs = ys \<Longrightarrow> (\<And>x s. x \<in> set ys \<Longrightarrow> f x s = g x s) \<Longrightarrow> foreach f xs s = foreach g ys s'"
proof -
  have "(\<And>x s. x \<in> set ys \<Longrightarrow> f x s = g x s) \<Longrightarrow> foreach f ys s = foreach g ys s" for s
  proof (induction ys arbitrary: s)
    case (Cons y ys)
    then show ?case by (cases "g y s") auto
  qed simp
  then show "s = s' \<Longrightarrow> xs = ys \<Longrightarrow> (\<And>x s. x \<in> set ys \<Longrightarrow> f x s = g x s) \<Longrightarrow> ?thesis" by blast
qed

lemma rbind_cong:
  "m = m' \<Longrightarrow> (\<And>x. m' = Inr x \<Longrightarrow> k x = k' x) \<Longrightarrow> rbind m k = rbind m' k'"
  by (cases m') auto

text \<open>
  A computation on a state, with or without a further result, stays inside a relation between the
  state before and the state after. When the relation is reflexive and transitive, one rule per
  construct of the monad proves this for a whole function.
\<close>

definition ends :: "('s \<Rightarrow> 's \<Rightarrow> bool) \<Rightarrow> 's \<Rightarrow> 's res \<Rightarrow> bool" where
  "ends R s m \<longleftrightarrow> (\<forall>s'. m = Inr s' \<longrightarrow> R s s')"

definition endsV :: "('s \<Rightarrow> 's \<Rightarrow> bool) \<Rightarrow> 's \<Rightarrow> ('v \<times> 's) res \<Rightarrow> bool" where
  "endsV R s m \<longleftrightarrow> (\<forall>v s'. m = Inr (v, s') \<longrightarrow> R s s')"

lemma endsD: "ends R s m \<Longrightarrow> m = Inr s' \<Longrightarrow> R s s'"
  by (simp add: ends_def)

lemma endsVD: "endsV R s m \<Longrightarrow> m = Inr (v, s') \<Longrightarrow> R s s'"
  by (simp add: endsV_def)

locale step_frame =
  fixes R :: "'s \<Rightarrow> 's \<Rightarrow> bool"
  assumes refl: "R s s" and trans: "R s t \<Longrightarrow> R t u \<Longrightarrow> R s u"
begin

lemma ret: "ends R s (Inr s)"
  by (simp add: ends_def refl)

lemma retV: "endsV R s (Inr (v, s))"
  by (simp add: endsV_def refl)

lemma step: "R s t \<Longrightarrow> ends R s (Inr t)"
  by (simp add: ends_def)

lemma stepV: "R s t \<Longrightarrow> endsV R s (Inr (v, t))"
  by (simp add: endsV_def)

lemma bind: "ends R s m \<Longrightarrow> (\<And>t. ends R t (k t)) \<Longrightarrow> ends R s (rbind m k)"
  unfolding ends_def rbind_Inr_iff using trans by blast

lemma bindV: "ends R s m \<Longrightarrow> (\<And>t. endsV R t (k t)) \<Longrightarrow> endsV R s (rbind m k)"
  unfolding ends_def endsV_def rbind_Inr_iff using trans by blast

lemma bind_pair: "endsV R s m \<Longrightarrow> (\<And>v t. ends R t (k (v, t))) \<Longrightarrow> ends R s (rbind m k)"
  unfolding ends_def endsV_def rbind_Inr_iff using trans by fastforce

lemma bind_pairV: "endsV R s m \<Longrightarrow> (\<And>v t. endsV R t (k (v, t))) \<Longrightarrow> endsV R s (rbind m k)"
  unfolding endsV_def rbind_Inr_iff using trans by fastforce

lemma bind_triple:
  assumes "\<And>v w t. m = Inr (v, w, t) \<Longrightarrow> R s t" and "\<And>v w t. ends R t (k (v, w, t))"
  shows "ends R s (rbind m k)"
proof (cases m)
  case (Inr x)
  then show ?thesis using assms trans by (cases x) (auto simp: ends_def)
qed (simp add: ends_def)

lemma get: "(\<And>x. m = Inr x \<Longrightarrow> ends R s (k x)) \<Longrightarrow> ends R s (rbind m k)"
  by (auto simp: ends_def rbind_Inr_iff)

lemma getV: "(\<And>x. m = Inr x \<Longrightarrow> endsV R s (k x)) \<Longrightarrow> endsV R s (rbind m k)"
  by (auto simp: endsV_def rbind_Inr_iff)

lemma branch: "ends R s m \<Longrightarrow> ends R s m' \<Longrightarrow> ends R s (if b then m else m')"
  by simp

lemma branchV: "endsV R s m \<Longrightarrow> endsV R s m' \<Longrightarrow> endsV R s (if b then m else m')"
  by simp

lemma after: "R s t \<Longrightarrow> ends R t m \<Longrightarrow> ends R s m"
  unfolding ends_def using trans by blast

lemma afterV: "R s t \<Longrightarrow> endsV R t m \<Longrightarrow> endsV R s m"
  unfolding endsV_def using trans by blast

lemma loop: "(\<And>x s. x \<in> set xs \<Longrightarrow> ends R s (f x s)) \<Longrightarrow> ends R s (foreach f xs s)"
  by (induction xs arbitrary: s) (auto intro: ret bind)

end

text \<open>A loop establishes what each of its rounds establishes and no later round undoes.\<close>

lemma foreach_all:
  assumes "foreach f xs s = Inr s'" and "\<And>x s s'. x \<in> set xs \<Longrightarrow> f x s = Inr s' \<Longrightarrow> P x s'"
    and "\<And>x y s s'. f y s = Inr s' \<Longrightarrow> P x s \<Longrightarrow> P x s'"
  shows "\<forall>x \<in> set xs. P x s'"
  using assms(1,2)
proof (induction xs arbitrary: s)
  case (Cons y xs)
  have keep: "foreach f ys t = Inr t' \<Longrightarrow> P x t \<Longrightarrow> P x t'" for ys t t' x
    by (induction ys arbitrary: t) (auto simp: rbind_Inr_iff intro: assms(3))
  from Cons show ?case by (auto simp: rbind_Inr_iff intro: keep)
qed simp

section \<open>Little-endian bytes\<close>

text \<open>The targets of the build (x86-64 and aarch64 Linux) are little-endian.\<close>

definition bytes_of_u32 :: "u32 \<Rightarrow> u8 list" where
  "bytes_of_u32 w = [ucast w, ucast (drop_bit 8 w), ucast (drop_bit 16 w), ucast (drop_bit 24 w)]"

definition u32_of_bytes :: "u8 \<Rightarrow> u8 \<Rightarrow> u8 \<Rightarrow> u8 \<Rightarrow> u32" where
  "u32_of_bytes a b c d =
     ucast a OR push_bit 8 (ucast b) OR push_bit 16 (ucast c) OR push_bit 24 (ucast d)"

definition bytes_of_u16 :: "u16 \<Rightarrow> u8 list" where
  "bytes_of_u16 w = [ucast w, ucast (drop_bit 8 w)]"

definition u16_of_bytes :: "u8 \<Rightarrow> u8 \<Rightarrow> u16" where
  "u16_of_bytes a b = ucast a OR push_bit 8 (ucast b)"

fun words_of_bytes :: "u8 list \<Rightarrow> u32 list" where
  "words_of_bytes (a # b # c # d # bs) = u32_of_bytes a b c d # words_of_bytes bs"
| "words_of_bytes _ = []"

definition bytes_of_words :: "u32 list \<Rightarrow> u8 list" where
  "bytes_of_words ws = concat (map bytes_of_u32 ws)"

lemma bit_u8_high [simp]: "8 \<le> n \<Longrightarrow> \<not> bit (a :: u8) n"
  by (auto dest: bit_imp_le_length)

lemma u32_of_bytes_of_u32 [simp]:
  "u32_of_bytes (ucast w) (ucast (drop_bit 8 w)) (ucast (drop_bit 16 w)) (ucast (drop_bit 24 w)) = w"
proof (rule bit_word_eqI)
  fix n :: nat
  assume "n < LENGTH(32)"
  then consider "n < 8" | "8 \<le> n" "n < 16" | "16 \<le> n" "n < 24" | "24 \<le> n" "n < 32"
    by force
  then show "bit (u32_of_bytes (ucast w) (ucast (drop_bit 8 w)) (ucast (drop_bit 16 w))
      (ucast (drop_bit 24 w))) n = bit w n"
    by cases (auto simp: u32_of_bytes_def bit_simps)
qed

lemma u16_of_bytes_of_u16 [simp]: "u16_of_bytes (ucast w) (ucast (drop_bit 8 w)) = w"
  unfolding u16_of_bytes_def
  by (rule bit_word_eqI) (auto simp: bit_simps not_less)

lemma length_bytes_of_u32 [simp]: "length (bytes_of_u32 w) = 4"
  by (simp add: bytes_of_u32_def)

lemma length_bytes_of_u16 [simp]: "length (bytes_of_u16 w) = 2"
  by (simp add: bytes_of_u16_def)

lemma length_bytes_of_words [simp]: "length (bytes_of_words ws) = 4 * length ws"
  by (induction ws) (auto simp: bytes_of_words_def)

lemma words_of_bytes_of_words [simp]: "words_of_bytes (bytes_of_words ws) = ws"
  by (induction ws) (auto simp: bytes_of_words_def bytes_of_u32_def)

lemma length_words_of_bytes: "length (words_of_bytes bs) = length bs div 4"
  by (induction bs rule: words_of_bytes.induct) auto

lemma dvd_4_Suc4 [simp]: "(4::nat) dvd Suc (Suc (Suc (Suc n))) \<longleftrightarrow> 4 dvd n"
  by presburger

lemma words_of_bytes_append:
  "4 dvd length as \<Longrightarrow> words_of_bytes (as @ bs) = words_of_bytes as @ words_of_bytes bs"
proof (induction as rule: words_of_bytes.induct)
  case (1 a b c d as)
  then show ?case by simp
qed (auto dest: dvd_imp_le)

lemma u32_of_bytes_inverse:
  "bytes_of_u32 (u32_of_bytes a b c d) = [a, b, c, d]"
  unfolding u32_of_bytes_def bytes_of_u32_def
  by (auto intro!: bit_word_eqI simp: bit_simps not_less dest: bit_imp_le_length)

lemma bytes_of_words_of_bytes: "4 dvd length bs \<Longrightarrow> bytes_of_words (words_of_bytes bs) = bs"
proof (induction bs rule: words_of_bytes.induct)
  case (1 a b c d bs)
  then show ?case by (simp add: bytes_of_words_def u32_of_bytes_inverse)
qed (auto simp: bytes_of_words_def dest: dvd_imp_le)

section \<open>Words\<close>

lemma unat_add_lt:
  fixes a b :: "'a :: len word"
  assumes "unat a + unat b < 2 ^ LENGTH('a)"
  shows "unat (a + b) = unat a + unat b"
  using assms by (simp add: unat_word_ariths)

lemma unat_sub_le:
  fixes a b :: "'a :: len word"
  assumes "unat b \<le> unat a"
  shows "unat (a - b) = unat a - unat b"
  using assms by (rule unat_sub [OF iffD2 [OF word_le_nat_alt]])

lemma unat_u32_lt: "unat (w :: u32) < 2 ^ 32"
  using unsigned_less [of w] by simp

lemma unat_u16_lt: "unat (w :: u16) < 2 ^ 16"
  using unsigned_less [of w] by simp

lemma unat_ucast_u16_u32: "unat (ucast (w :: u16) :: u32) = unat w"
  using unat_u16_lt [of w] by (simp add: unsigned_ucast_eq take_bit_nat_eq_self)

lemma unat_of_nat_u32: "n < 2 ^ 32 \<Longrightarrow> unat (of_nat n :: u32) = n"
  by (simp add: unsigned_of_nat take_bit_nat_eq_self)

lemma unat_of_bool_mult: "unat (of_bool b * (w :: 'a :: len word)) = (if b then unat w else 0)"
  by simp

end
