(* ===== verification/Framing.thy ===== *)
theory Framing
  imports Prelude
begin

text \<open>
  What the two message rings of the program share. A ring stores variable-sized records in a
  circular array; seen from its consumer it is a chain of records over linear positions, each
  position taken modulo the array's size. The locale \<open>framed\<close> states what a record decoder must
  satisfy (it advances, and it reads only the cells it advances over) and proves that a chain
  survives every write outside it. The locale \<open>fifo_ring\<close> is the interface the ring's clients
  rely on: a put that succeeds appends, a put that fails changes nothing, a get returns the
  oldest message. Both rings interpret both locales.
\<close>

section \<open>Chains of records\<close>

fun chain :: "(nat \<Rightarrow> ('m \<times> nat) option) \<Rightarrow> nat \<Rightarrow> 'm list \<Rightarrow> nat \<Rightarrow> bool" where
  "chain dec p [] q \<longleftrightarrow> p = q"
| "chain dec p (m # ms) q \<longleftrightarrow>
     (case dec p of None \<Rightarrow> False | Some (m', p') \<Rightarrow> m' = m \<and> chain dec p' ms q)"

lemma chain_Cons_iff:
  "chain dec p (m # ms) q \<longleftrightarrow> (\<exists>p'. dec p = Some (m, p') \<and> chain dec p' ms q)"
  by (auto split: option.splits)

declare chain.simps(2) [simp del]
declare chain_Cons_iff [simp]

lemma chain_append:
  "chain dec p (xs @ ys) r \<longleftrightarrow> (\<exists>q. chain dec p xs q \<and> chain dec q ys r)"
  by (induction xs arbitrary: p) auto

lemma chain_append_iff_functional:
  assumes "chain dec p xs q"
  shows "chain dec p (xs @ ys) r \<longleftrightarrow> chain dec q ys r"
  using assms by (induction xs arbitrary: p) auto

lemma chain_take_drop:
  assumes "chain dec p ms r"
  obtains q where "chain dec p (take k ms) q" and "chain dec q (drop k ms) r"
  using assms chain_append [of dec p "take k ms" "drop k ms" r] by auto

section \<open>Positions modulo the size\<close>

lemma mod_add_below:
  fixes p j n :: nat
  assumes "p mod n + j < n" shows "(p + j) mod n = p mod n + j"
  using assms by (metis mod_add_left_eq mod_less)

lemma mod_round_up:
  fixes p n :: nat
  assumes "0 < n" shows "(p + (n - p mod n)) mod n = 0"
proof -
  have "(p + (n - p mod n)) mod n = (p mod n + (n - p mod n)) mod n" by (simp add: mod_add_left_eq)
  then show ?thesis using mod_less_divisor [OF assms, of p] by simp
qed

lemma mod_window:
  fixes j k n :: nat
  assumes "j mod n = k mod n" and "j \<le> k" and "k < j + n"
  shows "j = k"
proof -
  have "n dvd k - j" using assms(1,2) by (metis mod_eq_dvd_iff_nat)
  then show ?thesis using assms(2,3) by (auto dest: dvd_imp_le)
qed

section \<open>Record decoders\<close>

text \<open>A decoder that only looks at positions modulo \<open>n\<close> gives chains that can be shifted by \<open>n\<close>.\<close>

lemma chain_shift_mult:
  assumes "\<And>p. dec (p + n) = map_option (\<lambda>(m, p'). (m, p' + n)) (dec p)"
  shows "chain dec (p + k * n) q (e + k * n) \<longleftrightarrow> chain dec p q e"
proof (induction k)
  case (Suc k)
  have one: "chain dec (p + n) q (e + n) \<longleftrightarrow> chain dec p q e" for p e
    by (induction q arbitrary: p) (auto simp: assms)
  show ?case using Suc one [of "p + k * n" "e + k * n"] by (simp add: ac_simps)
qed simp

locale framed =
  fixes dec :: "'b \<Rightarrow> nat \<Rightarrow> ('m \<times> nat) option"
    and cell :: "'b \<Rightarrow> nat \<Rightarrow> 'c"
  assumes dec_progress: "dec b p = Some (m, p') \<Longrightarrow> p < p'"
    and dec_local: "dec b p = Some (m, p') \<Longrightarrow>
      (\<And>k. p \<le> k \<Longrightarrow> k < p' \<Longrightarrow> cell b' k = cell b k) \<Longrightarrow> dec b' p = Some (m, p')"
begin

lemma chain_le: "chain (dec b) p ms q \<Longrightarrow> p + length ms \<le> q"
proof (induction ms arbitrary: p)
  case (Cons m ms)
  then obtain p' where "dec b p = Some (m, p')" and "chain (dec b) p' ms q" by auto
  then show ?case using Cons.IH [of p'] dec_progress [of b p m p'] by auto
qed simp

lemma chain_frame:
  assumes "chain (dec b) p ms q" and "\<And>k. p \<le> k \<Longrightarrow> k < q \<Longrightarrow> cell b' k = cell b k"
  shows "chain (dec b') p ms q"
  using assms
proof (induction ms arbitrary: p)
  case (Cons m ms)
  then obtain p' where p': "dec b p = Some (m, p')" "chain (dec b) p' ms q" by auto
  then have "p < p'" and "p' \<le> q" using dec_progress chain_le by fastforce+
  then have "dec b' p = Some (m, p')" using dec_local [OF p'(1)] Cons.prems(2) by auto
  moreover have "chain (dec b') p' ms q"
    using Cons.IH [OF p'(2)] Cons.prems(2) \<open>p < p'\<close> by auto
  ultimately show ?case by auto
qed simp

lemma chain_empty_iff: "chain (dec b) p ms p \<longleftrightarrow> ms = []"
  using chain_le [of b p ms p] by (cases ms) auto

lemma chain_snoc:
  assumes "chain (dec b) p ms q" and "dec b q = Some (m, r)"
  shows "chain (dec b) p (ms @ [m]) r"
  using assms by (auto simp: chain_append)

lemma chain_hd:
  assumes "chain (dec b) p ms q" and "p \<noteq> q"
  obtains m p' ms' where "ms = m # ms'" and "dec b p = Some (m, p')" and "chain (dec b) p' ms' q"
  using assms by (cases ms) auto

end

section \<open>The FIFO interface of a ring\<close>

datatype 'p fop = Put 'p | Get

fun fifo_run :: "('p \<Rightarrow> 'r \<Rightarrow> (bool \<times> 'r) res) \<Rightarrow> ('r \<Rightarrow> ('m option \<times> 'r) res) \<Rightarrow>
    'r \<Rightarrow> 'p fop list \<Rightarrow> ('p list \<times> 'm list \<times> 'r) res" where
  "fifo_run put get r [] = Inr ([], [], r)"
| "fifo_run put get r (Put x # ops) =
     rbind (put x r) (\<lambda>(ok, r'). rbind (fifo_run put get r' ops) (\<lambda>(acc, rcv, r'').
       Inr (if ok then x # acc else acc, rcv, r'')))"
| "fifo_run put get r (Get # ops) =
     rbind (get r) (\<lambda>(mo, r'). rbind (fifo_run put get r' ops) (\<lambda>(acc, rcv, r'').
       Inr (acc, (case mo of None \<Rightarrow> rcv | Some m \<Rightarrow> m # rcv), r'')))"

definition puts_valid :: "('p \<Rightarrow> bool) \<Rightarrow> 'p fop list \<Rightarrow> bool" where
  "puts_valid valid ops \<longleftrightarrow> list_all (\<lambda>x. case x of Put m \<Rightarrow> valid m | Get \<Rightarrow> True) ops"

lemma puts_valid_simps [simp]:
  "puts_valid v []"
  "puts_valid v (Put x # ops) \<longleftrightarrow> v x \<and> puts_valid v ops"
  "puts_valid v (Get # ops) \<longleftrightarrow> puts_valid v ops"
  by (auto simp: puts_valid_def)

locale fifo_ring =
  fixes rel :: "'r \<Rightarrow> 'm list \<Rightarrow> bool"
    and put :: "'p \<Rightarrow> 'r \<Rightarrow> (bool \<times> 'r) res"
    and get :: "'r \<Rightarrow> ('m option \<times> 'r) res"
    and enc :: "'p \<Rightarrow> 'm"
    and valid :: "'p \<Rightarrow> bool"
  assumes put_law: "rel r q \<Longrightarrow> valid x \<Longrightarrow>
      \<exists>ok r'. put x r = Inr (ok, r') \<and> rel r' (if ok then q @ [enc x] else q)"
    and get_empty: "rel r [] \<Longrightarrow> \<exists>r'. get r = Inr (None, r') \<and> rel r' []"
    and get_head: "rel r (m # q) \<Longrightarrow> \<exists>r'. get r = Inr (Some m, r') \<and> rel r' q"
begin

text \<open>
  Every interleaving of puts and gets on the ring runs without a fault, and what was received,
  followed by what is still queued, is exactly what was queued before followed by what was
  accepted, in order: nothing is lost, duplicated, reordered or invented.
\<close>

lemma fifo_run_order:
  assumes "rel r q" and "puts_valid valid ops"
  shows "\<exists>acc rcv r' q'. fifo_run put get r ops = Inr (acc, rcv, r') \<and> rel r' q' \<and>
    q @ map enc acc = rcv @ q'"
  using assms
proof (induction ops arbitrary: r q)
  case Nil
  then show ?case by auto
next
  case (Cons op ops)
  show ?case
  proof (cases op)
    case (Put x)
    with Cons.prems obtain ok r1 where r1: "put x r = Inr (ok, r1)"
        "rel r1 (if ok then q @ [enc x] else q)" using put_law [of r q x] by auto
    with Cons.IH [OF r1(2)] Cons.prems Put show ?thesis by (auto split: if_splits)
  next
    case Get
    show ?thesis
    proof (cases q)
      case Nil
      with Cons.prems obtain r1 where r1: "get r = Inr (None, r1)" "rel r1 []"
        using get_empty by blast
      with Cons.IH [OF r1(2)] Cons.prems Get Nil show ?thesis by auto
    next
      case (Cons m q1)
      with Cons.prems obtain r1 where r1: "get r = Inr (Some m, r1)" "rel r1 q1"
        using get_head by blast
      with Cons.IH [OF r1(2)] Cons.prems Get Cons show ?thesis by auto
    qed
  qed
qed

lemma fifo_run_received_prefix:
  assumes "rel r []" and "puts_valid valid ops" and "fifo_run put get r ops = Inr (acc, rcv, r')"
  shows "\<exists>rest. map enc acc = rcv @ rest"
  using fifo_run_order [OF assms(1,2)] assms(3) by auto

end

end
