(* ===== verification/QuickMsgRing.thy ===== *)
theory QuickMsgRing
  imports Framing "HOL-Library.Signed_Division"
begin

text \<open>
  The 32-bit word ring of \<open>common/src/quickMsgRing.c\<close>. A record in the ring is a header word (the
  payload's length in words) and its payload; a header equal to the size of the ring is a
  placeholder that sends the reader back to index 0. Indices and the arithmetic on them are 32-bit
  words as in the C, every access to the buffer is checked, and a pointer into the buffer is the
  index of the word it points to.

  The first part translates the operations. The second part relates the ring to a queue of
  payloads through \<open>chain\<close> and shows that no operation on a well-formed ring can fault, that a
  message is accepted exactly when it fits, and that the ring is an interpretation of \<open>fifo_ring\<close>.
\<close>

section \<open>State and operations\<close>

record qring =
  qr_buf :: "u32 list"
  qr_flag :: u32
  qr_emptyFlag :: u32
  qr_size :: u32
  qr_nextIn :: u32
  qr_nextOut :: u32
  qr_in :: u32
  qr_out :: u32
  qr_pCbPrintPara :: addr
  qr_pfnPrint :: addr

text \<open>The message pointer a caller passes: null, into the ring's own buffer, or elsewhere.\<close>

datatype msgptr = MsgNull | MsgRing nat | MsgExt "u8 list"

definition setPrintFunc :: "qring \<Rightarrow> addr \<Rightarrow> addr \<Rightarrow> int \<times> qring" where
  "setPrintFunc r para f = (0, r\<lparr>qr_pCbPrintPara := para, qr_pfnPrint := f\<rparr>)"

definition qr_unused :: "qring \<Rightarrow> u32 \<Rightarrow> u32" where
  "qr_unused r i =
     of_bool (i > qr_out r) * (qr_size r - i + qr_out r)
     + of_bool (i < qr_out r) * (qr_out r - i)
     + of_bool (i = qr_out r) * of_bool (qr_emptyFlag r = 1) * qr_size r"

definition qr_words :: "u32 \<Rightarrow> u32" where
  "qr_words wc =
     of_bool (wc mod 4 > 0) * (wc div 4 + 1) + of_bool (wc mod 4 = 0) * (wc div 4)"

text \<open>The header write and the memset that each branch of the reservation loop performs.\<close>

definition qr_mark :: "qring \<Rightarrow> u32 \<Rightarrow> u32 \<Rightarrow> qring res" where
  "qr_mark r i tw =
     rbind (wr (qr_buf r) (unat i) tw) (\<lambda>b.
     rbind (wr_block b (unat i + 1) (replicate (unat tw) 0)) (\<lambda>b'.
       Inr (r\<lparr>qr_buf := b'\<rparr>)))"

text \<open>
  One iteration of the loop of \<open>QuickMsgRingGetBufBulk\<close>: \<open>None\<close> is a \<open>break\<close>, otherwise the index
  stored in \<open>*msg\<close>, the next \<open>tmpIn\<close> and the ring.
\<close>

definition qr_place :: "qring \<Rightarrow> u32 \<Rightarrow> u32 \<Rightarrow> (nat \<times> u32 \<times> qring) option res" where
  "qr_place r i wc =
     (let un = qr_unused r i; tw = qr_words wc in
      if un \<le> tw + 1 then Inr None
      else if i \<ge> qr_out r then
        (let topUnused = qr_size r - i in
         if topUnused \<ge> tw + 1 then
           rbind (qr_mark r i tw) (\<lambda>r'.
             Inr (Some (unat i + 1, (i + (tw + 1)) mod qr_size r, r')))
         else if un \<ge> (qr_size r - i) + tw + 3 then
           rbind (wr (qr_buf r) (unat i) (qr_size r)) (\<lambda>b.
           rbind (qr_mark (r\<lparr>qr_buf := b\<rparr>) 0 tw) (\<lambda>r'.
             Inr (Some (1, (1 + tw) mod qr_size r, r'))))
         else Inr None)
      else if i < qr_out r \<and> un > tw + 1 then
        rbind (qr_mark r i tw) (\<lambda>r'.
          (let t = i + (tw + 1) in
           Inr (Some (unat i + 1, of_bool (t = qr_size r) * 0 + of_bool (t \<noteq> qr_size r) * t, r'))))
      else Inr None)"

fun getBufLoop :: "qring \<Rightarrow> u32 \<Rightarrow> u32 list \<Rightarrow> (nat list \<times> u32 \<times> qring) res" where
  "getBufLoop r i [] = Inr ([], i, r)"
| "getBufLoop r i (wc # wcs) =
     rbind (qr_place r i wc) (\<lambda>res.
       case res of
         None \<Rightarrow> Inr ([], i, r)
       | Some (pos, i', r') \<Rightarrow>
           rbind (getBufLoop r' i' wcs) (\<lambda>(ps, i'', r''). Inr (pos # ps, i'', r'')))"

text \<open>
  The reservation of up to \<open>length wcs\<close> buffers: the indices handed out (their number is the
  function's result) and the ring, whose \<open>nextIn\<close> is where a later commit moves \<open>in\<close>.
\<close>

definition QuickMsgRingGetBufBulk :: "qring \<Rightarrow> u32 list \<Rightarrow> (nat list \<times> qring) res" where
  "QuickMsgRingGetBufBulk r wcs =
     rbind (getBufLoop r (qr_in r) wcs) (\<lambda>(ps, i, r'). Inr (ps, r'\<lparr>qr_nextIn := i\<rparr>))"

definition QuickMsgRingGetBuf :: "qring \<Rightarrow> u32 \<Rightarrow> (nat list \<times> qring) res" where
  "QuickMsgRingGetBuf r wc = QuickMsgRingGetBufBulk r [wc]"

text \<open>\<open>MEMMEMCPY\<close> of bytes to the word at an index of the buffer.\<close>

definition qr_memcpy :: "qring \<Rightarrow> nat \<Rightarrow> u8 list \<Rightarrow> qring res" where
  "qr_memcpy r pos bs =
     (if bs = [] then Inr r
      else rbind (wr_block (bytes_of_words (qr_buf r)) (4 * pos) bs) (\<lambda>b.
        Inr (r\<lparr>qr_buf := words_of_bytes b\<rparr>)))"

definition qr_commit :: "qring \<Rightarrow> qring" where
  "qr_commit r = r\<lparr>qr_in := qr_nextIn r\<rparr>"

fun QuickMsgRingSendMsg :: "qring \<Rightarrow> msgptr \<Rightarrow> u32 \<Rightarrow> (int \<times> qring) res" where
  "QuickMsgRingSendMsg r MsgNull msgLen = Inr (0, qr_commit r)"
| "QuickMsgRingSendMsg r (MsgRing pos) msgLen = Inr (0, qr_commit r)"
| "QuickMsgRingSendMsg r (MsgExt bs) msgLen =
     rbind (QuickMsgRingGetBuf r msgLen) (\<lambda>(ps, r').
       case ps of
         [] \<Rightarrow> Inr (- 1, r')
       | pos # _ \<Rightarrow>
           rbind (guard (unat msgLen \<le> length bs) OutOfRange) (\<lambda>_.
           rbind (qr_memcpy r' pos (take (unat msgLen) bs)) (\<lambda>r''.
             Inr (0, qr_commit r''))))"

definition QuickMsgRingRecvMsgComplete :: "qring \<Rightarrow> qring" where
  "QuickMsgRingRecvMsgComplete r =
     (let r' = r\<lparr>qr_out := qr_nextOut r\<rparr> in
      r'\<lparr>qr_emptyFlag := of_bool (qr_out r' = qr_in r')\<rparr>)"

text \<open>
  The loop of \<open>QuickMsgRingBeginRecvMsgBulk\<close>; its counter is the number of messages still wanted.
  A message is the index of its payload and its length, in words.
\<close>

fun recvLoop :: "qring \<Rightarrow> nat \<Rightarrow> u32 \<Rightarrow> ((nat \<times> u32) list \<times> u32) res" where
  "recvLoop r 0 t = Inr ([], t)"
| "recvLoop r (Suc k) t =
     (if t = qr_in r \<and> qr_emptyFlag r = 1 then Inr ([], t)
      else
        rbind (rd (qr_buf r) (unat t)) (\<lambda>h.
        let t' = (if h = qr_size r then 0 else t) in
        rbind (rd (qr_buf r) (unat t')) (\<lambda>len.
        rbind (recvLoop r k ((t' + (len + 1)) mod qr_size r)) (\<lambda>(ms, t'').
          Inr ((unat t' + 1, len) # ms, t'')))))"

definition QuickMsgRingBeginRecvMsgBulk :: "qring \<Rightarrow> nat \<Rightarrow> ((nat \<times> u32) list \<times> qring) res" where
  "QuickMsgRingBeginRecvMsgBulk r maxMsgCount =
     rbind (recvLoop r maxMsgCount (qr_out r)) (\<lambda>(ms, t). Inr (ms, r\<lparr>qr_nextOut := t\<rparr>))"

definition QuickMsgRingBeginRecvMsg :: "qring \<Rightarrow> ((nat \<times> u32) list \<times> qring) res" where
  "QuickMsgRingBeginRecvMsg r = QuickMsgRingBeginRecvMsgBulk r 1"

text \<open>The words a message of the ring denotes; reading past the buffer is a fault.\<close>

definition qr_payload :: "qring \<Rightarrow> nat \<times> u32 \<Rightarrow> u32 list res" where
  "qr_payload r m =
     (case m of (pos, len) \<Rightarrow>
       if pos + unat len \<le> length (qr_buf r) then Inr (take (unat len) (drop pos (qr_buf r)))
       else Inl OutOfRange)"

text \<open>
  The pack callback fills the reserved words (it sees them zeroed) and returns a code; the unpack
  callback sees the payload and its length and threads the consumer's state. A pack callback that
  leaves its buffer is a fault.
\<close>

definition QuickMsgRingSendMsgWithPackFunc ::
    "qring \<Rightarrow> u32 \<Rightarrow> (u32 list \<Rightarrow> int \<times> u32 list) \<Rightarrow> (int \<times> qring) res" where
  "QuickMsgRingSendMsgWithPackFunc r msgWordSz pFunc =
     rbind (QuickMsgRingGetBuf r msgWordSz) (\<lambda>(ps, r').
       if length ps \<noteq> 1 then Inr (- 1, r')
       else
         rbind (qr_payload r' (hd ps, qr_words msgWordSz)) (\<lambda>m.
         let (ret, m') = pFunc m in
         rbind (guard (length m' = length m) OutOfRange) (\<lambda>_.
         rbind (wr_block (qr_buf r') (hd ps) m') (\<lambda>b.
         let r'' = r'\<lparr>qr_buf := b\<rparr> in
         if ret \<noteq> 0 then Inr (ret, r'')
         else rbind (QuickMsgRingSendMsg r'' (MsgRing (hd ps)) msgWordSz) (\<lambda>(_, r3).
           Inr (0, r3))))))"

definition QuickMsgRingRecvMsgWithUnpackFunc ::
    "qring \<Rightarrow> ('s \<Rightarrow> u32 list \<Rightarrow> u32 \<Rightarrow> (int \<times> 's) res) \<Rightarrow> 's \<Rightarrow> (int \<times> 's \<times> qring) res" where
  "QuickMsgRingRecvMsgWithUnpackFunc r pFunc s =
     rbind (QuickMsgRingBeginRecvMsg r) (\<lambda>(ms, r').
       case ms of
         [] \<Rightarrow> Inr (0, s, r')
       | m # _ \<Rightarrow>
           rbind (qr_payload r' m) (\<lambda>ws.
           rbind (pFunc s ws (snd m)) (\<lambda>(ret, s').
             if ret \<noteq> 0 then Inr (ret, s', r')
             else Inr (0, s', QuickMsgRingRecvMsgComplete r'))))"

definition isPowerOf2 :: "u32 \<Rightarrow> bool" where
  "isPowerOf2 n \<longleftrightarrow> n \<noteq> 0 \<and> n AND (n - 1) = 0"

text \<open>
  \<open>initMem\<close>: malloc of \<open>(size / 64 + 1) * 64\<close> bytes for an int \<open>size\<close> (the division truncates),
  then a memset of \<open>size\<close> bytes. The argument \<open>mem\<close> is what malloc returned: a block of that many
  bytes, or null, which the memset dereferences.
\<close>

definition initMem_bytes :: "int \<Rightarrow> int" where
  "initMem_bytes sz = (sz sdiv 64 + 1) * 64"

definition initMem :: "int \<Rightarrow> u8 list option \<Rightarrow> u8 list res" where
  "initMem sz mem =
     (case mem of
        None \<Rightarrow> Inl NullDeref
      | Some bs \<Rightarrow> if sz < 0 then Inl OutOfRange else wr_block bs 0 (replicate (nat sz) 0))"

text \<open>
  \<open>init_quickMsgRing\<close> with a caller's buffer (\<open>Some\<close>) or none: \<open>fresh\<close> is the block
  malloc returns for \<open>initMem\<close> and the result is the C return value with the initialised ring.
  \<open>ASSERT\<close> is empty in the build.
\<close>

definition qring_zero :: qring where
  "qring_zero = \<lparr>qr_buf = [], qr_flag = 0, qr_emptyFlag = 0, qr_size = 0, qr_nextIn = 0,
     qr_nextOut = 0, qr_in = 0, qr_out = 0, qr_pCbPrintPara = 0, qr_pfnPrint = 0\<rparr>"

definition init_quickMsgRing :: "u8 list option \<Rightarrow> u32 \<Rightarrow> u8 list option \<Rightarrow> (int \<times> qring) res" where
  "init_quickMsgRing pBuf sz fresh =
     (if sz < 8 then Inr (- 1, qring_zero)
      else
        let n = sz div 4 in
        rbind (case pBuf of Some bs \<Rightarrow> Inr bs | None \<Rightarrow> initMem (sint (n * 4)) fresh) (\<lambda>mem.
        rbind (wr_block mem 0 (replicate (unat n * 4) 0)) (\<lambda>mem'.
          Inr (0, qring_zero\<lparr>qr_buf := take (unat n) (words_of_bytes mem'), qr_size := n,
            qr_flag := of_bool (pBuf \<noteq> None), qr_emptyFlag := 1\<rparr>))))"

text \<open>\<open>uninit_quickMsgRing\<close> zeroes the handle; the result is whether the buffer was freed.\<close>

definition uninit_quickMsgRing :: "qring \<Rightarrow> bool \<times> int" where
  "uninit_quickMsgRing r = (qr_flag r = 0, 0)"

section \<open>Well-formed rings, read as natural numbers\<close>

abbreviation qn :: "qring \<Rightarrow> nat" where "qn r \<equiv> unat (qr_size r)"
abbreviation qi :: "qring \<Rightarrow> nat" where "qi r \<equiv> unat (qr_in r)"
abbreviation qo :: "qring \<Rightarrow> nat" where "qo r \<equiv> unat (qr_out r)"

text \<open>
  The shape every operation relies on, and the invariant that makes the empty flag decide between
  an empty and a full ring: indices that meet mean an empty ring, the ring is never filled up.
\<close>

definition qshape :: "qring \<Rightarrow> bool" where
  "qshape r \<longleftrightarrow> 2 \<le> qn r \<and> qn r < 2 ^ 30 \<and> length (qr_buf r) = qn r \<and> qo r < qn r"

definition qwf :: "qring \<Rightarrow> bool" where
  "qwf r \<longleftrightarrow> qshape r \<and> qi r < qn r \<and> (qr_in r = qr_out r \<longrightarrow> qr_emptyFlag r = 1)"

definition words_for :: "nat \<Rightarrow> nat" where
  "words_for bytes = (bytes + 3) div 4"

definition qfree :: "qring \<Rightarrow> nat \<Rightarrow> nat" where
  "qfree r i =
     (if qo r < i then qn r - i + qo r
      else if i < qo r then qo r - i
      else if qr_emptyFlag r = 1 then qn r else 0)"

text \<open>Where the header of a message of \<open>w\<close> words goes when \<open>in\<close> is \<open>i\<close>, if the message fits.\<close>

definition qheader :: "qring \<Rightarrow> nat \<Rightarrow> nat \<Rightarrow> nat option" where
  "qheader r i w =
     (if qfree r i \<le> w + 1 then None
      else if i < qo r \<or> w + 1 \<le> qn r - i then Some i
      else if qn r - i + w + 3 \<le> qfree r i then Some 0
      else None)"

text \<open>The buffer with a record stored at \<open>h\<close>: its header word and its payload.\<close>

definition put_msg :: "u32 list \<Rightarrow> nat \<Rightarrow> u32 list \<Rightarrow> u32 list" where
  "put_msg b h m = overlay (b[h := of_nat (length m)]) (h + 1) m"

abbreviation put_rec :: "u32 list \<Rightarrow> nat \<Rightarrow> nat \<Rightarrow> u32 list" where
  "put_rec b h w \<equiv> put_msg b h (replicate w 0)"

lemma length_put_msg [simp]: "h + length m < length b \<Longrightarrow> length (put_msg b h m) = length b"
  by (simp add: put_msg_def)

lemma unat_qr_words: "unat (qr_words wc) = words_for (unat wc)"
proof -
  have "unat wc < 2 ^ 32" using unat_u32_lt [of wc] by simp
  moreover have "unat (wc div 4) = unat wc div 4" "unat (wc mod 4) = unat wc mod 4"
    by (simp_all add: unat_div unat_mod)
  moreover have "unat (wc div 4 + 1) = unat wc div 4 + 1"
    using calculation by (subst unat_add_lt) auto
  ultimately show ?thesis
    unfolding qr_words_def words_for_def
    by (cases "unat wc mod 4 = 0") (auto simp: word_less_nat_alt unat_eq_0 [symmetric], presburger+)
qed

lemma words_for_less: "words_for (unat (wc :: u32)) \<le> 2 ^ 30"
  using unat_u32_lt [of wc] unfolding words_for_def by auto

lemma unat_qr_unused:
  assumes "qshape r" and "unat i < qn r"
  shows "unat (qr_unused r i) = qfree r (unat i)"
proof -
  have o: "unat (qr_out r) < qn r" "qn r < 2 ^ 30" using assms by (auto simp: qshape_def)
  have "unat (qr_size r - i) = qn r - unat i" using assms by (intro unat_sub_le) simp
  moreover have "qr_out r < i \<Longrightarrow> unat (qr_size r - i + qr_out r) = qn r - unat i + qo r"
    using o assms calculation by (subst unat_add_lt) (auto simp: word_less_nat_alt)
  moreover have "i < qr_out r \<Longrightarrow> unat (qr_out r - i) = qo r - unat i"
    by (intro unat_sub_le) (simp add: word_less_nat_alt)
  ultimately show ?thesis
    unfolding qr_unused_def qfree_def
    by (cases "i = qr_out r") (auto simp: word_less_nat_alt not_less le_less word_unat_eq_iff)
qed

lemma qr_mark_eq:
  assumes "unat i + unat tw < length (qr_buf r)"
  shows "qr_mark r i tw = Inr (r\<lparr>qr_buf := put_rec (qr_buf r) (unat i) (unat tw)\<rparr>)"
  using assms by (simp add: qr_mark_def put_msg_def)

lemma qfree_le: "qshape r \<Longrightarrow> i < qn r \<Longrightarrow> qfree r i \<le> qn r"
  by (auto simp: qfree_def qshape_def)

lemma qheader_bounds:
  assumes "qheader r i w = Some h" and "qshape r" and "i < qn r"
  shows "h = i \<or> h = 0" and "h + w + 1 \<le> qn r" and "w + 2 \<le> qn r"
    and "i < qo r \<Longrightarrow> h = i \<and> i + w + 1 < qo r"
    and "h \<noteq> i \<Longrightarrow> qo r \<le> i \<and> qn r - i \<le> w \<and> w < i"
    and "qr_emptyFlag r = 1 \<or> i \<noteq> qo r"
  using assms qfree_le [of r i]
  by (auto simp: qheader_def qfree_def qshape_def split: if_splits)


lemma wrap_index:
  fixes t n :: u32
  assumes "unat t = k" and "k \<le> unat n" and "0 < unat n"
  shows "of_bool (t = n) * 0 + of_bool (t \<noteq> n) * t = of_nat (k mod unat n)"
  using assms by (auto simp: word_unat_eq_iff)

text \<open>
  The ring with the message \<open>m\<close> stored for the reservation index \<open>i\<close> and the header \<open>h\<close>, a
  placeholder at \<open>i\<close> when the record was moved to the start of the buffer.
\<close>

definition qstored :: "qring \<Rightarrow> nat \<Rightarrow> nat \<Rightarrow> u32 list \<Rightarrow> qring" where
  "qstored r i h m =
     r\<lparr>qr_buf := put_msg (if h = i then qr_buf r else (qr_buf r)[i := qr_size r]) h m\<rparr>"

abbreviation qplaced :: "qring \<Rightarrow> nat \<Rightarrow> nat \<Rightarrow> nat \<Rightarrow> qring" where
  "qplaced r i h w \<equiv> qstored r i h (replicate w 0)"

text \<open>One reservation step of the C code, read through natural numbers: it never faults.\<close>

lemma qr_place_eq:
  assumes s: "qshape r" and i: "unat i < qn r" and w: "w = words_for (unat wc)"
  shows "qr_place r i wc = Inr (case qheader r (unat i) w of
     None \<Rightarrow> None
   | Some h \<Rightarrow> Some (h + 1, of_nat ((h + w + 1) mod qn r), qplaced r (unat i) h w))"
proof -
  have b: "length (qr_buf r) = qn r" "qn r < 2 ^ 30" "qo r < qn r" using s by (auto simp: qshape_def)
  have w30: "w \<le> 2 ^ 30" and uw: "unat (qr_words wc) = w"
    using words_for_less [of wc] unat_qr_words [of wc] w by auto
  have tw1: "unat (qr_words wc + 1) = w + 1" using w30 uw by (subst unat_add_lt) auto
  have top: "unat (qr_size r - i) = qn r - unat i" using i by (intro unat_sub_le) simp
  have top3: "unat (qr_size r - i + qr_words wc + 3) = qn r - unat i + w + 3"
    using top uw w30 b by (simp add: unat_add_lt)
  have nxt: "unat (i + (qr_words wc + 1)) = unat i + w + 1"
    using tw1 i b w30 by (subst unat_add_lt) auto
  have nxt0: "unat (1 + qr_words wc) = w + 1" using tw1 by (simp add: add.commute)
  have mod_eq: "(i + (qr_words wc + 1)) mod qr_size r = of_nat ((unat i + w + 1) mod qn r)"
    "(1 + qr_words wc) mod qr_size r = of_nat ((w + 1) mod qn r)"
    using nxt nxt0 by (auto simp: word_arith_nat_mod)
  have wrap: "of_bool (i + (qr_words wc + 1) = qr_size r) * 0
      + of_bool (i + (qr_words wc + 1) \<noteq> qr_size r) * (i + (qr_words wc + 1))
      = of_nat ((unat i + w + 1) mod qn r)" if "unat i + w + 1 \<le> qn r"
    using wrap_index [OF nxt that] b by simp
  have fit: "(qr_unused r i \<le> qr_words wc + 1) = (qfree r (unat i) \<le> w + 1)"
    "(qr_unused r i > qr_words wc + 1) = (w + 1 < qfree r (unat i))"
    "(qr_size r - i \<ge> qr_words wc + 1) = (w + 1 \<le> qn r - unat i)"
    "(qr_unused r i \<ge> qr_size r - i + qr_words wc + 3) = (qn r - unat i + w + 3 \<le> qfree r (unat i))"
    using tw1 top top3 unat_qr_unused [OF s i] by (auto simp: word_le_nat_alt word_less_nat_alt)
  have io: "(i < qr_out r) = (unat i < qo r)" "(i \<ge> qr_out r) = (qo r \<le> unat i)"
    by (auto simp: word_less_nat_alt word_le_nat_alt)
  show ?thesis
  proof (cases "qheader r (unat i) w")
    case None
    then show ?thesis unfolding qr_place_def Let_def fit io
      by (auto simp: qheader_def split: if_splits)
  next
    case (Some h)
    note hb = qheader_bounds [OF Some s i]
    have mk: "qr_mark r i (qr_words wc) = Inr (qplaced r (unat i) (unat i) w)" if "h = unat i"
      using that hb b uw by (subst qr_mark_eq) (auto simp: qstored_def)
    have mk0: "qr_mark (r\<lparr>qr_buf := (qr_buf r)[unat i := qr_size r]\<rparr>) 0 (qr_words wc)
        = Inr (qplaced r (unat i) 0 w)" if "h = 0" "h \<noteq> unat i"
      using that hb b uw by (subst qr_mark_eq) (auto simp: qstored_def)
    show ?thesis
    proof (cases "h = unat i")
      case True
      with Some hb b show ?thesis
        unfolding qr_place_def Let_def fit io mod_eq
        by (auto simp: qheader_def mk wrap simp del: mult_zero_right split: if_splits)
    next
      case False
      with hb have "h = 0" by auto
      with False Some hb b i mk0 show ?thesis
        unfolding qr_place_def Let_def fit io
        by (auto simp: qheader_def mod_eq split: if_splits)
    qed
  qed
qed


section \<open>The queue a ring stands for\<close>

text \<open>
  Decoding the record at the linear position \<open>p\<close>, the way the receive loop reads it: the payload
  and the position of the next record.
\<close>

definition qhead :: "nat \<Rightarrow> u32 list \<Rightarrow> nat \<Rightarrow> nat" where
  "qhead n b p = (if unat (b ! (p mod n)) = n then p + (n - p mod n) else p)"

definition qdec :: "nat \<Rightarrow> u32 list \<Rightarrow> nat \<Rightarrow> (u32 list \<times> nat) option" where
  "qdec n b p =
     (let i0 = qhead n b p mod n; w = unat (b ! i0)
      in if i0 + w + 1 \<le> n then Some (map ((!) b) [i0 + 1..<i0 + 1 + w], qhead n b p + w + 1)
         else None)"

definition qcell :: "nat \<Rightarrow> u32 list \<Rightarrow> nat \<Rightarrow> u32" where
  "qcell n b k = b ! (k mod n)"

definition qused :: "qring \<Rightarrow> nat \<Rightarrow> nat" where
  "qused r i = (if qo r \<le> i then i - qo r else qn r - qo r + i)"

lemma qused_update [simp]:
  "qused (r\<lparr>qr_in := t\<rparr>) j = qused r j" "qused (r\<lparr>qr_nextIn := t\<rparr>) j = qused r j"
  "qused (r\<lparr>qr_nextOut := t\<rparr>) j = qused r j" "qused (r\<lparr>qr_buf := b\<rparr>) j = qused r j"
  by (simp_all add: qused_def)

lemma qshape_update [simp]:
  "qshape (r\<lparr>qr_in := t\<rparr>) = qshape r" "qshape (r\<lparr>qr_nextIn := t\<rparr>) = qshape r"
  "qshape (r\<lparr>qr_nextOut := t\<rparr>) = qshape r" "qshape (r\<lparr>qr_emptyFlag := f\<rparr>) = qshape r"
  by (simp_all add: qshape_def)

abbreviation qchain :: "qring \<Rightarrow> u32 list list \<Rightarrow> nat \<Rightarrow> bool" where
  "qchain r q i \<equiv> chain (qdec (qn r) (qr_buf r)) (qo r) q (qo r + qused r i)"

definition qrel :: "qring \<Rightarrow> u32 list list \<Rightarrow> bool" where
  "qrel r q \<longleftrightarrow> qwf r \<and> qchain r q (qi r)"

lemma qhead_ge: "p \<le> qhead n b p"
  by (simp add: qhead_def)

lemma qdec_Some:
  "qdec n b p = Some (m, p') \<longleftrightarrow>
     (\<exists>h w. h = qhead n b p \<and> w = unat (b ! (h mod n)) \<and> h mod n + w + 1 \<le> n \<and>
        m = map ((!) b) [h mod n + 1..<h mod n + 1 + w] \<and> p' = h + w + 1)"
  by (auto simp: qdec_def Let_def)

interpretation qfr: framed "qdec n" "qcell n" for n
proof (unfold_locales)
  fix b p m p'
  assume "qdec n b p = Some (m, p')"
  then show "p < p'" using qhead_ge [of p n b] unfolding qdec_Some by linarith
next
  fix b b' p m p'
  assume d: "qdec n b p = Some (m, p')"
    and eq: "\<And>k. p \<le> k \<Longrightarrow> k < p' \<Longrightarrow> qcell n b' k = qcell n b k"
  define h where "h = qhead n b p"
  define w where "w = unat (b ! (h mod n))"
  have fit: "h mod n + w + 1 \<le> n" and p': "p' = h + w + 1"
    and m: "m = map ((!) b) [h mod n + 1..<h mod n + 1 + w]"
    using d unfolding qdec_Some h_def w_def by blast+
  have "p \<le> h" by (simp add: h_def qhead_ge)
  have rec: "b' ! (h mod n + j) = b ! (h mod n + j)" if "j \<le> w" for j
    using eq [of "h + j"] p' \<open>p \<le> h\<close> fit that by (simp add: qcell_def mod_add_below)
  have "b' ! (p mod n) = b ! (p mod n)" using eq [of p] p' \<open>p \<le> h\<close> by (simp add: qcell_def)
  then have "qhead n b' p = h" by (simp add: h_def qhead_def)
  moreover have "map ((!) b') [h mod n + 1..<h mod n + 1 + w] = m"
    unfolding m
  proof (rule map_cong [OF refl])
    fix k assume "k \<in> set [h mod n + 1..<h mod n + 1 + w]"
    then show "b' ! k = b ! k" using rec [of "k - h mod n"] by auto
  qed
  ultimately show "qdec n b' p = Some (m, p')"
    using fit p' rec [of 0] unfolding qdec_Some by (auto simp: w_def simp del: upt_Suc)
qed

lemma qused_bounds: "qshape r \<Longrightarrow> i < qn r \<Longrightarrow> qused r i < qn r"
  by (auto simp: qused_def qshape_def)

lemma qused_mod: "qshape r \<Longrightarrow> i < qn r \<Longrightarrow> (qo r + qused r i) mod qn r = i"
  by (auto simp: qused_def qshape_def)

lemma qused_eqI:
  assumes "qshape r" and "d < qn r" shows "qused r ((qo r + d) mod qn r) = d"
  using assms by (auto simp: qused_def qshape_def mod_if)

lemma qused_qfree:
  assumes "qshape r" and "i < qn r" and "qr_emptyFlag r = 1 \<or> i \<noteq> qo r"
  shows "qused r i + qfree r i = qn r"
  using assms by (auto simp: qused_def qfree_def qshape_def)

lemma qused_0_iff: "qshape r \<Longrightarrow> i < qn r \<Longrightarrow> qused r i = 0 \<longleftrightarrow> i = qo r"
  by (auto simp: qused_def qshape_def)


section \<open>Storing a message extends the queue\<close>

lemma put_msg_nth:
  assumes "h + length m < length b" and "k < length b"
  shows "put_msg b h m ! k =
    (if k = h then of_nat (length m) else if h < k \<and> k \<le> h + length m then m ! (k - h - 1) else b ! k)"
  using assms by (auto simp: put_msg_def nth_overlay nth_list_update)

lemma put_msg_payload:
  assumes "h + length m < length b"
  shows "map ((!) (put_msg b h m)) [h + 1..<h + 1 + length m] = m"
  by (rule nth_equalityI) (use assms in \<open>auto simp: put_msg_nth simp del: upt_Suc\<close>)

text \<open>
  Decoding finds a message just stored at the linear position \<open>q\<close>: at \<open>q\<close> itself, or at the start
  of the buffer behind the placeholder.
\<close>

lemma qdec_put_msg:
  assumes len: "length b = n" "n < 2 ^ 30" and m: "h + length m < n" "length m < n"
    and h: "h = q mod n \<or> h = 0 \<and> length m < q mod n"
  shows "qdec n (put_msg (if h = q mod n then b else b[q mod n := of_nat n]) h m) q
    = Some (m, q + ((if h = q mod n then 0 else n - q mod n) + length m + 1))"
proof -
  let ?b = "put_msg (if h = q mod n then b else b[q mod n := of_nat n]) h m"
  have n0: "0 < n" using m by simp
  then have qn: "q mod n < n" by simp
  have un: "unat (of_nat n :: u32) = n" "unat (of_nat (length m) :: u32) = length m"
    using len m by (simp_all add: unat_of_nat_u32)
  have head: "qhead n ?b q = q + (if h = q mod n then 0 else n - q mod n)"
    using h m len un qn by (auto simp: qhead_def put_msg_nth)
  have hm: "qhead n ?b q mod n = h"
    unfolding head using h mod_round_up [OF n0, of q] by auto
  have hd: "?b ! h = of_nat (length m)" using m len by (simp add: put_msg_nth)
  have pl: "map ((!) ?b) [h + 1..<h + 1 + length m] = m"
    by (rule put_msg_payload) (use m len in auto)
  show ?thesis unfolding qdec_Some
    by (rule exI [of _ "qhead n ?b q"], rule exI [of _ "length m"])
      (use hm hd pl m head un in \<open>auto simp del: upt_Suc\<close>)
qed

lemma qstored_fields [simp]:
  "qr_size (qstored r i h m) = qr_size r" "qr_out (qstored r i h m) = qr_out r"
  "qr_in (qstored r i h m) = qr_in r" "qr_emptyFlag (qstored r i h m) = qr_emptyFlag r"
  "qr_nextIn (qstored r i h m) = qr_nextIn r" "qr_nextOut (qstored r i h m) = qr_nextOut r"
  by (simp_all add: qstored_def)

lemma qused_qstored [simp]: "qused (qstored r i h m) j = qused r j"
  by (simp add: qused_def)

text \<open>The linear distance a stored message advances the end of the queue by.\<close>

definition qstep :: "qring \<Rightarrow> nat \<Rightarrow> nat \<Rightarrow> nat \<Rightarrow> nat" where
  "qstep r i h w = (if h = i then 0 else qn r - i) + w + 1"

lemma qstep_room:
  assumes "qheader r i w = Some h" and "qshape r" and "i < qn r"
  shows "qused r i + qstep r i h w < qn r"
proof -
  have "qused r i + qfree r i = qn r"
    using qused_qfree [OF assms(2,3)] qheader_bounds(6) [OF assms] by simp
  then show ?thesis using assms(1) qheader_bounds(5) [OF assms]
    by (auto simp: qstep_def qheader_def split: if_splits)
qed

lemma qstored_used:
  assumes "qheader r i w = Some h" and "qshape r" and "i < qn r"
  shows "qused r ((h + w + 1) mod qn r) = qused r i + qstep r i h w"
proof -
  let ?d = "qused r i + qstep r i h w"
  have "(qo r + ?d) mod qn r = (i + qstep r i h w) mod qn r"
    by (metis (no_types) add.assoc mod_add_left_eq qused_mod [OF assms(2,3)])
  also have "\<dots> = (h + w + 1) mod qn r"
  proof (cases "h = i")
    case False
    then have "i + qstep r i h w = h + w + 1 + qn r"
      using assms(3) qheader_bounds(1) [OF assms] by (auto simp: qstep_def)
    then show ?thesis by (metis mod_add_self2)
  qed (simp add: qstep_def)
  finally show ?thesis using qused_eqI [OF assms(2) qstep_room [OF assms]] by simp
qed

lemma qshape_qstored:
  assumes "qheader r i (length m) = Some h" and "qshape r" and "i < qn r"
  shows "qshape (qstored r i h m)"
  using assms(2) qheader_bounds(2) [OF assms] by (auto simp: qshape_def qstored_def)

lemma qstored_frame:
  assumes hd: "qheader r i (length m) = Some h" and s: "qshape r" and i: "i < qn r"
    and k: "qo r \<le> k" "k < qo r + qused r i"
  shows "qcell (qn r) (qr_buf (qstored r i h m)) k = qcell (qn r) (qr_buf r) k"
proof -
  note hb = qheader_bounds [OF hd s i]
  have len: "length (qr_buf r) = qn r" using s by (simp add: qshape_def)
  define e where "e = qo r + qused r i"
  have e: "e mod qn r = i" and room: "e + qstep r i h (length m) < qo r + qn r"
    using qused_mod [OF s i] qstep_room [OF hd s i] by (auto simp: e_def)
  have outside: "k mod qn r \<noteq> (e + j) mod qn r" if "j < qstep r i h (length m)" for j
    using mod_window [of k "qn r" "e + j"] that k room by (auto simp: e_def)
  have "k mod qn r \<noteq> i" using outside [of 0] e by (simp add: qstep_def)
  moreover have "k mod qn r \<noteq> h + j" if j: "j \<le> length m" for j
  proof -
    define d where "d = (if h = i then 0 else qn r - i)"
    have "(e + d) mod qn r = h"
      using e hb(1) i mod_round_up [of "qn r" e] by (auto simp: d_def)
    then have "(e + d + j) mod qn r = h + j" using hb(2) j by (subst mod_add_below) auto
    moreover have "d + j < qstep r i h (length m)" using j by (simp add: d_def qstep_def)
    ultimately show ?thesis using outside [of "d + j"] by (simp add: add.assoc)
  qed
  then have "k mod qn r < h \<or> h + length m < k mod qn r"
    by (metis add_le_cancel_left le_iff_add not_le)
  ultimately show ?thesis
    using len hb(2) i by (auto simp: qcell_def qstored_def put_msg_nth)
qed

lemma qstored_chain:
  assumes hd: "qheader r i (length m) = Some h" and s: "qshape r" and i: "i < qn r"
    and ch: "qchain r q i"
  shows "qchain (qstored r i h m) (q @ [m]) ((h + length m + 1) mod qn r)"
proof -
  note hb = qheader_bounds [OF hd s i]
  let ?r = "qstored r i h m" and ?e = "qo r + qused r i"
  have "chain (qdec (qn r) (qr_buf ?r)) (qo r) q ?e"
    by (rule qfr.chain_frame [OF ch]) (use qstored_frame [OF hd s i] in auto)
  moreover have "qdec (qn r) (qr_buf ?r) ?e = Some (m, ?e + qstep r i h (length m))"
    using qdec_put_msg [of "qr_buf r" "qn r" h m ?e] hb(1,2,3,5) s i
    by (auto simp: qstored_def qstep_def qshape_def qused_mod [OF s i])
  ultimately have "chain (qdec (qn r) (qr_buf ?r)) (qo r) (q @ [m]) (?e + qstep r i h (length m))"
    by (rule qfr.chain_snoc)
  then show ?thesis
    using qstored_used [OF hd s i] by (simp add: add.assoc)
qed


section \<open>Sending\<close>

text \<open>The payload words of a message of bytes: padded with zeros to whole words.\<close>

definition qpad :: "u8 list \<Rightarrow> u32 list" where
  "qpad bs = words_of_bytes (bs @ replicate (4 * words_for (length bs) - length bs) 0)"

lemma words_for_bounds: "n \<le> 4 * words_for n" "4 * words_for n \<le> n + 3"
  by (auto simp: words_for_def)

lemma length_qpad [simp]: "length (qpad bs) = words_for (length bs)"
  using words_for_bounds [of "length bs"] by (simp add: qpad_def length_words_of_bytes)

lemma qpad_roundtrip: "take (length bs) (bytes_of_words (qpad bs)) = bs"
proof -
  have "bytes_of_words (qpad bs) = bs @ replicate (4 * words_for (length bs) - length bs) 0"
    unfolding qpad_def
    by (rule bytes_of_words_of_bytes) (use words_for_bounds [of "length bs"] in simp)
  then show ?thesis by simp
qed

lemma bytes_of_words_append: "bytes_of_words (a @ b) = bytes_of_words a @ bytes_of_words b"
  by (simp add: bytes_of_words_def)

lemma bytes_of_words_zeros: "bytes_of_words (replicate w 0) = replicate (4 * w) 0"
  by (induction w) (auto simp: bytes_of_words_def bytes_of_u32_def numeral_eq_Suc)

lemma words_overlay_bytes:
  assumes "b = as @ replicate (words_for (length bs)) 0 @ cs"
  shows "words_of_bytes (overlay (bytes_of_words b) (4 * length as) bs)
    = overlay b (length as) (qpad bs)"
proof -
  let ?w = "words_for (length bs)"
  have "overlay (bytes_of_words b) (4 * length as) bs
      = bytes_of_words as @ (bs @ replicate (4 * ?w - length bs) 0) @ bytes_of_words cs"
    using words_for_bounds(1) [of "length bs"]
    by (simp add: assms overlay_def bytes_of_words_append bytes_of_words_zeros)
  also have "words_of_bytes \<dots> = as @ qpad bs @ cs"
    using words_for_bounds(1) [of "length bs"]
    by (simp add: words_of_bytes_append qpad_def flip: append_assoc)
      (simp add: words_of_bytes_append)
  finally show ?thesis by (simp add: assms overlay_def)
qed

lemma put_rec_split:
  assumes "h + w < length b"
  shows "put_rec b h w = (take h b @ [of_nat w]) @ replicate w 0 @ drop (h + 1 + w) b"
  using assms by (simp add: put_msg_def overlay_def take_Suc_conv_app_nth take_update_cancel)

lemma overlay_put_rec:
  assumes "h + length m < length b"
  shows "overlay (put_rec b h (length m)) (h + 1) m = put_msg b h m"
  using assms by (auto simp: put_msg_def overlay_def)

lemma qr_memcpy_placed:
  assumes "h + words_for (length bs) < length (qr_buf r)"
  shows "qr_memcpy (qplaced r i h (words_for (length bs))) (h + 1) bs = Inr (qstored r i h (qpad bs))"
proof (cases "bs = []")
  case True
  then show ?thesis by (simp add: qr_memcpy_def qpad_def words_for_def)
next
  case False
  let ?b = "if h = i then qr_buf r else (qr_buf r)[i := qr_size r]" and ?w = "words_for (length bs)"
  have fit: "h + ?w < length ?b" using assms by simp
  have "4 * (h + 1) + length bs \<le> 4 * length ?b" using fit words_for_bounds(1) [of "length bs"] by simp
  moreover have "words_of_bytes (overlay (bytes_of_words (put_rec ?b h ?w)) (4 * (h + 1)) bs)
      = put_msg ?b h (qpad bs)"
    using words_overlay_bytes [OF put_rec_split [OF fit]] overlay_put_rec [of h "qpad bs" ?b] fit
    by simp
  ultimately show ?thesis using False fit by (simp add: qr_memcpy_def qstored_def)
qed

lemma qr_memcpy_nextIn:
  "qr_memcpy (r\<lparr>qr_nextIn := t\<rparr>) p bs = rbind (qr_memcpy r p bs) (\<lambda>r'. Inr (r'\<lparr>qr_nextIn := t\<rparr>))"
  by (auto simp: qr_memcpy_def wr_block_def)

lemma QuickMsgRingGetBuf_eq:
  assumes "qwf r"
  shows "QuickMsgRingGetBuf r wc = Inr (case qheader r (qi r) (words_for (unat wc)) of
      None \<Rightarrow> ([], r\<lparr>qr_nextIn := qr_in r\<rparr>)
    | Some h \<Rightarrow> ([h + 1], (qplaced r (qi r) h (words_for (unat wc)))
        \<lparr>qr_nextIn := of_nat ((h + words_for (unat wc) + 1) mod qn r)\<rparr>))"
  using assms qr_place_eq [of r "qr_in r" "words_for (unat wc)" wc]
  by (auto simp: QuickMsgRingGetBuf_def QuickMsgRingGetBufBulk_def qwf_def split: option.splits)

lemma QuickMsgRingSendMsg_eq:
  assumes wf: "qwf r" and len: "unat msgLen \<le> length bs"
  defines "m \<equiv> qpad (take (unat msgLen) bs)"
  shows "QuickMsgRingSendMsg r (MsgExt bs) msgLen = Inr (case qheader r (qi r) (length m) of
      None \<Rightarrow> (- 1, r\<lparr>qr_nextIn := qr_in r\<rparr>)
    | Some h \<Rightarrow> (0, (let t = of_nat ((h + length m + 1) mod qn r)
        in (qstored r (qi r) h m)\<lparr>qr_nextIn := t, qr_in := t\<rparr>)))"
proof -
  have w: "length m = words_for (unat msgLen)" using len by (simp add: m_def)
  show ?thesis
  proof (cases "qheader r (qi r) (length m)")
    case None
    then show ?thesis using QuickMsgRingGetBuf_eq [OF wf, of msgLen] by (simp add: w)
  next
    case (Some h)
    let ?t = "of_nat ((h + length m + 1) mod qn r) :: u32"
    have "h + length m < length (qr_buf r)"
      using qheader_bounds(2) [OF Some] wf by (auto simp: qwf_def qshape_def)
    then have "qr_memcpy (qplaced r (qi r) h (length m)) (h + 1) (take (unat msgLen) bs)
        = Inr (qstored r (qi r) h m)"
      using qr_memcpy_placed [of h "take (unat msgLen) bs" r "qi r"] len by (simp add: m_def w)
    then show ?thesis using Some QuickMsgRingGetBuf_eq [OF wf, of msgLen] len
      by (simp add: w qr_commit_def Let_def qr_memcpy_nextIn)
  qed
qed


lemma qrelI_commit:
  assumes wf: "qwf r" and rel: "qchain r q (qi r)" and hd: "qheader r (qi r) (length m) = Some h"
  defines "t \<equiv> (of_nat ((h + length m + 1) mod qn r) :: u32)"
  shows "qrel ((qstored r (qi r) h m)\<lparr>qr_nextIn := t, qr_in := t\<rparr>) (q @ [m])"
proof -
  have s: "qshape r" and i: "qi r < qn r" using wf by (auto simp: qwf_def)
  have n: "0 < qn r" "qn r < 2 ^ 30" using s by (auto simp: qshape_def)
  then have less: "(h + length m + 1) mod qn r < qn r" by simp
  then have t: "unat t = (h + length m + 1) mod qn r"
    unfolding t_def using n less by (intro unat_of_nat_u32 less_trans [OF less_trans [OF less n(2)]]) simp
  have ch: "qchain (qstored r (qi r) h m) (q @ [m]) (unat t)"
    using qstored_chain [OF hd s i rel] t by simp
  have s': "qshape (qstored r (qi r) h m)" by (rule qshape_qstored [OF hd s i])
  have "qused r (unat t) \<noteq> 0" using qfr.chain_le [OF ch] by auto
  then have "t \<noteq> qr_out r" using qused_0_iff [OF s, of "unat t"] less t by auto
  then show ?thesis
    using ch s' less t by (simp add: qrel_def qwf_def)
qed

text \<open>
  A message handed to \<open>QuickMsgRingSendMsg\<close> from outside the ring is appended exactly when it
  fits; otherwise the queue is untouched.
\<close>

lemma SendMsg_ext_rel:
  assumes "qrel r q" and "unat msgLen \<le> length bs"
  defines "m \<equiv> qpad (take (unat msgLen) bs)"
  shows "\<exists>r'. QuickMsgRingSendMsg r (MsgExt bs) msgLen
      = Inr (if qheader r (qi r) (length m) = None then - 1 else 0, r')
    \<and> qrel r' (if qheader r (qi r) (length m) = None then q else q @ [m])"
proof (cases "qheader r (qi r) (length m)")
  case None
  then show ?thesis
    using QuickMsgRingSendMsg_eq [of r msgLen bs] assms
    by (auto simp: qrel_def qwf_def)
next
  case (Some h)
  then show ?thesis
    using QuickMsgRingSendMsg_eq [of r msgLen bs] qrelI_commit [of r q m h] assms
    by (auto simp: qrel_def Let_def)
qed

section \<open>Receiving\<close>

lemma recvLoop_step:
  assumes s: "qshape r" and d: "qdec (qn r) (qr_buf r) p = Some (m, p')"
    and t: "unat t = p mod qn r" and ne: "\<not> (t = qr_in r \<and> qr_emptyFlag r = 1)"
  shows "\<exists>pl t'. unat t' = p' mod qn r \<and> qr_payload r pl = Inr m \<and>
    recvLoop r (Suc k) t = rbind (recvLoop r k t') (\<lambda>(ms, t''). Inr (pl # ms, t''))"
proof -
  let ?n = "qn r" and ?b = "qr_buf r"
  have len: "length ?b = ?n" and n: "0 < ?n" "?n < 2 ^ 30" using s by (auto simp: qshape_def)
  obtain h w where h: "h = qhead ?n ?b p" and w: "w = unat (?b ! (h mod ?n))"
    and fit: "h mod ?n + w + 1 \<le> ?n" and m: "m = map ((!) ?b) [h mod ?n + 1..<h mod ?n + 1 + w]"
    and p': "p' = h + w + 1"
    using d unfolding qdec_Some by blast
  define t1 where "t1 = (if ?b ! unat t = qr_size r then 0 else t)"
  have t1: "unat t1 = h mod ?n"
    unfolding t1_def h qhead_def t
    using t mod_round_up [OF n(1), of p] by (auto simp: word_unat_eq_iff)
  define t2 where "t2 = (t1 + (?b ! unat t1 + 1)) mod qr_size r"
  have "unat (t1 + (?b ! unat t1 + 1)) = h mod ?n + w + 1"
    using t1 w fit n by (simp add: unat_add_lt)
  then have t2: "unat t2 = p' mod ?n"
    unfolding t2_def unat_mod p' by (metis (no_types) add.assoc mod_add_left_eq)
  have pl: "qr_payload r (unat t1 + 1, ?b ! unat t1) = Inr m"
    using t1 w fit len
    by (auto simp: qr_payload_def m intro!: nth_equalityI simp del: upt_Suc)
  have r1: "rd ?b (unat t) = Inr (?b ! unat t)" and r2: "rd ?b (unat t1) = Inr (?b ! unat t1)"
    using len t n t1 by (auto intro!: rd_in)
  have "recvLoop r (Suc k) t = rbind (recvLoop r k t2) (\<lambda>(ms, t''). Inr ((unat t1 + 1, ?b ! unat t1) # ms, t''))"
    by (simp only: recvLoop.simps if_not_P [OF ne] r1 r2 rbind.simps Let_def t2_def
        t1_def [symmetric])
  with pl t2 show ?thesis by blast
qed

lemma recvLoop_spec:
  assumes s: "qshape r" and ch: "chain (qdec (qn r) (qr_buf r)) p q e"
    and t: "unat t = p mod qn r" and e: "e mod qn r = qi r" "e < p + qn r"
    and k: "k \<le> length q \<or> qr_emptyFlag r = 1"
  shows "\<exists>ms t' p'. recvLoop r k t = Inr (ms, t') \<and> map (qr_payload r) ms = map Inr (take k q) \<and>
    chain (qdec (qn r) (qr_buf r)) p (take k q) p' \<and>
    chain (qdec (qn r) (qr_buf r)) p' (drop k q) e \<and> unat t' = p' mod qn r"
  using ch t e(2) k
proof (induction k arbitrary: p q t)
  case 0
  then show ?case by auto
next
  case (Suc k)
  show ?case
  proof (cases q)
    case Nil
    with Suc.prems e have "t = qr_in r" by (auto simp: word_unat_eq_iff)
    with Nil Suc.prems show ?thesis by auto
  next
    case (Cons m q')
    with Suc.prems obtain p1 where p1: "qdec (qn r) (qr_buf r) p = Some (m, p1)"
        "chain (qdec (qn r) (qr_buf r)) p1 q' e" by auto
    have lt: "p < p1" "p1 \<le> e" using qfr.dec_progress [OF p1(1)] qfr.chain_le [OF p1(2)] by auto
    have "t \<noteq> qr_in r"
      using mod_window [of p "qn r" e] lt Suc.prems e by (auto simp: word_unat_eq_iff)
    then obtain pl t' where st: "unat t' = p1 mod qn r" "qr_payload r pl = Inr m"
        "recvLoop r (Suc k) t = rbind (recvLoop r k t') (\<lambda>(ms, t''). Inr (pl # ms, t''))"
      using recvLoop_step [OF s p1(1) Suc.prems(2)] by blast
    have "k \<le> length q' \<or> qr_emptyFlag r = 1" and "e < p1 + qn r"
      using Suc.prems lt Cons by auto
    from Suc.IH [OF p1(2) st(1) this(2,1)] st p1 Cons show ?thesis by fastforce
  qed
qed

lemma qdec_shift: "qdec n b (p + n) = map_option (\<lambda>(m, p'). (m, p' + n)) (qdec n b p)"
proof -
  have "qhead n b (p + n) = qhead n b p + n" by (simp add: qhead_def)
  then show ?thesis by (simp add: qdec_def Let_def)
qed

lemma qchain_mod:
  assumes "chain (qdec n b) p q (p + d)" shows "chain (qdec n b) (p mod n) q (p mod n + d)"
  using chain_shift_mult [of "qdec n b" n "p mod n" "p div n" q "p mod n + d"] qdec_shift assms
  by (simp add: add.commute add.left_commute)

text \<open>
  Receiving \<open>k\<close> messages in one call and completing them removes the \<open>k\<close> oldest, which are the
  ones delivered, provided no more than the queued messages are asked for or the empty flag is
  still set.
\<close>

lemma recvBulk_rel:
  assumes rel: "qrel r q" and k: "k \<le> length q \<or> qr_emptyFlag r = 1"
  shows "\<exists>ms r'. QuickMsgRingBeginRecvMsgBulk r k = Inr (ms, r') \<and>
    map (qr_payload r') ms = map Inr (take k q) \<and> qrel r' q \<and>
    qrel (QuickMsgRingRecvMsgComplete r') (drop k q)"
proof -
  have wf: "qwf r" and s: "qshape r" and i: "qi r < qn r" using rel by (auto simp: qrel_def qwf_def)
  let ?e = "qo r + qused r (qi r)"
  have ch: "chain (qdec (qn r) (qr_buf r)) (qo r) q ?e" using rel by (simp add: qrel_def)
  have o: "unat (qr_out r) = qo r mod qn r" using s by (simp add: qshape_def)
  obtain ms t p where rl: "recvLoop r k (qr_out r) = Inr (ms, t)"
      "map (qr_payload r) ms = map Inr (take k q)"
      "chain (qdec (qn r) (qr_buf r)) (qo r) (take k q) p"
      "chain (qdec (qn r) (qr_buf r)) p (drop k q) ?e" "unat t = p mod qn r"
    using recvLoop_spec [OF s ch o qused_mod [OF s i] _ k] qused_bounds [OF s i] by auto
  let ?r1 = "r\<lparr>qr_nextOut := t\<rparr>" and ?r2 = "QuickMsgRingRecvMsgComplete (r\<lparr>qr_nextOut := t\<rparr>)"
  have p: "qo r \<le> p" "p \<le> ?e" using qfr.chain_le [OF rl(3)] qfr.chain_le [OF rl(4)] by auto
  have s2: "qshape ?r2" using s rl(5)
    by (auto simp: qshape_def QuickMsgRingRecvMsgComplete_def Let_def)
  have "(p mod qn r + (?e - p)) mod qn r = qi r"
    using p qused_mod [OF s i]
    by (metis (no_types) le_add_diff_inverse mod_add_left_eq)
  then have u2: "qused ?r2 (qi r) = ?e - p"
    using qused_eqI [OF s2, of "?e - p"] qused_bounds [OF s i] p rl(5)
    by (auto simp: QuickMsgRingRecvMsgComplete_def Let_def)
  have "chain (qdec (qn r) (qr_buf r)) (p mod qn r) (drop k q) (p mod qn r + (?e - p))"
    by (rule qchain_mod) (use rl(4) p in simp)
  then have "qrel ?r2 (drop k q)"
    using s2 u2 i rl(5) by (auto simp: qrel_def qwf_def QuickMsgRingRecvMsgComplete_def Let_def)
  moreover have "qrel ?r1 q" using rel by (simp add: qrel_def qwf_def)
  moreover have "qr_payload ?r1 = qr_payload r" by (rule ext) (auto simp: qr_payload_def split: prod.splits)
  then have "map (qr_payload ?r1) ms = map Inr (take k q)" using rl(2) by simp
  ultimately show ?thesis
    using rl(1) by (simp add: QuickMsgRingBeginRecvMsgBulk_def)
qed


lemma recv_one:
  assumes "qrel r q"
  shows "\<exists>ms r'. QuickMsgRingBeginRecvMsg r = Inr (ms, r') \<and>
    (case q of [] \<Rightarrow> ms = [] \<and> qrel r' []
     | m # q' \<Rightarrow> \<exists>pl. ms = [pl] \<and> qr_payload r' pl = Inr m \<and> unat (snd pl) = length m \<and>
         qrel r' q \<and> qrel (QuickMsgRingRecvMsgComplete r') q')"
proof -
  have "1 \<le> length q \<or> qr_emptyFlag r = 1"
  proof (cases q)
    case Nil
    then have "qused r (qi r) = 0" using assms by (auto simp: qrel_def)
    then show ?thesis using assms by (auto simp: qrel_def qwf_def qused_0_iff word_unat_eq_iff)
  qed simp
  then obtain ms r' where b: "QuickMsgRingBeginRecvMsg r = Inr (ms, r')"
      "map (qr_payload r') ms = map Inr (take 1 q)" "qrel r' q"
      "qrel (QuickMsgRingRecvMsgComplete r') (drop 1 q)"
    using recvBulk_rel [OF assms] unfolding QuickMsgRingBeginRecvMsg_def by metis
  show ?thesis
  proof (cases q)
    case Nil
    then show ?thesis using b by auto
  next
    case (Cons m q')
    then obtain pl where pl: "ms = [pl]" "qr_payload r' pl = Inr m" using b(2) by auto
    then have "unat (snd pl) = length m"
      by (auto simp: qr_payload_def min_def split: prod.splits if_splits)
    then show ?thesis using b pl Cons by (cases pl) auto
  qed
qed

text \<open>
  \<open>QuickMsgRingRecvMsgWithUnpackFunc\<close> consumes the head of the queue exactly when the callback
  returns 0; on an empty ring it returns 0 without calling it.
\<close>

lemma Unpack_empty:
  assumes "qrel r []"
  shows "\<exists>r'. QuickMsgRingRecvMsgWithUnpackFunc r f s = Inr (0, s, r') \<and> qrel r' []"
  using recv_one [OF assms] by (auto simp: QuickMsgRingRecvMsgWithUnpackFunc_def)

lemma Unpack_head:
  assumes "qrel r (m # q)" and "f s m (of_nat (length m)) = Inr (ret, s')"
  shows "\<exists>r'. QuickMsgRingRecvMsgWithUnpackFunc r f s = Inr (ret, s', r') \<and>
    qrel r' (if ret = 0 then q else m # q)"
proof -
  from recv_one [OF assms(1)] obtain pl r' where
    b: "QuickMsgRingBeginRecvMsg r = Inr ([pl], r')" "qr_payload r' pl = Inr m"
    "unat (snd pl) = length m" "qrel r' (m # q)" "qrel (QuickMsgRingRecvMsgComplete r') q"
    by auto
  have "of_nat (unat (snd pl)) = snd pl" by simp
  then have "snd pl = of_nat (length m)" using b(3) by simp
  then show ?thesis using b assms(2) by (auto simp: QuickMsgRingRecvMsgWithUnpackFunc_def)
qed

lemma Pack_rel:
  assumes rel: "qrel r q" and w: "w = words_for (unat wc)"
    and f: "f (replicate w 0) = (ret, m)" "length m = w"
  shows "\<exists>r'. QuickMsgRingSendMsgWithPackFunc r wc f
      = Inr (if qheader r (qi r) w = None then - 1 else ret, r')
    \<and> qrel r' (if qheader r (qi r) w = None \<or> ret \<noteq> 0 then q else q @ [m])"
proof (cases "qheader r (qi r) w")
  case None
  then show ?thesis
    using QuickMsgRingGetBuf_eq [of r wc] rel w
    by (auto simp: QuickMsgRingSendMsgWithPackFunc_def qrel_def qwf_def)
next
  case (Some h)
  have wf: "qwf r" and s: "qshape r" and i: "qi r < qn r" and ch: "qchain r q (qi r)"
    using rel by (auto simp: qrel_def qwf_def)
  let ?t = "of_nat ((h + w + 1) mod qn r) :: u32"
  let ?r1 = "(qplaced r (qi r) h w)\<lparr>qr_nextIn := ?t\<rparr>"
  let ?r2 = "(qstored r (qi r) h m)\<lparr>qr_nextIn := ?t\<rparr>"
  have fit: "h + length m < length (qr_buf r)" "h + w < length (qr_buf r)"
    using qheader_bounds(2) [OF Some s i] s f by (auto simp: qshape_def)
  have gb: "QuickMsgRingGetBuf r wc = Inr ([h + 1], ?r1)"
    using QuickMsgRingGetBuf_eq [OF wf, of wc] Some w by simp
  let ?b = "if h = qi r then qr_buf r else (qr_buf r)[qi r := qr_size r]"
  have "take w (drop (h + 1) (put_rec ?b h w)) = replicate w 0"
    using put_rec_split [of h w ?b] fit by simp
  then have pl: "qr_payload ?r1 (h + 1, qr_words wc) = Inr (replicate w 0)"
    using fit w by (simp add: qr_payload_def qstored_def unat_qr_words)
  have wb: "wr_block (qr_buf ?r1) (h + 1) m = Inr (qr_buf ?r2)"
    using overlay_put_rec [of h m ?b] fit f by (simp add: qstored_def)
  have r2: "?r1\<lparr>qr_buf := qr_buf ?r2\<rparr> = ?r2" by (simp add: qstored_def)
  have pack: "QuickMsgRingSendMsgWithPackFunc r wc f
      = Inr (ret, if ret = 0 then ?r2\<lparr>qr_in := ?t\<rparr> else ?r2)"
    unfolding QuickMsgRingSendMsgWithPackFunc_def gb
    using pl f wb r2 by (simp add: qr_commit_def Let_def)
  have "chain (qdec (qn r) (qr_buf ?r2)) (qo r) q (qo r + qused r (qi r))"
    by (rule qfr.chain_frame [OF ch])
      (use qstored_frame [of r "qi r" m h] Some s i f in auto)
  then have "qrel ?r2 q"
    using rel qshape_qstored [of r "qi r" m h] Some f by (simp add: qrel_def qwf_def)
  moreover have "qrel (?r2\<lparr>qr_in := ?t\<rparr>) (q @ [m])"
    using qrelI_commit [OF wf ch, of m h] Some f by simp
  ultimately show ?thesis using pack Some by auto
qed

section \<open>The ring as a queue\<close>

definition qr_put :: "u8 list \<Rightarrow> qring \<Rightarrow> (bool \<times> qring) res" where
  "qr_put bs r = rbind (QuickMsgRingSendMsg r (MsgExt bs) (of_nat (length bs)))
     (\<lambda>(rc, r'). Inr (rc = 0, r'))"

definition qr_get :: "qring \<Rightarrow> (u32 list option \<times> qring) res" where
  "qr_get r = rbind (QuickMsgRingRecvMsgWithUnpackFunc r (\<lambda>s ws len. Inr (0, Some ws)) None)
     (\<lambda>(_, s, r'). Inr (s, r'))"

interpretation quickring: fifo_ring qrel qr_put qr_get qpad "\<lambda>bs. length bs < 2 ^ 32"
proof (unfold_locales)
  fix r q and bs :: "u8 list"
  assume rel: "qrel r q" and len: "length bs < 2 ^ 32"
  have l: "unat (of_nat (length bs) :: u32) = length bs" by (rule unat_of_nat_u32 [OF len])
  from SendMsg_ext_rel [OF rel, of "of_nat (length bs)" bs]
  show "\<exists>ok r'. qr_put bs r = Inr (ok, r') \<and> qrel r' (if ok then q @ [qpad bs] else q)"
    by (auto simp: qr_put_def l split: if_splits)
next
  fix r assume "qrel r []"
  then show "\<exists>r'. qr_get r = Inr (None, r') \<and> qrel r' []"
    using Unpack_empty [of r "\<lambda>s ws len. Inr (0, Some ws)" None] by (auto simp: qr_get_def)
next
  fix r m q assume "qrel r (m # q)"
  then show "\<exists>r'. qr_get r = Inr (Some m, r') \<and> qrel r' q"
    using Unpack_head [of r m q "\<lambda>s ws len. Inr (0, Some ws)" None 0 "Some m"]
    by (auto simp: qr_get_def)
qed

section \<open>Initialisation\<close>

lemma words_of_zero_bytes: "words_of_bytes (replicate (4 * n) 0) = replicate n 0"
  using words_of_bytes_of_words [of "replicate n 0"] by (simp add: bytes_of_words_zeros)

lemma init_ok:
  assumes sz: "8 \<le> unat sz" and bs: "unat sz \<le> length bs"
  shows "\<exists>r. init_quickMsgRing (Some bs) sz fresh = Inr (0, r) \<and> qrel r [] \<and>
    qn r = unat sz div 4 \<and> qi r = 0 \<and> qo r = 0"
proof -
  let ?n = "unat (sz div 4)"
  have n: "?n = unat sz div 4" by (simp add: unat_div)
  have lt: "\<not> sz < 8" using sz by (simp add: word_less_nat_alt)
  have b: "2 \<le> ?n" "?n < 2 ^ 30" using sz unat_u32_lt [of sz] by (auto simp: n)
  have "4 * ?n \<le> length bs" using bs by (simp add: n)
  then have w: "wr_block bs 0 (replicate (?n * 4) 0) = Inr (replicate (4 * ?n) 0 @ drop (4 * ?n) bs)"
    by (simp add: overlay_def mult.commute)
  have t: "take ?n (words_of_bytes (replicate (4 * ?n) 0 @ drop (4 * ?n) bs)) = replicate ?n 0"
    by (simp add: words_of_bytes_append words_of_zero_bytes)
  show ?thesis unfolding init_quickMsgRing_def
    using lt b w t n by (simp add: Let_def qrel_def qwf_def qshape_def qring_zero_def qused_def)
qed


section \<open>Properties\<close>

text \<open>
  C3: From an initialised ring every interleaving of sends (of any byte messages) and receives
  runs without a fault, and the payloads received, followed by those still queued, are exactly
  the accepted messages, zero-padded to words, in the order they were sent.
\<close>

theorem quick_ring_fifo:
  assumes "8 \<le> unat sz" and "unat sz \<le> length mem" and "puts_valid (\<lambda>bs. length bs < 2 ^ 32) ops"
  shows "\<exists>r acc rcv r' q. init_quickMsgRing (Some mem) sz fresh = Inr (0, r) \<and>
    fifo_run qr_put qr_get r ops = Inr (acc, rcv, r') \<and> qrel r' q \<and> map qpad acc = rcv @ q"
  using init_ok [OF assms(1,2)] quickring.fifo_run_order [OF _ assms(3), of _ "[]"] by fastforce

theorem quick_ring_fifo_witness:
  "\<exists>r acc rcv r' q. init_quickMsgRing (Some (replicate 32 7)) 32 None = Inr (0, r) \<and>
    fifo_run qr_put qr_get r [Put [1, 2, 3], Put [4, 5, 6, 7, 8], Get, Put [9], Get, Get, Get]
      = Inr (acc, rcv, r') \<and> qrel r' q \<and> map qpad acc = rcv @ q"
  by (rule quick_ring_fifo) auto

text \<open>
  C24: A message from outside the ring is accepted (return value 0) exactly when it leaves at least
  one word unused and either the free space does not wrap, or the record fits before the end of
  the buffer, or it fits in front of the oldest message with two words to spare; it is then
  appended with its bytes padded to words. Otherwise -1 is returned and the queue is unchanged.
\<close>

theorem send_accepts_exactly:
  assumes rel: "qrel r q" and len: "unat msgLen \<le> length bs"
  shows "\<exists>rc r'. QuickMsgRingSendMsg r (MsgExt bs) msgLen = Inr (rc, r') \<and> (rc = 0 \<or> rc = - 1) \<and>
    qrel r' (if rc = 0 then q @ [qpad (take (unat msgLen) bs)] else q) \<and>
    (let w = words_for (unat msgLen); i = qi r; out = qo r; n = qn r
     in rc = 0 \<longleftrightarrow> qused r i + w + 1 < n \<and> (i < out \<or> i + w + 1 \<le> n \<or> w + 3 \<le> out))"
proof -
  let ?w = "words_for (unat msgLen)"
  have s: "qshape r" "qi r < qn r" "qr_emptyFlag r = 1 \<or> qi r \<noteq> qo r"
    using rel by (auto simp: qrel_def qwf_def word_unat_eq_iff)
  have "(qheader r (qi r) ?w \<noteq> None) \<longleftrightarrow>
      qused r (qi r) + ?w + 1 < qn r \<and> (qi r < qo r \<or> qi r + ?w + 1 \<le> qn r \<or> ?w + 3 \<le> qo r)"
    using qused_qfree [OF s] s by (auto simp: qheader_def qfree_def qshape_def)
  moreover obtain r' where
    "QuickMsgRingSendMsg r (MsgExt bs) msgLen = Inr (if qheader r (qi r) ?w = None then - 1 else 0, r')"
    "qrel r' (if qheader r (qi r) ?w = None then q else q @ [qpad (take (unat msgLen) bs)])"
    using SendMsg_ext_rel [OF rel len] len by auto
  ultimately show ?thesis
    by (cases "qheader r (qi r) ?w = None")
      (auto simp: Let_def simp del: QuickMsgRingSendMsg.simps)
qed

definition ring8 :: qring where
  "ring8 = qring_zero\<lparr>qr_buf := replicate 8 0, qr_size := 8, qr_flag := 1, qr_emptyFlag := 1\<rparr>"

lemma ring8_rel: "qrel ring8 []"
  by (simp add: ring8_def qring_zero_def qrel_def qwf_def qshape_def qused_def)

theorem send_accepts_exactly_witness:
  "\<exists>r'. QuickMsgRingSendMsg ring8 (MsgExt [1, 2, 3, 4, 5]) 5 = Inr (0, r') \<and>
    qrel r' [qpad [1, 2, 3, 4, 5]]"
  using send_accepts_exactly [OF ring8_rel, of 5 "[1, 2, 3, 4, 5]"]
  by (auto simp: Let_def qused_def ring8_def qring_zero_def words_for_def
      simp del: QuickMsgRingSendMsg.simps)

text \<open>
  An empty ring always accepts a message that needs at most half of it (less two words),
  wherever its indices are.
\<close>

theorem empty_ring_accepts_half:
  assumes "qrel r []" and "length bs < 2 ^ 32" and "2 * words_for (length bs) + 3 \<le> qn r"
  shows "\<exists>r'. qr_put bs r = Inr (True, r') \<and> qrel r' [qpad bs]"
proof -
  have l: "unat (of_nat (length bs) :: u32) = length bs" by (rule unat_of_nat_u32 [OF assms(2)])
  have s: "qshape r" "qi r < qn r" "qr_emptyFlag r = 1" "qi r = qo r"
    using assms(1) qused_0_iff [of r "qi r"] by (auto simp: qrel_def qwf_def word_unat_eq_iff)
  then have "qheader r (qi r) (words_for (length bs)) \<noteq> None"
    using assms(3) by (auto simp: qheader_def qfree_def)
  then show ?thesis
    using SendMsg_ext_rel [OF assms(1), of "of_nat (length bs)" bs] by (auto simp: qr_put_def l)
qed

theorem empty_ring_accepts_half_witness:
  "\<exists>r'. qr_put [1, 2, 3, 4, 5, 6, 7, 8] ring8 = Inr (True, r') \<and> qrel r' [qpad [1, 2, 3, 4, 5, 6, 7, 8]]"
  by (rule empty_ring_accepts_half [OF ring8_rel]) (simp_all add: ring8_def qring_zero_def words_for_def)


text \<open>
  An empty ring can refuse a message that fits in it, forever: when its indices stand within
  the last \<open>w\<close> words but not beyond word \<open>w + 2\<close>, every send of \<open>w\<close> words fails, whatever receives
  are made in between, since an empty ring never returns its indices to 0.
\<close>

lemma stuck_step_put:
  assumes "qrel r []" and "qn r < qi r + w + 1" and "qi r < w + 3"
    and "words_for (length bs) = w" and "length bs < 2 ^ 32"
  shows "qr_put bs r = Inr (False, r\<lparr>qr_nextIn := qr_in r\<rparr>)"
proof -
  have l: "unat (of_nat (length bs) :: u32) = length bs" by (rule unat_of_nat_u32 [OF assms(5)])
  have s: "qwf r" "qi r < qn r" "qr_emptyFlag r = 1" "qi r = qo r"
    using assms(1) qused_0_iff [of r "qi r"] by (auto simp: qrel_def qwf_def word_unat_eq_iff)
  then have "qheader r (qi r) w = None" using assms(2,3) by (auto simp: qheader_def qfree_def)
  then show ?thesis
    using QuickMsgRingSendMsg_eq [OF s(1), of "of_nat (length bs)" bs] assms(4)
    by (simp add: qr_put_def l del: QuickMsgRingSendMsg.simps)
qed

lemma stuck_step_get:
  assumes "qrel r []"
  shows "qr_get r = Inr (None, r\<lparr>qr_nextOut := qr_out r\<rparr>)"
proof -
  have "qr_out r = qr_in r" "qr_emptyFlag r = 1"
    using assms qused_0_iff [of r "qi r"] by (auto simp: qrel_def qwf_def word_unat_eq_iff)
  then show ?thesis
    by (simp add: qr_get_def QuickMsgRingRecvMsgWithUnpackFunc_def QuickMsgRingBeginRecvMsg_def
        QuickMsgRingBeginRecvMsgBulk_def One_nat_def [symmetric] numeral_eq_Suc del: One_nat_def)
      (simp add: numeral_eq_Suc)
qed

theorem empty_ring_starves:
  assumes "qrel r []" and "qn r < qi r + w + 1" and "qi r < w + 3"
    and "puts_valid (\<lambda>bs. words_for (length bs) = w \<and> length bs < 2 ^ 32) ops"
  shows "\<exists>r'. fifo_run qr_put qr_get r ops = Inr ([], [], r')"
  using assms
proof (induction ops arbitrary: r)
  case (Cons op ops)
  note st = Cons.prems(1-3)
  show ?case
  proof (cases op)
    case (Put bs)
    moreover have "qrel (r\<lparr>qr_nextIn := qr_in r\<rparr>) []" using st(1) by (simp add: qrel_def qwf_def)
    ultimately show ?thesis
      using stuck_step_put [OF st] Cons.prems(4) Cons.IH [of "r\<lparr>qr_nextIn := qr_in r\<rparr>"] st by auto
  next
    case Get
    moreover have "qrel (r\<lparr>qr_nextOut := qr_out r\<rparr>) []" using st(1) by (simp add: qrel_def qwf_def)
    ultimately show ?thesis
      using stuck_step_get [OF st(1)] Cons.prems(4) Cons.IH [of "r\<lparr>qr_nextOut := qr_out r\<rparr>"] st
      by auto
  qed
qed auto

definition ring8_mid :: qring where
  "ring8_mid = ring8\<lparr>qr_in := 4, qr_out := 4, qr_nextIn := 4, qr_nextOut := 4\<rparr>"

theorem empty_ring_starves_witness:
  "(\<exists>r'. fifo_run qr_put qr_get ring8_mid [Put (replicate 16 1), Get, Put (replicate 15 2)]
      = Inr ([], [], r'))"
  by (rule empty_ring_starves [where w = 4])
    (simp_all add: ring8_mid_def ring8_def qring_zero_def qrel_def qwf_def qshape_def qused_def
      words_for_def)

text \<open>
  \<open>QuickMsgRingRecvMsgWithUnpackFunc\<close> hands the oldest message and its length in words to the
  callback and removes it exactly when the callback returns 0; after any other code the message
  is still the oldest, and the code is returned.
\<close>

theorem unpack_consumes_iff_zero:
  assumes "qrel r (m # q)" and "f s m (of_nat (length m)) = Inr (ret, s')"
  shows "\<exists>r'. QuickMsgRingRecvMsgWithUnpackFunc r f s = Inr (ret, s', r') \<and>
    qrel r' (if ret = 0 then q else m # q)"
  using assms by (rule Unpack_head)

definition ring8_one :: qring where
  "ring8_one = ring8\<lparr>qr_buf := [1, 42, 0, 0, 0, 0, 0, 0], qr_in := 2, qr_nextIn := 2\<rparr>"

lemma ring8_one_rel: "qrel ring8_one [[42]]"
  by (simp add: ring8_one_def ring8_def qring_zero_def qrel_def qwf_def qshape_def qused_def
      qdec_def qhead_def)

theorem unpack_consumes_iff_zero_witness:
  "\<exists>r'. QuickMsgRingRecvMsgWithUnpackFunc ring8_one (\<lambda>s ws l. Inr (- 1, hd ws)) 0 = Inr (- 1, 42, r')
    \<and> qrel r' [[42]]"
  using unpack_consumes_iff_zero [OF ring8_one_rel, of "\<lambda>s ws l. Inr (- 1, hd ws)" 0 "- 1" 42] by simp

text \<open>
  \<open>QuickMsgRingSendMsgWithPackFunc\<close> queues what the callback wrote into the reserved words
  exactly when space was found and the callback returned 0; without space it returns -1 and does
  not call it, and a non-zero code of the callback is returned with the queue unchanged.
\<close>

theorem pack_commits_iff_zero:
  assumes "qrel r q" and "w = words_for (unat wc)"
    and "f (replicate w 0) = (ret, m)" and "length m = w"
  shows "\<exists>r'. QuickMsgRingSendMsgWithPackFunc r wc f
      = Inr (if qheader r (qi r) w = None then - 1 else ret, r')
    \<and> qrel r' (if qheader r (qi r) w = None \<or> ret \<noteq> 0 then q else q @ [m])"
  using assms by (rule Pack_rel)

lemma ring8_header: "qheader ring8 (qi ring8) 2 = Some 0"
  by (simp add: qheader_def qfree_def ring8_def qring_zero_def)

theorem pack_commits_iff_zero_witness:
  "\<exists>r'. QuickMsgRingSendMsgWithPackFunc ring8 8 (\<lambda>b. (0, map (\<lambda>_. 5) b)) = Inr (0, r') \<and>
    qrel r' [replicate 2 5]"
  using pack_commits_iff_zero [OF ring8_rel, of 2 8 "\<lambda>b. (0, map (\<lambda>_. 5) b)" 0 "replicate 2 5"]
  by (simp add: words_for_def ring8_header)

text \<open>
  C28: A bulk receive of at most the queued messages, completed, delivers and removes exactly the
  oldest ones, in order.
\<close>

theorem bulk_receive_order:
  assumes "qrel r q" and "k \<le> length q"
  shows "\<exists>ms r'. QuickMsgRingBeginRecvMsgBulk r k = Inr (ms, r') \<and>
    map (qr_payload r') ms = map Inr (take k q) \<and>
    qrel (QuickMsgRingRecvMsgComplete r') (drop k q)"
  using recvBulk_rel [OF assms(1)] assms(2) by metis

theorem bulk_receive_order_witness:
  "\<exists>ms r'. QuickMsgRingBeginRecvMsgBulk ring8_one 1 = Inr (ms, r') \<and>
    map (qr_payload r') ms = [Inr [42]] \<and> qrel (QuickMsgRingRecvMsgComplete r') []"
  using bulk_receive_order [OF ring8_one_rel, of 1] by simp

text \<open>
  Once the empty flag is cleared, a bulk receive does not notice the end of the queue: it
  returns as many messages as were asked for, the surplus decoded from stale words.
\<close>

lemma recvLoop_no_flag:
  "qr_emptyFlag r \<noteq> 1 \<Longrightarrow> recvLoop r k t = Inr (ms, t') \<Longrightarrow> length ms = k"
  by (induction k arbitrary: t ms) (auto simp: rbind_Inr_iff Let_def)

theorem bulk_receive_overrun:
  assumes "qrel r q" and "qr_emptyFlag r \<noteq> 1" and "length q < k"
    and "QuickMsgRingBeginRecvMsgBulk r k = Inr (ms, r')"
  shows "length q < length ms"
  using assms recvLoop_no_flag [of r k "qr_out r"]
  by (auto simp: QuickMsgRingBeginRecvMsgBulk_def rbind_Inr_iff)

definition ring8_after :: qring where
  "ring8_after = ring8\<lparr>qr_buf := [1, 41, 1, 42, 0, 0, 0, 0], qr_in := 4, qr_nextIn := 4,
     qr_out := 2, qr_nextOut := 2, qr_emptyFlag := 0\<rparr>"

lemma ring8_after_reached:
  "rbind (qr_put [41] ring8) (\<lambda>(_, r1). rbind (qr_put [42] r1) (\<lambda>(_, r2).
     rbind (qr_get r2) (\<lambda>(m, r3). Inr (m, r3)))) = Inr (Some [41], ring8_after)"
  by code_simp

lemma ring8_after_bulk:
  "rbind (QuickMsgRingBeginRecvMsgBulk ring8_after 2) (\<lambda>(ms, r). Inr ms) = Inr [(3, 1), (5, 0)]"
  by code_simp

theorem bulk_receive_overrun_witness:
  "\<exists>ms r'. QuickMsgRingBeginRecvMsgBulk ring8_after 2 = Inr (ms, r') \<and> length [[42 :: u32]] < length ms"
proof -
  have rel: "qrel ring8_after [[42]]"
    by (simp add: ring8_after_def ring8_def qring_zero_def qrel_def qwf_def qshape_def qused_def
        qdec_def qhead_def)
  obtain ms r' where b: "QuickMsgRingBeginRecvMsgBulk ring8_after 2 = Inr (ms, r')"
    using ring8_after_bulk by (cases "QuickMsgRingBeginRecvMsgBulk ring8_after 2") auto
  have "qr_emptyFlag ring8_after \<noteq> 1" by (simp add: ring8_after_def)
  from bulk_receive_overrun [OF rel this _ b] b show ?thesis by auto
qed

end
