(* ===== verification/CmmQuickMsgRing.thy ===== *)
theory CmmQuickMsgRing
  imports Framing
begin

text \<open>
  The 64-bit word ring of \<open>common/src/cmmQuickMsgRing.c\<close>. Its indices run freely modulo
  \<open>2 ^ 32\<close> and are masked into a buffer whose size is a power of two, so the ring can be filled
  completely. A message starts with a head word: 16 bits of length in words (the head included),
  16 bits of type, 32 reserved bits. A head with type \<open>MSG_ID_DUMMY\<close> is skipped by the reader,
  and \<open>PrePut\<close> stores one when a record does not fit before the end of the buffer.

  \<open>assert\<close> is compiled in here: a failed assertion is a fault. The receive loop does not advance
  over a dummy of length 0, so it is a partial function.
\<close>

section \<open>State and operations\<close>

record cring =
  cr_size :: u32
  cr_mask :: u32
  cr_nextIn :: u32
  cr_nextOut :: u32
  cr_in :: u32
  cr_out :: u32
  cr_buf :: "u64 list"

definition MSG_ID_DUMMY :: u64 where "MSG_ID_DUMMY = 0"

definition msg_wordCount :: "u64 \<Rightarrow> u16" where "msg_wordCount h = ucast h"
definition msg_msgType :: "u64 \<Rightarrow> u16" where "msg_msgType h = ucast (drop_bit 16 h)"

definition cmm_QuickMsgRingUsed :: "cring \<Rightarrow> u32" where
  "cmm_QuickMsgRingUsed r = cr_in r - cr_out r"

definition cmm_QuickMsgRingUnused :: "cring \<Rightarrow> u32" where
  "cmm_QuickMsgRingUnused r = cr_size r - cr_in r + cr_out r"

definition cmm_isPowerOf2 :: "u32 \<Rightarrow> bool" where
  "cmm_isPowerOf2 n \<longleftrightarrow> n \<noteq> 0 \<and> n AND (n - 1) = 0"

text \<open>\<open>buf\<close> holds the words behind the ring's own header; null is \<open>None\<close>.\<close>

definition cmm_QuickMsgRingInit :: "u64 list option \<Rightarrow> u32 \<Rightarrow> cring res" where
  "cmm_QuickMsgRingInit buf wordCount =
     (case buf of None \<Rightarrow> Inl AssertFail
      | Some ws \<Rightarrow>
          rbind (guard (drop_bit 29 wordCount = 0) AssertFail) (\<lambda>_.
          rbind (guard (cmm_isPowerOf2 wordCount) AssertFail) (\<lambda>_.
            Inr \<lparr>cr_size = wordCount, cr_mask = wordCount - 1, cr_nextIn = 0, cr_nextOut = 0,
              cr_in = 0, cr_out = 0, cr_buf = ws\<rparr>)))"

text \<open>One iteration of the reservation loop; \<open>None\<close> is a \<open>break\<close>.\<close>

definition prePutStep :: "cring \<Rightarrow> u32 \<Rightarrow> u16 \<Rightarrow> (nat \<times> u32 \<times> cring) option res" where
  "prePutStep r tmpIn wc =
     (let unused = cr_size r - tmpIn + cr_out r; w = (ucast wc :: u32);
          topUnused = cr_size r - (tmpIn AND cr_mask r) in
      if unused < w then Inr None
      else if topUnused \<ge> w then
        (let idx = unat (tmpIn AND cr_mask r) in
         rbind (wr (cr_buf r) idx (ucast wc)) (\<lambda>b.
           Inr (Some (idx, tmpIn + w, r\<lparr>cr_buf := b\<rparr>))))
      else if unused \<ge> topUnused + w then
        rbind (wr (cr_buf r) (unat (tmpIn AND cr_mask r))
          (push_bit 16 MSG_ID_DUMMY OR ucast topUnused)) (\<lambda>b.
        rbind (wr b 0 (ucast wc)) (\<lambda>b'.
          Inr (Some (0, tmpIn + (topUnused + w), r\<lparr>cr_buf := b'\<rparr>))))
      else Inr None)"

fun prePutLoop :: "cring \<Rightarrow> u32 \<Rightarrow> u16 list \<Rightarrow> (nat list \<times> u32 \<times> cring) res" where
  "prePutLoop r tmpIn [] = Inr ([], tmpIn, r)"
| "prePutLoop r tmpIn (wc # wcs) =
     rbind (prePutStep r tmpIn wc) (\<lambda>res.
       case res of None \<Rightarrow> Inr ([], tmpIn, r)
       | Some (idx, t', r') \<Rightarrow>
           rbind (prePutLoop r' t' wcs) (\<lambda>(ps, t'', r''). Inr (idx # ps, t'', r'')))"

definition cmm_PrePutMsgBurst :: "cring \<Rightarrow> u16 list \<Rightarrow> (nat list \<times> cring) res" where
  "cmm_PrePutMsgBurst r wcs =
     rbind (prePutLoop r (cr_in r) wcs) (\<lambda>(ps, t, r'). Inr (ps, r'\<lparr>cr_nextIn := t\<rparr>))"

definition cmm_PrePutOneMsg :: "cring \<Rightarrow> u16 \<Rightarrow> (nat list \<times> cring) res" where
  "cmm_PrePutOneMsg r wc = cmm_PrePutMsgBurst r [wc]"

definition cmm_PutMsgComplete :: "cring \<Rightarrow> cring" where
  "cmm_PutMsgComplete r = r\<lparr>cr_in := cr_nextIn r\<rparr>"

definition cmm_GetMsgComplete :: "cring \<Rightarrow> cring" where
  "cmm_GetMsgComplete r = r\<lparr>cr_out := cr_nextOut r\<rparr>"

partial_function (option) preGetLoop :: "cring \<Rightarrow> nat \<Rightarrow> u32 \<Rightarrow> (nat list \<times> u32) res option" where
  "preGetLoop r k t =
     (if k = 0 \<or> t = cr_in r then Some (Inr ([], t))
      else case rd (cr_buf r) (unat (t AND cr_mask r)) of
          Inl f \<Rightarrow> Some (Inl f)
        | Inr h \<Rightarrow>
            if msg_msgType h = ucast MSG_ID_DUMMY then
              preGetLoop r k (t + ucast (msg_wordCount h))
            else
              Option.bind (preGetLoop r (k - 1) (t + ucast (msg_wordCount h))) (\<lambda>res.
                Some (rbind res (\<lambda>(ps, t'). Inr (unat (t AND cr_mask r) # ps, t')))))"

definition cmm_PreGetMsgBurst :: "cring \<Rightarrow> nat \<Rightarrow> (nat list \<times> cring) res option" where
  "cmm_PreGetMsgBurst r maxMsgCount =
     Option.bind (preGetLoop r maxMsgCount (cr_out r)) (\<lambda>res.
       Some (rbind res (\<lambda>(ps, t). Inr (ps, r\<lparr>cr_nextOut := t\<rparr>))))"

definition cmm_PreGetOneMsg :: "cring \<Rightarrow> (nat list \<times> cring) res option" where
  "cmm_PreGetOneMsg r = cmm_PreGetMsgBurst r 1"

text \<open>
  The message at an index: as many words as its head says. The callback of a put receives the
  reserved words (only the head is initialised) and returns its code and their new contents; the
  callback of a get receives the message.
\<close>

definition cr_message :: "cring \<Rightarrow> nat \<Rightarrow> nat \<Rightarrow> u64 list res" where
  "cr_message r idx w =
     (if idx + w \<le> length (cr_buf r) then Inr (take w (drop idx (cr_buf r))) else Inl OutOfRange)"

definition cmm_PutOneMsg ::
    "cring \<Rightarrow> u16 \<Rightarrow> (u64 list \<Rightarrow> int \<times> u64 list) \<Rightarrow> (int \<times> cring) res" where
  "cmm_PutOneMsg r msgWordSz pFunc =
     rbind (cmm_PrePutOneMsg r msgWordSz) (\<lambda>(ps, r').
       if length ps \<noteq> 1 then Inr (- 1, r')
       else
         rbind (cr_message r' (hd ps) (unat msgWordSz)) (\<lambda>m.
         let (ret, m') = pFunc m in
         rbind (guard (length m' = length m) OutOfRange) (\<lambda>_.
         rbind (wr_block (cr_buf r') (hd ps) m') (\<lambda>b.
           Inr (if ret \<noteq> 0 then (ret, r'\<lparr>cr_buf := b\<rparr>)
                else (0, cmm_PutMsgComplete (r'\<lparr>cr_buf := b\<rparr>)))))))"

definition cmm_GetOneMsg ::
    "cring \<Rightarrow> ('s \<Rightarrow> u64 list \<Rightarrow> int \<times> 's) \<Rightarrow> 's \<Rightarrow> (int \<times> 's \<times> cring) res option" where
  "cmm_GetOneMsg r pFunc s =
     Option.bind (cmm_PreGetOneMsg r) (\<lambda>res.
       Some (rbind res (\<lambda>(ps, r').
         if length ps \<noteq> 1 then Inr (int (length ps), s, r')
         else
           rbind (rd (cr_buf r') (hd ps)) (\<lambda>h.
           rbind (cr_message r' (hd ps) (unat (msg_wordCount h))) (\<lambda>m.
           let (ret, s') = pFunc s m in
             Inr (if ret \<noteq> 0 then (ret, s', r') else (0, s', cmm_GetMsgComplete r')))))))"


section \<open>Power-of-two sizes and masks\<close>

lemma and_pred_zero_power:
  fixes n :: nat
  assumes "0 < n" and "n AND (n - 1) = 0"
  shows "\<exists>k. n = 2 ^ k"
  using assms
proof (induction n rule: less_induct)
  case (less n)
  show ?case
  proof (cases "even n")
    case True
    then obtain m where m: "n = 2 * m" by (elim evenE)
    with less.prems have m0: "0 < m" by simp
    have pred: "n - 1 = 1 + 2 * (m - 1)" using m m0 by simp
    have "n AND (n - 1) = 2 * (m AND (m - 1))"
      unfolding pred by (subst and_rec) (simp add: m)
    then have "m AND (m - 1) = 0" using less.prems by simp
    then obtain k where "m = 2 ^ k" using less.IH [of m] m m0 by auto
    then show ?thesis using m by (auto intro: exI [of _ "Suc k"])
  next
    case False
    then obtain m where m: "n = 2 * m + 1" by (elim oddE)
    have "n AND (n - 1) = 2 * (m AND m)"
      unfolding m by (subst and_rec) simp
    then have "m = 0" using less.prems by simp
    then show ?thesis using m by (auto intro: exI [of _ 0])
  qed
qed

lemma unat_of_nat_inverse: "of_nat (unat w) = w"
  by simp

lemma isPowerOf2_iff: "cmm_isPowerOf2 n \<Longrightarrow> \<exists>k < 32. unat n = 2 ^ k"
proof -
  assume a: "cmm_isPowerOf2 n"
  then have pos: "0 < unat n" by (simp add: cmm_isPowerOf2_def unat_gt_0)
  have "unat (n - 1) = unat n - 1" using pos by (subst unat_sub_le) simp_all
  moreover have "unat (n AND (n - 1)) = unat n AND unat (n - 1)" by (simp add: unsigned_and_eq)
  ultimately have "unat n AND (unat n - 1) = 0" using a by (simp add: cmm_isPowerOf2_def)
  then obtain k where k: "unat n = 2 ^ k" using and_pred_zero_power [OF pos] by auto
  then have "(2::nat) ^ k < 2 ^ 32" using unat_u32_lt [of n] by simp
  then have "k < 32" by (rule power_less_imp_less_exp [rotated]) simp
  with k show ?thesis by auto
qed

lemma unat_and_mask:
  assumes "cmm_isPowerOf2 n" shows "unat (t AND (n - 1)) = unat t mod unat n"
proof -
  obtain k where k: "k < 32" "unat n = 2 ^ k" using isPowerOf2_iff [OF assms] by auto
  then have "n = 2 ^ k" by (metis of_nat_numeral of_nat_power unat_of_nat_inverse)
  then have "t AND (n - 1) = take_bit k t"
    by (simp add: take_bit_eq_mask mask_eq_exp_minus_1)
  then have "unat (t AND (n - 1)) = take_bit k (unat t)" by (simp only: unsigned_take_bit_eq)
  then show ?thesis by (simp only: take_bit_eq_mod k)
qed

lemma power_of_two_dvd: "cmm_isPowerOf2 n \<Longrightarrow> unat n dvd 2 ^ 32"
  using isPowerOf2_iff [of n] le_imp_power_dvd [of _ 32 "2 :: nat"]
  by (metis less_imp_le)


section \<open>The queue a ring stands for\<close>

abbreviation cn :: "cring \<Rightarrow> nat" where "cn r \<equiv> unat (cr_size r)"

definition cshape :: "cring \<Rightarrow> bool" where
  "cshape r \<longleftrightarrow> cmm_isPowerOf2 (cr_size r) \<and> cn r < 2 ^ 29 \<and> cr_mask r = cr_size r - 1 \<and>
     cn r \<le> length (cr_buf r)"

definition cused :: "cring \<Rightarrow> u32 \<Rightarrow> nat" where
  "cused r t = unat (t - cr_out r)"

text \<open>A message a client may queue: its head carries its length and a type other than dummy.\<close>

definition cmsg_ok :: "u64 list \<Rightarrow> bool" where
  "cmsg_ok m \<longleftrightarrow> m \<noteq> [] \<and> length m < 2 ^ 16 \<and> unat (msg_wordCount (hd m)) = length m \<and>
     msg_msgType (hd m) \<noteq> ucast MSG_ID_DUMMY"

definition chead :: "nat \<Rightarrow> u64 list \<Rightarrow> nat \<Rightarrow> nat" where
  "chead n b p = (if msg_msgType (b ! (p mod n)) = ucast MSG_ID_DUMMY
     then p + unat (msg_wordCount (b ! (p mod n))) else p)"

definition cdec :: "nat \<Rightarrow> u64 list \<Rightarrow> nat \<Rightarrow> (u64 list \<times> nat) option" where
  "cdec n b p =
     (let i0 = chead n b p mod n; h = b ! i0; w = unat (msg_wordCount h) in
      if msg_msgType h \<noteq> ucast MSG_ID_DUMMY \<and> 0 < w \<and> i0 + w \<le> n
      then Some (map ((!) b) [i0..<i0 + w], chead n b p + w) else None)"

definition ccell :: "nat \<Rightarrow> u64 list \<Rightarrow> nat \<Rightarrow> u64" where
  "ccell n b k = b ! (k mod n)"

abbreviation cchain :: "cring \<Rightarrow> u64 list list \<Rightarrow> u32 \<Rightarrow> bool" where
  "cchain r q t \<equiv> chain (cdec (cn r) (cr_buf r)) (unat (cr_out r)) q (unat (cr_out r) + cused r t)"

definition crel :: "cring \<Rightarrow> u64 list list \<Rightarrow> bool" where
  "crel r q \<longleftrightarrow> cshape r \<and> cused r (cr_in r) \<le> cn r \<and> cchain r q (cr_in r)"

lemma chead_ge: "p \<le> chead n b p"
  by (simp add: chead_def)

lemma cdec_Some:
  "cdec n b p = Some (m, p') \<longleftrightarrow>
     (\<exists>h w. h = chead n b p \<and> w = unat (msg_wordCount (b ! (h mod n))) \<and>
        msg_msgType (b ! (h mod n)) \<noteq> ucast MSG_ID_DUMMY \<and> 0 < w \<and> h mod n + w \<le> n \<and>
        m = map ((!) b) [h mod n..<h mod n + w] \<and> p' = h + w)"
  by (auto simp: cdec_def Let_def)

interpretation cfr: framed "cdec n" "ccell n" for n
proof (unfold_locales)
  fix b p m p'
  assume "cdec n b p = Some (m, p')"
  then show "p < p'" using chead_ge [of p n b] unfolding cdec_Some by linarith
next
  fix b b' p m p'
  assume d: "cdec n b p = Some (m, p')"
    and eq: "\<And>k. p \<le> k \<Longrightarrow> k < p' \<Longrightarrow> ccell n b' k = ccell n b k"
  define h where "h = chead n b p"
  define w where "w = unat (msg_wordCount (b ! (h mod n)))"
  have ty: "msg_msgType (b ! (h mod n)) \<noteq> ucast MSG_ID_DUMMY" and w0: "0 < w"
    and fit: "h mod n + w \<le> n" and p': "p' = h + w"
    and m: "m = map ((!) b) [h mod n..<h mod n + w]"
    using d unfolding cdec_Some h_def w_def by blast+
  have "p \<le> h" by (simp add: h_def chead_ge)
  have rec: "b' ! (h mod n + j) = b ! (h mod n + j)" if "j < w" for j
    using eq [of "h + j"] p' \<open>p \<le> h\<close> fit that by (simp add: ccell_def mod_add_below)
  have "b' ! (p mod n) = b ! (p mod n)" using eq [of p] p' \<open>p \<le> h\<close> w0 by (simp add: ccell_def)
  then have "chead n b' p = h" by (simp add: h_def chead_def)
  moreover have "map ((!) b') [h mod n..<h mod n + w] = m"
    unfolding m
  proof (rule map_cong [OF refl])
    fix k assume "k \<in> set [h mod n..<h mod n + w]"
    then show "b' ! k = b ! k" using rec [of "k - h mod n"] by auto
  qed
  ultimately show "cdec n b' p = Some (m, p')"
    using fit p' w0 ty rec [of 0] unfolding cdec_Some by (auto simp: w_def simp del: upt_Suc)
qed

lemma cdec_shift: "cdec n b (p + n) = map_option (\<lambda>(m, p'). (m, p' + n)) (cdec n b p)"
proof -
  have "chead n b (p + n) = chead n b p + n" by (simp add: chead_def)
  then show ?thesis by (simp add: cdec_def Let_def)
qed

text \<open>A chain does not care which lap of the counter its positions are taken from.\<close>

lemma cchain_mod:
  assumes "chain (cdec n b) p q (p + d)" and "n dvd N"
  shows "chain (cdec n b) (p mod N) q (p mod N + d)"
proof -
  have "p = p mod N + (p div N * (N div n)) * n"
    using assms(2) by (simp add: mult.assoc dvd_div_mult_self)
  then show ?thesis
    using chain_shift_mult [of "cdec n b" n "p mod N" "p div N * (N div n)" q "p mod N + d"]
      cdec_shift assms(1) by (simp add: ac_simps)
qed

lemma cshape_facts:
  assumes "cshape r"
  shows "0 < cn r" and "cn r < 2 ^ 29" and "cn r dvd 2 ^ 32" and "cn r \<le> length (cr_buf r)"
    and "unat (t AND cr_mask r) = unat t mod cn r"
  using assms isPowerOf2_iff [of "cr_size r"] power_of_two_dvd [of "cr_size r"]
    unat_and_mask [of "cr_size r" t]
  by (auto simp: cshape_def)

lemma cused_mod:
  assumes "cshape r" shows "(unat (cr_out r) + cused r t) mod cn r = unat t mod cn r"
proof -
  have "unat t = (unat (cr_out r) + cused r t) mod 2 ^ 32"
    using unat_word_ariths(1) [of "cr_out r" "t - cr_out r"] by (simp add: cused_def)
  then show ?thesis using cshape_facts(3) [OF assms] by (simp add: mod_mod_cancel)
qed


section \<open>Storing a message extends the queue\<close>

definition cheader :: "cring \<Rightarrow> u32 \<Rightarrow> nat \<Rightarrow> nat option" where
  "cheader r t w =
     (let i = unat t mod cn r; free = cn r - cused r t in
      if free < w then None
      else if w \<le> cn r - i then Some i
      else if cn r - i + w \<le> free then Some 0
      else None)"

definition cstep :: "cring \<Rightarrow> nat \<Rightarrow> nat \<Rightarrow> nat \<Rightarrow> nat" where
  "cstep r i h w = (if h = i then 0 else cn r - i) + w"

definition cstored :: "cring \<Rightarrow> nat \<Rightarrow> nat \<Rightarrow> u64 list \<Rightarrow> cring" where
  "cstored r i h m = r\<lparr>cr_buf := overlay
     (if h = i then cr_buf r else (cr_buf r)[i := of_nat (cn r - i)]) h m\<rparr>"

lemma cstored_fields [simp]:
  "cr_size (cstored r i h m) = cr_size r" "cr_mask (cstored r i h m) = cr_mask r"
  "cr_in (cstored r i h m) = cr_in r" "cr_out (cstored r i h m) = cr_out r"
  "cr_nextIn (cstored r i h m) = cr_nextIn r" "cr_nextOut (cstored r i h m) = cr_nextOut r"
  "cused (cstored r i h m) t = cused r t"
  by (simp_all add: cstored_def cused_def)

lemma cused_update [simp]:
  "cused (r\<lparr>cr_in := x\<rparr>) t = cused r t" "cused (r\<lparr>cr_nextIn := x\<rparr>) t = cused r t"
  "cused (r\<lparr>cr_nextOut := x\<rparr>) t = cused r t" "cused (r\<lparr>cr_buf := b\<rparr>) t = cused r t"
  by (simp_all add: cused_def)

lemma cshape_update [simp]:
  "cshape (r\<lparr>cr_in := x\<rparr>) = cshape r" "cshape (r\<lparr>cr_nextIn := x\<rparr>) = cshape r"
  "cshape (r\<lparr>cr_nextOut := x\<rparr>) = cshape r" "cshape (r\<lparr>cr_out := x\<rparr>) = cshape r"
  by (simp_all add: cshape_def)

lemma cheader_bounds:
  assumes "cheader r t w = Some h" and "cshape r" and "cused r t \<le> cn r" and "i = unat t mod cn r"
  shows "h = i \<or> h = 0 \<and> cn r - i < w" and "h + w \<le> cn r" and "i < cn r"
    and "cused r t + cstep r i h w \<le> cn r" and "h \<noteq> i \<Longrightarrow> w \<le> i"
proof -
  have "i < cn r" using cshape_facts(1) [OF assms(2)] assms(4) by simp
  then show "h = i \<or> h = 0 \<and> cn r - i < w" "h + w \<le> cn r" "i < cn r"
    "cused r t + cstep r i h w \<le> cn r" "h \<noteq> i \<Longrightarrow> w \<le> i"
    using assms(1,3,4) by (auto simp: cheader_def cstep_def Let_def split: if_splits)
qed

lemma cused_advance:
  assumes "cshape r" and "cused r t + d \<le> cn r"
  shows "cused r (t + of_nat d) = cused r t + d"
proof -
  have d: "cused r t + d < 2 ^ 32" using assms cshape_facts(2) [OF assms(1)] by simp
  have "t + of_nat d - cr_out r = (t - cr_out r) + of_nat d" by simp
  then show ?thesis unfolding cused_def
    using d by (simp only:) (simp add: unat_add_lt unat_of_nat_u32 cused_def)
qed

lemma dummy_head:
  assumes "w < 2 ^ 16"
  shows "msg_msgType (of_nat w) = ucast MSG_ID_DUMMY" and "unat (msg_wordCount (of_nat w)) = w"
proof -
  have u: "unat (of_nat w :: u64) = w" using assms by (simp add: unsigned_of_nat take_bit_nat_eq_self)
  then have "unat (drop_bit 16 (of_nat w :: u64)) = 0"
    using assms by (simp add: drop_bit_eq_div unat_div)
  then have "drop_bit 16 (of_nat w :: u64) = 0" by (simp only: unat_eq_0)
  then show "msg_msgType (of_nat w) = ucast MSG_ID_DUMMY"
    by (simp add: msg_msgType_def MSG_ID_DUMMY_def)
  show "unat (msg_wordCount (of_nat w)) = w"
    using assms u by (simp add: msg_wordCount_def unsigned_ucast_eq take_bit_nat_eq_self)
qed

lemma cstored_nth:
  assumes "h + length m \<le> cn r" and "cn r \<le> length (cr_buf r)" and "k < cn r"
  shows "cr_buf (cstored r i h m) ! k = (if h \<le> k \<and> k < h + length m then m ! (k - h)
    else if h \<noteq> i \<and> k = i then of_nat (cn r - i) else cr_buf r ! k)"
  using assms by (auto simp: cstored_def nth_overlay nth_list_update)

lemma cdec_stored:
  assumes hd: "cheader r t (length m) = Some h" and s: "cshape r" and u: "cused r t \<le> cn r"
    and ok: "cmsg_ok m" and i: "i = unat t mod cn r" and p: "p mod cn r = i"
  shows "cdec (cn r) (cr_buf (cstored r i h m)) p = Some (m, p + cstep r i h (length m))"
proof -
  let ?b = "cr_buf (cstored r i h m)" and ?n = "cn r"
  note hb = cheader_bounds [OF hd s u i] and len = cshape_facts(4) [OF s]
  note nth = cstored_nth [OF hb(2) len]
  have m: "0 < length m" "length m < 2 ^ 16" "m ! 0 = List.hd m"
    "unat (msg_wordCount (m ! 0)) = length m" "msg_msgType (m ! 0) \<noteq> ucast MSG_ID_DUMMY"
    using ok by (auto simp: cmsg_ok_def hd_conv_nth)
  have bh: "?b ! h = m ! 0" using nth [of h] hb(2) m by simp
  have chd: "chead ?n ?b p = p + (if h = i then 0 else ?n - i)"
  proof (cases "h = i")
    case True
    then show ?thesis using bh m p by (simp add: chead_def)
  next
    case False
    then have "?b ! i = of_nat (?n - i)" using nth [of i] hb by auto
    moreover have "?n - i < 2 ^ 16" using False hb(1) m by auto
    ultimately show ?thesis using dummy_head [of "?n - i"] False p by (simp add: chead_def)
  qed
  then have hm: "chead ?n ?b p mod ?n = h"
    using p hb mod_round_up [of ?n p] cshape_facts(1) [OF s] by auto
  have pl: "map ((!) ?b) [h..<h + length m] = m"
    by (rule nth_equalityI) (use nth hb(2) in auto)
  show ?thesis unfolding cdec_Some
    by (rule exI [of _ "chead ?n ?b p"], rule exI [of _ "length m"])
      (use hm bh m pl chd hb(2) in \<open>auto simp: cstep_def\<close>)
qed

lemma cstored_frame:
  assumes hd: "cheader r t (length m) = Some h" and s: "cshape r" and u: "cused r t \<le> cn r"
    and ne: "m \<noteq> []" and i: "i = unat t mod cn r"
    and k: "unat (cr_out r) \<le> k" "k < unat (cr_out r) + cused r t"
  shows "ccell (cn r) (cr_buf (cstored r i h m)) k = ccell (cn r) (cr_buf r) k"
proof -
  note hb = cheader_bounds [OF hd s u i] and len = cshape_facts(4) [OF s]
  define e where "e = unat (cr_out r) + cused r t"
  have e: "e mod cn r = i" and room: "e + cstep r i h (length m) \<le> unat (cr_out r) + cn r"
    using cused_mod [OF s] hb(4) i by (auto simp: e_def)
  have outside: "k mod cn r \<noteq> (e + j) mod cn r" if "j < cstep r i h (length m)" for j
    using mod_window [of k "cn r" "e + j"] that k room by (auto simp: e_def)
  have "k mod cn r \<noteq> i" using outside [of 0] e ne by (simp add: cstep_def)
  moreover have "k mod cn r \<noteq> h + j" if j: "j < length m" for j
  proof -
    define d where "d = (if h = i then 0 else cn r - i)"
    have "(e + d) mod cn r = h"
      using e hb(1,3) mod_round_up [of "cn r" e] by (auto simp: d_def)
    then have "(e + d + j) mod cn r = h + j" using hb(2) j by (subst mod_add_below) auto
    moreover have "d + j < cstep r i h (length m)" using j by (simp add: d_def cstep_def)
    ultimately show ?thesis using outside [of "d + j"] by (simp add: add.assoc)
  qed
  then have "k mod cn r < h \<or> h + length m \<le> k mod cn r"
    by (metis add_less_cancel_left le_iff_add not_le)
  ultimately show ?thesis
    using cstored_nth [OF hb(2) len, of "k mod cn r" i] cshape_facts(1) [OF s]
    by (auto simp: ccell_def)
qed

lemma cstored_chain:
  assumes hd: "cheader r t (length m) = Some h" and s: "cshape r" and u: "cused r t \<le> cn r"
    and ok: "cmsg_ok m" and i: "i = unat t mod cn r" and ch: "cchain r q t"
  defines "t' \<equiv> t + of_nat (cstep r i h (length m))"
  shows "cchain (cstored r i h m) (q @ [m]) t'" and "cused r t' \<le> cn r"
proof -
  let ?r = "cstored r i h m" and ?e = "unat (cr_out r) + cused r t"
  note hb = cheader_bounds [OF hd s u i]
  have adv: "cused r t' = cused r t + cstep r i h (length m)"
    unfolding t'_def by (rule cused_advance [OF s hb(4)])
  have "m \<noteq> []" using ok by (auto simp: cmsg_ok_def)
  then have "chain (cdec (cn r) (cr_buf ?r)) (unat (cr_out r)) q ?e"
    by (intro cfr.chain_frame [OF ch]) (use cstored_frame [OF hd s u _ i] in auto)
  then have "chain (cdec (cn r) (cr_buf ?r)) (unat (cr_out r)) (q @ [m])
      (?e + cstep r i h (length m))"
    by (rule cfr.chain_snoc) (use cdec_stored [OF hd s u ok i] cused_mod [OF s] i in auto)
  then show "cchain ?r (q @ [m]) t'" using adv by (simp add: add.assoc)
  show "cused r t' \<le> cn r" using adv hb(4) by simp
qed


section \<open>Putting\<close>

text \<open>One reservation step of the C code, read through natural numbers: it never faults.\<close>

lemma prePutStep_eq:
  assumes s: "cshape r" and u: "cused r t \<le> cn r" and wc: "0 < unat wc"
  defines "i \<equiv> unat t mod cn r"
  shows "prePutStep r t wc = Inr (case cheader r t (unat wc) of
     None \<Rightarrow> None
   | Some h \<Rightarrow> Some (h, t + of_nat (cstep r i h (unat wc)),
       r\<lparr>cr_buf := (if h = i then cr_buf r else (cr_buf r)[i := of_nat (cn r - i)])[h := ucast wc]\<rparr>))"
proof -
  note sf = cshape_facts [OF s]
  have i: "i < cn r" "unat (t AND cr_mask r) = i" using sf(1) sf(5) by (auto simp: i_def)
  have w16: "unat wc < 2 ^ 16" using unsigned_less [of wc] by simp
  have w: "unat (ucast wc :: u32) = unat wc" by (rule unat_ucast_u16_u32)
  have sw: "cr_size r - t + cr_out r = cr_size r - (t - cr_out r)" by simp
  have un: "unat (cr_size r - t + cr_out r) = cn r - cused r t"
    unfolding sw using u unfolding cused_def by (rule unat_sub_le)
  have top: "unat (cr_size r - (t AND cr_mask r)) = cn r - i" using i by (subst unat_sub_le) auto
  have topw: "unat (cr_size r - (t AND cr_mask r) + ucast wc) = cn r - i + unat wc"
    using sf(2) w16 by (subst unat_add_lt) (auto simp: top w)
  have fit: "(cr_size r - t + cr_out r < ucast wc) = (cn r - cused r t < unat wc)"
    "(cr_size r - (t AND cr_mask r) \<ge> ucast wc) = (unat wc \<le> cn r - i)"
    "(cr_size r - t + cr_out r \<ge> cr_size r - (t AND cr_mask r) + ucast wc)
      = (cn r - i + unat wc \<le> cn r - cused r t)"
    unfolding word_less_nat_alt word_le_nat_alt un top topw w by rule+
  have tw: "(ucast wc :: u32) = of_nat (unat wc)" "cr_size r - (t AND cr_mask r) = of_nat (cn r - i)"
    using top w by (metis unat_of_nat_inverse)+
  have dm: "push_bit 16 MSG_ID_DUMMY OR ucast (cr_size r - (t AND cr_mask r)) = (of_nat (cn r - i) :: u64)"
    by (simp add: MSG_ID_DUMMY_def flip: top)
  have in_buf: "i < length (cr_buf r)" "0 < length (cr_buf r)" using i(1) sf(1,4) by linarith+
  consider "cn r - cused r t < unat wc"
    | "\<not> cn r - cused r t < unat wc" "unat wc \<le> cn r - i"
    | "\<not> cn r - cused r t < unat wc" "\<not> unat wc \<le> cn r - i"
      "cn r - i + unat wc \<le> cn r - cused r t"
    | "\<not> cn r - cused r t < unat wc" "\<not> unat wc \<le> cn r - i"
      "\<not> cn r - i + unat wc \<le> cn r - cused r t"
    by blast
  then show ?thesis
  proof cases
    case 3
    then have "i \<noteq> 0" using i(1) by auto
    with 3 in_buf show ?thesis
      unfolding prePutStep_def Let_def fit i(2) dm cheader_def i_def [symmetric]
      by (simp add: cstep_def flip: tw)
  next
    case 4
    then show ?thesis
      unfolding prePutStep_def Let_def fit i(2) cheader_def i_def [symmetric]
      by (simp only: if_False if_True option.case refl)
  qed (use in_buf in \<open>unfold prePutStep_def Let_def fit i(2) cheader_def i_def [symmetric],
    simp_all add: cstep_def flip: tw\<close>)
qed

lemma PrePutOneMsg_eq:
  assumes "cshape r" and "cused r (cr_in r) \<le> cn r" and "0 < unat wc"
  defines "i \<equiv> unat (cr_in r) mod cn r"
  shows "cmm_PrePutOneMsg r wc = Inr (case cheader r (cr_in r) (unat wc) of
     None \<Rightarrow> ([], r\<lparr>cr_nextIn := cr_in r\<rparr>)
   | Some h \<Rightarrow> ([h], r\<lparr>cr_buf := (if h = i then cr_buf r
       else (cr_buf r)[i := of_nat (cn r - i)])[h := ucast wc],
       cr_nextIn := cr_in r + of_nat (cstep r i h (unat wc))\<rparr>))"
  unfolding cmm_PrePutOneMsg_def cmm_PrePutMsgBurst_def i_def
  by (simp add: prePutStep_eq [OF assms(1-3)] split: option.splits)

lemma overlay_update_inside:
  "h < length b \<Longrightarrow> m \<noteq> [] \<Longrightarrow> overlay (b[h := x]) h m = overlay b h m"
  by (cases m) (auto simp: overlay_def)

text \<open>
  A put stores what the callback wrote, provided its head is well formed, exactly when there is
  room and the callback returned 0.
\<close>

lemma PutOneMsg_rel:
  assumes rel: "crel r q" and wc: "unat wc = length m" and ok: "cmsg_ok m"
    and f: "\<And>b. length b = length m \<Longrightarrow> f b = (ret, m)"
  shows "\<exists>r'. cmm_PutOneMsg r wc f
      = Inr (if cheader r (cr_in r) (length m) = None then - 1 else ret, r')
    \<and> crel r' (if cheader r (cr_in r) (length m) = None \<or> ret \<noteq> 0 then q else q @ [m])"
proof (cases "cheader r (cr_in r) (length m)")
  case None
  have "cshape r" "cused r (cr_in r) \<le> cn r" "0 < unat wc"
    using rel ok wc by (auto simp: crel_def cmsg_ok_def)
  from PrePutOneMsg_eq [OF this] None wc rel show ?thesis
    by (auto simp: cmm_PutOneMsg_def crel_def)
next
  case (Some h)
  have s: "cshape r" and u: "cused r (cr_in r) \<le> cn r" and ch: "cchain r q (cr_in r)"
    and w0: "0 < unat wc" and ne: "m \<noteq> []"
    using rel ok wc by (auto simp: crel_def cmsg_ok_def)
  define i where "i = unat (cr_in r) mod cn r"
  define t where "t = cr_in r + of_nat (cstep r i h (length m))"
  define b0 where "b0 = (if h = i then cr_buf r else (cr_buf r)[i := of_nat (cn r - i)])"
  note hb = cheader_bounds [OF Some s u i_def]
  have len: "length b0 = length (cr_buf r)" by (simp add: b0_def)
  have fit: "h + length m \<le> length b0" "h < length b0" using hb(2) cshape_facts(4) [OF s] w0 wc len by linarith+
  have pp: "cmm_PrePutOneMsg r wc = Inr ([h], r\<lparr>cr_buf := b0[h := ucast wc], cr_nextIn := t\<rparr>)"
    using PrePutOneMsg_eq [OF s u w0] Some wc by (simp add: i_def t_def b0_def)
  have ov: "overlay (b0[h := ucast wc]) h m = overlay b0 h m"
    by (rule overlay_update_inside [OF fit(2) ne])
  let ?r = "(cstored r i h m)\<lparr>cr_nextIn := t\<rparr>"
  have put: "cmm_PutOneMsg r wc f = Inr (ret, if ret = 0 then ?r\<lparr>cr_in := t\<rparr> else ?r)"
    unfolding cmm_PutOneMsg_def pp
    using fit wc ov f
    by (simp add: cr_message_def cmm_PutMsgComplete_def cstored_def b0_def [symmetric] Let_def)
  have s': "cshape (cstored r i h m)" using s hb(2) by (simp add: cshape_def cstored_def)
  have "chain (cdec (cn r) (cr_buf (cstored r i h m))) (unat (cr_out r)) q
      (unat (cr_out r) + cused r (cr_in r))"
    by (rule cfr.chain_frame [OF ch]) (use cstored_frame [OF Some s u ne i_def] in auto)
  then have "crel ?r q" using s' u by (simp add: crel_def)
  moreover have "crel (?r\<lparr>cr_in := t\<rparr>) (q @ [m])"
    using cstored_chain [OF Some s u ok i_def ch] s' by (simp add: crel_def t_def)
  ultimately show ?thesis using put Some by auto
qed


section \<open>Getting\<close>

lemma mod_window_ne:
  fixes p e N n :: nat
  assumes "p < e" and "e \<le> p + n" and "n < N"
  shows "p mod N \<noteq> e mod N"
  using mod_window [of p N e] assms by auto

lemma preGet_message:
  assumes "k \<noteq> 0" and "t \<noteq> cr_in r" and "rd (cr_buf r) (unat (t AND cr_mask r)) = Inr h"
    and "msg_msgType h \<noteq> ucast MSG_ID_DUMMY"
    and "preGetLoop r (k - 1) (t + ucast (msg_wordCount h)) = Some (Inr (ps, t'))"
  shows "preGetLoop r k t = Some (Inr (unat (t AND cr_mask r) # ps, t'))"
  using assms by (subst preGetLoop.simps) simp

lemma preGet_dummy:
  assumes "k \<noteq> 0" and "t \<noteq> cr_in r" and "rd (cr_buf r) (unat (t AND cr_mask r)) = Inr h"
    and "msg_msgType h = ucast MSG_ID_DUMMY"
  shows "preGetLoop r k t = preGetLoop r k (t + ucast (msg_wordCount h))"
  using assms by (subst preGetLoop.simps) simp

lemma unat_add_u16_mod:
  "unat (t + ucast (c :: u16) :: u32) = (unat t + unat c) mod 2 ^ 32"
  by (simp add: unat_word_ariths unat_ucast_u16_u32)

lemma preGetLoop_step:
  assumes s: "cshape r" and d: "cdec (cn r) (cr_buf r) p = Some (m, p1)"
    and t: "unat t = p mod 2 ^ 32" and e: "unat (cr_in r) = e mod 2 ^ 32" "e \<le> p + cn r" "p1 \<le> e"
    and k: "k \<noteq> 0"
    and rest: "\<And>t1. unat t1 = p1 mod 2 ^ 32 \<Longrightarrow>
      \<exists>ps t'. preGetLoop r (k - 1) t1 = Some (Inr (ps, t')) \<and> P ps t'"
  shows "\<exists>idx ps t'. preGetLoop r k t = Some (Inr (idx # ps, t')) \<and> P ps t' \<and>
    cr_message r idx (unat (msg_wordCount (cr_buf r ! idx))) = Inr m \<and> idx < length (cr_buf r)"
proof -
  note sf = cshape_facts [OF s]
  define h where "h = chead (cn r) (cr_buf r) p"
  define i where "i = h mod cn r"
  define w where "w = unat (msg_wordCount (cr_buf r ! i))"
  have d': "msg_msgType (cr_buf r ! i) \<noteq> ucast MSG_ID_DUMMY" "0 < w" "i + w \<le> cn r"
      "m = map ((!) (cr_buf r)) [i..<i + w]" "p1 = h + w"
    using d unfolding cdec_Some by (auto simp: h_def i_def w_def simp del: upt_Suc)
  have ix: "unat (t' AND cr_mask r) = q mod cn r" if "unat t' = q mod 2 ^ 32" for t' q
    using sf(3) sf(5) [of t'] that by (simp add: mod_mod_cancel)
  have rdq: "rd (cr_buf r) (q mod cn r) = Inr (cr_buf r ! (q mod cn r))" for q
    using sf(1,4) mod_less_divisor [OF sf(1), of q] by (intro rd_in) linarith
  have ne: "t' \<noteq> cr_in r" if "unat t' = q mod 2 ^ 32" "p \<le> q" "q < p1" for t' q
    using mod_window_ne [of q e "cn r" "2 ^ 32"] that e sf(2) by auto
  have ph: "p \<le> h" unfolding h_def by (rule chead_ge)
  obtain t2 where t2: "unat t2 = h mod 2 ^ 32" "preGetLoop r k t = preGetLoop r k t2"
  proof (cases "msg_msgType (cr_buf r ! (p mod cn r)) = ucast MSG_ID_DUMMY")
    case True
    let ?t2 = "t + ucast (msg_wordCount (cr_buf r ! (p mod cn r)))"
    have "unat ?t2 = h mod 2 ^ 32"
      using True t by (simp add: h_def chead_def unat_add_u16_mod mod_add_left_eq)
    moreover have "preGetLoop r k t = preGetLoop r k ?t2"
      by (rule preGet_dummy) (use k ne [OF t] ph d' True rdq ix [OF t] in auto)
    ultimately show ?thesis using that by blast
  next
    case False
    then show ?thesis using that [of t] t by (simp add: h_def chead_def)
  qed
  have ix2: "unat (t2 AND cr_mask r) = i" using ix [OF t2(1)] by (simp add: i_def)
  have "unat (t2 + ucast (msg_wordCount (cr_buf r ! i))) = p1 mod 2 ^ 32"
    using t2(1) d'(5) by (simp add: unat_add_u16_mod mod_add_left_eq w_def)
  from rest [OF this] obtain ps t' where
    "preGetLoop r (k - 1) (t2 + ucast (msg_wordCount (cr_buf r ! i))) = Some (Inr (ps, t'))" "P ps t'"
    by blast
  moreover have "t2 \<noteq> cr_in r" using ne [OF t2(1) ph] d'(2,5) by simp
  ultimately have "preGetLoop r k t = Some (Inr (i # ps, t'))"
    using preGet_message [of k t2 r "cr_buf r ! i" ps t'] t2(2) k ix2 rdq [of h] d'(1)
    by (simp add: i_def)
  moreover have "cr_message r i w = Inr m"
    using d'(3,4) sf(4) by (auto simp: cr_message_def intro!: nth_equalityI)
  moreover have "i < length (cr_buf r)" using d'(2,3) sf(4) by simp
  ultimately show ?thesis using \<open>P ps t'\<close> unfolding w_def by blast
qed

definition cr_msg_at :: "cring \<Rightarrow> nat \<Rightarrow> u64 list res" where
  "cr_msg_at r idx = rbind (rd (cr_buf r) idx) (\<lambda>h. cr_message r idx (unat (msg_wordCount h)))"

lemma preGetLoop_spec:
  assumes s: "cshape r" and ch: "chain (cdec (cn r) (cr_buf r)) p q e"
    and t: "unat t = p mod 2 ^ 32" and e: "unat (cr_in r) = e mod 2 ^ 32" "e \<le> p + cn r"
  shows "\<exists>ps t'. preGetLoop r k t = Some (Inr (ps, t')) \<and>
    map (cr_msg_at r) ps = map Inr (take k q) \<and>
    (\<exists>p'. chain (cdec (cn r) (cr_buf r)) p (take k q) p' \<and>
      chain (cdec (cn r) (cr_buf r)) p' (drop k q) e \<and> unat t' = p' mod 2 ^ 32)"
  using ch t e(2)
proof (induction k arbitrary: p q t)
  case 0
  then show ?case by (subst preGetLoop.simps) auto
next
  case (Suc k)
  show ?case
  proof (cases q)
    case Nil
    with Suc.prems e have "t = cr_in r" by (auto simp: word_unat_eq_iff)
    with Nil Suc.prems show ?thesis by (subst preGetLoop.simps) auto
  next
    case (Cons m q')
    with Suc.prems obtain p1 where p1: "cdec (cn r) (cr_buf r) p = Some (m, p1)"
        "chain (cdec (cn r) (cr_buf r)) p1 q' e" by auto
    have lt: "p < p1" "p1 \<le> e" using cfr.dec_progress [OF p1(1)] cfr.chain_le [OF p1(2)] by auto
    then have e1: "e \<le> p1 + cn r" using Suc.prems by simp
    let ?P = "\<lambda>ps t'. map (cr_msg_at r) ps = map Inr (take k q') \<and>
      (\<exists>p'. chain (cdec (cn r) (cr_buf r)) p1 (take k q') p' \<and>
        chain (cdec (cn r) (cr_buf r)) p' (drop k q') e \<and> unat t' = p' mod 2 ^ 32)"
    have "\<exists>ps t'. preGetLoop r (Suc k - 1) t1 = Some (Inr (ps, t')) \<and> ?P ps t'"
      if "unat t1 = p1 mod 2 ^ 32" for t1
      using Suc.IH [OF p1(2) that e1] by simp
    from preGetLoop_step [OF s p1(1) Suc.prems(2) e(1) Suc.prems(3) lt(2) _ this]
    obtain idx ps t' where st: "preGetLoop r (Suc k) t = Some (Inr (idx # ps, t'))" "?P ps t'"
        "cr_msg_at r idx = Inr m"
      unfolding cr_msg_at_def by (metis (no_types, lifting) Zero_not_Suc rbind.simps(2) rd_in)
    then obtain p' where "chain (cdec (cn r) (cr_buf r)) p1 (take k q') p'"
        "chain (cdec (cn r) (cr_buf r)) p' (drop k q') e" "unat t' = p' mod 2 ^ 32" by auto
    with st p1(1) Cons show ?thesis by (intro exI [of _ "idx # ps"] exI [of _ t']) auto
  qed
qed

text \<open>
  Taking up to \<open>k\<close> messages terminates, delivers the oldest ones, and completing the get removes
  exactly those, whatever lap of their 32-bit counters the indices are in.
\<close>

lemma PreGet_rel:
  assumes rel: "crel r q"
  shows "\<exists>ps r'. cmm_PreGetMsgBurst r k = Some (Inr (ps, r')) \<and>
    map (cr_msg_at r') ps = map Inr (take k q) \<and> crel r' q \<and>
    crel (cmm_GetMsgComplete r') (drop k q)"
proof -
  have s: "cshape r" and u: "cused r (cr_in r) \<le> cn r" and ch: "cchain r q (cr_in r)"
    using rel by (auto simp: crel_def)
  let ?o = "unat (cr_out r)" and ?e = "unat (cr_out r) + cused r (cr_in r)"
  have o: "?o = ?o mod 2 ^ 32" using unat_u32_lt [of "cr_out r"] by simp
  have i: "unat (cr_in r) = ?e mod 2 ^ 32"
    using unat_word_ariths(1) [of "cr_out r" "cr_in r - cr_out r"] by (simp add: cused_def)
  obtain ps t p where lp: "preGetLoop r k (cr_out r) = Some (Inr (ps, t))"
      "map (cr_msg_at r) ps = map Inr (take k q)"
      "chain (cdec (cn r) (cr_buf r)) ?o (take k q) p"
      "chain (cdec (cn r) (cr_buf r)) p (drop k q) ?e" "unat t = p mod 2 ^ 32"
    using preGetLoop_spec [OF s ch o i, of k] u by auto
  have p: "?o \<le> p" "p \<le> ?e" using cfr.chain_le [OF lp(3)] cfr.chain_le [OF lp(4)] by auto
  let ?r1 = "r\<lparr>cr_nextOut := t\<rparr>" and ?r2 = "r\<lparr>cr_nextOut := t, cr_out := t\<rparr>"
  have tp: "t = of_nat p" using lp(5) by (simp add: word_unat_eq_iff unsigned_of_nat take_bit_eq_mod)
  have "cr_in r = of_nat ?e" by (simp add: cused_def)
  then have dt: "cr_in r - t = of_nat (?e - p)" using tp p(2) by (simp only: of_nat_diff)
  then have u2: "cused ?r2 (cr_in r) = ?e - p"
    using p u cshape_facts(2) [OF s] dt unat_of_nat_u32 [of "?e - p"]
    by (simp add: cused_def del: of_nat_diff)
  have "chain (cdec (cn r) (cr_buf r)) (p mod 2 ^ 32) (drop k q) (p mod 2 ^ 32 + (?e - p))"
    by (rule cchain_mod) (use lp(4) p cshape_facts(3) [OF s] in auto)
  then have "crel ?r2 (drop k q)" using s u u2 p lp(5) by (simp add: crel_def)
  moreover have "crel ?r1 q" using rel by (simp add: crel_def)
  moreover have "cr_msg_at ?r1 = cr_msg_at r"
    by (rule ext) (simp add: cr_msg_at_def cr_message_def cong: if_cong)
  ultimately show ?thesis
    using lp(1,2) by (simp add: cmm_PreGetMsgBurst_def cmm_GetMsgComplete_def)
qed


lemma GetOneMsg_empty:
  assumes "crel r []"
  shows "\<exists>r'. cmm_GetOneMsg r f s = Some (Inr (0, s, r')) \<and> crel r' []"
  using PreGet_rel [OF assms, of 1] by (auto simp: cmm_GetOneMsg_def cmm_PreGetOneMsg_def)

lemma GetOneMsg_head:
  assumes "crel r (m # q)" and "f s m = (ret, s')"
  shows "\<exists>r'. cmm_GetOneMsg r f s = Some (Inr (ret, s', r')) \<and> crel r' (if ret = 0 then q else m # q)"
proof -
  from PreGet_rel [OF assms(1), of 1] obtain ps r' where
    g: "cmm_PreGetMsgBurst r 1 = Some (Inr (ps, r'))" "map (cr_msg_at r') ps = [Inr m]"
    "crel r' (m # q)" "crel (cmm_GetMsgComplete r') q" by auto
  then obtain idx where "ps = [idx]" "cr_msg_at r' idx = Inr m" by auto
  then show ?thesis
    using g assms(2)
    by (auto simp: cmm_GetOneMsg_def cmm_PreGetOneMsg_def cr_msg_at_def rbind_Inr_iff
        split: if_splits)
qed

section \<open>The ring as a queue\<close>

definition cr_put :: "u64 list \<Rightarrow> cring \<Rightarrow> (bool \<times> cring) res" where
  "cr_put m r = rbind (cmm_PutOneMsg r (of_nat (length m)) (\<lambda>_. (0, m)))
     (\<lambda>(rc, r'). Inr (rc = 0, r'))"

definition cr_get :: "cring \<Rightarrow> (u64 list option \<times> cring) res" where
  "cr_get r =
     (case cmm_GetOneMsg r (\<lambda>_ m. (0, Some m)) None of
        None \<Rightarrow> Inl Diverge
      | Some res \<Rightarrow> rbind res (\<lambda>(_, s, r'). Inr (s, r')))"

lemma unat_of_nat_u16: "n < 2 ^ 16 \<Longrightarrow> unat (of_nat n :: u16) = n"
  by (simp add: unsigned_of_nat take_bit_nat_eq_self)

interpretation cmmring: fifo_ring crel cr_put cr_get "\<lambda>m. m" cmsg_ok
proof (unfold_locales)
  fix r q m
  assume rel: "crel r q" and ok: "cmsg_ok m"
  have l: "unat (of_nat (length m) :: u16) = length m"
    using ok by (intro unat_of_nat_u16) (simp add: cmsg_ok_def)
  from PutOneMsg_rel [OF rel l ok, of "\<lambda>_. (0, m)" 0]
  show "\<exists>good r'. cr_put m r = Inr (good, r') \<and> crel r' (if good then q @ [m] else q)"
    by (auto simp: cr_put_def split: if_splits)
next
  fix r assume "crel r []"
  from GetOneMsg_empty [OF this, of "\<lambda>_ m. (0, Some m)" None]
  show "\<exists>r'. cr_get r = Inr (None, r') \<and> crel r' []" by (auto simp: cr_get_def)
next
  fix r m q assume "crel r (m # q)"
  from GetOneMsg_head [OF this, of "\<lambda>_ m. (0, Some m)" None 0 "Some m"]
  show "\<exists>r'. cr_get r = Inr (Some m, r') \<and> crel r' q" by (auto simp: cr_get_def)
qed

section \<open>Properties\<close>

text \<open>
  C4: On the 64-bit ring, whatever values its free-running counters have reached, every
  interleaving of puts of well-formed messages and gets runs without a fault and terminates, and
  the messages got, followed by those still queued, are those queued before followed by the
  accepted ones, in order.
\<close>

theorem cmm_ring_fifo:
  assumes "crel r q" and "puts_valid cmsg_ok ops"
  shows "\<exists>acc rcv r' q'. fifo_run cr_put cr_get r ops = Inr (acc, rcv, r') \<and> crel r' q' \<and>
    q @ acc = rcv @ q'"
  using cmmring.fifo_run_order [OF assms] by auto

text \<open>A ring of 8 words whose counters are about to wrap.\<close>

definition cring8 :: cring where
  "cring8 = \<lparr>cr_size = 8, cr_mask = 7, cr_nextIn = - 3, cr_nextOut = - 3, cr_in = - 3,
     cr_out = - 3, cr_buf = replicate 8 0\<rparr>"

lemma cring8_rel: "crel cring8 []"
  by (simp add: crel_def cshape_def cused_def cring8_def cmm_isPowerOf2_def)

theorem cmm_ring_fifo_witness:
  "\<exists>acc rcv r' q'. fifo_run cr_put cr_get cring8 [Put [0x10002, 7], Put [0x10003, 8, 9], Get, Get, Get]
    = Inr (acc, rcv, r') \<and> crel r' q' \<and> [] @ acc = rcv @ q'"
  by (rule cmm_ring_fifo [OF cring8_rel])
    (simp add: cmsg_ok_def msg_wordCount_def msg_msgType_def MSG_ID_DUMMY_def)

text \<open>
  C25: A put is accepted exactly when its words are free and lie together: before the end of the
  buffer, or at its start with the tail given up. The ring can be filled completely.
\<close>

theorem cmm_put_accepts_exactly:
  assumes "crel r q" and "cmsg_ok m"
  shows "\<exists>r' good. cr_put m r = Inr (good, r') \<and> crel r' (if good then q @ [m] else q) \<and>
    (let w = length m; n = cn r; i = unat (cr_in r) mod n; free = n - cused r (cr_in r)
     in good \<longleftrightarrow> w \<le> free \<and> (w \<le> n - i \<or> n - i + w \<le> free))"
proof -
  have l: "unat (of_nat (length m) :: u16) = length m"
    using assms(2) by (intro unat_of_nat_u16) (simp add: cmsg_ok_def)
  have "cheader r (cr_in r) (length m) \<noteq> None \<longleftrightarrow>
    (let w = length m; n = cn r; i = unat (cr_in r) mod n; free = n - cused r (cr_in r)
     in w \<le> free \<and> (w \<le> n - i \<or> n - i + w \<le> free))"
    by (auto simp: cheader_def Let_def)
  then show ?thesis
    using PutOneMsg_rel [OF assms(1) l assms(2), of "\<lambda>_. (0, m)" 0]
    by (auto simp: cr_put_def Let_def split: if_splits)
qed

theorem cmm_put_accepts_exactly_witness:
  "\<exists>r'. cr_put (0x10008 # replicate 7 0) cring8 = Inr (False, r') \<and> crel r' []"
  using cmm_put_accepts_exactly [OF cring8_rel, of "0x10008 # replicate 7 0"]
  by (auto simp: Let_def cmsg_ok_def msg_wordCount_def msg_msgType_def MSG_ID_DUMMY_def
      cring8_def cused_def)

text \<open>
  \<open>QuickMsgRingInit\<close> asserts a buffer, a size below \<open>2 ^ 29\<close> and a power of two; when the
  assertions pass and the buffer has that many words, the ring is empty and well formed.
\<close>

theorem cmm_init_spec:
  "cmm_QuickMsgRingInit buf n = (case buf of
     Some ws \<Rightarrow> if unat n < 2 ^ 29 \<and> cmm_isPowerOf2 n
       then Inr \<lparr>cr_size = n, cr_mask = n - 1, cr_nextIn = 0, cr_nextOut = 0, cr_in = 0,
         cr_out = 0, cr_buf = ws\<rparr> else Inl AssertFail
   | None \<Rightarrow> Inl AssertFail)"
proof -
  have "(drop_bit 29 n = 0) = (unat n < 2 ^ 29)"
    by (simp add: drop_bit_eq_div word_unat_eq_iff unat_div div_eq_0_iff)
  then show ?thesis by (auto simp: cmm_QuickMsgRingInit_def guard_def split: option.splits)
qed

lemma cmm_init_rel:
  assumes "cmm_QuickMsgRingInit (Some ws) n = Inr r" and "unat n \<le> length ws"
  shows "crel r []"
proof -
  have "cmm_isPowerOf2 n" "drop_bit 29 n = 0"
    using assms(1) by (auto simp: cmm_QuickMsgRingInit_def rbind_Inr_iff guard_def split: if_splits)
  moreover from this have "unat n < 2 ^ 29"
    by (simp add: drop_bit_eq_div word_unat_eq_iff unat_div div_eq_0_iff)
  ultimately show ?thesis
    using assms by (auto simp: cmm_QuickMsgRingInit_def crel_def cshape_def cused_def)
qed

text \<open>
  C34: A producer that zeroes its message (head included) blocks the consumer: the zero head reads
  as a dummy of length 0, which the receive loop skips forever.
\<close>

lemma preGetLoop_diverges:
  assumes "k \<noteq> 0" and "t \<noteq> cr_in r" and "rd (cr_buf r) (unat (t AND cr_mask r)) = Inr 0"
  shows "preGetLoop r k t = None"
proof (rule ccontr)
  assume "preGetLoop r k t \<noteq> None"
  then obtain y where "preGetLoop r k t = Some y" by auto
  then have "\<not> (k \<noteq> 0 \<and> t \<noteq> cr_in r \<and> rd (cr_buf r) (unat (t AND cr_mask r)) = Inr 0)"
  proof (rule preGetLoop.raw_induct
      [where P = "\<lambda>r k t y. \<not> (k \<noteq> 0 \<and> t \<noteq> cr_in r \<and> rd (cr_buf r) (unat (t AND cr_mask r)) = Inr 0)",
        rotated])
    fix loop r k t y
    assume 1: "\<And>r k t y. loop r k t = Some y \<Longrightarrow>
        \<not> (k \<noteq> 0 \<and> t \<noteq> cr_in r \<and> rd (cr_buf r) (unat (t AND cr_mask r)) = Inr 0)"
      "(if k = 0 \<or> t = cr_in r then Some (Inr ([], t))
        else case rd (cr_buf r) (unat (t AND cr_mask r)) of
            Inl f \<Rightarrow> Some (Inl f)
          | Inr h \<Rightarrow>
              if msg_msgType h = ucast MSG_ID_DUMMY then loop r k (t + ucast (msg_wordCount h))
              else Option.bind (loop r (k - 1) (t + ucast (msg_wordCount h))) (\<lambda>res.
                Some (rbind res (\<lambda>(ps, t'). Inr (unat (t AND cr_mask r) # ps, t'))))) = Some y"
    show "\<not> (k \<noteq> 0 \<and> t \<noteq> cr_in r \<and> rd (cr_buf r) (unat (t AND cr_mask r)) = Inr 0)"
    proof
      assume c: "k \<noteq> 0 \<and> t \<noteq> cr_in r \<and> rd (cr_buf r) (unat (t AND cr_mask r)) = Inr 0"
      then have "loop r k t = Some y"
        using 1(2) by (simp add: msg_msgType_def msg_wordCount_def MSG_ID_DUMMY_def)
      from 1(1) [OF this] c show False by simp
    qed
  qed
  with assms show False by simp
qed

theorem cmm_zero_head_blocks:
  assumes rel: "crel r []" and w: "0 < unat wc" "unat (cr_in r) mod cn r + unat wc \<le> cn r"
  shows "\<exists>r'. cmm_PutOneMsg r wc (\<lambda>b. (0, map (\<lambda>_. 0) b)) = Inr (0, r') \<and>
    cmm_GetOneMsg r' f s = None"
proof -
  have s: "cshape r" and u: "cused r (cr_in r) = 0" using rel by (auto simp: crel_def)
  from u have "cr_in r - cr_out r = 0" unfolding cused_def by (simp only: unat_eq_0)
  then have eq: "cr_in r = cr_out r" by simp
  note sf = cshape_facts [OF s]
  define i where "i = unat (cr_in r) mod cn r"
  have hd: "cheader r (cr_in r) (unat wc) = Some i"
    using w u sf(1) by (simp add: cheader_def Let_def i_def)
  have fit: "i + unat wc \<le> length (cr_buf r)" using w sf(4) by (simp add: i_def)
  let ?r' = "r\<lparr>cr_buf := overlay (cr_buf r) i (replicate (unat wc) 0),
    cr_nextIn := cr_in r + of_nat (unat wc), cr_in := cr_in r + of_nat (unat wc)\<rparr>"
  have ov: "overlay ((cr_buf r)[i := x]) i (replicate (unat wc) 0)
      = overlay (cr_buf r) i (replicate (unat wc) 0)" for x
    by (rule overlay_update_inside) (use fit w in auto)
  have put: "cmm_PutOneMsg r wc (\<lambda>b. (0, map (\<lambda>_. 0) b)) = Inr (0, ?r')"
    using PrePutOneMsg_eq [OF s _ w(1)] u hd fit ov
    by (simp add: cmm_PutOneMsg_def cr_message_def cmm_PutMsgComplete_def cstep_def
        i_def [symmetric] map_replicate_const)
  have "unat (cr_out r AND cr_mask r) = i" using sf(5) [of "cr_out r"] eq by (simp add: i_def)
  then have "rd (cr_buf ?r') (unat (cr_out r AND cr_mask r)) = Inr 0"
    using fit w(1) by (simp add: rd_def nth_overlay)
  moreover have "(ucast wc :: u32) \<noteq> 0" using w(1) unat_ucast_u16_u32 [of wc] by fastforce
  then have "cr_out r \<noteq> cr_in ?r'" using eq by simp
  ultimately have "preGetLoop ?r' 1 (cr_out r) = None" by (intro preGetLoop_diverges) auto
  then show ?thesis
    using put by (simp add: cmm_GetOneMsg_def cmm_PreGetOneMsg_def cmm_PreGetMsgBurst_def)
qed

theorem cmm_zero_head_blocks_witness:
  "\<exists>r'. cmm_PutOneMsg cring8 3 (\<lambda>b. (0, map (\<lambda>_. 0) b)) = Inr (0, r') \<and>
    cmm_GetOneMsg r' (\<lambda>s m. (0, hd m)) 5 = None"
  by (rule cmm_zero_head_blocks [OF cring8_rel]) (simp_all add: cring8_def)

end
