(* ===== verification/L1Layout.thy ===== *)
theory L1Layout
  imports Prelude
begin

text \<open>
  The FAPI message structures of \<open>share/l1_api.h\<close>, one definition per C structure, as terms of a
  small language of C types. Sizes, alignments and field offsets are computed from those terms by
  the rules of the platform ABI (natural alignment, structures padded to their alignment), so the
  decoders and encoders of the other theories address the bytes of a message exactly where the
  compiler does. A flexible array member (\<open>[]\<close> or \<open>[0]\<close>) has size 0 and its element's alignment.
\<close>

section \<open>C types and their layout\<close>

datatype ctype = U8 | U16 | U32 | I16
  | CArr ctype nat
  | CFlex ctype
  | CStruct "(string \<times> ctype) list"
  | CUnion "(string \<times> ctype) list"

definition round_up :: "nat \<Rightarrow> nat \<Rightarrow> nat" where
  "round_up n a = (if n mod a = 0 then n else n + (a - n mod a))"

fun calign :: "ctype \<Rightarrow> nat" and caligns :: "(string \<times> ctype) list \<Rightarrow> nat" where
  "calign U8 = 1"
| "calign U16 = 2"
| "calign U32 = 4"
| "calign I16 = 2"
| "calign (CArr t n) = calign t"
| "calign (CFlex t) = calign t"
| "calign (CStruct fs) = caligns fs"
| "calign (CUnion fs) = caligns fs"
| "caligns [] = 1"
| "caligns ((s, t) # fs) = (let a = calign t; b = caligns fs in if a \<le> b then b else a)"

fun csize :: "ctype \<Rightarrow> nat" and cend :: "nat \<Rightarrow> (string \<times> ctype) list \<Rightarrow> nat"
  and cmax :: "(string \<times> ctype) list \<Rightarrow> nat" where
  "csize U8 = 1"
| "csize U16 = 2"
| "csize U32 = 4"
| "csize I16 = 2"
| "csize (CArr t n) = n * csize t"
| "csize (CFlex t) = 0"
| "csize (CStruct fs) = round_up (cend 0 fs) (caligns fs)"
| "csize (CUnion fs) = round_up (cmax fs) (caligns fs)"
| "cend off [] = off"
| "cend off ((s, t) # fs) = cend (round_up off (calign t) + csize t) fs"
| "cmax [] = 0"
| "cmax ((s, t) # fs) = (let a = csize t; b = cmax fs in if a \<le> b then b else a)"

text \<open>The offset and the type of a field.\<close>

fun foff :: "nat \<Rightarrow> (string \<times> ctype) list \<Rightarrow> string \<Rightarrow> nat option" where
  "foff off [] f = None"
| "foff off ((s, t) # fs) f =
     (let o' = round_up off (calign t) in if s = f then Some o' else foff (o' + csize t) fs f)"

fun ftype :: "(string \<times> ctype) list \<Rightarrow> string \<Rightarrow> ctype option" where
  "ftype [] f = None"
| "ftype ((s, t) # fs) f = (if s = f then Some t else ftype fs f)"

fun fields_of :: "ctype \<Rightarrow> (string \<times> ctype) list" where
  "fields_of (CStruct fs) = fs"
| "fields_of _ = []"

definition offsetof :: "ctype \<Rightarrow> string \<Rightarrow> nat" where
  "offsetof T f = (case foff 0 (fields_of T) f of Some off \<Rightarrow> off | None \<Rightarrow> 0)"

section \<open>Reading and writing fields of a message\<close>

definition rd_u8 :: "u8 list \<Rightarrow> nat \<Rightarrow> u8 res" where
  "rd_u8 m off = rd m off"

definition rd_u16 :: "u8 list \<Rightarrow> nat \<Rightarrow> u16 res" where
  "rd_u16 m off = rbind (rd m off) (\<lambda>a. rbind (rd m (off + 1)) (\<lambda>b. Inr (u16_of_bytes a b)))"

definition rd_u32 :: "u8 list \<Rightarrow> nat \<Rightarrow> u32 res" where
  "rd_u32 m off =
     rbind (rd m off) (\<lambda>a. rbind (rd m (off + 1)) (\<lambda>b.
     rbind (rd m (off + 2)) (\<lambda>c. rbind (rd m (off + 3)) (\<lambda>d. Inr (u32_of_bytes a b c d)))))"

definition fld8 :: "u8 list \<Rightarrow> nat \<Rightarrow> ctype \<Rightarrow> string \<Rightarrow> u8 res" where
  "fld8 m base T f = rd_u8 m (base + offsetof T f)"

definition fld16 :: "u8 list \<Rightarrow> nat \<Rightarrow> ctype \<Rightarrow> string \<Rightarrow> u16 res" where
  "fld16 m base T f = rd_u16 m (base + offsetof T f)"

definition fld32 :: "u8 list \<Rightarrow> nat \<Rightarrow> ctype \<Rightarrow> string \<Rightarrow> u32 res" where
  "fld32 m base T f = rd_u32 m (base + offsetof T f)"

lemma rd_u16_bytes [simp]:
  "length as = k \<Longrightarrow> rd_u16 (as @ bytes_of_u16 w @ bs) k = Inr w"
  by (simp add: rd_u16_def rd_def nth_append bytes_of_u16_def)

lemma rd_u32_bytes [simp]:
  "length as = k \<Longrightarrow> rd_u32 (as @ bytes_of_u32 w @ bs) k = Inr w"
  by (simp add: rd_u32_def rd_def nth_append bytes_of_u32_def numeral_2_eq_2 numeral_3_eq_3)

lemma rd_u16_ok: "k + 2 \<le> length m \<Longrightarrow> rd_u16 m k = Inr (u16_of_bytes (m ! k) (m ! (k + 1)))"
  by (simp add: rd_u16_def)

lemma rd_u32_ok: "k + 4 \<le> length m \<Longrightarrow>
    rd_u32 m k = Inr (u32_of_bytes (m ! k) (m ! (k + 1)) (m ! (k + 2)) (m ! (k + 3)))"
  by (simp add: rd_u32_def)

lemma rd_append_right [simp]: "length as = k \<Longrightarrow> rd (as @ bs) (k + i) = rd bs i"
  by (auto simp: rd_def nth_append)

lemma rd_Cons_Suc [simp]: "rd (a # bs) (Suc i) = rd bs i"
  by (simp add: rd_def)

lemma rd_Cons_0 [simp]: "rd (a # bs) 0 = Inr a"
  by (simp add: rd_def)

lemma rd_drop: "rd m (k + i) = (if k \<le> length m then rd (drop k m) i else Inl OutOfRange)"
  by (auto simp: rd_def)

section \<open>Message identifiers and error codes\<close>

datatype L1FAPIMsgId_e =
    FAPI_PARAM_REQUEST | FAPI_PARAM_RESPONSE | FAPI_CONFIG_REQUEST | FAPI_CONFIG_RESPONSE
  | FAPI_START_REQUEST | FAPI_STOP_REQUEST | FAPI_STOP_INDICATION | FAPI_ERROR_INDICATION
  | FAPI_DL_TTI_REQUEST | FAPI_UL_TTI_REQUEST | FAPI_SLOT_INDICATION | FAPI_UL_DCI_REQUEST
  | FAPI_TX_DATA_REQUEST | FAPI_RX_DATA_INDICATION | FAPI_CRC_INDICATION | FAPI_UCI_INDICATION
  | FAPI_SRS_INDICATION | FAPI_PRACH_INDICATION

fun fapi_id :: "L1FAPIMsgId_e \<Rightarrow> u32" where
  "fapi_id FAPI_PARAM_REQUEST = 0"
| "fapi_id FAPI_PARAM_RESPONSE = 1"
| "fapi_id FAPI_CONFIG_REQUEST = 2"
| "fapi_id FAPI_CONFIG_RESPONSE = 3"
| "fapi_id FAPI_START_REQUEST = 4"
| "fapi_id FAPI_STOP_REQUEST = 5"
| "fapi_id FAPI_STOP_INDICATION = 6"
| "fapi_id FAPI_ERROR_INDICATION = 7"
| "fapi_id FAPI_DL_TTI_REQUEST = 0x80"
| "fapi_id FAPI_UL_TTI_REQUEST = 0x81"
| "fapi_id FAPI_SLOT_INDICATION = 0x82"
| "fapi_id FAPI_UL_DCI_REQUEST = 0x83"
| "fapi_id FAPI_TX_DATA_REQUEST = 0x84"
| "fapi_id FAPI_RX_DATA_INDICATION = 0x85"
| "fapi_id FAPI_CRC_INDICATION = 0x86"
| "fapi_id FAPI_UCI_INDICATION = 0x87"
| "fapi_id FAPI_SRS_INDICATION = 0x88"
| "fapi_id FAPI_PRACH_INDICATION = 0x89"

datatype L1FAPIErrorCode_e = FAPI_MSG_OK | FAPI_MSG_INVALID_STATE | FAPI_MSG_INVALID_CONFIG
  | FAPI_SFN_OUT_OF_SYNC | FAPI_MSG_SLOT_ERR | FAPI_MSG_BCH_MISSING | FAPI_MSG_INVALID_SFN
  | FAPI_MSG_UL_DCI_ERR | FAPI_MSG_TX_ERR

section \<open>The structures\<close>

definition L1MsgHdr_t :: ctype where
  "L1MsgHdr_t = CStruct [(''msgNum'', U8), (''opaque'', U8), (''rev'', U16)]"

definition L1GeneralMsgHdr_t :: ctype where
  "L1GeneralMsgHdr_t = CStruct [(''msgId'', U32), (''msgSize'', U32)]"

definition L1ParamRequest_t :: ctype where
  "L1ParamRequest_t = CStruct []"

definition L1ParamResponse_t :: ctype where
  "L1ParamResponse_t = CStruct [(''ErrorCode'', U8)]"

definition L1PrachFdOccasionConfigInfo_t :: ctype where
  "L1PrachFdOccasionConfigInfo_t = CStruct [(''prachRootSequenceIndex'', U16),
    (''prachFrequencyOffset'', I16), (''numUnusedRootSequences'', U16),
    (''numRootSequences'', U8), (''prachZeroCorrConf'', U8),
    (''unusedRootSequences'', CArr U16 3), (''rev'', U16)]"

definition L1TxRu_t :: ctype where
  "L1TxRu_t = CStruct [(''digBeamWeightRe'', I16), (''digBeamWeightIm'', I16)]"

definition L1DigBeam_t :: ctype where
  "L1DigBeam_t = CStruct [(''beamIdx'', U16), (''rev'', U16), (''TXRU'', CFlex L1TxRu_t)]"

definition L1PrecoderInfo_t :: ctype where
  "L1PrecoderInfo_t = CStruct [(''precoderWeightRe'', I16), (''precoderWeightIm'', I16)]"

definition L1PMLayer_t :: ctype where
  "L1PMLayer_t = CStruct [(''precoderInfo'', CFlex L1PrecoderInfo_t)]"

definition L1CarriConfigInfo_t :: ctype where
  "L1CarriConfigInfo_t = CStruct [(''dlFrequency'', U32), (''ulFrequency'', U32),
    (''dlBandwidth'', U16), (''ulBandwidth'', U16), (''dlk0'', CArr U16 5),
    (''ulk0'', CArr U16 5), (''dlGridSize'', CArr U16 5), (''ulGridSize'', CArr U16 5),
    (''numTxAnt'', U16), (''numRxAnt'', U16), (''FrequencyShift7p5KHz'', U8), (''rev0'', U8),
    (''rev1'', U16)]"

definition L1CellConfigInfo_t :: ctype where
  "L1CellConfigInfo_t = CStruct [(''phyCellId'', U16), (''FrameDuplexType'', U8), (''rev0'', U8)]"

definition L1SsbConfigInfo_t :: ctype where
  "L1SsbConfigInfo_t = CStruct [(''ssPbchBlockPowerScaling'', I16), (''bchPayloadFlag'', U8),
    (''rev0'', U8)]"

definition L1PrachConfiguration_t :: ctype where
  "L1PrachConfiguration_t = CStruct [(''prachResConfigIndex'', U16),
    (''prachSequenceLength'', U8), (''prachSubCSpacing'', U8), (''ulBwpPuschScs'', U8),
    (''restrictedSetConfig'', U8), (''numPrachFdOccasions'', U8), (''prachConfigIndex'', U8),
    (''SsbPerRach'', U8), (''rev0'', U8), (''rev1'', U16),
    (''PrachFdOccaCfgInfos'', CFlex L1PrachFdOccasionConfigInfo_t)]"

definition L1PrachConfigInfo_t :: ctype where
  "L1PrachConfigInfo_t = CStruct [(''numPrachConfigurations'', U16), (''rev'', U16),
    (''PrachConfiguration'', CFlex L1PrachConfiguration_t)]"

definition L1SsbTableConfigInfo_t :: ctype where
  "L1SsbTableConfigInfo_t = CStruct [(''ssbConfigIndex'', U16), (''ssbOffsetPointA'', U16),
    (''betaPssProfileSSS'', I16), (''ssbPeriod'', U8), (''ssbSubcarrierOffset'', U8),
    (''Case'', U8), (''subcarrierSpacing'', U8), (''subCarrierSpacingCommon'', U8),
    (''lMax'', U8), (''rmsiPresence'', U8), (''rev0'', U8), (''rev1'', U16),
    (''SsbMask'', CArr U32 2), (''BeamId'', CArr U8 64)]"

definition L1TddTableConfigInfo_t :: ctype where
  "L1TddTableConfigInfo_t = CStruct [(''TddPeriod'', U8), (''rev0'', U8), (''rev1'', U16),
    (''SlotConfig'', CArr U8 1120)]"

definition L1MeasurementConfigInfo_t :: ctype where
  "L1MeasurementConfigInfo_t = CStruct [(''RssiMeasurement'', U8), (''RsrpMeasurement'', U8),
    (''rev'', U16)]"

definition L1DBTConfigInfo_t :: ctype where
  "L1DBTConfigInfo_t = CStruct [(''numDigBeams'', U16), (''numBasebandPorts'', U16),
    (''digBeam'', CFlex L1DigBeam_t)]"

definition L1PMConfigInfo_t :: ctype where
  "L1PMConfigInfo_t = CStruct [(''PMidx'', U16), (''numLayers'', U16), (''numAntPorts'', U16),
    (''rev'', U16), (''layers'', CFlex L1PMLayer_t)]"

definition L1PMCfgTableInfo_t :: ctype where
  "L1PMCfgTableInfo_t = CStruct [(''numPMTables'', U16), (''rev0'', U16),
    (''pmTable'', CFlex L1PMConfigInfo_t)]"

definition L1MapIndex_t :: ctype where
  "L1MapIndex_t = CStruct [(''numPart1Params'', U8), (''rev0'', U8), (''map'', CArr U16 2),
    (''sizesPart1Params'', CFlex U8)]"

definition L1UciConfigurationInfo_t :: ctype where
  "L1UciConfigurationInfo_t = CStruct [(''numUci2Maps'', U16), (''rev'', U16),
    (''mapIndex'', CFlex L1MapIndex_t)]"

definition L1CoresetRmPattern_t :: ctype where
  "L1CoresetRmPattern_t = CStruct [(''symbolsPattern'', U16),
    (''freqDomainResources'', CArr U8 6), (''coresetRmPatternID'', U8), (''rev0'', U8),
    (''rev1'', U16)]"

definition L1PrbSymbRateMatchPatterns_t :: ctype where
  "L1PrbSymbRateMatchPatterns_t = CStruct [(''prbSymbRateMatchPatternID'', U8),
    (''freqDomainRB'', CArr U8 35), (''subcarrierSpacing'', U8), (''rev0'', U8), (''rev1'', U16),
    (''symbolsInRB'', U32)]"

definition L1PrbSym_t :: ctype where
  "L1PrbSym_t = CStruct [(''numberOfPrbSymbRateMatchPatterns'', U8),
    (''numCoresetRmPatterns'', U8), (''rev'', U16),
    (''CoresetRmPatterns'', CFlex L1CoresetRmPattern_t),
    (''PrbSymbRateMatchPatterns'', CFlex L1PrbSymbRateMatchPatterns_t)]"

definition L1UlBwpIds_t :: ctype where
  "L1UlBwpIds_t = CStruct [(''nIdPucchHopping'', U16), (''pucchGroupHopping'', U8), (''rev0'', U8)]"

definition L1PucchSSConfig_t :: ctype where
  "L1PucchSSConfig_t = CStruct [(''numUlBwpIds'', U8), (''rev0'', U8), (''rev1'', U16),
    (''UlBwpIds'', CFlex L1UlBwpIds_t)]"

definition L1PdschConfig_t :: ctype where
  "L1PdschConfig_t = CStruct [(''pdschCbgScheme'', U8), (''rev0'', U8), (''rev1'', U16)]"

definition L1ConfigRequest_t :: ctype where
  "L1ConfigRequest_t = CStruct [(''CarriConfig'', L1CarriConfigInfo_t),
    (''CellConfig'', L1CellConfigInfo_t), (''SSBConfig'', L1SsbConfigInfo_t),
    (''PRACHCfgInfo'', L1PrachConfigInfo_t), (''SSBtableInfo'', L1SsbTableConfigInfo_t),
    (''TDDtableInfo'', L1TddTableConfigInfo_t),
    (''MeasurementCfgInfo'', L1MeasurementConfigInfo_t),
    (''UciConfigurationInfo'', L1UciConfigurationInfo_t), (''PrbSymol'', L1PrbSym_t),
    (''PucchSSConfig'', L1PucchSSConfig_t), (''PdschConfig'', L1PdschConfig_t),
    (''DBTInfo'', L1DBTConfigInfo_t), (''PMInfo'', L1PMCfgTableInfo_t)]"

definition L1GroupUeInfo_t :: ctype where
  "L1GroupUeInfo_t = CStruct [(''PduIdx'', U8), (''rev0'', U8), (''rev1'', U16)]"

definition L1DlGroupInfo_t :: ctype where
  "L1DlGroupInfo_t = CStruct [(''nUe'', U8), (''rev0'', U8), (''rev1'', U16),
    (''Ues'', CFlex L1GroupUeInfo_t)]"

definition L1PdcchBwpInfo_t :: ctype where
  "L1PdcchBwpInfo_t = CStruct [(''CoresetBWPSize'', U16), (''CoresetBWPStart'', U16),
    (''SubcarrierSpacing'', U8), (''CyclicPrefix'', U8), (''rev'', U16)]"

definition L1BwpInfo_t :: ctype where
  "L1BwpInfo_t = CStruct [(''BWPSize'', U16), (''BWPStart'', U16), (''SubcarrierSpacing'', U8),
    (''CyclicPrefix'', U8), (''rev'', U16)]"

definition L1TxPrecodingBeamformingPdu_t :: ctype where
  "L1TxPrecodingBeamformingPdu_t = CStruct [(''numPRGs'', U16), (''prgSize'', U16),
    (''digBFInterfaces'', U8), (''rev0'', U8), (''rev1'', U16), (''PMidx'', CFlex U16)]"

definition L1PdcchTxPowerInfo_t :: ctype where
  "L1PdcchTxPowerInfo_t = CStruct [(''pdcchDmrsPowerOffsetProfileSSS'', I16),
    (''pdcchDataPowerOffsetProfileSSS'', I16)]"

definition L1DlDciInfo_t :: ctype where
  "L1DlDciInfo_t = CStruct [(''RNTI'', U16), (''nIdPdcchData'', U16), (''nRntiPdcchData'', U16),
    (''nIdPdcchDmrs'', U16), (''CceIndex'', U8), (''AggregationLevel'', U8),
    (''PayloadSizeBits'', U16), (''TxPowerInfo'', L1PdcchTxPowerInfo_t),
    (''Payload'', CArr U8 20), (''BeamformingInfo'', L1TxPrecodingBeamformingPdu_t)]"

definition L1CoresetInfo_t :: ctype where
  "L1CoresetInfo_t = CStruct [(''ShiftIndex'', U16), (''StartSymbolIndex'', U8),
    (''DurationSymbols'', U8), (''FreqDomainResource'', CArr U8 6), (''CceRegMappingType'', U8),
    (''RegBundleSize'', U8), (''InterleaverSize'', U8), (''CoreSetType'', U8),
    (''precoderGranularity'', U8), (''rev'', U8)]"

definition L1Codeword_t :: ctype where
  "L1Codeword_t = CStruct [(''TBSize'', U32), (''tbSizeLbrmBytes'', U32),
    (''targetCodeRate'', U16), (''qamModOrder'', U8), (''mcsIndex'', U8), (''mcsTable'', U8),
    (''rvIndex'', U8), (''ldpcBaseGraph'', U8), (''rev'', U8)]"

definition L1CodewordInfo_t :: ctype where
  "L1CodewordInfo_t = CStruct [(''NrOfCodewords'', U8), (''rev0'', U8), (''rev1'', U16),
    (''CodewordInfo'', CArr L1Codeword_t 2)]"

definition L1PdschDmrsInfo_t :: ctype where
  "L1PdschDmrsInfo_t = CStruct [(''dlDmrsSymbPos'', U16), (''dlDmrsScramblingId'', U16),
    (''dmrsPorts'', U16), (''maxLen'', U8), (''dmrsConfigType'', U8), (''nSCID'', U8),
    (''numDmrsCdmGrpsNoData'', U8), (''rev'', U16)]"

definition L1PdschAllocationFdInfo_t :: ctype where
  "L1PdschAllocationFdInfo_t = CStruct [(''rbStart'', U16), (''rbSize'', U16),
    (''coresetStartPoint'', U16), (''initialDlBwpSize'', U16), (''resourceAlloc'', U8),
    (''VRBtoPRBMapping'', U8), (''pdschTransType'', U8), (''rev'', U8), (''rbBitmap'', CArr U8 36)]"

definition L1PxschAllocationTdInfo_t :: ctype where
  "L1PxschAllocationTdInfo_t = CStruct [(''StartSymbolIndex'', U8), (''NrOfSymbols'', U8),
    (''rev'', U16)]"

definition L1PtrsInfo_t :: ctype where
  "L1PtrsInfo_t = CStruct [(''pdschPtrsPowerOffsetProfileSSS'', I16), (''PTRSPortIndex'', U8),
    (''PTRSTimeDensity'', U8), (''PTRSFreqDensity'', U8), (''PTRSReOffset'', U8), (''rev'', U16)]"

definition L1TxPowerInfo_t :: ctype where
  "L1TxPowerInfo_t = CStruct [(''pdschDmrsPowerOffsetProfileSSS'', I16),
    (''pdschDataPowerOffsetProfileSSS'', I16)]"

definition L1CsiTxPowerInfo_t :: ctype where
  "L1CsiTxPowerInfo_t = CStruct [(''csiRsPowerOffsetProfileSSS'', I16), (''rev'', U16)]"

definition L1CbgFeildInfo_t :: ctype where
  "L1CbgFeildInfo_t = CStruct [(''maxNumCbgPerTb'', U8), (''rev0'', U8), (''rev1'', U16),
    (''dlTbCrcCW'', CArr U8 8)]"

definition L1PdcchPduInfo_t :: ctype where
  "L1PdcchPduInfo_t = CStruct [(''pdcchPduIndex'', U16), (''numDlDci'', U16),
    (''BWP'', L1PdcchBwpInfo_t), (''Coreset'', L1CoresetInfo_t), (''DlDCIs'', CFlex L1DlDciInfo_t)]"

definition L1PrbSymRmPatternsByValue_t :: ctype where
  "L1PrbSymRmPatternsByValue_t = CStruct [(''symbolsInRB'', U16), (''freqDomainRB'', CArr U8 35)]"

definition L1RateMatchingInformation_t :: ctype where
  "L1RateMatchingInformation_t = CStruct [(''ssbConfigForRateMatching'', U16),
    (''numCoresetRMP'', U8), (''numCsiRsForRM'', U8), (''coresetRMPIndex'', CFlex U8),
    (''csiRsForRM'', CFlex U16)]"

definition L1PdschPduInfo_t :: ctype where
  "L1PdschPduInfo_t = CStruct [(''pduBitmap'', U16), (''RNTI'', U16), (''pduIndex'', U16),
    (''rev'', U16), (''BWP'', L1BwpInfo_t), (''CodewordInfo'', L1CodewordInfo_t),
    (''nIdPdsch'', U16), (''nrOfLayers'', U8), (''refPoint'', U8),
    (''DMRSInfo'', L1PdschDmrsInfo_t), (''ResourceAllocFd'', L1PdschAllocationFdInfo_t),
    (''RateMatchingInformation'', L1RateMatchingInformation_t),
    (''ResourceAllocTd'', L1PxschAllocationTdInfo_t), (''TxPowerInfo'', L1TxPowerInfo_t),
    (''PTRS'', L1PtrsInfo_t), (''CbgInfo'', L1CbgFeildInfo_t),
    (''BeamformingInfo'', L1TxPrecodingBeamformingPdu_t)]"

definition L1CsiBwpInfo_t :: ctype where
  "L1CsiBwpInfo_t = CStruct [(''SubcarrierSpacing'', U8), (''CyclicPrefix'', U8), (''rev'', U16)]"

definition L1CsiRsPduInfo_t :: ctype where
  "L1CsiRsPduInfo_t = CStruct [(''csiRsPduIndex'', U16), (''StartRB'', U16), (''NrOfRBs'', U16),
    (''FreqDomain'', U16), (''ScrambId'', U16), (''CSIType'', U8), (''Row'', U8),
    (''SymbL0'', U8), (''SymbL1'', U8), (''CDMType'', U8), (''FreqDensity'', U8),
    (''BWP'', L1BwpInfo_t), (''TxPowerInfo'', L1CsiTxPowerInfo_t),
    (''BeamformingInfo'', L1TxPrecodingBeamformingPdu_t)]"

definition L1BchPayload_t :: ctype where
  "L1BchPayload_t = CStruct [(''bchPayload'', U32)]"

definition L1SsbPduInfo_t :: ctype where
  "L1SsbPduInfo_t = CStruct [(''ssbConfigIndex'', U8), (''ssbBlockIndex'', U8),
    (''bchPayloadFlag'', U8), (''rev'', U8), (''BchPayload'', L1BchPayload_t),
    (''BeamformingInfo'', L1TxPrecodingBeamformingPdu_t)]"

definition L1DlPduConfiguration_t :: ctype where
  "L1DlPduConfiguration_t = CStruct [
    (''u'', CUnion
    [(''PdcchPdu'', L1PdcchPduInfo_t),
     (''PdschPdu'', L1PdschPduInfo_t),
     (''CsiRsPdu'', L1CsiRsPduInfo_t),
     (''SsbPdu'', L1SsbPduInfo_t)])]"

definition L1DlPduInfo_t :: ctype where
  "L1DlPduInfo_t = CStruct [(''PDUType'', U16), (''PDUSize'', U16),
    (''DlPDUConfig'', L1DlPduConfiguration_t)]"

definition L1DLTTIReq_t :: ctype where
  "L1DLTTIReq_t = CStruct [(''SFN'', U16), (''Slot'', U16), (''nPDUs'', U16), (''nDlTypes'', U8),
    (''nGroup'', U8), (''rev'', U16), (''nPDUsOfEachType'', CArr U16 5),
    (''pdus'', CFlex L1DlPduInfo_t)]"

definition L1UlDciPduCfg_t :: ctype where
  "L1UlDciPduCfg_t = CStruct [(''PDUType'', U16), (''PDUSize'', U16),
    (''PdcchPduConfig'', L1PdcchPduInfo_t)]"

definition L1ULDCI_t :: ctype where
  "L1ULDCI_t = CStruct [(''SFN'', U16), (''Slot'', U16), (''numPDUs'', U16), (''nDlTypes'', U8),
    (''rev'', U8), (''nPDUsOfEachType'', CArr U16 2), (''UldciPdu'', CFlex L1UlDciPduCfg_t)]"

definition L1UlGroupInfo_t :: ctype where
  "L1UlGroupInfo_t = CStruct [(''nUe'', U8), (''rev0'', U8), (''rev1'', U16),
    (''Ues'', CFlex L1GroupUeInfo_t)]"

definition L1PuschDmrsInfo_t :: ctype where
  "L1PuschDmrsInfo_t = CStruct [(''ulDmrsSymbPos'', U16), (''puschDmrsScramblingId'', U16),
    (''puschDmrsIdentity'', U16), (''dmrsPorts'', U16), (''maxLen'', U8),
    (''dmrsConfigType'', U8), (''nSCID'', U8), (''numDmrsCdmGrpsNoData'', U8),
    (''groupOrSequenceHopping'', U8), (''rev0'', U8), (''rev1'', U16)]"

definition L1PuschAllocationFdInfo_t :: ctype where
  "L1PuschAllocationFdInfo_t = CStruct [(''rbStart'', U16), (''rbSize'', U16),
    (''deltaBwp0StartFromActiveBwp'', U16), (''initialUlBwpSize'', U16),
    (''puschSecondHopPRB'', U16), (''txDirectCurrentLocation'', U16), (''resourceAlloc'', U8),
    (''VRBtoPRBMapping'', U8), (''puschTransType'', U8), (''IntraSlotFrequencyHopping'', U8),
    (''uplinkFrequencyShift7p5khz'', U8), (''rev0'', U8), (''rev1'', U16),
    (''rbBitmap'', CArr U8 36)]"

definition L1PuschData_t :: ctype where
  "L1PuschData_t = CStruct [(''TBSize'', U32), (''numCb'', U16), (''rvIndex'', U8),
    (''harqProcessID'', U8), (''newData'', U8), (''cbCrcRequest'', U8), (''rev'', U16),
    (''cbPresentAndPosition'', CArr U8 128)]"

definition L1UCIPart2Types_t :: ctype where
  "L1UCIPart2Types_t = CStruct [(''priority'', U16), (''part2SizeMapIndex'', U16),
    (''numPart1Params'', U8), (''numPart2s'', U8), (''reserved'', U16),
    (''paramOffsets'', CArr U16 4), (''paramSizes'', CArr U8 4)]"

definition L1Uci1ToUci2Info_t :: ctype where
  "L1Uci1ToUci2Info_t = CStruct [(''numPart2Types'', U16), (''reserved'', U16),
    (''UCIpart2'', CFlex L1UCIPart2Types_t)]"

definition L1PuschUci_t :: ctype where
  "L1PuschUci_t = CStruct [(''harqAckBitLength'', U16), (''csiPart1BitLength'', U16),
    (''flagCsiPart2'', U16), (''AlphaScaling'', U8), (''betaOffsetHarqAck'', U8),
    (''betaOffsetCsi1'', U8), (''betaOffsetCsi2'', U8), (''reserved'', U16),
    (''uci1ToUci2Info'', L1Uci1ToUci2Info_t)]"

definition L1PtrsPortInfo_t :: ctype where
  "L1PtrsPortInfo_t = CStruct [(''PTRSPortIndex'', U16), (''PTRSDmrsPort'', U8),
    (''PTRSReOffset'', U8)]"

definition L1PuschPtrs_t :: ctype where
  "L1PuschPtrs_t = CStruct [(''PTRSTimeDensity'', U8), (''PTRSFreqDensity'', U8),
    (''ulPTRSPower'', U8), (''numPtrsPorts'', U8), (''PtrsPorts'', CFlex L1PtrsPortInfo_t)]"

definition L1DftsOfdm_t :: ctype where
  "L1DftsOfdm_t = CStruct [(''lowPaprSequenceNumber'', U16), (''lowPaprGroupNumber'', U8),
    (''ulPtrsSampleDensity'', U8), (''ulPtrsTimeDensityTransformPrecoding'', U8), (''rev0'', U8),
    (''rev1'', U16)]"

definition L1PucchAllocationFdInfo_t :: ctype where
  "L1PucchAllocationFdInfo_t = CStruct [(''prbStart'', U16), (''prbSize'', U16)]"

definition L1PucchHoppingInfo_t :: ctype where
  "L1PucchHoppingInfo_t = CStruct [(''nIdPucchHopping'', U16), (''InitialCyclicShift'', U16),
    (''nIdPucchScrambling'', U16), (''secondHopPRB'', U16), (''intraSlotFrequencyHopping'', U8),
    (''pucchGroupHopping'', U8), (''ulBwpId'', U8), (''timeDomainOccIdx'', U8),
    (''preDftOccIdx'', U8), (''preDftOccLen'', U8), (''rev'', U16)]"

definition L1PucchDMRSInfo_t :: ctype where
  "L1PucchDMRSInfo_t = CStruct [(''nId0PucchDmrsScrambling'', U16),
    (''m0PucchDmrsCyclicShift'', U8), (''addDmrsFlag'', U8),
    (''uci1ToUci2Info'', L1Uci1ToUci2Info_t)]"

definition L1PrachPdu_t :: ctype where
  "L1PrachPdu_t = CStruct [(''Handle'', U32), (''physCellID'', U16),
    (''prachResConfigIndex'', U16), (''numCs'', U16), (''NumPrachOcas'', U8),
    (''prachFormat'', U8), (''indexFdRa'', U8), (''numFdRa'', U8), (''prachStartSymbol'', U8),
    (''startPreambleIndex'', U8), (''numPreambleIndices'', U8), (''rev0'', U8), (''rev1'', U16),
    (''BeamformingInfoOffset'', U32)]"

definition L1PuschPduInfo_t :: ctype where
  "L1PuschPduInfo_t = CStruct [(''Handle'', U32), (''pduBitmap'', U16), (''RNTI'', U16),
    (''tbSizeLbrmBytes'', U32), (''targetCodeRate'', U16), (''nIdPusch'', U16),
    (''qamModOrder'', U8), (''mcsIndex'', U8), (''mcsTable'', U8), (''TransformPrecoding'', U8),
    (''nrOfLayers'', U8), (''ldpcBaseGraph'', U8), (''rev'', U16),
    (''BeamformingInfoOffset'', U32), (''BWP'', L1BwpInfo_t), (''DMRS'', L1PuschDmrsInfo_t),
    (''ResourceAllocFd'', L1PuschAllocationFdInfo_t),
    (''ResourceAllocTd'', L1PxschAllocationTdInfo_t), (''puschData'', L1PuschData_t),
    (''puschUci'', L1PuschUci_t), (''puschPtrs'', L1PuschPtrs_t), (''dftsOfdm'', L1DftsOfdm_t)]"

definition L1PucchPduInfo_t :: ctype where
  "L1PucchPduInfo_t = CStruct [(''Handle'', U32), (''RNTI'', U16), (''FormatType'', U8),
    (''multiSlotTxIndicator'', U8), (''pi2Bpsk'', U8), (''rev0'', U8), (''harqBitLen'', U16),
    (''csiPart1BitLen'', U16), (''srBitLen'', U8), (''combineUciReport'', U8),
    (''BeamformingInfoOffset'', U32), (''BWP'', L1BwpInfo_t),
    (''ResourceAllocFd'', L1PucchAllocationFdInfo_t),
    (''ResourceAllocTd'', L1PxschAllocationTdInfo_t), (''hoppingInfo'', L1PucchHoppingInfo_t),
    (''DMRS'', L1PucchDMRSInfo_t)]"

definition L1SrsResource_t :: ctype where
  "L1SrsResource_t = CStruct [(''sequenceId'', U16), (''frequencyShift'', U16), (''Tsrs'', U16),
    (''Toffset'', U16), (''numAntPorts'', U8), (''numSymbols'', U8), (''numRepetitions'', U8),
    (''timeStartPosition'', U8), (''configIndex'', U8), (''bandwidthIndex'', U8),
    (''combSize'', U8), (''combOffset'', U8), (''cyclicShift'', U8), (''frequencyPosition'', U8),
    (''frequencyHopping'', U8), (''groupOrSequenceHopping'', U8), (''resourceType'', U8),
    (''TransformPrecoding'', U8), (''codebookSubset'', U8), (''SRSUsage'', U8),
    (''ReportType'', U32), (''SingularValueRepresentation'', U8), (''IqRepresentation'', U8),
    (''PrgSize'', U16), (''SymbolPuncturingBitmap'', U16), (''reserved'', U16),
    (''BeamformingInfoOffset'', U32)]"

definition L1SrsPdu_t :: ctype where
  "L1SrsPdu_t = CStruct [(''Handle'', U32), (''RNTI'', U16), (''reserved'', U16),
    (''resource'', L1SrsResource_t), (''BWP'', L1BwpInfo_t)]"

definition L1UlPduConfiguration_t :: ctype where
  "L1UlPduConfiguration_t = CStruct [
    (''u'', CUnion
    [(''PrachPdu'', L1PrachPdu_t),
     (''PuschPdu'', L1PuschPduInfo_t),
     (''PucchPdu'', L1PucchPduInfo_t),
     (''SrsPdu'', L1SrsPdu_t)])]"

definition L1UlPduInfo_t :: ctype where
  "L1UlPduInfo_t = CStruct [(''PDUType'', U16), (''PDUSize'', U16),
    (''UlPDUConfig'', L1UlPduConfiguration_t)]"

definition L1ULTTI_t :: ctype where
  "L1ULTTI_t = CStruct [(''SFN'', U16), (''Slot'', U16), (''nPDUs'', U16), (''nUlTypes'', U8),
    (''nGroup'', U8), (''nPDUsOfEachType'', CArr U16 5), (''rev'', U16),
    (''pdus'', CFlex L1UlPduInfo_t)]"

definition L1DataTLV_t :: ctype where
  "L1DataTLV_t = CStruct [(''Tag'', U16), (''rev'', U16), (''Length'', U32), (''Value'', U32)]"

definition L1TxDataPduInfo_t :: ctype where
  "L1TxDataPduInfo_t = CStruct [(''PDULength'', U32), (''PDUIndex'', U16), (''CWIndex'', U8),
    (''rev'', U8), (''numTLV'', U32), (''TLVs'', CFlex L1DataTLV_t)]"

definition L1TXDATAREQ_t :: ctype where
  "L1TXDATAREQ_t = CStruct [(''SFN'', U16), (''Slot'', U16), (''numPDUs'', U16), (''rev'', U16),
    (''pdus'', CFlex L1TxDataPduInfo_t)]"

definition L1ConfigResponse_t :: ctype where
  "L1ConfigResponse_t = CStruct [(''ErrorCode'', U8), (''NumberInvalid'', U8),
    (''NumberTLVsIDLE'', U8), (''NumberTLVsRUNNING'', U8), (''NumberMissTLVs'', U8),
    (''rev0'', U8), (''rev1'', U16)]"

definition L1StartRequest_t :: ctype where
  "L1StartRequest_t = CStruct []"

definition L1StartResponse_t :: ctype where
  "L1StartResponse_t = CStruct [(''ErrorCode'', U32)]"

definition L1StopRequest_t :: ctype where
  "L1StopRequest_t = CStruct []"

definition L1StopIndication_t :: ctype where
  "L1StopIndication_t = CStruct [(''ErrorCode'', U32)]"

definition L1ErrorInfoTLV_t :: ctype where
  "L1ErrorInfoTLV_t = CStruct [(''tag'', U16), (''length'', U16), (''value'', CFlex U32)]"

definition L1ErrorIndication_t :: ctype where
  "L1ErrorIndication_t = CStruct [(''SFN'', U16), (''Slot'', U16), (''ExpectedSFN'', U16),
    (''ExpectedSlot'', U16), (''MessageId'', U8), (''ErrorCode'', U8), (''NumTLVs'', U8),
    (''rev'', U8), (''TLV'', CFlex L1ErrorInfoTLV_t)]"

definition L1SlotIndication_t :: ctype where
  "L1SlotIndication_t = CStruct [(''SFN'', U16), (''Slot'', U16)]"

definition L1RxDataPduInfo_t :: ctype where
  "L1RxDataPduInfo_t = CStruct [(''Handle'', U32), (''RNTI'', U16), (''HarqID'', U8),
    (''rev'', U8), (''numTLV'', U32), (''TLVs'', CFlex L1DataTLV_t)]"

definition L1RxdataIndication_t :: ctype where
  "L1RxdataIndication_t = CStruct [(''SFN'', U16), (''Slot'', U16), (''numPDUs'', U16),
    (''rev'', U16), (''pdus'', CFlex L1RxDataPduInfo_t)]"

definition L1CrcInfo_t :: ctype where
  "L1CrcInfo_t = CStruct [(''Handle'', U32), (''RNTI'', U16), (''HarqID'', U8),
    (''TbCrcStatus'', U8), (''TA'', U32), (''RSSI'', U16), (''RSRP'', U8), (''SINR'', U8),
    (''numCb'', U16), (''rev'', U16), (''CbCrcStatus'', CArr U8 128)]"

definition L1CrcIndication_t :: ctype where
  "L1CrcIndication_t = CStruct [(''SFN'', U16), (''Slot'', U16), (''numCRCs'', U16),
    (''rev'', U16), (''CRCs'', CFlex L1CrcInfo_t)]"

definition L1HarqPduForFmt234_t :: ctype where
  "L1HarqPduForFmt234_t = CStruct [(''HarqBitLen'', U16), (''HarqCrc'', U8), (''rev'', U8),
    (''HarqPayload'', CArr U8 16)]"

definition L1CSIPart1Pdu_t :: ctype where
  "L1CSIPart1Pdu_t = CStruct [(''CsiPart1BitLen'', U16), (''CsiPart1Crc'', U8), (''rev'', U8),
    (''CsiPart1Payload'', CArr U8 32)]"

definition L1CsiPart2TLV_t :: ctype where
  "L1CsiPart2TLV_t = CStruct [(''tag'', U16), (''length'', U16), (''value'', U32)]"

definition L1UciInfoPdu_t :: ctype where
  "L1UciInfoPdu_t = CStruct [(''UciBitLen'', U16), (''CrcStatus'', U8), (''rev'', U8),
    (''uciPayload'', CFlex U8)]"

definition L1CSIPart2Pdu_t :: ctype where
  "L1CSIPart2Pdu_t = CStruct [(''CsiPart2Len'', U16), (''CsiPart2Crc'', U8), (''numTLV'', U8),
    (''TLVs'', CFlex L1CsiPart2TLV_t)]"

definition L1SrPduFMT01_t :: ctype where
  "L1SrPduFMT01_t = CStruct [(''SRindication'', U8), (''SRconfidenceLevel'', U8), (''rev'', U16)]"

definition L1HarqPduForFm01_t :: ctype where
  "L1HarqPduForFm01_t = CStruct [(''NumHarq'', U8), (''HarqconfidenceLevel'', U8),
    (''HarqValue'', CArr U8 2)]"

definition L1SrPduFMT234_t :: ctype where
  "L1SrPduFMT234_t = CStruct [(''SrBitLen'', U8), (''SrPayload'', U8), (''rev'', U16)]"

definition L1UciInPuschPdu_t :: ctype where
  "L1UciInPuschPdu_t = CStruct [(''Handle'', U32), (''RNTI'', U16), (''TA'', U16),
    (''RSSI'', U16), (''SINR'', U8), (''RSRP'', U8), (''pduBitmap'', U8), (''rev0'', U8),
    (''rev1'', U16), (''HARQInfo'', L1HarqPduForFmt234_t), (''CSIPart1Info'', L1CSIPart1Pdu_t),
    (''CSIPart2Info'', L1CSIPart2Pdu_t)]"

definition L1UciInPucchPduFmt01_t :: ctype where
  "L1UciInPucchPduFmt01_t = CStruct [(''Handle'', U32), (''RNTI'', U16), (''TA'', U16),
    (''RSSI'', U16), (''SINR'', U8), (''RSRP'', U8), (''pduBitmap'', U8), (''PucchFormat'', U8),
    (''rev'', U16), (''SrInfo'', L1SrPduFMT01_t), (''HARQInfo'', L1HarqPduForFm01_t)]"

definition L1UciInPucchPduFmt234_t :: ctype where
  "L1UciInPucchPduFmt234_t = CStruct [(''Handle'', U32), (''RNTI'', U16), (''TA'', U16),
    (''RSSI'', U16), (''SINR'', U8), (''RSRP'', U8), (''PucchFormat'', U8), (''pduBitmap'', U8),
    (''rev'', U16), (''SrInfo'', L1SrPduFMT234_t), (''HARQInfo'', L1HarqPduForFmt234_t),
    (''CSIPart1Info'', L1CSIPart1Pdu_t), (''CSIPart2Info'', L1CSIPart2Pdu_t),
    (''UCIInfo'', L1UciInfoPdu_t)]"

definition L1UciPduInfo_t :: ctype where
  "L1UciPduInfo_t = CStruct [
    (''u'', CUnion
    [(''uciInPuschPdu'', L1UciInPuschPdu_t),
     (''uciInPucchPduFmt01'', L1UciInPucchPduFmt01_t),
     (''uciInPucchPduFmt234'', L1UciInPucchPduFmt234_t)])]"

definition L1UciInfo_t :: ctype where
  "L1UciInfo_t = CStruct [(''PDUType'', U16), (''PDUSize'', U16), (''Pdu'', L1UciPduInfo_t)]"

definition L1UciIndication_t :: ctype where
  "L1UciIndication_t = CStruct [(''SFN'', U16), (''Slot'', U16), (''numUcis'', U16),
    (''rev'', U16), (''pdus'', CFlex L1UciInfo_t)]"

definition L1RbsBlock_t :: ctype where
  "L1RbsBlock_t = CStruct [(''rbSINR'', U8), (''rbRSRP'', U8), (''rev'', U16)]"

definition L1SrsReportInfo_t :: ctype where
  "L1SrsReportInfo_t = CStruct [(''tag'', U16), (''reserved'', U16), (''length'', U32),
    (''value'', U32)]"

definition L1SrsPduInfo_t :: ctype where
  "L1SrsPduInfo_t = CStruct [(''Handle'', U32), (''RNTI'', U16), (''TA'', U16),
    (''TAOffest'', I16), (''SRSUsage'', U8), (''ReportType'', U8),
    (''reportTLV'', L1SrsReportInfo_t)]"

definition L1SrsIndication_t :: ctype where
  "L1SrsIndication_t = CStruct [(''SFN'', U16), (''Slot'', U16), (''controlLength'', U16),
    (''numPDUs'', U8), (''rev0'', U8), (''pdus'', CFlex L1SrsPduInfo_t)]"

definition L1BeamformingReportinfo_t :: ctype where
  "L1BeamformingReportinfo_t = CStruct [(''numPRGs'', U16), (''reserved1'', U16),
    (''prgSINR'', CFlex U8)]"

definition L1BeamformingReport_t :: ctype where
  "L1BeamformingReport_t = CStruct [(''prgSize'', U16), (''numSymbols'', U8),
    (''wideBandSINR'', U8), (''numReportedSymbols'', U8), (''reserved1'', U8),
    (''reserved2'', U16), (''symbols'', CFlex L1BeamformingReportinfo_t)]"

definition L1NormalizedChannelMatrix_t :: ctype where
  "L1NormalizedChannelMatrix_t = CStruct [(''normalizedIqRepresentation'', U8),
    (''reserved1'', U8), (''numGnbAntennaElements'', U16), (''numUeSrsPorts'', U16),
    (''prgSize'', U16), (''numPRGs'', U16), (''reserved2'', U16),
    (''ArrayRepresentingChannelMatrixH'', CFlex U16)]"

definition L1PreambleInfo_t :: ctype where
  "L1PreambleInfo_t = CStruct [(''PreamblePwr'', U32), (''TA'', U16), (''preambleSinr'', U8),
    (''preambleIndex'', U8)]"

definition L1SUMIMORecommended_t :: ctype where
  "L1SUMIMORecommended_t = CStruct [(''prgSize'', U16), (''wideBandSNR'', U8),
    (''wideBandRSRP'', U8), (''TRI'', U8), (''TPMI'', U8), (''numPRGs'', U16),
    (''prgSNR'', CFlex U8)]"

definition L1RachPduInfo_t :: ctype where
  "L1RachPduInfo_t = CStruct [(''handle'', U16), (''avgRssi'', U16), (''avgSinr'', U8),
    (''SymbolIndex'', U8), (''SlotIndex'', U8), (''raIndex'', U8), (''numPreambles'', U8),
    (''rev0'', U8), (''rev1'', U16), (''preamble'', CFlex L1PreambleInfo_t)]"

definition L1RachIndication_t :: ctype where
  "L1RachIndication_t = CStruct [(''SFN'', U16), (''Slot'', U16), (''numPDUs'', U8),
    (''rev0'', U8), (''rev1'', U16), (''pdus'', CFlex L1RachPduInfo_t)]"


section \<open>The layout computed\<close>

text \<open>
  Size and alignment of every structure, and the field offsets of the structures whose fields the
  program addresses through \<open>offsetof\<close>; all of it evaluated from the definitions above.
\<close>

named_theorems layout \<open>sizes, alignments and offsets of the message structures\<close>

lemma lay_L1MsgHdr_t [layout]: "calign L1MsgHdr_t = 2" "csize L1MsgHdr_t = 4"
  by (simp_all add: L1MsgHdr_t_def round_up_def layout del: One_nat_def)

lemma lay_L1GeneralMsgHdr_t [layout]: "calign L1GeneralMsgHdr_t = 4" "csize L1GeneralMsgHdr_t = 8"
  by (simp_all add: L1GeneralMsgHdr_t_def round_up_def layout del: One_nat_def)

lemma lay_L1ParamRequest_t [layout]: "calign L1ParamRequest_t = 1" "csize L1ParamRequest_t = 0"
  by (simp_all add: L1ParamRequest_t_def round_up_def layout del: One_nat_def)

lemma lay_L1ParamResponse_t [layout]: "calign L1ParamResponse_t = 1" "csize L1ParamResponse_t = 1"
  by (simp_all add: L1ParamResponse_t_def round_up_def layout del: One_nat_def)

lemma lay_L1PrachFdOccasionConfigInfo_t [layout]: "calign L1PrachFdOccasionConfigInfo_t = 2" "csize L1PrachFdOccasionConfigInfo_t = 16"
  by (simp_all add: L1PrachFdOccasionConfigInfo_t_def round_up_def layout del: One_nat_def)

lemma lay_L1TxRu_t [layout]: "calign L1TxRu_t = 2" "csize L1TxRu_t = 4"
  by (simp_all add: L1TxRu_t_def round_up_def layout del: One_nat_def)

lemma lay_L1DigBeam_t [layout]: "calign L1DigBeam_t = 2" "csize L1DigBeam_t = 4"
  by (simp_all add: L1DigBeam_t_def round_up_def layout del: One_nat_def)

lemma lay_L1PrecoderInfo_t [layout]: "calign L1PrecoderInfo_t = 2" "csize L1PrecoderInfo_t = 4"
  by (simp_all add: L1PrecoderInfo_t_def round_up_def layout del: One_nat_def)

lemma lay_L1PMLayer_t [layout]: "calign L1PMLayer_t = 2" "csize L1PMLayer_t = 0"
  by (simp_all add: L1PMLayer_t_def round_up_def layout del: One_nat_def)

lemma lay_L1CarriConfigInfo_t [layout]: "calign L1CarriConfigInfo_t = 4" "csize L1CarriConfigInfo_t = 60"
  by (simp_all add: L1CarriConfigInfo_t_def round_up_def layout del: One_nat_def)

lemma lay_L1CellConfigInfo_t [layout]: "calign L1CellConfigInfo_t = 2" "csize L1CellConfigInfo_t = 4"
  by (simp_all add: L1CellConfigInfo_t_def round_up_def layout del: One_nat_def)

lemma lay_L1SsbConfigInfo_t [layout]: "calign L1SsbConfigInfo_t = 2" "csize L1SsbConfigInfo_t = 4"
  by (simp_all add: L1SsbConfigInfo_t_def round_up_def layout del: One_nat_def)

lemma lay_L1PrachConfiguration_t [layout]: "calign L1PrachConfiguration_t = 2" "csize L1PrachConfiguration_t = 12"
  by (simp_all add: L1PrachConfiguration_t_def round_up_def layout del: One_nat_def)

lemma lay_L1PrachConfigInfo_t [layout]: "calign L1PrachConfigInfo_t = 2" "csize L1PrachConfigInfo_t = 4"
  by (simp_all add: L1PrachConfigInfo_t_def round_up_def layout del: One_nat_def)

lemma lay_L1SsbTableConfigInfo_t [layout]: "calign L1SsbTableConfigInfo_t = 4" "csize L1SsbTableConfigInfo_t = 88"
  by (simp_all add: L1SsbTableConfigInfo_t_def round_up_def layout del: One_nat_def)

lemma lay_L1TddTableConfigInfo_t [layout]: "calign L1TddTableConfigInfo_t = 2" "csize L1TddTableConfigInfo_t = 1124"
  by (simp_all add: L1TddTableConfigInfo_t_def round_up_def layout del: One_nat_def)

lemma lay_L1MeasurementConfigInfo_t [layout]: "calign L1MeasurementConfigInfo_t = 2" "csize L1MeasurementConfigInfo_t = 4"
  by (simp_all add: L1MeasurementConfigInfo_t_def round_up_def layout del: One_nat_def)

lemma lay_L1DBTConfigInfo_t [layout]: "calign L1DBTConfigInfo_t = 2" "csize L1DBTConfigInfo_t = 4"
  by (simp_all add: L1DBTConfigInfo_t_def round_up_def layout del: One_nat_def)

lemma lay_L1PMConfigInfo_t [layout]: "calign L1PMConfigInfo_t = 2" "csize L1PMConfigInfo_t = 8"
  by (simp_all add: L1PMConfigInfo_t_def round_up_def layout del: One_nat_def)

lemma lay_L1PMCfgTableInfo_t [layout]: "calign L1PMCfgTableInfo_t = 2" "csize L1PMCfgTableInfo_t = 4"
  by (simp_all add: L1PMCfgTableInfo_t_def round_up_def layout del: One_nat_def)

lemma lay_L1MapIndex_t [layout]: "calign L1MapIndex_t = 2" "csize L1MapIndex_t = 6"
  by (simp_all add: L1MapIndex_t_def round_up_def layout del: One_nat_def)

lemma lay_L1UciConfigurationInfo_t [layout]: "calign L1UciConfigurationInfo_t = 2" "csize L1UciConfigurationInfo_t = 4"
  by (simp_all add: L1UciConfigurationInfo_t_def round_up_def layout del: One_nat_def)

lemma lay_L1CoresetRmPattern_t [layout]: "calign L1CoresetRmPattern_t = 2" "csize L1CoresetRmPattern_t = 12"
  by (simp_all add: L1CoresetRmPattern_t_def round_up_def layout del: One_nat_def)

lemma lay_L1PrbSymbRateMatchPatterns_t [layout]: "calign L1PrbSymbRateMatchPatterns_t = 4" "csize L1PrbSymbRateMatchPatterns_t = 44"
  by (simp_all add: L1PrbSymbRateMatchPatterns_t_def round_up_def layout del: One_nat_def)

lemma lay_L1PrbSym_t [layout]: "calign L1PrbSym_t = 4" "csize L1PrbSym_t = 4"
  by (simp_all add: L1PrbSym_t_def round_up_def layout del: One_nat_def)

lemma lay_L1UlBwpIds_t [layout]: "calign L1UlBwpIds_t = 2" "csize L1UlBwpIds_t = 4"
  by (simp_all add: L1UlBwpIds_t_def round_up_def layout del: One_nat_def)

lemma lay_L1PucchSSConfig_t [layout]: "calign L1PucchSSConfig_t = 2" "csize L1PucchSSConfig_t = 4"
  by (simp_all add: L1PucchSSConfig_t_def round_up_def layout del: One_nat_def)

lemma lay_L1PdschConfig_t [layout]: "calign L1PdschConfig_t = 2" "csize L1PdschConfig_t = 4"
  by (simp_all add: L1PdschConfig_t_def round_up_def layout del: One_nat_def)

lemma lay_L1ConfigRequest_t [layout]: "calign L1ConfigRequest_t = 4" "csize L1ConfigRequest_t = 1312"
  by (simp_all add: L1ConfigRequest_t_def round_up_def layout del: One_nat_def)

lemma lay_L1GroupUeInfo_t [layout]: "calign L1GroupUeInfo_t = 2" "csize L1GroupUeInfo_t = 4"
  by (simp_all add: L1GroupUeInfo_t_def round_up_def layout del: One_nat_def)

lemma lay_L1DlGroupInfo_t [layout]: "calign L1DlGroupInfo_t = 2" "csize L1DlGroupInfo_t = 4"
  by (simp_all add: L1DlGroupInfo_t_def round_up_def layout del: One_nat_def)

lemma lay_L1PdcchBwpInfo_t [layout]: "calign L1PdcchBwpInfo_t = 2" "csize L1PdcchBwpInfo_t = 8"
  by (simp_all add: L1PdcchBwpInfo_t_def round_up_def layout del: One_nat_def)

lemma lay_L1BwpInfo_t [layout]: "calign L1BwpInfo_t = 2" "csize L1BwpInfo_t = 8"
  by (simp_all add: L1BwpInfo_t_def round_up_def layout del: One_nat_def)

lemma lay_L1TxPrecodingBeamformingPdu_t [layout]: "calign L1TxPrecodingBeamformingPdu_t = 2" "csize L1TxPrecodingBeamformingPdu_t = 8"
  by (simp_all add: L1TxPrecodingBeamformingPdu_t_def round_up_def layout del: One_nat_def)

lemma lay_L1PdcchTxPowerInfo_t [layout]: "calign L1PdcchTxPowerInfo_t = 2" "csize L1PdcchTxPowerInfo_t = 4"
  by (simp_all add: L1PdcchTxPowerInfo_t_def round_up_def layout del: One_nat_def)

lemma lay_L1DlDciInfo_t [layout]: "calign L1DlDciInfo_t = 2" "csize L1DlDciInfo_t = 44"
  by (simp_all add: L1DlDciInfo_t_def round_up_def layout del: One_nat_def)

lemma lay_L1CoresetInfo_t [layout]: "calign L1CoresetInfo_t = 2" "csize L1CoresetInfo_t = 16"
  by (simp_all add: L1CoresetInfo_t_def round_up_def layout del: One_nat_def)

lemma lay_L1Codeword_t [layout]: "calign L1Codeword_t = 4" "csize L1Codeword_t = 16"
  by (simp_all add: L1Codeword_t_def round_up_def layout del: One_nat_def)

lemma lay_L1CodewordInfo_t [layout]: "calign L1CodewordInfo_t = 4" "csize L1CodewordInfo_t = 36"
  by (simp_all add: L1CodewordInfo_t_def round_up_def layout del: One_nat_def)

lemma lay_L1PdschDmrsInfo_t [layout]: "calign L1PdschDmrsInfo_t = 2" "csize L1PdschDmrsInfo_t = 12"
  by (simp_all add: L1PdschDmrsInfo_t_def round_up_def layout del: One_nat_def)

lemma lay_L1PdschAllocationFdInfo_t [layout]: "calign L1PdschAllocationFdInfo_t = 2" "csize L1PdschAllocationFdInfo_t = 48"
  by (simp_all add: L1PdschAllocationFdInfo_t_def round_up_def layout del: One_nat_def)

lemma lay_L1PxschAllocationTdInfo_t [layout]: "calign L1PxschAllocationTdInfo_t = 2" "csize L1PxschAllocationTdInfo_t = 4"
  by (simp_all add: L1PxschAllocationTdInfo_t_def round_up_def layout del: One_nat_def)

lemma lay_L1PtrsInfo_t [layout]: "calign L1PtrsInfo_t = 2" "csize L1PtrsInfo_t = 8"
  by (simp_all add: L1PtrsInfo_t_def round_up_def layout del: One_nat_def)

lemma lay_L1TxPowerInfo_t [layout]: "calign L1TxPowerInfo_t = 2" "csize L1TxPowerInfo_t = 4"
  by (simp_all add: L1TxPowerInfo_t_def round_up_def layout del: One_nat_def)

lemma lay_L1CsiTxPowerInfo_t [layout]: "calign L1CsiTxPowerInfo_t = 2" "csize L1CsiTxPowerInfo_t = 4"
  by (simp_all add: L1CsiTxPowerInfo_t_def round_up_def layout del: One_nat_def)

lemma lay_L1CbgFeildInfo_t [layout]: "calign L1CbgFeildInfo_t = 2" "csize L1CbgFeildInfo_t = 12"
  by (simp_all add: L1CbgFeildInfo_t_def round_up_def layout del: One_nat_def)

lemma lay_L1PdcchPduInfo_t [layout]: "calign L1PdcchPduInfo_t = 2" "csize L1PdcchPduInfo_t = 28"
  by (simp_all add: L1PdcchPduInfo_t_def round_up_def layout del: One_nat_def)

lemma lay_L1PrbSymRmPatternsByValue_t [layout]: "calign L1PrbSymRmPatternsByValue_t = 2" "csize L1PrbSymRmPatternsByValue_t = 38"
  by (simp_all add: L1PrbSymRmPatternsByValue_t_def round_up_def layout del: One_nat_def)

lemma lay_L1RateMatchingInformation_t [layout]: "calign L1RateMatchingInformation_t = 2" "csize L1RateMatchingInformation_t = 4"
  by (simp_all add: L1RateMatchingInformation_t_def round_up_def layout del: One_nat_def)

lemma lay_L1PdschPduInfo_t [layout]: "calign L1PdschPduInfo_t = 4" "csize L1PdschPduInfo_t = 156"
  by (simp_all add: L1PdschPduInfo_t_def round_up_def layout del: One_nat_def)

lemma lay_L1CsiBwpInfo_t [layout]: "calign L1CsiBwpInfo_t = 2" "csize L1CsiBwpInfo_t = 4"
  by (simp_all add: L1CsiBwpInfo_t_def round_up_def layout del: One_nat_def)

lemma lay_L1CsiRsPduInfo_t [layout]: "calign L1CsiRsPduInfo_t = 2" "csize L1CsiRsPduInfo_t = 36"
  by (simp_all add: L1CsiRsPduInfo_t_def round_up_def layout del: One_nat_def)

lemma lay_L1BchPayload_t [layout]: "calign L1BchPayload_t = 4" "csize L1BchPayload_t = 4"
  by (simp_all add: L1BchPayload_t_def round_up_def layout del: One_nat_def)

lemma lay_L1SsbPduInfo_t [layout]: "calign L1SsbPduInfo_t = 4" "csize L1SsbPduInfo_t = 16"
  by (simp_all add: L1SsbPduInfo_t_def round_up_def layout del: One_nat_def)

lemma lay_L1DlPduConfiguration_t [layout]: "calign L1DlPduConfiguration_t = 4" "csize L1DlPduConfiguration_t = 156"
  by (simp_all add: L1DlPduConfiguration_t_def round_up_def layout del: One_nat_def)

lemma lay_L1DlPduInfo_t [layout]: "calign L1DlPduInfo_t = 4" "csize L1DlPduInfo_t = 160"
  by (simp_all add: L1DlPduInfo_t_def round_up_def layout del: One_nat_def)

lemma lay_L1DLTTIReq_t [layout]: "calign L1DLTTIReq_t = 4" "csize L1DLTTIReq_t = 20"
  by (simp_all add: L1DLTTIReq_t_def round_up_def layout del: One_nat_def)

lemma lay_L1UlDciPduCfg_t [layout]: "calign L1UlDciPduCfg_t = 2" "csize L1UlDciPduCfg_t = 32"
  by (simp_all add: L1UlDciPduCfg_t_def round_up_def layout del: One_nat_def)

lemma lay_L1ULDCI_t [layout]: "calign L1ULDCI_t = 2" "csize L1ULDCI_t = 12"
  by (simp_all add: L1ULDCI_t_def round_up_def layout del: One_nat_def)

lemma lay_L1UlGroupInfo_t [layout]: "calign L1UlGroupInfo_t = 2" "csize L1UlGroupInfo_t = 4"
  by (simp_all add: L1UlGroupInfo_t_def round_up_def layout del: One_nat_def)

lemma lay_L1PuschDmrsInfo_t [layout]: "calign L1PuschDmrsInfo_t = 2" "csize L1PuschDmrsInfo_t = 16"
  by (simp_all add: L1PuschDmrsInfo_t_def round_up_def layout del: One_nat_def)

lemma lay_L1PuschAllocationFdInfo_t [layout]: "calign L1PuschAllocationFdInfo_t = 2" "csize L1PuschAllocationFdInfo_t = 56"
  by (simp_all add: L1PuschAllocationFdInfo_t_def round_up_def layout del: One_nat_def)

lemma lay_L1PuschData_t [layout]: "calign L1PuschData_t = 4" "csize L1PuschData_t = 140"
  by (simp_all add: L1PuschData_t_def round_up_def layout del: One_nat_def)

lemma lay_L1UCIPart2Types_t [layout]: "calign L1UCIPart2Types_t = 2" "csize L1UCIPart2Types_t = 20"
  by (simp_all add: L1UCIPart2Types_t_def round_up_def layout del: One_nat_def)

lemma lay_L1Uci1ToUci2Info_t [layout]: "calign L1Uci1ToUci2Info_t = 2" "csize L1Uci1ToUci2Info_t = 4"
  by (simp_all add: L1Uci1ToUci2Info_t_def round_up_def layout del: One_nat_def)

lemma lay_L1PuschUci_t [layout]: "calign L1PuschUci_t = 2" "csize L1PuschUci_t = 16"
  by (simp_all add: L1PuschUci_t_def round_up_def layout del: One_nat_def)

lemma lay_L1PtrsPortInfo_t [layout]: "calign L1PtrsPortInfo_t = 2" "csize L1PtrsPortInfo_t = 4"
  by (simp_all add: L1PtrsPortInfo_t_def round_up_def layout del: One_nat_def)

lemma lay_L1PuschPtrs_t [layout]: "calign L1PuschPtrs_t = 2" "csize L1PuschPtrs_t = 4"
  by (simp_all add: L1PuschPtrs_t_def round_up_def layout del: One_nat_def)

lemma lay_L1DftsOfdm_t [layout]: "calign L1DftsOfdm_t = 2" "csize L1DftsOfdm_t = 8"
  by (simp_all add: L1DftsOfdm_t_def round_up_def layout del: One_nat_def)

lemma lay_L1PucchAllocationFdInfo_t [layout]: "calign L1PucchAllocationFdInfo_t = 2" "csize L1PucchAllocationFdInfo_t = 4"
  by (simp_all add: L1PucchAllocationFdInfo_t_def round_up_def layout del: One_nat_def)

lemma lay_L1PucchHoppingInfo_t [layout]: "calign L1PucchHoppingInfo_t = 2" "csize L1PucchHoppingInfo_t = 16"
  by (simp_all add: L1PucchHoppingInfo_t_def round_up_def layout del: One_nat_def)

lemma lay_L1PucchDMRSInfo_t [layout]: "calign L1PucchDMRSInfo_t = 2" "csize L1PucchDMRSInfo_t = 8"
  by (simp_all add: L1PucchDMRSInfo_t_def round_up_def layout del: One_nat_def)

lemma lay_L1PrachPdu_t [layout]: "calign L1PrachPdu_t = 4" "csize L1PrachPdu_t = 24"
  by (simp_all add: L1PrachPdu_t_def round_up_def layout del: One_nat_def)

lemma lay_L1PuschPduInfo_t [layout]: "calign L1PuschPduInfo_t = 4" "csize L1PuschPduInfo_t = 280"
  by (simp_all add: L1PuschPduInfo_t_def round_up_def layout del: One_nat_def)

lemma lay_L1PucchPduInfo_t [layout]: "calign L1PucchPduInfo_t = 4" "csize L1PucchPduInfo_t = 60"
  by (simp_all add: L1PucchPduInfo_t_def round_up_def layout del: One_nat_def)

lemma lay_L1SrsResource_t [layout]: "calign L1SrsResource_t = 4" "csize L1SrsResource_t = 40"
  by (simp_all add: L1SrsResource_t_def round_up_def layout del: One_nat_def)

lemma lay_L1SrsPdu_t [layout]: "calign L1SrsPdu_t = 4" "csize L1SrsPdu_t = 56"
  by (simp_all add: L1SrsPdu_t_def round_up_def layout del: One_nat_def)

lemma lay_L1UlPduConfiguration_t [layout]: "calign L1UlPduConfiguration_t = 4" "csize L1UlPduConfiguration_t = 280"
  by (simp_all add: L1UlPduConfiguration_t_def round_up_def layout del: One_nat_def)

lemma lay_L1UlPduInfo_t [layout]: "calign L1UlPduInfo_t = 4" "csize L1UlPduInfo_t = 284"
  by (simp_all add: L1UlPduInfo_t_def round_up_def layout del: One_nat_def)

lemma lay_L1ULTTI_t [layout]: "calign L1ULTTI_t = 4" "csize L1ULTTI_t = 20"
  by (simp_all add: L1ULTTI_t_def round_up_def layout del: One_nat_def)

lemma lay_L1DataTLV_t [layout]: "calign L1DataTLV_t = 4" "csize L1DataTLV_t = 12"
  by (simp_all add: L1DataTLV_t_def round_up_def layout del: One_nat_def)

lemma lay_L1TxDataPduInfo_t [layout]: "calign L1TxDataPduInfo_t = 4" "csize L1TxDataPduInfo_t = 12"
  by (simp_all add: L1TxDataPduInfo_t_def round_up_def layout del: One_nat_def)

lemma lay_L1TXDATAREQ_t [layout]: "calign L1TXDATAREQ_t = 4" "csize L1TXDATAREQ_t = 8"
  by (simp_all add: L1TXDATAREQ_t_def round_up_def layout del: One_nat_def)

lemma lay_L1ConfigResponse_t [layout]: "calign L1ConfigResponse_t = 2" "csize L1ConfigResponse_t = 8"
  by (simp_all add: L1ConfigResponse_t_def round_up_def layout del: One_nat_def)

lemma lay_L1StartRequest_t [layout]: "calign L1StartRequest_t = 1" "csize L1StartRequest_t = 0"
  by (simp_all add: L1StartRequest_t_def round_up_def layout del: One_nat_def)

lemma lay_L1StartResponse_t [layout]: "calign L1StartResponse_t = 4" "csize L1StartResponse_t = 4"
  by (simp_all add: L1StartResponse_t_def round_up_def layout del: One_nat_def)

lemma lay_L1StopRequest_t [layout]: "calign L1StopRequest_t = 1" "csize L1StopRequest_t = 0"
  by (simp_all add: L1StopRequest_t_def round_up_def layout del: One_nat_def)

lemma lay_L1StopIndication_t [layout]: "calign L1StopIndication_t = 4" "csize L1StopIndication_t = 4"
  by (simp_all add: L1StopIndication_t_def round_up_def layout del: One_nat_def)

lemma lay_L1ErrorInfoTLV_t [layout]: "calign L1ErrorInfoTLV_t = 4" "csize L1ErrorInfoTLV_t = 4"
  by (simp_all add: L1ErrorInfoTLV_t_def round_up_def layout del: One_nat_def)

lemma lay_L1ErrorIndication_t [layout]: "calign L1ErrorIndication_t = 4" "csize L1ErrorIndication_t = 12"
  by (simp_all add: L1ErrorIndication_t_def round_up_def layout del: One_nat_def)

lemma lay_L1SlotIndication_t [layout]: "calign L1SlotIndication_t = 2" "csize L1SlotIndication_t = 4"
  by (simp_all add: L1SlotIndication_t_def round_up_def layout del: One_nat_def)

lemma lay_L1RxDataPduInfo_t [layout]: "calign L1RxDataPduInfo_t = 4" "csize L1RxDataPduInfo_t = 12"
  by (simp_all add: L1RxDataPduInfo_t_def round_up_def layout del: One_nat_def)

lemma lay_L1RxdataIndication_t [layout]: "calign L1RxdataIndication_t = 4" "csize L1RxdataIndication_t = 8"
  by (simp_all add: L1RxdataIndication_t_def round_up_def layout del: One_nat_def)

lemma lay_L1CrcInfo_t [layout]: "calign L1CrcInfo_t = 4" "csize L1CrcInfo_t = 148"
  by (simp_all add: L1CrcInfo_t_def round_up_def layout del: One_nat_def)

lemma lay_L1CrcIndication_t [layout]: "calign L1CrcIndication_t = 4" "csize L1CrcIndication_t = 8"
  by (simp_all add: L1CrcIndication_t_def round_up_def layout del: One_nat_def)

lemma lay_L1HarqPduForFmt234_t [layout]: "calign L1HarqPduForFmt234_t = 2" "csize L1HarqPduForFmt234_t = 20"
  by (simp_all add: L1HarqPduForFmt234_t_def round_up_def layout del: One_nat_def)

lemma lay_L1CSIPart1Pdu_t [layout]: "calign L1CSIPart1Pdu_t = 2" "csize L1CSIPart1Pdu_t = 36"
  by (simp_all add: L1CSIPart1Pdu_t_def round_up_def layout del: One_nat_def)

lemma lay_L1CsiPart2TLV_t [layout]: "calign L1CsiPart2TLV_t = 4" "csize L1CsiPart2TLV_t = 8"
  by (simp_all add: L1CsiPart2TLV_t_def round_up_def layout del: One_nat_def)

lemma lay_L1UciInfoPdu_t [layout]: "calign L1UciInfoPdu_t = 2" "csize L1UciInfoPdu_t = 4"
  by (simp_all add: L1UciInfoPdu_t_def round_up_def layout del: One_nat_def)

lemma lay_L1CSIPart2Pdu_t [layout]: "calign L1CSIPart2Pdu_t = 4" "csize L1CSIPart2Pdu_t = 4"
  by (simp_all add: L1CSIPart2Pdu_t_def round_up_def layout del: One_nat_def)

lemma lay_L1SrPduFMT01_t [layout]: "calign L1SrPduFMT01_t = 2" "csize L1SrPduFMT01_t = 4"
  by (simp_all add: L1SrPduFMT01_t_def round_up_def layout del: One_nat_def)

lemma lay_L1HarqPduForFm01_t [layout]: "calign L1HarqPduForFm01_t = 1" "csize L1HarqPduForFm01_t = 4"
  by (simp_all add: L1HarqPduForFm01_t_def round_up_def layout del: One_nat_def)

lemma lay_L1SrPduFMT234_t [layout]: "calign L1SrPduFMT234_t = 2" "csize L1SrPduFMT234_t = 4"
  by (simp_all add: L1SrPduFMT234_t_def round_up_def layout del: One_nat_def)

lemma lay_L1UciInPuschPdu_t [layout]: "calign L1UciInPuschPdu_t = 4" "csize L1UciInPuschPdu_t = 76"
  by (simp_all add: L1UciInPuschPdu_t_def round_up_def layout del: One_nat_def)

lemma lay_L1UciInPucchPduFmt01_t [layout]: "calign L1UciInPucchPduFmt01_t = 4" "csize L1UciInPucchPduFmt01_t = 24"
  by (simp_all add: L1UciInPucchPduFmt01_t_def round_up_def layout del: One_nat_def)

lemma lay_L1UciInPucchPduFmt234_t [layout]: "calign L1UciInPucchPduFmt234_t = 4" "csize L1UciInPucchPduFmt234_t = 84"
  by (simp_all add: L1UciInPucchPduFmt234_t_def round_up_def layout del: One_nat_def)

lemma lay_L1UciPduInfo_t [layout]: "calign L1UciPduInfo_t = 4" "csize L1UciPduInfo_t = 84"
  by (simp_all add: L1UciPduInfo_t_def round_up_def layout del: One_nat_def)

lemma lay_L1UciInfo_t [layout]: "calign L1UciInfo_t = 4" "csize L1UciInfo_t = 88"
  by (simp_all add: L1UciInfo_t_def round_up_def layout del: One_nat_def)

lemma lay_L1UciIndication_t [layout]: "calign L1UciIndication_t = 4" "csize L1UciIndication_t = 8"
  by (simp_all add: L1UciIndication_t_def round_up_def layout del: One_nat_def)

lemma lay_L1RbsBlock_t [layout]: "calign L1RbsBlock_t = 2" "csize L1RbsBlock_t = 4"
  by (simp_all add: L1RbsBlock_t_def round_up_def layout del: One_nat_def)

lemma lay_L1SrsReportInfo_t [layout]: "calign L1SrsReportInfo_t = 4" "csize L1SrsReportInfo_t = 12"
  by (simp_all add: L1SrsReportInfo_t_def round_up_def layout del: One_nat_def)

lemma lay_L1SrsPduInfo_t [layout]: "calign L1SrsPduInfo_t = 4" "csize L1SrsPduInfo_t = 24"
  by (simp_all add: L1SrsPduInfo_t_def round_up_def layout del: One_nat_def)

lemma lay_L1SrsIndication_t [layout]: "calign L1SrsIndication_t = 4" "csize L1SrsIndication_t = 8"
  by (simp_all add: L1SrsIndication_t_def round_up_def layout del: One_nat_def)

lemma lay_L1BeamformingReportinfo_t [layout]: "calign L1BeamformingReportinfo_t = 2" "csize L1BeamformingReportinfo_t = 4"
  by (simp_all add: L1BeamformingReportinfo_t_def round_up_def layout del: One_nat_def)

lemma lay_L1BeamformingReport_t [layout]: "calign L1BeamformingReport_t = 2" "csize L1BeamformingReport_t = 8"
  by (simp_all add: L1BeamformingReport_t_def round_up_def layout del: One_nat_def)

lemma lay_L1NormalizedChannelMatrix_t [layout]: "calign L1NormalizedChannelMatrix_t = 2" "csize L1NormalizedChannelMatrix_t = 12"
  by (simp_all add: L1NormalizedChannelMatrix_t_def round_up_def layout del: One_nat_def)

lemma lay_L1PreambleInfo_t [layout]: "calign L1PreambleInfo_t = 4" "csize L1PreambleInfo_t = 8"
  by (simp_all add: L1PreambleInfo_t_def round_up_def layout del: One_nat_def)

lemma lay_L1SUMIMORecommended_t [layout]: "calign L1SUMIMORecommended_t = 2" "csize L1SUMIMORecommended_t = 8"
  by (simp_all add: L1SUMIMORecommended_t_def round_up_def layout del: One_nat_def)

lemma lay_L1RachPduInfo_t [layout]: "calign L1RachPduInfo_t = 4" "csize L1RachPduInfo_t = 12"
  by (simp_all add: L1RachPduInfo_t_def round_up_def layout del: One_nat_def)

lemma lay_L1RachIndication_t [layout]: "calign L1RachIndication_t = 4" "csize L1RachIndication_t = 8"
  by (simp_all add: L1RachIndication_t_def round_up_def layout del: One_nat_def)

lemma foff_step: "foff off ((s, t) # fs) f =
    (if s = f then Some (round_up off (calign t)) else foff (round_up off (calign t) + csize t) fs f)"
  by (simp add: Let_def)

lemmas offset_simps = offsetof_def foff_step round_up_def layout

lemma off_L1MsgHdr_t [layout]:
  "offsetof L1MsgHdr_t ''msgNum'' = 0"
  "offsetof L1MsgHdr_t ''opaque'' = 1"
  "offsetof L1MsgHdr_t ''rev'' = 2"
  by code_simp+

lemma off_L1GeneralMsgHdr_t [layout]:
  "offsetof L1GeneralMsgHdr_t ''msgId'' = 0"
  "offsetof L1GeneralMsgHdr_t ''msgSize'' = 4"
  by code_simp+

lemma off_L1SlotIndication_t [layout]:
  "offsetof L1SlotIndication_t ''SFN'' = 0"
  "offsetof L1SlotIndication_t ''Slot'' = 2"
  by code_simp+

lemma off_L1CrcIndication_t [layout]:
  "offsetof L1CrcIndication_t ''SFN'' = 0"
  "offsetof L1CrcIndication_t ''Slot'' = 2"
  "offsetof L1CrcIndication_t ''numCRCs'' = 4"
  "offsetof L1CrcIndication_t ''rev'' = 6"
  "offsetof L1CrcIndication_t ''CRCs'' = 8"
  by code_simp+

lemma off_L1CrcInfo_t [layout]:
  "offsetof L1CrcInfo_t ''Handle'' = 0"
  "offsetof L1CrcInfo_t ''RNTI'' = 4"
  "offsetof L1CrcInfo_t ''HarqID'' = 6"
  "offsetof L1CrcInfo_t ''TbCrcStatus'' = 7"
  "offsetof L1CrcInfo_t ''TA'' = 8"
  "offsetof L1CrcInfo_t ''RSSI'' = 12"
  "offsetof L1CrcInfo_t ''RSRP'' = 14"
  "offsetof L1CrcInfo_t ''SINR'' = 15"
  "offsetof L1CrcInfo_t ''numCb'' = 16"
  "offsetof L1CrcInfo_t ''rev'' = 18"
  "offsetof L1CrcInfo_t ''CbCrcStatus'' = 20"
  by code_simp+

lemma off_L1RachIndication_t [layout]:
  "offsetof L1RachIndication_t ''SFN'' = 0"
  "offsetof L1RachIndication_t ''Slot'' = 2"
  "offsetof L1RachIndication_t ''numPDUs'' = 4"
  "offsetof L1RachIndication_t ''rev0'' = 5"
  "offsetof L1RachIndication_t ''rev1'' = 6"
  "offsetof L1RachIndication_t ''pdus'' = 8"
  by code_simp+

lemma off_L1RachPduInfo_t [layout]:
  "offsetof L1RachPduInfo_t ''handle'' = 0"
  "offsetof L1RachPduInfo_t ''avgRssi'' = 2"
  "offsetof L1RachPduInfo_t ''avgSinr'' = 4"
  "offsetof L1RachPduInfo_t ''SymbolIndex'' = 5"
  "offsetof L1RachPduInfo_t ''SlotIndex'' = 6"
  "offsetof L1RachPduInfo_t ''raIndex'' = 7"
  "offsetof L1RachPduInfo_t ''numPreambles'' = 8"
  "offsetof L1RachPduInfo_t ''rev0'' = 9"
  "offsetof L1RachPduInfo_t ''rev1'' = 10"
  "offsetof L1RachPduInfo_t ''preamble'' = 12"
  by code_simp+

lemma off_L1PreambleInfo_t [layout]:
  "offsetof L1PreambleInfo_t ''PreamblePwr'' = 0"
  "offsetof L1PreambleInfo_t ''TA'' = 4"
  "offsetof L1PreambleInfo_t ''preambleSinr'' = 6"
  "offsetof L1PreambleInfo_t ''preambleIndex'' = 7"
  by code_simp+

lemma off_L1UciIndication_t [layout]:
  "offsetof L1UciIndication_t ''SFN'' = 0"
  "offsetof L1UciIndication_t ''Slot'' = 2"
  "offsetof L1UciIndication_t ''numUcis'' = 4"
  "offsetof L1UciIndication_t ''rev'' = 6"
  "offsetof L1UciIndication_t ''pdus'' = 8"
  by code_simp+

lemma off_L1UciInfo_t [layout]:
  "offsetof L1UciInfo_t ''PDUType'' = 0"
  "offsetof L1UciInfo_t ''PDUSize'' = 2"
  "offsetof L1UciInfo_t ''Pdu'' = 4"
  by code_simp+

lemma off_L1UciInPuschPdu_t [layout]:
  "offsetof L1UciInPuschPdu_t ''Handle'' = 0"
  "offsetof L1UciInPuschPdu_t ''RNTI'' = 4"
  "offsetof L1UciInPuschPdu_t ''TA'' = 6"
  "offsetof L1UciInPuschPdu_t ''RSSI'' = 8"
  "offsetof L1UciInPuschPdu_t ''SINR'' = 10"
  "offsetof L1UciInPuschPdu_t ''RSRP'' = 11"
  "offsetof L1UciInPuschPdu_t ''pduBitmap'' = 12"
  "offsetof L1UciInPuschPdu_t ''rev0'' = 13"
  "offsetof L1UciInPuschPdu_t ''rev1'' = 14"
  "offsetof L1UciInPuschPdu_t ''HARQInfo'' = 16"
  "offsetof L1UciInPuschPdu_t ''CSIPart1Info'' = 36"
  "offsetof L1UciInPuschPdu_t ''CSIPart2Info'' = 72"
  by code_simp+

lemma off_L1UciInPucchPduFmt01_t [layout]:
  "offsetof L1UciInPucchPduFmt01_t ''Handle'' = 0"
  "offsetof L1UciInPucchPduFmt01_t ''RNTI'' = 4"
  "offsetof L1UciInPucchPduFmt01_t ''TA'' = 6"
  "offsetof L1UciInPucchPduFmt01_t ''RSSI'' = 8"
  "offsetof L1UciInPucchPduFmt01_t ''SINR'' = 10"
  "offsetof L1UciInPucchPduFmt01_t ''RSRP'' = 11"
  "offsetof L1UciInPucchPduFmt01_t ''pduBitmap'' = 12"
  "offsetof L1UciInPucchPduFmt01_t ''PucchFormat'' = 13"
  "offsetof L1UciInPucchPduFmt01_t ''rev'' = 14"
  "offsetof L1UciInPucchPduFmt01_t ''SrInfo'' = 16"
  "offsetof L1UciInPucchPduFmt01_t ''HARQInfo'' = 20"
  by code_simp+

lemma off_L1UciInPucchPduFmt234_t [layout]:
  "offsetof L1UciInPucchPduFmt234_t ''Handle'' = 0"
  "offsetof L1UciInPucchPduFmt234_t ''RNTI'' = 4"
  "offsetof L1UciInPucchPduFmt234_t ''TA'' = 6"
  "offsetof L1UciInPucchPduFmt234_t ''RSSI'' = 8"
  "offsetof L1UciInPucchPduFmt234_t ''SINR'' = 10"
  "offsetof L1UciInPucchPduFmt234_t ''RSRP'' = 11"
  "offsetof L1UciInPucchPduFmt234_t ''PucchFormat'' = 12"
  "offsetof L1UciInPucchPduFmt234_t ''pduBitmap'' = 13"
  "offsetof L1UciInPucchPduFmt234_t ''rev'' = 14"
  "offsetof L1UciInPucchPduFmt234_t ''SrInfo'' = 16"
  "offsetof L1UciInPucchPduFmt234_t ''HARQInfo'' = 20"
  "offsetof L1UciInPucchPduFmt234_t ''CSIPart1Info'' = 40"
  "offsetof L1UciInPucchPduFmt234_t ''CSIPart2Info'' = 76"
  "offsetof L1UciInPucchPduFmt234_t ''UCIInfo'' = 80"
  by code_simp+

lemma off_L1CSIPart1Pdu_t [layout]:
  "offsetof L1CSIPart1Pdu_t ''CsiPart1BitLen'' = 0"
  "offsetof L1CSIPart1Pdu_t ''CsiPart1Crc'' = 2"
  "offsetof L1CSIPart1Pdu_t ''rev'' = 3"
  "offsetof L1CSIPart1Pdu_t ''CsiPart1Payload'' = 4"
  by code_simp+

lemma off_L1UciInfoPdu_t [layout]:
  "offsetof L1UciInfoPdu_t ''UciBitLen'' = 0"
  "offsetof L1UciInfoPdu_t ''CrcStatus'' = 2"
  "offsetof L1UciInfoPdu_t ''rev'' = 3"
  "offsetof L1UciInfoPdu_t ''uciPayload'' = 4"
  by code_simp+

lemma off_L1SrsIndication_t [layout]:
  "offsetof L1SrsIndication_t ''SFN'' = 0"
  "offsetof L1SrsIndication_t ''Slot'' = 2"
  "offsetof L1SrsIndication_t ''controlLength'' = 4"
  "offsetof L1SrsIndication_t ''numPDUs'' = 6"
  "offsetof L1SrsIndication_t ''rev0'' = 7"
  "offsetof L1SrsIndication_t ''pdus'' = 8"
  by code_simp+

lemma off_L1SrsPduInfo_t [layout]:
  "offsetof L1SrsPduInfo_t ''Handle'' = 0"
  "offsetof L1SrsPduInfo_t ''RNTI'' = 4"
  "offsetof L1SrsPduInfo_t ''TA'' = 6"
  "offsetof L1SrsPduInfo_t ''TAOffest'' = 8"
  "offsetof L1SrsPduInfo_t ''SRSUsage'' = 10"
  "offsetof L1SrsPduInfo_t ''ReportType'' = 11"
  "offsetof L1SrsPduInfo_t ''reportTLV'' = 12"
  by code_simp+

lemma off_L1RxdataIndication_t [layout]:
  "offsetof L1RxdataIndication_t ''SFN'' = 0"
  "offsetof L1RxdataIndication_t ''Slot'' = 2"
  "offsetof L1RxdataIndication_t ''numPDUs'' = 4"
  "offsetof L1RxdataIndication_t ''rev'' = 6"
  "offsetof L1RxdataIndication_t ''pdus'' = 8"
  by code_simp+

lemma off_L1RxDataPduInfo_t [layout]:
  "offsetof L1RxDataPduInfo_t ''Handle'' = 0"
  "offsetof L1RxDataPduInfo_t ''RNTI'' = 4"
  "offsetof L1RxDataPduInfo_t ''HarqID'' = 6"
  "offsetof L1RxDataPduInfo_t ''rev'' = 7"
  "offsetof L1RxDataPduInfo_t ''numTLV'' = 8"
  "offsetof L1RxDataPduInfo_t ''TLVs'' = 12"
  by code_simp+

lemma off_L1DataTLV_t [layout]:
  "offsetof L1DataTLV_t ''Tag'' = 0"
  "offsetof L1DataTLV_t ''rev'' = 2"
  "offsetof L1DataTLV_t ''Length'' = 4"
  "offsetof L1DataTLV_t ''Value'' = 8"
  by code_simp+

lemma off_L1ErrorIndication_t [layout]:
  "offsetof L1ErrorIndication_t ''SFN'' = 0"
  "offsetof L1ErrorIndication_t ''Slot'' = 2"
  "offsetof L1ErrorIndication_t ''ExpectedSFN'' = 4"
  "offsetof L1ErrorIndication_t ''ExpectedSlot'' = 6"
  "offsetof L1ErrorIndication_t ''MessageId'' = 8"
  "offsetof L1ErrorIndication_t ''ErrorCode'' = 9"
  "offsetof L1ErrorIndication_t ''NumTLVs'' = 10"
  "offsetof L1ErrorIndication_t ''rev'' = 11"
  "offsetof L1ErrorIndication_t ''TLV'' = 12"
  by code_simp+

lemma off_L1ErrorInfoTLV_t [layout]:
  "offsetof L1ErrorInfoTLV_t ''tag'' = 0"
  "offsetof L1ErrorInfoTLV_t ''length'' = 2"
  "offsetof L1ErrorInfoTLV_t ''value'' = 4"
  by code_simp+

lemma off_L1ConfigResponse_t [layout]:
  "offsetof L1ConfigResponse_t ''ErrorCode'' = 0"
  "offsetof L1ConfigResponse_t ''NumberInvalid'' = 1"
  "offsetof L1ConfigResponse_t ''NumberTLVsIDLE'' = 2"
  "offsetof L1ConfigResponse_t ''NumberTLVsRUNNING'' = 3"
  "offsetof L1ConfigResponse_t ''NumberMissTLVs'' = 4"
  "offsetof L1ConfigResponse_t ''rev0'' = 5"
  "offsetof L1ConfigResponse_t ''rev1'' = 6"
  by code_simp+

lemma off_L1ConfigRequest_t [layout]:
  "offsetof L1ConfigRequest_t ''CarriConfig'' = 0"
  "offsetof L1ConfigRequest_t ''CellConfig'' = 60"
  "offsetof L1ConfigRequest_t ''SSBConfig'' = 64"
  "offsetof L1ConfigRequest_t ''PRACHCfgInfo'' = 68"
  "offsetof L1ConfigRequest_t ''SSBtableInfo'' = 72"
  "offsetof L1ConfigRequest_t ''TDDtableInfo'' = 160"
  "offsetof L1ConfigRequest_t ''MeasurementCfgInfo'' = 1284"
  "offsetof L1ConfigRequest_t ''UciConfigurationInfo'' = 1288"
  "offsetof L1ConfigRequest_t ''PrbSymol'' = 1292"
  "offsetof L1ConfigRequest_t ''PucchSSConfig'' = 1296"
  "offsetof L1ConfigRequest_t ''PdschConfig'' = 1300"
  "offsetof L1ConfigRequest_t ''DBTInfo'' = 1304"
  "offsetof L1ConfigRequest_t ''PMInfo'' = 1308"
  by (simp_all add: offset_simps L1ConfigRequest_t_def del: foff.simps One_nat_def)

lemma off_L1PrachConfigInfo_t [layout]:
  "offsetof L1PrachConfigInfo_t ''numPrachConfigurations'' = 0"
  "offsetof L1PrachConfigInfo_t ''rev'' = 2"
  "offsetof L1PrachConfigInfo_t ''PrachConfiguration'' = 4"
  by code_simp+

lemma off_L1PrachConfiguration_t [layout]:
  "offsetof L1PrachConfiguration_t ''prachResConfigIndex'' = 0"
  "offsetof L1PrachConfiguration_t ''prachSequenceLength'' = 2"
  "offsetof L1PrachConfiguration_t ''prachSubCSpacing'' = 3"
  "offsetof L1PrachConfiguration_t ''ulBwpPuschScs'' = 4"
  "offsetof L1PrachConfiguration_t ''restrictedSetConfig'' = 5"
  "offsetof L1PrachConfiguration_t ''numPrachFdOccasions'' = 6"
  "offsetof L1PrachConfiguration_t ''prachConfigIndex'' = 7"
  "offsetof L1PrachConfiguration_t ''SsbPerRach'' = 8"
  "offsetof L1PrachConfiguration_t ''rev0'' = 9"
  "offsetof L1PrachConfiguration_t ''rev1'' = 10"
  "offsetof L1PrachConfiguration_t ''PrachFdOccaCfgInfos'' = 12"
  by code_simp+

lemma off_L1CarriConfigInfo_t [layout]:
  "offsetof L1CarriConfigInfo_t ''dlFrequency'' = 0"
  "offsetof L1CarriConfigInfo_t ''ulFrequency'' = 4"
  "offsetof L1CarriConfigInfo_t ''dlBandwidth'' = 8"
  "offsetof L1CarriConfigInfo_t ''ulBandwidth'' = 10"
  "offsetof L1CarriConfigInfo_t ''dlk0'' = 12"
  "offsetof L1CarriConfigInfo_t ''ulk0'' = 22"
  "offsetof L1CarriConfigInfo_t ''dlGridSize'' = 32"
  "offsetof L1CarriConfigInfo_t ''ulGridSize'' = 42"
  "offsetof L1CarriConfigInfo_t ''numTxAnt'' = 52"
  "offsetof L1CarriConfigInfo_t ''numRxAnt'' = 54"
  "offsetof L1CarriConfigInfo_t ''FrequencyShift7p5KHz'' = 56"
  "offsetof L1CarriConfigInfo_t ''rev0'' = 57"
  "offsetof L1CarriConfigInfo_t ''rev1'' = 58"
  by code_simp+

lemma off_L1DLTTIReq_t [layout]:
  "offsetof L1DLTTIReq_t ''SFN'' = 0"
  "offsetof L1DLTTIReq_t ''Slot'' = 2"
  "offsetof L1DLTTIReq_t ''nPDUs'' = 4"
  "offsetof L1DLTTIReq_t ''nDlTypes'' = 6"
  "offsetof L1DLTTIReq_t ''nGroup'' = 7"
  "offsetof L1DLTTIReq_t ''rev'' = 8"
  "offsetof L1DLTTIReq_t ''nPDUsOfEachType'' = 10"
  "offsetof L1DLTTIReq_t ''pdus'' = 20"
  by code_simp+

lemma off_L1DlPduInfo_t [layout]:
  "offsetof L1DlPduInfo_t ''PDUType'' = 0"
  "offsetof L1DlPduInfo_t ''PDUSize'' = 2"
  "offsetof L1DlPduInfo_t ''DlPDUConfig'' = 4"
  by code_simp+

lemma off_L1PdcchPduInfo_t [layout]:
  "offsetof L1PdcchPduInfo_t ''pdcchPduIndex'' = 0"
  "offsetof L1PdcchPduInfo_t ''numDlDci'' = 2"
  "offsetof L1PdcchPduInfo_t ''BWP'' = 4"
  "offsetof L1PdcchPduInfo_t ''Coreset'' = 12"
  "offsetof L1PdcchPduInfo_t ''DlDCIs'' = 28"
  by code_simp+

lemma off_L1DlDciInfo_t [layout]:
  "offsetof L1DlDciInfo_t ''RNTI'' = 0"
  "offsetof L1DlDciInfo_t ''nIdPdcchData'' = 2"
  "offsetof L1DlDciInfo_t ''nRntiPdcchData'' = 4"
  "offsetof L1DlDciInfo_t ''nIdPdcchDmrs'' = 6"
  "offsetof L1DlDciInfo_t ''CceIndex'' = 8"
  "offsetof L1DlDciInfo_t ''AggregationLevel'' = 9"
  "offsetof L1DlDciInfo_t ''PayloadSizeBits'' = 10"
  "offsetof L1DlDciInfo_t ''TxPowerInfo'' = 12"
  "offsetof L1DlDciInfo_t ''Payload'' = 16"
  "offsetof L1DlDciInfo_t ''BeamformingInfo'' = 36"
  by code_simp+

lemma off_L1TxPrecodingBeamformingPdu_t [layout]:
  "offsetof L1TxPrecodingBeamformingPdu_t ''numPRGs'' = 0"
  "offsetof L1TxPrecodingBeamformingPdu_t ''prgSize'' = 2"
  "offsetof L1TxPrecodingBeamformingPdu_t ''digBFInterfaces'' = 4"
  "offsetof L1TxPrecodingBeamformingPdu_t ''rev0'' = 5"
  "offsetof L1TxPrecodingBeamformingPdu_t ''rev1'' = 6"
  "offsetof L1TxPrecodingBeamformingPdu_t ''PMidx'' = 8"
  by code_simp+

lemma off_L1TXDATAREQ_t [layout]:
  "offsetof L1TXDATAREQ_t ''SFN'' = 0"
  "offsetof L1TXDATAREQ_t ''Slot'' = 2"
  "offsetof L1TXDATAREQ_t ''numPDUs'' = 4"
  "offsetof L1TXDATAREQ_t ''rev'' = 6"
  "offsetof L1TXDATAREQ_t ''pdus'' = 8"
  by code_simp+

lemma off_L1TxDataPduInfo_t [layout]:
  "offsetof L1TxDataPduInfo_t ''PDULength'' = 0"
  "offsetof L1TxDataPduInfo_t ''PDUIndex'' = 4"
  "offsetof L1TxDataPduInfo_t ''CWIndex'' = 6"
  "offsetof L1TxDataPduInfo_t ''rev'' = 7"
  "offsetof L1TxDataPduInfo_t ''numTLV'' = 8"
  "offsetof L1TxDataPduInfo_t ''TLVs'' = 12"
  by code_simp+

lemma off_L1ULTTI_t [layout]:
  "offsetof L1ULTTI_t ''SFN'' = 0"
  "offsetof L1ULTTI_t ''Slot'' = 2"
  "offsetof L1ULTTI_t ''nPDUs'' = 4"
  "offsetof L1ULTTI_t ''nUlTypes'' = 6"
  "offsetof L1ULTTI_t ''nGroup'' = 7"
  "offsetof L1ULTTI_t ''nPDUsOfEachType'' = 8"
  "offsetof L1ULTTI_t ''rev'' = 18"
  "offsetof L1ULTTI_t ''pdus'' = 20"
  by code_simp+

lemma off_L1UlPduInfo_t [layout]:
  "offsetof L1UlPduInfo_t ''PDUType'' = 0"
  "offsetof L1UlPduInfo_t ''PDUSize'' = 2"
  "offsetof L1UlPduInfo_t ''UlPDUConfig'' = 4"
  by code_simp+

lemma off_L1DlGroupInfo_t [layout]:
  "offsetof L1DlGroupInfo_t ''nUe'' = 0"
  "offsetof L1DlGroupInfo_t ''rev0'' = 1"
  "offsetof L1DlGroupInfo_t ''rev1'' = 2"
  "offsetof L1DlGroupInfo_t ''Ues'' = 4"
  by code_simp+

lemma off_L1UlGroupInfo_t [layout]:
  "offsetof L1UlGroupInfo_t ''nUe'' = 0"
  "offsetof L1UlGroupInfo_t ''rev0'' = 1"
  "offsetof L1UlGroupInfo_t ''rev1'' = 2"
  "offsetof L1UlGroupInfo_t ''Ues'' = 4"
  by code_simp+

lemma off_L1UciConfigurationInfo_t [layout]:
  "offsetof L1UciConfigurationInfo_t ''numUci2Maps'' = 0"
  "offsetof L1UciConfigurationInfo_t ''rev'' = 2"
  "offsetof L1UciConfigurationInfo_t ''mapIndex'' = 4"
  by code_simp+

lemma off_L1PrbSym_t [layout]:
  "offsetof L1PrbSym_t ''numberOfPrbSymbRateMatchPatterns'' = 0"
  "offsetof L1PrbSym_t ''numCoresetRmPatterns'' = 1"
  "offsetof L1PrbSym_t ''rev'' = 2"
  "offsetof L1PrbSym_t ''CoresetRmPatterns'' = 4"
  "offsetof L1PrbSym_t ''PrbSymbRateMatchPatterns'' = 4"
  by code_simp+

lemma off_L1PucchSSConfig_t [layout]:
  "offsetof L1PucchSSConfig_t ''numUlBwpIds'' = 0"
  "offsetof L1PucchSSConfig_t ''rev0'' = 1"
  "offsetof L1PucchSSConfig_t ''rev1'' = 2"
  "offsetof L1PucchSSConfig_t ''UlBwpIds'' = 4"
  by code_simp+

lemma off_L1DBTConfigInfo_t [layout]:
  "offsetof L1DBTConfigInfo_t ''numDigBeams'' = 0"
  "offsetof L1DBTConfigInfo_t ''numBasebandPorts'' = 2"
  "offsetof L1DBTConfigInfo_t ''digBeam'' = 4"
  by code_simp+

lemma off_L1PMCfgTableInfo_t [layout]:
  "offsetof L1PMCfgTableInfo_t ''numPMTables'' = 0"
  "offsetof L1PMCfgTableInfo_t ''rev0'' = 2"
  "offsetof L1PMCfgTableInfo_t ''pmTable'' = 4"
  by code_simp+

end
