(* ===== verification/MacCell.thy ===== *)
theory MacCell
  imports L1Layout "HOL-Library.Signed_Division"
begin

text \<open>
  The per-cell and per-UE contexts of \<open>mac/src/mac_cell.c\<close> and \<open>mac/src/mac_ue.c\<close>: the statistics
  the receive handlers accumulate, the subcarrier spacing of each cell, and the frame arithmetic
  \<open>gsfnShift\<close> of \<open>mac/inc/ttiCmm.h\<close>. The static arrays of the C files are lists with checked
  indices: 4 devices (\<open>MAC_PC802_INDEX_MAX\<close>, the multi-device build), 2 cells each
  (\<open>MAC_MAX_CELL_NUM\<close>), 256 UEs (\<open>MAX_UE_NUM_IN_ONE_CELL\<close>).
\<close>

section \<open>Statistics\<close>

record macStatsRach_s =
  prachPreambleID :: u32
  totalNumTa :: u32
  taMaxPRACH :: u16
  taMinPRACH :: u16
  taAvgPRACH :: u32
  totalNumRssi :: u32
  rssiMaxPRACH :: u16
  rssiMinPRACH :: u16
  rssiAvgPRACH :: u16
  rev1MaxPRACH :: "u16 list"
  rev1MinPRACH :: "u16 list"
  rev1AvgPRACH :: "u16 list"
  preambleCntPRACH :: "u16 list"

record macStatsPucch_s =
  totalNumPucchCrc :: u32
  numPucchCrcPass :: u32
  numPucchCrcFail :: u32
  numPucchUciDetected :: u32
  numPucchUciNotDetected :: u32
  rssiAvgPUCCH :: u16
  rssiMaxPUCCH :: u16
  rssiMinPUCCH :: u16
  sumRssiPUCCH :: u16
  snrMaxPUCCH :: u16
  snrMinPUCCH :: u16
  snrAvgPUCCH :: u16
  sumSnrPUCCH :: u16
  taMaxPUCCH :: u16
  taMinPUCCH :: u16
  taAvgPUCCH :: u16
  sumTaPUCCH :: u16
  cntSRDetPUCCH :: u32
  cntSRMisPUCCH :: u32
  sumSrPUCCH :: u32
  cntHarqconfidenceDetPUCCH :: u32
  cntHarqconfidenceMisPUCCH :: u32
  sumHarqconfidencePUCCH :: u32

text \<open>Signed 32-bit counters are 32-bit words read with \<open>sint\<close>.\<close>

record macStatsPusch_s =
  totalNumPuschCrc :: u32
  numPuschCrcPass :: u32
  numPuschCrcFail :: u32
  totalNumPUSCH :: u32
  snrMax :: u16
  snrMin :: u16
  snrAvg :: u16
  sumSnrPUSCH :: u32
  rssiMax :: u16
  rssiMin :: u16
  rssiAvg :: u16
  sumRssiPUSCH :: u32
  taMax :: u16
  taMin :: u16
  taAvg :: u16
  sumTaPUSCH :: u32
  sumFailTaPUSCH :: u32

record macCellCtx_s =
  rachStatsInfo :: macStatsRach_s
  pucchStatsInfo :: macStatsPucch_s
  puschStatsInfo :: macStatsPusch_s

definition MAX_NUM_PRACH_PREAMPLES :: nat where "MAX_NUM_PRACH_PREAMPLES = 64"

definition rach_zero :: macStatsRach_s where
  "rach_zero = \<lparr>prachPreambleID = 0, totalNumTa = 0, taMaxPRACH = 0, taMinPRACH = 0,
     taAvgPRACH = 0, totalNumRssi = 0, rssiMaxPRACH = 0, rssiMinPRACH = 0, rssiAvgPRACH = 0,
     rev1MaxPRACH = replicate MAX_NUM_PRACH_PREAMPLES 0,
     rev1MinPRACH = replicate MAX_NUM_PRACH_PREAMPLES 0,
     rev1AvgPRACH = replicate MAX_NUM_PRACH_PREAMPLES 0,
     preambleCntPRACH = replicate MAX_NUM_PRACH_PREAMPLES 0\<rparr>"

definition pucch_zero :: macStatsPucch_s where
  "pucch_zero = \<lparr>totalNumPucchCrc = 0, numPucchCrcPass = 0, numPucchCrcFail = 0,
     numPucchUciDetected = 0, numPucchUciNotDetected = 0, rssiAvgPUCCH = 0, rssiMaxPUCCH = 0,
     rssiMinPUCCH = 0, sumRssiPUCCH = 0, snrMaxPUCCH = 0, snrMinPUCCH = 0, snrAvgPUCCH = 0,
     sumSnrPUCCH = 0, taMaxPUCCH = 0, taMinPUCCH = 0, taAvgPUCCH = 0, sumTaPUCCH = 0,
     cntSRDetPUCCH = 0, cntSRMisPUCCH = 0, sumSrPUCCH = 0, cntHarqconfidenceDetPUCCH = 0,
     cntHarqconfidenceMisPUCCH = 0, sumHarqconfidencePUCCH = 0\<rparr>"

definition pusch_zero :: macStatsPusch_s where
  "pusch_zero = \<lparr>totalNumPuschCrc = 0, numPuschCrcPass = 0, numPuschCrcFail = 0,
     totalNumPUSCH = 0, snrMax = 0, snrMin = 0, snrAvg = 0, sumSnrPUSCH = 0, rssiMax = 0,
     rssiMin = 0, rssiAvg = 0, sumRssiPUSCH = 0, taMax = 0, taMin = 0, taAvg = 0,
     sumTaPUSCH = 0, sumFailTaPUSCH = 0\<rparr>"

definition cell_zero :: macCellCtx_s where
  "cell_zero = \<lparr>rachStatsInfo = rach_zero, pucchStatsInfo = pucch_zero, puschStatsInfo = pusch_zero\<rparr>"

section \<open>UE contexts\<close>

record macStatsPUCCHRptUe_s =
  cntPUCCH :: u32
  maxRSSIPUCCH :: u16
  minRSSIPUCCH :: u16
  avgRSSIPUCCH :: u16
  maxTaPUCCH :: u16
  minTaPUCCH :: u16
  avgTaPUCCH :: u16
  maxSnrPUCCH :: u16
  minSnrPUCCH :: u16
  avgSnrPUCCH :: u16

record macStatsPUSCHRptUe_s =
  cntPUSCH :: u32
  cntUciInPUSCH :: u32
  maxRSSIPUSCH :: u16
  minRSSIPUSCH :: u16
  avgRSSIPUSCH :: u16
  maxTaPUSCH :: u16
  minTaPUSCH :: u16
  avgTaPUSCH :: u16
  maxSnrPUSCH :: u16
  minSnrPUSCH :: u16
  avgSnrPUSCH :: u16

record ueStatsInfo_s =
  rptPucch :: "macStatsPUCCHRptUe_s list"
  rptPusch :: macStatsPUSCHRptUe_s
  cntSRDet :: u32
  cntSRMis :: u32
  cntHarqconfidenDet :: u32
  cntHarqconfidenMis :: u32
  numHarqCrcPass :: u32
  numHarqCrcFail :: u32
  numACK :: u32
  numNACK :: u32
  crcPass :: u32
  crcFail :: u32
  numCsiPart1CrcPass :: u32
  numCsiPart1CrcFail :: u32
  numCsiPart2CrcPass :: u32
  numCsiPart2CrcFail :: u32

record MacUeCtxt_s =
  ue_cellId :: u8
  ue_ueId :: u16
  ue_srnti :: u16
  ue_crnti :: u16
  ueStatsInfo :: ueStatsInfo_s

definition MAX_UE_NUM_IN_ONE_CELL :: nat where "MAX_UE_NUM_IN_ONE_CELL = 256"

definition ueStats_zero :: ueStatsInfo_s where
  "ueStats_zero = \<lparr>rptPucch = replicate 5 \<lparr>cntPUCCH = 0, maxRSSIPUCCH = 0, minRSSIPUCCH = 0,
       avgRSSIPUCCH = 0, maxTaPUCCH = 0, minTaPUCCH = 0, avgTaPUCCH = 0, maxSnrPUCCH = 0,
       minSnrPUCCH = 0, avgSnrPUCCH = 0\<rparr>,
     rptPusch = \<lparr>cntPUSCH = 0, cntUciInPUSCH = 0, maxRSSIPUSCH = 0, minRSSIPUSCH = 0,
       avgRSSIPUSCH = 0, maxTaPUSCH = 0, minTaPUSCH = 0, avgTaPUSCH = 0, maxSnrPUSCH = 0,
       minSnrPUSCH = 0, avgSnrPUSCH = 0\<rparr>,
     cntSRDet = 0, cntSRMis = 0, cntHarqconfidenDet = 0, cntHarqconfidenMis = 0,
     numHarqCrcPass = 0, numHarqCrcFail = 0, numACK = 0, numNACK = 0, crcPass = 0, crcFail = 0,
     numCsiPart1CrcPass = 0, numCsiPart1CrcFail = 0, numCsiPart2CrcPass = 0,
     numCsiPart2CrcFail = 0\<rparr>"

section \<open>The static state of both files\<close>

record mac_stats =
  sMacCellCtx :: "macCellCtx_s list list"
  sMacUeCtxt :: "MacUeCtxt_s list"
  gcurrentScs :: "u32 list list"
  maxTimeOut :: u64
  minTimeOut :: u64

definition MAC_PC802_INDEX_MAX :: nat where "MAC_PC802_INDEX_MAX = 4"
definition MAC_MAX_CELL_NUM :: nat where "MAC_MAX_CELL_NUM = 2"

text \<open>Access to a \<open>[device][cell]\<close> array: both indices are checked.\<close>

definition rd2 :: "'a list list \<Rightarrow> nat \<Rightarrow> nat \<Rightarrow> 'a res" where
  "rd2 xss i j = rbind (rd xss i) (\<lambda>xs. rd xs j)"

definition wr2 :: "'a list list \<Rightarrow> nat \<Rightarrow> nat \<Rightarrow> 'a \<Rightarrow> 'a list list res" where
  "wr2 xss i j v = rbind (rd xss i) (\<lambda>xs. rbind (wr xs j v) (\<lambda>xs'. wr xss i xs'))"

definition shape2 :: "'a list list \<Rightarrow> bool" where
  "shape2 xss \<longleftrightarrow> length xss = MAC_PC802_INDEX_MAX \<and> (\<forall>xs \<in> set xss. length xs = MAC_MAX_CELL_NUM)"

definition stats_wf :: "mac_stats \<Rightarrow> bool" where
  "stats_wf s \<longleftrightarrow> shape2 (sMacCellCtx s) \<and> shape2 (gcurrentScs s) \<and>
     length (sMacUeCtxt s) = MAX_UE_NUM_IN_ONE_CELL"

lemma rd2_ok: "shape2 xss \<Longrightarrow> i < 4 \<Longrightarrow> j < 2 \<Longrightarrow> rd2 xss i j = Inr (xss ! i ! j)"
  by (simp add: rd2_def shape2_def MAC_PC802_INDEX_MAX_def MAC_MAX_CELL_NUM_def)

lemma wr2_ok: "shape2 xss \<Longrightarrow> i < 4 \<Longrightarrow> j < 2 \<Longrightarrow>
    wr2 xss i j v = Inr (xss[i := (xss ! i)[j := v]])"
  by (simp add: wr2_def shape2_def MAC_PC802_INDEX_MAX_def MAC_MAX_CELL_NUM_def)

lemma shape2_update: "shape2 xss \<Longrightarrow> i < 4 \<Longrightarrow> shape2 (xss[i := (xss ! i)[j := v]])"
  by (auto simp: shape2_def MAC_PC802_INDEX_MAX_def dest!: subsetD [OF set_update_subset_insert])

section \<open>Operations\<close>

definition macCellStatsReset :: "mac_stats \<Rightarrow> mac_stats" where
  "macCellStatsReset s = s\<lparr>sMacCellCtx := map (map (\<lambda>_. cell_zero)) (sMacCellCtx s)\<rparr>"

definition macUeStatsResetAll :: "mac_stats \<Rightarrow> mac_stats" where
  "macUeStatsResetAll s =
     s\<lparr>sMacUeCtxt := map (\<lambda>u. u\<lparr>ueStatsInfo := ueStats_zero\<rparr>) (sMacUeCtxt s)\<rparr>"

definition macCellInit :: "mac_stats \<Rightarrow> mac_stats" where
  "macCellInit s = macUeStatsResetAll (macCellStatsReset s)"

text \<open>The pointers \<open>macGetCellById\<close> and \<open>macGetUeByCrnti\<close> return, as a read and an update.\<close>

definition macGetCellById :: "mac_stats \<Rightarrow> u16 \<Rightarrow> u16 \<Rightarrow> macCellCtx_s res" where
  "macGetCellById s dev cell = rd2 (sMacCellCtx s) (unat dev) (unat (cell AND 1))"

definition macSetCellById :: "mac_stats \<Rightarrow> u16 \<Rightarrow> u16 \<Rightarrow> macCellCtx_s \<Rightarrow> mac_stats res" where
  "macSetCellById s dev cell c =
     rbind (wr2 (sMacCellCtx s) (unat dev) (unat (cell AND 1)) c) (\<lambda>cs.
       Inr (s\<lparr>sMacCellCtx := cs\<rparr>))"

definition macGetUeByCrnti :: "mac_stats \<Rightarrow> u16 \<Rightarrow> MacUeCtxt_s res" where
  "macGetUeByCrnti s cRnti = rd (sMacUeCtxt s) (unat (cRnti AND 4095))"

definition macSetUeByCrnti :: "mac_stats \<Rightarrow> u16 \<Rightarrow> MacUeCtxt_s \<Rightarrow> mac_stats res" where
  "macSetUeByCrnti s cRnti u =
     rbind (wr (sMacUeCtxt s) (unat (cRnti AND 4095)) u) (\<lambda>us. Inr (s\<lparr>sMacUeCtxt := us\<rparr>))"

definition macUeStatsResetByCrnti :: "mac_stats \<Rightarrow> u16 \<Rightarrow> mac_stats res" where
  "macUeStatsResetByCrnti s cRnti =
     rbind (guard (unat cRnti > 4095 \<and> unat cRnti < MAX_UE_NUM_IN_ONE_CELL + 4095) AssertFail) (\<lambda>_.
     rbind (macGetUeByCrnti s cRnti) (\<lambda>u.
       macSetUeByCrnti s cRnti (u\<lparr>ueStatsInfo := ueStats_zero\<rparr>)))"

definition macCellSetScs :: "mac_stats \<Rightarrow> u16 \<Rightarrow> u16 \<Rightarrow> u16 \<Rightarrow> mac_stats res" where
  "macCellSetScs s i dev cell =
     rbind (wr2 (gcurrentScs s) (unat dev) (unat cell) (ucast i)) (\<lambda>scs.
     let s' = s\<lparr>gcurrentScs := scs\<rparr> in
       Inr (if i = 15
            then s'\<lparr>maxTimeOut := 2 * maxTimeOut s', minTimeOut := 2 * minTimeOut s'\<rparr>
            else s'))"

definition macGetSlotNumPerSfn :: "mac_stats \<Rightarrow> u16 \<Rightarrow> u16 \<Rightarrow> u32 res" where
  "macGetSlotNumPerSfn s dev cell =
     rbind (rd2 (gcurrentScs s) (unat dev) (unat cell)) (\<lambda>scs.
       Inr (if scs = 15 then 10 else if scs = 30 then 20 else if scs = 60 then 40
            else if scs = 120 then 80 else 0))"

text \<open>
  The report of \<open>macDumpCellUlInfo\<close>: the numbers it prints, and the counters it clears. The
  averages are divided as in the C: \<open>int32_t\<close> by \<open>int32_t\<close> truncating, and unsigned where an
  operand is \<open>uint32_t\<close> (\<open>sumSnrPUSCH\<close>, the RACH sums).
\<close>

record ul_report =
  ur_tbCrc :: "int \<times> int"
  ur_pucchCrc :: "int \<times> int"
  ur_puschAvg :: "(int \<times> int \<times> int) option"
  ur_failTa :: "int option"
  ur_rachRssi :: "(int \<times> int \<times> int) option"
  ur_rachTa :: "(int \<times> int \<times> int \<times> int) option"

definition ul_report_of :: "macCellCtx_s \<Rightarrow> ul_report" where
  "ul_report_of c =
     (let pu = puschStatsInfo c; pc = pucchStatsInfo c; ra = rachStatsInfo c;
          pass = numPuschCrcPass pu; fail = numPuschCrcFail pu in
      \<lparr>ur_tbCrc = (sint pass, sint fail),
       ur_pucchCrc = (uint (numPucchCrcPass pc), uint (numPucchCrcFail pc)),
       ur_puschAvg = (if pass \<noteq> 0 then
           Some (sint (sumTaPUSCH pu) sdiv sint pass, sint (sumRssiPUSCH pu) sdiv sint pass,
             sint (sumSnrPUSCH pu div pass div 2 - 64)) else None),
       ur_failTa = (if fail \<noteq> 0 then Some (sint (sumFailTaPUSCH pu) sdiv sint fail) else None),
       ur_rachRssi = (if totalNumRssi ra \<noteq> 0 then
           Some (uint (rssiMaxPRACH ra), uint (rssiMinPRACH ra),
             uint (ucast (rssiAvgPRACH ra) div totalNumRssi ra)) else None),
       ur_rachTa = (if totalNumTa ra \<noteq> 0 then
           Some (uint (prachPreambleID ra), uint (taMaxPRACH ra), uint (taMinPRACH ra),
             uint (taAvgPRACH ra div totalNumTa ra)) else None)\<rparr>)"

definition ul_clear :: "macCellCtx_s \<Rightarrow> macCellCtx_s" where
  "ul_clear c = c\<lparr>
     puschStatsInfo := (puschStatsInfo c)\<lparr>sumTaPUSCH := 0, sumRssiPUSCH := 0, sumSnrPUSCH := 0,
       sumFailTaPUSCH := 0, numPuschCrcPass := 0, numPuschCrcFail := 0\<rparr>,
     pucchStatsInfo := (pucchStatsInfo c)\<lparr>numPucchCrcPass := 0, numPucchCrcFail := 0,
       numPucchUciDetected := 0, numPucchUciNotDetected := 0\<rparr>,
     rachStatsInfo := (rachStatsInfo c)\<lparr>totalNumRssi := 0, rssiMaxPRACH := 0, rssiMinPRACH := 0,
       rssiAvgPRACH := 0, totalNumTa := 0, prachPreambleID := 0, taMaxPRACH := 0,
       taMinPRACH := 0, taAvgPRACH := 0\<rparr>\<rparr>"

definition macDumpCellUlInfo :: "mac_stats \<Rightarrow> u16 \<Rightarrow> u16 \<Rightarrow> (ul_report \<times> mac_stats) res" where
  "macDumpCellUlInfo s dev cell =
     rbind (macGetCellById s dev cell) (\<lambda>c.
     rbind (macSetCellById s dev cell (ul_clear c)) (\<lambda>s'. Inr (ul_report_of c, s')))"

section \<open>Frame arithmetic\<close>

record L1SlotInd =
  si_SFN :: u16
  si_Slot :: u16

text \<open>
  \<open>gsfnShift\<close>. \<open>garbage\<close> is the value of the local \<open>mask\<close> when the subcarrier spacing is none of
  the four the function knows: the C leaves it uninitialised.
\<close>

definition gsfn_mask :: "u32 \<Rightarrow> u32 \<Rightarrow> u32" where
  "gsfn_mask garbage scs =
     (if scs = 15 then 10 else if scs = 30 then 20 else if scs = 60 then 40
      else if scs = 120 then 80 else garbage)"

definition gsfnShift :: "u32 \<Rightarrow> L1SlotInd \<Rightarrow> u32 \<Rightarrow> u32 \<Rightarrow> L1SlotInd res" where
  "gsfnShift garbage gsfn shift scs =
     (let mask = gsfn_mask garbage scs in
      rbind (guard (shift < mask) AssertFail) (\<lambda>_.
        Inr (if shift + ucast (si_Slot gsfn) < mask
             then gsfn\<lparr>si_Slot := ucast (ucast (si_Slot gsfn) + shift)\<rparr>
             else gsfn\<lparr>si_Slot := ucast (ucast (si_Slot gsfn) + shift - mask),
               si_SFN := (si_SFN gsfn + 1) AND 0x3ff\<rparr>)))"

section \<open>Properties\<close>

lemma gsfn_mask_values:
  "scs \<in> {15, 30, 60, 120} \<Longrightarrow> unat (gsfn_mask g scs) = 10 * (unat scs div 15)"
  "scs \<in> {15, 30, 60, 120} \<Longrightarrow> unat (gsfn_mask g scs) \<le> 80"
  by (auto simp: gsfn_mask_def)

lemma unat_ucast_u32_u16: "unat w < 2 ^ 16 \<Longrightarrow> unat (ucast (w :: u32) :: u16) = unat w"
  by (simp add: unsigned_ucast_eq take_bit_nat_eq_self)

lemma sfn_wrap: "unat (s :: u16) < 1024 \<Longrightarrow> unat ((s + 1) AND 0x3ff) = (unat s + 1) mod 1024"
proof -
  assume "unat s < 1024"
  then have "unat (s + 1) = unat s + 1" by (subst unat_add_lt) auto
  moreover have "(s + 1) AND 0x3ff = take_bit 10 (s + 1)"
    by (simp add: take_bit_eq_mask mask_eq_exp_minus_1)
  ultimately show ?thesis by (simp add: take_bit_eq_mod unat_mod)
qed

text \<open>
  For each subcarrier spacing the system knows (15, 30, 60, 120 kHz), shifting a position of
  the 1024-frame cycle by less than a frame moves it by exactly that many slots, modulo the cycle,
  and yields again a valid position.
\<close>

theorem gsfn_shift_mod:
  assumes scs: "scs \<in> {15, 30, 60, 120}" and slot: "unat (si_Slot g) < 10 * (unat scs div 15)"
    and sfn: "unat (si_SFN g) < 1024" and shift: "unat shift < 10 * (unat scs div 15)"
  shows "\<exists>g'. gsfnShift garbage g shift scs = Inr g' \<and>
    unat (si_Slot g') < 10 * (unat scs div 15) \<and> unat (si_SFN g') < 1024 \<and>
    unat (si_SFN g') * (10 * (unat scs div 15)) + unat (si_Slot g') =
      (unat (si_SFN g) * (10 * (unat scs div 15)) + unat (si_Slot g) + unat shift)
        mod (1024 * (10 * (unat scs div 15)))"
proof -
  define m where "m = 10 * (unat scs div 15)"
  define S where "S = unat (si_SFN g)"
  define t where "t = unat (si_Slot g)"
  define d where "d = unat shift"
  have mk: "unat (gsfn_mask garbage scs) = m" and m80: "m \<le> 80"
    using gsfn_mask_values [OF scs] by (auto simp: m_def)
  have b: "t < m" "d < m" "S < 1024" using slot sfn shift by (auto simp: m_def S_def t_def d_def)
  have g: "shift < gsfn_mask garbage scs" using b mk by (simp add: word_less_nat_alt d_def)
  have slot32: "unat (ucast (si_Slot g) :: u32) = t" by (simp add: unat_ucast_u16_u32 t_def)
  have sum: "unat (ucast (si_Slot g) + shift :: u32) = t + d"
    using b m80 by (subst unat_add_lt) (auto simp: slot32 d_def)
  have cond: "shift + ucast (si_Slot g) < gsfn_mask garbage scs \<longleftrightarrow> t + d < m"
    using sum mk by (simp add: word_less_nat_alt add.commute)
  show ?thesis
  proof (cases "t + d < m")
    case True
    have "S * m + (t + d) < 1024 * m"
      using b True by (intro less_le_trans [of _ "S * m + m" "1024 * m"])
        (simp_all flip: mult_Suc)
    then have "(S * m + t + d) mod (1024 * m) = S * m + (t + d)" by (simp add: add.assoc)
    moreover have "unat (ucast (ucast (si_Slot g) + shift :: u32) :: u16) = t + d"
      using sum True m80 by (subst unat_ucast_u32_u16) auto
    ultimately show ?thesis
      unfolding m_def [symmetric] using True b cond g
      by (auto simp: gsfnShift_def Let_def S_def t_def d_def)
  next
    case False
    have "unat (ucast (si_Slot g) + shift - gsfn_mask garbage scs) = t + d - m"
      using sum mk False by (subst unat_sub_le) auto
    then have u: "unat (ucast (ucast (si_Slot g) + shift - gsfn_mask garbage scs) :: u16) = t + d - m"
      using b m80 by (subst unat_ucast_u32_u16) auto
    have "(S * m + t + d) mod (1024 * m) = ((S + 1) * m + (t + d - m)) mod (1024 * m)"
      using False by (simp add: algebra_simps)
    also have "\<dots> = ((S + 1) mod 1024) * m + (t + d - m)"
    proof (cases "S + 1 = 1024")
      case True
      then have "(S + 1) * m + (t + d - m) = (t + d - m) + 1024 * m" by simp
      then show ?thesis using True b by simp
    next
      case False
      then have "(S + 1) * m + (t + d - m) < 1024 * m"
        using b by (intro less_le_trans [of _ "(S + 1) * m + m" "1024 * m"])
          (simp_all flip: mult_Suc)
      then show ?thesis using False b by simp
    qed
    finally show ?thesis
      unfolding m_def [symmetric] using False b cond g u sfn_wrap [of "si_SFN g"]
      by (auto simp: gsfnShift_def Let_def S_def t_def d_def)
  qed
qed

theorem gsfn_shift_mod_witness:
  "\<exists>g'. gsfnShift 0 \<lparr>si_SFN = 1023, si_Slot = 19\<rparr> 2 30 = Inr g' \<and>
    unat (si_Slot g') < 20 \<and> unat (si_SFN g') < 1024 \<and>
    unat (si_SFN g') * 20 + unat (si_Slot g') = (1023 * 20 + 19 + 2) mod (1024 * 20)"
  using gsfn_shift_mod [of 30 "\<lparr>si_SFN = 1023, si_Slot = 19\<rparr>" 2 0] by simp

text \<open>
  With any other subcarrier spacing (the 240 kHz that \<open>getCarrierConfig\<close> can select, or none
  set) the frame arithmetic depends on an uninitialised variable: the result varies with it, and
  can be a failed assertion.
\<close>

theorem gsfn_shift_uninitialised:
  assumes "scs \<notin> {15, 30, 60, 120}"
  shows "gsfnShift 0 g shift scs = Inl AssertFail \<and> (\<exists>g'. gsfnShift 12 g 2 scs = Inr g')"
  using assms by (auto simp: gsfnShift_def gsfn_mask_def Let_def)

theorem gsfn_shift_uninitialised_witness:
  "gsfnShift 0 \<lparr>si_SFN = 0, si_Slot = 3\<rparr> 2 240 = Inl AssertFail \<and>
    (\<exists>g'. gsfnShift 12 \<lparr>si_SFN = 0, si_Slot = 3\<rparr> 2 240 = Inr g')"
  using gsfn_shift_uninitialised [of 240 "\<lparr>si_SFN = 0, si_Slot = 3\<rparr>" 2] by simp

text \<open>
  A UE context is inside its array exactly when the low 12 bits of the C-RNTI are below 256.
  Only \<open>macUeStatsResetByCrnti\<close> asserts a range, and that range is safe; \<open>macGetUeByCrnti\<close>, which
  the UCI handlers use with the RNTI of a received message, does not check.
\<close>

theorem ue_access_bounds:
  assumes "stats_wf s"
  shows "((\<exists>u. macGetUeByCrnti s cRnti = Inr u) \<longleftrightarrow> unat cRnti mod 4096 < 256) \<and>
    macUeStatsResetByCrnti s cRnti =
      (if 4095 < unat cRnti \<and> unat cRnti < 4351
       then Inr (s\<lparr>sMacUeCtxt := (sMacUeCtxt s)[unat cRnti - 4096 :=
         (sMacUeCtxt s ! (unat cRnti - 4096))\<lparr>ueStatsInfo := ueStats_zero\<rparr>]\<rparr>)
       else Inl AssertFail)"
proof -
  have "cRnti AND 4095 = take_bit 12 cRnti" by (simp add: take_bit_eq_mask mask_eq_exp_minus_1)
  then have u: "unat (cRnti AND 4095) = unat cRnti mod 4096"
    by (simp add: take_bit_eq_mod unat_mod)
  have A: "(\<exists>u. macGetUeByCrnti s cRnti = Inr u) \<longleftrightarrow> unat cRnti mod 4096 < 256"
    using assms u by (auto simp: macGetUeByCrnti_def rd_def stats_wf_def MAX_UE_NUM_IN_ONE_CELL_def)
  have "4095 < unat cRnti \<Longrightarrow> unat cRnti < 4351 \<Longrightarrow> unat cRnti mod 4096 = unat cRnti - 4096"
    by (simp add: mod_if)
  then have "macUeStatsResetByCrnti s cRnti =
      (if 4095 < unat cRnti \<and> unat cRnti < 4351
       then Inr (s\<lparr>sMacUeCtxt := (sMacUeCtxt s)[unat cRnti - 4096 :=
         (sMacUeCtxt s ! (unat cRnti - 4096))\<lparr>ueStatsInfo := ueStats_zero\<rparr>]\<rparr>)
       else Inl AssertFail)"
    using assms u
    by (auto simp: macUeStatsResetByCrnti_def macGetUeByCrnti_def macSetUeByCrnti_def stats_wf_def
        MAX_UE_NUM_IN_ONE_CELL_def guard_def)
  with A show ?thesis by blast
qed

definition mac_stats0 :: mac_stats where
  "mac_stats0 = \<lparr>sMacCellCtx = replicate 4 (replicate 2 cell_zero),
     sMacUeCtxt = replicate 256 \<lparr>ue_cellId = 0, ue_ueId = 0, ue_srnti = 0, ue_crnti = 0,
       ueStatsInfo = ueStats_zero\<rparr>,
     gcurrentScs = replicate 4 (replicate 2 0), maxTimeOut = 0, minTimeOut = 0\<rparr>"

lemma mac_stats0_wf: "stats_wf mac_stats0"
  by (simp add: stats_wf_def mac_stats0_def shape2_def MAC_PC802_INDEX_MAX_def
      MAC_MAX_CELL_NUM_def MAX_UE_NUM_IN_ONE_CELL_def)

theorem ue_access_bounds_witness:
  "\<not> (\<exists>u. macGetUeByCrnti mac_stats0 0x4601 = Inr u) \<and>
    macUeStatsResetByCrnti mac_stats0 0x1200 = Inl AssertFail"
  using ue_access_bounds [OF mac_stats0_wf, of "0x4601"] ue_access_bounds [OF mac_stats0_wf, of "0x1200"]
  by simp

text \<open>
  Reporting a cell clears every counter the report is made of and touches no other cell: a
  second report of the same cell prints zeros and no averages.
\<close>

theorem dump_resets:
  assumes "stats_wf s" and "unat dev < 4"
  shows "\<exists>rep s'. macDumpCellUlInfo s dev cell = Inr (rep, s') \<and> stats_wf s' \<and>
    (\<exists>s''. macDumpCellUlInfo s' dev cell = Inr (\<lparr>ur_tbCrc = (0, 0), ur_pucchCrc = (0, 0),
      ur_puschAvg = None, ur_failTa = None, ur_rachRssi = None, ur_rachTa = None\<rparr>, s'')) \<and>
    (\<forall>d c. (d, c) \<noteq> (unat dev, unat (cell AND 1)) \<longrightarrow> rd2 (sMacCellCtx s') d c = rd2 (sMacCellCtx s) d c)"
proof -
  let ?c = "unat (cell AND 1)" and ?d = "unat dev"
  have c2: "?c < 2" using word_and_le1 [of cell 1] by (simp add: word_le_nat_alt)
  have sh: "shape2 (sMacCellCtx s)" using assms by (simp add: stats_wf_def)
  let ?v = "ul_clear (sMacCellCtx s ! ?d ! ?c)"
  let ?cs = "(sMacCellCtx s)[?d := (sMacCellCtx s ! ?d)[?c := ?v]]"
  have sh': "shape2 ?cs" by (rule shape2_update [OF sh assms(2)])
  have len: "?d < length (sMacCellCtx s)" "?c < length (sMacCellCtx s ! ?d)"
    using sh assms(2) c2 by (auto simp: shape2_def MAC_PC802_INDEX_MAX_def MAC_MAX_CELL_NUM_def)
  have one: "macDumpCellUlInfo s dev cell =
      Inr (ul_report_of (sMacCellCtx s ! ?d ! ?c), s\<lparr>sMacCellCtx := ?cs\<rparr>)"
    by (simp add: macDumpCellUlInfo_def macGetCellById_def macSetCellById_def
        rd2_ok [OF sh assms(2) c2] wr2_ok [OF sh assms(2) c2])
  have two: "\<exists>s''. macDumpCellUlInfo (s\<lparr>sMacCellCtx := ?cs\<rparr>) dev cell = Inr (ul_report_of ?v, s'')"
    using len by (simp add: macDumpCellUlInfo_def macGetCellById_def macSetCellById_def
        rd2_ok [OF sh' assms(2) c2] wr2_ok [OF sh' assms(2) c2])
  have rep: "ul_report_of ?v = \<lparr>ur_tbCrc = (0, 0), ur_pucchCrc = (0, 0),
      ur_puschAvg = None, ur_failTa = None, ur_rachRssi = None, ur_rachTa = None\<rparr>"
    by (simp add: ul_report_of_def ul_clear_def Let_def)
  have others: "rd2 ?cs d c = rd2 (sMacCellCtx s) d c" if "(d, c) \<noteq> (?d, ?c)" for d c
    using that len by (cases "d = ?d") (auto simp: rd2_def rd_def)
  show ?thesis using one two rep others sh' assms(1) by (auto simp: stats_wf_def)
qed

theorem dump_resets_witness:
  "\<exists>rep s'. macDumpCellUlInfo mac_stats0 3 1 = Inr (rep, s') \<and> stats_wf s'"
  using dump_resets [OF mac_stats0_wf, of 3 1] by auto

text \<open>
  Selecting 15 kHz doubles both slot-timer limits each time it is done, so \<open>k\<close> selections
  multiply them by \<open>2 ^ k\<close> (modulo the width of the counters) instead of setting them once.
\<close>

theorem scs15_doubles_each_time:
  assumes "stats_wf s" and "unat dev < 4" and "unat cell < 2"
  shows "\<exists>s'. ((\<lambda>m. rbind m (\<lambda>s. macCellSetScs s 15 dev cell)) ^^ k) (Inr s) = Inr s' \<and>
    stats_wf s' \<and> maxTimeOut s' = 2 ^ k * maxTimeOut s \<and> minTimeOut s' = 2 ^ k * minTimeOut s"
proof (induction k)
  case (Suc k)
  then obtain s' where s': "((\<lambda>m. rbind m (\<lambda>s. macCellSetScs s 15 dev cell)) ^^ k) (Inr s) = Inr s'"
    "stats_wf s'" "maxTimeOut s' = 2 ^ k * maxTimeOut s" "minTimeOut s' = 2 ^ k * minTimeOut s" by auto
  have sh: "shape2 (gcurrentScs s')" using s'(2) by (simp add: stats_wf_def)
  show ?case
    using s' shape2_update [OF sh assms(2)] wr2_ok [OF sh assms(2,3)]
    by (auto simp: macCellSetScs_def Let_def stats_wf_def)
qed (use assms in auto)

theorem scs15_doubles_each_time_witness:
  "\<exists>s'. rbind (macCellSetScs (mac_stats0\<lparr>maxTimeOut := 5\<rparr>) 15 0 0) (\<lambda>s. macCellSetScs s 15 0 0)
    = Inr s' \<and> maxTimeOut s' = 20"
proof -
  have "stats_wf (mac_stats0\<lparr>maxTimeOut := 5\<rparr>)" using mac_stats0_wf by (simp add: stats_wf_def)
  from scs15_doubles_each_time [OF this, of 0 0 2] show ?thesis by (auto simp: numeral_2_eq_2)
qed

section \<open>Cells as lenses\<close>

definition cell_of :: "mac_stats \<Rightarrow> u16 \<Rightarrow> u16 \<Rightarrow> macCellCtx_s" where
  "cell_of s dev cell = sMacCellCtx s ! unat dev ! unat (cell AND 1)"

definition on_cell :: "(macCellCtx_s \<Rightarrow> macCellCtx_s) \<Rightarrow> u16 \<Rightarrow> u16 \<Rightarrow> mac_stats \<Rightarrow> mac_stats" where
  "on_cell f dev cell s = s\<lparr>sMacCellCtx := (sMacCellCtx s)[unat dev :=
     (sMacCellCtx s ! unat dev)[unat (cell AND 1) := f (cell_of s dev cell)]]\<rparr>"

lemma cell_index: "unat ((cell :: u16) AND 1) < 2"
  using word_and_le1 [of cell 1] by (simp add: word_le_nat_alt)

lemma cell_lengths:
  assumes "stats_wf s" and "unat dev < 4"
  shows "unat dev < length (sMacCellCtx s)"
    and "unat ((cell :: u16) AND 1) < length (sMacCellCtx s ! unat dev)"
  using assms cell_index [of cell]
  by (auto simp: stats_wf_def shape2_def MAC_PC802_INDEX_MAX_def MAC_MAX_CELL_NUM_def)

lemma macGetCell_ok: "stats_wf s \<Longrightarrow> unat dev < 4 \<Longrightarrow> macGetCellById s dev cell = Inr (cell_of s dev cell)"
  by (simp add: macGetCellById_def cell_of_def rd2_ok cell_index stats_wf_def)

lemma macSetCell_ok:
  "stats_wf s \<Longrightarrow> unat dev < 4 \<Longrightarrow> macSetCellById s dev cell c = Inr (on_cell (\<lambda>_. c) dev cell s)"
  by (simp add: macSetCellById_def on_cell_def wr2_ok cell_index stats_wf_def)

lemma on_cell_wf [simp]: "unat dev < 4 \<Longrightarrow> stats_wf s \<Longrightarrow> stats_wf (on_cell f dev cell s)"
  by (simp add: on_cell_def stats_wf_def shape2_update)

lemma cell_of_on_cell [simp]:
  "stats_wf s \<Longrightarrow> unat dev < 4 \<Longrightarrow> cell_of (on_cell f dev cell s) dev cell = f (cell_of s dev cell)"
  using cell_lengths(1) [of s dev] cell_lengths(2) [of s dev cell] by (simp add: on_cell_def cell_of_def)

lemma on_cell_comp:
  "stats_wf s \<Longrightarrow> unat dev < 4 \<Longrightarrow>
    on_cell g dev cell (on_cell f dev cell s) = on_cell (\<lambda>c. g (f c)) dev cell s"
  using cell_lengths(1) [of s dev] cell_lengths(2) [of s dev cell] by (simp add: on_cell_def cell_of_def)

lemma on_cell_id: "stats_wf s \<Longrightarrow> unat dev < 4 \<Longrightarrow> on_cell (\<lambda>c. c) dev cell s = s"
  using cell_lengths(1) [of s dev] cell_lengths(2) [of s dev cell] by (simp add: on_cell_def cell_of_def)

lemma on_cell_const: "on_cell (\<lambda>_. f (cell_of s dev cell)) dev cell s = on_cell f dev cell s"
  by (simp add: on_cell_def)

lemma on_cell_other:
  "(unat dev', unat (cell' AND 1)) \<noteq> (unat dev, unat (cell AND 1)) \<Longrightarrow>
    cell_of (on_cell f dev cell s) dev' cell' = cell_of s dev' cell'"
  by (cases "unat dev' = unat dev \<and> unat dev < length (sMacCellCtx s)")
    (auto simp: on_cell_def cell_of_def nth_list_update list_update_beyond not_less)

end
