(* ===== verification/FapiCodec.thy ===== *)
theory FapiCodec
  imports MacCell
begin

text \<open>
  The FAPI packers of \<open>mac/src/mac.c\<close>: \<open>ConfigReqParams\<close>, \<open>DlttiParams\<close>, \<open>UlttiParams\<close> and
  \<open>TxdataParams\<close> walk a request with a running \<open>offset\<close> and copy its parts one by one to the
  control channel buffer. A packer state holds the bytes of the request (from the address of the
  structure to the end of its allocation), the bytes of the destination, the running offset and
  the position of \<open>Output\<close>. Every copy checks both objects: outside of them it is the fault
  \<open>OutOfRange\<close>. The offset stays below the length of the destination plus one header, so it is a
  natural number here and no \<open>uint32_t\<close> wraps for destinations below 4 GiB.
\<close>

section \<open>The packer\<close>

record packer =
  pk_in :: "u8 list"
  pk_out :: "u8 list"
  pk_off :: nat
  pk_pos :: nat

definition rd_block :: "'a list \<Rightarrow> nat \<Rightarrow> nat \<Rightarrow> 'a list res" where
  "rd_block xs i n = (if i + n \<le> length xs then Inr (take n (drop i xs)) else Inl OutOfRange)"

text \<open>\<open>offset += n; memcpy(Output, source, n); Output += n;\<close>\<close>

definition pk_copy :: "nat \<Rightarrow> nat \<Rightarrow> packer \<Rightarrow> packer res" where
  "pk_copy src n p =
     rbind (rd_block (pk_in p) src n) (\<lambda>bs.
     rbind (wr_block (pk_out p) (pk_pos p) bs) (\<lambda>out.
       Inr (p\<lparr>pk_out := out, pk_off := pk_off p + n, pk_pos := pk_pos p + n\<rparr>)))"

text \<open>The elements of an array addressed by index, and items taken at the running offset.\<close>

fun pk_array :: "nat \<Rightarrow> nat \<Rightarrow> nat \<Rightarrow> packer \<Rightarrow> packer res" where
  "pk_array src n 0 p = Inr p"
| "pk_array src n (Suc c) p = rbind (pk_copy src n p) (pk_array (src + n) n c)"

fun pk_seq :: "nat \<Rightarrow> nat \<Rightarrow> packer \<Rightarrow> packer res" where
  "pk_seq n 0 p = Inr p"
| "pk_seq n (Suc c) p = rbind (pk_copy (pk_off p) n p) (pk_seq n c)"

text \<open>Leaving room for a header, and copying it later to the place left.\<close>

definition pk_skip :: "nat \<Rightarrow> packer \<Rightarrow> packer" where
  "pk_skip n p = p\<lparr>pk_off := pk_off p + n, pk_pos := pk_pos p + n\<rparr>"

definition pk_patch :: "nat \<Rightarrow> nat \<Rightarrow> nat \<Rightarrow> packer \<Rightarrow> packer res" where
  "pk_patch src dst n p =
     rbind (rd_block (pk_in p) src n) (\<lambda>bs.
     rbind (wr_block (pk_out p) dst bs) (\<lambda>out. Inr (p\<lparr>pk_out := out\<rparr>)))"

definition put16 :: "u8 list \<Rightarrow> nat \<Rightarrow> ctype \<Rightarrow> string \<Rightarrow> u16 \<Rightarrow> u8 list res" where
  "put16 m base T f v = wr_block m (base + offsetof T f) (bytes_of_u16 v)"

definition put32 :: "u8 list \<Rightarrow> nat \<Rightarrow> ctype \<Rightarrow> string \<Rightarrow> u32 \<Rightarrow> u8 list res" where
  "put32 m base T f v = wr_block m (base + offsetof T f) (bytes_of_u32 v)"

definition put8 :: "u8 list \<Rightarrow> nat \<Rightarrow> ctype \<Rightarrow> string \<Rightarrow> u8 \<Rightarrow> u8 list res" where
  "put8 m base T f v = wr m (base + offsetof T f) v"

text \<open>Assignments to fields of the request itself.\<close>

definition pk_put16 :: "nat \<Rightarrow> ctype \<Rightarrow> string \<Rightarrow> u16 \<Rightarrow> packer \<Rightarrow> packer res" where
  "pk_put16 base T f v p = rbind (put16 (pk_in p) base T f v) (\<lambda>i. Inr (p\<lparr>pk_in := i\<rparr>))"

definition pk_put32 :: "nat \<Rightarrow> ctype \<Rightarrow> string \<Rightarrow> u32 \<Rightarrow> packer \<Rightarrow> packer res" where
  "pk_put32 base T f v p = rbind (put32 (pk_in p) base T f v) (\<lambda>i. Inr (p\<lparr>pk_in := i\<rparr>))"

section \<open>Resets of a message\<close>

definition DlttiDefaultParams :: "u8 list \<Rightarrow> u8 list res" where
  "DlttiDefaultParams m = rbind (put16 m 0 L1DLTTIReq_t ''nPDUs'' 0) (\<lambda>m. put8 m 0 L1DLTTIReq_t ''nGroup'' 0)"

definition UlttiDefaultParams :: "u8 list \<Rightarrow> u8 list res" where
  "UlttiDefaultParams m = rbind (put16 m 0 L1ULTTI_t ''nPDUs'' 0) (\<lambda>m. put8 m 0 L1ULTTI_t ''nGroup'' 0)"

definition UldciDefaultParams :: "u8 list \<Rightarrow> u8 list res" where
  "UldciDefaultParams m = put16 m 0 L1ULDCI_t ''numPDUs'' 0"

definition TxdataDefaultParams :: "u8 list \<Rightarrow> u8 list res" where
  "TxdataDefaultParams m = put16 m 0 L1TXDATAREQ_t ''numPDUs'' 0"

definition RxdataDefaultParams :: "u8 list \<Rightarrow> u8 list res" where
  "RxdataDefaultParams m = put16 m 0 L1RxdataIndication_t ''numPDUs'' 0"

definition CrcDefaultParams :: "u8 list \<Rightarrow> u8 list res" where
  "CrcDefaultParams m = put16 m 0 L1CrcIndication_t ''numCRCs'' 0"

definition UciDefaultParams :: "u8 list \<Rightarrow> u8 list res" where
  "UciDefaultParams m = put16 m 0 L1UciIndication_t ''numUcis'' 0"

definition SrsDefaultParams :: "u8 list \<Rightarrow> u8 list res" where
  "SrsDefaultParams m = put8 m 0 L1SrsIndication_t ''numPDUs'' 0"

definition RachDefaultParams :: "u8 list \<Rightarrow> u8 list res" where
  "RachDefaultParams m = put8 m 0 L1RachIndication_t ''numPDUs'' 0"

section \<open>CONFIG.request\<close>

text \<open>
  A PRACH configuration: its fixed part and its FD occasions. Configuration \<open>k\<close> of the flexible
  array is addressed at a fixed stride, the size of the fixed part.
\<close>

definition cfgPrach :: "nat \<Rightarrow> packer \<Rightarrow> packer res" where
  "cfgPrach a p =
     (let fd = offsetof L1PrachConfiguration_t ''PrachFdOccaCfgInfos'' in
      rbind (pk_copy a fd p) (\<lambda>p1.
      rbind (fld8 (pk_in p1) a L1PrachConfiguration_t ''numPrachFdOccasions'') (\<lambda>n.
        pk_array (a + fd) (csize L1PrachFdOccasionConfigInfo_t) (unat n) p1)))"

fun cfgPrachs :: "nat \<Rightarrow> nat \<Rightarrow> packer \<Rightarrow> packer res" where
  "cfgPrachs a 0 p = Inr p"
| "cfgPrachs a (Suc k) p = rbind (cfgPrach a p) (cfgPrachs (a + csize L1PrachConfiguration_t) k)"

definition cfgMap :: "nat \<Rightarrow> packer \<Rightarrow> packer res" where
  "cfgMap a p =
     (let sz = offsetof L1MapIndex_t ''sizesPart1Params'' in
      rbind (pk_copy a sz p) (\<lambda>p1.
      rbind (fld8 (pk_in p1) a L1MapIndex_t ''numPart1Params'') (\<lambda>n.
        pk_array (a + sz) 1 (unat n) p1)))"

fun cfgMaps :: "nat \<Rightarrow> nat \<Rightarrow> packer \<Rightarrow> packer res" where
  "cfgMaps a 0 p = Inr p"
| "cfgMaps a (Suc k) p = rbind (cfgMap a p) (cfgMaps (a + csize L1MapIndex_t) k)"

text \<open>The digital beams and the precoding matrices are taken at the running offset.\<close>

fun cfgBeams :: "nat \<Rightarrow> nat \<Rightarrow> packer \<Rightarrow> packer res" where
  "cfgBeams ports 0 p = Inr p"
| "cfgBeams ports (Suc k) p =
     rbind (pk_copy (pk_off p) (offsetof L1DigBeam_t ''TXRU'') p) (\<lambda>p1.
     rbind (pk_seq (csize L1TxRu_t) ports p1) (cfgBeams ports k))"

fun cfgLayers :: "nat \<Rightarrow> nat \<Rightarrow> packer \<Rightarrow> packer res" where
  "cfgLayers ants 0 p = Inr p"
| "cfgLayers ants (Suc k) p = rbind (pk_seq (csize L1PrecoderInfo_t) ants p) (cfgLayers ants k)"

fun cfgPms :: "nat \<Rightarrow> packer \<Rightarrow> packer res" where
  "cfgPms 0 p = Inr p"
| "cfgPms (Suc k) p =
     (let a = pk_off p in
      rbind (pk_copy a (offsetof L1PMConfigInfo_t ''layers'') p) (\<lambda>p1.
      rbind (fld16 (pk_in p1) a L1PMConfigInfo_t ''numLayers'') (\<lambda>nl.
      rbind (fld16 (pk_in p1) a L1PMConfigInfo_t ''numAntPorts'') (\<lambda>na.
      rbind (cfgLayers (unat na) (unat nl) p1) (cfgPms k)))))"

definition cfgFixed :: "string \<Rightarrow> nat \<Rightarrow> packer \<Rightarrow> packer res" where
  "cfgFixed f n p = pk_copy (offsetof L1ConfigRequest_t f) n p"

text \<open>The request from the TDD table on, and the whole of it.\<close>

definition cfgTables :: "u8 list \<Rightarrow> packer \<Rightarrow> packer res" where
  "cfgTables configReq p =
     (let uci = offsetof L1ConfigRequest_t ''UciConfigurationInfo'';
          prb = offsetof L1ConfigRequest_t ''PrbSymol'';
          pucch = offsetof L1ConfigRequest_t ''PucchSSConfig'' in
      rbind (cfgFixed ''TDDtableInfo'' (csize L1TddTableConfigInfo_t) p) (\<lambda>p.
      rbind (cfgFixed ''MeasurementCfgInfo'' (csize L1MeasurementConfigInfo_t) p) (\<lambda>p.
      rbind (cfgFixed ''UciConfigurationInfo'' (offsetof L1UciConfigurationInfo_t ''mapIndex'') p) (\<lambda>p.
      rbind (fld16 configReq uci L1UciConfigurationInfo_t ''numUci2Maps'') (\<lambda>n.
      rbind (cfgMaps (uci + offsetof L1UciConfigurationInfo_t ''mapIndex'') (unat n) p) (\<lambda>p.
      rbind (cfgFixed ''PrbSymol'' (offsetof L1PrbSym_t ''CoresetRmPatterns'') p) (\<lambda>p.
      rbind (fld8 configReq prb L1PrbSym_t ''numCoresetRmPatterns'') (\<lambda>n.
      rbind (pk_array (prb + offsetof L1PrbSym_t ''CoresetRmPatterns'') (csize L1CoresetRmPattern_t)
        (unat n) p) (\<lambda>p.
      rbind (fld8 configReq prb L1PrbSym_t ''numberOfPrbSymbRateMatchPatterns'') (\<lambda>n.
      rbind (pk_array (prb + offsetof L1PrbSym_t ''PrbSymbRateMatchPatterns'')
        (csize L1PrbSymbRateMatchPatterns_t) (unat n) p) (\<lambda>p.
      rbind (cfgFixed ''PucchSSConfig'' (offsetof L1PucchSSConfig_t ''UlBwpIds'') p) (\<lambda>p.
      rbind (fld8 configReq pucch L1PucchSSConfig_t ''numUlBwpIds'') (\<lambda>n.
        pk_array (pucch + offsetof L1PucchSSConfig_t ''UlBwpIds'') (csize L1UlBwpIds_t) (unat n) p)))))))))))))"

definition cfgWeights :: "u8 list \<Rightarrow> packer \<Rightarrow> packer res" where
  "cfgWeights configReq p =
     (let dbt = offsetof L1ConfigRequest_t ''DBTInfo''; pm = offsetof L1ConfigRequest_t ''PMInfo'' in
      rbind (cfgFixed ''PdschConfig'' (csize L1PdschConfig_t) p) (\<lambda>p.
      rbind (cfgFixed ''DBTInfo'' (offsetof L1DBTConfigInfo_t ''digBeam'') p) (\<lambda>p.
      rbind (fld16 configReq dbt L1DBTConfigInfo_t ''numDigBeams'') (\<lambda>nb.
      rbind (fld16 configReq dbt L1DBTConfigInfo_t ''numBasebandPorts'') (\<lambda>np.
      rbind (cfgBeams (unat np) (unat nb) p) (\<lambda>p.
      rbind (cfgFixed ''PMInfo'' (offsetof L1PMCfgTableInfo_t ''pmTable'') p) (\<lambda>p.
      rbind (fld16 configReq pm L1PMCfgTableInfo_t ''numPMTables'') (\<lambda>n. cfgPms (unat n) p))))))))"

definition ConfigReqParams :: "u8 list \<Rightarrow> u8 list \<Rightarrow> packer res" where
  "ConfigReqParams configReq out =
     (let prach = offsetof L1ConfigRequest_t ''PRACHCfgInfo'';
          head = csize L1CarriConfigInfo_t + csize L1CellConfigInfo_t + csize L1SsbConfigInfo_t
            + offsetof L1PrachConfigInfo_t ''PrachConfiguration'';
          p = \<lparr>pk_in = configReq, pk_out = out, pk_off = 0, pk_pos = 0\<rparr> in
      rbind (pk_copy 0 head p) (\<lambda>p.
      rbind (fld16 configReq prach L1PrachConfigInfo_t ''numPrachConfigurations'') (\<lambda>n.
      rbind (cfgPrachs (prach + offsetof L1PrachConfigInfo_t ''PrachConfiguration'') (unat n) p) (\<lambda>p.
      rbind (cfgFixed ''SSBtableInfo'' (csize L1SsbTableConfigInfo_t) p) (\<lambda>p.
      rbind (cfgTables configReq p) (cfgWeights configReq))))))"

text \<open>
  The subcarrier spacing of a configuration: the first numerology with a non-empty downlink grid.
  With none the function ends without a value (\<open>None\<close>).
\<close>

fun first_grid :: "u8 list \<Rightarrow> nat \<Rightarrow> u16 list \<Rightarrow> u16 option res" where
  "first_grid m off [] = Inr None"
| "first_grid m off (scs # rest) =
     rbind (rd_u16 m off) (\<lambda>g. if g \<noteq> 0 then Inr (Some scs) else first_grid m (off + 2) rest)"

definition getCarrierConfig ::
    "u8 list \<Rightarrow> u16 \<Rightarrow> u16 \<Rightarrow> mac_stats \<Rightarrow> (u16 option \<times> mac_stats) res" where
  "getCarrierConfig configReq dev cell s =
     rbind (first_grid configReq (offsetof L1CarriConfigInfo_t ''dlGridSize'') [15, 30, 60, 120, 240]) (\<lambda>g.
       case g of None \<Rightarrow> Inr (None, s)
       | Some scs \<Rightarrow> rbind (macCellSetScs s scs dev cell) (\<lambda>s'. Inr (Some scs, s')))"

section \<open>DL_TTI.request\<close>

declare rbind_cong [fundef_cong]

lemma rd_block_Inr: "rd_block xs i n = Inr bs \<longleftrightarrow> i + n \<le> length xs \<and> bs = take n (drop i xs)"
  by (auto simp: rd_block_def)

lemma wr_block_Inr: "wr_block xs i bs = Inr ys \<longleftrightarrow> i + length bs \<le> length xs \<and> ys = overlay xs i bs"
  by (auto simp: wr_block_def)

text \<open>What a step of a packer does to its state, whatever it copies.\<close>

definition pk_le :: "packer \<Rightarrow> packer \<Rightarrow> bool" where
  "pk_le p q \<longleftrightarrow> length (pk_out q) = length (pk_out p) \<and> length (pk_in q) = length (pk_in p) \<and>
     pk_pos p \<le> pk_pos q \<and> pk_off q - pk_off p = pk_pos q - pk_pos p \<and> pk_off p \<le> pk_off q \<and>
     (\<forall>i. i < pk_pos p \<or> pk_pos q \<le> i \<longrightarrow> i < length (pk_out p) \<longrightarrow> pk_out q ! i = pk_out p ! i)"

lemma pk_le_refl [simp]: "pk_le p p"
  by (simp add: pk_le_def)

lemma pk_le_trans: "pk_le p q \<Longrightarrow> pk_le q r \<Longrightarrow> pk_le p r"
  unfolding pk_le_def by auto

lemma pk_copy_Inr:
  "pk_copy src n p = Inr q \<longleftrightarrow> src + n \<le> length (pk_in p) \<and> pk_pos p + n \<le> length (pk_out p) \<and>
    q = p\<lparr>pk_out := overlay (pk_out p) (pk_pos p) (take n (drop src (pk_in p))),
      pk_off := pk_off p + n, pk_pos := pk_pos p + n\<rparr>"
  by (auto simp: pk_copy_def rbind_Inr_iff rd_block_Inr wr_block_Inr min_def)

lemma pk_copy_le: "pk_copy src n p = Inr q \<Longrightarrow> pk_le p q"
  by (auto simp: pk_copy_Inr pk_le_def nth_overlay_out)

lemma pk_copy_out: "pk_copy src n p = Inr q \<Longrightarrow> pk_pos q = pk_pos p + n \<and> pk_pos q \<le> length (pk_out q)"
  by (auto simp: pk_copy_Inr)

lemma pk_array_le: "pk_array src n c p = Inr q \<Longrightarrow> pk_le p q"
  by (induction src n c p rule: pk_array.induct)
    (auto simp: rbind_Inr_iff intro: pk_le_trans [OF pk_copy_le])

lemma pk_seq_le: "pk_seq n c p = Inr q \<Longrightarrow> pk_le p q"
  by (induction n c p rule: pk_seq.induct)
    (auto simp: rbind_Inr_iff intro: pk_le_trans [OF pk_copy_le])

text \<open>
  The precoding and beamforming tail of a PDU: the indices are taken at the running offset. The
  loops leave their shared counter at the number of beam indices.
\<close>

definition dlBeam :: "nat \<Rightarrow> packer \<Rightarrow> (nat \<times> packer) res" where
  "dlBeam bf p =
     rbind (fld16 (pk_in p) bf L1TxPrecodingBeamformingPdu_t ''numPRGs'') (\<lambda>np.
     rbind (pk_seq 2 (unat np) p) (\<lambda>p1.
     rbind (fld8 (pk_in p1) bf L1TxPrecodingBeamformingPdu_t ''digBFInterfaces'') (\<lambda>nb.
     rbind (pk_seq 2 (unat nb) p1) (\<lambda>p2. Inr (unat nb, p2)))))"

lemma dlBeam_le: "dlBeam bf p = Inr (i, q) \<Longrightarrow> pk_le p q"
  by (auto simp: dlBeam_def rbind_Inr_iff intro: pk_le_trans [OF pk_seq_le pk_seq_le])

text \<open>
  The DCIs of a PDCCH PDU. The loop over the DCIs and the two loops inside it share the counter
  \<open>i\<close>, so after a DCI it continues behind the number of that DCI's beam indices.
\<close>

function dciLoop :: "nat \<Rightarrow> nat \<Rightarrow> nat \<Rightarrow> packer \<Rightarrow> packer res" where
  "dciLoop dcis num i p =
     (if i < num then
        (let a = dcis + i * csize L1DlDciInfo_t in
         rbind (pk_copy a (csize L1DlDciInfo_t) p) (\<lambda>p1.
         rbind (dlBeam (a + offsetof L1DlDciInfo_t ''BeamformingInfo'') p1) (\<lambda>r.
           dciLoop dcis num (fst r + 1) (snd r))))
      else Inr p)"
  by pat_completeness auto
termination
proof (relation "measure (\<lambda>(dcis, num, i, p). length (pk_out p) - pk_pos p)", simp)
  fix dcis num i :: nat and p p1 :: packer and a and r :: "nat \<times> packer"
  assume c: "pk_copy a (csize L1DlDciInfo_t) p = Inr p1"
    and b: "dlBeam (a + offsetof L1DlDciInfo_t ''BeamformingInfo'') p1 = Inr r"
  have "pk_le p1 (snd r)" using b by (cases r) (auto dest: dlBeam_le)
  moreover have "pk_pos p1 = pk_pos p + csize L1DlDciInfo_t" "pk_pos p1 \<le> length (pk_out p1)"
    "length (pk_out p1) = length (pk_out p)"
    using pk_copy_out [OF c] pk_copy_le [OF c] by (auto simp: pk_le_def)
  moreover have "csize L1DlDciInfo_t > 0" by (simp add: layout)
  ultimately show "((dcis, num, fst r + 1, snd r), (dcis, num, i, p))
      \<in> measure (\<lambda>(dcis, num, i, p). length (pk_out p) - pk_pos p)"
    by (auto simp: pk_le_def)
qed

declare dciLoop.simps [simp del]

definition dlPdcch :: "nat \<Rightarrow> packer \<Rightarrow> packer res" where
  "dlPdcch a p =
     (let dcis = offsetof L1PdcchPduInfo_t ''DlDCIs'' in
      rbind (pk_copy a dcis p) (\<lambda>p1.
      rbind (fld16 (pk_in p1) a L1PdcchPduInfo_t ''numDlDci'') (\<lambda>n.
        dciLoop (a + dcis) (unat n) 0 p1)))"

text \<open>The field \<open>f\<close> of type \<open>T\<close> of the structure at \<open>a\<close>, copied from its fixed place.\<close>

definition pk_field :: "nat \<Rightarrow> ctype \<Rightarrow> string \<Rightarrow> nat \<Rightarrow> packer \<Rightarrow> packer res" where
  "pk_field a T f n p = pk_copy (a + offsetof T f) n p"

definition pk_when :: "bool \<Rightarrow> (packer \<Rightarrow> packer res) \<Rightarrow> packer \<Rightarrow> packer res" where
  "pk_when b op p = (if b then op p else Inr p)"

definition dlRateMatching :: "nat \<Rightarrow> packer \<Rightarrow> packer res" where
  "dlRateMatching a p =
     rbind (pk_copy a (offsetof L1RateMatchingInformation_t ''coresetRMPIndex'') p) (\<lambda>p.
     rbind (fld8 (pk_in p) a L1RateMatchingInformation_t ''numCoresetRMP'') (\<lambda>n.
     rbind (pk_array (a + offsetof L1RateMatchingInformation_t ''coresetRMPIndex'') 1 (unat n) p) (\<lambda>p.
     rbind (fld8 (pk_in p) a L1RateMatchingInformation_t ''numCsiRsForRM'') (\<lambda>n.
       pk_array (a + offsetof L1RateMatchingInformation_t ''csiRsForRM'') 2 (unat n) p))))"

definition dlPdsch :: "nat \<Rightarrow> packer \<Rightarrow> packer res" where
  "dlPdsch a p =
     rbind (pk_copy a (offsetof L1PdschPduInfo_t ''CodewordInfo'') p) (\<lambda>p.
     rbind (pk_field a L1PdschPduInfo_t ''CodewordInfo'' (csize L1CodewordInfo_t) p) (\<lambda>p.
     rbind (pk_field a L1PdschPduInfo_t ''nIdPdsch'' 8 p) (\<lambda>p.
     rbind (pk_field a L1PdschPduInfo_t ''DMRSInfo'' (csize L1PdschDmrsInfo_t) p) (\<lambda>p.
     rbind (pk_field a L1PdschPduInfo_t ''ResourceAllocFd'' (csize L1PdschAllocationFdInfo_t) p) (\<lambda>p.
     rbind (dlRateMatching (a + offsetof L1PdschPduInfo_t ''RateMatchingInformation'') p) (\<lambda>p.
     rbind (pk_field a L1PdschPduInfo_t ''ResourceAllocTd'' (csize L1PxschAllocationTdInfo_t) p) (\<lambda>p.
     rbind (pk_field a L1PdschPduInfo_t ''TxPowerInfo'' (csize L1TxPowerInfo_t) p) (\<lambda>p.
     rbind (fld16 (pk_in p) a L1PdschPduInfo_t ''pduBitmap'') (\<lambda>bm.
     rbind (pk_when (bm AND 1 \<noteq> 0) (pk_field a L1PdschPduInfo_t ''PTRS'' (csize L1PtrsInfo_t)) p) (\<lambda>p.
     rbind (pk_when (bm AND 2 \<noteq> 0) (pk_field a L1PdschPduInfo_t ''CbgInfo'' (csize L1CbgFeildInfo_t)) p) (\<lambda>p.
     rbind (pk_field a L1PdschPduInfo_t ''BeamformingInfo'' (csize L1TxPrecodingBeamformingPdu_t) p) (\<lambda>p.
     rbind (dlBeam (a + offsetof L1PdschPduInfo_t ''BeamformingInfo'') p) (\<lambda>(i, p). Inr p)))))))))))))"

definition dlCsiRs :: "nat \<Rightarrow> packer \<Rightarrow> packer res" where
  "dlCsiRs a p =
     rbind (pk_copy a (csize L1CsiRsPduInfo_t) p) (\<lambda>p.
     rbind (dlBeam (a + offsetof L1CsiRsPduInfo_t ''BeamformingInfo'') p) (\<lambda>(i, p). Inr p))"

definition dlSsb :: "nat \<Rightarrow> packer \<Rightarrow> packer res" where
  "dlSsb a p =
     rbind (pk_copy a (csize L1SsbPduInfo_t) p) (\<lambda>p.
     rbind (dlBeam (a + offsetof L1SsbPduInfo_t ''BeamformingInfo'') p) (\<lambda>(i, p). Inr p))"

definition dlPduBody :: "u16 \<Rightarrow> nat \<Rightarrow> packer \<Rightarrow> packer res" where
  "dlPduBody ty a p =
     (if ty = 0 then dlPdcch a p else if ty = 1 then dlPdsch a p
      else if ty = 2 then dlCsiRs a p else if ty = 3 then dlSsb a p else Inr p)"

text \<open>
  A PDU: room for its header, its body, its size stored in the request (modulo \<open>2 ^ 16\<close>), and the
  header copied to the room. The loops of both TTI packers have this body.
\<close>

definition pduStep :: "ctype \<Rightarrow> string \<Rightarrow> (u16 \<Rightarrow> nat \<Rightarrow> packer \<Rightarrow> packer res) \<Rightarrow> packer \<Rightarrow> packer res" where
  "pduStep T cfg body p =
     (let a = pk_off p; hdr = offsetof T cfg; dst = pk_pos p in
      rbind (fld16 (pk_in p) a T ''PDUType'') (\<lambda>ty.
      rbind (body ty (a + hdr) (pk_skip hdr p)) (\<lambda>p1.
      rbind (pk_put16 a T ''PDUSize'' (of_nat (pk_off p1 - a)) p1) (\<lambda>p2.
        pk_patch a dst hdr p2))))"

definition dlPdu :: "packer \<Rightarrow> packer res" where
  "dlPdu = pduStep L1DlPduInfo_t ''DlPDUConfig'' dlPduBody"

fun pk_repeat :: "(packer \<Rightarrow> packer res) \<Rightarrow> nat \<Rightarrow> packer \<Rightarrow> packer res" where
  "pk_repeat op 0 p = Inr p"
| "pk_repeat op (Suc n) p = rbind (op p) (pk_repeat op n)"

definition groupStep :: "ctype \<Rightarrow> packer \<Rightarrow> packer res" where
  "groupStep T p =
     (let a = pk_off p; hd = offsetof T ''Ues'' in
      rbind (pk_copy a hd p) (\<lambda>p1.
      rbind (fld8 (pk_in p1) a T ''nUe'') (\<lambda>n.
        pk_array (a + hd) (csize L1GroupUeInfo_t) (unat n) p1)))"

definition dlGroup :: "packer \<Rightarrow> packer res" where
  "dlGroup = groupStep L1DlGroupInfo_t"

definition DlttiParams :: "u16 \<Rightarrow> u16 \<Rightarrow> u8 list \<Rightarrow> u8 list \<Rightarrow> packer res" where
  "DlttiParams sfn slot dltti out =
     (let p0 = \<lparr>pk_in = dltti, pk_out = out, pk_off = 0, pk_pos = 0\<rparr> in
      rbind (pk_put16 0 L1DLTTIReq_t ''SFN'' sfn p0) (\<lambda>p.
      rbind (pk_put16 0 L1DLTTIReq_t ''Slot'' slot p) (\<lambda>p.
      rbind (pk_copy 0 (offsetof L1DLTTIReq_t ''pdus'') p) (\<lambda>p.
      rbind (fld16 (pk_in p) 0 L1DLTTIReq_t ''nPDUs'') (\<lambda>n.
      rbind (pk_repeat dlPdu (unat n) p) (\<lambda>p.
      rbind (fld8 (pk_in p) 0 L1DLTTIReq_t ''nGroup'') (\<lambda>g.
        pk_repeat dlGroup (unat g) p)))))))"

section \<open>UL_TTI.request\<close>

definition ulUciInfo :: "nat \<Rightarrow> packer \<Rightarrow> packer res" where
  "ulUciInfo a p =
     (let hd = offsetof L1Uci1ToUci2Info_t ''UCIpart2'' in
      rbind (pk_copy a hd p) (\<lambda>p1.
      rbind (fld16 (pk_in p1) a L1Uci1ToUci2Info_t ''numPart2Types'') (\<lambda>n.
        pk_array (a + hd) (csize L1UCIPart2Types_t) (unat n) p1)))"

definition ulPtrs :: "nat \<Rightarrow> packer \<Rightarrow> packer res" where
  "ulPtrs a p =
     (let hd = offsetof L1PuschPtrs_t ''PtrsPorts'' in
      rbind (pk_copy a hd p) (\<lambda>p1.
      rbind (fld8 (pk_in p1) a L1PuschPtrs_t ''numPtrsPorts'') (\<lambda>n.
        pk_array (a + hd) (csize L1PtrsPortInfo_t) (unat n) p1)))"

definition ulPuschUci :: "nat \<Rightarrow> packer \<Rightarrow> packer res" where
  "ulPuschUci a p =
     rbind (pk_copy a (offsetof L1PuschUci_t ''uci1ToUci2Info'') p) (\<lambda>p.
       ulUciInfo (a + offsetof L1PuschUci_t ''uci1ToUci2Info'') p)"

definition ulPusch :: "nat \<Rightarrow> packer \<Rightarrow> packer res" where
  "ulPusch a p =
     rbind (pk_copy a (offsetof L1PuschPduInfo_t ''puschData'') p) (\<lambda>p.
     rbind (fld16 (pk_in p) a L1PuschPduInfo_t ''pduBitmap'') (\<lambda>bm.
     rbind (pk_when (bm AND 1 \<noteq> 0) (pk_field a L1PuschPduInfo_t ''puschData'' (csize L1PuschData_t)) p) (\<lambda>p.
     rbind (pk_when (bm AND 2 \<noteq> 0) (ulPuschUci (a + offsetof L1PuschPduInfo_t ''puschUci'')) p) (\<lambda>p.
     rbind (pk_when (bm AND 4 \<noteq> 0) (ulPtrs (a + offsetof L1PuschPduInfo_t ''puschPtrs'')) p) (\<lambda>p.
       pk_when (bm AND 8 \<noteq> 0) (pk_field a L1PuschPduInfo_t ''dftsOfdm'' (csize L1DftsOfdm_t)) p)))))"

definition ulPucch :: "nat \<Rightarrow> packer \<Rightarrow> packer res" where
  "ulPucch a p =
     (let dmrs = a + offsetof L1PucchPduInfo_t ''DMRS'';
          uci = offsetof L1PucchDMRSInfo_t ''uci1ToUci2Info'' in
      rbind (pk_copy a (offsetof L1PucchPduInfo_t ''DMRS'') p) (\<lambda>p.
      rbind (pk_copy dmrs uci p) (\<lambda>p.
        ulUciInfo (dmrs + uci) p)))"

definition ulPduBody :: "u16 \<Rightarrow> nat \<Rightarrow> packer \<Rightarrow> packer res" where
  "ulPduBody ty a p =
     (if ty = 0 then pk_copy a (csize L1PrachPdu_t) p else if ty = 1 then ulPusch a p
      else if ty = 2 then ulPucch a p else if ty = 3 then pk_copy a (csize L1SrsPdu_t) p else Inr p)"

definition ulPdu :: "packer \<Rightarrow> packer res" where
  "ulPdu = pduStep L1UlPduInfo_t ''UlPDUConfig'' ulPduBody"

definition ulGroup :: "packer \<Rightarrow> packer res" where
  "ulGroup = groupStep L1UlGroupInfo_t"

definition UlttiParams :: "u16 \<Rightarrow> u16 \<Rightarrow> u8 list \<Rightarrow> u8 list \<Rightarrow> packer res" where
  "UlttiParams sfn slot ultti out =
     (let p0 = \<lparr>pk_in = ultti, pk_out = out, pk_off = 0, pk_pos = 0\<rparr> in
      rbind (pk_put16 0 L1ULTTI_t ''SFN'' sfn p0) (\<lambda>p.
      rbind (pk_put16 0 L1ULTTI_t ''Slot'' slot p) (\<lambda>p.
      rbind (pk_copy 0 (offsetof L1ULTTI_t ''pdus'') p) (\<lambda>p.
      rbind (fld16 (pk_in p) 0 L1ULTTI_t ''nPDUs'') (\<lambda>n.
      rbind (pk_repeat ulPdu (unat n) p) (\<lambda>p.
      rbind (fld8 (pk_in p) 0 L1ULTTI_t ''nGroup'') (\<lambda>g.
        pk_repeat ulGroup (unat g) p)))))))"

section \<open>TX_DATA.request\<close>

text \<open>
  The payloads of TLVs with tag 2 go through the data channel of the \<open>pcxx\<close> library, which is not
  part of the repository: \<open>dp_alloc\<close> and \<open>dp_send\<close> stand for \<open>pcxxDataAlloc\<close> (the buffer offset, or
  \<open>None\<close> when it returns non-zero) and \<open>pcxxDataSend\<close>, on a state \<open>'e\<close> of the library. \<open>dp_send\<close>
  receives the bytes the program has written to the buffer, \<open>None\<close> when it has written none.
\<close>

record 'e data_path =
  dp_alloc :: "u32 \<Rightarrow> 'e \<Rightarrow> u32 option \<times> 'e"
  dp_send :: "u32 \<Rightarrow> u32 \<Rightarrow> u8 list option \<Rightarrow> 'e \<Rightarrow> 'e"

datatype TestMacPdschMode_e = PDSCHMODE_AUTO_MODE | PDSCHMODE_LOAD_MODE

definition BsMacPayloads_pdsch :: "u8 list" where
  "BsMacPayloads_pdsch = [
    0x0f, 0x70, 0xb3, 0x6f, 0x43, 0x98, 0x48, 0xae, 0xbc, 0x97, 0x38, 0x1d,
    0xd3, 0xd4, 0xa0, 0x55, 0x7d, 0x68, 0x37, 0x6d, 0x60, 0xbb, 0xe3, 0xcd,
    0x35, 0xc6, 0x8b, 0xfa, 0x58, 0xa6, 0x30, 0x19, 0x95, 0x93, 0xf6, 0x92,
    0x6f, 0xcb, 0x50, 0xa2, 0x76, 0x5e, 0xc3, 0x54, 0xe4, 0x31, 0x08, 0x04,
    0x46, 0x47, 0x56, 0xc7, 0x12, 0xa3, 0x67, 0xcf, 0x16, 0xe5, 0x20, 0x99,
    0xd1, 0xf7, 0x83, 0xfe] @ replicate 36 0"

lemma length_BsMacPayloads_pdsch [simp]: "length BsMacPayloads_pdsch = 100"
  by code_simp

text \<open>The copy loop of the automatic mode: the pattern again and again, the last time a prefix.\<close>

fun payloadLoop :: "nat \<Rightarrow> u8 list" where
  "payloadLoop sz =
     (if sz = 0 then []
      else let n = (if sz > length BsMacPayloads_pdsch then length BsMacPayloads_pdsch else sz) in
        take n BsMacPayloads_pdsch @ payloadLoop (sz - n))"

declare payloadLoop.simps [simp del]

text \<open>
  \<open>macDlSchBuildPayload\<close>: the new value of the offset. \<open>predef off n\<close> reads \<open>n\<close> bytes at \<open>off\<close> from
  the row of \<open>Predefine_Data_Buf\<close> for the current frame and slot.
\<close>

type_synonym predef = "nat \<Rightarrow> nat \<Rightarrow> u8 list res"

definition macDlSchBuildPayload ::
    "'e data_path \<Rightarrow> TestMacPdschMode_e \<Rightarrow> predef \<Rightarrow> u32 \<Rightarrow> u32 \<Rightarrow> 'e \<Rightarrow> (u32 \<times> 'e) res" where
  "macDlSchBuildPayload dp mode predef sz cfgOffset e =
     (case dp_alloc dp sz e of
        (None, e') \<Rightarrow> Inr (cfgOffset, e')
      | (Some off, e') \<Rightarrow>
          rbind (case mode of
              PDSCHMODE_AUTO_MODE \<Rightarrow> Inr (payloadLoop (unat sz))
            | PDSCHMODE_LOAD_MODE \<Rightarrow> predef (unat cfgOffset) (unat sz))
            (\<lambda>bs. Inr (off, dp_send dp off sz (Some bs) e')))"

text \<open>One TLV of a PDU: its payload is built, its value becomes the buffer offset, it is copied.\<close>

definition txTlv ::
    "'e data_path \<Rightarrow> TestMacPdschMode_e \<Rightarrow> predef \<Rightarrow> nat \<Rightarrow> packer \<times> 'e \<Rightarrow> (packer \<times> 'e) res" where
  "txTlv dp mode predef a pe =
     (let (p, e) = pe in
      rbind (fld16 (pk_in p) a L1DataTLV_t ''Tag'') (\<lambda>tag.
      rbind (if tag = 2 then
               rbind (fld32 (pk_in p) a L1DataTLV_t ''Length'') (\<lambda>len.
               rbind (fld32 (pk_in p) a L1DataTLV_t ''Value'') (\<lambda>val.
               rbind (macDlSchBuildPayload dp mode predef len val e) (\<lambda>(val', e').
               rbind (pk_put32 a L1DataTLV_t ''Value'' val' p) (\<lambda>p'. Inr (p', e')))))
             else Inr (p, e)) (\<lambda>(p1, e1).
      rbind (pk_copy a (csize L1DataTLV_t) p1) (\<lambda>p2. Inr (p2, e1)))))"

fun txTlvs ::
    "'e data_path \<Rightarrow> TestMacPdschMode_e \<Rightarrow> predef \<Rightarrow> nat \<Rightarrow> nat \<Rightarrow> packer \<times> 'e \<Rightarrow> (packer \<times> 'e) res" where
  "txTlvs dp mode predef 0 a pe = Inr pe"
| "txTlvs dp mode predef (Suc n) a pe =
     rbind (txTlv dp mode predef a pe) (txTlvs dp mode predef n (a + csize L1DataTLV_t))"

text \<open>
  A PDU of the request: the header is copied behind its TLVs and only then gets its length, which
  therefore reaches the request but not the message.
\<close>

definition txPdu ::
    "'e data_path \<Rightarrow> TestMacPdschMode_e \<Rightarrow> predef \<Rightarrow> packer \<times> 'e \<Rightarrow> (packer \<times> 'e) res" where
  "txPdu dp mode predef pe =
     (let (p, e) = pe; a = pk_off p; hdr = offsetof L1TxDataPduInfo_t ''TLVs''; dst = pk_pos p in
      rbind (fld32 (pk_in p) a L1TxDataPduInfo_t ''numTLV'') (\<lambda>n.
      rbind (txTlvs dp mode predef (unat n) (a + hdr) (pk_skip hdr p, e)) (\<lambda>(p1, e1).
      rbind (pk_patch a dst hdr p1) (\<lambda>p2.
      rbind (pk_put32 a L1TxDataPduInfo_t ''PDULength'' (of_nat (pk_off p2 - a)) p2) (\<lambda>p3.
        Inr (p3, e1))))))"

fun txPdus ::
    "'e data_path \<Rightarrow> TestMacPdschMode_e \<Rightarrow> predef \<Rightarrow> nat \<Rightarrow> packer \<times> 'e \<Rightarrow> (packer \<times> 'e) res" where
  "txPdus dp mode predef 0 pe = Inr pe"
| "txPdus dp mode predef (Suc n) pe = rbind (txPdu dp mode predef pe) (txPdus dp mode predef n)"

definition TxdataParams ::
    "'e data_path \<Rightarrow> TestMacPdschMode_e \<Rightarrow> predef \<Rightarrow> u16 \<Rightarrow> u16 \<Rightarrow> u8 list \<Rightarrow> u8 list \<Rightarrow> 'e \<Rightarrow>
      (packer \<times> 'e) res" where
  "TxdataParams dp mode predef sfn slot txdata out e =
     (let p0 = \<lparr>pk_in = txdata, pk_out = out, pk_off = 0, pk_pos = 0\<rparr> in
      rbind (pk_put16 0 L1TXDATAREQ_t ''SFN'' sfn p0) (\<lambda>p.
      rbind (pk_put16 0 L1TXDATAREQ_t ''Slot'' slot p) (\<lambda>p.
      rbind (pk_copy 0 (offsetof L1TXDATAREQ_t ''pdus'') p) (\<lambda>p.
      rbind (fld16 (pk_in p) 0 L1TXDATAREQ_t ''numPDUs'') (\<lambda>n.
        txPdus dp mode predef (unat n) (p, e))))))"

section \<open>What every packer does\<close>

lemma pk_le_skip [simp]: "pk_le p (pk_skip n p)"
  by (simp add: pk_le_def pk_skip_def)

lemma pk_field_le: "pk_field a T f n p = Inr q \<Longrightarrow> pk_le p q"
  by (simp add: pk_field_def pk_copy_le)

lemma pk_when_le: "(\<And>p q. op p = Inr q \<Longrightarrow> pk_le p q) \<Longrightarrow> pk_when b op p = Inr q \<Longrightarrow> pk_le p q"
  by (auto simp: pk_when_def split: if_splits)

lemma pk_repeat_le: "(\<And>p q. op p = Inr q \<Longrightarrow> pk_le p q) \<Longrightarrow> pk_repeat op n p = Inr q \<Longrightarrow> pk_le p q"
  by (induction n arbitrary: p) (auto simp: rbind_Inr_iff intro: pk_le_trans)

text \<open>A step that goes forward and leaves the request alone.\<close>

definition pk_fwd :: "packer \<Rightarrow> packer \<Rightarrow> bool" where
  "pk_fwd p q \<longleftrightarrow> pk_le p q \<and> pk_in q = pk_in p \<and> (pk_pos p < pk_pos q \<longrightarrow> pk_pos q \<le> length (pk_out p))"

named_theorems fwd \<open>forward steps\<close>

lemma pk_fwd_refl [simp]: "pk_fwd p p"
  by (simp add: pk_fwd_def)

lemma pk_fwd_trans: "pk_fwd p q \<Longrightarrow> pk_fwd q r \<Longrightarrow> pk_fwd p r"
  unfolding pk_fwd_def by (auto intro: pk_le_trans) (auto simp: pk_le_def)

text \<open>The same for a computation that may fault, with one rule per construct of the model.\<close>

definition fwd_res :: "packer \<Rightarrow> packer res \<Rightarrow> bool" where
  "fwd_res p m \<longleftrightarrow> (\<forall>q. m = Inr q \<longrightarrow> pk_fwd p q)"

lemma fwd_resD: "fwd_res p m \<Longrightarrow> m = Inr q \<Longrightarrow> pk_fwd p q"
  by (simp add: fwd_res_def)

lemma fwd_bind:
  assumes "fwd_res p m" and "\<And>x. fwd_res x (k x)"
  shows "fwd_res p (rbind m k)"
  unfolding fwd_res_def
proof (intro allI impI)
  fix q
  assume "rbind m k = Inr q"
  then obtain x where "m = Inr x" "k x = Inr q" by (auto simp: rbind_Inr_iff)
  then show "pk_fwd p q" using assms pk_fwd_trans [of p x q] by (auto simp: fwd_res_def)
qed

lemma fwd_read8: "(\<And>x :: u8. fwd_res p (k x)) \<Longrightarrow> fwd_res p (rbind m k)"
  by (auto simp: fwd_res_def rbind_Inr_iff)

lemma fwd_read16: "(\<And>x :: u16. fwd_res p (k x)) \<Longrightarrow> fwd_res p (rbind m k)"
  by (auto simp: fwd_res_def rbind_Inr_iff)

lemma fwd_ok: "fwd_res p (Inr p)"
  by (simp add: fwd_res_def)

lemma fwd_if: "fwd_res p m \<Longrightarrow> fwd_res p n \<Longrightarrow> fwd_res p (if b then m else n)"
  by simp

lemma fwd_copy: "fwd_res p (pk_copy src n p)"
  using pk_copy_le [of src n p] by (auto simp: fwd_res_def pk_fwd_def pk_copy_Inr)

lemma fwd_array: "fwd_res p (pk_array src n c p)"
  by (induction src n c p rule: pk_array.induct) (simp_all add: fwd_ok fwd_bind fwd_copy)

lemma fwd_seq: "fwd_res p (pk_seq n c p)"
  by (induction n c p rule: pk_seq.induct) (simp_all add: fwd_ok fwd_bind fwd_copy)

lemma fwd_field: "fwd_res p (pk_field a T f n p)"
  by (simp add: pk_field_def fwd_copy)

lemma fwd_when: "fwd_res p (op p) \<Longrightarrow> fwd_res p (pk_when b op p)"
  by (simp add: pk_when_def fwd_ok)

lemma fwd_repeat: "(\<And>p. fwd_res p (op p)) \<Longrightarrow> fwd_res p (pk_repeat op n p)"
  by (induction n arbitrary: p) (simp_all add: fwd_ok fwd_bind)

lemma fwd_beam: "(\<And>i q. fwd_res q (k (i, q))) \<Longrightarrow> fwd_res p (rbind (dlBeam bf p) k)"
  unfolding dlBeam_def rbind_assoc
  by (intro fwd_read16 fwd_bind [OF fwd_seq] fwd_read8) simp

lemma fwd_dciLoop: "fwd_res p (dciLoop dcis num i p)"
proof (induction dcis num i p rule: dciLoop.induct)
  case (1 dcis num i p)
  show ?case
  proof (cases "i < num")
    case True
    let ?a = "dcis + i * csize L1DlDciInfo_t"
    have "pk_fwd p q" if ok: "dciLoop dcis num i p = Inr q" for q
    proof -
      obtain p1 r where c: "pk_copy ?a (csize L1DlDciInfo_t) p = Inr p1"
        and b: "dlBeam (?a + offsetof L1DlDciInfo_t ''BeamformingInfo'') p1 = Inr r"
        and l: "dciLoop dcis num (fst r + 1) (snd r) = Inr q"
        using ok True unfolding dciLoop.simps [of dcis num i] Let_def rbind_Inr_iff if_P [OF True]
        by blast
      have "fwd_res p1 (rbind (dlBeam (?a + offsetof L1DlDciInfo_t ''BeamformingInfo'') p1)
          (\<lambda>(i, q). Inr q))"
        by (rule fwd_beam) (simp add: fwd_ok)
      then have "pk_fwd p1 (snd r)" using b by (auto simp: fwd_res_def split: prod.splits)
      with fwd_copy c 1 [OF True refl c b] l show ?thesis
        unfolding fwd_res_def by (meson pk_fwd_trans)
    qed
    then show ?thesis by (simp add: fwd_res_def)
  qed (simp add: dciLoop.simps fwd_ok)
qed

lemmas fwd_rules = fwd_bind fwd_read8 fwd_read16 fwd_ok fwd_if fwd_copy fwd_array fwd_seq fwd_field
  fwd_when fwd_repeat fwd_dciLoop

lemma fwd_dlPdcch: "fwd_res p (dlPdcch a p)"
  unfolding dlPdcch_def Let_def by (intro fwd_rules)

lemma fwd_dlRateMatching: "fwd_res p (dlRateMatching a p)"
  unfolding dlRateMatching_def by (intro fwd_rules)

lemma fwd_dlPdsch: "fwd_res p (dlPdsch a p)"
  unfolding dlPdsch_def by (intro fwd_beam fwd_rules fwd_dlRateMatching) (simp add: fwd_ok)

lemma fwd_dlPduBody: "fwd_res p (dlPduBody ty a p)"
  unfolding dlPduBody_def dlCsiRs_def dlSsb_def
  by (intro fwd_beam fwd_rules fwd_dlPdcch fwd_dlPdsch) (simp_all add: fwd_ok)

lemma fwd_ulUciInfo: "fwd_res p (ulUciInfo a p)"
  unfolding ulUciInfo_def Let_def by (intro fwd_rules)

lemma fwd_ulPtrs: "fwd_res p (ulPtrs a p)"
  unfolding ulPtrs_def Let_def by (intro fwd_rules)

lemma fwd_ulPduBody: "fwd_res p (ulPduBody ty a p)"
  unfolding ulPduBody_def ulPusch_def ulPuschUci_def ulPucch_def Let_def
  by (intro fwd_rules fwd_ulUciInfo fwd_ulPtrs)

lemma fwd_cfgPrachs: "fwd_res p (cfgPrachs a k p)"
  by (induction a k p rule: cfgPrachs.induct)
    (simp_all only: cfgPrachs.simps cfgPrach_def Let_def, (intro fwd_rules | assumption)+)

lemma fwd_cfgMaps: "fwd_res p (cfgMaps a k p)"
  by (induction a k p rule: cfgMaps.induct)
    (simp_all only: cfgMaps.simps cfgMap_def Let_def, (intro fwd_rules | assumption)+)

lemma fwd_cfgBeams: "fwd_res p (cfgBeams n k p)"
  by (induction n k p rule: cfgBeams.induct) (simp_all add: fwd_rules)

lemma fwd_cfgLayers: "fwd_res p (cfgLayers n k p)"
  by (induction n k p rule: cfgLayers.induct) (simp_all add: fwd_rules)

lemma fwd_cfgPms: "fwd_res p (cfgPms k p)"
proof (induction k arbitrary: p)
  case (Suc k)
  show ?case unfolding cfgPms.simps Let_def by (intro fwd_rules fwd_cfgLayers Suc.IH)
qed (simp add: fwd_ok)

lemma fwd_cfgFixed: "fwd_res p (cfgFixed f n p)"
  by (simp add: cfgFixed_def fwd_copy)

section \<open>The TTI messages parse\<close>

lemma nth_take_overlay_at:
  "i + length bs \<le> length xs \<Longrightarrow> k < length bs \<Longrightarrow> overlay xs i bs ! (i + k) = bs ! k"
  by (simp add: nth_overlay)

lemma rd_u16_cong:
  "length xs = length ys \<Longrightarrow> (k + 1 < length xs \<Longrightarrow> xs ! k = ys ! k \<and> xs ! (k + 1) = ys ! (k + 1)) \<Longrightarrow>
    rd_u16 xs k = rd_u16 ys k"
  by (auto simp: rd_u16_def rd_def)

lemma rd_u16_Inr: "rd_u16 xs k = Inr v \<Longrightarrow> k + 1 < length xs \<and> v = u16_of_bytes (xs ! k) (xs ! (k + 1))"
  by (auto simp: rd_u16_def rd_def split: if_splits)

lemma pduStep_ok:
  assumes T: "offsetof T ''PDUType'' = 0" "offsetof T ''PDUSize'' = 2" "offsetof T cfg = 4"
    and body: "\<And>ty a p. fwd_res p (body ty a p)"
    and step: "pduStep T cfg body p = Inr q" and sync: "pk_off p = pk_pos p"
  shows "pk_le p q \<and> pk_pos p + 4 \<le> pk_pos q \<and> pk_pos q \<le> length (pk_out q) \<and>
    rd_u16 (pk_out q) (pk_pos p + 2) = Inr (of_nat (pk_pos q - pk_pos p)) \<and>
    (\<forall>i. i < pk_pos p \<or> pk_pos p + 4 \<le> i \<longrightarrow> pk_in q ! i = pk_in p ! i)"
proof -
  define a where "a = pk_pos p"
  obtain ty p1 p2 where
    b: "body ty (a + 4) (pk_skip 4 p) = Inr p1" and
    u: "pk_put16 a T ''PDUSize'' (of_nat (pk_off p1 - a)) p1 = Inr p2" and
    c: "pk_patch a a 4 p2 = Inr q"
    using step unfolding pduStep_def Let_def T sync a_def [symmetric] by (auto simp: rbind_Inr_iff)
  define v where "v = (of_nat (pk_off p1 - a) :: u16)"
  have f: "pk_fwd (pk_skip 4 p) p1" using body b by (rule fwd_resD)
  then have le1: "pk_le p p1" by (auto simp: pk_fwd_def intro: pk_le_trans [OF pk_le_skip])
  have p2: "a + 4 \<le> length (pk_in p1)" "p2 = p1\<lparr>pk_in := overlay (pk_in p1) (a + 2) (bytes_of_u16 v)\<rparr>"
    using u v_def by (auto simp: pk_put16_def put16_def T wr_block_Inr rbind_Inr_iff simp del: add_2_eq_Suc' add_2_eq_Suc)
  have q: "a + 4 \<le> length (pk_out p1)"
    "q = p2\<lparr>pk_out := overlay (pk_out p1) a (take 4 (drop a (pk_in p2)))\<rparr>"
    using c p2 by (auto simp: pk_patch_def rd_block_Inr wr_block_Inr rbind_Inr_iff min_absorb2)
  have len: "length (take 4 (drop a (pk_in p2))) = 4" using p2 by simp
  have pos: "pk_pos q = pk_pos p1" "pk_off q = pk_off p1" using p2 q by simp_all
  have ge: "a + 4 \<le> pk_pos p1" "pk_off p1 = pk_pos p1"
    using f sync by (auto simp: pk_fwd_def pk_le_def pk_skip_def a_def)
  have bnd: "pk_pos p1 \<le> length (pk_out p1)"
    using f q(1) ge by (auto simp: pk_fwd_def pk_le_def pk_skip_def a_def)
  have out: "pk_out q ! i = pk_out p1 ! i" if "i < a \<or> a + 4 \<le> i" "i < length (pk_out p1)" for i
    using that q len by (simp add: nth_overlay_out)
  have le: "pk_le p q"
    using le1 pos ge out q p2 len by (auto simp: pk_le_def a_def)
  have in_out: "pk_out q ! (a + k) = pk_in p2 ! (a + k)" if "k < 4" for k
    using that q len p2 by (simp add: nth_overlay)
  have sz: "pk_in p2 ! (a + 2) = bytes_of_u16 v ! 0" "pk_in p2 ! (a + 3) = bytes_of_u16 v ! 1"
    using p2 by (auto simp: nth_overlay)
  have "rd_u16 (pk_out q) (a + 2) = Inr v"
    using rd_u16_ok [of "a + 2" "pk_out q"] in_out [of 2] in_out [of 3] sz q(1) le1 le
    by (simp add: pk_le_def bytes_of_u16_def numeral_3_eq_3)
  moreover have "pk_in q ! i = pk_in p ! i" if "i < a \<or> a + 4 \<le> i" for i
  proof -
    have "pk_in q ! i = pk_in p1 ! i" using that p2 q by (auto simp: nth_overlay_out)
    then show ?thesis using f by (simp add: pk_fwd_def pk_skip_def)
  qed
  ultimately show ?thesis using le ge pos bnd le1 by (simp add: a_def v_def pk_le_def)
qed

text \<open>A receiver of a message: it follows the sizes of the PDUs, then the sizes of the groups.\<close>

fun skip_pdus :: "u8 list \<Rightarrow> nat \<Rightarrow> nat \<Rightarrow> nat res" where
  "skip_pdus m 0 off = Inr off"
| "skip_pdus m (Suc n) off = rbind (rd_u16 m (off + 2)) (\<lambda>sz. skip_pdus m n (off + unat sz))"

fun skip_groups :: "u8 list \<Rightarrow> nat \<Rightarrow> nat \<Rightarrow> nat res" where
  "skip_groups m 0 off = Inr off"
| "skip_groups m (Suc n) off = rbind (rd_u8 m off) (\<lambda>ues. skip_groups m n (off + 4 + 4 * unat ues))"

text \<open>Messages that agree on everything written so far.\<close>

definition agree :: "nat \<Rightarrow> u8 list \<Rightarrow> u8 list \<Rightarrow> bool" where
  "agree k m m' \<longleftrightarrow> length m' = length m \<and> (\<forall>i < k. i < length m \<longrightarrow> m' ! i = m ! i)"

lemma agree_le: "pk_le p q \<Longrightarrow> agree (pk_pos q) (pk_out q) m \<Longrightarrow> agree (pk_pos p) (pk_out p) m"
  by (auto simp: agree_def pk_le_def)

lemma agree_refl [simp]: "agree k m m"
  by (simp add: agree_def)

lemma pk_sync_le: "pk_le p q \<Longrightarrow> pk_off p = pk_pos p \<Longrightarrow> pk_off q = pk_pos q"
  by (auto simp: pk_le_def)

definition pdu_shape :: "ctype \<Rightarrow> string \<Rightarrow> (u16 \<Rightarrow> nat \<Rightarrow> packer \<Rightarrow> packer res) \<Rightarrow> bool" where
  "pdu_shape T cfg body \<longleftrightarrow> offsetof T ''PDUType'' = 0 \<and> offsetof T ''PDUSize'' = 2 \<and>
     offsetof T cfg = 4 \<and> (\<forall>ty a p. fwd_res p (body ty a p))"

lemma dl_pdu_shape: "pdu_shape L1DlPduInfo_t ''DlPDUConfig'' dlPduBody"
  by (simp add: pdu_shape_def layout fwd_dlPduBody)

lemma ul_pdu_shape: "pdu_shape L1UlPduInfo_t ''UlPDUConfig'' ulPduBody"
  by (simp add: pdu_shape_def layout fwd_ulPduBody)

lemma pduStep_shape:
  assumes "pdu_shape T cfg body" and "pduStep T cfg body p = Inr q" and "pk_off p = pk_pos p"
  shows "pk_le p q" "pk_pos p + 4 \<le> pk_pos q" "pk_pos q \<le> length (pk_out q)"
    and "rd_u16 (pk_out q) (pk_pos p + 2) = Inr (of_nat (pk_pos q - pk_pos p))"
    and "i < pk_pos p \<or> pk_pos p + 4 \<le> i \<Longrightarrow> pk_in q ! i = pk_in p ! i"
  using pduStep_ok [OF _ _ _ _ assms(2,3)] assms(1) by (auto simp: pdu_shape_def)

lemma pdus_le:
  "pdu_shape T cfg body \<Longrightarrow> pk_repeat (pduStep T cfg body) n p = Inr q \<Longrightarrow> pk_off p = pk_pos p \<Longrightarrow>
    pk_le p q \<and> (pk_pos p \<le> length (pk_out p) \<longrightarrow> pk_pos q \<le> length (pk_out q)) \<and>
    (\<forall>i < pk_pos p. pk_in q ! i = pk_in p ! i)"
proof (induction n arbitrary: p)
  case (Suc n)
  obtain p1 where s: "pduStep T cfg body p = Inr p1"
    and r: "pk_repeat (pduStep T cfg body) n p1 = Inr q"
    using Suc.prems(2) by (auto simp: rbind_Inr_iff)
  note st = pduStep_shape [OF Suc.prems(1) s Suc.prems(3)]
  note ih = Suc.IH [OF Suc.prems(1) r pk_sync_le [OF st(1) Suc.prems(3)]]
  show ?case using ih st pk_le_trans [OF st(1)] by auto
qed auto

lemma pdus_parse:
  assumes "pdu_shape T cfg body" and "pk_repeat (pduStep T cfg body) n p = Inr q"
    and "pk_off p = pk_pos p" and "length (pk_out p) \<le> 2 ^ 16" and "agree (pk_pos q) (pk_out q) m"
    and "4 \<le> pk_pos p"
  shows "skip_pdus m n (pk_pos p) = Inr (pk_pos q)"
  using assms(2-)
proof (induction n arbitrary: p)
  case (Suc n)
  obtain p1 where s: "pduStep T cfg body p = Inr p1"
    and r: "pk_repeat (pduStep T cfg body) n p1 = Inr q"
    using Suc.prems(1) by (auto simp: rbind_Inr_iff)
  note st = pduStep_shape [OF assms(1) s Suc.prems(2)]
  note sync = pk_sync_le [OF st(1) Suc.prems(2)]
  have len: "length (pk_out p1) = length (pk_out p)" using st(1) by (simp add: pk_le_def)
  have ag: "agree (pk_pos p1) (pk_out p1) m"
    using pdus_le [OF assms(1) r sync] Suc.prems(4) agree_le by blast
  have "rd_u16 m (pk_pos p + 2) = rd_u16 (pk_out p1) (pk_pos p + 2)"
    using ag st(2) by (intro rd_u16_cong) (auto simp: agree_def)
  moreover have "pk_pos p1 - pk_pos p < 2 ^ 16"
    using st(2,3) Suc.prems(3,5) len by simp
  then have "unat (of_nat (pk_pos p1 - pk_pos p) :: u16) = pk_pos p1 - pk_pos p"
    by (simp add: unsigned_of_nat take_bit_nat_eq_self del: of_nat_diff)
  ultimately show ?case
    using Suc.IH [OF r sync] Suc.prems(3-5) st(2,4) len by (simp del: of_nat_diff)
qed simp

lemma pk_array_pos: "pk_array src n c p = Inr q \<Longrightarrow> pk_pos q = pk_pos p + c * n"
  by (induction src n c p rule: pk_array.induct) (auto simp: rbind_Inr_iff pk_copy_Inr)

definition group_shape :: "ctype \<Rightarrow> bool" where
  "group_shape T \<longleftrightarrow> offsetof T ''Ues'' = 4 \<and> offsetof T ''nUe'' = 0"

lemma group_shapes: "group_shape L1DlGroupInfo_t" "group_shape L1UlGroupInfo_t"
  by (simp_all add: group_shape_def layout)

lemma groupStep_ok:
  assumes "group_shape T" and "groupStep T p = Inr q" and "pk_off p = pk_pos p"
  shows "pk_fwd p q \<and> pk_pos p < pk_pos q \<and>
    (\<exists>ues. rd_u8 (pk_out q) (pk_pos p) = Inr ues \<and> pk_pos q = pk_pos p + 4 + 4 * unat ues)"
proof -
  obtain p1 ues where c: "pk_copy (pk_pos p) 4 p = Inr p1"
    and n: "rd_u8 (pk_in p) (pk_pos p) = Inr ues"
    and r: "pk_array (pk_pos p + 4) 4 (unat ues) p1 = Inr q"
    using assms by (auto simp: groupStep_def group_shape_def Let_def rbind_Inr_iff fld8_def layout
        pk_copy_Inr)
  have f: "pk_fwd p p1" "pk_fwd p1 q"
    using fwd_copy [of p] fwd_array [of p1] c r by (auto simp: fwd_res_def)
  have p1: "pk_out p1 ! pk_pos p = ues" "pk_pos p1 = pk_pos p + 4" "pk_pos p < length (pk_out p1)"
    using c n by (auto simp: pk_copy_Inr nth_overlay rd_u8_def rd_def split: if_splits)
  then have "rd_u8 (pk_out q) (pk_pos p) = Inr ues"
    using f(2) by (auto simp: rd_u8_def pk_fwd_def pk_le_def)
  then show ?thesis
    using pk_fwd_trans [OF f] p1 pk_array_pos [OF r] by simp
qed

lemma groups_parse:
  assumes "group_shape T" and "pk_repeat (groupStep T) n p = Inr q" and "pk_off p = pk_pos p"
    and "agree (pk_pos q) (pk_out q) m"
  shows "pk_fwd p q \<and> skip_groups m n (pk_pos p) = Inr (pk_pos q)"
  using assms(2-)
proof (induction n arbitrary: p)
  case (Suc n)
  obtain p1 where s: "groupStep T p = Inr p1" and r: "pk_repeat (groupStep T) n p1 = Inr q"
    using Suc.prems(1) by (auto simp: rbind_Inr_iff)
  obtain ues where st: "pk_fwd p p1" "pk_pos p < pk_pos p1"
    "rd_u8 (pk_out p1) (pk_pos p) = Inr ues" "pk_pos p1 = pk_pos p + 4 + 4 * unat ues"
    using groupStep_ok [OF assms(1) s Suc.prems(2)] by auto
  have sync: "pk_off p1 = pk_pos p1" using st(1) Suc.prems(2) pk_sync_le by (auto simp: pk_fwd_def)
  note ih = Suc.IH [OF r sync Suc.prems(3)]
  have "agree (pk_pos p1) (pk_out p1) m"
    using ih Suc.prems(3) agree_le by (auto simp: pk_fwd_def)
  then have "rd_u8 m (pk_pos p) = Inr ues"
    using st(2,3) by (auto simp: rd_u8_def rd_def agree_def split: if_splits)
  then show ?case using ih st pk_fwd_trans by auto
qed simp

text \<open>Both TTI packers are the same walk over different PDUs.\<close>

definition ttiParams ::
    "(packer \<Rightarrow> packer res) \<Rightarrow> (packer \<Rightarrow> packer res) \<Rightarrow> u16 \<Rightarrow> u16 \<Rightarrow> u8 list \<Rightarrow> u8 list \<Rightarrow> packer res" where
  "ttiParams pdu grp sfn slot m out =
     rbind (wr_block m 0 (bytes_of_u16 sfn)) (\<lambda>m1.
     rbind (wr_block m1 2 (bytes_of_u16 slot)) (\<lambda>m2.
     rbind (pk_copy 0 20 \<lparr>pk_in = m2, pk_out = out, pk_off = 0, pk_pos = 0\<rparr>) (\<lambda>p.
     rbind (rd_u16 (pk_in p) 4) (\<lambda>n.
     rbind (pk_repeat pdu (unat n) p) (\<lambda>p.
     rbind (rd_u8 (pk_in p) 7) (\<lambda>g. pk_repeat grp (unat g) p))))))"

lemma DlttiParams_tti:
  "DlttiParams = ttiParams (pduStep L1DlPduInfo_t ''DlPDUConfig'' dlPduBody) (groupStep L1DlGroupInfo_t)"
  by (simp add: fun_eq_iff DlttiParams_def ttiParams_def dlPdu_def dlGroup_def pk_put16_def put16_def
      fld16_def fld8_def layout rbind_assoc numeral_2_eq_2)

lemma UlttiParams_tti:
  "UlttiParams = ttiParams (pduStep L1UlPduInfo_t ''UlPDUConfig'' ulPduBody) (groupStep L1UlGroupInfo_t)"
  by (simp add: fun_eq_iff UlttiParams_def ttiParams_def ulPdu_def ulGroup_def pk_put16_def put16_def
      fld16_def fld8_def layout rbind_assoc numeral_2_eq_2)

lemma rd_u16_overlay:
  "i + 2 \<le> length m \<Longrightarrow> rd_u16 (overlay m i (bytes_of_u16 v)) i = Inr v"
  by (simp add: rd_u16_ok nth_overlay bytes_of_u16_def)

lemma tti_parse:
  assumes sh: "pdu_shape T cfg body" "group_shape G"
    and run: "ttiParams (pduStep T cfg body) (groupStep G) sfn slot m out = Inr q"
    and len: "length out \<le> 2 ^ 16"
  shows "\<exists>n g e. rd_u16 (pk_out q) 0 = Inr sfn \<and> rd_u16 (pk_out q) 2 = Inr slot \<and>
    rd_u16 (pk_out q) 4 = Inr n \<and> rd_u8 (pk_out q) 7 = Inr g \<and>
    skip_pdus (pk_out q) (unat n) 20 = Inr e \<and> skip_groups (pk_out q) (unat g) e = Inr (pk_off q) \<and>
    pk_off q \<le> length out \<and> drop (pk_off q) (pk_out q) = drop (pk_off q) out"
proof -
  let ?m2 = "overlay (overlay m 0 (bytes_of_u16 sfn)) 2 (bytes_of_u16 slot)"
  let ?p0 = "\<lparr>pk_in = ?m2, pk_out = out, pk_off = 0, pk_pos = 0\<rparr>"
  obtain p n p1 g where l: "2 \<le> length m" "4 \<le> length m"
    and c: "pk_copy 0 20 ?p0 = Inr p" and n: "rd_u16 (pk_in p) 4 = Inr n"
    and r: "pk_repeat (pduStep T cfg body) (unat n) p = Inr p1"
    and g: "rd_u8 (pk_in p1) 7 = Inr g" and s: "pk_repeat (groupStep G) (unat g) p1 = Inr q"
    using run by (auto simp: ttiParams_def rbind_Inr_iff wr_block_Inr)
  have p: "20 \<le> length ?m2" "20 \<le> length out" "pk_in p = ?m2" "pk_off p = 20" "pk_pos p = 20"
    "pk_out p = overlay out 0 (take 20 ?m2)"
    using c by (auto simp: pk_copy_Inr)
  have out: "pk_out p ! i = ?m2 ! i" if "i < 20" for i
    using that p by (simp add: nth_overlay)
  have lp: "length (pk_out p) = length out" using p by simp
  note d = pdus_le [OF sh(1) r]
  have d: "pk_le p p1" "pk_pos p1 \<le> length (pk_out p1)" "\<And>i. i < 20 \<Longrightarrow> pk_in p1 ! i = ?m2 ! i"
    using pdus_le [OF sh(1) r] p lp by auto
  have sync: "pk_off p1 = pk_pos p1" using pk_sync_le [OF d(1)] p by simp
  note gr = groups_parse [OF sh(2) s sync]
  have le: "pk_le p1 q" using gr [of "pk_out q"] by (simp add: pk_fwd_def)
  have leq: "pk_le p q" by (rule pk_le_trans [OF d(1) le])
  have syncq: "pk_off q = pk_pos q" using pk_sync_le [OF le sync] .
  have lq: "length (pk_out q) = length out" "length (pk_in p1) = length ?m2"
    using leq d(1) lp p by (auto simp: pk_le_def)
  have hd: "pk_out q ! i = ?m2 ! i" if "i < 20" for i
    using leq that out [OF that] p lp by (auto simp: pk_le_def)
  have cong: "rd_u16 (pk_out q) k = rd_u16 ?m2 k" if "k + 1 < 20" for k
    using that hd p lq l by (simp add: rd_u16_def)
  have A: "rd_u16 (pk_out q) 0 = Inr sfn"
  proof -
    have "rd_u16 ?m2 0 = rd_u16 (overlay m 0 (bytes_of_u16 sfn)) 0"
      using l by (intro rd_u16_cong) (auto simp: nth_overlay_out)
    then show ?thesis using cong [of 0] rd_u16_overlay [of 0 m sfn] l by simp
  qed
  have B: "rd_u16 (pk_out q) 2 = Inr slot"
    using cong [of 2] l rd_u16_overlay [of 2 "overlay m 0 (bytes_of_u16 sfn)" slot] by simp
  have C: "rd_u16 (pk_out q) 4 = Inr n" using cong [of 4] n p by simp
  have D: "rd_u8 (pk_out q) 7 = Inr g"
    using g hd [of 7] d(3) [of 7] lq p by (simp add: rd_u8_def rd_def split: if_splits)
  have "agree (pk_pos p1) (pk_out p1) (pk_out q)" using agree_le [OF le] by simp
  then have E: "skip_pdus (pk_out q) (unat n) 20 = Inr (pk_pos p1)"
    using pdus_parse [OF sh(1) r _ _ _, of "pk_out q"] p lp len by simp
  have F: "skip_groups (pk_out q) (unat g) (pk_pos p1) = Inr (pk_off q)"
    using gr [of "pk_out q"] syncq by simp
  have G: "pk_off q \<le> length out"
    using gr [of "pk_out q"] d(2) lq syncq d(1) lp by (auto simp: pk_fwd_def pk_le_def)
  have "pk_out q ! i = out ! i" if "pk_pos q \<le> i" "i < length out" for i
  proof -
    have "pk_le ?p0 q" using pk_le_trans [OF pk_copy_le [OF c] leq] .
    then show ?thesis using that by (simp add: pk_le_def)
  qed
  then have H: "drop (pk_off q) (pk_out q) = drop (pk_off q) out"
    using lq syncq by (intro nth_equalityI) auto
  show ?thesis using A B C D E F G H by blast
qed

text \<open>
  C7: Whatever the request holds, a TTI message the packers produce is well formed: its header has
  the frame and slot of the MAC, a receiver that follows the PDU sizes and then the group sizes of
  the message ends exactly at the length the packer returns, and nothing behind it is written.
\<close>

theorem tti_messages_parse:
  assumes "DlttiParams sfn slot m out = Inr q \<or> UlttiParams sfn slot m out = Inr q"
    and "length out \<le> 2 ^ 16"
  shows "\<exists>n g e. rd_u16 (pk_out q) 0 = Inr sfn \<and> rd_u16 (pk_out q) 2 = Inr slot \<and>
    rd_u16 (pk_out q) 4 = Inr n \<and> rd_u8 (pk_out q) 7 = Inr g \<and>
    skip_pdus (pk_out q) (unat n) 20 = Inr e \<and> skip_groups (pk_out q) (unat g) e = Inr (pk_off q) \<and>
    pk_off q \<le> length out \<and> drop (pk_off q) (pk_out q) = drop (pk_off q) out"
  using assms tti_parse [OF dl_pdu_shape group_shapes(1)] tti_parse [OF ul_pdu_shape group_shapes(2)]
  unfolding DlttiParams_tti UlttiParams_tti by blast

text \<open>A request with one SSB PDU and one group of two UEs.\<close>

definition ssb_req :: "u8 list" where
  "ssb_req = bytes_of_u32 0 @ bytes_of_u16 1 @ [1, 1] @ replicate 12 0 @
     bytes_of_u16 3 @ bytes_of_u16 0 @ [7, 0, 1, 0] @ bytes_of_u32 99 @ replicate 8 0 @
     [2, 0, 0, 0] @ replicate 8 5"

lemma ssb_req_runs: "(case DlttiParams 513 7 ssb_req (replicate 100 0) of
    Inr q \<Rightarrow> pk_off q = 52 | Inl f \<Rightarrow> False)"
  by code_simp

theorem tti_messages_parse_witness:
  "\<exists>q n g e. DlttiParams 513 7 ssb_req (replicate 100 0) = Inr q \<and>
    rd_u16 (pk_out q) 0 = Inr 513 \<and> rd_u16 (pk_out q) 4 = Inr n \<and> rd_u8 (pk_out q) 7 = Inr g \<and>
    skip_pdus (pk_out q) (unat n) 20 = Inr e \<and> skip_groups (pk_out q) (unat g) e = Inr 52"
proof -
  obtain q where q: "DlttiParams 513 7 ssb_req (replicate 100 0) = Inr q" "pk_off q = 52"
    using ssb_req_runs by (auto split: sum.splits)
  have "length (replicate 100 (0 :: u8)) \<le> 2 ^ 16" by simp
  from tti_messages_parse [OF disjI1 [OF q(1)] this, unfolded q(2)]
  obtain n g e where "rd_u16 (pk_out q) 0 = Inr 513" "rd_u16 (pk_out q) 4 = Inr n" "rd_u8 (pk_out q) 7 = Inr g"
    "skip_pdus (pk_out q) (unat n) 20 = Inr e" "skip_groups (pk_out q) (unat g) e = Inr 52"
    by blast
  with q(1) show ?thesis by blast
qed

section \<open>The shared counter of the PDCCH loop\<close>

lemma fwd_pk_in: "fwd_res p m \<Longrightarrow> m = Inr q \<Longrightarrow> pk_in q = pk_in p"
  by (auto simp: fwd_res_def pk_fwd_def)

lemma dlBeam_facts:
  assumes "dlBeam bf p = Inr r"
  shows "pk_in (snd r) = pk_in p"
    and "fld8 (pk_in p) bf L1TxPrecodingBeamformingPdu_t ''digBFInterfaces'' = Inr nb \<Longrightarrow> fst r = unat nb"
  using assms fwd_pk_in [OF fwd_seq] by (fastforce simp: dlBeam_def rbind_Inr_iff)+

lemma dciLoop_stuck:
  "2 \<le> num \<Longrightarrow> i = 1 \<Longrightarrow>
    fld8 (pk_in p) (dcis + 44 + 36) L1TxPrecodingBeamformingPdu_t ''digBFInterfaces'' = Inr 0 \<Longrightarrow>
    dciLoop dcis num i p \<noteq> Inr q"
proof (induction dcis num i p rule: dciLoop.induct)
  case (1 dcis num i p)
  have lt: "i < num" using 1 by simp
  have sz: "dcis + i * csize L1DlDciInfo_t + offsetof L1DlDciInfo_t ''BeamformingInfo'' = dcis + 44 + 36"
    using 1 by (simp add: layout)
  show ?case
  proof
    assume "dciLoop dcis num i p = Inr q"
    then obtain p1 r where c: "pk_copy (dcis + i * csize L1DlDciInfo_t) (csize L1DlDciInfo_t) p = Inr p1"
      and b: "dlBeam (dcis + i * csize L1DlDciInfo_t + offsetof L1DlDciInfo_t ''BeamformingInfo'') p1 = Inr r"
      and l: "dciLoop dcis num (fst r + 1) (snd r) = Inr q"
      unfolding dciLoop.simps [of dcis num i] Let_def rbind_Inr_iff if_P [OF lt] by blast
    have p1: "pk_in p1 = pk_in p" by (rule fwd_pk_in [OF fwd_copy c])
    have "fst r = 0" using dlBeam_facts(2) [OF b] 1(4) sz p1 by simp
    moreover have "pk_in (snd r) = pk_in p" using dlBeam_facts(1) [OF b] p1 by simp
    ultimately have "dciLoop dcis num (fst r + 1) (snd r) \<noteq> Inr q"
      using 1(1) [OF lt refl c b] 1(2-4) by simp
    with l show False by simp
  qed
qed

text \<open>
  C31: A PDCCH PDU with one DCI is packed by one round of the loop. With two or more DCIs of which
  the first two have no beam index, the loop never ends: the inner loops leave the shared counter
  at 0, the second DCI is packed again and again, and the program writes past any buffer.
\<close>

theorem pdcch_second_dci_never_ends:
  assumes "fld16 (pk_in p) a L1PdcchPduInfo_t ''numDlDci'' = Inr n"
    and "fld8 (pk_in p) (a + 28 + 36) L1TxPrecodingBeamformingPdu_t ''digBFInterfaces'' = Inr 0"
    and "fld8 (pk_in p) (a + 28 + 44 + 36) L1TxPrecodingBeamformingPdu_t ''digBFInterfaces'' = Inr 0"
  shows "(2 \<le> unat n \<longrightarrow> (\<forall>q. dlPdcch a p \<noteq> Inr q)) \<and>
    (unat n = 1 \<longrightarrow> dlPdcch a p = rbind (pk_copy a 28 p) (\<lambda>p1. rbind (pk_copy (a + 28) 44 p1) (\<lambda>p2.
      rbind (dlBeam (a + 28 + 36) p2) (\<lambda>r. Inr (snd r)))))"
proof -
  have one: "dlPdcch a p = rbind (pk_copy a 28 p) (\<lambda>p1. dciLoop (a + 28) (unat n) 0 p1)"
  proof (cases "pk_copy a 28 p")
    case (Inr p1)
    then show ?thesis using assms(1) fwd_pk_in [OF fwd_copy Inr] by (simp add: dlPdcch_def layout)
  qed (simp add: dlPdcch_def layout)
  have A: "dlPdcch a p \<noteq> Inr q" if n: "2 \<le> unat n" for q
  proof
    assume "dlPdcch a p = Inr q"
    then obtain p1 where c: "pk_copy a 28 p = Inr p1" and l: "dciLoop (a + 28) (unat n) 0 p1 = Inr q"
      using one by (auto simp: rbind_Inr_iff)
    have lt: "0 < unat n" using n by simp
    obtain p2 r where c2: "pk_copy (a + 28) 44 p1 = Inr p2" and b: "dlBeam (a + 28 + 36) p2 = Inr r"
      and l2: "dciLoop (a + 28) (unat n) (fst r + 1) (snd r) = Inr q"
      using l n by (auto simp: dciLoop.simps [of _ _ 0] rbind_Inr_iff layout Let_def)
    have i: "pk_in p2 = pk_in p" using fwd_pk_in [OF fwd_copy c2] fwd_pk_in [OF fwd_copy c] by simp
    have "fst r = 0" using dlBeam_facts(2) [OF b] i assms(2) by simp
    then show False
      using dciLoop_stuck [OF n, of 1 "snd r" "a + 28" q] l2 dlBeam_facts(1) [OF b] i assms(3) by simp
  qed
  have B: "dlPdcch a p = rbind (pk_copy a 28 p) (\<lambda>p1. rbind (pk_copy (a + 28) 44 p1) (\<lambda>p2.
      rbind (dlBeam (a + 28 + 36) p2) (\<lambda>r. Inr (snd r))))" if "unat n = 1"
  proof -
    have "dciLoop (a + 28) 1 0 = (\<lambda>p1. rbind (pk_copy (a + 28) 44 p1) (\<lambda>p2.
        rbind (dlBeam (a + 28 + 36) p2) (\<lambda>r. Inr (snd r))))"
      by (rule ext) (simp add: dciLoop.simps layout)
    then show ?thesis using one that by simp
  qed
  show ?thesis using A B by blast
qed

definition pdcch_req :: packer where
  "pdcch_req = \<lparr>pk_in = [0, 0, 2, 0] @ replicate 300 0, pk_out = replicate 1000 0, pk_off = 0, pk_pos = 0\<rparr>"

lemma pdcch_req_fields:
  "fld16 (pk_in pdcch_req) 0 L1PdcchPduInfo_t ''numDlDci'' = Inr 2"
  "fld8 (pk_in pdcch_req) (0 + 28 + 36) L1TxPrecodingBeamformingPdu_t ''digBFInterfaces'' = Inr 0"
  "fld8 (pk_in pdcch_req) (0 + 28 + 44 + 36) L1TxPrecodingBeamformingPdu_t ''digBFInterfaces'' = Inr 0"
  by code_simp+

theorem pdcch_second_dci_never_ends_witness: "\<forall>q. dlPdcch 0 pdcch_req \<noteq> Inr q"
  using pdcch_second_dci_never_ends [OF pdcch_req_fields] by simp

section \<open>TX data\<close>

lemma payloadLoop_spec:
  "length (payloadLoop n) = n \<and> (\<forall>i < n. payloadLoop n ! i = BsMacPayloads_pdsch ! (i mod 100))"
proof (induction n rule: less_induct)
  case (less n)
  show ?case
  proof (cases "n \<le> 100")
    case True
    then show ?thesis by (auto simp: payloadLoop.simps [of n] payloadLoop.simps [of 0] Let_def)
  next
    case False
    have ih: "length (payloadLoop (n - 100)) = n - 100"
      "\<And>i. i < n - 100 \<Longrightarrow> payloadLoop (n - 100) ! i = BsMacPayloads_pdsch ! (i mod 100)"
      using less [of "n - 100"] False by auto
    have p: "payloadLoop n = BsMacPayloads_pdsch @ payloadLoop (n - 100)"
      using False by (simp add: payloadLoop.simps [of n])
    show ?thesis unfolding p using ih False by (auto simp: nth_append mod_if [of _ 100])
  qed
qed

text \<open>
  In the automatic mode a payload of any size is the 100-byte pattern repeated, cut at the size
  asked for.
\<close>

theorem auto_payload_repeats_pattern:
  assumes "dp_alloc dp sz e = (Some off, e')"
  shows "\<exists>bs. macDlSchBuildPayload dp PDSCHMODE_AUTO_MODE predef sz cfgOffset e
      = Inr (off, dp_send dp off sz (Some bs) e') \<and>
    length bs = unat sz \<and> (\<forall>i < unat sz. bs ! i = BsMacPayloads_pdsch ! (i mod 100))"
  using payloadLoop_spec [of "unat sz"] assms by (auto simp: macDlSchBuildPayload_def)

definition log_path :: "(u32 \<times> u32 \<times> u8 list option) list data_path" where
  "log_path = \<lparr>dp_alloc = (\<lambda>sz l. (Some (0x100 * of_nat (length l)), l)),
     dp_send = (\<lambda>off sz bs l. l @ [(off, sz, bs)])\<rparr>"

lemma pattern_3: "BsMacPayloads_pdsch ! 3 = 0x6f"
  by code_simp

theorem auto_payload_repeats_pattern_witness:
  "\<exists>bs. macDlSchBuildPayload log_path PDSCHMODE_AUTO_MODE (\<lambda>_ _. Inl OutOfRange) 250 7 []
    = Inr (0, [(0, 250, Some bs)]) \<and> bs ! 203 = 0x6f"
proof -
  have "dp_alloc log_path 250 [] = (Some 0, [])" by (simp add: log_path_def)
  from auto_payload_repeats_pattern [OF this, of "\<lambda>_ _. Inl OutOfRange" 7]
  obtain bs where b: "macDlSchBuildPayload log_path PDSCHMODE_AUTO_MODE (\<lambda>_ _. Inl OutOfRange) 250 7 []
      = Inr (0, dp_send log_path 0 250 (Some bs) [])"
    "\<forall>i < 250. bs ! i = BsMacPayloads_pdsch ! (i mod 100)" by auto
  have "bs ! 203 = 0x6f" using b(2) [rule_format, of 203] pattern_3 by simp
  then show ?thesis using b(1) by (auto simp: log_path_def)
qed

lemma txTlv_ok:
  assumes "txTlv dp mode predef a (p, e) = Inr (q, e')"
  shows "pk_le p q \<and> (\<forall>i < a. pk_in q ! i = pk_in p ! i)"
proof -
  obtain p1 e1 where m: "p1 = p \<or> (\<exists>val e. pk_put32 a L1DataTLV_t ''Value'' val p = Inr p1)"
    and c: "pk_copy a (csize L1DataTLV_t) p1 = Inr q"
    using assms by (auto simp: txTlv_def Let_def rbind_Inr_iff split: if_splits)
  have "pk_le p p1 \<and> (\<forall>i < a. pk_in p1 ! i = pk_in p ! i)"
    using m by (auto simp: pk_put32_def put32_def rbind_Inr_iff wr_block_Inr nth_overlay_out pk_le_def)
  then show ?thesis
    using pk_copy_le [OF c] fwd_pk_in [OF fwd_copy c] pk_le_trans by auto
qed

lemma txTlvs_ok:
  "txTlvs dp mode predef n a (p, e) = Inr (q, e') \<Longrightarrow>
    pk_le p q \<and> (\<forall>i < a. pk_in q ! i = pk_in p ! i)"
proof (induction n arbitrary: a p e)
  case (Suc n)
  obtain p1 e1 where s: "txTlv dp mode predef a (p, e) = Inr (p1, e1)"
    and r: "txTlvs dp mode predef n (a + csize L1DataTLV_t) (p1, e1) = Inr (q, e')"
    using Suc.prems by (auto simp: rbind_Inr_iff)
  show ?case using txTlv_ok [OF s] Suc.IH [OF r] pk_le_trans by auto
qed simp

lemma rd_u32_shift:
  assumes "k + 4 \<le> length xs" and "j + 4 \<le> length ys" and "\<And>i. i < 4 \<Longrightarrow> xs ! (k + i) = ys ! (j + i)"
  shows "rd_u32 xs k = rd_u32 ys j"
  using assms(1,2) assms(3) [of 0] assms(3) [of 1] assms(3) [of 2] assms(3) [of 3]
  by (simp add: rd_u32_ok)

lemma rd_u32_overlay:
  "i + 4 \<le> length m \<Longrightarrow> rd_u32 (overlay m i (bytes_of_u32 v)) i = Inr v"
  by (simp add: rd_u32_ok nth_overlay bytes_of_u32_def numeral_2_eq_2 numeral_3_eq_3)

text \<open>
  The length of a TX data PDU is computed after its header has been copied: the message carries
  the length the request had before, and only the request gets the length of what was packed.
\<close>

theorem tx_pdu_length_stale:
  assumes "txPdu dp mode predef (p, e) = Inr (q, e')" and "pk_off p = pk_pos p"
  shows "rd_u32 (pk_out q) (pk_pos p) = rd_u32 (pk_in p) (pk_pos p) \<and>
    rd_u32 (pk_in q) (pk_pos p) = Inr (of_nat (pk_pos q - pk_pos p))"
proof -
  define a where "a = pk_pos p"
  obtain n p1 p2 where
    t: "txTlvs dp mode predef (unat n) (a + 12) (pk_skip 12 p, e) = Inr (p1, e')" and
    h: "pk_patch a a 12 p1 = Inr p2" and
    u: "pk_put32 a L1TxDataPduInfo_t ''PDULength'' (of_nat (pk_off p2 - a)) p2 = Inr q" and
    hd: "fld32 (pk_in p) a L1TxDataPduInfo_t ''numTLV'' = Inr n"
    using assms unfolding txPdu_def a_def by (auto simp: Let_def layout rbind_Inr_iff)
  note ok = txTlvs_ok [OF t]
  have p2: "a + 12 \<le> length (pk_in p1)" "a + 12 \<le> length (pk_out p1)"
    "p2 = p1\<lparr>pk_out := overlay (pk_out p1) a (take 12 (drop a (pk_in p1)))\<rparr>"
    using h by (auto simp: pk_patch_def rbind_Inr_iff rd_block_Inr wr_block_Inr min_absorb2)
  have q: "q = p2\<lparr>pk_in := overlay (pk_in p1) a (bytes_of_u32 (of_nat (pk_off p2 - a)))\<rparr>"
    using u p2 by (auto simp: pk_put32_def put32_def rbind_Inr_iff wr_block_Inr layout)
  have off: "pk_off p1 = pk_pos p1"
    using ok assms(2) by (auto simp: pk_le_def pk_skip_def)
  have "rd_u32 (pk_out q) a = rd_u32 (pk_in p) a"
  proof (rule rd_u32_shift)
    show "a + 4 \<le> length (pk_out q)" using q p2 by simp
    show "a + 4 \<le> length (pk_in p)" using ok p2 by (auto simp: pk_le_def pk_skip_def)
    fix i :: nat
    assume "i < 4"
    then show "pk_out q ! (a + i) = pk_in p ! (a + i)"
      using q p2 ok by (simp add: nth_overlay pk_skip_def)
  qed
  moreover have "rd_u32 (pk_in q) a = Inr (of_nat (pk_off p2 - a))"
    unfolding q using p2 rd_u32_overlay [of a "pk_in p1" "of_nat (pk_off p2 - a)"] by simp
  moreover have "pk_off p2 = pk_pos q" using q p2 off by simp
  ultimately show ?thesis by (simp add: a_def)
qed

definition tx_req :: packer where
  "tx_req = \<lparr>pk_in = bytes_of_u32 77 @ replicate 4 0 @ bytes_of_u32 1 @
      bytes_of_u16 2 @ replicate 2 0 @ bytes_of_u32 5 @ bytes_of_u32 0,
    pk_out = replicate 100 0, pk_off = 0, pk_pos = 0\<rparr>"

lemma tx_req_runs:
  "(case txPdu log_path PDSCHMODE_AUTO_MODE (\<lambda>_ _. Inl OutOfRange) (tx_req, []) of
     Inr (q, e') \<Rightarrow> pk_pos q = 24 | Inl f \<Rightarrow> False)"
  by code_simp

theorem tx_pdu_length_stale_witness:
  "\<exists>q e'. txPdu log_path PDSCHMODE_AUTO_MODE (\<lambda>_ _. Inl OutOfRange) (tx_req, []) = Inr (q, e') \<and>
    rd_u32 (pk_out q) 0 = Inr 77 \<and> rd_u32 (pk_in q) 0 = Inr 24"
proof -
  obtain q e' where q: "txPdu log_path PDSCHMODE_AUTO_MODE (\<lambda>_ _. Inl OutOfRange) (tx_req, []) = Inr (q, e')"
    "pk_pos q = 24" using tx_req_runs by (auto split: sum.splits prod.splits)
  have "pk_off tx_req = pk_pos tx_req" "pk_pos tx_req = 0" "rd_u32 (pk_in tx_req) 0 = Inr 77"
    by (simp_all add: tx_req_def rd_u32_bytes [of "[]", simplified])
  then show ?thesis using tx_pdu_length_stale [OF q(1)] q by auto
qed

section \<open>The flexible parts of a configuration\<close>

lemma fwd_cfgRest: "fwd_res p (rbind (cfgTables m p) (cfgWeights m))"
  unfolding cfgTables_def cfgWeights_def Let_def
  by (intro fwd_rules fwd_cfgFixed fwd_cfgMaps fwd_cfgBeams fwd_cfgPms)

lemma pk_copy_bytes:
  "pk_copy src n p = Inr q \<Longrightarrow> i < n \<Longrightarrow> pk_out q ! (pk_pos p + i) = pk_in p ! (src + i)"
  by (auto simp: pk_copy_Inr nth_overlay)

text \<open>Bytes already written stay.\<close>

lemma pk_fwd_keeps:
  "pk_fwd p q \<Longrightarrow> i < pk_pos p \<Longrightarrow> pk_pos p \<le> length (pk_out p) \<Longrightarrow> pk_out q ! i = pk_out p ! i"
  by (auto simp: pk_fwd_def pk_le_def)

lemma ConfigReqParams_eq:
  "ConfigReqParams m out =
     rbind (pk_copy 0 72 \<lparr>pk_in = m, pk_out = out, pk_off = 0, pk_pos = 0\<rparr>) (\<lambda>p.
     rbind (fld16 m 68 L1PrachConfigInfo_t ''numPrachConfigurations'') (\<lambda>n.
     rbind (cfgPrachs 72 (unat n) p) (\<lambda>p.
     rbind (pk_copy 72 88 p) (\<lambda>p. rbind (cfgTables m p) (cfgWeights m)))))"
  by (simp add: ConfigReqParams_def layout cfgFixed_def Let_def)

text \<open>
  C29: A configuration request is walked as if its flexible arrays had no elements: the first PRACH
  configuration and the SSB table are read from the same bytes. When there is a PRACH
  configuration, the message contains its 12 bytes twice, and the number of its frequency
  occasions is always equal to the SSB period.
\<close>

theorem config_parts_overlap:
  assumes "ConfigReqParams m out = Inr q"
    and "fld16 m 68 L1PrachConfigInfo_t ''numPrachConfigurations'' = Inr n" and "n \<noteq> 0"
  shows "\<exists>s. 84 \<le> s \<and> s + 12 \<le> pk_off q \<and>
    (\<forall>i < 12. pk_out q ! (72 + i) = m ! (72 + i) \<and> pk_out q ! (s + i) = m ! (72 + i)) \<and>
    offsetof L1PrachConfiguration_t ''numPrachFdOccasions'' = 6 \<and>
    offsetof L1SsbTableConfigInfo_t ''ssbPeriod'' = 6"
proof -
  let ?p0 = "\<lparr>pk_in = m, pk_out = out, pk_off = 0, pk_pos = 0\<rparr>"
  obtain k where k: "unat n = Suc k" using assms(3) by (metis not0_implies_Suc unat_eq_zero)
  obtain p1 p2 p3 where c: "pk_copy 0 72 ?p0 = Inr p1"
    and pr: "cfgPrachs 72 (Suc k) p1 = Inr p2" and sb: "pk_copy 72 88 p2 = Inr p3"
    and rest: "rbind (cfgTables m p3) (cfgWeights m) = Inr q"
    using assms(1) unfolding ConfigReqParams_eq assms(2) rbind_Inr_iff k [symmetric] by blast
  obtain pa where h: "pk_copy 72 12 p1 = Inr pa" and fa: "pk_fwd pa p2"
  proof -
    obtain pa pb where h: "pk_copy 72 12 p1 = Inr pa" and b: "cfgPrach 72 p1 = Inr pb"
      and l: "cfgPrachs (72 + csize L1PrachConfiguration_t) k pb = Inr p2"
      using pr by (auto simp: rbind_Inr_iff cfgPrach_def layout Let_def)
    obtain nf where "pk_array 84 16 nf pa = Inr pb"
      using b h by (auto simp: cfgPrach_def rbind_Inr_iff layout Let_def)
    then have "pk_fwd pa pb" by (rule fwd_resD [OF fwd_array])
    moreover have "pk_fwd pb p2" using l by (rule fwd_resD [OF fwd_cfgPrachs])
    ultimately show ?thesis using h that pk_fwd_trans by blast
  qed
  have p1: "pk_pos p1 = 72" "pk_in p1 = m" "pk_off p1 = 72" using c by (auto simp: pk_copy_Inr)
  have pa: "pk_pos pa = 84" "pk_in pa = m" "84 \<le> length (pk_out pa)" "pk_off pa = 84"
    using h p1 by (auto simp: pk_copy_Inr)
  have f3: "pk_fwd p2 p3" using fwd_copy sb by (rule fwd_resD)
  have fq: "pk_fwd p3 q" using fwd_cfgRest rest by (rule fwd_resD)
  have p2: "pk_in p2 = m" "84 \<le> pk_pos p2" "pk_off p2 = pk_pos p2"
  proof -
    have le: "pk_le pa p2" "pk_in p2 = pk_in pa" using fa by (simp_all add: pk_fwd_def)
    show "pk_in p2 = m" "84 \<le> pk_pos p2" using le pa by (simp_all add: pk_le_def)
    show "pk_off p2 = pk_pos p2" using pk_sync_le [OF le(1)] pa by simp
  qed
  have p3: "pk_pos p3 = pk_pos p2 + 88" "pk_off p3 = pk_pos p3" "pk_pos p3 \<le> length (pk_out p3)"
    using sb p2 by (auto simp: pk_copy_Inr)
  have q: "pk_pos p3 \<le> pk_off q" using fq p3 by (auto simp: pk_fwd_def pk_le_def)
  have first: "pk_out q ! (72 + i) = m ! (72 + i)" if "i < 12" for i
    using pk_copy_bytes [OF h that] p1 pa that
      pk_fwd_keeps [OF pk_fwd_trans [OF fa pk_fwd_trans [OF f3 fq]], of "72 + i"] by simp
  have second: "pk_out q ! (pk_pos p2 + i) = m ! (72 + i)" if "i < 12" for i
    using pk_copy_bytes [OF sb, of i] p2 p3 that pk_fwd_keeps [OF fq, of "pk_pos p2 + i"] by simp
  have off: "offsetof L1PrachConfiguration_t ''numPrachFdOccasions'' = 6"
    "offsetof L1SsbTableConfigInfo_t ''ssbPeriod'' = 6"
    by (simp add: layout) code_simp
  show ?thesis
    by (rule exI [of _ "pk_pos p2"]) (use first second off p2 p3 q in auto)
qed

text \<open>A configuration with one PRACH configuration and nothing else, and that it is packed.\<close>

definition cfg_req :: "u8 list" where
  "cfg_req = (replicate 1400 0)[68 := 1, 72 := 9]"

definition runs :: "packer \<Rightarrow> packer res \<Rightarrow> nat \<Rightarrow> bool" where
  "runs p m k \<longleftrightarrow> (\<exists>q. m = Inr q \<and> pk_in q = pk_in p \<and> length (pk_out q) = length (pk_out p) \<and>
     pk_pos q = pk_pos p + k)"

lemma runs_copy:
  "src + n \<le> length (pk_in p) \<Longrightarrow> pk_pos p + n \<le> length (pk_out p) \<Longrightarrow> runs p (pk_copy src n p) n"
  using pk_copy_le [of src n p] by (auto simp: runs_def pk_copy_Inr pk_le_def)

lemma runs_bind:
  "runs p m k \<Longrightarrow> (\<And>q. pk_in q = pk_in p \<Longrightarrow> length (pk_out q) = length (pk_out p) \<Longrightarrow>
    pk_pos q = pk_pos p + k \<Longrightarrow> runs q (h q) k') \<Longrightarrow> runs p (rbind m h) (k + k')"
  unfolding runs_def by fastforce

lemma runs_step:
  assumes "src + n \<le> length (pk_in p)" and "pk_pos p + n \<le> length (pk_out p)" and "n \<le> k"
    and "\<And>q. pk_in q = pk_in p \<Longrightarrow> length (pk_out q) = length (pk_out p) \<Longrightarrow>
      pk_pos q = pk_pos p + n \<Longrightarrow> runs q (h q) (k - n)"
  shows "runs p (rbind (pk_copy src n p) h) k"
  using runs_bind [OF runs_copy [OF assms(1,2)], of h "k - n"] assms(3,4) by simp

lemma runs_ok: "runs p (Inr p) 0"
  by (simp add: runs_def)

lemma cfg_req_zero: "73 \<le> k \<Longrightarrow> k + 1 < 1400 \<Longrightarrow> rd_u16 cfg_req k = Inr 0"
  "73 \<le> k \<Longrightarrow> k < 1400 \<Longrightarrow> rd_u8 cfg_req k = Inr 0"
  by (simp_all add: rd_u16_ok cfg_req_def u16_of_bytes_def rd_u8_def)

lemma cfg_req_num: "fld16 cfg_req 68 L1PrachConfigInfo_t ''numPrachConfigurations'' = Inr 1"
  by (simp add: fld16_def layout rd_u16_ok cfg_req_def u16_of_bytes_def)

lemma cfg_req_runs: "\<exists>q. ConfigReqParams cfg_req (replicate 1500 0) = Inr q"
proof -
  let ?p0 = "\<lparr>pk_in = cfg_req, pk_out = replicate 1500 0, pk_off = 0, pk_pos = 0\<rparr>"
  have len: "length cfg_req = 1400" by (simp add: cfg_req_def)
  have prach: "runs p (cfgPrachs 72 1 p) 12"
    if "pk_in p = cfg_req" "length (pk_out p) = 1500" "pk_pos p = 72" for p
  proof -
    have "runs p (cfgPrachs 72 (Suc 0) p) (12 + 0)"
      unfolding cfgPrachs.simps cfgPrach_def Let_def layout fld8_def rbind_assoc
      by (rule runs_bind, rule runs_copy) (simp_all add: that len cfg_req_zero runs_ok)
    then show ?thesis by simp
  qed
  have tables: "runs p (cfgTables cfg_req p) 1140"
    if "pk_in p = cfg_req" "length (pk_out p) = 1500" "pk_pos p = 172" for p
    by (simp add: cfgTables_def cfgFixed_def Let_def fld16_def fld8_def layout cfg_req_zero)
      (rule runs_step runs_copy | simp add: that len)+
  have weights: "runs p (cfgWeights cfg_req p) 12"
    if "pk_in p = cfg_req" "length (pk_out p) = 1500" "pk_pos p = 1312" for p
    by (simp add: cfgWeights_def cfgFixed_def Let_def fld16_def fld8_def layout cfg_req_zero)
      (rule runs_step runs_copy | simp add: that len)+
  have "runs ?p0 (ConfigReqParams cfg_req (replicate 1500 0)) (72 + (12 + (88 + (1140 + 12))))"
    unfolding ConfigReqParams_eq cfg_req_num rbind.simps(2) unat_1
    by (intro runs_bind runs_copy prach tables weights) (simp_all add: len)
  then show ?thesis by (auto simp: runs_def)
qed

theorem config_parts_overlap_witness:
  "\<exists>q s. ConfigReqParams cfg_req (replicate 1500 0) = Inr q \<and> 84 \<le> s \<and> s + 12 \<le> pk_off q \<and>
    (\<forall>i < 12. pk_out q ! (s + i) = pk_out q ! (72 + i))"
proof -
  obtain q where q: "ConfigReqParams cfg_req (replicate 1500 0) = Inr q"
    using cfg_req_runs by blast
  from config_parts_overlap [OF q cfg_req_num] show ?thesis using q by auto
qed

end
