(* ===== verification/MacTrace.thy ===== *)
theory MacTrace
  imports Prelude
begin

text \<open>
  The message trace of \<open>mac/src/macTrace.c\<close>: a ring of 32 items between the threads that send and
  receive messages (\<open>addPhyTraceItem\<close>) and the thread that writes them to a UDP socket
  (\<open>_phyTraceCheckProcess\<close>). An item is the address and the length of a message, not a copy. The
  sockets are parameters: whether \<open>connect\<close> succeeds is an argument, and \<open>sendto\<close> is the list of
  what it is called with.
\<close>

record trace =
  phyTrace_udp :: bool
  ptFd_open :: bool
  tr_start :: u16
  tr_end :: u16
  tr_item :: "(addr \<times> u32) list"

definition MAX_PHY_TRACE_ITEM :: nat where "MAX_PHY_TRACE_ITEM = 32"

definition trace0 :: "bool \<Rightarrow> trace" where
  "trace0 udp = \<lparr>phyTrace_udp = udp, ptFd_open = False, tr_start = 0, tr_end = 0,
     tr_item = replicate MAX_PHY_TRACE_ITEM (0, 0)\<rparr>"

definition PHY_TRACE_ITEM_CNT :: "u16 \<Rightarrow> u16 \<Rightarrow> u16" where
  "PHY_TRACE_ITEM_CNT start end' = ucast ((ucast end' + 32 - ucast start :: u32) AND 31)"

definition addPhyTraceItem :: "addr \<Rightarrow> u32 \<Rightarrow> trace \<Rightarrow> trace res" where
  "addPhyTraceItem data len t =
     (if phyTrace_udp t then
        rbind (wr (tr_item t) (unat (tr_end t)) (data, len)) (\<lambda>it.
          Inr (t\<lparr>tr_item := it, tr_end := (tr_end t + 1) AND 31\<rparr>))
      else Inr t)"

text \<open>
  \<open>phyTrace\<close>: the first call opens the sockets; when \<open>connect\<close> fails the trace is switched off.
\<close>

definition phyTrace :: "bool \<Rightarrow> addr \<times> u32 \<Rightarrow> trace \<Rightarrow> (addr \<times> u32) list \<times> trace" where
  "phyTrace conn item t =
     (if phyTrace_udp t then
        (if \<not> ptFd_open t then
           (if conn then ([item], t\<lparr>ptFd_open := True\<rparr>)
            else ([], t\<lparr>ptFd_open := True, phyTrace_udp := False\<rparr>))
         else ([item], t))
      else ([], t))"

fun drainLoop :: "bool \<Rightarrow> u32 \<Rightarrow> nat \<Rightarrow> nat \<Rightarrow> trace \<Rightarrow> ((addr \<times> u32) list \<times> trace) res" where
  "drainLoop conn start i 0 t = Inr ([], t)"
| "drainLoop conn start i (Suc n) t =
     rbind (rd (tr_item t) (unat ((start + of_nat i) AND 31))) (\<lambda>item.
     let (sent, t') = phyTrace conn item t in
     rbind (drainLoop conn start (Suc i) n t') (\<lambda>(sent', t''). Inr (sent @ sent', t'')))"

text \<open>One round of the trace thread: everything between \<open>start\<close> and \<open>end\<close> is sent.\<close>

definition phyTraceRound :: "bool \<Rightarrow> trace \<Rightarrow> ((addr \<times> u32) list \<times> trace) res" where
  "phyTraceRound conn t =
     (let start = tr_start t; cnt = PHY_TRACE_ITEM_CNT start (tr_end t) in
      if cnt = 0 then Inr ([], t)
      else rbind (drainLoop conn (ucast start) 0 (unat cnt) t) (\<lambda>(sent, t').
        Inr (sent, t'\<lparr>tr_start := (start + cnt) AND 31\<rparr>)))"

fun add_all :: "(addr \<times> u32) list \<Rightarrow> trace \<Rightarrow> trace res" where
  "add_all [] t = Inr t"
| "add_all ((a, n) # xs) t = rbind (addPhyTraceItem a n t) (add_all xs)"

section \<open>Properties\<close>

definition trace_wf :: "trace \<Rightarrow> bool" where
  "trace_wf t \<longleftrightarrow> length (tr_item t) = 32 \<and> unat (tr_start t) < 32 \<and> unat (tr_end t) < 32 \<and> phyTrace_udp t"

lemma and31: "unat (w AND 31 :: u16) = unat w mod 32" "unat (v AND 31 :: u32) = unat v mod 32"
proof -
  have "w AND 31 = take_bit 5 w" "v AND 31 = take_bit 5 v"
    by (simp_all add: take_bit_eq_mask mask_eq_exp_minus_1)
  then show "unat (w AND 31) = unat w mod 32" "unat (v AND 31) = unat v mod 32"
    by (simp_all add: take_bit_eq_mod unat_mod)
qed

lemma succ31: "unat e < 32 \<Longrightarrow> unat ((e + 1) AND 31 :: u16) = (unat e + 1) mod 32"
  by (simp add: and31 unat_add_lt)

lemma cnt_spec:
  assumes "unat s < 32" and "unat e < 32"
  shows "unat (PHY_TRACE_ITEM_CNT s e) = (unat e + 32 - unat s) mod 32"
proof -
  have "unat (ucast e + 32 - ucast s :: u32) = unat e + 32 - unat s"
    using assms by (subst unat_sub_le) (auto simp: unat_add_lt unat_ucast_u16_u32)
  then have u: "unat ((ucast e + 32 - ucast s :: u32) AND 31) = (unat e + 32 - unat s) mod 32"
    by (simp add: and31)
  then have "unat ((ucast e + 32 - ucast s :: u32) AND 31) < 2 ^ 16" by simp
  then show ?thesis
    unfolding PHY_TRACE_ITEM_CNT_def using u
    by (simp add: unsigned_ucast_eq take_bit_nat_eq_self)
qed

lemma window32:
  assumes "e < 32"
  shows "((e + n) mod 32 + 32 - e) mod 32 = n mod (32 :: nat)"
proof -
  define c where "c = n mod 32"
  have c: "c < 32" by (simp add: c_def)
  have "(e + n) mod 32 = (e + c) mod 32" by (simp add: c_def mod_add_right_eq)
  also have "\<dots> = (if e + c < 32 then e + c else e + c - 32)"
    using assms c by (simp add: mod_if)
  finally show ?thesis using assms c unfolding c_def [symmetric] by auto
qed

lemma drainLoop_udp:
  "length (tr_item t) = 32 \<Longrightarrow> phyTrace_udp t \<Longrightarrow> unat start + i + n < 2 ^ 32 \<Longrightarrow>
    \<exists>t'. drainLoop True start i n t
        = Inr (map (\<lambda>k. tr_item t ! ((unat start + i + k) mod 32)) [0..<n], t') \<and>
      tr_item t' = tr_item t \<and> tr_end t' = tr_end t \<and> phyTrace_udp t'"
proof (induction n arbitrary: i t)
  case (Suc n)
  let ?item = "tr_item t ! ((unat start + i) mod 32)"
  have idx: "unat ((start + of_nat i) AND 31) = (unat start + i) mod 32"
    using Suc.prems by (subst and31, subst unat_add_lt) (auto simp: unat_of_nat_u32)
  define t1 where "t1 = snd (phyTrace True ?item t)"
  have p: "phyTrace True ?item t = ([?item], t1)" "tr_item t1 = tr_item t"
    "tr_end t1 = tr_end t" "phyTrace_udp t1"
    using Suc.prems by (auto simp: phyTrace_def t1_def)
  from Suc.IH [of t1 "Suc i"] p Suc.prems obtain t2 where
    "drainLoop True start (Suc i) n t1
      = Inr (map (\<lambda>k. tr_item t ! ((unat start + Suc i + k) mod 32)) [0..<n], t2)"
    "tr_item t2 = tr_item t" "tr_end t2 = tr_end t" "phyTrace_udp t2" by auto
  then show ?case
    using p idx Suc.prems by (simp add: map_Suc_upt [symmetric] upt_conv_Cons comp_def del: upt_Suc)
qed simp

lemma add_all_spec:
  "trace_wf t \<Longrightarrow> \<exists>t'. add_all xs t = Inr t' \<and> trace_wf t' \<and> tr_start t' = tr_start t \<and>
     unat (tr_end t') = (unat (tr_end t) + length xs) mod 32 \<and>
     (\<forall>k < length xs. length xs \<le> k + 32 \<longrightarrow> tr_item t' ! ((unat (tr_end t) + k) mod 32) = xs ! k)"
proof (induction xs rule: rev_induct)
  case Nil
  then show ?case by (simp add: trace_wf_def)
next
  case (snoc x xs)
  obtain a n where x: "x = (a, n)" by (cases x)
  have nil: "add_all [] = Inr" by (rule ext) simp
  have app: "add_all (ys @ [x]) = (\<lambda>u. rbind (add_all ys u) (addPhyTraceItem a n))" for ys
  proof (induction ys)
    case (Cons y ys)
    show ?case by (rule ext) (cases y, simp add: Cons.IH rbind_assoc)
  qed (simp add: fun_eq_iff x nil)
  obtain t1 where t1: "add_all xs t = Inr t1" "trace_wf t1" "tr_start t1 = tr_start t"
    "unat (tr_end t1) = (unat (tr_end t) + length xs) mod 32"
    "\<And>k. k < length xs \<Longrightarrow> length xs \<le> k + 32 \<Longrightarrow> tr_item t1 ! ((unat (tr_end t) + k) mod 32) = xs ! k"
    using snoc by auto
  let ?e = "unat (tr_end t)" and ?l = "length xs"
  let ?t2 = "t1\<lparr>tr_item := (tr_item t1)[(?e + ?l) mod 32 := x], tr_end := (tr_end t1 + 1) AND 31\<rparr>"
  have step: "addPhyTraceItem a n t1 = Inr ?t2"
    using t1(2,4) by (simp add: addPhyTraceItem_def trace_wf_def x)
  have e: "unat ((tr_end t1 + 1) AND 31) = (?e + length (xs @ [x])) mod 32"
    using succ31 [of "tr_end t1"] t1(2,4) by (simp add: trace_wf_def mod_Suc_eq)
  have it: "tr_item ?t2 ! ((?e + k) mod 32) = (xs @ [x]) ! k"
    if "k < length (xs @ [x])" "length (xs @ [x]) \<le> k + 32" for k
  proof (cases "k = ?l")
    case True
    then show ?thesis using t1(2) by (simp add: trace_wf_def)
  next
    case False
    have kl: "k < ?l" "?l - k < 32" using that False by auto
    have "(?e + k) mod 32 \<noteq> (?e + ?l) mod 32"
    proof
      assume "(?e + k) mod 32 = (?e + ?l) mod 32"
      then have "32 dvd (?e + ?l) - (?e + k)"
        using mod_eq_dvd_iff_nat [of "?e + k" "?e + ?l" 32] kl by (simp add: eq_commute)
      then have "32 dvd ?l - k" by simp
      then show False using kl dvd_imp_le [of 32 "?l - k"] by simp
    qed
    then show ?thesis using False that t1(5) [of k] by (simp add: nth_append)
  qed
  have run: "add_all (xs @ [x]) t = Inr ?t2" unfolding app t1(1) rbind.simps by (rule step)
  have wf: "trace_wf ?t2" using t1(2) by (simp add: trace_wf_def and31)
  have "tr_start ?t2 = tr_start t" "unat (tr_end ?t2) = (?e + length (xs @ [x])) mod 32"
    using t1(3) e by simp_all
  with run wf it show ?case by blast
qed

text \<open>
  C32: The trace ring does not check for overflow. From an empty ring, after any number of messages
  one round of the trace thread sends the most recent \<open>n mod 32\<close> of the \<open>n\<close> messages, in order:
  nothing is lost below 32, and every block of 32 messages that the thread does not get to is lost
  completely.
\<close>

theorem trace_sends_rest:
  assumes "trace_wf t" and "tr_start t = tr_end t"
  shows "\<exists>t1 t2. add_all xs t = Inr t1 \<and>
    phyTraceRound True t1 = Inr (drop (length xs - length xs mod 32) xs, t2) \<and>
    trace_wf t2 \<and> tr_start t2 = tr_end t2"
proof -
  let ?e = "unat (tr_end t)" and ?n = "length xs"
  obtain t1 where t1: "add_all xs t = Inr t1" "trace_wf t1" "tr_start t1 = tr_end t"
    "unat (tr_end t1) = (?e + ?n) mod 32"
    "\<And>k. k < ?n \<Longrightarrow> ?n \<le> k + 32 \<Longrightarrow> tr_item t1 ! ((?e + k) mod 32) = xs ! k"
    using add_all_spec [OF assms(1), of xs] assms(2) by auto
  have e: "?e < 32" using assms(1) by (simp add: trace_wf_def)
  define c where "c = ?n mod 32"
  have "((?e + ?n) mod 32 + 32 - ?e) mod 32 = c"
    unfolding c_def using e by (rule window32)
  then have cnt: "unat (PHY_TRACE_ITEM_CNT (tr_end t) (tr_end t1)) = c"
    using t1 e by (simp add: cnt_spec trace_wf_def)
  have c: "c < 32" "c \<le> ?n" by (auto simp: c_def)
  show ?thesis
  proof (cases "c = 0")
    case True
    then have "PHY_TRACE_ITEM_CNT (tr_end t) (tr_end t1) = 0" using cnt unat_eq_zero by metis
    moreover have "tr_end t = tr_end t1"
      using t1(4) True e by (auto simp: c_def word_unat_eq_iff mod_add_right_eq [of _ ?n, symmetric])
    ultimately show ?thesis
      using t1 True by (simp add: phyTraceRound_def c_def)
  next
    case False
    then have nz: "PHY_TRACE_ITEM_CNT (tr_end t) (tr_end t1) \<noteq> 0" using cnt by force
    have "unat (ucast (tr_end t) :: u32) = ?e" by (simp add: unat_ucast_u16_u32)
    with drainLoop_udp [of t1 "ucast (tr_end t)" 0 c] t1(2) e c obtain t' where
      d: "drainLoop True (ucast (tr_end t)) 0 c t1
        = Inr (map (\<lambda>k. tr_item t1 ! ((?e + k) mod 32)) [0..<c], t')"
      "tr_item t' = tr_item t1" "tr_end t' = tr_end t1" "phyTrace_udp t'"
      by (auto simp: trace_wf_def)
    have "map (\<lambda>k. tr_item t1 ! ((?e + k) mod 32)) [0..<c] = drop (?n - c) xs"
    proof (rule nth_equalityI)
      fix k assume "k < length (map (\<lambda>k. tr_item t1 ! ((?e + k) mod 32)) [0..<c])"
      then have k: "k < c" by simp
      have "?n - c = 32 * (?n div 32)" unfolding c_def by (simp add: minus_mod_eq_mult_div)
      then have "?e + (?n - c + k) = (?e + k) + 32 * (?n div 32)" by simp
      then have "(?e + (?n - c + k)) mod 32 = (?e + k) mod 32" by (metis mod_mult_self2)
      then show "map (\<lambda>k. tr_item t1 ! ((?e + k) mod 32)) [0..<c] ! k = drop (?n - c) xs ! k"
        using t1(5) [of "?n - c + k"] k c by simp
    qed (use c in simp)
    moreover have "unat ((tr_end t + PHY_TRACE_ITEM_CNT (tr_end t) (tr_end t1)) AND 31) = unat (tr_end t1)"
      using cnt t1(4) e c by (simp add: and31 unat_add_lt c_def mod_add_right_eq)
    then have "(tr_end t + PHY_TRACE_ITEM_CNT (tr_end t) (tr_end t1)) AND 31 = tr_end t1"
      by (simp add: word_unat_eq_iff)
    ultimately show ?thesis
      using t1 nz d cnt by (auto simp: phyTraceRound_def Let_def trace_wf_def c_def)
  qed
qed

lemma trace0_wf: "trace_wf (trace0 True)"
  by (simp add: trace_wf_def trace0_def MAX_PHY_TRACE_ITEM_def)

theorem trace_sends_rest_witness:
  "\<exists>t1 t2. add_all (replicate 32 (0x1000, 40) @ [(0x2000, 8)]) (trace0 True) = Inr t1 \<and>
    phyTraceRound True t1 = Inr ([(0x2000, 8)], t2)"
  using trace_sends_rest [OF trace0_wf, of "replicate 32 (0x1000, 40) @ [(0x2000, 8)]"]
  by (simp add: trace0_def) blast

end
