(* ===== verification/MacTx.thy ===== *)
theory MacTx
  imports FapiCodec QuickMsgRing MacTrace
begin

text \<open>
  The transmit side of the MAC: the state of \<open>mac/src/mac.c\<close> and \<open>mac/src/macTx.c\<close>, and the functions
  of \<open>macTx.c\<close> that put FAPI requests on the control channel of a cell. The channel is the \<open>pcxx\<close>
  library, which is not part of the repository: its operations are the fields of \<open>env\<close>, on a state
  \<open>'e\<close> of the library. A buffer it hands out is an address and the bytes found there; the program
  writes into it, and the library reads it when the group of messages is closed.
\<close>

section \<open>The library\<close>

record 'e env =
  pcxxSendStart :: "u8 \<Rightarrow> u8 \<Rightarrow> 'e \<Rightarrow> bool \<times> 'e"
  pcxxSendEnd :: "u8 \<Rightarrow> u8 \<Rightarrow> (addr \<Rightarrow> u8 list option) \<Rightarrow> 'e \<Rightarrow> bool \<times> 'e"
  pcxxCtrlAlloc :: "u8 \<Rightarrow> u8 \<Rightarrow> 'e \<Rightarrow> (addr \<times> u8 list) option \<times> 'e"
  pcxxCtrlSend :: "u8 \<Rightarrow> u8 \<Rightarrow> addr \<Rightarrow> u32 \<Rightarrow> 'e \<Rightarrow> bool \<times> 'e"
  pcxxDataAlloc :: "u8 \<Rightarrow> u8 \<Rightarrow> u32 \<Rightarrow> 'e \<Rightarrow> u32 option \<times> 'e"
  pcxxDataSend :: "u8 \<Rightarrow> u8 \<Rightarrow> u32 \<Rightarrow> u32 \<Rightarrow> u8 list option \<Rightarrow> 'e \<Rightarrow> 'e"
  pcxxDataRecv :: "u8 \<Rightarrow> u8 \<Rightarrow> u32 \<times> u32 \<Rightarrow> 'e \<Rightarrow> 'e"
  pcxxDestroy :: "u8 \<Rightarrow> u8 \<Rightarrow> 'e \<Rightarrow> 'e"
  garbage :: u32
  ptr_bytes :: "u8 list"

text \<open>
  The booleans are ``returned 0''. \<open>garbage\<close> is the uninitialised word of \<open>gsfnShift\<close>. \<open>ptr_bytes\<close> are
  the 64 bytes of the pointer array \<open>gL1ConfigRequest\<close> itself, see \<open>sendPhyConfigReq\<close>.
\<close>

section \<open>State\<close>

datatype TestMacRunMode_e = RUNMODE_FAPI_GENERATOR | RUNMODE_RCT_MODE
datatype TestMacOperMode_e = AUTO | MANUAL
datatype MacStatus_e = PHY_IDLE | PHY_CFG | PHY_INIT | PHY_ACTIVE
datatype MacSchStatus_e = SCH_STOP | SCH_NORMAL | SCH_DEFAULT

text \<open>Message numbers of \<open>mac.h\<close> the functions pass on; \<open>appendL1MsgToList\<close> only asserts a bound.\<close>

datatype FAPIMsgId_e = L1_PARAM_REQUEST | L1_PARAM_RESPONSE | L1_CONFIG_REQUEST | L1_CONFIG_RESPONSE
  | L1_START_REQUEST | L1_STOP_REQUEST | L1_STOP_INDICATION | L1_ERROR_INDICATION
  | L1_DL_TTI_REQUEST | L1_UL_TTI_REQUEST | L1_SLOT_INDICATION | L1_UL_DCI_REQUEST
  | L1_TX_DATA_REQUEST | L1_RX_DATA_INDICATION | L1_CRC_INDICATION | L1_UCI_INDICATION
  | L1_SRS_INDICATION | L1_PRACH_INDICATION

fun l1_id :: "FAPIMsgId_e \<Rightarrow> u8" where
  "l1_id L1_PARAM_REQUEST = 0"
| "l1_id L1_PARAM_RESPONSE = 1"
| "l1_id L1_CONFIG_REQUEST = 2"
| "l1_id L1_CONFIG_RESPONSE = 3"
| "l1_id L1_START_REQUEST = 4"
| "l1_id L1_STOP_REQUEST = 5"
| "l1_id L1_STOP_INDICATION = 6"
| "l1_id L1_ERROR_INDICATION = 7"
| "l1_id L1_DL_TTI_REQUEST = 8"
| "l1_id L1_UL_TTI_REQUEST = 9"
| "l1_id L1_SLOT_INDICATION = 10"
| "l1_id L1_UL_DCI_REQUEST = 11"
| "l1_id L1_TX_DATA_REQUEST = 12"
| "l1_id L1_RX_DATA_INDICATION = 13"
| "l1_id L1_CRC_INDICATION = 14"
| "l1_id L1_UCI_INDICATION = 15"
| "l1_id L1_SRS_INDICATION = 16"
| "l1_id L1_PRACH_INDICATION = 17"

record PhyApiTxCtxt_s =
  generalMsgHeader :: "addr option"
  curMsgHeader :: "addr option"
  curMsgLen :: u32
  maxRemLen :: u32
  totalLen :: u32

record MacContent_s =
  runMode :: TestMacRunMode_e
  phyState :: MacStatus_e
  schState :: MacSchStatus_e
  operMode :: TestMacOperMode_e
  pdschMode :: TestMacPdschMode_e
  phyStub :: bool
  waitRspTmr :: u32
  msgqH :: qring
  msgqApp :: qring
  runttiPerTc :: u32
  sfnMode :: bool

record MacTxEnable_t =
  dlttiTxEnable :: u8
  ulttiTxEnable :: u8
  txdataTxEnble :: u8
  csiTxEnable :: u8

text \<open>
  What the arrays indexed by device and cell hold for one cell; the request buffers and their sizes
  are also indexed by frame (modulo 4) and slot. A buffer is absent before \<open>macInit\<close> allocates it.
\<close>

record chan =
  gMacCtx :: MacContent_s
  phyCtrlMsgCtxt :: PhyApiTxCtxt_s
  gSystemTtiNum :: u32
  gL2RxGSfn :: L1SlotInd
  gL2TxGSfn :: L1SlotInd
  gMacTxRfn :: u16
  gMacTxSlot :: u8
  gMacRxRfn :: u16
  gMacRxSlot :: u8
  sMacLocalGSfn :: L1SlotInd
  gL1ConfigRequest :: "u8 list option"
  gL1DLTTIReq :: "nat \<Rightarrow> nat \<Rightarrow> u8 list option"
  gL1TXDATAREQ :: "nat \<Rightarrow> nat \<Rightarrow> u8 list option"
  gL1ULTTI :: "nat \<Rightarrow> nat \<Rightarrow> u8 list option"
  gL1ConfigReqSize :: u32
  gL1DlttiReqSize :: "nat \<Rightarrow> nat \<Rightarrow> u32"
  gL1UlttiReqSize :: "nat \<Rightarrow> nat \<Rightarrow> u32"
  gL1TxdataReqSize :: "nat \<Rightarrow> nat \<Rightarrow> u32"
  s_rtRun :: bool
  sSlotNum :: u32

record 'e mac =
  chans :: "u8 \<Rightarrow> u8 \<Rightarrow> chan"
  mstats :: mac_stats
  gCellNum :: u8
  gDlttiTxEnable :: u8
  gUlttiTxEnable :: u8
  gTxdataTxEnble :: u8
  gCsiTxEnable :: u8
  sTcIdInRunning :: u16
  appCellNum :: u8
  blocks :: "addr \<Rightarrow> u8 list option"
  mtrace :: trace
  lib :: 'e

text \<open>Access to the arrays: 4 devices with 2 cells.\<close>

definition get_chan :: "u8 \<Rightarrow> u8 \<Rightarrow> 'e mac \<Rightarrow> chan res" where
  "get_chan d c s = (if d < 4 \<and> c < 2 then Inr (chans s d c) else Inl OutOfRange)"

definition set_chan :: "u8 \<Rightarrow> u8 \<Rightarrow> chan \<Rightarrow> 'e mac \<Rightarrow> 'e mac" where
  "set_chan d c ch s = s\<lparr>chans := (chans s)(d := (chans s d)(c := ch))\<rparr>"

definition get_tx :: "u8 \<Rightarrow> u8 \<Rightarrow> 'e mac \<Rightarrow> PhyApiTxCtxt_s res" where
  "get_tx d c s = rbind (get_chan d c s) (\<lambda>ch. Inr (phyCtrlMsgCtxt ch))"

definition set_tx :: "u8 \<Rightarrow> u8 \<Rightarrow> PhyApiTxCtxt_s \<Rightarrow> 'e mac \<Rightarrow> 'e mac" where
  "set_tx d c t s = set_chan d c (chans s d c\<lparr>phyCtrlMsgCtxt := t\<rparr>) s"

text \<open>The static state before \<open>macInit\<close>: zeros and null pointers. \<open>appCellNum\<close> is \<open>cellNum\<close> of \<open>appMgrMsgqHRecv\<close>.\<close>

definition chan_zero :: chan where
  "chan_zero = \<lparr>gMacCtx = \<lparr>runMode = RUNMODE_FAPI_GENERATOR, phyState = PHY_IDLE, schState = SCH_STOP,
       operMode = AUTO, pdschMode = PDSCHMODE_AUTO_MODE, phyStub = False, waitRspTmr = 0,
       msgqH = qring_zero, msgqApp = qring_zero, runttiPerTc = 0, sfnMode = False\<rparr>,
     phyCtrlMsgCtxt = \<lparr>generalMsgHeader = None, curMsgHeader = None, curMsgLen = 0, maxRemLen = 0, totalLen = 0\<rparr>,
     gSystemTtiNum = 0, gL2RxGSfn = \<lparr>si_SFN = 0, si_Slot = 0\<rparr>, gL2TxGSfn = \<lparr>si_SFN = 0, si_Slot = 0\<rparr>,
     gMacTxRfn = 0, gMacTxSlot = 0, gMacRxRfn = 0, gMacRxSlot = 0, sMacLocalGSfn = \<lparr>si_SFN = 0, si_Slot = 0\<rparr>,
     gL1ConfigRequest = None, gL1DLTTIReq = (\<lambda>i j. None), gL1TXDATAREQ = (\<lambda>i j. None),
     gL1ULTTI = (\<lambda>i j. None), gL1ConfigReqSize = 0, gL1DlttiReqSize = (\<lambda>i j. 0),
     gL1UlttiReqSize = (\<lambda>i j. 0), gL1TxdataReqSize = (\<lambda>i j. 0), s_rtRun = True, sSlotNum = 0\<rparr>"

definition mac_zero :: "bool \<Rightarrow> 'e \<Rightarrow> 'e mac" where
  "mac_zero udp e = \<lparr>chans = (\<lambda>d c. chan_zero),
     mstats = \<lparr>sMacCellCtx = replicate MAC_PC802_INDEX_MAX (replicate MAC_MAX_CELL_NUM cell_zero),
       sMacUeCtxt = replicate MAX_UE_NUM_IN_ONE_CELL \<lparr>ue_cellId = 0, ue_ueId = 0, ue_srnti = 0, ue_crnti = 0,
         ueStatsInfo = ueStats_zero\<rparr>,
       gcurrentScs = replicate MAC_PC802_INDEX_MAX (replicate MAC_MAX_CELL_NUM 0),
       maxTimeOut = 0, minTimeOut = 0\<rparr>,
     gCellNum = 1, gDlttiTxEnable = 0, gUlttiTxEnable = 0, gTxdataTxEnble = 0, gCsiTxEnable = 0,
     sTcIdInRunning = 0, appCellNum = 1, blocks = (\<lambda>a. None), mtrace = trace0 udp, lib = e\<rparr>"

text \<open>A slot of the request arrays.\<close>

definition slot_idx :: "u8 \<Rightarrow> nat res" where
  "slot_idx slot = (if unat slot < 20 then Inr (unat slot) else Inl OutOfRange)"

definition sfn_idx :: "u16 \<Rightarrow> nat" where
  "sfn_idx sfn = unat (sfn AND 3)"

definition set2 :: "(nat \<Rightarrow> nat \<Rightarrow> 'a) \<Rightarrow> nat \<Rightarrow> nat \<Rightarrow> 'a \<Rightarrow> nat \<Rightarrow> nat \<Rightarrow> 'a" where
  "set2 f i j v = f(i := (f i)(j := v))"

definition deref :: "'a option \<Rightarrow> 'a res" where
  "deref p = (case p of Some x \<Rightarrow> Inr x | None \<Rightarrow> Inl NullDeref)"

definition blk_write :: "addr \<Rightarrow> nat \<Rightarrow> u8 list \<Rightarrow> 'e mac \<Rightarrow> 'e mac res" where
  "blk_write a off bs s =
     rbind (deref (blocks s a)) (\<lambda>b.
     rbind (wr_block b off bs) (\<lambda>b'. Inr (s\<lparr>blocks := (blocks s)(a := Some b')\<rparr>)))"

section \<open>Groups of messages\<close>

definition allocL1CtrlMsgMem :: "'e env \<Rightarrow> u32 \<Rightarrow> u8 \<Rightarrow> u8 \<Rightarrow> 'e mac \<Rightarrow> (addr \<times> 'e mac) res" where
  "allocL1CtrlMsgMem env sz d c s =
     rbind (get_tx d c s) (\<lambda>t.
       case pcxxCtrlAlloc env d c (lib s) of
         (None, e) \<Rightarrow> Inl AssertFail
       | (Some (a, bs), e) \<Rightarrow>
           rbind (guard (of_nat (length bs) \<ge> sz) AssertFail) (\<lambda>_.
             Inr (a, set_tx d c (t\<lparr>curMsgHeader := Some a, curMsgLen := 0, maxRemLen := of_nat (length bs)\<rparr>)
               (s\<lparr>lib := e, blocks := (blocks s)(a := Some bs)\<rparr>))))"

definition setL1CtrlMsgGrpHeader :: "'e env \<Rightarrow> u8 \<Rightarrow> u8 \<Rightarrow> 'e mac \<Rightarrow> 'e mac res" where
  "setL1CtrlMsgGrpHeader env d c s =
     rbind (get_tx d c s) (\<lambda>_.
       case pcxxCtrlAlloc env d c (lib s) of
         (None, e) \<Rightarrow> Inl AssertFail
       | (Some (a, bs), e) \<Rightarrow>
           rbind (guard ((of_nat (length bs) :: u32) > 32) AssertFail) (\<lambda>_.
           rbind (wr_block bs 0 [0, c]) (\<lambda>bs'.
           let t = \<lparr>generalMsgHeader = Some a, curMsgHeader = Some a, curMsgLen = 4,
                 maxRemLen = of_nat (length bs), totalLen = 4\<rparr>;
               (ok, e') = pcxxCtrlSend env d c a 4 e in
             Inr (set_tx d c t (s\<lparr>lib := e', blocks := (blocks s)(a := Some bs')\<rparr>)))))"

definition traceL1CtrlMsg :: "u8 \<Rightarrow> u8 \<Rightarrow> 'e mac \<Rightarrow> 'e mac res" where
  "traceL1CtrlMsg d c s =
     rbind (get_tx d c s) (\<lambda>t.
     rbind (addPhyTraceItem (case generalMsgHeader t of Some a \<Rightarrow> a | None \<Rightarrow> 0) (totalLen t) (mtrace s))
       (\<lambda>tr. Inr (s\<lparr>mtrace := tr\<rparr>)))"

definition appendL1MsgToList ::
    "'e env \<Rightarrow> u32 \<Rightarrow> u16 \<Rightarrow> u8 \<Rightarrow> u8 \<Rightarrow> u8 \<Rightarrow> u8 \<Rightarrow> 'e mac \<Rightarrow> 'e mac res" where
  "appendL1MsgToList env len sfn slot msgType d c s =
     rbind (guard (sfn < 1024 \<and> slot < 160 \<and> msgType < 254) AssertFail) (\<lambda>_.
     rbind (get_tx d c s) (\<lambda>t0.
     let t = t0\<lparr>curMsgLen := curMsgLen t0 + len, totalLen := totalLen t0 + len\<rparr> in
     rbind (guard (curMsgLen t < maxRemLen t) AssertFail) (\<lambda>_.
     rbind (deref (curMsgHeader t)) (\<lambda>cur.
     rbind (deref (generalMsgHeader t)) (\<lambda>g.
     let (ok, e) = pcxxCtrlSend env d c cur (curMsgLen t) (lib s) in
     rbind (deref (blocks s g)) (\<lambda>b.
     rbind (rd b 0) (\<lambda>n.
       blk_write g 0 [n + 1] (set_tx d c t (s\<lparr>lib := e\<rparr>)))))))))"

text \<open>
  The macros \<open>START_L1_MSG_PROC\<close> and \<open>END_L1_MSG_PROC\<close> around the body of a send function: when the
  library refuses to open or to close the group, the function returns at that point.
\<close>

definition msg_group :: "'e env \<Rightarrow> u8 \<Rightarrow> u8 \<Rightarrow> ('e mac \<Rightarrow> 'e mac res) \<Rightarrow> 'e mac \<Rightarrow> 'e mac res" where
  "msg_group env d c body s =
     (case pcxxSendStart env d c (lib s) of
        (False, e) \<Rightarrow> Inr (s\<lparr>lib := e\<rparr>)
      | (True, e) \<Rightarrow>
          rbind (setL1CtrlMsgGrpHeader env d c (s\<lparr>lib := e\<rparr>)) (\<lambda>s1.
          rbind (body s1) (\<lambda>s2.
            case pcxxSendEnd env d c (blocks s2) (lib s2) of
              (False, e2) \<Rightarrow> Inr (s2\<lparr>lib := e2\<rparr>)
            | (True, e2) \<Rightarrow> traceL1CtrlMsg d c (s2\<lparr>lib := e2\<rparr>))))"

text \<open>Filling the general header of a message and appending the message.\<close>

definition finish_msg ::
    "'e env \<Rightarrow> addr \<Rightarrow> L1FAPIMsgId_e \<Rightarrow> u32 \<Rightarrow> u16 \<Rightarrow> u8 \<Rightarrow> u8 \<Rightarrow> u8 \<Rightarrow> u8 \<Rightarrow> 'e mac \<Rightarrow> 'e mac res" where
  "finish_msg env a msgId msgSize sfn slot msgType d c s =
     rbind (blk_write a 0 (bytes_of_u32 (fapi_id msgId) @ bytes_of_u32 msgSize) s) (\<lambda>s1.
       appendL1MsgToList env (msgSize + 8) sfn slot msgType d c s1)"

text \<open>The body of a message as the program packed it, from byte 8 of its buffer.\<close>

definition put_body :: "addr \<Rightarrow> u8 list \<Rightarrow> 'e mac \<Rightarrow> 'e mac res" where
  "put_body a out s =
     rbind (deref (blocks s a)) (\<lambda>b. Inr (s\<lparr>blocks := (blocks s)(a := Some (take 8 b @ out))\<rparr>))"

definition get_body :: "addr \<Rightarrow> 'e mac \<Rightarrow> u8 list res" where
  "get_body a s = rbind (deref (blocks s a)) (\<lambda>b. Inr (drop 8 b))"

section \<open>Requests without a body, and the configuration\<close>

definition sendPhyParamReq :: "'e env \<Rightarrow> u8 \<Rightarrow> u8 \<Rightarrow> 'e mac \<Rightarrow> 'e mac res" where
  "sendPhyParamReq env d c = msg_group env d c (\<lambda>s.
     rbind (allocL1CtrlMsgMem env 8 d c s) (\<lambda>(a, s1).
       finish_msg env a FAPI_PARAM_REQUEST 0 0 0 0 d c s1))"

definition sendPhyStartReq :: "'e env \<Rightarrow> u8 \<Rightarrow> u8 \<Rightarrow> 'e mac \<Rightarrow> 'e mac res" where
  "sendPhyStartReq env d c = msg_group env d c (\<lambda>s.
     rbind (allocL1CtrlMsgMem env 8 d c s) (\<lambda>(a, s1).
       finish_msg env a FAPI_START_REQUEST 0 0 0 (l1_id L1_START_REQUEST) d c s1))"

definition sendPhyStopReq :: "'e env \<Rightarrow> u8 \<Rightarrow> u8 \<Rightarrow> 'e mac \<Rightarrow> 'e mac res" where
  "sendPhyStopReq env d c = msg_group env d c (\<lambda>s.
     rbind (allocL1CtrlMsgMem env 8 d c s) (\<lambda>(a, s1).
       finish_msg env a FAPI_STOP_REQUEST 0 0 0 (l1_id L1_STOP_REQUEST) d c s1))"

text \<open>
  In the generator mode the body is a file's content behind its 8-byte header, copied with the size
  of the whole file. In the other mode \<open>ConfigReqParams\<close> is given the address of the pointer, not
  the pointer: it reads the pointer array from element \<open>[d][c]\<close> on.
\<close>

definition sendPhyConfigReq :: "'e env \<Rightarrow> u8 \<Rightarrow> u8 \<Rightarrow> 'e mac \<Rightarrow> 'e mac res" where
  "sendPhyConfigReq env d c = msg_group env d c (\<lambda>s.
     rbind (allocL1CtrlMsgMem env 8 d c s) (\<lambda>(a, s1).
     rbind (get_chan d c s1) (\<lambda>ch.
     rbind (if runMode (gMacCtx ch) = RUNMODE_FAPI_GENERATOR then
              rbind (deref (gL1ConfigRequest ch)) (\<lambda>src.
              rbind (rd_block src 8 (unat (gL1ConfigReqSize ch))) (\<lambda>bs.
              rbind (blk_write a 8 bs s1) (\<lambda>s2. Inr (gL1ConfigReqSize ch - 8, s2))))
            else
              rbind (get_body a s1) (\<lambda>out.
              rbind (ConfigReqParams (drop (8 * (2 * unat d + unat c)) (ptr_bytes env)) out) (\<lambda>p.
              rbind (put_body a (pk_out p) s1) (\<lambda>s2. Inr (of_nat (pk_off p), s2))))) (\<lambda>(msgSize, s2).
       finish_msg env a FAPI_CONFIG_REQUEST msgSize 0 0 (l1_id L1_CONFIG_REQUEST) d c s2))))"

section \<open>TTI requests\<close>

text \<open>The parts of \<open>sendDlTTIReq\<close>: the body in the generator mode, and in the other.\<close>

definition dl_body :: "addr \<Rightarrow> u16 \<Rightarrow> u8 \<Rightarrow> u8 \<Rightarrow> u8 \<Rightarrow> 'e mac \<Rightarrow> (u32 \<times> 'e mac) res" where
  "dl_body a sfn slot d c s =
     rbind (get_chan d c s) (\<lambda>ch.
     rbind (slot_idx slot) (\<lambda>j.
     let i = sfn_idx sfn in
     rbind (deref (gL1DLTTIReq ch i j)) (\<lambda>req.
     if runMode (gMacCtx ch) = RUNMODE_FAPI_GENERATOR then
       rbind (put16 req 8 L1DLTTIReq_t ''SFN'' sfn) (\<lambda>r1.
       rbind (put16 r1 8 L1DLTTIReq_t ''Slot'' (ucast slot)) (\<lambda>r2.
       let s1 = set_chan d c (ch\<lparr>gL1DLTTIReq := set2 (gL1DLTTIReq ch) i j (Some r2)\<rparr>) s;
           sz = gL1DlttiReqSize ch i j in
       rbind (rd_block r2 8 (unat sz)) (\<lambda>bs.
       rbind (blk_write a 8 bs s1) (\<lambda>s2. Inr (sz - 8, s2)))))
     else
       rbind (get_body a s) (\<lambda>out.
       rbind (DlttiParams (gMacTxRfn ch) (ucast (gMacTxSlot ch)) req out) (\<lambda>p.
       let s1 = set_chan d c (ch\<lparr>gL1DLTTIReq := set2 (gL1DLTTIReq ch) i j (Some (pk_in p))\<rparr>) s in
       rbind (put_body a (pk_out p) s1) (\<lambda>s2. Inr (of_nat (pk_off p), s2)))))))"

definition sendDlTTIReq :: "'e env \<Rightarrow> u16 \<Rightarrow> u8 \<Rightarrow> u8 \<Rightarrow> u8 \<Rightarrow> 'e mac \<Rightarrow> 'e mac res" where
  "sendDlTTIReq env sfn slot d c s =
     rbind (allocL1CtrlMsgMem env 8 d c s) (\<lambda>(a, s1).
     rbind (dl_body a sfn slot d c s1) (\<lambda>(msgSize, s2).
       finish_msg env a FAPI_DL_TTI_REQUEST msgSize sfn slot (l1_id L1_DL_TTI_REQUEST) d c s2))"

definition ul_body :: "addr \<Rightarrow> u16 \<Rightarrow> u8 \<Rightarrow> u8 \<Rightarrow> u8 \<Rightarrow> 'e mac \<Rightarrow> (u32 \<times> 'e mac) res" where
  "ul_body a sfn slot d c s =
     rbind (get_chan d c s) (\<lambda>ch.
     rbind (slot_idx slot) (\<lambda>j.
     let i = sfn_idx sfn in
     rbind (deref (gL1ULTTI ch i j)) (\<lambda>req.
     if runMode (gMacCtx ch) = RUNMODE_FAPI_GENERATOR then
       rbind (put16 req 8 L1ULTTI_t ''SFN'' sfn) (\<lambda>r1.
       rbind (put16 r1 8 L1ULTTI_t ''Slot'' (ucast slot)) (\<lambda>r2.
       let s1 = set_chan d c (ch\<lparr>gL1ULTTI := set2 (gL1ULTTI ch) i j (Some r2)\<rparr>) s;
           sz = gL1UlttiReqSize ch i j in
       rbind (rd_block r2 8 (unat sz)) (\<lambda>bs.
       rbind (blk_write a 8 bs s1) (\<lambda>s2. Inr (sz - 8, s2)))))
     else
       rbind (get_body a s) (\<lambda>out.
       rbind (UlttiParams (gMacRxRfn ch) (ucast (gMacRxSlot ch)) req out) (\<lambda>p.
       let s1 = set_chan d c (ch\<lparr>gL1ULTTI := set2 (gL1ULTTI ch) i j (Some (pk_in p))\<rparr>) s in
       rbind (put_body a (pk_out p) s1) (\<lambda>s2. Inr (of_nat (pk_off p), s2)))))))"

definition sendUlTTIReq :: "'e env \<Rightarrow> u16 \<Rightarrow> u8 \<Rightarrow> u8 \<Rightarrow> u8 \<Rightarrow> 'e mac \<Rightarrow> 'e mac res" where
  "sendUlTTIReq env sfn slot d c s =
     rbind (allocL1CtrlMsgMem env 8 d c s) (\<lambda>(a, s1).
     rbind (ul_body a sfn slot d c s1) (\<lambda>(msgSize, s2).
       finish_msg env a FAPI_UL_TTI_REQUEST msgSize sfn slot (l1_id L1_UL_TTI_REQUEST) d c s2))"

text \<open>
  The row of \<open>Predefine_Data_Buf\<close> for a frame and slot, as a reader of its bytes. No code writes the
  array, so its 80 rows of \<open>2 ^ 18\<close> bytes are zero.
\<close>

definition predef_row :: "L1SlotInd \<Rightarrow> predef" where
  "predef_row g off n =
     (if (unat (si_SFN g AND 3) * 20 + unat (si_Slot g)) * 2 ^ 18 + off + n \<le> 80 * 2 ^ 18
      then Inr (replicate n 0) else Inl OutOfRange)"

definition tx_body :: "'e env \<Rightarrow> addr \<Rightarrow> u16 \<Rightarrow> u8 \<Rightarrow> u8 \<Rightarrow> u8 \<Rightarrow> 'e mac \<Rightarrow> (u32 \<times> 'e mac) res" where
  "tx_body env a sfn slot d c s =
     rbind (get_chan d c s) (\<lambda>ch.
     rbind (slot_idx slot) (\<lambda>j.
     let i = sfn_idx sfn; skip = (if runMode (gMacCtx ch) = RUNMODE_FAPI_GENERATOR then 8 else 0) in
     rbind (deref (gL1TXDATAREQ ch i j)) (\<lambda>req.
     rbind (get_body a s) (\<lambda>out.
     rbind (TxdataParams \<lparr>dp_alloc = pcxxDataAlloc env d c, dp_send = pcxxDataSend env d c\<rparr>
         (pdschMode (gMacCtx ch)) (predef_row (gL2TxGSfn ch)) (gMacTxRfn ch) (ucast (gMacTxSlot ch))
         (drop skip req) out (lib s)) (\<lambda>(p, e).
     let s1 = (set_chan d c (ch\<lparr>gL1TXDATAREQ := set2 (gL1TXDATAREQ ch) i j
         (Some (take skip req @ pk_in p))\<rparr>) s)\<lparr>lib := e\<rparr> in
     rbind (put_body a (pk_out p) s1) (\<lambda>s2. Inr (of_nat (pk_off p), s2)))))))"

definition sendTxdataReq :: "'e env \<Rightarrow> u16 \<Rightarrow> u8 \<Rightarrow> u8 \<Rightarrow> u8 \<Rightarrow> 'e mac \<Rightarrow> 'e mac res" where
  "sendTxdataReq env sfn slot d c s =
     rbind (allocL1CtrlMsgMem env 8 d c s) (\<lambda>(a, s1).
     rbind (tx_body env a sfn slot d c s1) (\<lambda>(msgSize, s2).
       finish_msg env a FAPI_TX_DATA_REQUEST msgSize sfn slot (l1_id L1_TX_DATA_REQUEST) d c s2))"

definition sendSingleDlTTIReq :: "'e env \<Rightarrow> u16 \<Rightarrow> u8 \<Rightarrow> u8 \<Rightarrow> u8 \<Rightarrow> 'e mac \<Rightarrow> 'e mac res" where
  "sendSingleDlTTIReq env sfn slot d c = msg_group env d c (sendDlTTIReq env sfn slot d c)"

definition sendSingleUlTTIReq :: "'e env \<Rightarrow> u16 \<Rightarrow> u8 \<Rightarrow> u8 \<Rightarrow> u8 \<Rightarrow> 'e mac \<Rightarrow> 'e mac res" where
  "sendSingleUlTTIReq env sfn slot d c = msg_group env d c (sendUlTTIReq env sfn slot d c)"

definition sendSingleTxDataReq :: "'e env \<Rightarrow> u16 \<Rightarrow> u8 \<Rightarrow> u8 \<Rightarrow> u8 \<Rightarrow> 'e mac \<Rightarrow> 'e mac res" where
  "sendSingleTxDataReq env sfn slot d c = msg_group env d c (sendTxdataReq env sfn slot d c)"

section \<open>The requests of a slot\<close>

definition loadTxCfg :: "u32 \<Rightarrow> 'e mac \<Rightarrow> 'e mac" where
  "loadTxCfg txCfg s = s\<lparr>gDlttiTxEnable := ucast (txCfg AND 1),
     gUlttiTxEnable := ucast (drop_bit 1 txCfg AND 1), gCsiTxEnable := ucast (drop_bit 2 txCfg AND 1),
     gTxdataTxEnble := ucast (drop_bit 3 txCfg AND 1)\<rparr>"

definition getTxCfg :: "'e mac \<Rightarrow> MacTxEnable_t" where
  "getTxCfg s = \<lparr>dlttiTxEnable = gDlttiTxEnable s, ulttiTxEnable = gUlttiTxEnable s,
     txdataTxEnble = gTxdataTxEnble s, csiTxEnable = gCsiTxEnable s\<rparr>"

definition macTtiTx :: "'e env \<Rightarrow> u16 \<Rightarrow> u8 \<Rightarrow> u8 \<Rightarrow> u8 \<Rightarrow> 'e mac \<Rightarrow> 'e mac res" where
  "macTtiTx env sfn slot d c s =
     (let en = getTxCfg s in
      msg_group env d c (\<lambda>s0.
        rbind (if dlttiTxEnable en = 1 then sendDlTTIReq env sfn slot d c s0 else Inr s0) (\<lambda>s1.
        rbind (if ulttiTxEnable en = 1 then sendUlTTIReq env sfn slot d c s1 else Inr s1) (\<lambda>s2.
          if txdataTxEnble en = 1 then sendTxdataReq env sfn slot d c s2 else Inr s2))) s)"

section \<open>A group describes itself\<close>

text \<open>
  What the program relies on: a control buffer the library hands out is none of those it has handed
  out before. \<open>nxt\<close> reads the first free address from the library's state.
\<close>

definition fresh_buffers :: "'e env \<Rightarrow> ('e \<Rightarrow> addr) \<Rightarrow> bool" where
  "fresh_buffers env nxt \<longleftrightarrow>
     (\<forall>d c e a bs e'. pcxxCtrlAlloc env d c e = (Some (a, bs), e') \<longrightarrow> nxt e \<le> a \<and> a < nxt e') \<and>
     (\<forall>d c a n e. nxt e \<le> nxt (snd (pcxxCtrlSend env d c a n e))) \<and>
     (\<forall>d c n e. nxt e \<le> nxt (snd (pcxxDataAlloc env d c n e))) \<and>
     (\<forall>d c off n bs e. nxt e \<le> nxt (pcxxDataSend env d c off n bs e))"

lemma fresh_alloc:
  "fresh_buffers env nxt \<Longrightarrow> pcxxCtrlAlloc env d c e = (Some (a, bs), e') \<Longrightarrow> nxt e \<le> a \<and> a < nxt e'"
  by (simp add: fresh_buffers_def)

lemma fresh_lib:
  assumes "fresh_buffers env nxt"
  shows "nxt e \<le> nxt (snd (pcxxCtrlSend env d c a n e))"
    and "nxt e \<le> nxt (snd (pcxxDataAlloc env d c n e))"
    and "nxt e \<le> nxt (pcxxDataSend env d c off n bs e)"
  using assms unfolding fresh_buffers_def by blast+

abbreviation tx_of :: "'e mac \<Rightarrow> u8 \<Rightarrow> u8 \<Rightarrow> PhyApiTxCtxt_s" where
  "tx_of s d c \<equiv> phyCtrlMsgCtxt (chans s d c)"

lemma get_tx_Inr: "get_tx d c s = Inr t \<longleftrightarrow> d < 4 \<and> c < 2 \<and> t = tx_of s d c"
  by (auto simp: get_tx_def get_chan_def)

lemma set_tx_simps [simp]:
  "tx_of (set_tx d c t s) d c = t" "blocks (set_tx d c t s) = blocks s" "lib (set_tx d c t s) = lib s"
  by (simp_all add: set_tx_def set_chan_def)

lemma set_chan_simps [simp]:
  "blocks (set_chan d c ch s) = blocks s" "lib (set_chan d c ch s) = lib s"
  "tx_of (set_chan d c ch s) d c = phyCtrlMsgCtxt ch"
  by (simp_all add: set_chan_def)

lemma deref_Some [simp]: "deref (Some x) = Inr x" by (simp add: deref_def)

lemma deref_Inr [simp]: "deref p = Inr x \<longleftrightarrow> p = Some x"
  by (auto simp: deref_def split: option.splits)

lemma blk_write_Inr:
  "blk_write a off bs s = Inr s' \<longleftrightarrow> (\<exists>b. blocks s a = Some b \<and> off + length bs \<le> length b \<and>
     s' = s\<lparr>blocks := (blocks s)(a := Some (overlay b off bs))\<rparr>)"
  by (auto simp: blk_write_def rbind_Inr_iff wr_block_Inr)

text \<open>
  The state of an open group: the messages sent so far as (address, id, size). The general header
  counts them, each has its header, the total length is theirs, and all buffers are different.
\<close>

definition msg_ok :: "'e mac \<Rightarrow> addr \<times> u32 \<times> u32 \<Rightarrow> bool" where
  "msg_ok s m = (case m of (a, i, n) \<Rightarrow>
     \<exists>b. blocks s a = Some b \<and> rd_u32 b 0 = Inr i \<and> rd_u32 b 4 = Inr n)"

definition group_inv ::
    "('e \<Rightarrow> addr) \<Rightarrow> u8 \<Rightarrow> u8 \<Rightarrow> addr \<Rightarrow> (addr \<times> u32 \<times> u32) list \<Rightarrow> 'e mac \<Rightarrow> bool" where
  "group_inv nxt d c g ms s \<longleftrightarrow>
     generalMsgHeader (tx_of s d c) = Some g \<and> g < nxt (lib s) \<and>
     (\<exists>b. blocks s g = Some b \<and> 4 \<le> length b \<and> b ! 0 = of_nat (length ms) \<and> b ! 1 = c) \<and>
     totalLen (tx_of s d c) = 4 + sum_list (map (\<lambda>(a, i, n). n + 8) ms) \<and> distinct (map fst ms) \<and>
     (\<forall>m \<in> set ms. msg_ok s m \<and> fst m < nxt (lib s) \<and> fst m \<noteq> g)"

text \<open>What the code between the allocation and the end of a message may change.\<close>

definition body_frame :: "('e \<Rightarrow> addr) \<Rightarrow> addr \<Rightarrow> u8 \<Rightarrow> u8 \<Rightarrow> 'e mac \<Rightarrow> 'e mac \<Rightarrow> bool" where
  "body_frame nxt a d c s s' \<longleftrightarrow>
     (\<forall>x. x \<noteq> a \<longrightarrow> blocks s' x = blocks s x) \<and> tx_of s' d c = tx_of s d c \<and> nxt (lib s) \<le> nxt (lib s')"

lemma body_frame_refl [simp]: "body_frame nxt a d c s s"
  by (simp add: body_frame_def)

lemma body_frame_trans:
  "body_frame nxt a d c s t \<Longrightarrow> body_frame nxt a d c t u \<Longrightarrow> body_frame nxt a d c s u"
  by (auto simp: body_frame_def)

lemma group_inv_frame:
  assumes "group_inv nxt d c g ms s" and "body_frame nxt a d c s s'" and "a \<noteq> g" and "a \<notin> fst ` set ms"
  shows "group_inv nxt d c g ms s'"
proof -
  have f: "\<And>x. x \<noteq> a \<Longrightarrow> blocks s' x = blocks s x" "tx_of s' d c = tx_of s d c"
    "nxt (lib s) \<le> nxt (lib s')" using assms(2) by (auto simp: body_frame_def)
  have "msg_ok s' m \<and> fst m < nxt (lib s') \<and> fst m \<noteq> g" if m: "m \<in> set ms" for m
  proof -
    have "fst m \<noteq> a" using assms(4) m by force
    then have "blocks s' (fst m) = blocks s (fst m)" by (rule f)
    then have "msg_ok s' m = msg_ok s m" by (cases m) (simp add: msg_ok_def)
    then show ?thesis using assms(1) m f(3) by (auto simp: group_inv_def)
  qed
  then show ?thesis using assms(1,3) f by (auto simp: group_inv_def)
qed

lemma allocL1CtrlMsgMem_inv:
  assumes "fresh_buffers env nxt" and "allocL1CtrlMsgMem env sz d c s = Inr (a, s')"
    and "group_inv nxt d c g ms s"
  shows "group_inv nxt d c g ms s' \<and> a \<noteq> g \<and> a \<notin> fst ` set ms \<and> a < nxt (lib s') \<and>
    curMsgHeader (tx_of s' d c) = Some a \<and> d < 4 \<and> c < 2"
proof -
  obtain bs e where al: "pcxxCtrlAlloc env d c (lib s) = (Some (a, bs), e)"
    and s': "s' = set_tx d c (tx_of s d c\<lparr>curMsgHeader := Some a, curMsgLen := 0, maxRemLen := of_nat (length bs)\<rparr>)
      (s\<lparr>lib := e, blocks := (blocks s)(a := Some bs)\<rparr>)" and dc: "d < 4" "c < 2"
    using assms(2) by (auto simp: allocL1CtrlMsgMem_def rbind_Inr_iff get_tx_Inr split: prod.splits option.splits)
  have a: "nxt (lib s) \<le> a" "a < nxt e" using fresh_alloc [OF assms(1) al] by auto
  have ne: "a \<noteq> g" "a \<notin> fst ` set ms" using assms(3) a by (auto simp: group_inv_def)
  let ?s1 = "s\<lparr>lib := e, blocks := (blocks s)(a := Some bs)\<rparr>"
  have "group_inv nxt d c g ms ?s1"
    using assms(3) _ ne by (rule group_inv_frame) (use a in \<open>simp add: body_frame_def\<close>)
  then have "group_inv nxt d c g ms s'"
    unfolding s' by (simp add: group_inv_def msg_ok_def)
  then show ?thesis using ne a dc by (simp add: s')
qed

lemma appendL1MsgToList_inv:
  assumes "fresh_buffers env nxt" and "appendL1MsgToList env (n + 8) sfn slot ty d c s = Inr s'"
    and "group_inv nxt d c g ms s" and "msg_ok s (a, i, n)" and "a \<noteq> g" and "a < nxt (lib s)"
    and "a \<notin> fst ` set ms"
  shows "group_inv nxt d c g (ms @ [(a, i, n)]) s'"
proof -
  let ?t = "tx_of s d c\<lparr>curMsgLen := curMsgLen (tx_of s d c) + (n + 8), totalLen := totalLen (tx_of s d c) + (n + 8)\<rparr>"
  obtain b where b: "blocks s g = Some b" "4 \<le> length b" "b ! 0 = of_nat (length ms)" "b ! 1 = c"
    and g: "generalMsgHeader (tx_of s d c) = Some g"
    using assms(3) by (auto simp: group_inv_def)
  obtain cur where
    s': "s' = (set_tx d c ?t (s\<lparr>lib := snd (pcxxCtrlSend env d c cur (curMsgLen ?t) (lib s))\<rparr>))
      \<lparr>blocks := (blocks s)(g := Some (overlay b 0 [b ! 0 + 1]))\<rparr>"
    using assms(2) b g unfolding appendL1MsgToList_def Let_def
    by (auto simp: rbind_Inr_iff get_tx_Inr blk_write_Inr case_prod_beta rd_def split: if_splits)
  define e where "e = snd (pcxxCtrlSend env d c cur (curMsgLen ?t) (lib s))"
  have e: "nxt (lib s) \<le> nxt e" unfolding e_def by (rule fresh_lib [OF assms(1)])
  have b0: "0 < length b" "1 < length b" using b(2) by linarith+
  have ov: "overlay b 0 [b ! 0 + 1] ! 0 = of_nat (length ms) + 1" "overlay b 0 [b ! 0 + 1] ! 1 = c"
    using b(3,4) b0 nth_overlay [of 0 "[b ! 0 + 1]" b 0] nth_overlay [of 0 "[b ! 0 + 1]" b 1] by simp_all
  have "length (overlay b 0 [b ! 0 + 1]) = length b" using b0 by (intro length_overlay) simp
  moreover have "msg_ok s' m" if "msg_ok s m" "fst m \<noteq> g" for m
    using that by (auto simp: msg_ok_def s' split: prod.splits)
  ultimately show ?thesis
    using assms(3-7) e ov b(2) unfolding group_inv_def s' e_def [symmetric]
    by (auto simp: add.commute add.left_commute)
qed

lemma rd_header: "8 \<le> length b \<Longrightarrow> rd_u32 (overlay b 0 (bytes_of_u32 i @ bytes_of_u32 n)) 0 = Inr i \<and>
    rd_u32 (overlay b 0 (bytes_of_u32 i @ bytes_of_u32 n)) 4 = Inr n"
  using rd_u32_bytes [of "[]" 0 i "bytes_of_u32 n @ drop 8 b"] rd_u32_bytes [of "bytes_of_u32 i" 4 n "drop 8 b"]
  by (simp add: overlay_def)

lemma finish_msg_inv:
  assumes "fresh_buffers env nxt" and "finish_msg env a i n sfn slot ty d c s = Inr s'"
    and "group_inv nxt d c g ms s" and "a \<noteq> g" and "a \<notin> fst ` set ms" and "a < nxt (lib s)"
  shows "group_inv nxt d c g (ms @ [(a, fapi_id i, n)]) s'"
proof -
  let ?hd = "bytes_of_u32 (fapi_id i) @ bytes_of_u32 n"
  obtain b where b: "blocks s a = Some b" "8 \<le> length b"
    and ap: "appendL1MsgToList env (n + 8) sfn slot ty d c
      (s\<lparr>blocks := (blocks s)(a := Some (overlay b 0 ?hd))\<rparr>) = Inr s'"
    using assms(2) by (auto simp: finish_msg_def rbind_Inr_iff blk_write_Inr)
  let ?s1 = "s\<lparr>blocks := (blocks s)(a := Some (overlay b 0 ?hd))\<rparr>"
  have "group_inv nxt d c g ms ?s1"
    using assms(3) _ assms(4,5) by (rule group_inv_frame) (simp add: body_frame_def)
  moreover have "msg_ok ?s1 (a, fapi_id i, n)" using rd_header [OF b(2)] by (simp add: msg_ok_def)
  ultimately show ?thesis using appendL1MsgToList_inv [OF assms(1) ap] assms(4-6) by simp
qed

text \<open>The packer of TX data moves the library only forward.\<close>

definition dp_mono :: "'e data_path \<Rightarrow> ('e \<Rightarrow> addr) \<Rightarrow> bool" where
  "dp_mono dp nxt \<longleftrightarrow> (\<forall>n e. nxt e \<le> nxt (snd (dp_alloc dp n e))) \<and>
     (\<forall>off n bs e. nxt e \<le> nxt (dp_send dp off n bs e))"

lemma payload_mono:
  assumes "dp_mono dp nxt" and "macDlSchBuildPayload dp mode predef n off e = Inr (v, e')"
  shows "nxt e \<le> nxt e'"
proof (cases "dp_alloc dp n e")
  case (Pair r e1)
  have "nxt e \<le> nxt e1" using assms(1) Pair unfolding dp_mono_def by (metis snd_conv)
  moreover have "nxt e1 \<le> nxt e'"
    using assms Pair by (cases r) (auto simp: macDlSchBuildPayload_def rbind_Inr_iff dp_mono_def)
  ultimately show ?thesis by simp
qed

lemma txTlv_mono:
  "dp_mono dp nxt \<Longrightarrow> txTlv dp mode predef a (p, e) = Inr (q, e') \<Longrightarrow> nxt e \<le> nxt e'"
  by (auto simp: txTlv_def Let_def rbind_Inr_iff split: if_splits dest: payload_mono)

lemma txTlvs_mono:
  "dp_mono dp nxt \<Longrightarrow> txTlvs dp mode predef n a (p, e) = Inr (q, e') \<Longrightarrow> nxt e \<le> nxt e'"
proof (induction n arbitrary: a p e)
  case (Suc n)
  obtain p1 e1 where s: "txTlv dp mode predef a (p, e) = Inr (p1, e1)"
    and r: "txTlvs dp mode predef n (a + csize L1DataTLV_t) (p1, e1) = Inr (q, e')"
    using Suc.prems(2) by (auto simp: rbind_Inr_iff)
  show ?case using txTlv_mono [OF Suc.prems(1) s] Suc.IH [OF Suc.prems(1) r] by simp
qed simp

lemma txPdu_mono:
  "dp_mono dp nxt \<Longrightarrow> txPdu dp mode predef (p, e) = Inr (q, e') \<Longrightarrow> nxt e \<le> nxt e'"
  by (auto simp: txPdu_def Let_def rbind_Inr_iff dest: txTlvs_mono)

lemma txPdus_mono:
  "dp_mono dp nxt \<Longrightarrow> txPdus dp mode predef n (p, e) = Inr (q, e') \<Longrightarrow> nxt e \<le> nxt e'"
proof (induction n arbitrary: p e)
  case (Suc n)
  obtain p1 e1 where s: "txPdu dp mode predef (p, e) = Inr (p1, e1)"
    and r: "txPdus dp mode predef n (p1, e1) = Inr (q, e')"
    using Suc.prems(2) by (auto simp: rbind_Inr_iff)
  show ?case using txPdu_mono [OF Suc.prems(1) s] Suc.IH [OF Suc.prems(1) r] by simp
qed simp

lemma TxdataParams_mono:
  "dp_mono dp nxt \<Longrightarrow> TxdataParams dp mode predef sfn slot m out e = Inr (q, e') \<Longrightarrow> nxt e \<le> nxt e'"
  by (auto simp: TxdataParams_def Let_def rbind_Inr_iff dest: txPdus_mono)

lemma put_body_Inr:
  "put_body a out s = Inr s' \<longleftrightarrow> (\<exists>b. blocks s a = Some b \<and>
    s' = s\<lparr>blocks := (blocks s)(a := Some (take 8 b @ out))\<rparr>)"
  by (auto simp: put_body_def rbind_Inr_iff)

lemma set_chan_frame [simp]:
  "phyCtrlMsgCtxt ch = tx_of s d c \<Longrightarrow> body_frame nxt a d c s (set_chan d c ch s)"
  by (simp add: body_frame_def)

lemma put_body_frame: "put_body a out s = Inr s' \<Longrightarrow> body_frame nxt a d c s s'"
  by (auto simp: put_body_Inr body_frame_def)

lemma blk_write_frame: "blk_write a off bs s = Inr s' \<Longrightarrow> body_frame nxt a d c s s'"
  by (auto simp: blk_write_Inr body_frame_def)

lemma get_chan_Inr: "get_chan d c s = Inr ch \<longleftrightarrow> d < 4 \<and> c < 2 \<and> ch = chans s d c"
  by (auto simp: get_chan_def)

lemma dl_body_frame: "dl_body a sfn slot d c s = Inr (n, s') \<Longrightarrow> body_frame nxt a d c s s'"
  by (auto simp: dl_body_def Let_def rbind_Inr_iff get_chan_Inr blk_write_Inr put_body_Inr body_frame_def
      split: if_splits)

lemma ul_body_frame: "ul_body a sfn slot d c s = Inr (n, s') \<Longrightarrow> body_frame nxt a d c s s'"
  by (auto simp: ul_body_def Let_def rbind_Inr_iff get_chan_Inr blk_write_Inr put_body_Inr body_frame_def
      split: if_splits)

lemma tx_body_frame:
  assumes "fresh_buffers env nxt" and "tx_body env a sfn slot d c s = Inr (n, s')"
  shows "body_frame nxt a d c s s'"
proof -
  have "dp_mono \<lparr>dp_alloc = pcxxDataAlloc env d c, dp_send = pcxxDataSend env d c\<rparr> nxt"
    using fresh_lib [OF assms(1)] by (simp add: dp_mono_def)
  note mono = TxdataParams_mono [OF this]
  show ?thesis
    using assms(2) by (auto simp: tx_body_def Let_def rbind_Inr_iff get_chan_Inr put_body_Inr body_frame_def
        dest: mono)
qed

text \<open>One send function inside an open group.\<close>

lemma send_inv:
  assumes "fresh_buffers env nxt" and "group_inv nxt d c g ms s"
    and "rbind (allocL1CtrlMsgMem env 8 d c s) (\<lambda>(a, s1). rbind (body a s1) (\<lambda>(n, s2).
      finish_msg env a i n sfn slot ty d c s2)) = Inr s'"
    and "\<And>a n s1 s2. body a s1 = Inr (n, s2) \<Longrightarrow> body_frame nxt a d c s1 s2"
  shows "\<exists>m. fst (snd m) = fapi_id i \<and> group_inv nxt d c g (ms @ [m]) s'"
proof -
  obtain a s1 n s2 where al: "allocL1CtrlMsgMem env 8 d c s = Inr (a, s1)"
    and b: "body a s1 = Inr (n, s2)" and f: "finish_msg env a i n sfn slot ty d c s2 = Inr s'"
    using assms(3) by (auto simp: rbind_Inr_iff)
  note A = allocL1CtrlMsgMem_inv [OF assms(1) al assms(2)]
  note F = assms(4) [OF b]
  have "group_inv nxt d c g ms s2" using A F group_inv_frame by blast
  moreover have "a < nxt (lib s2)" using A F by (auto simp: body_frame_def)
  ultimately have "group_inv nxt d c g (ms @ [(a, fapi_id i, n)]) s'"
    using finish_msg_inv [OF assms(1) f] A by blast
  then show ?thesis by (intro exI [of _ "(a, fapi_id i, n)"]) simp
qed

lemma sendDlTTIReq_inv:
  "fresh_buffers env nxt \<Longrightarrow> group_inv nxt d c g ms s \<Longrightarrow> sendDlTTIReq env sfn slot d c s = Inr s' \<Longrightarrow>
    \<exists>m. fst (snd m) = fapi_id FAPI_DL_TTI_REQUEST \<and> group_inv nxt d c g (ms @ [m]) s'"
  unfolding sendDlTTIReq_def by (rule send_inv) (auto intro: dl_body_frame)

lemma sendUlTTIReq_inv:
  "fresh_buffers env nxt \<Longrightarrow> group_inv nxt d c g ms s \<Longrightarrow> sendUlTTIReq env sfn slot d c s = Inr s' \<Longrightarrow>
    \<exists>m. fst (snd m) = fapi_id FAPI_UL_TTI_REQUEST \<and> group_inv nxt d c g (ms @ [m]) s'"
  unfolding sendUlTTIReq_def by (rule send_inv) (auto intro: ul_body_frame)

lemma sendTxdataReq_inv:
  "fresh_buffers env nxt \<Longrightarrow> group_inv nxt d c g ms s \<Longrightarrow> sendTxdataReq env sfn slot d c s = Inr s' \<Longrightarrow>
    \<exists>m. fst (snd m) = fapi_id FAPI_TX_DATA_REQUEST \<and> group_inv nxt d c g (ms @ [m]) s'"
  unfolding sendTxdataReq_def by (rule send_inv) (auto intro: tx_body_frame)

lemma setL1CtrlMsgGrpHeader_inv:
  assumes "fresh_buffers env nxt" and "setL1CtrlMsgGrpHeader env d c s = Inr s'"
  shows "\<exists>g. group_inv nxt d c g [] s'"
proof -
  obtain r e where re: "pcxxCtrlAlloc env d c (lib s) = (r, e)" by force
  then obtain g bs where r: "r = Some (g, bs)"
    using assms(2) by (cases r) (auto simp: setL1CtrlMsgGrpHeader_def rbind_Inr_iff)
  note al = re [unfolded r]
  let ?t = "\<lparr>generalMsgHeader = Some g, curMsgHeader = Some g, curMsgLen = 4,
    maxRemLen = of_nat (length bs), totalLen = 4\<rparr>"
  have big: "(of_nat (length bs) :: u32) > 32" and w: "2 \<le> length bs"
    and s': "s' = set_tx d c ?t (s\<lparr>lib := snd (pcxxCtrlSend env d c g 4 e),
        blocks := (blocks s)(g := Some (overlay bs 0 [0, c]))\<rparr>)"
    using assms(2) unfolding setL1CtrlMsgGrpHeader_def
    by (auto simp: al rbind_Inr_iff get_tx_Inr wr_block_Inr guard_def case_prod_beta Let_def split: if_splits)
  have "32 < length bs"
  proof (rule ccontr)
    assume "\<not> 32 < length bs"
    then have "length bs \<le> 32" by simp
    then have "unat (of_nat (length bs) :: u32) \<le> 32" by (simp add: unat_of_nat_u32)
    then show False using big by (simp add: word_less_nat_alt)
  qed
  moreover have "overlay bs 0 [0, c] ! 0 = 0" "overlay bs 0 [0, c] ! 1 = c"
    by (simp_all add: overlay_def)
  moreover have "g < nxt (snd (pcxxCtrlSend env d c g 4 e))"
    using fresh_alloc [OF assms(1) al] fresh_lib(1) [OF assms(1), of e d c g 4] by simp
  ultimately have "group_inv nxt d c g [] s'" using w by (auto simp: s' group_inv_def)
  then show ?thesis by blast
qed

text \<open>
  A group that was closed: what its general header and its messages say. The library's state no
  longer matters.
\<close>

definition group_done :: "u8 \<Rightarrow> u8 \<Rightarrow> u32 list \<Rightarrow> 'e mac \<Rightarrow> bool" where
  "group_done d c is s \<longleftrightarrow> (\<exists>g b ms.
     generalMsgHeader (tx_of s d c) = Some g \<and> blocks s g = Some b \<and>
     b ! 0 = of_nat (length is) \<and> b ! 1 = c \<and> map (fst \<circ> snd) ms = is \<and>
     distinct (g # map fst ms) \<and> totalLen (tx_of s d c) = 4 + sum_list (map (\<lambda>(a, i, n). n + 8) ms) \<and>
     (\<forall>(a, i, n) \<in> set ms. \<exists>b. blocks s a = Some b \<and> rd_u32 b 0 = Inr i \<and> rd_u32 b 4 = Inr n))"

lemma group_inv_done: "group_inv nxt d c g ms s \<Longrightarrow> group_done d c (map (fst \<circ> snd) ms) s"
  unfolding group_inv_def group_done_def
  by (elim conjE exE, intro exI [of _ g] exI exI [of _ ms]) (auto simp: msg_ok_def)

lemma group_done_cong:
  "blocks s' = blocks s \<Longrightarrow> tx_of s' d c = tx_of s d c \<Longrightarrow> group_done d c is s' = group_done d c is s"
  by (simp add: group_done_def)

lemma msg_group_done:
  assumes fr: "fresh_buffers env nxt" and st: "fst (pcxxSendStart env d c (lib s))"
    and run: "msg_group env d c body s = Inr s'"
    and body: "\<And>s1 s2 g. group_inv nxt d c g [] s1 \<Longrightarrow> body s1 = Inr s2 \<Longrightarrow>
      \<exists>ms. map (fst \<circ> snd) ms = is \<and> group_inv nxt d c g ms s2"
  shows "group_done d c is s'"
proof -
  obtain e where e: "pcxxSendStart env d c (lib s) = (True, e)" using st by (metis (full_types) prod.collapse)
  obtain s1 s2 where h: "setL1CtrlMsgGrpHeader env d c (s\<lparr>lib := e\<rparr>) = Inr s1" and b: "body s1 = Inr s2"
    and r: "(case pcxxSendEnd env d c (blocks s2) (lib s2) of
      (False, e2) \<Rightarrow> Inr (s2\<lparr>lib := e2\<rparr>) | (True, e2) \<Rightarrow> traceL1CtrlMsg d c (s2\<lparr>lib := e2\<rparr>)) = Inr s'"
    using run by (auto simp: msg_group_def e rbind_Inr_iff)
  obtain g where "group_inv nxt d c g [] s1" using setL1CtrlMsgGrpHeader_inv [OF fr h] by blast
  then obtain ms where "map (fst \<circ> snd) ms = is" "group_inv nxt d c g ms s2" using body b by blast
  then have "group_done d c is s2" using group_inv_done by blast
  moreover have "blocks s' = blocks s2 \<and> chans s' = chans s2"
    using r by (auto simp: traceL1CtrlMsg_def rbind_Inr_iff split: prod.splits bool.splits)
  ultimately show ?thesis using group_done_cong [of s' s2] by simp
qed

lemma opt_send:
  assumes "group_inv nxt d c g ms s" and "(if b then f s else Inr s) = Inr s'"
    and "f s = Inr s' \<Longrightarrow> \<exists>m. fst (snd m) = i \<and> group_inv nxt d c g (ms @ [m]) s'"
  shows "\<exists>ms'. map (fst \<circ> snd) ms' = map (fst \<circ> snd) ms @ (if b then [i] else []) \<and> group_inv nxt d c g ms' s'"
proof (cases b)
  case True
  then obtain m where "fst (snd m) = i" "group_inv nxt d c g (ms @ [m]) s'" using assms by auto
  then show ?thesis using True by (intro exI [of _ "ms @ [m]"]) simp
qed (use assms in auto)

text \<open>
  C12: A slot's group of requests describes itself. When the library opens the group and
  \<open>macTtiTx\<close> returns, the general header counts the enabled requests and names the cell, the
  messages are those requests in the order DL, UL, TX, each with its identifier and its size in its
  own buffer, and the traced total length is that of the header and of all of them.
\<close>

theorem tti_group_describes_itself:
  assumes "fresh_buffers env nxt" and "fst (pcxxSendStart env d c (lib s))"
    and "macTtiTx env sfn slot d c s = Inr s'"
  shows "group_done d c ((if gDlttiTxEnable s = 1 then [0x80] else []) @
    (if gUlttiTxEnable s = 1 then [0x81] else []) @ (if gTxdataTxEnble s = 1 then [0x84] else [])) s'"
proof (rule msg_group_done [OF assms(1,2) assms(3) [unfolded macTtiTx_def Let_def]])
  fix s0 s3 g
  assume g: "group_inv nxt d c g [] s0" and "rbind (if dlttiTxEnable (getTxCfg s) = 1 then sendDlTTIReq env sfn slot d c s0 else Inr s0) (\<lambda>s1.
        rbind (if ulttiTxEnable (getTxCfg s) = 1 then sendUlTTIReq env sfn slot d c s1 else Inr s1) (\<lambda>s2.
          if txdataTxEnble (getTxCfg s) = 1 then sendTxdataReq env sfn slot d c s2 else Inr s2)) = Inr s3"
  then obtain s1 s2 where r:
    "(if gDlttiTxEnable s = 1 then sendDlTTIReq env sfn slot d c s0 else Inr s0) = Inr s1"
    "(if gUlttiTxEnable s = 1 then sendUlTTIReq env sfn slot d c s1 else Inr s1) = Inr s2"
    "(if gTxdataTxEnble s = 1 then sendTxdataReq env sfn slot d c s2 else Inr s2) = Inr s3"
    by (auto simp: rbind_Inr_iff getTxCfg_def)
  from opt_send [where f = "sendDlTTIReq env sfn slot d c", OF g r(1) sendDlTTIReq_inv [OF assms(1) g, where sfn = sfn and slot = slot]]
  obtain m1 where 1: "map (fst \<circ> snd) m1 = map (fst \<circ> snd) [] @
      (if gDlttiTxEnable s = 1 then [fapi_id FAPI_DL_TTI_REQUEST] else [])" "group_inv nxt d c g m1 s1" by auto
  from opt_send [where f = "sendUlTTIReq env sfn slot d c", OF 1(2) r(2) sendUlTTIReq_inv [OF assms(1) 1(2), where sfn = sfn and slot = slot]]
  obtain m2 where 2: "map (fst \<circ> snd) m2 = map (fst \<circ> snd) m1 @
      (if gUlttiTxEnable s = 1 then [fapi_id FAPI_UL_TTI_REQUEST] else [])" "group_inv nxt d c g m2 s2" by auto
  from opt_send [where f = "sendTxdataReq env sfn slot d c", OF 2(2) r(3) sendTxdataReq_inv [OF assms(1) 2(2), where sfn = sfn and slot = slot]]
  obtain m3 where 3: "map (fst \<circ> snd) m3 = map (fst \<circ> snd) m2 @
      (if gTxdataTxEnble s = 1 then [fapi_id FAPI_TX_DATA_REQUEST] else [])" "group_inv nxt d c g m3 s3" by auto
  show "\<exists>ms. map (fst \<circ> snd) ms = (if gDlttiTxEnable s = 1 then [0x80] else []) @
      (if gUlttiTxEnable s = 1 then [0x81] else []) @ (if gTxdataTxEnble s = 1 then [0x84] else []) \<and>
    group_inv nxt d c g ms s3"
    using 1(1) 2(1) 3 by (intro exI [of _ m3]) simp
qed

text \<open>A library that hands out blocks of 40 zero bytes, and a state with requests in its slots.\<close>

definition count_env :: "nat env" where
  "count_env = \<lparr>pcxxSendStart = (\<lambda>d c e. (True, e)), pcxxSendEnd = (\<lambda>d c m e. (True, e)),
     pcxxCtrlAlloc = (\<lambda>d c e. (Some (e, replicate 40 0), Suc e)), pcxxCtrlSend = (\<lambda>d c a n e. (True, e)),
     pcxxDataAlloc = (\<lambda>d c n e. (None, e)), pcxxDataSend = (\<lambda>d c off n bs e. e),
     pcxxDataRecv = (\<lambda>d c b e. e), pcxxDestroy = (\<lambda>d c e. e), garbage = 0, ptr_bytes = replicate 64 0\<rparr>"

lemma count_env_fresh: "fresh_buffers count_env (\<lambda>e. e)"
  by (simp add: fresh_buffers_def count_env_def)

definition loaded_mac :: "nat mac" where
  "loaded_mac = \<lparr>chans = (\<lambda>d c. chan_zero\<lparr>gL1DLTTIReq := (\<lambda>i j. Some (replicate 28 0)),
       gL1ULTTI := (\<lambda>i j. Some (replicate 28 0)), gL1DlttiReqSize := (\<lambda>i j. 20), gL1UlttiReqSize := (\<lambda>i j. 12)\<rparr>),
     mstats = \<lparr>sMacCellCtx = [], sMacUeCtxt = [], gcurrentScs = [], maxTimeOut = 0, minTimeOut = 0\<rparr>,
     gCellNum = 1, gDlttiTxEnable = 1, gUlttiTxEnable = 1, gTxdataTxEnble = 0, gCsiTxEnable = 0,
     sTcIdInRunning = 0, appCellNum = 1, blocks = (\<lambda>a. None), mtrace = trace0 False, lib = 1\<rparr>"

lemma loaded_mac_runs: "case macTtiTx count_env 5 3 1 0 loaded_mac of Inr s' \<Rightarrow> True | Inl f \<Rightarrow> False"
  by code_simp

theorem tti_group_describes_itself_witness:
  "\<exists>s'. macTtiTx count_env 5 3 1 0 loaded_mac = Inr s' \<and> group_done 1 0 [0x80, 0x81] s'"
proof -
  obtain s' where s': "macTtiTx count_env 5 3 1 0 loaded_mac = Inr s'"
    using loaded_mac_runs by (auto split: sum.splits)
  have "fst (pcxxSendStart count_env 1 0 (lib loaded_mac))" by (simp add: count_env_def)
  then show ?thesis
    using tti_group_describes_itself [OF count_env_fresh _ s'] s' by (simp add: loaded_mac_def)
qed

section \<open>Errors of the requests\<close>

text \<open>
  In the generator mode a slot whose file is missing still has its DL request sent: the size 0
  of the file minus the 8 bytes of its header is a body size of \<open>2 ^ 32 - 8\<close> in the message header,
  the message is counted in the group, and the lengths handed to the library do not change.
\<close>

theorem missing_file_sends_empty_message:
  assumes "d < 4" and "c < 2" and "unat slot < 20" and "sfn < 1024"
    and "runMode (gMacCtx (chans s d c)) = RUNMODE_FAPI_GENERATOR"
    and "gL1DLTTIReq (chans s d c) (sfn_idx sfn) (unat slot) = Some req" and "12 \<le> length req"
    and "gL1DlttiReqSize (chans s d c) (sfn_idx sfn) (unat slot) = 0"
    and "generalMsgHeader (tx_of s d c) = Some g" and "blocks s g = Some b" and "0 < length b"
    and "pcxxCtrlAlloc env d c (lib s) = (Some (a, bs), e)" and "a \<noteq> g"
    and "8 \<le> length bs" and "length bs < 2 ^ 32"
  shows "\<exists>s' m b'. sendDlTTIReq env sfn slot d c s = Inr s' \<and> blocks s' a = Some m \<and>
    rd_u32 m 0 = Inr 0x80 \<and> rd_u32 m 4 = Inr 0xFFFFFFF8 \<and> blocks s' g = Some b' \<and> b' ! 0 = b ! 0 + 1 \<and>
    totalLen (tx_of s' d c) = totalLen (tx_of s d c)"
proof -
  let ?ch = "chans s d c"
  let ?s1 = "set_tx d c (tx_of s d c\<lparr>curMsgHeader := Some a, curMsgLen := 0, maxRemLen := of_nat (length bs)\<rparr>)
    (s\<lparr>lib := e, blocks := (blocks s)(a := Some bs)\<rparr>)"
  have len: "unat (of_nat (length bs) :: u32) = length bs" using assms(15) by (rule unat_of_nat_u32)
  have sl: "slot < 160" using assms(3) by (simp add: word_less_nat_alt)
  have al: "allocL1CtrlMsgMem env 8 d c s = Inr (a, ?s1)"
    using assms(1,2,12,14) len
    by (simp add: allocL1CtrlMsgMem_def get_tx_def get_chan_def word_le_nat_alt)
  define r1 where "r1 = overlay req 8 (bytes_of_u16 sfn)"
  define r2 where "r2 = overlay r1 10 (bytes_of_u16 (ucast slot))"
  have put: "put16 req 8 L1DLTTIReq_t ''SFN'' sfn = Inr r1" "put16 r1 8 L1DLTTIReq_t ''Slot'' (ucast slot) = Inr r2"
    and r2: "rd_block r2 8 0 = Inr []"
    using assms(7) by (simp_all add: put16_def layout r1_def r2_def rd_block_def)
  have nn: "bs \<noteq> []" using assms(14) by auto
  obtain s2 where body: "dl_body a sfn slot d c ?s1 = Inr (- 8, s2)"
    and s2: "blocks s2 = blocks ?s1" "tx_of s2 d c = tx_of ?s1 d c"
    using assms(1-8,14) nn
    by (auto simp: dl_body_def get_chan_def slot_idx_def Let_def put r2
        blk_write_def set_tx_def set_chan_def overlay_def)
  let ?m = "overlay bs 0 (bytes_of_u32 0x80 @ bytes_of_u32 (- 8))"
  have hd: "rd_u32 ?m 0 = Inr 0x80 \<and> rd_u32 ?m 4 = Inr 0xFFFFFFF8"
    using rd_header [OF assms(14), of "0x80" "- 8"] by simp
  have wb: "\<And>v. wr_block b 0 [v] = Inr (v # tl b)"
    using assms(11) by (cases b) (auto simp: wr_block_def overlay_def)
  have "0 < (of_nat (length bs) :: u32)" using len nn by (simp add: word_less_nat_alt)
  then show ?thesis
    using nn assms(1-4,9-14) sl s2 hd
    by (simp add: sendDlTTIReq_def al body finish_msg_def blk_write_def appendL1MsgToList_def
        get_tx_def get_chan_def Let_def case_prod_beta wb)
qed

definition missing_mac :: "nat mac" where
  "missing_mac = loaded_mac\<lparr>chans := (\<lambda>d c. chan_zero\<lparr>gL1DLTTIReq := (\<lambda>i j. Some (replicate 28 0)),
       phyCtrlMsgCtxt := \<lparr>generalMsgHeader = Some 0, curMsgHeader = Some 0, curMsgLen = 4, maxRemLen = 40, totalLen = 4\<rparr>\<rparr>),
     blocks := (\<lambda>a. None)(0 := Some [0, 0, 0, 0]), lib := 7\<rparr>"

theorem missing_file_sends_empty_message_witness:
  "\<exists>s' m b'. sendDlTTIReq count_env 5 3 1 0 missing_mac = Inr s' \<and> blocks s' 7 = Some m \<and>
    rd_u32 m 0 = Inr 0x80 \<and> rd_u32 m 4 = Inr 0xFFFFFFF8 \<and> blocks s' 0 = Some b' \<and> b' ! 0 = 1 \<and>
    totalLen (tx_of s' 1 0) = 4"
  using missing_file_sends_empty_message [of 1 0 3 5 missing_mac "replicate 28 0" 0 "[0, 0, 0, 0]"
      count_env 7 "replicate 40 0" 8]
  by (simp add: missing_mac_def loaded_mac_def chan_zero_def count_env_def)

text \<open>
  Outside the generator mode a configuration request is never sent: \<open>sendPhyConfigReq\<close> passes the
  address of the pointer instead of the pointer, the packer reads the 64 bytes of the pointer array
  as the request, and already the copy of the first 72 bytes leaves the array.
\<close>

theorem rct_config_never_sent:
  assumes "length (ptr_bytes env) = 64" and "fst (pcxxSendStart env d c (lib s))"
    and "runMode (gMacCtx (chans s d c)) \<noteq> RUNMODE_FAPI_GENERATOR"
  shows "\<exists>f. sendPhyConfigReq env d c s = Inl f"
proof (rule ccontr)
  assume "\<nexists>f. sendPhyConfigReq env d c s = Inl f"
  then obtain s' where run: "sendPhyConfigReq env d c s = Inr s'" by (cases "sendPhyConfigReq env d c s") auto
  obtain e where e: "pcxxSendStart env d c (lib s) = (True, e)" using assms(2) by (metis (full_types) prod.collapse)
  obtain s1 a s2 where h: "setL1CtrlMsgGrpHeader env d c (s\<lparr>lib := e\<rparr>) = Inr s1"
    and al: "allocL1CtrlMsgMem env 8 d c s1 = Inr (a, s2)"
    and p: "runMode (gMacCtx (chans s2 d c)) = RUNMODE_FAPI_GENERATOR \<or>
      (\<exists>out p. ConfigReqParams (drop (8 * (2 * unat d + unat c)) (ptr_bytes env)) out = Inr p)"
    using run by (auto simp: sendPhyConfigReq_def msg_group_def e rbind_Inr_iff get_chan_Inr
        simp del: distrib_left_numeral split: if_splits; blast)
  have "runMode (gMacCtx (chans s1 d c)) = runMode (gMacCtx (chans s d c))"
    using h by (cases "pcxxCtrlAlloc env d c e")
      (auto simp: setL1CtrlMsgGrpHeader_def rbind_Inr_iff Let_def case_prod_beta set_tx_def set_chan_def
        split: option.splits)
  moreover have "runMode (gMacCtx (chans s2 d c)) = runMode (gMacCtx (chans s1 d c))"
    using al by (cases "pcxxCtrlAlloc env d c (lib s1)")
      (auto simp: allocL1CtrlMsgMem_def rbind_Inr_iff set_tx_def set_chan_def split: option.splits)
  ultimately obtain out p where "ConfigReqParams (drop (8 * (2 * unat d + unat c)) (ptr_bytes env)) out = Inr p"
    using p assms(3) by auto
  then have "72 \<le> length (drop (8 * (2 * unat d + unat c)) (ptr_bytes env))"
    by (auto simp: ConfigReqParams_def layout pk_copy_def rbind_Inr_iff rd_block_Inr)
  then show False using assms(1) by simp
qed
theorem rct_config_never_sent_witness:
  "\<exists>f. sendPhyConfigReq count_env 1 0 (loaded_mac\<lparr>chans := (\<lambda>d c.
    chan_zero\<lparr>gMacCtx := (gMacCtx chan_zero)\<lparr>runMode := RUNMODE_RCT_MODE\<rparr>\<rparr>)\<rparr>) = Inl f"
  by (rule rct_config_never_sent) (simp_all add: count_env_def)

end
