(* ===== verification/MacRx.thy ===== *)
theory MacRx
  imports MacCell
begin

text \<open>
  The decoders of the uplink indications of \<open>mac/src/mac_rx.c\<close>. A handler receives the bytes of
  the message behind its general header (the list \<open>m\<close>), walks it with the offsets the compiler
  computes for the structures of \<open>L1Layout\<close>, and updates the statistics of \<open>MacCell\<close>. A read
  outside the message, an access outside the UE array and a failed \<open>ASSERT\<close> are faults. Logging
  is not modelled. \<open>pcxxDataRecv\<close> is not part of the repository: the RX data handler returns the
  list of the calls it makes.
\<close>

section \<open>CSI part 1 and UCI\<close>

definition macCSIPart1InfoUciInPuschPduFmt234PduHdlr ::
    "u16 \<Rightarrow> u32 \<Rightarrow> u8 \<Rightarrow> u16 \<Rightarrow> mac_stats \<Rightarrow> (u16 \<times> mac_stats) res" where
  "macCSIPart1InfoUciInPuschPduFmt234PduHdlr cRnti handle CsiPart1Crc tot0 s =
     rbind (guard (handle < 65536) AssertFail) (\<lambda>_.
     rbind (macGetUeByCrnti s cRnti) (\<lambda>u.
     let st = ueStatsInfo u;
         st' = (if CsiPart1Crc = 0 then st\<lparr>numCsiPart1CrcPass := numCsiPart1CrcPass st + 1\<rparr>
                else if CsiPart1Crc = 1 then st\<lparr>numCsiPart1CrcFail := numCsiPart1CrcFail st + 1\<rparr>
                else st) in
     rbind (macSetUeByCrnti s cRnti (u\<lparr>ueStatsInfo := st'\<rparr>)) (\<lambda>s'.
       Inr (ucast (ucast tot0 + numCsiPart1CrcPass st'), s'))))"

definition macCSIPart1InfoUciInPucchPduFmt234PduHdlr ::
    "u16 \<Rightarrow> u32 \<Rightarrow> u8 \<Rightarrow> u16 \<Rightarrow> u16 \<Rightarrow> u16 \<Rightarrow> mac_stats \<Rightarrow> (u16 \<times> mac_stats) res" where
  "macCSIPart1InfoUciInPucchPduFmt234PduHdlr cRnti handle CsiPart1Crc tot0 dev cell s =
     rbind (guard (handle < 65536) AssertFail) (\<lambda>_.
     rbind (macGetUeByCrnti s cRnti) (\<lambda>u.
     let st = ueStatsInfo u;
         st' = (if CsiPart1Crc = 0 then st\<lparr>numCsiPart1CrcPass := numCsiPart1CrcPass st + 1\<rparr>
                else if CsiPart1Crc = 1 then st\<lparr>numCsiPart1CrcFail := numCsiPart1CrcFail st + 1\<rparr>
                else st) in
     rbind (macSetUeByCrnti s cRnti (u\<lparr>ueStatsInfo := st'\<rparr>)) (\<lambda>s'.
     rbind (if CsiPart1Crc = 0 then
              rbind (macGetCellById s' dev cell) (\<lambda>c.
                macSetCellById s' dev cell (c\<lparr>pucchStatsInfo := (pucchStatsInfo c)
                  \<lparr>numPucchCrcPass := numPucchCrcPass (pucchStatsInfo c) + 1\<rparr>\<rparr>))
            else Inr s') (\<lambda>s''.
       Inr (ucast (ucast tot0 + numCsiPart1CrcPass st'), s'')))))"

text \<open>The UE pointer of this handler is computed but never dereferenced.\<close>

definition uci_count :: "u8 \<Rightarrow> macStatsPucch_s \<Rightarrow> macStatsPucch_s" where
  "uci_count CrcStatus p =
     (if CrcStatus = 0 then p\<lparr>numPucchCrcPass := numPucchCrcPass p + 1\<rparr>
      else if CrcStatus = 1 then p\<lparr>numPucchCrcFail := numPucchCrcFail p + 1\<rparr>
      else if CrcStatus = 2 then p\<lparr>numPucchUciDetected := numPucchUciDetected p + 1\<rparr>
      else if CrcStatus = 3 then p\<lparr>numPucchUciNotDetected := numPucchUciNotDetected p + 1\<rparr>
      else p)"

definition macUciInfoInPucchPduFmt234PduHdlr ::
    "u32 \<Rightarrow> u8 \<Rightarrow> u16 \<Rightarrow> u16 \<Rightarrow> mac_stats \<Rightarrow> mac_stats res" where
  "macUciInfoInPucchPduFmt234PduHdlr handle CrcStatus dev cell s =
     rbind (guard (handle < 65536) AssertFail) (\<lambda>_.
     rbind (macGetCellById s dev cell) (\<lambda>c.
       macSetCellById s dev cell (c\<lparr>pucchStatsInfo := uci_count CrcStatus (pucchStatsInfo c)\<rparr>)))"

section \<open>RX data\<close>

text \<open>
  The counter of the TLV loop has 16 bits and its bound 32: with a bound above 65535 it wraps
  and only an access outside the message ends the loop, which \<open>length m + 1\<close> rounds are enough for.
\<close>

fun rxTlvLoop :: "u8 list \<Rightarrow> nat \<Rightarrow> nat \<Rightarrow> ((u32 \<times> u32) list \<times> nat) res" where
  "rxTlvLoop m 0 off = Inr ([], off)"
| "rxTlvLoop m (Suc n) off =
     rbind (fld16 m off L1DataTLV_t ''Tag'') (\<lambda>tag.
     rbind (if tag = 2 then
              rbind (fld32 m off L1DataTLV_t ''Value'') (\<lambda>v.
              rbind (fld32 m off L1DataTLV_t ''Length'') (\<lambda>len. Inr [(v, len)]))
            else Inr []) (\<lambda>calls.
     rbind (rxTlvLoop m n (off + csize L1DataTLV_t)) (\<lambda>(calls', off').
       Inr (calls @ calls', off'))))"

definition tlv_rounds :: "u8 list \<Rightarrow> u32 \<Rightarrow> nat" where
  "tlv_rounds m n = (if unat n < 2 ^ 16 then unat n else length m + 1)"

fun rxPduLoop :: "u8 list \<Rightarrow> nat \<Rightarrow> nat \<Rightarrow> (u32 \<times> u32) list res" where
  "rxPduLoop m 0 off = Inr []"
| "rxPduLoop m (Suc n) off =
     rbind (fld32 m off L1RxDataPduInfo_t ''numTLV'') (\<lambda>numTLV.
     rbind (rxTlvLoop m (tlv_rounds m numTLV) (off + offsetof L1RxDataPduInfo_t ''TLVs''))
       (\<lambda>(calls, off').
     rbind (rxPduLoop m n off') (\<lambda>calls'. Inr (calls @ calls'))))"

definition rxDataIndicationProcDecHdlr :: "u8 list \<Rightarrow> (u32 \<times> u32) list res" where
  "rxDataIndicationProcDecHdlr m =
     rbind (fld16 m 0 L1RxdataIndication_t ''numPDUs'') (\<lambda>n.
       rxPduLoop m (unat n) (offsetof L1RxdataIndication_t ''pdus''))"

section \<open>CRC\<close>

definition crc_count :: "u8 \<Rightarrow> u32 \<Rightarrow> u16 \<Rightarrow> u8 \<Rightarrow> macStatsPusch_s \<Rightarrow> macStatsPusch_s" where
  "crc_count TbCrcStatus TA RSSI SINR p =
     (if TbCrcStatus = 0 then
        p\<lparr>numPuschCrcPass := numPuschCrcPass p + 1, sumTaPUSCH := sumTaPUSCH p + TA,
          sumRssiPUSCH := sumRssiPUSCH p + of_int ((uint RSSI - 1280) sdiv 10),
          sumSnrPUSCH := sumSnrPUSCH p + ucast SINR\<rparr>
      else if TbCrcStatus = 1 then
        p\<lparr>sumFailTaPUSCH := sumFailTaPUSCH p + TA, numPuschCrcFail := numPuschCrcFail p + 1\<rparr>
      else p)"

definition macCrcInHdlr :: "u8 list \<Rightarrow> nat \<Rightarrow> u16 \<Rightarrow> u16 \<Rightarrow> mac_stats \<Rightarrow> mac_stats res" where
  "macCrcInHdlr m off dev cell s =
     rbind (macGetCellById s dev cell) (\<lambda>c.
     rbind (fld8 m off L1CrcInfo_t ''TbCrcStatus'') (\<lambda>st.
     rbind (if st = 0 \<or> st = 1 then fld32 m off L1CrcInfo_t ''TA'' else Inr 0) (\<lambda>ta.
     rbind (if st = 0 then fld16 m off L1CrcInfo_t ''RSSI'' else Inr 0) (\<lambda>rssi.
     rbind (if st = 0 then fld8 m off L1CrcInfo_t ''SINR'' else Inr 0) (\<lambda>sinr.
       macSetCellById s dev cell
         (c\<lparr>puschStatsInfo := crc_count st ta rssi sinr (puschStatsInfo c)\<rparr>))))))"

fun crcLoop :: "u8 list \<Rightarrow> nat \<Rightarrow> nat \<Rightarrow> u16 \<Rightarrow> u16 \<Rightarrow> mac_stats \<Rightarrow> mac_stats res" where
  "crcLoop m 0 off dev cell s = Inr s"
| "crcLoop m (Suc n) off dev cell s =
     rbind (macCrcInHdlr m off dev cell s) (crcLoop m n (off + csize L1CrcInfo_t) dev cell)"

definition crcIndicationProcDecHdlr :: "u8 list \<Rightarrow> u16 \<Rightarrow> u16 \<Rightarrow> mac_stats \<Rightarrow> mac_stats res" where
  "crcIndicationProcDecHdlr m dev cell s =
     rbind (fld16 m 0 L1CrcIndication_t ''numCRCs'') (\<lambda>n.
       crcLoop m (unat n) (offsetof L1CrcIndication_t ''CRCs'') dev cell s)"

section \<open>SRS\<close>

text \<open>The SRS handler reads the number of PDUs, walks over them and keeps nothing.\<close>

fun srsLoop :: "nat \<Rightarrow> nat \<Rightarrow> nat" where
  "srsLoop 0 off = off"
| "srsLoop (Suc n) off = srsLoop n (off + offsetof L1SrsPduInfo_t ''reportTLV'')"

definition srsIndicationProcDecHdlr :: "u8 list \<Rightarrow> nat res" where
  "srsIndicationProcDecHdlr m =
     rbind (fld8 m 0 L1SrsIndication_t ''numPDUs'') (\<lambda>n.
       Inr (srsLoop (unat n) (offsetof L1SrsIndication_t ''pdus'')))"

section \<open>RACH\<close>

definition rach_rssi :: "u16 \<Rightarrow> macStatsRach_s \<Rightarrow> macStatsRach_s" where
  "rach_rssi Rssi r =
     (if totalNumRssi r = 0 then
        r\<lparr>totalNumRssi := totalNumRssi r + 1, rssiMaxPRACH := Rssi, rssiMinPRACH := Rssi,
          rssiAvgPRACH := rssiAvgPRACH r + Rssi\<rparr>
      else
        let r1 = r\<lparr>totalNumRssi := totalNumRssi r + 1\<rparr>;
            r2 = (if Rssi > taMaxPRACH r1 then r1\<lparr>rssiMinPRACH := Rssi\<rparr> else r1);
            r3 = (if Rssi < rssiMaxPRACH r2 then r2\<lparr>rssiMaxPRACH := Rssi\<rparr> else r2)
        in r3\<lparr>rssiAvgPRACH := rssiAvgPRACH r3 + Rssi\<rparr>)"

definition rach_ta :: "u8 \<Rightarrow> u16 \<Rightarrow> macStatsRach_s \<Rightarrow> macStatsRach_s" where
  "rach_ta preambleIndex TA r0 =
     (let r = r0\<lparr>prachPreambleID := ucast preambleIndex\<rparr> in
      if totalNumTa r = 0 then
        r\<lparr>totalNumTa := totalNumTa r + 1, taMaxPRACH := TA, taMinPRACH := TA,
          taAvgPRACH := taAvgPRACH r + ucast TA\<rparr>
      else
        let r1 = r\<lparr>totalNumTa := totalNumTa r + 1\<rparr>;
            r2 = (if TA > taMaxPRACH r1 then r1\<lparr>taMinPRACH := TA\<rparr> else r1);
            r3 = (if TA < taMaxPRACH r2 then r2\<lparr>taMaxPRACH := TA\<rparr> else r2)
        in r3\<lparr>taAvgPRACH := taAvgPRACH r3 + ucast TA\<rparr>)"

definition upd_rach :: "(macStatsRach_s \<Rightarrow> macStatsRach_s) \<Rightarrow> u16 \<Rightarrow> u16 \<Rightarrow> mac_stats \<Rightarrow> mac_stats res" where
  "upd_rach f dev cell s =
     rbind (macGetCellById s dev cell) (\<lambda>c.
       macSetCellById s dev cell (c\<lparr>rachStatsInfo := f (rachStatsInfo c)\<rparr>))"

definition macRachPduInHdlr :: "u8 list \<Rightarrow> nat \<Rightarrow> u16 \<Rightarrow> u16 \<Rightarrow> mac_stats \<Rightarrow> mac_stats res" where
  "macRachPduInHdlr m off dev cell s =
     rbind (fld16 m off L1RachPduInfo_t ''avgRssi'') (\<lambda>rssi. upd_rach (rach_rssi rssi) dev cell s)"

definition macPreambleInHdlr :: "u8 list \<Rightarrow> nat \<Rightarrow> u16 \<Rightarrow> u16 \<Rightarrow> mac_stats \<Rightarrow> mac_stats res" where
  "macPreambleInHdlr m off dev cell s =
     rbind (fld16 m off L1PreambleInfo_t ''TA'') (\<lambda>ta.
     rbind (fld8 m off L1PreambleInfo_t ''preambleIndex'') (\<lambda>idx.
       upd_rach (rach_ta idx ta) dev cell s))"

fun preambleLoop :: "u8 list \<Rightarrow> nat \<Rightarrow> nat \<Rightarrow> u16 \<Rightarrow> u16 \<Rightarrow> mac_stats \<Rightarrow> (nat \<times> mac_stats) res" where
  "preambleLoop m 0 off dev cell s = Inr (off, s)"
| "preambleLoop m (Suc n) off dev cell s =
     rbind (macPreambleInHdlr m off dev cell s)
       (preambleLoop m n (off + csize L1PreambleInfo_t) dev cell)"

fun rachLoop :: "u8 list \<Rightarrow> nat \<Rightarrow> nat \<Rightarrow> u16 \<Rightarrow> u16 \<Rightarrow> mac_stats \<Rightarrow> mac_stats res" where
  "rachLoop m 0 off dev cell s = Inr s"
| "rachLoop m (Suc n) off dev cell s =
     rbind (macRachPduInHdlr m off dev cell s) (\<lambda>s1.
     rbind (fld8 m off L1RachPduInfo_t ''numPreambles'') (\<lambda>np.
     rbind (preambleLoop m (unat np) (off + offsetof L1RachPduInfo_t ''preamble'') dev cell s1)
       (\<lambda>(off', s2). rachLoop m n off' dev cell s2)))"

definition rachIndicationProcDecHdlr :: "u8 list \<Rightarrow> u16 \<Rightarrow> u16 \<Rightarrow> mac_stats \<Rightarrow> mac_stats res" where
  "rachIndicationProcDecHdlr m dev cell s =
     rbind (fld8 m 0 L1RachIndication_t ''numPDUs'') (\<lambda>n.
       rachLoop m (unat n) (offsetof L1RachIndication_t ''pdus'') dev cell s)"

section \<open>UCI\<close>

text \<open>
  The locals of \<open>uciIndicationProcDecHdlr\<close> that live across its loop: a PUSCH PDU uses the RNTI
  and the handle of the last PUCCH PDU, or 0.
\<close>

record uci_locals =
  uc_RNTI :: u16
  uc_Handle :: u32
  uc_pucch :: u16
  uc_pusch :: u16

text \<open>Advance over an optional part when its bit is set in the PDU bitmap.\<close>

definition skip_if :: "u8 \<Rightarrow> u8 \<Rightarrow> ctype \<Rightarrow> nat \<Rightarrow> nat" where
  "skip_if bitmap b T off = (if bitmap AND b \<noteq> 0 then off + csize T else off)"

definition uciPusch ::
    "u8 list \<Rightarrow> nat \<Rightarrow> uci_locals \<Rightarrow> mac_stats \<Rightarrow> (nat \<times> uci_locals \<times> mac_stats) res" where
  "uciPusch m base l s =
     rbind (fld8 m base L1UciInPuschPdu_t ''pduBitmap'') (\<lambda>bm.
     let off = skip_if bm 2 L1HarqPduForFmt234_t (base + offsetof L1UciInPuschPdu_t ''HARQInfo'') in
     rbind (if bm AND 4 \<noteq> 0 then
              rbind (fld8 m off L1CSIPart1Pdu_t ''CsiPart1Crc'') (\<lambda>crc.
              rbind (macCSIPart1InfoUciInPuschPduFmt234PduHdlr (uc_RNTI l) (uc_Handle l) crc
                (uc_pusch l) s) (\<lambda>(tot, s'). Inr (l\<lparr>uc_pusch := tot\<rparr>, s')))
            else Inr (l, s)) (\<lambda>(l', s').
       Inr (skip_if bm 8 L1CSIPart2Pdu_t (skip_if bm 4 L1CSIPart1Pdu_t off), l', s')))"

definition uciPucch01 :: "u8 list \<Rightarrow> nat \<Rightarrow> nat res" where
  "uciPucch01 m base =
     rbind (fld8 m base L1UciInPucchPduFmt01_t ''pduBitmap'') (\<lambda>bm.
       Inr (skip_if bm 2 L1HarqPduForFm01_t (skip_if bm 1 L1SrPduFMT01_t
         (base + offsetof L1UciInPucchPduFmt01_t ''SrInfo''))))"

definition uciPucch234 ::
    "u8 list \<Rightarrow> nat \<Rightarrow> u16 \<Rightarrow> u16 \<Rightarrow> uci_locals \<Rightarrow> mac_stats \<Rightarrow> (nat \<times> uci_locals \<times> mac_stats) res" where
  "uciPucch234 m base dev cell l0 s =
     rbind (fld32 m base L1UciInPucchPduFmt234_t ''Handle'') (\<lambda>handle.
     rbind (fld16 m base L1UciInPucchPduFmt234_t ''RNTI'') (\<lambda>rnti.
     rbind (fld8 m base L1UciInPucchPduFmt234_t ''pduBitmap'') (\<lambda>bm.
     let l = l0\<lparr>uc_Handle := handle, uc_RNTI := rnti\<rparr>;
         off = skip_if bm 2 L1HarqPduForFmt234_t (skip_if bm 1 L1SrPduFMT234_t
           (base + offsetof L1UciInPucchPduFmt234_t ''SrInfo'')) in
     rbind (if bm AND 4 \<noteq> 0 then
              rbind (fld8 m off L1CSIPart1Pdu_t ''CsiPart1Crc'') (\<lambda>crc.
              rbind (macCSIPart1InfoUciInPucchPduFmt234PduHdlr rnti handle crc (uc_pucch l)
                dev cell s) (\<lambda>(tot, s'). Inr (l\<lparr>uc_pucch := tot\<rparr>, s')))
            else Inr (l, s)) (\<lambda>(l', s').
     let off2 = skip_if bm 8 L1CSIPart2Pdu_t (skip_if bm 4 L1CSIPart1Pdu_t off) in
     if bm AND 16 \<noteq> 0 then
       rbind (fld8 m off2 L1UciInfoPdu_t ''CrcStatus'') (\<lambda>st.
       rbind (macUciInfoInPucchPduFmt234PduHdlr handle st dev cell s') (\<lambda>s''.
       rbind (fld16 m off2 L1UciInfoPdu_t ''UciBitLen'') (\<lambda>bits.
         Inr (off2 + offsetof L1UciInfoPdu_t ''uciPayload'' + unat bits div 8, l', s''))))
     else Inr (off2, l', s')))))"

fun uciLoop :: "u8 list \<Rightarrow> nat \<Rightarrow> nat \<Rightarrow> u16 \<Rightarrow> u16 \<Rightarrow> uci_locals \<Rightarrow> mac_stats \<Rightarrow> mac_stats res" where
  "uciLoop m 0 initOffset dev cell l s = Inr s"
| "uciLoop m (Suc n) initOffset dev cell l s =
     rbind (fld16 m initOffset L1UciInfo_t ''PDUType'') (\<lambda>ty.
     let base = initOffset + offsetof L1UciInfo_t ''Pdu'' in
     rbind (if ty = 0 then uciPusch m base l s
            else if ty = 1 then rbind (uciPucch01 m base) (\<lambda>off. Inr (off, l, s))
            else if ty = 2 then uciPucch234 m base dev cell l s
            else Inr (base, l, s)) (\<lambda>(off, l', s').
     rbind (fld16 m initOffset L1UciInfo_t ''PDUSize'') (\<lambda>sz.
     rbind (guard (off - initOffset \<le> unat sz) AssertFail) (\<lambda>_.
       uciLoop m n (initOffset + unat sz) dev cell l' s'))))"

definition uciIndicationProcDecHdlr :: "u8 list \<Rightarrow> u16 \<Rightarrow> u16 \<Rightarrow> mac_stats \<Rightarrow> mac_stats res" where
  "uciIndicationProcDecHdlr m dev cell s =
     rbind (fld16 m 0 L1UciIndication_t ''numUcis'') (\<lambda>n.
       uciLoop m (unat n) (offsetof L1UciIndication_t ''pdus'') dev cell
         \<lparr>uc_RNTI = 0, uc_Handle = 0, uc_pucch = 0, uc_pusch = 0\<rparr> s)"


section \<open>RX data\<close>

type_synonym tlv = "u16 \<times> u32 \<times> u32"

text \<open>The wire form of an RX data indication: TLVs (tag, length, value) in PDUs.\<close>

definition enc_tlv :: "tlv \<Rightarrow> u8 list" where
  "enc_tlv t = (case t of (tag, len, val) \<Rightarrow>
     bytes_of_u16 tag @ bytes_of_u16 0 @ bytes_of_u32 len @ bytes_of_u32 val)"

definition enc_rxpdu :: "u32 \<times> u16 \<times> u16 \<times> tlv list \<Rightarrow> u8 list" where
  "enc_rxpdu p = (case p of (handle, rnti, harq, ts) \<Rightarrow>
     bytes_of_u32 handle @ bytes_of_u16 rnti @ bytes_of_u16 harq @
     bytes_of_u32 (of_nat (length ts)) @ concat (map enc_tlv ts))"

definition enc_rxdata :: "u16 \<Rightarrow> u16 \<Rightarrow> (u32 \<times> u16 \<times> u16 \<times> tlv list) list \<Rightarrow> u8 list" where
  "enc_rxdata sfn slot ps =
     bytes_of_u16 sfn @ bytes_of_u16 slot @ bytes_of_u16 (of_nat (length ps)) @ bytes_of_u16 0 @
     concat (map enc_rxpdu ps)"

definition data_calls :: "tlv list \<Rightarrow> (u32 \<times> u32) list" where
  "data_calls ts = map (\<lambda>(tag, len, val). (val, len)) (filter (\<lambda>(tag, len, val). tag = 2) ts)"

lemma length_enc_tlv [simp]: "length (enc_tlv t) = 12"
  by (auto simp: enc_tlv_def split: prod.splits)

lemma length_concat_tlv [simp]: "length (concat (map enc_tlv ts)) = 12 * length ts"
  by (induction ts) auto

lemma tlv_fields:
  assumes "length pre = off"
  shows "fld16 (pre @ enc_tlv (tag, len, val) @ post) off L1DataTLV_t ''Tag'' = Inr tag"
    and "fld32 (pre @ enc_tlv (tag, len, val) @ post) off L1DataTLV_t ''Length'' = Inr len"
    and "fld32 (pre @ enc_tlv (tag, len, val) @ post) off L1DataTLV_t ''Value'' = Inr val"
proof -
  let ?m = "pre @ enc_tlv (tag, len, val) @ post"
  have m1: "?m = pre @ bytes_of_u16 tag @ (bytes_of_u16 0 @ bytes_of_u32 len @ bytes_of_u32 val @ post)"
    by (simp add: enc_tlv_def)
  have m2: "?m = (pre @ bytes_of_u16 tag @ bytes_of_u16 0) @ bytes_of_u32 len @ (bytes_of_u32 val @ post)"
    by (simp add: enc_tlv_def)
  have m3: "?m = (pre @ bytes_of_u16 tag @ bytes_of_u16 0 @ bytes_of_u32 len) @ bytes_of_u32 val @ post"
    by (simp add: enc_tlv_def)
  show "fld16 ?m off L1DataTLV_t ''Tag'' = Inr tag"
    unfolding fld16_def layout m1 by (rule rd_u16_bytes) (use assms in simp)
  show "fld32 ?m off L1DataTLV_t ''Length'' = Inr len"
    unfolding fld32_def layout m2 by (rule rd_u32_bytes) (use assms in simp)
  show "fld32 ?m off L1DataTLV_t ''Value'' = Inr val"
    unfolding fld32_def layout m3 by (rule rd_u32_bytes) (use assms in simp)
qed

lemma rxTlvLoop_step:
  assumes "length pre = off"
  shows "rxTlvLoop (pre @ enc_tlv (tag, len, val) @ post) (Suc n) off
    = rbind (rxTlvLoop (pre @ enc_tlv (tag, len, val) @ post) n (off + 12)) (\<lambda>(calls, off').
        Inr ((if tag = 2 then [(val, len)] else []) @ calls, off'))"
proof (cases "tag = 2")
  case True
  show ?thesis unfolding True
    using tlv_fields [OF assms, of 2 len val post] by (simp add: layout)
next
  case False
  then show ?thesis
    using tlv_fields(1) [OF assms, of tag len val post] by (simp add: layout)
qed

lemma rxTlvLoop_enc:
  "length pre = off \<Longrightarrow> rxTlvLoop (pre @ concat (map enc_tlv ts) @ post) (length ts) off
    = Inr (data_calls ts, off + 12 * length ts)"
proof (induction ts arbitrary: pre off)
  case (Cons t ts)
  obtain tag len val where t: "t = (tag, len, val)" by (cases t)
  have "rxTlvLoop ((pre @ enc_tlv t) @ concat (map enc_tlv ts) @ post) (length ts) (off + 12)
      = Inr (data_calls ts, off + 12 + 12 * length ts)"
    by (rule Cons.IH) (use Cons.prems in simp)
  then show ?case
    using rxTlvLoop_step [OF Cons.prems, of tag len val "concat (map enc_tlv ts) @ post" "length ts"]
    by (simp add: t data_calls_def del: rxTlvLoop.simps)
qed (simp add: data_calls_def)

lemma rxPduLoop_enc:
  assumes "list_all (\<lambda>(h, r, q, ts). length ts < 2 ^ 16) ps" and "length pre = off"
  shows "rxPduLoop (pre @ concat (map enc_rxpdu ps)) (length ps) off
    = Inr (concat (map (\<lambda>(h, r, q, ts). data_calls ts) ps))"
  using assms
proof (induction ps arbitrary: pre off)
  case (Cons p ps)
  obtain h r q ts where p: "p = (h, r, q, ts)" by (cases p)
  let ?post = "concat (map enc_rxpdu ps)"
  let ?hd = "bytes_of_u32 h @ bytes_of_u16 r @ bytes_of_u16 q"
  let ?pre = "pre @ ?hd @ bytes_of_u32 (of_nat (length ts))"
  have lts: "length ts < 2 ^ 16" using Cons.prems(1) p by simp
  then have n: "unat (of_nat (length ts) :: u32) = length ts" by (intro unat_of_nat_u32) simp
  have m: "pre @ concat (map enc_rxpdu (p # ps)) = ?pre @ concat (map enc_tlv ts) @ ?post"
    by (simp add: p enc_rxpdu_def)
  have num: "fld32 (pre @ concat (map enc_rxpdu (p # ps))) off L1RxDataPduInfo_t ''numTLV''
      = Inr (of_nat (length ts))"
    unfolding fld32_def layout
    using rd_u32_bytes [of "pre @ ?hd" "off + 8" "of_nat (length ts)" "concat (map enc_tlv ts) @ ?post"]
      Cons.prems(2) by (simp add: p enc_rxpdu_def)
  have tl: "rxTlvLoop (pre @ concat (map enc_rxpdu (p # ps))) (length ts) (off + 12)
      = Inr (data_calls ts, off + 12 + 12 * length ts)"
    unfolding m by (rule rxTlvLoop_enc) (use Cons.prems(2) in simp)
  have "rxPduLoop ((?pre @ concat (map enc_tlv ts)) @ ?post) (length ps) (off + 12 + 12 * length ts)
      = Inr (concat (map (\<lambda>(h, r, q, ts). data_calls ts) ps))"
    by (rule Cons.IH) (use Cons.prems in auto)
  then have rest: "rxPduLoop (pre @ concat (map enc_rxpdu (p # ps))) (length ps) (off + 12 + 12 * length ts)
      = Inr (concat (map (\<lambda>(h, r, q, ts). data_calls ts) ps))"
    unfolding m by simp
  show ?case using num tl rest lts n
    by (simp add: p tlv_rounds_def layout del: map_eq_conv)
qed simp

text \<open>
  C8: On every well-formed RX data indication the handler fetches exactly the payloads the TLVs with
  tag 2 describe, in the order of the message, whatever the numbers of PDUs and of TLVs.
\<close>

theorem rx_data_fetches_payloads:
  assumes "length ps < 2 ^ 16" and "list_all (\<lambda>(h, r, q, ts). length ts < 2 ^ 16) ps"
  shows "rxDataIndicationProcDecHdlr (enc_rxdata sfn slot ps)
    = Inr (concat (map (\<lambda>(h, r, q, ts). data_calls ts) ps))"
proof -
  let ?h = "bytes_of_u16 sfn @ bytes_of_u16 slot"
  let ?m = "enc_rxdata sfn slot ps"
  have "unat (of_nat (length ps) :: u16) = length ps"
    using assms(1) by (simp add: unsigned_of_nat take_bit_nat_eq_self)
  moreover have "fld16 ?m 0 L1RxdataIndication_t ''numPDUs'' = Inr (of_nat (length ps))"
    unfolding fld16_def layout enc_rxdata_def
    using rd_u16_bytes [of ?h 4 "of_nat (length ps)" "bytes_of_u16 0 @ concat (map enc_rxpdu ps)"] by simp
  moreover have "rxPduLoop ?m (length ps) 8 = Inr (concat (map (\<lambda>(h, r, q, ts). data_calls ts) ps))"
    unfolding enc_rxdata_def
    using rxPduLoop_enc [OF assms(2), of "?h @ bytes_of_u16 (of_nat (length ps)) @ bytes_of_u16 0" 8]
    by simp
  ultimately show ?thesis by (simp add: rxDataIndicationProcDecHdlr_def layout)
qed

theorem rx_data_fetches_payloads_witness:
  "rxDataIndicationProcDecHdlr (enc_rxdata 3 4 [(1, 2, 0, [(2, 100, 7), (1, 9, 9)]), (5, 6, 0, [(2, 50, 8)])])
    = Inr [(7, 100), (8, 50)]"
  using rx_data_fetches_payloads [of "[(1, 2, 0, [(2, 100, 7), (1, 9, 9)]), (5, 6, 0, [(2, 50, 8)])]" 3 4]
  by (simp add: data_calls_def)

section \<open>CRC\<close>

definition crc_entry :: "u8 list \<Rightarrow> nat \<Rightarrow> macStatsPusch_s \<Rightarrow> macStatsPusch_s" where
  "crc_entry m off = crc_count (m ! (off + 7))
     (u32_of_bytes (m ! (off + 8)) (m ! (off + 9)) (m ! (off + 10)) (m ! (off + 11)))
     (u16_of_bytes (m ! (off + 12)) (m ! (off + 13))) (m ! (off + 15))"

definition on_pusch :: "(macStatsPusch_s \<Rightarrow> macStatsPusch_s) \<Rightarrow> macCellCtx_s \<Rightarrow> macCellCtx_s" where
  "on_pusch f c = c\<lparr>puschStatsInfo := f (puschStatsInfo c)\<rparr>"

lemma crc_count_irrelevant:
  "st \<noteq> 0 \<Longrightarrow> st \<noteq> 1 \<Longrightarrow> crc_count st ta rssi sinr = crc_count st ta' rssi' sinr'"
  "crc_count 1 ta rssi sinr = crc_count 1 ta rssi' sinr'"
  by (auto simp: crc_count_def fun_eq_iff)

lemma macCrcInHdlr_ok:
  assumes "stats_wf s" and "unat dev < 4" and "off + 148 \<le> length m"
  shows "macCrcInHdlr m off dev cell s = Inr (on_cell (on_pusch (crc_entry m off)) dev cell s)"
proof -
  let ?st = "m ! (off + 7)"
  have f: "fld8 m off L1CrcInfo_t ''TbCrcStatus'' = Inr ?st"
    "fld8 m off L1CrcInfo_t ''SINR'' = Inr (m ! (off + 15))"
    "fld16 m off L1CrcInfo_t ''RSSI'' = Inr (u16_of_bytes (m ! (off + 12)) (m ! (off + 13)))"
    "fld32 m off L1CrcInfo_t ''TA''
      = Inr (u32_of_bytes (m ! (off + 8)) (m ! (off + 9)) (m ! (off + 10)) (m ! (off + 11)))"
    using assms(3)
    by (simp_all add: fld8_def fld16_def fld32_def layout rd_u8_def rd_u16_ok rd_u32_ok ac_simps)
  have "macCrcInHdlr m off dev cell s
      = macSetCellById s dev cell (on_pusch (crc_entry m off) (cell_of s dev cell))"
    by (cases "?st = 0"; cases "?st = 1")
      (simp_all add: macCrcInHdlr_def f macGetCell_ok [OF assms(1,2)] crc_entry_def on_pusch_def,
       simp_all add: crc_count_def)
  then show ?thesis by (simp add: macSetCell_ok [OF assms(1,2)] on_cell_const)
qed

lemma upt_0_Suc: "[0..<Suc n] = 0 # map Suc [0..<n]"
  by (simp add: map_Suc_upt upt_conv_Cons del: upt_Suc)

lemma crcLoop_ok:
  "stats_wf s \<Longrightarrow> unat dev < 4 \<Longrightarrow> off + 148 * n \<le> length m \<Longrightarrow>
    crcLoop m n off dev cell s
      = Inr (on_cell (on_pusch (fold (\<lambda>k. crc_entry m (off + 148 * k)) [0..<n])) dev cell s)"
proof (induction n arbitrary: off s)
  case 0
  then show ?case by (simp add: on_pusch_def on_cell_id)
next
  case (Suc n)
  have off: "off + 148 + 148 * k = off + 148 * Suc k" for k by simp
  have "crcLoop m (Suc n) off dev cell s
      = crcLoop m n (off + 148) dev cell (on_cell (on_pusch (crc_entry m off)) dev cell s)"
    using Suc.prems by (simp add: macCrcInHdlr_ok layout)
  also have "\<dots> = Inr (on_cell (on_pusch (fold (\<lambda>k. crc_entry m (off + 148 + 148 * k)) [0..<n]))
      dev cell (on_cell (on_pusch (crc_entry m off)) dev cell s))"
    by (rule Suc.IH) (use Suc.prems in auto)
  also have "\<dots> = Inr (on_cell (on_pusch (fold (\<lambda>k. crc_entry m (off + 148 * k)) [0..<Suc n]))
      dev cell s)"
    unfolding on_cell_comp [OF Suc.prems(1,2)] upt_0_Suc off
    by (simp add: on_pusch_def [abs_def] fold_map comp_def)
  finally show ?case .
qed

definition crc_with :: "u8 list \<Rightarrow> nat \<Rightarrow> u8 \<Rightarrow> nat list" where
  "crc_with m n st = filter (\<lambda>k. m ! (15 + 148 * k) = st) [0..<n]"

lemma crc_fold_counts:
  "numPuschCrcPass (fold (\<lambda>k. crc_entry m (8 + 148 * k)) ks p) =
     numPuschCrcPass p + of_nat (length (filter (\<lambda>k. m ! (15 + 148 * k) = 0) ks))"
  "numPuschCrcFail (fold (\<lambda>k. crc_entry m (8 + 148 * k)) ks p) =
     numPuschCrcFail p + of_nat (length (filter (\<lambda>k. m ! (15 + 148 * k) = 1) ks))"
  "sumSnrPUSCH (fold (\<lambda>k. crc_entry m (8 + 148 * k)) ks p) =
     sumSnrPUSCH p + (\<Sum>k \<leftarrow> filter (\<lambda>k. m ! (15 + 148 * k) = 0) ks. ucast (m ! (23 + 148 * k)))"
  "totalNumPuschCrc (fold (\<lambda>k. crc_entry m (8 + 148 * k)) ks p) = totalNumPuschCrc p"
  by (induction ks arbitrary: p) (simp_all add: crc_entry_def crc_count_def)

text \<open>
  A CRC indication adds to the cell it is for exactly the number of its entries with status 0
  to the passes, of those with status 1 to the failures and the SNR of the passes to the SNR sum,
  and changes no other cell; entries with another status count as neither, and the total the
  statistics declare is never touched.
\<close>

theorem crc_indication_counts:
  assumes "stats_wf s" and "unat dev < 4" and "fld16 m 0 L1CrcIndication_t ''numCRCs'' = Inr n"
    and "8 + 148 * unat n \<le> length m"
  shows "\<exists>s'. crcIndicationProcDecHdlr m dev cell s = Inr s' \<and> stats_wf s' \<and>
    (\<forall>p p'. p = puschStatsInfo (cell_of s dev cell) \<longrightarrow> p' = puschStatsInfo (cell_of s' dev cell) \<longrightarrow>
      numPuschCrcPass p' = numPuschCrcPass p + of_nat (length (crc_with m (unat n) 0)) \<and>
      numPuschCrcFail p' = numPuschCrcFail p + of_nat (length (crc_with m (unat n) 1)) \<and>
      sumSnrPUSCH p' = sumSnrPUSCH p + (\<Sum>k \<leftarrow> crc_with m (unat n) 0. ucast (m ! (23 + 148 * k))) \<and>
      totalNumPuschCrc p' = totalNumPuschCrc p) \<and>
    (\<forall>dev' cell'. (unat dev', unat (cell' AND 1)) \<noteq> (unat dev, unat (cell AND 1)) \<longrightarrow>
      cell_of s' dev' cell' = cell_of s dev' cell')"
proof -
  let ?f = "on_pusch (fold (\<lambda>k. crc_entry m (8 + 148 * k)) [0..<unat n])"
  have one: "crcIndicationProcDecHdlr m dev cell s = Inr (on_cell ?f dev cell s)"
    by (simp add: crcIndicationProcDecHdlr_def assms layout crcLoop_ok)
  have cell: "puschStatsInfo (cell_of (on_cell ?f dev cell s) dev cell)
      = fold (\<lambda>k. crc_entry m (8 + 148 * k)) [0..<unat n] (puschStatsInfo (cell_of s dev cell))"
    by (simp add: assms(1,2) on_pusch_def)
  show ?thesis
    by (rule exI [of _ "on_cell ?f dev cell s"])
      (use assms(1,2) one cell in \<open>simp add: on_cell_other crc_fold_counts crc_with_def\<close>)
qed

definition crc_msg1 :: "u8 list" where
  "crc_msg1 = [0, 0, 0, 0, 1, 0, 0, 0] @ replicate 7 0 @ [1] @ replicate 140 0"

lemma crc_msg1_num: "fld16 crc_msg1 0 L1CrcIndication_t ''numCRCs'' = Inr 1"
  by code_simp

lemma crc_msg1_facts: "length crc_msg1 = 156" "crc_with crc_msg1 (Suc 0) 1 = [0]"
  by code_simp+

theorem crc_indication_counts_witness:
  "\<exists>s'. crcIndicationProcDecHdlr crc_msg1 2 1 mac_stats0 = Inr s' \<and>
    numPuschCrcFail (puschStatsInfo (cell_of s' 2 1)) =
      numPuschCrcFail (puschStatsInfo (cell_of mac_stats0 2 1)) + 1"
  using crc_indication_counts [OF mac_stats0_wf _ crc_msg1_num, of 2 1]
  by (auto simp: crc_msg1_facts)

section \<open>RACH\<close>

text \<open>The wire form of a RACH indication: PDUs (RSSI and preambles), a preamble (TA, index).\<close>

definition enc_preamble :: "u16 \<times> u8 \<Rightarrow> u8 list" where
  "enc_preamble p = (case p of (ta, idx) \<Rightarrow> bytes_of_u32 0 @ bytes_of_u16 ta @ [0, idx])"

definition enc_rachpdu :: "u16 \<times> (u16 \<times> u8) list \<Rightarrow> u8 list" where
  "enc_rachpdu p = (case p of (rssi, pres) \<Rightarrow>
     bytes_of_u16 0 @ bytes_of_u16 rssi @ bytes_of_u32 0 @ [of_nat (length pres)] @ [0, 0, 0] @
     concat (map enc_preamble pres))"

definition enc_rach :: "u16 \<Rightarrow> u16 \<Rightarrow> (u16 \<times> (u16 \<times> u8) list) list \<Rightarrow> u8 list" where
  "enc_rach sfn slot ps =
     bytes_of_u16 sfn @ bytes_of_u16 slot @ [of_nat (length ps)] @ [0, 0, 0] @
     concat (map enc_rachpdu ps)"

definition on_rach :: "(macStatsRach_s \<Rightarrow> macStatsRach_s) \<Rightarrow> macCellCtx_s \<Rightarrow> macCellCtx_s" where
  "on_rach f c = c\<lparr>rachStatsInfo := f (rachStatsInfo c)\<rparr>"

definition rach_pdu_effect :: "u16 \<times> (u16 \<times> u8) list \<Rightarrow> macStatsRach_s \<Rightarrow> macStatsRach_s" where
  "rach_pdu_effect p r = fold (\<lambda>(ta, idx). rach_ta idx ta) (snd p) (rach_rssi (fst p) r)"

lemma enc_preamble_pair: "enc_preamble (ta, idx) = bytes_of_u32 0 @ bytes_of_u16 ta @ [0, idx]"
  by (simp add: enc_preamble_def)

lemma length_enc_preamble [simp]: "length (enc_preamble p) = 8"
  by (auto simp: enc_preamble_def split: prod.splits)

lemma length_concat_preamble [simp]: "length (concat (map enc_preamble ts)) = 8 * length ts"
  by (induction ts) auto

lemma rd_u8_at [simp]: "length as = k \<Longrightarrow> rd_u8 (as @ b # bs) k = Inr b"
  by (simp add: rd_u8_def rd_def nth_append)

lemma upd_rach_ok: "stats_wf s \<Longrightarrow> unat dev < 4 \<Longrightarrow> upd_rach f dev cell s = Inr (on_cell (on_rach f) dev cell s)"
  by (simp add: upd_rach_def macGetCell_ok macSetCell_ok on_cell_const flip: on_rach_def)

lemma preambleLoop_enc:
  "length pre = off \<Longrightarrow> stats_wf s \<Longrightarrow> unat dev < 4 \<Longrightarrow>
    preambleLoop (pre @ concat (map enc_preamble ts) @ post) (length ts) off dev cell s
      = Inr (off + 8 * length ts, on_cell (on_rach (fold (\<lambda>(ta, idx). rach_ta idx ta) ts)) dev cell s)"
proof (induction ts arbitrary: pre off s)
  case Nil
  then show ?case by (simp add: on_rach_def on_cell_id)
next
  case (Cons t ts)
  obtain ta idx where t: "t = (ta, idx)" by (cases t)
  let ?post = "concat (map enc_preamble ts) @ post"
  have f: "fld16 (pre @ enc_preamble t @ ?post) off L1PreambleInfo_t ''TA'' = Inr ta"
    "fld8 (pre @ enc_preamble t @ ?post) off L1PreambleInfo_t ''preambleIndex'' = Inr idx"
    unfolding t enc_preamble_pair fld16_def fld8_def layout
    using rd_u16_bytes [of "pre @ bytes_of_u32 0" "off + 4" ta "[0, idx] @ ?post"]
      rd_u8_at [of "pre @ bytes_of_u32 0 @ bytes_of_u16 ta @ [0]" "off + 7" idx ?post] Cons.prems(1)
    by simp_all
  have "preambleLoop ((pre @ enc_preamble t) @ ?post) (length ts) (off + 8) dev cell
      (on_cell (on_rach (rach_ta idx ta)) dev cell s)
    = Inr (off + 8 + 8 * length ts, on_cell (on_rach (fold (\<lambda>(ta, idx). rach_ta idx ta) ts)) dev cell
        (on_cell (on_rach (rach_ta idx ta)) dev cell s))"
    by (rule Cons.IH) (use Cons.prems in simp_all)
  then show ?case
    using f by (simp add: macPreambleInHdlr_def upd_rach_ok [OF Cons.prems(2,3)] layout t
        on_cell_comp [OF Cons.prems(2,3)] on_rach_def [abs_def] comp_def)
qed

lemma rachLoop_enc:
  assumes "list_all (\<lambda>(rssi, pres). length pres < 256) ps" and "length pre = off"
    and "stats_wf s" and "unat dev < 4"
  shows "rachLoop (pre @ concat (map enc_rachpdu ps)) (length ps) off dev cell s
      = Inr (on_cell (on_rach (fold rach_pdu_effect ps)) dev cell s)"
  using assms
proof (induction ps arbitrary: pre off s)
  case Nil
  then show ?case by (simp add: on_rach_def on_cell_id)
next
  case (Cons p ps)
  obtain rssi ts where p: "p = (rssi, ts)" by (cases p)
  have n: "unat (of_nat (length ts) :: u8) = length ts"
    using Cons.prems(1) p by (simp add: unsigned_of_nat take_bit_nat_eq_self)
  let ?post = "concat (map enc_rachpdu ps)"
  let ?hd = "bytes_of_u16 0 @ bytes_of_u16 rssi @ bytes_of_u32 0"
  let ?pre = "pre @ ?hd @ [of_nat (length ts)] @ [0, 0, 0]"
  let ?m = "?pre @ concat (map enc_preamble ts) @ ?post"
  let ?s1 = "on_cell (on_rach (rach_rssi rssi)) dev cell s"
  let ?s2 = "on_cell (on_rach (fold (\<lambda>(ta, idx). rach_ta idx ta) ts)) dev cell ?s1"
  have m: "pre @ concat (map enc_rachpdu (p # ps)) = ?m" by (simp add: p enc_rachpdu_def)
  have f: "fld16 ?m off L1RachPduInfo_t ''avgRssi'' = Inr rssi"
    "fld8 ?m off L1RachPduInfo_t ''numPreambles'' = Inr (of_nat (length ts))"
    unfolding fld16_def fld8_def layout
    using rd_u16_bytes [of "pre @ bytes_of_u16 0" "off + 2" rssi
        "bytes_of_u32 0 @ [of_nat (length ts)] @ [0, 0, 0] @ concat (map enc_preamble ts) @ ?post"]
      rd_u8_at [of "pre @ ?hd" "off + 8" "of_nat (length ts)"
        "[0, 0, 0] @ concat (map enc_preamble ts) @ ?post"] Cons.prems(2)
    by simp_all
  have l: "preambleLoop ?m (length ts) (off + 12) dev cell ?s1 = Inr (off + 12 + 8 * length ts, ?s2)"
    by (rule preambleLoop_enc) (use Cons.prems in simp_all)
  have "rachLoop ((?pre @ concat (map enc_preamble ts)) @ ?post) (length ps) (off + 12 + 8 * length ts)
      dev cell ?s2 = Inr (on_cell (on_rach (fold rach_pdu_effect ps)) dev cell ?s2)"
    by (rule Cons.IH) (use Cons.prems in simp_all)
  then have rest: "rachLoop ?m (length ps) (off + 12 + 8 * length ts) dev cell ?s2
      = Inr (on_cell (on_rach (fold rach_pdu_effect ps)) dev cell ?s2)" by simp
  have "rachLoop ?m (length (p # ps)) off dev cell s
      = Inr (on_cell (on_rach (fold rach_pdu_effect ps)) dev cell ?s2)"
    using f l rest n by (simp add: macRachPduInHdlr_def upd_rach_ok [OF Cons.prems(3,4)] layout
        del: append_assoc append.simps)
  then show ?case unfolding m
    by (simp add: p on_cell_comp [OF Cons.prems(3,4)] Cons.prems(3,4) on_rach_def [abs_def]
        rach_pdu_effect_def [abs_def] comp_def)
qed

lemma rachIndication_enc:
  assumes "length ps < 256" and "list_all (\<lambda>(rssi, pres). length pres < 256) ps"
    and "stats_wf s" and "unat dev < 4"
  shows "rachIndicationProcDecHdlr (enc_rach sfn slot ps) dev cell s
      = Inr (on_cell (on_rach (fold rach_pdu_effect ps)) dev cell s)"
proof -
  let ?h = "bytes_of_u16 sfn @ bytes_of_u16 slot"
  have "unat (of_nat (length ps) :: u8) = length ps"
    using assms(1) by (simp add: unsigned_of_nat take_bit_nat_eq_self)
  moreover have "fld8 (enc_rach sfn slot ps) 0 L1RachIndication_t ''numPDUs'' = Inr (of_nat (length ps))"
    unfolding fld8_def layout enc_rach_def
    using rd_u8_at [of ?h 4 "of_nat (length ps)" "[0, 0, 0] @ concat (map enc_rachpdu ps)"] by simp
  moreover have "rachLoop (enc_rach sfn slot ps) (length ps) 8 dev cell s
      = Inr (on_cell (on_rach (fold rach_pdu_effect ps)) dev cell s)"
    unfolding enc_rach_def
    using rachLoop_enc [OF assms(2) _ assms(3,4), of "?h @ [of_nat (length ps)] @ [0, 0, 0]" 8] by simp
  ultimately show ?thesis by (simp add: rachIndicationProcDecHdlr_def layout)
qed

lemma rach_ta_rssi [simp]:
  "rssiMaxPRACH (fold (\<lambda>(ta, idx). rach_ta idx ta) ts r) = rssiMaxPRACH r"
  "totalNumRssi (fold (\<lambda>(ta, idx). rach_ta idx ta) ts r) = totalNumRssi r"
  by (induction ts arbitrary: r) (auto simp: rach_ta_def Let_def)

lemma rach_rssi_ta [simp]:
  "taMaxPRACH (rach_rssi x r) = taMaxPRACH r" "totalNumTa (rach_rssi x r) = totalNumTa r"
  by (auto simp: rach_rssi_def Let_def)

lemma unat_inc_pos: "0 < unat (w :: u32) \<Longrightarrow> unat w + 1 < 2 ^ 32 \<Longrightarrow> unat (w + 1) = unat w + 1 \<and> w \<noteq> 0"
  by (auto simp: unat_word_ariths)

lemma rach_rssi_step:
  "rssiMaxPRACH (rach_rssi x r) = (if totalNumRssi r = 0 then x else min x (rssiMaxPRACH r))"
  "totalNumRssi (rach_rssi x r) = totalNumRssi r + 1"
  by (auto simp: rach_rssi_def Let_def min_def)

lemma rach_ta_step:
  "taMaxPRACH (rach_ta idx x r) = (if totalNumTa r = 0 then x else min x (taMaxPRACH r))"
  "totalNumTa (rach_ta idx x r) = totalNumTa r + 1"
  by (auto simp: rach_ta_def Let_def min_def)

lemma rssi_fold:
  "0 < unat (totalNumRssi r) \<Longrightarrow> unat (totalNumRssi r) + length ps < 2 ^ 32 \<Longrightarrow>
    rssiMaxPRACH (fold rach_pdu_effect ps r) = fold min (map fst ps) (rssiMaxPRACH r)"
proof (induction ps arbitrary: r)
  case (Cons p ps)
  have u: "unat (totalNumRssi r + 1) = unat (totalNumRssi r) + 1" "totalNumRssi r \<noteq> 0"
    using unat_inc_pos [OF Cons.prems(1)] Cons.prems(2) by auto
  show ?case
    using Cons.IH [of "rach_pdu_effect p r"] Cons.prems u
    by (simp add: rach_pdu_effect_def rach_rssi_step)
qed simp

lemma ta_fold_pdu:
  "0 < unat (totalNumTa r) \<Longrightarrow> unat (totalNumTa r) + length ts < 2 ^ 32 \<Longrightarrow>
    taMaxPRACH (fold (\<lambda>(ta, idx). rach_ta idx ta) ts r) = fold min (map fst ts) (taMaxPRACH r)"
proof (induction ts arbitrary: r)
  case (Cons t ts)
  have u: "unat (totalNumTa r + 1) = unat (totalNumTa r) + 1" "totalNumTa r \<noteq> 0"
    using unat_inc_pos [OF Cons.prems(1)] Cons.prems(2) by auto
  show ?case
    using Cons.IH [of "rach_ta (snd t) (fst t) r"] Cons.prems u
    by (simp add: case_prod_beta rach_ta_step)
qed simp

lemma Min_fold_min: "fold min xs (x :: 'a :: linorder) = Min (set (x # xs))"
  by (rule Min.set_eq_fold [symmetric])

text \<open>
  From cleared counters, what a RACH indication leaves in \<open>rssiMaxPRACH\<close> is the smallest of the
  RSSIs it reports, not the largest, for any number of PDUs and preambles: the two comparisons of
  the handler are exchanged. For a PDU with preambles the same holds of \<open>taMaxPRACH\<close> and the timing
  advances.
\<close>

theorem rach_max_is_min:
  assumes "stats_wf s" and "unat dev < 4" and "length ps < 256" and "ps \<noteq> []"
    and "list_all (\<lambda>(rssi, pres). length pres < 256) ps"
    and "totalNumRssi (rachStatsInfo (cell_of s dev cell)) = 0"
    and "totalNumTa (rachStatsInfo (cell_of s dev cell)) = 0"
  shows "\<exists>s'. rachIndicationProcDecHdlr (enc_rach sfn slot ps) dev cell s = Inr s' \<and> stats_wf s' \<and>
    rssiMaxPRACH (rachStatsInfo (cell_of s' dev cell)) = Min (fst ` set ps) \<and>
    (\<forall>rssi pres. ps = [(rssi, pres)] \<longrightarrow> pres \<noteq> [] \<longrightarrow>
      taMaxPRACH (rachStatsInfo (cell_of s' dev cell)) = Min (fst ` set pres))"
proof -
  let ?r = "rachStatsInfo (cell_of s dev cell)"
  let ?s' = "on_cell (on_rach (fold rach_pdu_effect ps)) dev cell s"
  obtain p qs where ps: "ps = p # qs" using assms(4) by (cases ps) auto
  have r': "rachStatsInfo (cell_of ?s' dev cell) = fold rach_pdu_effect ps ?r"
    using assms(1,2) by (simp add: on_rach_def)
  have one: "totalNumRssi (rach_pdu_effect p ?r) = 1" "rssiMaxPRACH (rach_pdu_effect p ?r) = fst p"
    using assms(6) by (simp_all add: rach_pdu_effect_def rach_rssi_step)
  have rssi: "rssiMaxPRACH (fold rach_pdu_effect ps ?r) = Min (fst ` set ps)"
    using rssi_fold [of "rach_pdu_effect p ?r" qs] one assms(3)
    by (simp add: ps Min_fold_min [of "map fst qs"])
  have ta: "taMaxPRACH (fold rach_pdu_effect ps ?r) = Min (fst ` set pres)"
    if p1: "ps = [(rssi, pres)]" and ne: "pres \<noteq> []" for rssi pres
  proof -
    obtain t ts where pres: "pres = t # ts" using ne by (cases pres) auto
    let ?r1 = "rach_ta (snd t) (fst t) (rach_rssi rssi ?r)"
    have "totalNumTa ?r1 = 1" "taMaxPRACH ?r1 = fst t"
      using assms(7) by (simp_all add: rach_ta_step)
    then show ?thesis
      using ta_fold_pdu [of ?r1 ts] assms(5)
      by (simp add: p1 pres rach_pdu_effect_def case_prod_beta Min_fold_min [of "map fst ts"])
  qed
  show ?thesis
    by (rule exI [of _ ?s'])
      (use rachIndication_enc [OF assms(3,5,1,2)] r' rssi ta assms(1,2) in auto)
qed

theorem rach_max_is_min_witness:
  "\<exists>s'. rachIndicationProcDecHdlr (enc_rach 1 2 [(900, []), (700, [(3, 1)]), (800, [])]) 0 0 mac_stats0
    = Inr s' \<and> rssiMaxPRACH (rachStatsInfo (cell_of s' 0 0)) = 700"
proof -
  have "totalNumRssi (rachStatsInfo (cell_of mac_stats0 0 0)) = 0"
    "totalNumTa (rachStatsInfo (cell_of mac_stats0 0 0)) = 0"
    by (simp_all add: cell_of_def mac_stats0_def cell_zero_def rach_zero_def)
  then show ?thesis
    using rach_max_is_min [OF mac_stats0_wf, of 0 "[(900, []), (700, [(3, 1)]), (800, [])]" 0 1 2]
    by auto
qed

section \<open>UCI\<close>

text \<open>
  A CSI part 1 report on PUCCH format 2/3/4 is counted for the UE of its RNTI only when the
  handle is below 65536 and the low 12 bits of the RNTI are below 256. With a larger handle the
  program stops in an assertion, with another RNTI (the message decides) it writes outside the UE
  array.
\<close>

theorem pucch_csi_outside_ue_array:
  assumes "stats_wf s" and "unat dev < 4"
    and "fld32 m base L1UciInPucchPduFmt234_t ''Handle'' = Inr handle"
    and "fld16 m base L1UciInPucchPduFmt234_t ''RNTI'' = Inr rnti"
    and "fld8 m base L1UciInPucchPduFmt234_t ''pduBitmap'' = Inr 4"
    and "fld8 m (base + offsetof L1UciInPucchPduFmt234_t ''SrInfo'') L1CSIPart1Pdu_t ''CsiPart1Crc''
      = Inr 1"
  shows "(handle \<ge> 65536 \<longrightarrow> uciPucch234 m base dev cell l s = Inl AssertFail) \<and>
    (handle < 65536 \<longrightarrow> unat rnti mod 4096 \<ge> 256 \<longrightarrow> uciPucch234 m base dev cell l s = Inl OutOfRange) \<and>
    (handle < 65536 \<longrightarrow> unat rnti mod 4096 < 256 \<longrightarrow>
      (\<exists>off l' s'. uciPucch234 m base dev cell l s = Inr (off, l', s') \<and>
        numCsiPart1CrcFail (ueStatsInfo (sMacUeCtxt s' ! (unat rnti mod 4096))) =
          numCsiPart1CrcFail (ueStatsInfo (sMacUeCtxt s ! (unat rnti mod 4096))) + 1))"
proof -
  have "rnti AND 4095 = take_bit 12 rnti" by (simp add: take_bit_eq_mask mask_eq_exp_minus_1)
  then have u: "unat (rnti AND 4095) = unat rnti mod 4096"
    by (simp add: take_bit_eq_mod unat_mod)
  have len: "length (sMacUeCtxt s) = 256"
    using assms(1) by (simp add: stats_wf_def MAX_UE_NUM_IN_ONE_CELL_def)
  note defs = uciPucch234_def assms(3-6) skip_if_def macCSIPart1InfoUciInPucchPduFmt234PduHdlr_def
    macGetUeByCrnti_def macSetUeByCrnti_def u len Let_def guard_def
  have A: "uciPucch234 m base dev cell l s = Inl AssertFail" if "handle \<ge> 65536"
    using that by (simp add: defs not_less [symmetric])
  have B: "uciPucch234 m base dev cell l s = Inl OutOfRange"
    if "handle < 65536" "unat rnti mod 4096 \<ge> 256"
    using that by (simp add: defs rd_def)
  have C: "\<exists>off l' s'. uciPucch234 m base dev cell l s = Inr (off, l', s') \<and>
        numCsiPart1CrcFail (ueStatsInfo (sMacUeCtxt s' ! (unat rnti mod 4096))) =
          numCsiPart1CrcFail (ueStatsInfo (sMacUeCtxt s ! (unat rnti mod 4096))) + 1"
    if "handle < 65536" "unat rnti mod 4096 < 256"
    using that by (simp add: defs)
  show ?thesis using A B C by blast
qed

definition csi_msg :: "u8 list" where
  "csi_msg = bytes_of_u32 9 @ bytes_of_u16 0x0200 @ replicate 7 0 @ [4] @ replicate 4 0 @ [1] @
     replicate 60 0"

lemma csi_msg_fields:
  "fld32 csi_msg 0 L1UciInPucchPduFmt234_t ''Handle'' = Inr 9"
  "fld16 csi_msg 0 L1UciInPucchPduFmt234_t ''RNTI'' = Inr 0x0200"
  "fld8 csi_msg 0 L1UciInPucchPduFmt234_t ''pduBitmap'' = Inr 4"
  "fld8 csi_msg (0 + offsetof L1UciInPucchPduFmt234_t ''SrInfo'') L1CSIPart1Pdu_t ''CsiPart1Crc'' = Inr 1"
  by code_simp+

theorem pucch_csi_outside_ue_array_witness:
  "uciPucch234 csi_msg 0 1 0 \<lparr>uc_RNTI = 0, uc_Handle = 0, uc_pucch = 0, uc_pusch = 0\<rparr> mac_stats0
    = Inl OutOfRange"
  using pucch_csi_outside_ue_array [OF mac_stats0_wf _ csi_msg_fields,
      of 1 0 "\<lparr>uc_RNTI = 0, uc_Handle = 0, uc_pucch = 0, uc_pusch = 0\<rparr>"] by simp

end
