(* ===== verification/MacCore.thy ===== *)
theory MacCore
  imports MacTx MacRx
begin

text \<open>
  The control of the MAC: the PHY state machine of each cell (\<open>mac.c\<close>, \<open>mac_rx.c\<close>), the decoding of
  the messages of the PHY (\<open>fapiMsgDec\<close>, \<open>macRevL1Ctrl\<close>), the handling of the messages of the
  application (\<open>appMgrMsgqHRecv\<close>), and the initial state \<open>macInit\<close>. Time stamps and log messages are
  not modelled, nor is what \<open>sleep\<close> waits for. Test case files are an argument: what \<open>fopen\<close> and
  \<open>fread\<close> give for a name, with the numbers \<open>sprintf\<close> puts in it.
\<close>

section \<open>Updates of a cell\<close>

definition upd_chan :: "u8 \<Rightarrow> u8 \<Rightarrow> (chan \<Rightarrow> chan) \<Rightarrow> 'e mac \<Rightarrow> 'e mac res" where
  "upd_chan d c f s = rbind (get_chan d c s) (\<lambda>ch. Inr (set_chan d c (f ch) s))"

definition upd_ctx :: "u8 \<Rightarrow> u8 \<Rightarrow> (MacContent_s \<Rightarrow> MacContent_s) \<Rightarrow> 'e mac \<Rightarrow> 'e mac res" where
  "upd_ctx d c f = upd_chan d c (\<lambda>ch. ch\<lparr>gMacCtx := f (gMacCtx ch)\<rparr>)"

definition setPhyState :: "u8 \<Rightarrow> u8 \<Rightarrow> MacStatus_e \<Rightarrow> 'e mac \<Rightarrow> 'e mac res" where
  "setPhyState d c st = upd_ctx d c (\<lambda>x. x\<lparr>phyState := st\<rparr>)"

definition getPhyState :: "u8 \<Rightarrow> u8 \<Rightarrow> 'e mac \<Rightarrow> MacStatus_e res" where
  "getPhyState d c s = rbind (get_chan d c s) (\<lambda>ch. Inr (phyState (gMacCtx ch)))"

section \<open>Request buffers\<close>

definition clearDltti :: "u8 \<Rightarrow> u8 \<Rightarrow> nat \<Rightarrow> nat \<Rightarrow> 'e mac \<Rightarrow> 'e mac res" where
  "clearDltti d c i j s =
     rbind (get_chan d c s) (\<lambda>ch. rbind (guard (i < 4 \<and> j < 20) OutOfRange) (\<lambda>_.
     rbind (deref (gL1DLTTIReq ch i j)) (\<lambda>m. rbind (DlttiDefaultParams m) (\<lambda>m'.
       Inr (set_chan d c (ch\<lparr>gL1DLTTIReq := set2 (gL1DLTTIReq ch) i j (Some m'),
         gL1DlttiReqSize := set2 (gL1DlttiReqSize ch) i j 0\<rparr>) s)))))"

definition clearTxdata :: "u8 \<Rightarrow> u8 \<Rightarrow> nat \<Rightarrow> nat \<Rightarrow> 'e mac \<Rightarrow> 'e mac res" where
  "clearTxdata d c i j s =
     rbind (get_chan d c s) (\<lambda>ch. rbind (guard (i < 4 \<and> j < 20) OutOfRange) (\<lambda>_.
     rbind (deref (gL1TXDATAREQ ch i j)) (\<lambda>m. rbind (TxdataDefaultParams m) (\<lambda>m'.
       Inr (set_chan d c (ch\<lparr>gL1TXDATAREQ := set2 (gL1TXDATAREQ ch) i j (Some m'),
         gL1TxdataReqSize := set2 (gL1TxdataReqSize ch) i j 0\<rparr>) s)))))"

definition clearUltti :: "u8 \<Rightarrow> u8 \<Rightarrow> nat \<Rightarrow> nat \<Rightarrow> 'e mac \<Rightarrow> 'e mac res" where
  "clearUltti d c i j s =
     rbind (get_chan d c s) (\<lambda>ch. rbind (guard (i < 4 \<and> j < 20) OutOfRange) (\<lambda>_.
     rbind (deref (gL1ULTTI ch i j)) (\<lambda>m. rbind (UlttiDefaultParams m) (\<lambda>m'.
       Inr (set_chan d c (ch\<lparr>gL1ULTTI := set2 (gL1ULTTI ch) i j (Some m'),
         gL1UlttiReqSize := set2 (gL1UlttiReqSize ch) i j 0\<rparr>) s)))))"

text \<open>The frames and slots of a window, as the loops visit them.\<close>

definition slots :: "nat \<Rightarrow> (nat \<times> nat) list" where
  "slots n = List.product [0..<4] [0..<n]"

definition clearAll :: "u8 \<Rightarrow> u8 \<Rightarrow> 'e mac \<Rightarrow> 'e mac res" where
  "clearAll d c = foreach (\<lambda>(i, j) s. rbind (clearDltti d c i j s) (\<lambda>s.
     rbind (clearTxdata d c i j s) (clearUltti d c i j))) (slots 20)"

section \<open>Test cases\<close>

datatype tc_file = ConfigFile u16 u8 | UlFile u16 nat u8 nat | DlFile u16 nat u8 nat | TxFile u16 nat u8 nat

type_synonym files = "tc_file \<Rightarrow> u8 list option"

text \<open>
  \<open>fread\<close> of a whole file into a buffer. The TTI files are read with a size expression that has one
  index too few and so is the address of a row, larger than any file: \<open>fread\<close> then reads up to the
  end of the file, too. A file larger than the buffer overruns it.
\<close>

definition read_file :: "u8 list \<Rightarrow> u8 list option \<Rightarrow> u8 list option res" where
  "read_file content buf = rbind (deref buf) (\<lambda>b. rbind (wr_block b 0 content) (\<lambda>b'. Inr (Some b')))"

definition loadConfig :: "files \<Rightarrow> u16 \<Rightarrow> u8 \<Rightarrow> u8 \<Rightarrow> 'e mac \<Rightarrow> 'e mac res" where
  "loadConfig fs tc d c s = (case fs (ConfigFile tc c) of None \<Rightarrow> Inr s
     | Some content \<Rightarrow>
         rbind (get_chan d c s) (\<lambda>ch. rbind (read_file content (gL1ConfigRequest ch)) (\<lambda>b.
           Inr (set_chan d c (ch\<lparr>gL1ConfigRequest := b, gL1ConfigReqSize := of_nat (length content)\<rparr>) s))))"

definition loadSlot :: "files \<Rightarrow> u16 \<Rightarrow> u8 \<Rightarrow> u8 \<Rightarrow> nat \<times> nat \<Rightarrow> 'e mac \<Rightarrow> 'e mac res" where
  "loadSlot fs tc d c p s =
     (case p of (i, j) \<Rightarrow>
      rbind (case fs (UlFile tc i c j) of None \<Rightarrow> Inr s | Some content \<Rightarrow>
         rbind (get_chan d c s) (\<lambda>ch. rbind (guard (j < 20) OutOfRange) (\<lambda>_.
         rbind (read_file content (gL1ULTTI ch i j)) (\<lambda>b.
           Inr (set_chan d c (ch\<lparr>gL1ULTTI := set2 (gL1ULTTI ch) i j b,
             gL1UlttiReqSize := set2 (gL1UlttiReqSize ch) i j (of_nat (length content))\<rparr>) s))))) (\<lambda>s.
      rbind (case fs (DlFile tc i c j) of None \<Rightarrow> Inr s | Some content \<Rightarrow>
         rbind (get_chan d c s) (\<lambda>ch. rbind (guard (j < 20) OutOfRange) (\<lambda>_.
         rbind (read_file content (gL1DLTTIReq ch i j)) (\<lambda>b.
           Inr (set_chan d c (ch\<lparr>gL1DLTTIReq := set2 (gL1DLTTIReq ch) i j b,
             gL1DlttiReqSize := set2 (gL1DlttiReqSize ch) i j (of_nat (length content))\<rparr>) s))))) (\<lambda>s.
      case fs (TxFile tc i c j) of None \<Rightarrow> Inr s | Some content \<Rightarrow>
         rbind (get_chan d c s) (\<lambda>ch. rbind (guard (j < 20) OutOfRange) (\<lambda>_.
         rbind (read_file content (gL1TXDATAREQ ch i j)) (\<lambda>b.
           Inr (set_chan d c (ch\<lparr>gL1TXDATAREQ := set2 (gL1TXDATAREQ ch) i j b,
             gL1TxdataReqSize := set2 (gL1TxdataReqSize ch) i j (of_nat (length content))\<rparr>) s)))))))"

definition macTcLoad :: "files \<Rightarrow> u16 \<Rightarrow> u8 \<Rightarrow> u8 \<Rightarrow> 'e mac \<Rightarrow> 'e mac res" where
  "macTcLoad fs tc c d s =
     rbind (clearAll d c s) (\<lambda>s.
     rbind (loadConfig fs tc d c s) (\<lambda>s.
     rbind (get_chan d c s) (\<lambda>ch.
     rbind (deref (gL1ConfigRequest ch)) (\<lambda>cfg.
     rbind (getCarrierConfig (drop 8 cfg) (ucast d) (ucast c) (mstats s)) (\<lambda>(scs, st).
     rbind (macGetSlotNumPerSfn st (ucast d) (ucast c)) (\<lambda>n.
       foreach (loadSlot fs tc d c) (slots (unat n)) (s\<lparr>mstats := st\<rparr>)))))))"

section \<open>The PHY state machine\<close>

definition macRevErrorIndication :: "u8 \<Rightarrow> u8 \<Rightarrow> u8 \<Rightarrow> u8 \<Rightarrow> 'e mac \<Rightarrow> 'e mac res" where
  "macRevErrorIndication messageId errorCode d c s =
     (if messageId = l1_id L1_START_REQUEST then
        setPhyState d c (if errorCode \<noteq> 0 then PHY_IDLE else PHY_ACTIVE) s
      else if messageId = l1_id L1_STOP_REQUEST then setPhyState d c PHY_IDLE s
      else Inr s)"

definition macRevCfgResonse :: "'e env \<Rightarrow> u8 \<Rightarrow> u8 \<Rightarrow> u8 \<Rightarrow> 'e mac \<Rightarrow> 'e mac res" where
  "macRevCfgResonse env errorCode d c s =
     (if errorCode = 0 then
        rbind (setPhyState d c PHY_INIT s) (\<lambda>s.
        rbind (sendPhyStartReq env d c s) (\<lambda>s.
        rbind (get_chan d c s) (\<lambda>ch.
        if operMode (gMacCtx ch) = AUTO then
          rbind (setPhyState d c PHY_INIT s) (\<lambda>s.
            if phyStub (gMacCtx ch) then macRevErrorIndication (l1_id L1_START_REQUEST) 0 d c s else Inr s)
        else Inr s)))
      else setPhyState d c PHY_IDLE s)"

text \<open>The reply of a stubbed PHY to a configuration, which several handlers simulate.\<close>

definition stubConfigured :: "'e env \<Rightarrow> u8 \<Rightarrow> u8 \<Rightarrow> 'e mac \<Rightarrow> 'e mac res" where
  "stubConfigured env d c s =
     rbind (get_chan d c s) (\<lambda>ch. if phyStub (gMacCtx ch) then macRevCfgResonse env 0 d c s else Inr s)"

definition stubStopped :: "u8 \<Rightarrow> u8 \<Rightarrow> 'e mac \<Rightarrow> 'e mac res" where
  "stubStopped d c s =
     rbind (get_chan d c s) (\<lambda>ch.
       if phyStub (gMacCtx ch) then macRevErrorIndication (l1_id L1_STOP_REQUEST) 0 d c s else Inr s)"

definition macRevStopIndication :: "'e env \<Rightarrow> u8 \<Rightarrow> u8 \<Rightarrow> 'e mac \<Rightarrow> 'e mac res" where
  "macRevStopIndication env d c s =
     rbind (setPhyState d c PHY_IDLE s) (\<lambda>s.
     rbind (get_chan d c s) (\<lambda>ch.
     if operMode (gMacCtx ch) = AUTO \<and> schState (gMacCtx ch) \<noteq> SCH_STOP then Inr s
     else
       rbind (sendPhyConfigReq env d c s) (\<lambda>s.
       rbind (setPhyState d c PHY_CFG s) (stubConfigured env d c))))"

definition macSchedule :: "'e env \<Rightarrow> u16 \<Rightarrow> u16 \<Rightarrow> u8 \<Rightarrow> u8 \<Rightarrow> 'e mac \<Rightarrow> 'e mac res" where
  "macSchedule env sfn slot d c s =
     rbind (get_chan d c s) (\<lambda>ch.
       if schState (gMacCtx ch) = SCH_STOP then Inr s else macTtiTx env sfn (ucast slot) d c s)"

text \<open>The frame positions a slot indication determines: two slots ahead, and one.\<close>

definition slotPositions :: "u32 \<Rightarrow> L1SlotInd \<Rightarrow> u32 \<Rightarrow> chan \<Rightarrow> chan res" where
  "slotPositions junk ind scs ch =
     rbind (gsfnShift junk ind 2 scs) (\<lambda>tx.
     rbind (gsfnShift junk ind 2 scs) (\<lambda>rx.
     rbind (gsfnShift junk ind 1 scs) (\<lambda>loc.
       Inr (ch\<lparr>gL2TxGSfn := tx, gL2RxGSfn := rx, sMacLocalGSfn := loc,
         gMacTxRfn := si_SFN tx, gMacTxSlot := ucast (si_Slot tx),
         gMacRxRfn := si_SFN rx, gMacRxSlot := ucast (si_Slot rx)\<rparr>))))"

definition slotFirst :: "u8 \<Rightarrow> u8 \<Rightarrow> 'e mac \<Rightarrow> 'e mac res" where
  "slotFirst d c s =
     rbind (getPhyState d c s) (\<lambda>st.
       if st = PHY_INIT then
         rbind (setPhyState d c PHY_ACTIVE s) (upd_chan d c (\<lambda>ch. ch\<lparr>
           gMacCtx := (gMacCtx ch)\<lparr>schState := SCH_NORMAL\<rparr>, gSystemTtiNum := 0,
           sMacLocalGSfn := \<lparr>si_SFN = 0, si_Slot = 0\<rparr>\<rparr>))
       else Inr s)"

definition macTxStartIndHandle :: "'e env \<Rightarrow> L1SlotInd \<Rightarrow> u8 \<Rightarrow> u8 \<Rightarrow> 'e mac \<Rightarrow> 'e mac res" where
  "macTxStartIndHandle env ind d c s =
     rbind (slotFirst d c s) (\<lambda>s.
     rbind (getPhyState d c s) (\<lambda>st.
     if st \<noteq> PHY_ACTIVE then Inr s
     else
       rbind (upd_chan d c (\<lambda>ch. ch\<lparr>sMacLocalGSfn := ind\<rparr>) s) (\<lambda>s.
       rbind (get_chan d c s) (\<lambda>ch.
       let n = gSystemTtiNum ch; per = runttiPerTc (gMacCtx ch) in
       if per \<noteq> 0 \<and> n \<noteq> 0 \<and> n mod per = 0 then
         rbind (sendPhyStopReq env d c s) (upd_chan d c (\<lambda>ch. ch\<lparr>
           gMacCtx := (gMacCtx ch)\<lparr>schState := SCH_STOP\<rparr>, gSystemTtiNum := gSystemTtiNum ch + 1\<rparr>))
       else
         rbind (upd_chan d c (\<lambda>ch. ch\<lparr>gSystemTtiNum := gSystemTtiNum ch + 1\<rparr>) s) (\<lambda>s.
         rbind (rd2 (gcurrentScs (mstats s)) (unat d) (unat c)) (\<lambda>scs.
         rbind (get_chan d c s) (\<lambda>ch.
         rbind (slotPositions (garbage env) ind scs ch) (\<lambda>ch'.
           macSchedule env (gMacTxRfn ch') (ucast (gMacTxSlot ch')) d c (set_chan d c ch' s)))))))))"
section \<open>Messages of the PHY\<close>

definition on_stats :: "(mac_stats \<Rightarrow> mac_stats res) \<Rightarrow> 'e mac \<Rightarrow> 'e mac res" where
  "on_stats f s = rbind (f (mstats s)) (\<lambda>st. Inr (s\<lparr>mstats := st\<rparr>))"

definition slotIndicationProcDecHdlr :: "'e env \<Rightarrow> u8 list \<Rightarrow> u8 \<Rightarrow> u8 \<Rightarrow> 'e mac \<Rightarrow> 'e mac res" where
  "slotIndicationProcDecHdlr env m d c s =
     rbind (fld16 m 0 L1SlotIndication_t ''SFN'') (\<lambda>sfn.
     rbind (fld16 m 0 L1SlotIndication_t ''Slot'') (\<lambda>slot.
       macTxStartIndHandle env \<lparr>si_SFN = sfn, si_Slot = slot\<rparr> d c s))"

definition configResponseProcDecHdlr :: "'e env \<Rightarrow> u8 list \<Rightarrow> u8 \<Rightarrow> u8 \<Rightarrow> 'e mac \<Rightarrow> 'e mac res" where
  "configResponseProcDecHdlr env m d c s =
     rbind (fld8 m 0 L1ConfigResponse_t ''ErrorCode'') (\<lambda>err. macRevCfgResonse env err d c s)"

definition errorIndicationProcDecHdlr :: "u8 list \<Rightarrow> u8 \<Rightarrow> u8 \<Rightarrow> 'e mac \<Rightarrow> 'e mac res" where
  "errorIndicationProcDecHdlr m d c s =
     rbind (fld8 m 0 L1ErrorIndication_t ''MessageId'') (\<lambda>mid.
     rbind (fld8 m 0 L1ErrorIndication_t ''ErrorCode'') (\<lambda>err. macRevErrorIndication mid err d c s))"

text \<open>The slot indication case of \<open>fapiMsgDec\<close>, without its time stamps.\<close>

definition slotCase :: "'e env \<Rightarrow> u8 list \<Rightarrow> u8 \<Rightarrow> u8 \<Rightarrow> 'e mac \<Rightarrow> 'e mac res" where
  "slotCase env m d c s =
     rbind (slotIndicationProcDecHdlr env m d c s) (\<lambda>s.
     rbind (upd_chan d c (\<lambda>ch. ch\<lparr>sSlotNum := sSlotNum ch + 1\<rparr>) s) (\<lambda>s.
     rbind (get_chan d c s) (\<lambda>ch.
     rbind (if sSlotNum ch \<ge> 20000 then
              rbind (macDumpCellUlInfo (mstats s) (ucast d) (ucast c)) (\<lambda>(report, st).
                upd_chan d c (\<lambda>ch. ch\<lparr>sSlotNum := 0\<rparr>) (s\<lparr>mstats := st\<rparr>))
            else Inr s) (setPhyState d c PHY_ACTIVE))))"

definition rxDataCase :: "'e env \<Rightarrow> u8 list \<Rightarrow> u8 \<Rightarrow> u8 \<Rightarrow> 'e mac \<Rightarrow> 'e mac res" where
  "rxDataCase env m d c s =
     rbind (rxDataIndicationProcDecHdlr m) (\<lambda>calls.
       Inr (s\<lparr>lib := foldl (\<lambda>e call. pcxxDataRecv env d c call e) (lib s) calls\<rparr>))"

text \<open>
  \<open>fapiMsgDec\<close> on the message at \<open>pos\<close> of the buffer of a group. The device and cell indices come as
  \<open>uint16_t\<close> from callers that have them as \<open>uint8_t\<close>.
\<close>

definition fapiMsgDec :: "'e env \<Rightarrow> u8 list \<Rightarrow> nat \<Rightarrow> u8 \<Rightarrow> u8 \<Rightarrow> 'e mac \<Rightarrow> (u32 \<times> 'e mac) res" where
  "fapiMsgDec env buf pos d c s =
     rbind (fld32 buf pos L1GeneralMsgHdr_t ''msgId'') (\<lambda>msgId.
     rbind (fld32 buf pos L1GeneralMsgHdr_t ''msgSize'') (\<lambda>msgSize.
     let m = drop (pos + csize L1GeneralMsgHdr_t) buf;
         handled = (\<lambda>r. rbind r (\<lambda>s'. Inr (msgSize + 8, s'))) in
     if msgId = fapi_id FAPI_RX_DATA_INDICATION then handled (rxDataCase env m d c s)
     else if msgId = fapi_id FAPI_SLOT_INDICATION then handled (slotCase env m d c s)
     else if msgId = fapi_id FAPI_CONFIG_RESPONSE then handled (configResponseProcDecHdlr env m d c s)
     else if msgId = fapi_id FAPI_STOP_INDICATION then handled (macRevStopIndication env d c s)
     else if msgId = fapi_id FAPI_ERROR_INDICATION then handled (errorIndicationProcDecHdlr m d c s)
     else if msgId = fapi_id FAPI_CRC_INDICATION then
       handled (on_stats (crcIndicationProcDecHdlr m (ucast d) (ucast c)) s)
     else if msgId = fapi_id FAPI_UCI_INDICATION then
       handled (on_stats (uciIndicationProcDecHdlr m (ucast d) (ucast c)) s)
     else if msgId = fapi_id FAPI_SRS_INDICATION then
       handled (rbind (srsIndicationProcDecHdlr m) (\<lambda>_. Inr s))
     else if msgId = fapi_id FAPI_PRACH_INDICATION then
       handled (on_stats (rachIndicationProcDecHdlr m (ucast d) (ucast c)) s)
     else Inr (- 1, s)))"

text \<open>
  The loop over the messages of a group. The pointer advances by the size rounded up to words, the
  offset by the size itself; a result of -1 ends the loop (\<open>None\<close>).
\<close>

fun revLoop :: "'e env \<Rightarrow> u8 list \<Rightarrow> nat \<Rightarrow> nat \<Rightarrow> u32 \<Rightarrow> u8 \<Rightarrow> u8 \<Rightarrow> 'e mac \<Rightarrow> (u32 option \<times> 'e mac) res" where
  "revLoop env buf 0 pos off d c s = Inr (Some off, s)"
| "revLoop env buf (Suc n) pos off d c s =
     rbind (fapiMsgDec env buf pos d c s) (\<lambda>(len, s').
       if len = - 1 then Inr (None, s')
       else revLoop env buf n (pos + 4 * unat (drop_bit 2 (len + 3))) (off + len) d c s')"

definition macRevL1Ctrl ::
    "'e env \<Rightarrow> addr \<Rightarrow> u8 list \<Rightarrow> u32 \<Rightarrow> u8 \<Rightarrow> u8 \<Rightarrow> 'e mac \<Rightarrow> (u32 \<times> 'e mac) res" where
  "macRevL1Ctrl env a buf payloadSize d c s =
     rbind (guard (payloadSize > 0) AssertFail) (\<lambda>_.
     rbind (fld8 buf 0 L1MsgHdr_t ''msgNum'') (\<lambda>recvCnt.
     if recvCnt = 0 then Inr (4, s)
     else if 0xFF \<le> recvCnt then Inr (4, s)
     else
       rbind (revLoop env buf (unat recvCnt) 4 4 d c s) (\<lambda>(off, s').
       case off of
         None \<Rightarrow> Inr (payloadSize, s')
       | Some off \<Rightarrow>
           rbind (addPhyTraceItem a payloadSize (mtrace s')) (\<lambda>t.
             Inr (if payloadSize \<noteq> off then payloadSize else off, s'\<lparr>mtrace := t\<rparr>)))))"

definition macSendL1Ctrl :: "bool \<Rightarrow> u32 \<Rightarrow> u32 res" where
  "macSendL1Ctrl buf payloadSize =
     (if payloadSize = 0 then Inr 0 else rbind (guard buf AssertFail) (\<lambda>_. Inr 0))"

definition macSendL1Data :: "bool \<Rightarrow> u32 \<Rightarrow> u32 res" where
  "macSendL1Data buf payloadSize = rbind (guard (buf \<and> payloadSize > 0) AssertFail) (\<lambda>_. Inr 0)"

section \<open>Messages of the application\<close>

datatype CtrlMsg_ev = CTRL_PHY_INIT | CTRL_PHY_CFG | CTRL_CELL_SETUP | CTRL_PHY_START | CTRL_PHY_STOP
  | CTRL_DL_TTI_REQ | CTRL_UL_TTI_REQ | CTRL_UL_DCI_REQ | CTRL_TX_DATA_REQ | CTRL_RX_DATA_REQ
  | CTRL_CRC_REQ | CTRL_UCI_REQ | CTRL_SRS_REQ | CTRL_RACH_REQ | CTRL_TEST_CASE | CTRL_TEST_INIT
  | APP_START_TEST | APP_SIM_TTI | APP_STOP_TEST | APP_TC_START | APP_TC_CONFIG_CASE | APP_TC_DL_CASE
  | APP_TC_UL_CASE | APP_TC_TX_CASE | APP_TX_CASE | APP_TC_STOP
  | CTRL_PHY_INIT_RSP | CTRL_PHY_CFG_RSP | CTRL_PHY_START_RSP | CTRL_PHY_STOP_RSP | CTRL_TEST_INIT_RSP

fun ctrl_id :: "CtrlMsg_ev \<Rightarrow> u16" where
  "ctrl_id CTRL_PHY_INIT = 1"
| "ctrl_id CTRL_PHY_CFG = 2"
| "ctrl_id CTRL_CELL_SETUP = 3"
| "ctrl_id CTRL_PHY_START = 4"
| "ctrl_id CTRL_PHY_STOP = 5"
| "ctrl_id CTRL_DL_TTI_REQ = 6"
| "ctrl_id CTRL_UL_TTI_REQ = 7"
| "ctrl_id CTRL_UL_DCI_REQ = 8"
| "ctrl_id CTRL_TX_DATA_REQ = 9"
| "ctrl_id CTRL_RX_DATA_REQ = 10"
| "ctrl_id CTRL_CRC_REQ = 11"
| "ctrl_id CTRL_UCI_REQ = 12"
| "ctrl_id CTRL_SRS_REQ = 13"
| "ctrl_id CTRL_RACH_REQ = 14"
| "ctrl_id CTRL_TEST_CASE = 15"
| "ctrl_id CTRL_TEST_INIT = 16"
| "ctrl_id APP_START_TEST = 100"
| "ctrl_id APP_SIM_TTI = 101"
| "ctrl_id APP_STOP_TEST = 102"
| "ctrl_id APP_TC_START = 103"
| "ctrl_id APP_TC_CONFIG_CASE = 104"
| "ctrl_id APP_TC_DL_CASE = 105"
| "ctrl_id APP_TC_UL_CASE = 106"
| "ctrl_id APP_TC_TX_CASE = 107"
| "ctrl_id APP_TX_CASE = 108"
| "ctrl_id APP_TC_STOP = 109"
| "ctrl_id CTRL_PHY_INIT_RSP = 200"
| "ctrl_id CTRL_PHY_CFG_RSP = 201"
| "ctrl_id CTRL_PHY_START_RSP = 202"
| "ctrl_id CTRL_PHY_STOP_RSP = 203"
| "ctrl_id CTRL_TEST_INIT_RSP = 204"

record CtrlMsg_s =
  cm_msgId :: u16
  cm_msgLen :: u16
  cm_paras :: "u32 list"

text \<open>A message in the words of the ring, and back; a message that is too short is a fault.\<close>

definition ctrl_words :: "CtrlMsg_s \<Rightarrow> u32 list" where
  "ctrl_words m = (ucast (cm_msgId m) OR push_bit 16 (ucast (cm_msgLen m))) # cm_paras m"

definition ctrl_of_words :: "u32 list \<Rightarrow> CtrlMsg_s res" where
  "ctrl_of_words ws = (if 5 \<le> length ws
     then Inr \<lparr>cm_msgId = ucast (ws ! 0), cm_msgLen = ucast (drop_bit 16 (ws ! 0)), cm_paras = take 4 (drop 1 ws)\<rparr>
     else Inl OutOfRange)"

definition caseConfig :: "'e env \<Rightarrow> u8 \<Rightarrow> u8 \<Rightarrow> 'e mac \<Rightarrow> 'e mac res" where
  "caseConfig env d c s =
     rbind (sendPhyParamReq env d c s) (\<lambda>s. rbind (sendPhyConfigReq env d c s) (setPhyState d c PHY_CFG))"

definition caseDl :: "'e env \<Rightarrow> u32 \<Rightarrow> u32 \<Rightarrow> u8 \<Rightarrow> u8 \<Rightarrow> 'e mac \<Rightarrow> 'e mac res" where
  "caseDl env p0 p1 d c s =
     rbind (upd_chan d c (\<lambda>ch. ch\<lparr>gL2TxGSfn := \<lparr>si_SFN = ucast p0, si_Slot = ucast p1\<rparr>\<rparr>) s)
       (sendSingleDlTTIReq env (ucast p0) (ucast p1) d c)"

definition caseUl :: "'e env \<Rightarrow> u32 \<Rightarrow> u32 \<Rightarrow> u8 \<Rightarrow> u8 \<Rightarrow> 'e mac \<Rightarrow> 'e mac res" where
  "caseUl env p0 p1 d c s =
     rbind (upd_chan d c (\<lambda>ch. ch\<lparr>gL2RxGSfn := \<lparr>si_SFN = ucast p0, si_Slot = ucast p1\<rparr>\<rparr>) s)
       (sendSingleUlTTIReq env (ucast p0) (ucast p1) d c)"

definition caseTx :: "'e env \<Rightarrow> u32 \<Rightarrow> u32 \<Rightarrow> u8 \<Rightarrow> u8 \<Rightarrow> 'e mac \<Rightarrow> 'e mac res" where
  "caseTx env p0 p1 d c s =
     rbind (upd_chan d c (\<lambda>ch. ch\<lparr>gL2TxGSfn := \<lparr>si_SFN = ucast p0, si_Slot = ucast p1\<rparr>\<rparr>) s)
       (sendSingleTxDataReq env (ucast p0) (ucast p1) d c)"

text \<open>Restarting a cell: stop it when it is not idle, otherwise configure it (with \<open>prepare\<close> first).\<close>

definition restartCell :: "'e env \<Rightarrow> ('e mac \<Rightarrow> 'e mac res) \<Rightarrow> u8 \<Rightarrow> u8 \<Rightarrow> 'e mac \<Rightarrow> 'e mac res" where
  "restartCell env prepare d c s =
     rbind (getPhyState d c s) (\<lambda>st.
     rbind (if st \<noteq> PHY_IDLE then rbind (sendPhyStopReq env d c s) (stubStopped d c)
            else
              rbind (prepare s) (\<lambda>s.
              rbind (sendPhyConfigReq env d c s) (\<lambda>s.
              rbind (setPhyState d c PHY_CFG s) (stubConfigured env d c))))
       (upd_ctx d c (\<lambda>x. x\<lparr>schState := SCH_NORMAL\<rparr>)))"

definition caseTest :: "'e env \<Rightarrow> files \<Rightarrow> u32 \<Rightarrow> u32 \<Rightarrow> u8 \<Rightarrow> u8 \<Rightarrow> 'e mac \<Rightarrow> 'e mac res" where
  "caseTest env fs p0 p1 d c s =
     (let n = (if p1 \<noteq> 0 \<and> p1 \<le> 2 then ucast p1 else appCellNum s) in
      rbind (macTcLoad fs (ucast p0) c d (s\<lparr>appCellNum := n, gCellNum := n\<rparr>)) (\<lambda>s.
      rbind (upd_ctx d c (\<lambda>x. x\<lparr>runMode := RUNMODE_FAPI_GENERATOR\<rparr>) s)
        (restartCell env Inr d c)))"

definition cells :: "u8 \<Rightarrow> u8 list" where
  "cells n = map of_nat [0..<unat n]"

definition caseStop :: "'e env \<Rightarrow> u8 \<Rightarrow> 'e mac \<Rightarrow> 'e mac res" where
  "caseStop env d s = foreach (\<lambda>c s. rbind (sendPhyStopReq env d c s)
     (upd_ctx d c (\<lambda>x. x\<lparr>schState := SCH_STOP\<rparr>))) (cells (appCellNum s)) s"

definition caseStart :: "'e env \<Rightarrow> u32 \<Rightarrow> u8 \<Rightarrow> 'e mac \<Rightarrow> 'e mac res" where
  "caseStart env p0 d s =
     foreach (\<lambda>c. restartCell env (sendPhyParamReq env d c) d c) (cells (appCellNum s))
       (s\<lparr>sTcIdInRunning := ucast p0\<rparr>)"

definition appMgrMsgqHRecv :: "'e env \<Rightarrow> files \<Rightarrow> 'e mac \<Rightarrow> u32 list \<Rightarrow> u32 \<Rightarrow> (int \<times> 'e mac) res" where
  "appMgrMsgqHRecv env fs s ws msgLen =
     rbind (guard (msgLen > 0) AssertFail) (\<lambda>_.
     rbind (ctrl_of_words ws) (\<lambda>msg.
     let i = cm_msgId msg; p = (!) (cm_paras msg); d = ucast (p 2); c = ucast (p 3);
         handled = (\<lambda>r. rbind r (\<lambda>s'. Inr (0, s'))) in
     if i = ctrl_id APP_TC_CONFIG_CASE then handled (caseConfig env d c s)
     else if i = ctrl_id APP_TC_DL_CASE then handled (caseDl env (p 0) (p 1) d c s)
     else if i = ctrl_id APP_TC_UL_CASE then handled (caseUl env (p 0) (p 1) d c s)
     else if i = ctrl_id APP_TC_TX_CASE then handled (caseTx env (p 0) (p 1) d c s)
     else if i = ctrl_id APP_TX_CASE then handled (caseTest env fs (p 0) (p 1) d c s)
     else if i = ctrl_id APP_TC_STOP then handled (caseStop env d s)
     else if i = ctrl_id APP_START_TEST then handled (caseStart env (p 0) d s)
     else Inr (- 1, s)))"

text \<open>
  The ring of a cell is read while the handler runs; no handler touches it, so its new indices are
  stored after the handler.
\<close>

definition macRevAppCtrlMsg :: "'e env \<Rightarrow> files \<Rightarrow> u8 \<Rightarrow> u8 \<Rightarrow> 'e mac \<Rightarrow> 'e mac res" where
  "macRevAppCtrlMsg env fs d c s =
     rbind (get_chan d c s) (\<lambda>ch.
     rbind (QuickMsgRingRecvMsgWithUnpackFunc (msgqApp (gMacCtx ch)) (appMgrMsgqHRecv env fs) s) (\<lambda>(rc, s', r).
       upd_ctx d c (\<lambda>x. x\<lparr>msgqApp := r\<rparr>) s'))"

definition macAppMgrSend :: "u8 \<Rightarrow> u8 \<Rightarrow> u8 list \<Rightarrow> u32 \<Rightarrow> 'e mac \<Rightarrow> 'e mac res" where
  "macAppMgrSend d c bs n s =
     rbind (get_chan d c s) (\<lambda>ch.
     rbind (QuickMsgRingSendMsg (msgqApp (gMacCtx ch)) (MsgExt bs) n) (\<lambda>(rc, r).
       upd_ctx d c (\<lambda>x. x\<lparr>msgqApp := r\<rparr>) s))"

definition macCtrlMgrSend :: "u8 \<Rightarrow> u8 \<Rightarrow> u8 list \<Rightarrow> u32 \<Rightarrow> 'e mac \<Rightarrow> 'e mac res" where
  "macCtrlMgrSend d c bs n s =
     rbind (get_chan d c s) (\<lambda>ch.
     rbind (QuickMsgRingSendMsg (msgqH (gMacCtx ch)) (MsgExt bs) n) (\<lambda>(rc, r).
       upd_ctx d c (\<lambda>x. x\<lparr>msgqH := r\<rparr>) s))"

section \<open>Start and stop\<close>

definition initCtrlMgrMsgqH :: "u8 list \<Rightarrow> 'e mac \<Rightarrow> 'e mac res" where
  "initCtrlMgrMsgqH mem = foreach (\<lambda>(d, c) s.
     rbind (init_quickMsgRing None 4096 (Some mem)) (\<lambda>(rc, r1).
     rbind (init_quickMsgRing None 4096 (Some mem)) (\<lambda>(rc', r2).
       upd_ctx d c (\<lambda>x. x\<lparr>msgqH := r1, msgqApp := r2\<rparr>) s)))
     (List.product [0, 1, 2, 3] [0, 1])"

text \<open>
  The allocation of the buffers of a cell; \<open>junk\<close> is what malloc leaves in the bytes of a block.
\<close>

definition initSlot :: "(nat \<Rightarrow> u8) \<Rightarrow> u8 \<Rightarrow> u8 \<Rightarrow> nat \<times> nat \<Rightarrow> 'e mac \<Rightarrow> 'e mac res" where
  "initSlot junk d c p s =
     (case p of (i, j) \<Rightarrow>
      rbind (put16 (map junk [0..<65536]) 0 L1DLTTIReq_t ''SFN'' (of_nat i)) (\<lambda>dl.
      rbind (put16 dl 0 L1DLTTIReq_t ''Slot'' (of_nat j)) (\<lambda>dl.
      rbind (upd_chan d c (\<lambda>ch. ch\<lparr>gL1DLTTIReq := set2 (gL1DLTTIReq ch) i j (Some dl)\<rparr>) s) (\<lambda>s.
      rbind (clearDltti d c i j s) (\<lambda>s.
      rbind (put16 (map junk [0..<4096]) 0 L1TXDATAREQ_t ''SFN'' (of_nat i)) (\<lambda>tx.
      rbind (put16 tx 0 L1TXDATAREQ_t ''Slot'' (of_nat j)) (\<lambda>tx.
      rbind (upd_chan d c (\<lambda>ch. ch\<lparr>gL1TXDATAREQ := set2 (gL1TXDATAREQ ch) i j (Some tx)\<rparr>) s) (\<lambda>s.
      rbind (clearTxdata d c i j s) (\<lambda>s.
      rbind (put16 (map junk [0..<4096]) 0 L1ULTTI_t ''SFN'' (of_nat i)) (\<lambda>ul.
      rbind (put16 ul 0 L1ULTTI_t ''Slot'' (of_nat j)) (\<lambda>ul.
      rbind (upd_chan d c (\<lambda>ch. ch\<lparr>gL1ULTTI := set2 (gL1ULTTI ch) i j (Some ul)\<rparr>) s)
        (clearUltti d c i j))))))))))))"

definition initCell :: "(nat \<Rightarrow> u8) \<Rightarrow> (MacContent_s \<Rightarrow> MacContent_s) \<Rightarrow> u8 \<times> u8 \<Rightarrow> 'e mac \<Rightarrow> 'e mac res" where
  "initCell junk setup p s =
     (case p of (d, c) \<Rightarrow>
      rbind (upd_chan d c (\<lambda>ch. ch\<lparr>gL1ConfigRequest := Some (map junk [0..<65536])\<rparr>) s) (\<lambda>s.
      rbind (foreach (initSlot junk d c) (slots 20) s) (upd_ctx d c setup)))"

definition macInit ::
    "(nat \<Rightarrow> u8) \<Rightarrow> u8 list \<Rightarrow> u64 \<Rightarrow> u64 \<Rightarrow> TestMacRunMode_e \<Rightarrow> TestMacOperMode_e \<Rightarrow> bool \<Rightarrow>
     TestMacPdschMode_e \<Rightarrow> u32 \<Rightarrow> bool \<Rightarrow> 'e mac \<Rightarrow> 'e mac res" where
  "macInit junk ringMem maxT minT run oper stub pdsch per sfnm s =
     rbind (initCtrlMgrMsgqH ringMem s) (\<lambda>s.
       foreach (initCell junk (\<lambda>x. x\<lparr>runMode := run, operMode := oper, phyStub := stub, pdschMode := pdsch,
           phyState := PHY_IDLE, schState := SCH_STOP, runttiPerTc := per, sfnMode := sfnm\<rparr>))
         (List.product [0, 1, 2, 3] [0, 1])
         (s\<lparr>mstats := (mstats s)\<lparr>maxTimeOut := maxT, minTimeOut := minT\<rparr>\<rparr>))"

definition macStop :: "'e env \<Rightarrow> u8 \<Rightarrow> u8 \<Rightarrow> 'e mac \<Rightarrow> 'e mac res" where
  "macStop env d c s =
     rbind (upd_chan d c (\<lambda>ch. ch\<lparr>s_rtRun := False\<rparr>) s) (\<lambda>s. Inr (s\<lparr>lib := pcxxDestroy env d c (lib s)\<rparr>))"

end
