(* ===== verification/MacSending.thy ===== *)
theory MacSending
  imports MacTx
begin

text \<open>
  The functions of the transmit side (\<open>mac/src/macTx.c\<close>) work for one cell: they change its request
  buffers, whose sizes they keep, and its transmit context, and leave the context of the cell, the
  statistics and all other cells alone.
\<close>

section \<open>The relation\<close>

definition has_length :: "'a list option \<Rightarrow> nat \<Rightarrow> bool" where
  "has_length p n \<longleftrightarrow> (\<exists>m. p = Some m \<and> length m = n)"

definition bufs_wf :: "chan \<Rightarrow> bool" where
  "bufs_wf ch \<longleftrightarrow> has_length (gL1ConfigRequest ch) 65536 \<and> (\<forall>i < 4. \<forall>j < 20.
     has_length (gL1DLTTIReq ch i j) 65536 \<and> has_length (gL1TXDATAREQ ch i j) 4096 \<and>
     has_length (gL1ULTTI ch i j) 4096)"

definition trace_ok :: "trace \<Rightarrow> bool" where
  "trace_ok t \<longleftrightarrow> length (tr_item t) = 32 \<and> unat (tr_start t) < 32 \<and> unat (tr_end t) < 32"

text \<open>
  A function that only sends requests for a cell changes the request buffers of the cell and its
  transmit context, nothing else of the state it shares with the other functions.
\<close>

definition tx_le :: "chan \<Rightarrow> chan \<Rightarrow> bool" where
  "tx_le ch ch' \<longleftrightarrow> gMacCtx ch' = gMacCtx ch \<and> s_rtRun ch' = s_rtRun ch \<and> gSystemTtiNum ch' = gSystemTtiNum ch \<and>
     sSlotNum ch' = sSlotNum ch \<and> (bufs_wf ch \<longrightarrow> bufs_wf ch')"

definition sending :: "u8 \<Rightarrow> u8 \<Rightarrow> 'e mac \<Rightarrow> 'e mac \<Rightarrow> bool" where
  "sending d c s s' \<longleftrightarrow> (\<forall>d' c'. (d', c') \<noteq> (d, c) \<longrightarrow> chans s' d' c' = chans s d' c') \<and>
     tx_le (chans s d c) (chans s' d c) \<and> mstats s' = mstats s \<and> appCellNum s' = appCellNum s \<and>
     (trace_ok (mtrace s) \<longrightarrow> trace_ok (mtrace s'))"

lemma tx_le_refl [simp]: "tx_le ch ch"
  by (simp add: tx_le_def)

interpretation sending: step_frame "sending d c" for d c
  by unfold_locales (auto simp: sending_def tx_le_def)

section \<open>Elementary updates\<close>

named_theorems sends \<open>functions that only send\<close>

lemma set_chan_sending: "tx_le (chans s d c) ch \<Longrightarrow> sending d c s (set_chan d c ch s)"
  by (simp add: sending_def set_chan_def)

lemma aux_sending [simp]:
  "sending d c s (s\<lparr>lib := e\<rparr>)" "sending d c s (s\<lparr>blocks := b\<rparr>)" "sending d c s (s\<lparr>lib := e, blocks := b\<rparr>)"
  by (simp_all add: sending_def)

lemma blk_write_frames [sends]: "ends (sending d c) s (blk_write a off bs s)"
  by (auto simp: ends_def blk_write_Inr)

lemma put_body_frames [sends]: "ends (sending d c) s (put_body a out s)"
  by (auto simp: ends_def put_body_Inr)

lemma set_tx_sending: "sending d c s (set_tx d c t s)"
  unfolding set_tx_def by (rule set_chan_sending) (simp add: tx_le_def bufs_wf_def)

lemma set_tx_aux_sending:
  "sending d c s (set_tx d c t (s\<lparr>lib := e\<rparr>))" "sending d c s (set_tx d c t (s\<lparr>lib := e, blocks := b\<rparr>))"
  by (rule sending.trans [OF aux_sending(1) set_tx_sending],
      rule sending.trans [OF aux_sending(3) set_tx_sending])

section \<open>Sending\<close>

lemma allocL1CtrlMsgMem_frame [sends]: "endsV (sending d c) s (allocL1CtrlMsgMem env n d c s)"
proof -
  obtain r e where re: "pcxxCtrlAlloc env d c (lib s) = (r, e)" by force
  show ?thesis
    unfolding allocL1CtrlMsgMem_def re prod.case
  proof (rule sending.getV)
    fix t
    show "endsV (sending d c) s (case r of None \<Rightarrow> Inl AssertFail | Some (a, bs) \<Rightarrow>
        rbind (guard (of_nat (length bs) \<ge> n) AssertFail) (\<lambda>_.
          Inr (a, set_tx d c (t\<lparr>curMsgHeader := Some a, curMsgLen := 0, maxRemLen := of_nat (length bs)\<rparr>)
            (s\<lparr>lib := e, blocks := (blocks s)(a := Some bs)\<rparr>))))"
      by (cases r) (auto simp: endsV_def rbind_Inr_iff set_tx_aux_sending)
  qed
qed

lemma setL1CtrlMsgGrpHeader_frame [sends]: "ends (sending d c) s (setL1CtrlMsgGrpHeader env d c s)"
proof -
  obtain r e where re: "pcxxCtrlAlloc env d c (lib s) = (r, e)" by force
  show ?thesis
  proof (cases r)
    case None
    then show ?thesis by (simp add: setL1CtrlMsgGrpHeader_def re ends_def rbind_Inr_iff)
  next
    case (Some p)
    then show ?thesis
      by (cases p) (auto simp: setL1CtrlMsgGrpHeader_def re ends_def rbind_Inr_iff Let_def case_prod_beta
          set_tx_aux_sending)
  qed
qed

lemma appendL1MsgToList_frame [sends]: "ends (sending d c) s (appendL1MsgToList env n sfn slot ty d c s)"
  unfolding appendL1MsgToList_def Let_def case_prod_beta
  by ((rule sending.get)+, rule sending.after [OF set_tx_aux_sending(1)], rule blk_write_frames)

lemma addPhyTraceItem_ok: "addPhyTraceItem a n t = Inr t' \<Longrightarrow> trace_ok t \<Longrightarrow> trace_ok t'"
  by (auto simp: addPhyTraceItem_def trace_ok_def rbind_Inr_iff wr_def and31 split: if_splits)

lemma traceL1CtrlMsg_frame [sends]: "ends (sending d c) s (traceL1CtrlMsg d c s)"
  unfolding traceL1CtrlMsg_def
  by (auto simp: ends_def rbind_Inr_iff sending_def dest: addPhyTraceItem_ok)

lemma finish_msg_frame [sends]: "ends (sending d c) s (finish_msg env a i n sfn slot ty d c s)"
  unfolding finish_msg_def by (rule sending.bind sends)+

lemma msg_group_frame:
  assumes "\<And>s. ends (sending d c) s (body s)"
  shows "ends (sending d c) s (msg_group env d c body s)"
proof -
  obtain b e where be: "pcxxSendStart env d c (lib s) = (b, e)" by force
  have last: "ends (sending d c) t (case pcxxSendEnd env d c (blocks t) (lib t) of
      (False, e2) \<Rightarrow> Inr (t\<lparr>lib := e2\<rparr>) | (True, e2) \<Rightarrow> traceL1CtrlMsg d c (t\<lparr>lib := e2\<rparr>))" for t
  proof -
    obtain b e where be: "pcxxSendEnd env d c (blocks t) (lib t) = (b, e)" by force
    show ?thesis
      unfolding be using sending.step [OF aux_sending(1)] sending.after [OF aux_sending(1) traceL1CtrlMsg_frame]
      by (cases b) simp_all
  qed
  have run: "ends (sending d c) s (rbind (setL1CtrlMsgGrpHeader env d c (s\<lparr>lib := e\<rparr>)) (\<lambda>s1.
          rbind (body s1) (\<lambda>s2.
            case pcxxSendEnd env d c (blocks s2) (lib s2) of
              (False, e2) \<Rightarrow> Inr (s2\<lparr>lib := e2\<rparr>)
            | (True, e2) \<Rightarrow> traceL1CtrlMsg d c (s2\<lparr>lib := e2\<rparr>))))"
    by (rule sending.after [OF aux_sending(1)], rule sending.bind [OF setL1CtrlMsgGrpHeader_frame],
        rule sending.bind [OF assms last])
  show ?thesis
    unfolding msg_group_def be using run sending.step [OF aux_sending(1)] by (cases b) simp_all
qed

lemma sendPhyParamReq_frame [sends]: "ends (sending d c) s (sendPhyParamReq env d c s)"
  unfolding sendPhyParamReq_def by (rule msg_group_frame) (simp add: sending.bind_pair sends)

lemma sendPhyStartReq_frame [sends]: "ends (sending d c) s (sendPhyStartReq env d c s)"
  unfolding sendPhyStartReq_def by (rule msg_group_frame) (simp add: sending.bind_pair sends)

lemma sendPhyStopReq_frame [sends]: "ends (sending d c) s (sendPhyStopReq env d c s)"
  unfolding sendPhyStopReq_def by (rule msg_group_frame) (simp add: sending.bind_pair sends)

lemma sendPhyConfigReq_frame [sends]: "ends (sending d c) s (sendPhyConfigReq env d c s)"
  unfolding sendPhyConfigReq_def
proof (rule msg_group_frame, rule sending.bind_pair [OF allocL1CtrlMsgMem_frame], unfold prod.case, rule sending.get,
    rule sending.bind_pair)
  fix s :: "'a mac" and a ch
  show "endsV (sending d c) s (if runMode (gMacCtx ch) = RUNMODE_FAPI_GENERATOR then
              rbind (deref (gL1ConfigRequest ch)) (\<lambda>src.
              rbind (rd_block src 8 (unat (gL1ConfigReqSize ch))) (\<lambda>bs.
              rbind (blk_write a 8 bs s) (\<lambda>s2. Inr (gL1ConfigReqSize ch - 8, s2))))
            else
              rbind (get_body a s) (\<lambda>out.
              rbind (ConfigReqParams (drop (8 * (2 * unat d + unat c)) (ptr_bytes env)) out) (\<lambda>p.
              rbind (put_body a (pk_out p) s) (\<lambda>s2. Inr (of_nat (pk_off p), s2)))))"
    by (intro sending.branchV sending.getV sending.bindV [OF blk_write_frames]
        sending.bindV [OF put_body_frames] sending.retV)
qed (simp add: finish_msg_frame)

section \<open>Requests keep their size\<close>

lemma wr_block_length: "wr_block xs i bs = Inr ys \<Longrightarrow> length ys = length xs"
  by (auto simp: wr_block_Inr)

lemma put_lengths:
  "put16 m b T f v = Inr m' \<Longrightarrow> length m' = length m" "put32 m b T f w = Inr m' \<Longrightarrow> length m' = length m"
  "put8 m b T f u = Inr m' \<Longrightarrow> length m' = length m"
  by (auto simp: put16_def put32_def put8_def wr_def dest: wr_block_length split: if_splits)

lemma pk_put_lengths:
  "pk_put16 b T f v p = Inr q \<Longrightarrow> length (pk_in q) = length (pk_in p)"
  "pk_put32 b T f w p = Inr q \<Longrightarrow> length (pk_in q) = length (pk_in p)"
  by (auto simp: pk_put16_def pk_put32_def rbind_Inr_iff dest: put_lengths)

lemma pk_patch_in: "pk_patch src dst n p = Inr q \<Longrightarrow> pk_in q = pk_in p"
  by (auto simp: pk_patch_def rbind_Inr_iff)

lemma pk_copy_in: "pk_copy src n p = Inr q \<Longrightarrow> pk_in q = pk_in p"
  by (auto simp: pk_copy_Inr)

definition same_in :: "packer \<Rightarrow> packer \<Rightarrow> bool" where
  "same_in p q \<longleftrightarrow> length (pk_in q) = length (pk_in p)"

interpretation same_in: step_frame same_in
  by unfold_locales (simp_all add: same_in_def)

lemma fwd_same_in: "fwd_res p m \<Longrightarrow> ends same_in p m"
  unfolding ends_def fwd_res_def pk_fwd_def same_in_def by (intro allI impI) simp

lemma pk_put16_same: "ends same_in p (pk_put16 b T f v p)"
  unfolding ends_def same_in_def by (intro allI impI) (erule pk_put_lengths(1))

lemma pk_patch_same: "ends same_in p (pk_patch src dst n p)"
  unfolding ends_def same_in_def by (simp add: pk_patch_in)

lemma pduStep_same:
  assumes "\<And>ty a p. fwd_res p (body ty a p)"
  shows "ends same_in p (pduStep T cfg body p)"
proof -
  have b: "ends same_in p (body ty a (pk_skip n p))" for ty a n
    by (rule same_in.after [of p "pk_skip n p"])
      (simp add: same_in_def pk_skip_def, rule fwd_same_in, rule assms)
  show ?thesis
    unfolding pduStep_def Let_def
    by (rule same_in.get, rule same_in.bind [OF b], rule same_in.bind [OF pk_put16_same pk_patch_same])
qed

lemma pk_repeat_same: "(\<And>p. ends same_in p (op p)) \<Longrightarrow> ends same_in p (pk_repeat op n p)"
  by (induction n arbitrary: p) (auto intro: same_in.ret same_in.bind)

lemma groupStep_same: "ends same_in p (groupStep T p)"
  unfolding groupStep_def Let_def by (intro fwd_same_in fwd_rules)

lemma ttiParams_length:
  assumes "\<And>p. ends same_in p (pdu p)" and "\<And>p. ends same_in p (grp p)"
    and "ttiParams pdu grp sfn slot m out = Inr q"
  shows "length (pk_in q) = length m"
proof -
  obtain m1 m2 p p1 n g where w: "wr_block m 0 (bytes_of_u16 sfn) = Inr m1" "wr_block m1 2 (bytes_of_u16 slot) = Inr m2"
    and p: "pk_copy 0 20 \<lparr>pk_in = m2, pk_out = out, pk_off = 0, pk_pos = 0\<rparr> = Inr p"
    and r: "pk_repeat pdu n p = Inr p1" "pk_repeat grp g p1 = Inr q"
    using assms(3) by (auto simp: ttiParams_def rbind_Inr_iff)
  have "length (pk_in p1) = length (pk_in p)" "length (pk_in q) = length (pk_in p1)"
    using endsD [OF pk_repeat_same [OF assms(1)] r(1)] endsD [OF pk_repeat_same [OF assms(2)] r(2)]
    by (simp_all add: same_in_def)
  then show ?thesis using pk_copy_in [OF p] wr_block_length [OF w(1)] wr_block_length [OF w(2)] by simp
qed

lemma DlttiParams_length: "DlttiParams sfn slot m out = Inr q \<Longrightarrow> length (pk_in q) = length m"
  unfolding DlttiParams_tti
  by (rule ttiParams_length [OF pduStep_same groupStep_same]) (rule fwd_dlPduBody, assumption)

lemma UlttiParams_length: "UlttiParams sfn slot m out = Inr q \<Longrightarrow> length (pk_in q) = length m"
  unfolding UlttiParams_tti
  by (rule ttiParams_length [OF pduStep_same groupStep_same]) (rule fwd_ulPduBody, assumption)

lemma txTlv_length: "txTlv dp mode predef a (p, e) = Inr (q, e') \<Longrightarrow> length (pk_in q) = length (pk_in p)"
  by (auto simp: txTlv_def Let_def rbind_Inr_iff dest!: pk_copy_in dest: pk_put_lengths split: if_splits)

lemma txTlvs_length: "txTlvs dp mode predef n a (p, e) = Inr (q, e') \<Longrightarrow> length (pk_in q) = length (pk_in p)"
proof (induction n arbitrary: a p e)
  case (Suc n)
  then obtain p1 e1 where "txTlv dp mode predef a (p, e) = Inr (p1, e1)"
    "txTlvs dp mode predef n (a + csize L1DataTLV_t) (p1, e1) = Inr (q, e')" by (auto simp: rbind_Inr_iff)
  then show ?case using Suc.IH txTlv_length by metis
qed simp

lemma txPdu_length: "txPdu dp mode predef (p, e) = Inr (q, e') \<Longrightarrow> length (pk_in q) = length (pk_in p)"
  by (auto simp: txPdu_def Let_def rbind_Inr_iff pk_skip_def dest!: pk_patch_in txTlvs_length
      dest: pk_put_lengths)

lemma txPdus_length: "txPdus dp mode predef n (p, e) = Inr (q, e') \<Longrightarrow> length (pk_in q) = length (pk_in p)"
proof (induction n arbitrary: p e)
  case (Suc n)
  then obtain p1 e1 where "txPdu dp mode predef (p, e) = Inr (p1, e1)"
    "txPdus dp mode predef n (p1, e1) = Inr (q, e')" by (auto simp: rbind_Inr_iff)
  then show ?case using Suc.IH txPdu_length by metis
qed simp

lemma TxdataParams_length:
  assumes "TxdataParams dp mode predef sfn slot m out e = Inr (q, e')"
  shows "length (pk_in q) = length m"
proof -
  obtain p1 p2 p3 n where p: "pk_put16 0 L1TXDATAREQ_t ''SFN'' sfn
      \<lparr>pk_in = m, pk_out = out, pk_off = 0, pk_pos = 0\<rparr> = Inr p1"
    "pk_put16 0 L1TXDATAREQ_t ''Slot'' slot p1 = Inr p2"
    "pk_copy 0 (offsetof L1TXDATAREQ_t ''pdus'') p2 = Inr p3" "txPdus dp mode predef n (p3, e) = Inr (q, e')"
    using assms by (auto simp: TxdataParams_def Let_def rbind_Inr_iff)
  show ?thesis
    using pk_put_lengths(1) [OF p(1)] pk_put_lengths(1) [OF p(2)] pk_copy_in [OF p(3)] txPdus_length [OF p(4)]
    by simp
qed

section \<open>The requests of a slot\<close>

lemma set2_apply: "set2 f i j v i' j' = (if i' = i \<and> j' = j then v else f i' j')"
  by (simp add: set2_def)

lemma has_length_set2:
  "f i j = Some m \<Longrightarrow> length m' = length m \<Longrightarrow> has_length (f i' j') n \<Longrightarrow>
    has_length (set2 f i j (Some m') i' j') n"
  by (auto simp: set2_apply has_length_def)

lemma set_request_le:
  assumes "length m' = length m"
  shows "gL1DLTTIReq ch i j = Some m \<Longrightarrow> tx_le ch (ch\<lparr>gL1DLTTIReq := set2 (gL1DLTTIReq ch) i j (Some m')\<rparr>)"
    and "gL1ULTTI ch i j = Some m \<Longrightarrow> tx_le ch (ch\<lparr>gL1ULTTI := set2 (gL1ULTTI ch) i j (Some m')\<rparr>)"
    and "gL1TXDATAREQ ch i j = Some m \<Longrightarrow> tx_le ch (ch\<lparr>gL1TXDATAREQ := set2 (gL1TXDATAREQ ch) i j (Some m')\<rparr>)"
    and "gL1ConfigRequest ch = Some m \<Longrightarrow> tx_le ch (ch\<lparr>gL1ConfigRequest := Some m'\<rparr>)"
  using assms by (simp_all add: tx_le_def bufs_wf_def has_length_set2 has_length_def [of "Some m'"])
    (auto simp: has_length_def)

lemma set_sizes_le:
  "tx_le ch' ch \<Longrightarrow> tx_le ch' (ch\<lparr>gL1DlttiReqSize := z\<rparr>)" "tx_le ch' ch \<Longrightarrow> tx_le ch' (ch\<lparr>gL1UlttiReqSize := z\<rparr>)"
  "tx_le ch' ch \<Longrightarrow> tx_le ch' (ch\<lparr>gL1TxdataReqSize := z\<rparr>)" "tx_le ch' ch \<Longrightarrow> tx_le ch' (ch\<lparr>gL1ConfigReqSize := n\<rparr>)"
  by (simp_all add: tx_le_def bufs_wf_def)

lemma dl_body_sending [sends]: "endsV (sending d c) s (dl_body a sfn slot d c s)"
  unfolding dl_body_def Let_def
proof (rule sending.getV, rule sending.getV, rule sending.getV, rule sending.branchV)
  fix ch j req
  assume ch: "get_chan d c s = Inr ch" and req: "deref (gL1DLTTIReq ch (sfn_idx sfn) j) = Inr req"
  then have C: "chans s d c = ch" "gL1DLTTIReq ch (sfn_idx sfn) j = Some req" by (auto simp: get_chan_Inr)
  have S: "sending d c s (set_chan d c (ch\<lparr>gL1DLTTIReq := set2 (gL1DLTTIReq ch) (sfn_idx sfn) j (Some m)\<rparr>) s)"
    if "length m = length req" for m
    by (rule set_chan_sending) (use that C set_request_le(1) in auto)
  show "endsV (sending d c) s (rbind (put16 req 8 L1DLTTIReq_t ''SFN'' sfn) (\<lambda>r1.
       rbind (put16 r1 8 L1DLTTIReq_t ''Slot'' (ucast slot)) (\<lambda>r2.
       rbind (rd_block r2 8 (unat (gL1DlttiReqSize ch (sfn_idx sfn) j))) (\<lambda>bs.
       rbind (blk_write a 8 bs (set_chan d c (ch\<lparr>gL1DLTTIReq :=
           set2 (gL1DLTTIReq ch) (sfn_idx sfn) j (Some r2)\<rparr>) s)) (\<lambda>s2.
         Inr (gL1DlttiReqSize ch (sfn_idx sfn) j - 8, s2))))))"
    by (rule sending.getV, rule sending.getV, rule sending.getV, rule sending.afterV [OF S, rotated],
        rule sending.bindV [OF blk_write_frames sending.retV], (drule put_lengths(1))+, simp)
  show "endsV (sending d c) s (rbind (get_body a s) (\<lambda>out.
       rbind (DlttiParams (gMacTxRfn ch) (ucast (gMacTxSlot ch)) req out) (\<lambda>p.
       rbind (put_body a (pk_out p) (set_chan d c (ch\<lparr>gL1DLTTIReq :=
           set2 (gL1DLTTIReq ch) (sfn_idx sfn) j (Some (pk_in p))\<rparr>) s)) (\<lambda>s2. Inr (of_nat (pk_off p), s2)))))"
    by (rule sending.getV, rule sending.getV, rule sending.afterV [OF S, rotated],
        rule sending.bindV [OF put_body_frames sending.retV], drule DlttiParams_length, simp)
qed

lemma ul_body_sending [sends]: "endsV (sending d c) s (ul_body a sfn slot d c s)"
  unfolding ul_body_def Let_def
proof (rule sending.getV, rule sending.getV, rule sending.getV, rule sending.branchV)
  fix ch j req
  assume ch: "get_chan d c s = Inr ch" and req: "deref (gL1ULTTI ch (sfn_idx sfn) j) = Inr req"
  then have C: "chans s d c = ch" "gL1ULTTI ch (sfn_idx sfn) j = Some req" by (auto simp: get_chan_Inr)
  have S: "sending d c s (set_chan d c (ch\<lparr>gL1ULTTI := set2 (gL1ULTTI ch) (sfn_idx sfn) j (Some m)\<rparr>) s)"
    if "length m = length req" for m
    by (rule set_chan_sending) (use that C set_request_le(2) in auto)
  show "endsV (sending d c) s (rbind (put16 req 8 L1ULTTI_t ''SFN'' sfn) (\<lambda>r1.
       rbind (put16 r1 8 L1ULTTI_t ''Slot'' (ucast slot)) (\<lambda>r2.
       rbind (rd_block r2 8 (unat (gL1UlttiReqSize ch (sfn_idx sfn) j))) (\<lambda>bs.
       rbind (blk_write a 8 bs (set_chan d c (ch\<lparr>gL1ULTTI :=
           set2 (gL1ULTTI ch) (sfn_idx sfn) j (Some r2)\<rparr>) s)) (\<lambda>s2.
         Inr (gL1UlttiReqSize ch (sfn_idx sfn) j - 8, s2))))))"
    by (rule sending.getV, rule sending.getV, rule sending.getV, rule sending.afterV [OF S, rotated],
        rule sending.bindV [OF blk_write_frames sending.retV], (drule put_lengths(1))+, simp)
  show "endsV (sending d c) s (rbind (get_body a s) (\<lambda>out.
       rbind (UlttiParams (gMacRxRfn ch) (ucast (gMacRxSlot ch)) req out) (\<lambda>p.
       rbind (put_body a (pk_out p) (set_chan d c (ch\<lparr>gL1ULTTI :=
           set2 (gL1ULTTI ch) (sfn_idx sfn) j (Some (pk_in p))\<rparr>) s)) (\<lambda>s2. Inr (of_nat (pk_off p), s2)))))"
    by (rule sending.getV, rule sending.getV, rule sending.afterV [OF S, rotated],
        rule sending.bindV [OF put_body_frames sending.retV], drule UlttiParams_length, simp)
qed

lemma tx_body_sending [sends]: "endsV (sending d c) s (tx_body env a sfn slot d c s)"
  unfolding endsV_def
proof (intro allI impI)
  fix n s'
  assume "tx_body env a sfn slot d c s = Inr (n, s')"
  then obtain j req out p e k where
    req: "gL1TXDATAREQ (chans s d c) (sfn_idx sfn) j = Some req"
    and t: "TxdataParams \<lparr>dp_alloc = pcxxDataAlloc env d c, dp_send = pcxxDataSend env d c\<rparr>
         (pdschMode (gMacCtx (chans s d c))) (predef_row (gL2TxGSfn (chans s d c))) (gMacTxRfn (chans s d c))
         (ucast (gMacTxSlot (chans s d c))) (drop k req) out (lib s) = Inr (p, e)"
    and b: "put_body a (pk_out p) ((set_chan d c (chans s d c\<lparr>gL1TXDATAREQ :=
         set2 (gL1TXDATAREQ (chans s d c)) (sfn_idx sfn) j (Some (take k req @ pk_in p))\<rparr>) s)\<lparr>lib := e\<rparr>) = Inr s'"
    by (auto simp: tx_body_def Let_def rbind_Inr_iff get_chan_Inr)
  have len: "length (take k req @ pk_in p) = length req" using TxdataParams_length [OF t] by simp
  have "sending d c s (set_chan d c (chans s d c\<lparr>gL1TXDATAREQ :=
         set2 (gL1TXDATAREQ (chans s d c)) (sfn_idx sfn) j (Some (take k req @ pk_in p))\<rparr>) s)"
    by (rule set_chan_sending, rule set_request_le(3) [OF len req])
  then show "sending d c s s'"
    by (rule sending.trans [OF sending.trans [OF _ aux_sending(1)] endsD [OF put_body_frames b]])
qed

lemma sendDlTTIReq_frame [sends]: "ends (sending d c) s (sendDlTTIReq env sfn slot d c s)"
  unfolding sendDlTTIReq_def by (simp add: sending.bind_pair sends)

lemma sendUlTTIReq_frame [sends]: "ends (sending d c) s (sendUlTTIReq env sfn slot d c s)"
  unfolding sendUlTTIReq_def by (simp add: sending.bind_pair sends)

lemma sendTxdataReq_frame [sends]: "ends (sending d c) s (sendTxdataReq env sfn slot d c s)"
  unfolding sendTxdataReq_def by (simp add: sending.bind_pair sends)

lemma sendSingle_frames [sends]:
  "ends (sending d c) s (sendSingleDlTTIReq env sfn slot d c s)"
  "ends (sending d c) s (sendSingleUlTTIReq env sfn slot d c s)"
  "ends (sending d c) s (sendSingleTxDataReq env sfn slot d c s)"
  unfolding sendSingleDlTTIReq_def sendSingleUlTTIReq_def sendSingleTxDataReq_def
  by (intro msg_group_frame sends)+

lemma macTtiTx_frame [sends]: "ends (sending d c) s (macTtiTx env sfn slot d c s)"
  unfolding macTtiTx_def Let_def
  by (intro msg_group_frame sending.bind sending.branch sending.ret sends)

end
