(* ===== verification/MacFrame.thy ===== *)
theory MacFrame
  imports MacCore MacSending
begin

text \<open>
  What the functions of the MAC leave alone. Every function that works for one cell is confined to
  the arrays of that cell; it never changes the configuration of the cell or its message rings, and
  keeps the request buffers at their size, the statistics arrays and the trace ring in shape. From
  this follow the isolation of the cells from each other and the invariant of all reachable states.
\<close>

section \<open>The relations\<close>

definition setup_of :: "chan \<Rightarrow> TestMacOperMode_e \<times> bool \<times> u32 \<times> TestMacPdschMode_e \<times> bool" where
  "setup_of ch = (operMode (gMacCtx ch), phyStub (gMacCtx ch), runttiPerTc (gMacCtx ch),
     pdschMode (gMacCtx ch), sfnMode (gMacCtx ch))"

definition chan_le :: "chan \<Rightarrow> chan \<Rightarrow> bool" where
  "chan_le ch ch' \<longleftrightarrow> setup_of ch' = setup_of ch \<and> msgqH (gMacCtx ch') = msgqH (gMacCtx ch) \<and>
     msgqApp (gMacCtx ch') = msgqApp (gMacCtx ch) \<and> s_rtRun ch' = s_rtRun ch \<and>
     (bufs_wf ch \<longrightarrow> bufs_wf ch')"

text \<open>Of the shared statistics, a cell changes its own entries and the table of the UEs.\<close>

definition stats_le :: "u8 \<Rightarrow> u8 \<Rightarrow> mac_stats \<Rightarrow> mac_stats \<Rightarrow> bool" where
  "stats_le d c st st' \<longleftrightarrow> (stats_wf st \<longrightarrow> stats_wf st') \<and>
     (\<forall>i j. (i, j) \<noteq> (unat d, unat (c AND 1)) \<longrightarrow> rd2 (sMacCellCtx st') i j = rd2 (sMacCellCtx st) i j) \<and>
     (\<forall>i j. (i, j) \<noteq> (unat d, unat c) \<longrightarrow> rd2 (gcurrentScs st') i j = rd2 (gcurrentScs st) i j)"

definition confined :: "u8 \<Rightarrow> u8 \<Rightarrow> 'e mac \<Rightarrow> 'e mac \<Rightarrow> bool" where
  "confined d c s s' \<longleftrightarrow> (\<forall>d' c'. (d', c') \<noteq> (d, c) \<longrightarrow> chans s' d' c' = chans s d' c') \<and>
     chan_le (chans s d c) (chans s' d c) \<and> stats_le d c (mstats s) (mstats s') \<and>
     (trace_ok (mtrace s) \<longrightarrow> trace_ok (mtrace s'))"

definition orderly :: "'e mac \<Rightarrow> 'e mac \<Rightarrow> bool" where
  "orderly s s' \<longleftrightarrow> (\<forall>d c. chan_le (chans s d c) (chans s' d c)) \<and>
     (stats_wf (mstats s) \<longrightarrow> stats_wf (mstats s')) \<and> (trace_ok (mtrace s) \<longrightarrow> trace_ok (mtrace s'))"

lemma chan_le_refl [simp]: "chan_le ch ch"
  by (simp add: chan_le_def)

lemma chan_le_trans: "chan_le a b \<Longrightarrow> chan_le b c \<Longrightarrow> chan_le a c"
  by (simp add: chan_le_def)

lemma tx_le_chan_le: "tx_le ch ch' \<Longrightarrow> chan_le ch ch'"
  by (simp add: tx_le_def chan_le_def setup_of_def)

interpretation stats: step_frame "stats_le d c" for d c
  by unfold_locales (simp_all add: stats_le_def)

interpretation confined: step_frame "confined d c" for d c
  by unfold_locales (auto simp: confined_def stats.refl intro: chan_le_trans stats.trans)

interpretation orderly: step_frame orderly
proof (unfold_locales, unfold orderly_def)
  fix s t u :: "'a mac"
  assume "(\<forall>d c. chan_le (chans s d c) (chans t d c)) \<and> (stats_wf (mstats s) \<longrightarrow> stats_wf (mstats t)) \<and>
      (trace_ok (mtrace s) \<longrightarrow> trace_ok (mtrace t))"
    and "(\<forall>d c. chan_le (chans t d c) (chans u d c)) \<and> (stats_wf (mstats t) \<longrightarrow> stats_wf (mstats u)) \<and>
      (trace_ok (mtrace t) \<longrightarrow> trace_ok (mtrace u))"
  then show "(\<forall>d c. chan_le (chans s d c) (chans u d c)) \<and> (stats_wf (mstats s) \<longrightarrow> stats_wf (mstats u)) \<and>
      (trace_ok (mtrace s) \<longrightarrow> trace_ok (mtrace u))" by (blast intro: chan_le_trans)
qed simp

lemma confined_orderly: "confined d c s s' \<Longrightarrow> orderly s s'"
  unfolding confined_def orderly_def
proof (intro conjI allI)
  fix d' c'
  assume "(\<forall>d' c'. (d', c') \<noteq> (d, c) \<longrightarrow> chans s' d' c' = chans s d' c') \<and> chan_le (chans s d c) (chans s' d c) \<and>
    stats_le d c (mstats s) (mstats s') \<and> (trace_ok (mtrace s) \<longrightarrow> trace_ok (mtrace s'))"
  then show "chan_le (chans s d' c') (chans s' d' c')" by (cases "(d', c') = (d, c)") auto
qed (auto simp: stats_le_def)

lemma ends_orderly: "ends (confined d c) s m \<Longrightarrow> ends orderly s m"
  by (auto simp: ends_def intro: confined_orderly)

lemma sending_confined: "sending d c s s' \<Longrightarrow> confined d c s s'"
  by (auto simp: sending_def confined_def stats.refl intro: tx_le_chan_le)

lemma ends_confined: "ends (sending d c) s m \<Longrightarrow> ends (confined d c) s m"
  by (auto simp: ends_def intro: sending_confined)

section \<open>Elementary updates\<close>

named_theorems frames \<open>functions confined to one cell\<close>

lemma set_chan_confined: "chan_le (chans s d c) ch \<Longrightarrow> confined d c s (set_chan d c ch s)"
  by (simp add: confined_def set_chan_def stats.refl)

lemma aux_confined [simp]:
  "confined d c s (s\<lparr>lib := e\<rparr>)" "confined d c s (s\<lparr>blocks := b\<rparr>)" "confined d c s (s\<lparr>lib := e, blocks := b\<rparr>)"
  "confined d c s (s\<lparr>sTcIdInRunning := n\<rparr>)" "confined d c s (s\<lparr>appCellNum := m, gCellNum := k\<rparr>)"
  by (simp_all add: confined_def stats.refl)

lemma upd_chan_frame: "(\<And>ch. chan_le ch (f ch)) \<Longrightarrow> ends (confined d c) s (upd_chan d c f s)"
  by (auto simp: ends_def upd_chan_def rbind_Inr_iff get_chan_Inr intro: set_chan_confined)

lemma setPhyState_frame [frames]: "ends (confined d c) s (setPhyState d c st s)"
  unfolding setPhyState_def upd_ctx_def
  by (rule upd_chan_frame) (simp add: chan_le_def setup_of_def bufs_wf_def)

lemma stats_frame:
  assumes "stats_le d c (mstats s) st"
  shows "confined d c s (s\<lparr>mstats := st\<rparr>)"
  using assms by (simp add: confined_def)

text \<open>What only sends is confined.\<close>

lemmas confined_sends [frames] =
  sendPhyParamReq_frame [THEN ends_confined] sendPhyConfigReq_frame [THEN ends_confined]
  sendPhyStartReq_frame [THEN ends_confined] sendPhyStopReq_frame [THEN ends_confined]
  sendSingle_frames [THEN ends_confined] macTtiTx_frame [THEN ends_confined]

lemmas request_le = set_request_le [THEN tx_le_chan_le]

lemma sizes_le:
  "chan_le ch' ch \<Longrightarrow> chan_le ch' (ch\<lparr>gL1DlttiReqSize := z\<rparr>)" "chan_le ch' ch \<Longrightarrow> chan_le ch' (ch\<lparr>gL1UlttiReqSize := z\<rparr>)"
  "chan_le ch' ch \<Longrightarrow> chan_le ch' (ch\<lparr>gL1TxdataReqSize := z\<rparr>)" "chan_le ch' ch \<Longrightarrow> chan_le ch' (ch\<lparr>gL1ConfigReqSize := n\<rparr>)"
  by (simp_all add: chan_le_def setup_of_def bufs_wf_def)

section \<open>Statistics\<close>

lemma rd2_wr2: "wr2 xss i j v = Inr yss \<Longrightarrow> (i', j') \<noteq> (i, j) \<Longrightarrow> rd2 yss i' j' = rd2 xss i' j'"
  by (cases "i' = i") (auto simp: wr2_def rd2_def rd_def wr_def rbind_Inr_iff nth_list_update split: if_splits)

lemma shape2_wr2: "wr2 xss i j v = Inr yss \<Longrightarrow> shape2 xss \<Longrightarrow> shape2 yss"
  by (auto simp: wr2_def rd_def wr_def rbind_Inr_iff shape2_def split: if_splits
      dest!: subsetD [OF set_update_subset_insert])

lemma unat_ucast_u8_u16 [simp]: "unat (ucast (c :: u8) :: u16) = unat c"
proof -
  have "unat c < 2 ^ 8" using unsigned_less [of c] by simp
  then show ?thesis by (simp add: unsigned_ucast_eq take_bit_nat_eq_self)
qed

lemma unat_ucast_and_1: "unat ((ucast (c :: u8) :: u16) AND 1) = unat (c AND 1)"
proof -
  have "(ucast c :: u16) AND 1 = ucast (c AND 1)" by (rule bit_word_eqI) (auto simp: bit_simps)
  then show ?thesis by simp
qed

named_theorems stats_frames \<open>functions on the statistics of one cell\<close>

lemma macSetCellById_frame [stats_frames]:
  "ends (stats_le d c) s (macSetCellById s (ucast d) (ucast c) x)"
  unfolding ends_def
proof (intro allI impI)
  fix s' assume "macSetCellById s (ucast d) (ucast c) x = Inr s'"
  then obtain xs where xs: "wr2 (sMacCellCtx s) (unat d) (unat (c AND 1)) x = Inr xs" "s' = s\<lparr>sMacCellCtx := xs\<rparr>"
    by (auto simp: macSetCellById_def rbind_Inr_iff unat_ucast_and_1)
  show "stats_le d c s s'"
    using rd2_wr2 [OF xs(1)] shape2_wr2 [OF xs(1)] unfolding xs(2) stats_le_def stats_wf_def by simp
qed

lemma macSetUeByCrnti_frame [stats_frames]: "ends (stats_le d c) s (macSetUeByCrnti s rnti u)"
  by (auto simp: ends_def macSetUeByCrnti_def rbind_Inr_iff wr_def stats_le_def stats_wf_def split: if_splits)

lemma macCellSetScs_frame [stats_frames]: "ends (stats_le d c) s (macCellSetScs s i (ucast d) (ucast c))"
  unfolding ends_def
proof (intro allI impI)
  fix s' assume "macCellSetScs s i (ucast d) (ucast c) = Inr s'"
  then obtain xs where xs: "wr2 (gcurrentScs s) (unat d) (unat c) (ucast i) = Inr xs"
    and s': "gcurrentScs s' = xs" "sMacCellCtx s' = sMacCellCtx s" "sMacUeCtxt s' = sMacUeCtxt s"
    by (auto simp: macCellSetScs_def rbind_Inr_iff Let_def split: if_splits)
  show "stats_le d c s s'"
    using rd2_wr2 [OF xs] shape2_wr2 [OF xs] unfolding stats_le_def stats_wf_def s' by simp
qed

lemma macDumpCellUlInfo_frame [stats_frames]: "endsV (stats_le d c) s (macDumpCellUlInfo s (ucast d) (ucast c))"
  unfolding macDumpCellUlInfo_def
  by (rule stats.getV, rule stats.bindV [OF macSetCellById_frame stats.retV])

lemma macCrcInHdlr_frame [stats_frames]: "ends (stats_le d c) s (macCrcInHdlr m off (ucast d) (ucast c) s)"
  unfolding macCrcInHdlr_def by (intro stats.get stats_frames)

lemma crcLoop_frame [stats_frames]: "ends (stats_le d c) s (crcLoop m n off (ucast d) (ucast c) s)"
  by (induction n arbitrary: off s) (auto intro: stats.ret stats.bind stats_frames)

lemma crcIndication_frame [stats_frames]:
  "ends (stats_le d c) s (crcIndicationProcDecHdlr m (ucast d) (ucast c) s)"
  unfolding crcIndicationProcDecHdlr_def by (intro stats.get stats_frames)

lemma upd_rach_frame [stats_frames]: "ends (stats_le d c) s (upd_rach f (ucast d) (ucast c) s)"
  unfolding upd_rach_def by (intro stats.get stats_frames)

lemma macRachPduInHdlr_frame [stats_frames]: "ends (stats_le d c) s (macRachPduInHdlr m off (ucast d) (ucast c) s)"
  unfolding macRachPduInHdlr_def by (intro stats.get stats_frames)

lemma macPreambleInHdlr_frame [stats_frames]: "ends (stats_le d c) s (macPreambleInHdlr m off (ucast d) (ucast c) s)"
  unfolding macPreambleInHdlr_def by (intro stats.get stats_frames)

lemma preambleLoop_frame [stats_frames]: "endsV (stats_le d c) s (preambleLoop m n off (ucast d) (ucast c) s)"
  by (induction n arbitrary: off s) (auto intro: stats.retV stats.bindV stats_frames)

lemma rachLoop_frame [stats_frames]: "ends (stats_le d c) s (rachLoop m n off (ucast d) (ucast c) s)"
proof (induction n arbitrary: off s)
  case (Suc n)
  show ?case unfolding rachLoop.simps
    by (rule stats.bind [OF macRachPduInHdlr_frame], rule stats.get, rule stats.bind_pair [OF preambleLoop_frame],
        unfold prod.case, rule Suc.IH)
qed (simp add: stats.ret)

lemma rachIndication_frame [stats_frames]:
  "ends (stats_le d c) s (rachIndicationProcDecHdlr m (ucast d) (ucast c) s)"
  unfolding rachIndicationProcDecHdlr_def by (intro stats.get stats_frames)

lemma csi_frames:
  "endsV (stats_le d c) s (macCSIPart1InfoUciInPuschPduFmt234PduHdlr rnti h crc tot s)"
  "endsV (stats_le d c) s (macCSIPart1InfoUciInPucchPduFmt234PduHdlr rnti h crc tot (ucast d) (ucast c) s)"
  unfolding macCSIPart1InfoUciInPuschPduFmt234PduHdlr_def macCSIPart1InfoUciInPucchPduFmt234PduHdlr_def Let_def
  by (rule stats.getV, rule stats.getV, rule stats.bindV [OF macSetUeByCrnti_frame], rule stats.retV)
    (rule stats.getV, rule stats.getV, rule stats.bindV [OF macSetUeByCrnti_frame], rule stats.bindV,
      rule stats.branch, rule stats.get, rule macSetCellById_frame, rule stats.ret, rule stats.retV)

lemma macUciInfo_frame:
  "ends (stats_le d c) s (macUciInfoInPucchPduFmt234PduHdlr h crc (ucast d) (ucast c) s)"
  unfolding macUciInfoInPucchPduFmt234PduHdlr_def by (intro stats.get stats_frames)

text \<open>The part of a UCI that changes the statistics.\<close>

lemma uciPusch_frame: "uciPusch m base l s = Inr (off, l', s') \<Longrightarrow> stats_le d c s s'"
  by (auto simp: uciPusch_def Let_def rbind_Inr_iff stats.refl dest: endsVD [OF csi_frames(1)] split: if_splits)

lemma uciPucch234_frame:
  "uciPucch234 m base (ucast d) (ucast c) l s = Inr (off, l', s') \<Longrightarrow> stats_le d c s s'"
  unfolding uciPucch234_def Let_def
  by (auto simp: rbind_Inr_iff stats.refl split: if_splits
      dest!: endsVD [OF csi_frames(2)] endsD [OF macUciInfo_frame] intro: stats.trans)

lemma uciLoop_frame [stats_frames]: "ends (stats_le d c) s (uciLoop m n off (ucast d) (ucast c) l s)"
proof (induction n arbitrary: off l s)
  case (Suc n)
  show ?case
    unfolding uciLoop.simps Let_def
  proof (rule stats.get)
    fix ty
    let ?base = "off + offsetof L1UciInfo_t ''Pdu''"
    let ?part = "if ty = 0 then uciPusch m ?base l s
            else if ty = 1 then rbind (uciPucch01 m ?base) (\<lambda>off. Inr (off, l, s))
            else if ty = 2 then uciPucch234 m ?base (ucast d) (ucast c) l s
            else Inr (?base, l, s)"
    have "stats_le d c s s1" if "?part = Inr (o1, l1, s1)" for o1 l1 s1
      using that by (auto simp: rbind_Inr_iff stats.refl split: if_splits dest: uciPusch_frame uciPucch234_frame)
    then show "ends (stats_le d c) s (rbind ?part (\<lambda>(o1, l', s').
       rbind (fld16 m off L1UciInfo_t ''PDUSize'') (\<lambda>sz.
       rbind (guard (o1 - off \<le> unat sz) AssertFail) (\<lambda>_.
         uciLoop m n (off + unat sz) (ucast d) (ucast c) l' s'))))"
    proof (rule stats.bind_triple, unfold prod.case)
      show "ends (stats_le d c) t (rbind (fld16 m off L1UciInfo_t ''PDUSize'') (\<lambda>sz.
         rbind (guard (v - off \<le> unat sz) AssertFail) (\<lambda>_.
           uciLoop m n (off + unat sz) (ucast d) (ucast c) w t)))" for v w t
        by (rule stats.get, rule stats.get, rule Suc.IH)
    qed
  qed
qed (simp add: stats.ret)

lemma uciIndication_frame [stats_frames]:
  "ends (stats_le d c) s (uciIndicationProcDecHdlr m (ucast d) (ucast c) s)"
  unfolding uciIndicationProcDecHdlr_def by (intro stats.get stats_frames)

lemma getCarrierConfig_frame: "endsV (stats_le d c) s (getCarrierConfig cfg (ucast d) (ucast c) s)"
  unfolding endsV_def
  by (auto simp: getCarrierConfig_def rbind_Inr_iff stats.refl split: option.splits dest: endsD [OF macCellSetScs_frame])

section \<open>Test cases\<close>

lemma overlay_same: "wr_block b 0 content = Inr b' \<Longrightarrow> length b' = length b"
  by (auto simp: wr_block_Inr)

lemma default_lengths:
  "DlttiDefaultParams m = Inr m' \<Longrightarrow> length m' = length m" "TxdataDefaultParams m = Inr m' \<Longrightarrow> length m' = length m"
  "UlttiDefaultParams m = Inr m' \<Longrightarrow> length m' = length m"
  unfolding DlttiDefaultParams_def TxdataDefaultParams_def UlttiDefaultParams_def
  by (auto simp: rbind_Inr_iff dest!: put_lengths)

lemma clear_frames [frames]:
  "ends (confined d c) s (clearDltti d c i j s)" "ends (confined d c) s (clearTxdata d c i j s)"
  "ends (confined d c) s (clearUltti d c i j s)"
  unfolding clearDltti_def clearTxdata_def clearUltti_def
  by (rule confined.get confined.step set_chan_confined sizes_le request_le default_lengths
      | assumption | simp add: get_chan_Inr)+

lemma read_file_length: "read_file content buf = Inr b \<Longrightarrow> \<exists>m m'. buf = Some m \<and> b = Some m' \<and> length m' = length m"
  by (auto simp: read_file_def rbind_Inr_iff dest!: overlay_same)

lemma loadConfig_frame [frames]: "ends (confined d c) s (loadConfig fs tc d c s)"
proof (cases "fs (ConfigFile tc c)")
  case (Some content)
  show ?thesis
    unfolding loadConfig_def Some option.case
  proof (rule confined.get, rule confined.get, rule confined.step, rule set_chan_confined)
    fix ch b
    assume "get_chan d c s = Inr ch" and "read_file content (gL1ConfigRequest ch) = Inr b"
    then show "chan_le (chans s d c) (ch\<lparr>gL1ConfigRequest := b, gL1ConfigReqSize := of_nat (length content)\<rparr>)"
      by (auto simp: get_chan_Inr dest!: read_file_length intro: sizes_le request_le)
  qed
qed (simp add: loadConfig_def confined.ret)

text \<open>One file of a slot.\<close>

lemma loadTti_frame:
  assumes "\<And>ch b. get_chan d c s = Inr ch \<Longrightarrow> read_file content (buf ch) = Inr b \<Longrightarrow> chan_le ch (upd ch b)"
  shows "ends (confined d c) s (rbind (get_chan d c s) (\<lambda>ch. rbind (guard (j < 20) OutOfRange) (\<lambda>_.
         rbind (read_file content (buf ch)) (\<lambda>b. Inr (set_chan d c (upd ch b) s)))))"
proof (rule confined.get, rule confined.get, rule confined.get, rule confined.step, rule set_chan_confined)
  fix ch b assume "get_chan d c s = Inr ch" "read_file content (buf ch) = Inr b"
  then show "chan_le (chans s d c) (upd ch b)" using assms by (auto simp: get_chan_Inr)
qed

lemma loadSlot_frame [frames]: "ends (confined d c) s (loadSlot fs tc d c p s)"
proof (cases p)
  case (Pair i j)
  show ?thesis
    unfolding loadSlot_def Pair prod.case
    by (rule confined.bind [OF _ confined.bind]; split option.split;
        intro conjI impI allI confined.ret loadTti_frame sizes_le request_le)
      (auto dest!: read_file_length intro: sizes_le request_le)
qed

lemma clearAll_frame [frames]: "ends (confined d c) s (clearAll d c s)"
  unfolding clearAll_def case_prod_beta by (rule confined.loop, (rule confined.bind frames)+)

lemma macTcLoad_frame [frames]: "ends (confined d c) s (macTcLoad fs tc c d s)"
  unfolding macTcLoad_def
proof (rule confined.bind [OF clearAll_frame], rule confined.bind [OF loadConfig_frame], rule confined.get, rule confined.get)
  fix t :: "'a mac" and ch cfg
  show "ends (confined d c) t (rbind (getCarrierConfig (drop 8 cfg) (ucast d) (ucast c) (mstats t)) (\<lambda>(scs, st).
     rbind (macGetSlotNumPerSfn st (ucast d) (ucast c)) (\<lambda>n.
       foreach (loadSlot fs tc d c) (slots (unat n)) (t\<lparr>mstats := st\<rparr>))))"
  proof (rule confined.get, unfold case_prod_beta, rule confined.get, rule confined.after)
    fix p assume "getCarrierConfig (drop 8 cfg) (ucast d) (ucast c) (mstats t) = Inr p"
    then show "confined d c t (t\<lparr>mstats := snd p\<rparr>)"
      by (cases p) (auto intro: stats_frame dest: endsVD [OF getCarrierConfig_frame])
  qed (rule confined.loop, rule loadSlot_frame)
qed

section \<open>The PHY state machine\<close>

lemma upd_frames:
  "(\<And>ch. chan_le ch (f ch)) \<Longrightarrow> ends (confined d c) s (upd_chan d c f s)"
  "(\<And>ch. chan_le ch (ch\<lparr>gMacCtx := g (gMacCtx ch)\<rparr>)) \<Longrightarrow> ends (confined d c) s (upd_ctx d c g s)"
  unfolding upd_ctx_def by (rule upd_chan_frame, assumption)+

lemma own_fields_le:
  "chan_le ch (ch\<lparr>gSystemTtiNum := n\<rparr>)" "chan_le ch (ch\<lparr>sSlotNum := n\<rparr>)" "chan_le ch (ch\<lparr>sMacLocalGSfn := p\<rparr>)"
  "chan_le ch (ch\<lparr>gMacCtx := (gMacCtx ch)\<lparr>schState := st\<rparr>, gSystemTtiNum := n\<rparr>)"
  "chan_le ch (ch\<lparr>gMacCtx := (gMacCtx ch)\<lparr>schState := st\<rparr>, gSystemTtiNum := n, sMacLocalGSfn := p\<rparr>)"
  "chan_le ch (ch\<lparr>gMacCtx := (gMacCtx ch)\<lparr>schState := st\<rparr>\<rparr>)"
  "chan_le ch (ch\<lparr>gMacCtx := (gMacCtx ch)\<lparr>runMode := rm\<rparr>\<rparr>)"
  "chan_le ch (ch\<lparr>gL2TxGSfn := p\<rparr>)" "chan_le ch (ch\<lparr>gL2RxGSfn := p\<rparr>)"
  by (simp_all add: chan_le_def setup_of_def bufs_wf_def)

lemma macRevErrorIndication_frame [frames]: "ends (confined d c) s (macRevErrorIndication i e d c s)"
  unfolding macRevErrorIndication_def by (intro confined.branch confined.ret frames)

lemma macRevCfgResonse_frame [frames]: "ends (confined d c) s (macRevCfgResonse env e d c s)"
  unfolding macRevCfgResonse_def
  by (rule confined.ret frames confined.branch confined.bind [OF setPhyState_frame]
      confined.bind [OF confined_sends(3)] confined.get)+

lemma stub_frames [frames]:
  "ends (confined d c) s (stubConfigured env d c s)" "ends (confined d c) s (stubStopped d c s)"
  unfolding stubConfigured_def stubStopped_def by (intro confined.get confined.branch confined.ret frames)+

lemma macRevStopIndication_frame [frames]: "ends (confined d c) s (macRevStopIndication env d c s)"
  unfolding macRevStopIndication_def
  by (rule confined.ret frames confined.branch confined.bind [OF setPhyState_frame]
      confined.bind [OF confined_sends(2)] confined.get)+

lemma macSchedule_frame [frames]: "ends (confined d c) s (macSchedule env sfn slot d c s)"
  unfolding macSchedule_def by (intro confined.get confined.branch confined.ret frames)

lemma slotFirst_frame [frames]: "ends (confined d c) s (slotFirst d c s)"
  unfolding slotFirst_def
  by (rule confined.ret frames confined.branch confined.bind [OF setPhyState_frame] confined.get upd_frames own_fields_le)+

lemma slotPositions_le: "slotPositions junk ind scs ch = Inr ch' \<Longrightarrow> chan_le ch ch'"
  by (auto simp: slotPositions_def rbind_Inr_iff chan_le_def setup_of_def bufs_wf_def)

lemma macTxStartIndHandle_frame [frames]: "ends (confined d c) s (macTxStartIndHandle env ind d c s)"
  unfolding macTxStartIndHandle_def Let_def
proof (rule confined.bind [OF slotFirst_frame], rule confined.get, rule confined.branch, rule confined.ret,
    rule confined.bind, rule upd_frames(1), rule own_fields_le, rule confined.get, rule confined.branch)
  fix s :: "'a mac" and ch
  show "ends (confined d c) s (rbind (sendPhyStopReq env d c s) (upd_chan d c (\<lambda>ch. ch\<lparr>
           gMacCtx := (gMacCtx ch)\<lparr>schState := SCH_STOP\<rparr>, gSystemTtiNum := gSystemTtiNum ch + 1\<rparr>)))"
    by (rule confined.bind [OF confined_sends(4) upd_frames(1)], rule own_fields_le)
  show "ends (confined d c) s (rbind (upd_chan d c (\<lambda>ch. ch\<lparr>gSystemTtiNum := gSystemTtiNum ch + 1\<rparr>) s) (\<lambda>s.
         rbind (rd2 (gcurrentScs (mstats s)) (unat d) (unat c)) (\<lambda>scs.
         rbind (get_chan d c s) (\<lambda>ch.
         rbind (slotPositions (garbage env) ind scs ch) (\<lambda>ch'.
           macSchedule env (gMacTxRfn ch') (ucast (gMacTxSlot ch')) d c (set_chan d c ch' s))))))"
  proof (rule confined.bind, rule upd_frames(1), rule own_fields_le, rule confined.get, rule confined.get, rule confined.get,
      rule confined.after [OF set_chan_confined macSchedule_frame])
    fix t :: "'a mac" and scs ch ch'
    assume "get_chan d c t = Inr ch" "slotPositions (garbage env) ind scs ch = Inr ch'"
    then show "chan_le (chans t d c) ch'" using slotPositions_le by (simp add: get_chan_Inr)
  qed
qed

section \<open>Messages of the PHY\<close>

lemma on_stats_frame: "(\<And>st. ends (stats_le d c) st (f st)) \<Longrightarrow> ends (confined d c) s (on_stats f s)"
  unfolding on_stats_def by (rule confined.get, rule confined.step, rule stats_frame) (rule endsD)

lemma hdlr_frames [frames]:
  "ends (confined d c) s (slotIndicationProcDecHdlr env m d c s)"
  "ends (confined d c) s (configResponseProcDecHdlr env m d c s)"
  "ends (confined d c) s (errorIndicationProcDecHdlr m d c s)"
  unfolding slotIndicationProcDecHdlr_def configResponseProcDecHdlr_def errorIndicationProcDecHdlr_def
  by (intro confined.get frames)+

lemma rxDataCase_frame [frames]: "ends (confined d c) s (rxDataCase env m d c s)"
  unfolding rxDataCase_def by (rule confined.get, rule confined.step, rule aux_confined)

lemma slotCase_frame [frames]: "ends (confined d c) s (slotCase env m d c s)"
  unfolding slotCase_def
proof (rule confined.bind [OF hdlr_frames(1)], rule confined.bind, rule upd_frames(1), rule own_fields_le,
    rule confined.get, rule confined.bind [OF _ setPhyState_frame], rule confined.branch [OF _ confined.ret])
  fix s :: "'a mac"
  show "ends (confined d c) s (rbind (macDumpCellUlInfo (mstats s) (ucast d) (ucast c)) (\<lambda>(report, st).
      upd_chan d c (\<lambda>ch. ch\<lparr>sSlotNum := 0\<rparr>) (s\<lparr>mstats := st\<rparr>)))"
  proof (rule confined.get, unfold case_prod_beta, rule confined.after [OF stats_frame])
    fix p assume "macDumpCellUlInfo (mstats s) (ucast d) (ucast c) = Inr p"
    then show "stats_le d c (mstats s) (snd p)"
      by (cases p) (auto dest: endsVD [OF macDumpCellUlInfo_frame])
  qed (rule upd_frames(1), rule own_fields_le)
qed

lemma fapiMsgDec_frame: "endsV (confined d c) s (fapiMsgDec env buf pos d c s)"
  unfolding fapiMsgDec_def Let_def
  by (rule confined.getV, rule confined.getV)
    (rule confined.branchV | rule confined.retV confined.bindV [OF _ confined.retV]
      | rule frames on_stats_frame | rule stats_frames confined.get confined.ret)+

lemma revLoop_frame: "endsV (confined d c) s (revLoop env buf n pos off d c s)"
proof (induction n arbitrary: pos off s)
  case (Suc n)
  show ?case
    unfolding revLoop.simps
    by (rule confined.bind_pairV [OF fapiMsgDec_frame], unfold prod.case, rule confined.branchV [OF confined.retV Suc.IH])
qed (simp add: confined.retV)

lemma trace_confined: "addPhyTraceItem a n (mtrace s) = Inr t \<Longrightarrow> confined d c s (s\<lparr>mtrace := t\<rparr>)"
  by (auto simp: confined_def stats.refl dest: addPhyTraceItem_ok)

lemma macRevL1Ctrl_frame: "endsV (confined d c) s (macRevL1Ctrl env a buf n d c s)"
  unfolding macRevL1Ctrl_def
proof (rule confined.getV, rule confined.getV, rule confined.branchV, rule confined.retV, rule confined.branchV,
    rule confined.retV, rule confined.bind_pairV [OF revLoop_frame], unfold prod.case)
  fix v and t :: "'a mac"
  show "endsV (confined d c) t (case v of None \<Rightarrow> Inr (n, t)
       | Some off \<Rightarrow> rbind (addPhyTraceItem a n (mtrace t)) (\<lambda>tr. Inr (if n \<noteq> off then n else off, t\<lparr>mtrace := tr\<rparr>)))"
    by (cases v) (auto simp: confined.retV intro!: confined.getV confined.stepV trace_confined)
qed

section \<open>Messages of the application\<close>

lemma case_frames [frames]:
  "ends (confined d c) s (caseConfig env d c s)" "ends (confined d c) s (caseDl env p0 p1 d c s)"
  "ends (confined d c) s (caseUl env p0 p1 d c s)" "ends (confined d c) s (caseTx env p0 p1 d c s)"
  unfolding caseConfig_def caseDl_def caseUl_def caseTx_def
  by (rule confined.bind frames upd_frames(1) own_fields_le)+

lemma restartCell_frame:
  assumes "\<And>s. ends (confined d c) s (prepare s)"
  shows "ends (confined d c) s (restartCell env prepare d c s)"
  unfolding restartCell_def
  by (rule confined.get, rule confined.bind [OF _ upd_frames(2)])
    (rule confined.branch own_fields_le confined.bind assms frames)+

lemma caseTest_frame [frames]: "ends (confined d c) s (caseTest env fs p0 p1 d c s)"
  unfolding caseTest_def Let_def
  by (rule confined.after [OF aux_confined(5)], rule confined.bind [OF macTcLoad_frame], rule confined.bind,
      rule upd_frames(2), rule own_fields_le, rule restartCell_frame, rule confined.ret)

lemma all_cells_frames:
  "ends orderly s (caseStop env d s)" "ends orderly s (caseStart env p0 d s)"
proof -
  have "ends orderly s (rbind (sendPhyStopReq env d c s) (upd_ctx d c (\<lambda>x. x\<lparr>schState := SCH_STOP\<rparr>)))" for c s
    by (rule ends_orderly, rule confined.bind [OF confined_sends(4) upd_frames(2)], rule own_fields_le)
  then show "ends orderly s (caseStop env d s)" unfolding caseStop_def by (rule orderly.loop)
  have "ends orderly s (restartCell env (sendPhyParamReq env d c) d c s)" for c s
    by (rule ends_orderly, rule restartCell_frame, rule frames)
  then show "ends orderly s (caseStart env p0 d s)" unfolding caseStart_def
    by (rule orderly.after [OF confined_orderly [OF aux_confined(4)] orderly.loop])
qed

lemma appMgrMsgqHRecv_frame: "endsV orderly s (appMgrMsgqHRecv env fs s ws n)"
  unfolding appMgrMsgqHRecv_def Let_def
  by (rule orderly.getV, rule orderly.getV)
    (rule orderly.branchV | rule orderly.retV orderly.bindV [OF _ orderly.retV] | rule all_cells_frames
      | rule ends_orderly frames)+

end
