(* ===== verification/MacPhy.thy ===== *)
theory MacPhy
  imports MacFrame
begin

text \<open>
  The PHY state machine of a cell as the MAC keeps it (\<open>mac/src/mac.c\<close>, \<open>mac/src/mac_rx.c\<close>): the state
  after each message of the PHY, the end of a test case after its number of slots, the messages of a
  group one after the other, and the isolation of the cells.
\<close>

section \<open>The context of a cell\<close>

abbreviation ctx :: "'e mac \<Rightarrow> u8 \<Rightarrow> u8 \<Rightarrow> MacContent_s" where
  "ctx s d c \<equiv> gMacCtx (chans s d c)"

named_theorems ctx_rules \<open>what functions do to the context of their cell\<close>

lemma upd_chan_Inr: "upd_chan d c f s = Inr s' \<longleftrightarrow> d < 4 \<and> c < 2 \<and> s' = set_chan d c (f (chans s d c)) s"
  by (auto simp: upd_chan_def rbind_Inr_iff get_chan_Inr)

lemma chans_set_chan [simp]: "chans (set_chan d c ch s) d c = ch"
  by (simp add: set_chan_def)

lemma upd_ctx_ctx [ctx_rules]: "upd_ctx d c f s = Inr s' \<Longrightarrow> ctx s' d c = f (ctx s d c)"
  by (auto simp: upd_ctx_def upd_chan_Inr)

lemma setPhyState_ctx [ctx_rules]: "setPhyState d c st s = Inr s' \<Longrightarrow> ctx s' d c = ctx s d c\<lparr>phyState := st\<rparr>"
  unfolding setPhyState_def by (rule upd_ctx_ctx)

lemma sending_ctx: "ends (sending d c) s m \<Longrightarrow> m = Inr s' \<Longrightarrow> ctx s' d c = ctx s d c"
  by (auto simp: ends_def sending_def tx_le_def)

lemmas sends_ctx [ctx_rules] =
  sending_ctx [OF sendPhyParamReq_frame] sending_ctx [OF sendPhyConfigReq_frame] sending_ctx [OF sendPhyStartReq_frame]
  sending_ctx [OF sendPhyStopReq_frame] sending_ctx [OF macTtiTx_frame]

section \<open>The state after each message\<close>

text \<open>The specification: the next state as a function of the message and of the cell's context.\<close>

definition error_reply :: "u8 \<Rightarrow> u8 \<Rightarrow> MacStatus_e \<Rightarrow> MacStatus_e" where
  "error_reply mid err st = (if mid = 4 then (if err = 0 then PHY_ACTIVE else PHY_IDLE)
     else if mid = 5 then PHY_IDLE else st)"

definition config_reply :: "u8 \<Rightarrow> MacContent_s \<Rightarrow> MacStatus_e" where
  "config_reply err x = (if err \<noteq> 0 then PHY_IDLE
     else if operMode x = AUTO \<and> phyStub x then PHY_ACTIVE else PHY_INIT)"

definition stop_reply :: "MacContent_s \<Rightarrow> MacStatus_e" where
  "stop_reply x = (if operMode x = AUTO \<and> schState x \<noteq> SCH_STOP then PHY_IDLE
     else if phyStub x then config_reply 0 x else PHY_CFG)"

definition phy_after :: "u32 \<Rightarrow> u8 list \<Rightarrow> MacContent_s \<Rightarrow> MacStatus_e" where
  "phy_after i m x =
     (if i = fapi_id FAPI_SLOT_INDICATION then PHY_ACTIVE
      else if i = fapi_id FAPI_CONFIG_RESPONSE then
        (case fld8 m 0 L1ConfigResponse_t ''ErrorCode'' of Inr e \<Rightarrow> config_reply e x | Inl _ \<Rightarrow> phyState x)
      else if i = fapi_id FAPI_STOP_INDICATION then stop_reply x
      else if i = fapi_id FAPI_ERROR_INDICATION then
        (case (fld8 m 0 L1ErrorIndication_t ''MessageId'', fld8 m 0 L1ErrorIndication_t ''ErrorCode'') of
           (Inr mid, Inr e) \<Rightarrow> error_reply mid e (phyState x) | _ \<Rightarrow> phyState x)
      else phyState x)"

lemma macRevErrorIndication_ctx [ctx_rules]:
  "macRevErrorIndication mid err d c s = Inr s' \<Longrightarrow> ctx s' d c = ctx s d c\<lparr>phyState := error_reply mid err (phyState (ctx s d c))\<rparr>"
  by (auto simp: macRevErrorIndication_def error_reply_def dest: ctx_rules split: if_splits)

lemma macRevCfgResonse_ctx [ctx_rules]:
  assumes "macRevCfgResonse env err d c s = Inr s'"
  shows "ctx s' d c = ctx s d c\<lparr>phyState := config_reply err (ctx s d c)\<rparr>"
proof (cases "err = 0")
  case True
  obtain s1 s2 where s: "setPhyState d c PHY_INIT s = Inr s1" "sendPhyStartReq env d c s1 = Inr s2"
    and r: "(if operMode (ctx s2 d c) = AUTO then
          rbind (setPhyState d c PHY_INIT s2) (\<lambda>s.
            if phyStub (ctx s2 d c) then macRevErrorIndication (l1_id L1_START_REQUEST) 0 d c s else Inr s)
        else Inr s2) = Inr s'"
    using assms True by (auto simp: macRevCfgResonse_def rbind_Inr_iff get_chan_Inr)
  have "ctx s2 d c = ctx s d c\<lparr>phyState := PHY_INIT\<rparr>" using setPhyState_ctx [OF s(1)] sends_ctx(3) [OF s(2)] by simp
  then show ?thesis
    using r True by (auto simp: rbind_Inr_iff config_reply_def error_reply_def dest!: ctx_rules split: if_splits)
next
  case False
  then show ?thesis using assms by (auto simp: macRevCfgResonse_def config_reply_def dest: ctx_rules)
qed

lemma stub_ctx [ctx_rules]:
  "stubConfigured env d c s = Inr s' \<Longrightarrow>
    ctx s' d c = (if phyStub (ctx s d c) then ctx s d c\<lparr>phyState := config_reply 0 (ctx s d c)\<rparr> else ctx s d c)"
  "stubStopped d c s = Inr s' \<Longrightarrow>
    ctx s' d c = (if phyStub (ctx s d c) then ctx s d c\<lparr>phyState := PHY_IDLE\<rparr> else ctx s d c)"
  by (auto simp: stubConfigured_def stubStopped_def rbind_Inr_iff get_chan_Inr error_reply_def dest!: ctx_rules
      split: if_splits)

lemma macRevStopIndication_ctx [ctx_rules]:
  assumes "macRevStopIndication env d c s = Inr s'"
  shows "ctx s' d c = ctx s d c\<lparr>phyState := stop_reply (ctx s d c)\<rparr>"
proof -
  obtain s1 where s1: "setPhyState d c PHY_IDLE s = Inr s1"
    and r: "(if operMode (ctx s1 d c) = AUTO \<and> schState (ctx s1 d c) \<noteq> SCH_STOP then Inr s1 else
       rbind (sendPhyConfigReq env d c s1) (\<lambda>s. rbind (setPhyState d c PHY_CFG s) (stubConfigured env d c))) = Inr s'"
    using assms by (auto simp: macRevStopIndication_def rbind_Inr_iff get_chan_Inr)
  show ?thesis
    using r setPhyState_ctx [OF s1]
    by (auto simp: rbind_Inr_iff stop_reply_def config_reply_def dest!: ctx_rules split: if_splits)
qed

lemma slotCase_ctx:
  assumes "slotCase env m d c s = Inr s'" shows "phyState (ctx s' d c) = PHY_ACTIVE"
  using assms by (auto simp: slotCase_def rbind_Inr_iff dest: setPhyState_ctx)

lemma on_stats_ctx: "on_stats f s = Inr s' \<Longrightarrow> ctx s' d c = ctx s d c"
  by (auto simp: on_stats_def rbind_Inr_iff)

lemma rxDataCase_ctx: "rxDataCase env m d c s = Inr s' \<Longrightarrow> ctx s' d c = ctx s d c"
  by (auto simp: rxDataCase_def rbind_Inr_iff)

text \<open>
  C6: The state of the PHY after each of its messages is the one of the specification: a slot
  indication makes the cell active whatever its state was (also when it was never configured or has
  been stopped), a configuration response leads to the start (or, for a stubbed PHY in automatic mode,
  directly to the active state) or back to idle, a stop indication to idle or to a new configuration,
  an error indication answers a start or a stop, and all other messages leave the state alone.
\<close>

theorem phy_state_after:
  assumes "fapiMsgDec env buf pos d c s = Inr (n, s')" and "fld32 buf pos L1GeneralMsgHdr_t ''msgId'' = Inr i"
  shows "phyState (ctx s' d c) = phy_after i (drop (pos + csize L1GeneralMsgHdr_t) buf) (ctx s d c)"
proof -
  note dec = assms(1) [unfolded fapiMsgDec_def assms(2) rbind.simps Let_def]
  show ?thesis
    unfolding phy_after_def using dec
    by (auto simp: rbind_Inr_iff slotCase_ctx rxDataCase_ctx on_stats_ctx configResponseProcDecHdlr_def
        errorIndicationProcDecHdlr_def split: if_splits dest!: macRevCfgResonse_ctx
        macRevErrorIndication_ctx macRevStopIndication_ctx)
qed

text \<open>A state with small tables, and the answer of the PHY to a start request.\<close>

definition idle_mac :: "nat mac" where
  "idle_mac = \<lparr>chans = (\<lambda>d c. chan_zero),
     mstats = \<lparr>sMacCellCtx = [], sMacUeCtxt = [], gcurrentScs = [], maxTimeOut = 0, minTimeOut = 0\<rparr>,
     gCellNum = 1, gDlttiTxEnable = 0, gUlttiTxEnable = 0, gTxdataTxEnble = 0, gCsiTxEnable = 0,
     sTcIdInRunning = 0, appCellNum = 1, blocks = (\<lambda>a. None), mtrace = trace0 False, lib = 0\<rparr>"

definition error_msg :: "u8 list" where
  "error_msg = [7, 0, 0, 0, 12, 0, 0, 0] @ [0, 0, 0, 0, 0, 0, 0, 0, 4, 0, 0, 0]"

lemma error_msg_runs:
  "(case fapiMsgDec count_env error_msg 0 1 0 idle_mac of Inr (n, s') \<Rightarrow> n = 20 | Inl f \<Rightarrow> False)"
  "fld32 error_msg 0 L1GeneralMsgHdr_t ''msgId'' = Inr (fapi_id FAPI_ERROR_INDICATION)"
  "phy_after (fapi_id FAPI_ERROR_INDICATION) (drop 8 error_msg) (ctx idle_mac 1 0) = PHY_ACTIVE"
  by code_simp+

theorem phy_state_after_witness:
  "\<exists>s'. fapiMsgDec count_env error_msg 0 1 0 idle_mac = Inr (20, s') \<and> phyState (ctx s' 1 0) = PHY_ACTIVE"
proof -
  obtain s' where s': "fapiMsgDec count_env error_msg 0 1 0 idle_mac = Inr (20, s')"
    using error_msg_runs(1) by (auto split: sum.splits)
  show ?thesis using phy_state_after [OF s' error_msg_runs(2)] error_msg_runs(3) s' by (simp add: layout)
qed

section \<open>The end of a test case\<close>

text \<open>One slot of a running cell: the counter advances, and a full period stops the scheduler.\<close>

lemma slot_counts:
  assumes "macTxStartIndHandle env ind d c s = Inr s'" and "phyState (ctx s d c) = PHY_ACTIVE"
  defines "n \<equiv> gSystemTtiNum (chans s d c)" and "per \<equiv> runttiPerTc (ctx s d c)"
  shows "gSystemTtiNum (chans s' d c) = n + 1 \<and>
    ctx s' d c = (if per \<noteq> 0 \<and> n \<noteq> 0 \<and> n mod per = 0 then ctx s d c\<lparr>schState := SCH_STOP\<rparr> else ctx s d c)"
proof -
  let ?s1 = "set_chan d c (chans s d c\<lparr>sMacLocalGSfn := ind\<rparr>) s"
  have run: "(if per \<noteq> 0 \<and> n \<noteq> 0 \<and> n mod per = 0 then
         rbind (sendPhyStopReq env d c ?s1) (upd_chan d c (\<lambda>ch. ch\<lparr>
           gMacCtx := (gMacCtx ch)\<lparr>schState := SCH_STOP\<rparr>, gSystemTtiNum := gSystemTtiNum ch + 1\<rparr>))
       else
         rbind (upd_chan d c (\<lambda>ch. ch\<lparr>gSystemTtiNum := gSystemTtiNum ch + 1\<rparr>) ?s1) (\<lambda>s.
         rbind (rd2 (gcurrentScs (mstats s)) (unat d) (unat c)) (\<lambda>scs.
         rbind (get_chan d c s) (\<lambda>ch.
         rbind (slotPositions (garbage env) ind scs ch) (\<lambda>ch'.
           macSchedule env (gMacTxRfn ch') (ucast (gMacTxSlot ch')) d c (set_chan d c ch' s)))))) = Inr s'"
    using assms(1,2) by (auto simp: macTxStartIndHandle_def slotFirst_def getPhyState_def rbind_Inr_iff get_chan_Inr
        upd_chan_Inr Let_def n_def per_def)
  show ?thesis
  proof (cases "per \<noteq> 0 \<and> n \<noteq> 0 \<and> n mod per = 0")
    case True
    then obtain s2 where s2: "sendPhyStopReq env d c ?s1 = Inr s2"
      and s': "s' = set_chan d c (chans s2 d c\<lparr>gMacCtx := (ctx s2 d c)\<lparr>schState := SCH_STOP\<rparr>,
        gSystemTtiNum := gSystemTtiNum (chans s2 d c) + 1\<rparr>) s2"
      using run by (auto simp: rbind_Inr_iff upd_chan_Inr)
    have "sending d c ?s1 s2" using s2 by (rule endsD [OF sendPhyStopReq_frame])
    then show ?thesis using True s' by (simp add: sending_def tx_le_def n_def)
  next
    case False
    then obtain t ch' scs where t: "t = set_chan d c (chans ?s1 d c\<lparr>gSystemTtiNum := n + 1\<rparr>) ?s1"
      and p: "slotPositions (garbage env) ind scs (chans t d c) = Inr ch'"
      and m: "macSchedule env (gMacTxRfn ch') (ucast (gMacTxSlot ch')) d c (set_chan d c ch' t) = Inr s'"
      using run by (auto simp: rbind_Inr_iff upd_chan_Inr get_chan_Inr n_def)
    have ch': "gMacCtx ch' = ctx s d c \<and> gSystemTtiNum ch' = n + 1"
      using p t by (auto simp: slotPositions_def rbind_Inr_iff)
    have "ends (sending d c) (set_chan d c ch' t)
        (macSchedule env (gMacTxRfn ch') (ucast (gMacTxSlot ch')) d c (set_chan d c ch' t))"
      unfolding macSchedule_def by (intro sending.get sending.branch sending.ret sends)
    then have "ctx s' d c = ctx s d c \<and> gSystemTtiNum (chans s' d c) = n + 1"
      using m ch' by (simp add: ends_def sending_def tx_le_def)
    then show ?thesis unfolding if_not_P [OF False] by simp
  qed
qed

lemma foreach_append: "foreach f (xs @ ys) s = rbind (foreach f xs s) (foreach f ys)"
proof (induction xs arbitrary: s)
  case (Cons x xs)
  then show ?case by (cases "f x s") simp_all
qed simp

text \<open>The cell after \<open>k\<close> slots of a test case of \<open>n\<close> slots.\<close>

definition tc_state :: "u32 \<Rightarrow> nat \<Rightarrow> chan \<Rightarrow> bool" where
  "tc_state n k ch \<longleftrightarrow> phyState (gMacCtx ch) = PHY_ACTIVE \<and> runttiPerTc (gMacCtx ch) = n \<and>
     (if k \<le> unat n then gSystemTtiNum ch = of_nat k \<and> schState (gMacCtx ch) = SCH_NORMAL
      else schState (gMacCtx ch) = SCH_STOP)"

lemma tc_step:
  assumes "n \<noteq> 0" and "tc_state n k (chans s d c)" and "macTxStartIndHandle env ind d c s = Inr s'"
    and "k = 0 \<Longrightarrow> gSystemTtiNum (chans s d c) = 0"
  shows "tc_state n (Suc k) (chans s' d c)"
proof -
  have act: "phyState (ctx s d c) = PHY_ACTIVE" using assms(2) by (simp add: tc_state_def)
  note st = slot_counts [OF assms(3) act]
  consider "k < unat n" | "k = unat n" | "unat n < k" by linarith
  then show ?thesis
  proof cases
    case 1
    then have k: "unat (of_nat k :: u32) = k" using unat_u32_lt [of n] by (intro unat_of_nat_u32) simp
    have cur: "gSystemTtiNum (chans s d c) = of_nat k" "runttiPerTc (ctx s d c) = n" "schState (ctx s d c) = SCH_NORMAL"
      using assms(2) 1 by (simp_all add: tc_state_def)
    have m: "unat ((of_nat k :: u32) mod n) = k" using 1 k by (simp add: unat_mod)
    have "(of_nat k :: u32) mod n = of_nat k" using m k by (simp only: word_unat_eq_iff)
    then have "\<not> ((of_nat k :: u32) \<noteq> 0 \<and> (of_nat k :: u32) mod n = 0)" by argo
    then have "ctx s' d c = ctx s d c" "gSystemTtiNum (chans s' d c) = of_nat k + 1"
      using st unfolding cur(1,2) by presburger+
    then show ?thesis using 1 act cur by (simp add: tc_state_def add.commute)
  next
    case 2
    moreover have "of_nat (unat n) = n" by simp
    ultimately show ?thesis using assms(1,2) st by (simp add: tc_state_def)
  next
    case 3
    then show ?thesis using assms(2) st by (auto simp: tc_state_def)
  qed
qed

lemma first_slot:
  assumes "phyState (ctx s d c) = PHY_INIT" and "macTxStartIndHandle env ind d c s = Inr s'" and "n = runttiPerTc (ctx s d c)"
  shows "\<exists>s1. tc_state n 0 (chans s1 d c) \<and> macTxStartIndHandle env ind d c s1 = Inr s' \<and> gSystemTtiNum (chans s1 d c) = 0"
proof -
  obtain s1 where s1: "slotFirst d c s = Inr s1" using assms(2) by (auto simp: macTxStartIndHandle_def rbind_Inr_iff)
  then have t: "tc_state n 0 (chans s1 d c) \<and> gSystemTtiNum (chans s1 d c) = 0 \<and> d < 4 \<and> c < 2"
    using assms(1,3) by (auto simp: slotFirst_def getPhyState_def rbind_Inr_iff get_chan_Inr setPhyState_def upd_ctx_def
        upd_chan_Inr tc_state_def)
  then have "slotFirst d c s1 = Inr s1"
    by (simp add: slotFirst_def getPhyState_def get_chan_def tc_state_def)
  then have "macTxStartIndHandle env ind d c s1 = macTxStartIndHandle env ind d c s"
    using s1 by (simp add: macTxStartIndHandle_def)
  then show ?thesis using t assms(2) by auto
qed

text \<open>
  The messages of the PHY for one cell, one after the other: their identifiers, and how many of them are slot
  indications. The messages that change the state of a cell otherwise are the answers to the requests of the MAC.
\<close>

definition msg_id :: "u8 list \<Rightarrow> u32 res" where
  "msg_id buf = fld32 buf 0 L1GeneralMsgHdr_t ''msgId''"

definition phy_msgs :: "'e env \<Rightarrow> u8 \<Rightarrow> u8 \<Rightarrow> u8 list list \<Rightarrow> 'e mac \<Rightarrow> 'e mac res" where
  "phy_msgs env d c = foreach (\<lambda>buf s. rbind (fapiMsgDec env buf 0 d c s) (\<lambda>(n, s'). Inr s'))"

definition slots_in :: "u8 list list \<Rightarrow> nat" where
  "slots_in bufs = length (filter (\<lambda>buf. msg_id buf = Inr (fapi_id FAPI_SLOT_INDICATION)) bufs)"

definition answers :: "u32 set" where
  "answers = fapi_id ` {FAPI_CONFIG_RESPONSE, FAPI_STOP_INDICATION, FAPI_ERROR_INDICATION}"

definition no_answer :: "u8 list list \<Rightarrow> bool" where
  "no_answer bufs \<longleftrightarrow> (\<forall>buf \<in> set bufs. \<forall>i \<in> answers. msg_id buf \<noteq> Inr i)"

lemma phy_msgs_simps: "phy_msgs env d c [] s = Inr s"
  "phy_msgs env d c (buf # bufs) s = rbind (fapiMsgDec env buf 0 d c s) (\<lambda>(n, s'). phy_msgs env d c bufs s')"
  by (simp_all add: phy_msgs_def rbind_assoc split_def)

lemma phy_msgs_append: "phy_msgs env d c (xs @ ys) s = rbind (phy_msgs env d c xs s) (phy_msgs env d c ys)"
  by (simp add: phy_msgs_def foreach_append)

text \<open>A slot indication does what \<open>macTxStartIndHandle\<close> does and makes the cell active.\<close>

lemma slotCase_parts:
  assumes "slotCase env m d c s = Inr s'"
  obtains ind s1 where "macTxStartIndHandle env ind d c s = Inr s1" "ctx s' d c = ctx s1 d c\<lparr>phyState := PHY_ACTIVE\<rparr>"
    "gSystemTtiNum (chans s' d c) = gSystemTtiNum (chans s1 d c)"
  using assms
  by (auto simp: slotCase_def slotIndicationProcDecHdlr_def rbind_Inr_iff upd_chan_Inr setPhyState_def upd_ctx_def split: if_splits)

lemma other_msg:
  assumes "fapiMsgDec env buf 0 d c s = Inr (n, s')" "no_answer [buf]" "msg_id buf \<noteq> Inr (fapi_id FAPI_SLOT_INDICATION)"
  shows "chans s' d c = chans s d c"
  using assms
  by (auto simp: fapiMsgDec_def no_answer_def answers_def msg_id_def rbind_Inr_iff Let_def rxDataCase_def on_stats_def split: if_splits)

lemma rd_of_drop: "rd (drop p xs) i = rd xs (p + i)"
  by (auto simp: rd_def add.commute)

lemma fld8_drop: "fld8 (drop k m) 0 T f = fld8 m k T f"
  by (simp add: fld8_def rd_u8_def rd_of_drop)

text \<open>The cell after \<open>k\<close> slots of a test case of \<open>n\<close> slots that starts in the state \<open>PHY_INIT\<close>.\<close>

definition case_runs :: "u32 \<Rightarrow> nat \<Rightarrow> MacContent_s \<Rightarrow> bool" where
  "case_runs n k x \<longleftrightarrow> (if k = 0 then phyState x = PHY_INIT
     else phyState x = PHY_ACTIVE \<and> schState x = (if k \<le> unat n then SCH_NORMAL else SCH_STOP))"

lemma slot_of_case:
  assumes "n \<noteq> 0" and "slotCase env m d c s = Inr s'" and "runttiPerTc (ctx s d c) = n"
    and "if k = 0 then phyState (ctx s d c) = PHY_INIT else tc_state n k (chans s d c)"
  shows "tc_state n (Suc k) (chans s' d c)"
proof -
  obtain ind s1 where s1: "macTxStartIndHandle env ind d c s = Inr s1" "ctx s' d c = ctx s1 d c\<lparr>phyState := PHY_ACTIVE\<rparr>"
    "gSystemTtiNum (chans s' d c) = gSystemTtiNum (chans s1 d c)"
    by (rule slotCase_parts [OF assms(2)])
  have "tc_state n (Suc k) (chans s1 d c)"
  proof (cases "k = 0")
    case True
    then obtain s0 where "tc_state n 0 (chans s0 d c)" "macTxStartIndHandle env ind d c s0 = Inr s1" "gSystemTtiNum (chans s0 d c) = 0"
      using first_slot [OF _ s1(1), of n] assms(3,4) by auto
    then show ?thesis using tc_step [OF assms(1)] True by simp
  next
    case False
    then show ?thesis using tc_step [OF assms(1) _ s1(1)] assms(4) by simp
  qed
  then show ?thesis using s1(2,3) by (simp add: tc_state_def)
qed

lemma msgs_setup: "phy_msgs env d c bufs s = Inr s' \<Longrightarrow> setup_of (chans s' d c) = setup_of (chans s d c)"
proof (induction bufs arbitrary: s)
  case (Cons buf bufs)
  then obtain t k where t: "fapiMsgDec env buf 0 d c s = Inr (k, t)" "phy_msgs env d c bufs t = Inr s'"
    by (auto simp: phy_msgs_simps rbind_Inr_iff)
  have "confined d c s t" by (rule endsVD [OF fapiMsgDec_frame t(1)])
  then show ?case using Cons.IH [OF t(2)] by (simp add: confined_def chan_le_def)
qed (simp add: phy_msgs_simps)

lemma msgs_of_case:
  assumes "n \<noteq> 0" and "no_answer bufs" and "phy_msgs env d c bufs s = Inr s'" and "phyState (ctx s d c) = PHY_INIT" and "runttiPerTc (ctx s d c) = n"
  shows "runttiPerTc (ctx s' d c) = n \<and> (if slots_in bufs = 0 then phyState (ctx s' d c) = PHY_INIT else tc_state n (slots_in bufs) (chans s' d c))"
  using assms(2,3)
proof (induction bufs arbitrary: s' rule: rev_induct)
  case Nil
  then show ?case using assms(4,5) by (simp add: phy_msgs_simps slots_in_def)
next
  case (snoc buf bufs)
  obtain t k where t: "phy_msgs env d c bufs s = Inr t" "fapiMsgDec env buf 0 d c t = Inr (k, s')"
    using snoc.prems(2) by (auto simp: phy_msgs_append phy_msgs_simps rbind_Inr_iff)
  have na: "no_answer bufs" "no_answer [buf]" using snoc.prems(1) by (simp_all add: no_answer_def)
  note ih = snoc.IH [OF na(1) t(1)]
  show ?case
  proof (cases "msg_id buf = Inr (fapi_id FAPI_SLOT_INDICATION)")
    case True
    then have "slotCase env (drop (csize L1GeneralMsgHdr_t) buf) d c t = Inr s'"
      using t(2) by (auto simp: fapiMsgDec_def msg_id_def rbind_Inr_iff Let_def)
    from slot_of_case [OF assms(1) this, of "slots_in bufs"] ih
    have "tc_state n (Suc (slots_in bufs)) (chans s' d c)" by (simp split: if_splits)
    then show ?thesis using True by (simp add: slots_in_def tc_state_def)
  next
    case False
    then have "slots_in (bufs @ [buf]) = slots_in bufs" by (simp add: slots_in_def)
    then show ?thesis using other_msg [OF t(2) na(2) False] ih by simp
  qed
qed

text \<open>
  C13: A test case ends after its number of slots. When a configured cell with \<open>runttiPerTc\<close> = n > 0
  handles messages of the PHY, none of which answers a request, then it waits for the first slot indication, is active
  from then on, and its scheduler runs for the first n slots; slot n + 1 stops the scheduler, which stays stopped until the PHY
  answers, whatever indications come in between.
\<close>

theorem test_case_stops:
  assumes "phyState (ctx s d c) = PHY_INIT" and "runttiPerTc (ctx s d c) = n" and "n \<noteq> 0" and "no_answer bufs"
    and "phy_msgs env d c bufs s = Inr s'"
  shows "case_runs n (slots_in bufs) (ctx s' d c)"
  using msgs_of_case [OF assms(3,4,5,1,2)] by (auto simp: case_runs_def tc_state_def split: if_splits)

text \<open>A cell whose scheduler is stopped, and whose PHY is not started: slots do not start it.\<close>

definition halted :: "u32 \<Rightarrow> MacContent_s \<Rightarrow> bool" where
  "halted n x \<longleftrightarrow> runttiPerTc x = n \<and> schState x = SCH_STOP \<and> \<not> phyStub x \<and> phyState x \<noteq> PHY_INIT"

lemma slot_halted: "slotCase env m d c s = Inr s' \<Longrightarrow> halted n (ctx s d c) \<Longrightarrow> halted n (ctx s' d c)"
proof (erule slotCase_parts)
  fix ind s1
  assume h: "halted n (ctx s d c)" and s1: "macTxStartIndHandle env ind d c s = Inr s1" "ctx s' d c = ctx s1 d c\<lparr>phyState := PHY_ACTIVE\<rparr>"
  have "halted n (ctx s1 d c)"
  proof (cases "phyState (ctx s d c) = PHY_ACTIVE")
    case True
    then show ?thesis using slot_counts [OF s1(1)] h by (simp add: halted_def)
  next
    case False
    then have "s1 = s" using s1(1) h
      by (auto simp: macTxStartIndHandle_def slotFirst_def getPhyState_def rbind_Inr_iff get_chan_Inr halted_def)
    then show ?thesis using h by simp
  qed
  then show "halted n (ctx s' d c)" using s1(2) by (simp add: halted_def)
qed

lemma msgs_halted:
  "phy_msgs env d c bufs s = Inr s' \<Longrightarrow> no_answer bufs \<Longrightarrow> halted n (ctx s d c) \<Longrightarrow>
    halted n (ctx s' d c) \<and> phyState (ctx s' d c) = (if slots_in bufs = 0 then phyState (ctx s d c) else PHY_ACTIVE)"
proof (induction bufs arbitrary: s)
  case Nil
  then show ?case by (simp add: phy_msgs_simps slots_in_def)
next
  case (Cons buf bufs)
  then obtain t k where t: "fapiMsgDec env buf 0 d c s = Inr (k, t)" "phy_msgs env d c bufs t = Inr s'"
    by (auto simp: phy_msgs_simps rbind_Inr_iff)
  have na: "no_answer [buf]" "no_answer bufs" using Cons.prems(2) by (simp_all add: no_answer_def)
  show ?case
  proof (cases "msg_id buf = Inr (fapi_id FAPI_SLOT_INDICATION)")
    case True
    then have run: "slotCase env (drop (csize L1GeneralMsgHdr_t) buf) d c s = Inr t"
      using t(1) by (auto simp: fapiMsgDec_def msg_id_def rbind_Inr_iff Let_def)
    have "slots_in (buf # bufs) = Suc (slots_in bufs)" using True by (simp add: slots_in_def)
    then show ?thesis using Cons.IH [OF t(2) na(2) slot_halted [OF run Cons.prems(3)]] slotCase_ctx [OF run] by simp
  next
    case False
    then have "slots_in (buf # bufs) = slots_in bufs" by (simp add: slots_in_def)
    then show ?thesis using Cons.IH [OF t(2) na(2)] other_msg [OF t(1) na(1) False] Cons.prems(3) by simp
  qed
qed

text \<open>
  C35: The answers to the stop start the test case anew. After the stop of a test case, the stop indication of the PHY makes
  the MAC configure the cell again; until the PHY confirms that, slots do not start the scheduler; from the first
  slot after the confirmation on the test case runs as from its first start, for the same number of slots.
\<close>

theorem test_case_repeats:
  assumes "phyState (ctx s d c) = PHY_INIT" and "runttiPerTc (ctx s d c) = n" and "n \<noteq> 0" and "\<not> phyStub (ctx s d c)"
    and "no_answer bufs" and "unat n < slots_in bufs" and "phy_msgs env d c bufs s = Inr s1"
    and "msg_id stop = Inr (fapi_id FAPI_STOP_INDICATION)" and "no_answer waiting"
    and "phy_msgs env d c (stop # waiting) s1 = Inr s2"
    and "msg_id cfg = Inr (fapi_id FAPI_CONFIG_RESPONSE)" and "fld8 cfg (csize L1GeneralMsgHdr_t) L1ConfigResponse_t ''ErrorCode'' = Inr 0"
    and "no_answer bufs'" and "phy_msgs env d c (cfg # bufs') s2 = Inr s3"
  shows "schState (ctx s2 d c) = SCH_STOP \<and> phyState (ctx s2 d c) = (if slots_in waiting = 0 then PHY_CFG else PHY_ACTIVE) \<and>
    case_runs n (slots_in bufs') (ctx s3 d c)"
proof -
  have stub: "\<not> phyStub (ctx s1 d c)" and run1: "runttiPerTc (ctx s1 d c) = n"
    using msgs_setup [OF assms(7)] assms(2,4) by (auto simp: setup_of_def)
  have st1: "schState (ctx s1 d c) = SCH_STOP"
    using msgs_of_case [OF assms(3,5,7,1,2)] assms(6) by (simp add: tc_state_def)
  obtain k t where t: "fapiMsgDec env stop 0 d c s1 = Inr (k, t)" "phy_msgs env d c waiting t = Inr s2"
    using assms(10) by (auto simp: phy_msgs_simps rbind_Inr_iff)
  then have "macRevStopIndication env d c s1 = Inr t"
    using assms(8) by (auto simp: fapiMsgDec_def msg_id_def rbind_Inr_iff Let_def)
  from macRevStopIndication_ctx [OF this] have "ctx t d c = ctx s1 d c\<lparr>phyState := PHY_CFG\<rparr>"
    using st1 stub by (simp add: stop_reply_def)
  then have "halted n (ctx t d c)" "phyState (ctx t d c) = PHY_CFG" using st1 stub run1 by (simp_all add: halted_def)
  from msgs_halted [OF t(2) assms(9) this(1)] this(2)
  have s2: "halted n (ctx s2 d c)" "phyState (ctx s2 d c) = (if slots_in waiting = 0 then PHY_CFG else PHY_ACTIVE)" by simp_all
  obtain k u where u: "fapiMsgDec env cfg 0 d c s2 = Inr (k, u)" "phy_msgs env d c bufs' u = Inr s3"
    using assms(14) by (auto simp: phy_msgs_simps rbind_Inr_iff)
  have "fld8 (drop (csize L1GeneralMsgHdr_t) cfg) 0 L1ConfigResponse_t ''ErrorCode'' = Inr 0"
    unfolding fld8_drop by (rule assms(12))
  then have "macRevCfgResonse env 0 d c s2 = Inr u"
    using u(1) assms(11) by (auto simp: fapiMsgDec_def msg_id_def configResponseProcDecHdlr_def rbind_Inr_iff Let_def)
  from macRevCfgResonse_ctx [OF this] have "phyState (ctx u d c) = PHY_INIT" "runttiPerTc (ctx u d c) = n"
    using s2(1) by (simp_all add: config_reply_def halted_def)
  from msgs_of_case [OF assms(3,13) u(2) this] have "case_runs n (slots_in bufs') (ctx s3 d c)"
    by (auto simp: case_runs_def tc_state_def split: if_splits)
  then show ?thesis using s2 by (simp add: halted_def)
qed

definition tc_mac :: "nat mac" where
  "tc_mac = \<lparr>chans = (\<lambda>d c. chan_zero\<lparr>gMacCtx := (gMacCtx chan_zero)\<lparr>phyState := PHY_INIT, runttiPerTc := 1\<rparr>,
       gL1ConfigRequest := Some (replicate 24 0), gL1ConfigReqSize := 16\<rparr>),
     mstats = \<lparr>sMacCellCtx = [], sMacUeCtxt = [], gcurrentScs = [[15, 15], [15, 15]], maxTimeOut = 0, minTimeOut = 0\<rparr>,
     gCellNum = 1, gDlttiTxEnable = 0, gUlttiTxEnable = 0, gTxdataTxEnble = 0, gCsiTxEnable = 0,
     sTcIdInRunning = 0, appCellNum = 1, blocks = (\<lambda>a. None), mtrace = trace0 False, lib = 0\<rparr>"

definition slot_msg :: "u8 \<Rightarrow> u8 list" where
  "slot_msg slot = [0x82, 0, 0, 0, 4, 0, 0, 0, 3, 0, slot, 0]"

definition stop_msg :: "u8 list" where
  "stop_msg = [6, 0, 0, 0, 0, 0, 0, 0]"

definition config_msg :: "u8 list" where
  "config_msg = [3, 0, 0, 0, 4, 0, 0, 0, 0, 0, 0, 0]"

lemma tc_msgs: "msg_id (slot_msg i) = Inr (fapi_id FAPI_SLOT_INDICATION)" "msg_id stop_msg = Inr (fapi_id FAPI_STOP_INDICATION)"
  "msg_id config_msg = Inr (fapi_id FAPI_CONFIG_RESPONSE)" "fld8 config_msg (csize L1GeneralMsgHdr_t) L1ConfigResponse_t ''ErrorCode'' = Inr 0"
  "no_answer [slot_msg i]" "no_answer [slot_msg i, slot_msg j]" "slots_in [slot_msg i] = 1" "slots_in [slot_msg i, slot_msg j] = 2"
proof -
  show s: "msg_id (slot_msg i) = Inr (fapi_id FAPI_SLOT_INDICATION)" for i
    by (simp add: msg_id_def slot_msg_def fld32_def layout rd_u32_def rd_def u32_of_bytes_def)
  show "msg_id stop_msg = Inr (fapi_id FAPI_STOP_INDICATION)"
    "msg_id config_msg = Inr (fapi_id FAPI_CONFIG_RESPONSE)" "fld8 config_msg (csize L1GeneralMsgHdr_t) L1ConfigResponse_t ''ErrorCode'' = Inr 0"
    by code_simp+
  show "no_answer [slot_msg i]" "no_answer [slot_msg i, slot_msg j]" "slots_in [slot_msg i] = 1" "slots_in [slot_msg i, slot_msg j] = 2"
    using s by (auto simp: no_answer_def answers_def slots_in_def)
qed

text \<open>A library that opens no group: the requests of the MAC are dropped, and every message is handled.\<close>

definition quiet_env :: "nat env" where
  "quiet_env = count_env\<lparr>pcxxSendStart := \<lambda>d c e. (False, e)\<rparr>"

lemma quiet_group: "msg_group quiet_env d c body s = Inr s"
  by (simp add: msg_group_def quiet_env_def)

lemma quiet_slot:
  assumes "gcurrentScs (mstats s) = [[15, 15], [15, 15]]" and "unat (sSlotNum (chans s 1 0)) < 100"
  shows "\<exists>s'. macTxStartIndHandle quiet_env ind 1 0 s = Inr s' \<and> mstats s' = mstats s \<and> sSlotNum (chans s' 1 0) = sSlotNum (chans s 1 0)"
proof -
  have g: "\<exists>g'. gsfnShift (garbage quiet_env) ind k 15 = Inr g'" if "k < 10" for k
    using that by (simp add: gsfnShift_def gsfn_mask_def guard_def)
  obtain a b where ab: "gsfnShift (garbage quiet_env) ind 2 15 = Inr a" "gsfnShift (garbage quiet_env) ind 1 15 = Inr b"
    using g [of 2] g [of 1] by auto
  show ?thesis
    using assms(1)
    by (auto simp: macTxStartIndHandle_def slotFirst_def getPhyState_def setPhyState_def upd_ctx_def upd_chan_def get_chan_def guard_def
        sendPhyStopReq_def macSchedule_def macTtiTx_def quiet_group slotPositions_def ab rd2_def rd_def Let_def set_chan_def)
qed

lemma quiet_msg:
  assumes "gcurrentScs (mstats s) = [[15, 15], [15, 15]]" and "unat (sSlotNum (chans s 1 0)) + k < 100" and "0 < k"
    and "buf \<in> range slot_msg \<union> {stop_msg, config_msg}"
  shows "\<exists>n s'. fapiMsgDec quiet_env buf 0 1 0 s = Inr (n, s') \<and> mstats s' = mstats s \<and> unat (sSlotNum (chans s' 1 0)) + (k - 1) < 100"
proof -
  have ids: "\<exists>i. fld32 buf 0 L1GeneralMsgHdr_t ''msgSize'' = Inr i"
    using assms(4) by (auto simp: slot_msg_def stop_msg_def config_msg_def fld32_def layout rd_u32_def rd_def)
  consider i where "buf = slot_msg i" | "buf = stop_msg" | "buf = config_msg" using assms(4) by auto
  then show ?thesis
  proof cases
    case (1 i)
    obtain x y where f: "fld16 (drop 8 buf) 0 L1SlotIndication_t ''SFN'' = Inr x" "fld16 (drop 8 buf) 0 L1SlotIndication_t ''Slot'' = Inr y"
      using 1 by (auto simp: slot_msg_def fld16_def layout rd_u16_def rd_def)
    obtain s1 where s1: "macTxStartIndHandle quiet_env \<lparr>si_SFN = x, si_Slot = y\<rparr> 1 0 s = Inr s1" "mstats s1 = mstats s"
      "sSlotNum (chans s1 1 0) = sSlotNum (chans s 1 0)" using quiet_slot [OF assms(1)] assms(2) by fastforce
    have n: "unat (sSlotNum (chans s 1 0) + 1) = unat (sSlotNum (chans s 1 0)) + 1" using assms(2) by (simp add: unat_word_ariths)
    then have "\<not> sSlotNum (chans s 1 0) + 1 \<ge> 20000" using assms(2,3) by (simp add: word_le_nat_alt)
    then show ?thesis
      using 1 tc_msgs(1) [of i] ids f s1 n assms(2,3)
      by (auto simp: fapiMsgDec_def msg_id_def slotCase_def slotIndicationProcDecHdlr_def upd_chan_def get_chan_def guard_def set_chan_def
          setPhyState_def upd_ctx_def layout)
  next
    case 2
    then show ?thesis
      using tc_msgs(2) ids assms(2,3)
      by (auto simp: fapiMsgDec_def msg_id_def macRevStopIndication_def stubConfigured_def macRevCfgResonse_def macRevErrorIndication_def
          sendPhyConfigReq_def sendPhyStartReq_def quiet_group upd_chan_def get_chan_def guard_def set_chan_def setPhyState_def upd_ctx_def)
  next
    case 3
    have e: "fld8 (drop (csize L1GeneralMsgHdr_t) config_msg) 0 L1ConfigResponse_t ''ErrorCode'' = Inr 0"
      unfolding fld8_drop by (rule tc_msgs(4))
    from 3 show ?thesis
      using tc_msgs(3) e ids assms(2,3)
      by (auto simp: fapiMsgDec_def msg_id_def configResponseProcDecHdlr_def macRevCfgResonse_def macRevErrorIndication_def
          sendPhyStartReq_def quiet_group upd_chan_def get_chan_def guard_def set_chan_def setPhyState_def upd_ctx_def)
  qed
qed

lemma quiet_runs:
  "gcurrentScs (mstats s) = [[15, 15], [15, 15]] \<Longrightarrow> unat (sSlotNum (chans s 1 0)) + length bufs < 100 \<Longrightarrow>
    set bufs \<subseteq> range slot_msg \<union> {stop_msg, config_msg} \<Longrightarrow> \<exists>s'. phy_msgs quiet_env 1 0 bufs s = Inr s'"
proof (induction bufs arbitrary: s)
  case (Cons buf bufs)
  then obtain n t where t: "fapiMsgDec quiet_env buf 0 1 0 s = Inr (n, t)" "mstats t = mstats s" "unat (sSlotNum (chans t 1 0)) + length bufs < 100"
    using quiet_msg [of s "length (buf # bufs)" buf] by auto
  then show ?case using Cons.IH [of t] Cons.prems(1,3) by (simp add: phy_msgs_simps)
qed (simp add: phy_msgs_simps)

theorem test_case_stops_witness:
  "\<exists>s'. phy_msgs quiet_env 1 0 [slot_msg 7, slot_msg 8] tc_mac = Inr s' \<and>
    phyState (ctx s' 1 0) = PHY_ACTIVE \<and> schState (ctx s' 1 0) = SCH_STOP"
proof -
  obtain s' where s': "phy_msgs quiet_env 1 0 [slot_msg 7, slot_msg 8] tc_mac = Inr s'"
    using quiet_runs [of tc_mac "[slot_msg 7, slot_msg 8]"] by (auto simp: tc_mac_def chan_zero_def)
  have "phyState (ctx tc_mac 1 0) = PHY_INIT" "runttiPerTc (ctx tc_mac 1 0) = 1"
    by (simp_all add: tc_mac_def chan_zero_def)
  from test_case_stops [OF this _ tc_msgs(6) s'] s' show ?thesis by (simp add: tc_msgs case_runs_def)
qed

theorem test_case_repeats_witness:
  "\<exists>s1 s2 s3. phy_msgs quiet_env 1 0 [slot_msg 7, slot_msg 8] tc_mac = Inr s1 \<and>
    phy_msgs quiet_env 1 0 [stop_msg, slot_msg 9] s1 = Inr s2 \<and> schState (ctx s2 1 0) = SCH_STOP \<and>
    phy_msgs quiet_env 1 0 [config_msg, slot_msg 10] s2 = Inr s3 \<and> schState (ctx s3 1 0) = SCH_NORMAL"
proof -
  let ?a = "[slot_msg 7, slot_msg 8]" and ?b = "[stop_msg, slot_msg 9]" and ?c = "[config_msg, slot_msg 10]"
  obtain s3 where "phy_msgs quiet_env 1 0 (?a @ ?b @ ?c) tc_mac = Inr s3"
    using quiet_runs [of tc_mac "?a @ ?b @ ?c"] by (auto simp: tc_mac_def chan_zero_def)
  then obtain s1 s2 where r: "phy_msgs quiet_env 1 0 ?a tc_mac = Inr s1" "phy_msgs quiet_env 1 0 ?b s1 = Inr s2"
    "phy_msgs quiet_env 1 0 ?c s2 = Inr s3"
    unfolding phy_msgs_append by (auto simp: rbind_Inr_iff)
  have "phyState (ctx tc_mac 1 0) = PHY_INIT" "runttiPerTc (ctx tc_mac 1 0) = 1" "\<not> phyStub (ctx tc_mac 1 0)"
    by (simp_all add: tc_mac_def chan_zero_def)
  from test_case_repeats [OF this(1,2) _ this(3) tc_msgs(6) _ r(1) tc_msgs(2,5) r(2) tc_msgs(3,4,5) r(3)]
  show ?thesis using r by (simp add: tc_msgs case_runs_def)
qed

section \<open>Groups of messages\<close>

text \<open>
  A group as its receiver finds it: the header of 4 bytes and the messages, each with its identifier,
  its size and its body. The messages are handled one after the other, each at the front of what is
  left of the group.
\<close>

definition enc_msg :: "u32 \<times> u8 list \<Rightarrow> u8 list" where
  "enc_msg m = bytes_of_u32 (fst m) @ bytes_of_u32 (of_nat (length (snd m))) @ snd m"

definition enc_msgs :: "(u32 \<times> u8 list) list \<Rightarrow> u8 list" where
  "enc_msgs ms = concat (map enc_msg ms)"

definition enc_group :: "u8 \<Rightarrow> (u32 \<times> u8 list) list \<Rightarrow> u8 list" where
  "enc_group c ms = [of_nat (length ms), c, 0, 0] @ enc_msgs ms"

fun deliver :: "'e env \<Rightarrow> (u32 \<times> u8 list) list \<Rightarrow> u8 \<Rightarrow> u8 \<Rightarrow> 'e mac \<Rightarrow> (bool \<times> 'e mac) res" where
  "deliver env [] d c s = Inr (True, s)"
| "deliver env (m # ms) d c s =
     rbind (fapiMsgDec env (enc_msgs (m # ms)) 0 d c s) (\<lambda>(n, s').
       if n = - 1 then Inr (False, s') else deliver env ms d c s')"

lemma fapiMsgDec_drop: "fapiMsgDec env buf pos d c s = fapiMsgDec env (drop pos buf) 0 d c s"
  by (simp add: fapiMsgDec_def fld32_def rd_u32_def rd_of_drop add.assoc add.commute [of pos] layout)

lemma fapiMsgDec_length:
  assumes "fapiMsgDec env (enc_msgs (m # ms)) 0 d c s = Inr (n, s')"
  shows "n = - 1 \<or> n = of_nat (length (snd m)) + 8"
proof -
  have buf: "enc_msgs (m # ms) = bytes_of_u32 (fst m) @ bytes_of_u32 (of_nat (length (snd m))) @ snd m @ enc_msgs ms"
    by (simp add: enc_msgs_def enc_msg_def)
  have "fld32 (enc_msgs (m # ms)) 0 L1GeneralMsgHdr_t ''msgSize'' = Inr (of_nat (length (snd m)))"
    unfolding buf fld32_def layout by (rule rd_u32_bytes) simp
  then show ?thesis
    using assms by (auto simp: fapiMsgDec_def Let_def rbind_Inr_iff split: if_splits)
qed

lemma revLoop_deliver:
  assumes "drop pos buf = enc_msgs ms" and "\<forall>m \<in> set ms. 4 dvd length (snd m)" and "length (enc_msgs ms) < 2 ^ 32 - 4"
  shows "revLoop env buf (length ms) pos off d c s = rbind (deliver env ms d c s) (\<lambda>(ok, s').
      Inr (if ok then Some (off + of_nat (length (enc_msgs ms))) else None, s'))"
  using assms
proof (induction ms arbitrary: pos off s)
  case Nil
  then show ?case by (simp add: enc_msgs_def)
next
  case (Cons m ms)
  define L where "L = length (snd m) + 8"
  have enc: "enc_msgs (m # ms) = enc_msg m @ enc_msgs ms" "length (enc_msg m) = L"
    by (simp_all add: enc_msgs_def enc_msg_def L_def)
  have L: "4 dvd L" "L + 4 < 2 ^ 32" using Cons.prems(2,3) enc by (simp_all add: L_def)
  have len: "of_nat (length (snd m)) + 8 = (of_nat L :: u32)" by (simp add: L_def)
  have "unat (- 1 :: u32) = 4294967295" by (simp add: unsigned_minus_1_eq_mask mask_eq_exp_minus_1)
  then have "\<not> 4 dvd unat (- 1 :: u32)" by simp
  moreover have "unat (of_nat L :: u32) = L" using L by (intro unat_of_nat_u32) simp
  ultimately have ne: "(of_nat L :: u32) \<noteq> - 1" using L(1) by metis
  have "(of_nat L + 3 :: u32) = of_nat (L + 3)" by simp
  moreover have "unat (of_nat (L + 3) :: u32) = L + 3" using L by (intro unat_of_nat_u32) simp
  ultimately have adv: "4 * unat (drop_bit 2 (of_nat L + 3 :: u32)) = L"
    using L(1) by (simp add: drop_bit_eq_div unat_div) presburger
  have rest: "drop (pos + L) buf = enc_msgs ms"
    using Cons.prems(1) enc by (metis append_eq_conv_conj drop_drop add.commute)
  have small: "length (enc_msgs ms) < 2 ^ 32 - 4" using Cons.prems(3) enc by simp
  note IH = Cons.IH [OF rest _ small]
  have tot: "of_nat (length (enc_msgs (m # ms))) = (of_nat L + of_nat (length (enc_msgs ms)) :: u32)"
    by (simp add: enc)
  show ?case
  proof (cases "fapiMsgDec env (enc_msgs (m # ms)) 0 d c s")
    case (Inr r)
    obtain n s' where r: "r = (n, s')" by force
    have "n = - 1 \<or> n = of_nat L" using fapiMsgDec_length Inr len unfolding r by metis
    then show ?thesis
      unfolding tot add.assoc [symmetric] using Inr IH Cons.prems(2) ne adv
      by (auto simp: r fapiMsgDec_drop [of env buf] Cons.prems(1))
  qed (simp add: fapiMsgDec_drop [of env buf] Cons.prems(1))
qed

text \<open>
  C11: The loop over a group of messages finds exactly its messages. On a group whose bodies are whole
  words, \<open>macRevL1Ctrl\<close> handles the messages in order, each from its own first byte, consumes the whole
  group and adds it to the trace; a message that is not known ends it there, with the rest of the group
  skipped and nothing traced.
\<close>

theorem group_handled_in_order:
  assumes "ms \<noteq> []" and "length ms < 255" and "\<forall>m \<in> set ms. 4 dvd length (snd m)"
    and "length (enc_group c0 ms) < 2 ^ 32 - 4" and "n = of_nat (length (enc_group c0 ms))"
  shows "macRevL1Ctrl env a (enc_group c0 ms) n d c s = rbind (deliver env ms d c s) (\<lambda>(ok, s').
      if ok then rbind (addPhyTraceItem a n (mtrace s')) (\<lambda>t. Inr (n, s'\<lparr>mtrace := t\<rparr>)) else Inr (n, s'))"
proof -
  have n: "unat n = length (enc_group c0 ms)" unfolding assms(5) using assms(4) by (intro unat_of_nat_u32) simp
  then have pos: "0 < n" by (simp add: word_less_nat_alt enc_group_def)
  have cnt: "fld8 (enc_group c0 ms) 0 L1MsgHdr_t ''msgNum'' = Inr (of_nat (length ms))"
    by (simp add: fld8_def rd_u8_def enc_group_def layout)
  have "unat (of_nat (length ms) :: u8) = length ms"
    using assms(2) by (simp add: unsigned_of_nat take_bit_nat_eq_self)
  then have c: "unat (of_nat (length ms) :: u8) = length ms" "(of_nat (length ms) :: u8) \<noteq> 0"
    "\<not> 0xFF \<le> (of_nat (length ms) :: u8)"
    using assms(1,2) by (auto simp: word_le_nat_alt word_unat_eq_iff)
  have "drop 4 (enc_group c0 ms) = enc_msgs ms" by (simp add: enc_group_def)
  moreover have "length (enc_msgs ms) < 2 ^ 32 - 4" using assms(4) by (simp add: enc_group_def)
  ultimately have loop: "revLoop env (enc_group c0 ms) (length ms) 4 4 d c s = rbind (deliver env ms d c s) (\<lambda>(ok, s').
      Inr (if ok then Some (4 + of_nat (length (enc_msgs ms))) else None, s'))"
    using assms(3) by (intro revLoop_deliver)
  have off: "4 + of_nat (length (enc_msgs ms)) = n" unfolding assms(5) by (simp add: enc_group_def)
  show ?thesis
    unfolding macRevL1Ctrl_def
    by (cases "deliver env ms d c s") (auto simp: pos cnt c loop off)
qed

theorem group_handled_in_order_witness:
  "\<exists>s'. macRevL1Ctrl count_env 9 (enc_group 0 [(7, drop 8 error_msg), (0x85, [0, 0, 0, 0, 0, 0, 0, 0])]) 40 1 0 idle_mac
      = Inr (40, s') \<and> phyState (ctx s' 1 0) = PHY_ACTIVE"
proof -
  let ?ms = "[(7, drop 8 error_msg), (0x85, [0, 0, 0, 0, 0, 0, 0, 0])]"
  have "(case deliver count_env ?ms 1 0 idle_mac of Inr (ok, s') \<Rightarrow>
      ok \<and> phyTrace_udp (mtrace s') = False \<and> phyState (ctx s' 1 0) = PHY_ACTIVE | Inl f \<Rightarrow> False)"
    by code_simp
  then obtain s' where s': "deliver count_env ?ms 1 0 idle_mac = Inr (True, s')" "\<not> phyTrace_udp (mtrace s')"
      "phyState (ctx s' 1 0) = PHY_ACTIVE"
    by (auto split: sum.splits)
  have "length (enc_group 0 ?ms) = 40" by (simp add: enc_group_def enc_msgs_def enc_msg_def error_msg_def)
  then have "macRevL1Ctrl count_env 9 (enc_group 0 ?ms) 40 1 0 idle_mac = rbind (deliver count_env ?ms 1 0 idle_mac)
      (\<lambda>(ok, s'). if ok then rbind (addPhyTraceItem 9 40 (mtrace s')) (\<lambda>t. Inr (40, s'\<lparr>mtrace := t\<rparr>)) else Inr (40, s'))"
    by (intro group_handled_in_order) (simp_all add: error_msg_def)
  then show ?thesis using s' by (simp add: addPhyTraceItem_def)
qed

section \<open>Cells are isolated\<close>

text \<open>
  C5: Messages of the PHY for one cell never touch another. Handling a group for cell c of device d
  leaves the whole context, the request buffers and the counters of every other cell alone, their entries
  of the uplink statistics and their subcarrier spacing; of its own cell it keeps the configuration and
  the message rings. (The table of the UEs is shared, by RNTI.)
\<close>

theorem cells_isolated:
  assumes "macRevL1Ctrl env a buf n d c s = Inr (r, s')" and "c < 2" and "(d', c') \<noteq> (d, c)"
  shows "chans s' d' c' = chans s d' c' \<and>
    rd2 (sMacCellCtx (mstats s')) (unat d') (unat c') = rd2 (sMacCellCtx (mstats s)) (unat d') (unat c') \<and>
    rd2 (gcurrentScs (mstats s')) (unat d') (unat c') = rd2 (gcurrentScs (mstats s)) (unat d') (unat c') \<and>
    setup_of (chans s' d c) = setup_of (chans s d c) \<and> msgqApp (ctx s' d c) = msgqApp (ctx s d c) \<and>
    msgqH (ctx s' d c) = msgqH (ctx s d c)"
proof -
  have "confined d c s s'" by (rule endsVD [OF macRevL1Ctrl_frame assms(1)])
  moreover have "c = 0 \<or> c = 1" using assms(2) by (auto simp: word_unat_eq_iff word_less_nat_alt)
  then have "c AND 1 = c" by auto
  moreover have "(unat d', unat c') \<noteq> (unat d, unat c)" using assms(3) by (simp add: word_unat_eq_iff)
  ultimately show ?thesis using assms(3) by (simp add: confined_def stats_le_def chan_le_def)
qed

theorem cells_isolated_witness:
  "\<exists>s'. macRevL1Ctrl count_env 9 (enc_group 0 [(7, drop 8 error_msg)]) 24 1 0 idle_mac = Inr (24, s') \<and>
    chans s' 1 1 = chan_zero"
proof -
  have "(case macRevL1Ctrl count_env 9 (enc_group 0 [(7, drop 8 error_msg)]) 24 1 0 idle_mac of Inr (r, s') \<Rightarrow> r = 24 | Inl f \<Rightarrow> False)"
    by code_simp
  then obtain s' where s': "macRevL1Ctrl count_env 9 (enc_group 0 [(7, drop 8 error_msg)]) 24 1 0 idle_mac = Inr (24, s')"
    by (auto split: sum.splits)
  from cells_isolated [OF s', of 1 1] s' show ?thesis by (simp add: idle_mac_def)
qed

end
