(* ===== verification/MacSystem.thy ===== *)
theory MacSystem
  imports MacPhy
begin

text \<open>
  The MAC as a system: the state \<open>macInit\<close> leaves, the messages of the application in the ring of a
  cell, and the invariant of all states the threads reach. The functions of \<open>mac.c\<close> run under no lock of
  their own: a step of the system is one call of an entry point, by the thread of a cell
  (\<open>macRevL1Ctrl\<close>, \<open>macRevAppCtrlMsg\<close>), the application (\<open>macAppMgrSend\<close>, \<open>macStop\<close>) or the trace thread.
\<close>

section \<open>The initial state\<close>

lemma initMem_4096: "4096 \<le> length mem \<Longrightarrow>
    initMem (sint (4096 :: u32)) (Some mem) = Inr (overlay mem 0 (replicate 4096 0))"
proof -
  have "sint (4096 :: u32) = 4096" by simp
  then show "4096 \<le> length mem \<Longrightarrow> ?thesis" by (simp add: initMem_def)
qed

lemma init_fresh_ring:
  assumes "4096 \<le> length mem"
  shows "\<exists>r. init_quickMsgRing None 4096 (Some mem) = Inr (0, r) \<and> qrel r []"
proof -
  let ?z = "overlay mem 0 (replicate 4096 0)"
  have l: "length ?z = length mem" using assms by simp
  obtain r where r: "init_quickMsgRing (Some ?z) 4096 None = Inr (0, r)" "qrel r []"
    using init_ok [of 4096 ?z None] assms l by auto
  have "init_quickMsgRing None 4096 (Some mem) = Inr (0, r\<lparr>qr_flag := 0\<rparr>)"
    using r(1) initMem_4096 [OF assms] by (auto simp: init_quickMsgRing_def rbind_Inr_iff)
  moreover have "qrel (r\<lparr>qr_flag := 0\<rparr>) []" using r(2) by (auto simp: qrel_def qwf_def qshape_def qused_def split: if_splits)
  ultimately show ?thesis by blast
qed

definition slot_ready :: "chan \<Rightarrow> nat \<Rightarrow> nat \<Rightarrow> bool" where
  "slot_ready ch i j \<longleftrightarrow> has_length (gL1DLTTIReq ch i j) 65536 \<and> has_length (gL1TXDATAREQ ch i j) 4096 \<and>
     has_length (gL1ULTTI ch i j) 4096"

text \<open>What the allocation of one cell may change of it.\<close>

definition alloc_le :: "chan \<Rightarrow> chan \<Rightarrow> bool" where
  "alloc_le ch ch' \<longleftrightarrow> gMacCtx ch' = gMacCtx ch \<and> gL1ConfigRequest ch' = gL1ConfigRequest ch \<and>
     (\<forall>i j. slot_ready ch i j \<longrightarrow> slot_ready ch' i j)"

lemma put_fresh:
  "off + 2 \<le> length m \<Longrightarrow> offsetof T f = off \<Longrightarrow> \<exists>m'. put16 m 0 T f v = Inr m' \<and> length m' = length m"
  by (simp add: put16_def)

lemma upd_chan_ok: "d < 4 \<Longrightarrow> c < 2 \<Longrightarrow> upd_chan d c f s = Inr (set_chan d c (f (chans s d c)) s)"
  by (simp add: upd_chan_Inr)

lemma set_chan_set_chan [simp]: "set_chan d c ch (set_chan d c ch' s) = set_chan d c ch s"
  by (simp add: set_chan_def)

lemma default_ok:
  "length m = 65536 \<Longrightarrow> \<exists>m'. DlttiDefaultParams m = Inr m' \<and> length m' = 65536"
  "length m = 4096 \<Longrightarrow> \<exists>m'. TxdataDefaultParams m = Inr m' \<and> length m' = 4096"
  "length m = 4096 \<Longrightarrow> \<exists>m'. UlttiDefaultParams m = Inr m' \<and> length m' = 4096"
  by (simp_all add: DlttiDefaultParams_def TxdataDefaultParams_def UlttiDefaultParams_def put16_def put8_def layout)

lemma initSlot_ok:
  assumes "d < 4" and "c < 2" and "i < 4" and "j < 20"
  shows "\<exists>ch. initSlot junk d c (i, j) s = Inr (set_chan d c ch s) \<and> alloc_le (chans s d c) ch \<and> slot_ready ch i j"
proof -
  have len: "length (map junk [0..<n]) = n" for n by simp
  obtain dl0 where dl0: "put16 (map junk [0..<65536]) 0 L1DLTTIReq_t ''SFN'' (of_nat i) = Inr dl0" "length dl0 = 65536"
    using put_fresh [of 0 "map junk [0..<65536]" L1DLTTIReq_t "''SFN''"] by (auto simp: layout)
  obtain dl where dl: "put16 dl0 0 L1DLTTIReq_t ''Slot'' (of_nat j) = Inr dl" "length dl = 65536"
    using put_fresh [of 2 dl0 L1DLTTIReq_t "''Slot''"] dl0(2) by (auto simp: layout)
  obtain tx0 where tx0: "put16 (map junk [0..<4096]) 0 L1TXDATAREQ_t ''SFN'' (of_nat i) = Inr tx0" "length tx0 = 4096"
    using put_fresh [of 0 "map junk [0..<4096]" L1TXDATAREQ_t "''SFN''"] by (auto simp: layout)
  obtain tx where tx: "put16 tx0 0 L1TXDATAREQ_t ''Slot'' (of_nat j) = Inr tx" "length tx = 4096"
    using put_fresh [of 2 tx0 L1TXDATAREQ_t "''Slot''"] tx0(2) by (auto simp: layout)
  obtain ul0 where ul0: "put16 (map junk [0..<4096]) 0 L1ULTTI_t ''SFN'' (of_nat i) = Inr ul0" "length ul0 = 4096"
    using put_fresh [of 0 "map junk [0..<4096]" L1ULTTI_t "''SFN''"] by (auto simp: layout)
  obtain ul where ul: "put16 ul0 0 L1ULTTI_t ''Slot'' (of_nat j) = Inr ul" "length ul = 4096"
    using put_fresh [of 2 ul0 L1ULTTI_t "''Slot''"] ul0(2) by (auto simp: layout)
  obtain dl' tx' ul' where d: "DlttiDefaultParams dl = Inr dl'" "length dl' = 65536" "TxdataDefaultParams tx = Inr tx'"
      "length tx' = 4096" "UlttiDefaultParams ul = Inr ul'" "length ul' = 4096"
    using default_ok dl(2) tx(2) ul(2) by meson
  show ?thesis
    unfolding initSlot_def prod.case dl0 dl tx0 tx ul0 ul
    by (rule exI [of _ "chans s d c\<lparr>gL1DLTTIReq := set2 (gL1DLTTIReq (chans s d c)) i j (Some dl'),
        gL1DlttiReqSize := set2 (gL1DlttiReqSize (chans s d c)) i j 0,
        gL1TXDATAREQ := set2 (gL1TXDATAREQ (chans s d c)) i j (Some tx'),
        gL1TxdataReqSize := set2 (gL1TxdataReqSize (chans s d c)) i j 0,
        gL1ULTTI := set2 (gL1ULTTI (chans s d c)) i j (Some ul'),
        gL1UlttiReqSize := set2 (gL1UlttiReqSize (chans s d c)) i j 0\<rparr>"])
      (simp add: dl0 dl tx0 tx ul0 ul upd_chan_ok assms clearDltti_def clearTxdata_def clearUltti_def get_chan_def
        set2_apply d alloc_le_def slot_ready_def has_length_def set2_def)
qed

lemma initSlots_ok:
  assumes "d < 4" and "c < 2" and "\<forall>(i, j) \<in> set ps. i < 4 \<and> j < 20"
  shows "\<exists>ch. foreach (initSlot junk d c) ps s = Inr (set_chan d c ch s) \<and> alloc_le (chans s d c) ch \<and>
    (\<forall>(i, j) \<in> set ps. slot_ready ch i j)"
  using assms(3)
proof (induction ps arbitrary: s)
  case Nil
  have "set_chan d c (chans s d c) s = s" by (simp add: set_chan_def)
  then show ?case by (intro exI [of _ "chans s d c"]) (simp add: alloc_le_def)
next
  case (Cons p ps)
  obtain i j where p: "p = (i, j)" "i < 4" "j < 20" using Cons.prems by (cases p) auto
  obtain ch1 where 1: "initSlot junk d c (i, j) s = Inr (set_chan d c ch1 s)" "alloc_le (chans s d c) ch1" "slot_ready ch1 i j"
    using initSlot_ok [OF assms(1,2) p(2,3)] by blast
  obtain ch2 where 2: "foreach (initSlot junk d c) ps (set_chan d c ch1 s) = Inr (set_chan d c ch2 (set_chan d c ch1 s))"
      "alloc_le ch1 ch2" "\<forall>(i, j) \<in> set ps. slot_ready ch2 i j"
    using Cons.IH [of "set_chan d c ch1 s"] Cons.prems by auto
  show ?case using 1 2 by (intro exI [of _ ch2]) (auto simp: p(1) alloc_le_def)
qed

lemma initCell_ok:
  assumes "d < 4" and "c < 2"
  shows "\<exists>ch. initCell junk setup (d, c) s = Inr (set_chan d c ch s) \<and> gMacCtx ch = setup (gMacCtx (chans s d c)) \<and> bufs_wf ch"
proof -
  let ?s1 = "set_chan d c (chans s d c\<lparr>gL1ConfigRequest := Some (map junk [0..<65536])\<rparr>) s"
  have v: "\<forall>(i, j) \<in> set (slots 20). i < 4 \<and> j < 20" by (auto simp: slots_def)
  obtain ch where ch: "foreach (initSlot junk d c) (slots 20) ?s1 = Inr (set_chan d c ch ?s1)"
    "alloc_le (chans ?s1 d c) ch" "\<forall>(i, j) \<in> set (slots 20). slot_ready ch i j"
    using initSlots_ok [OF assms v] by blast
  have "bufs_wf (ch\<lparr>gMacCtx := g\<rparr>)" for g
    using ch(2,3) by (auto simp: bufs_wf_def slot_ready_def alloc_le_def slots_def has_length_def)
  then show ?thesis
    using ch by (intro exI [of _ "ch\<lparr>gMacCtx := setup (gMacCtx (chans s d c))\<rparr>"])
      (simp add: initCell_def upd_ctx_def upd_chan_ok assms alloc_le_def)
qed

text \<open>A loop over different cells that always succeeds and establishes \<open>P\<close> for each.\<close>

definition only_cells :: "(u8 \<times> u8) set \<Rightarrow> 'e mac \<Rightarrow> 'e mac \<Rightarrow> bool" where
  "only_cells S s s' \<longleftrightarrow> (\<exists>f. s' = s\<lparr>chans := f\<rparr>) \<and> (\<forall>d c. (d, c) \<notin> S \<longrightarrow> chans s' d c = chans s d c)"

lemma over_cells:
  assumes "\<And>d c s. (d, c) \<in> set ps \<Longrightarrow> \<exists>ch. f (d, c) s = Inr (set_chan d c ch s) \<and> P (chans s d c) ch"
    and "distinct ps"
  shows "\<exists>s'. foreach f ps s = Inr s' \<and> only_cells (set ps) s s' \<and> (\<forall>(d, c) \<in> set ps. P (chans s d c) (chans s' d c))"
  using assms
proof (induction ps arbitrary: s)
  case Nil
  show ?case by (auto simp: only_cells_def intro: exI [of _ "chans s"])
next
  case (Cons p ps)
  obtain d c where p: "p = (d, c)" by force
  obtain ch where ch: "f (d, c) s = Inr (set_chan d c ch s)" "P (chans s d c) ch"
    using Cons.prems(1) [of d c s] p by auto
  obtain s' where s': "foreach f ps (set_chan d c ch s) = Inr s'" "only_cells (set ps) (set_chan d c ch s) s'"
    "\<forall>(d', c') \<in> set ps. P (chans (set_chan d c ch s) d' c') (chans s' d' c')"
    using Cons.IH [of "set_chan d c ch s"] Cons.prems by auto
  have other: "(d', c') \<noteq> (d, c) \<Longrightarrow> chans (set_chan d c ch s) d' c' = chans s d' c'" for d' c'
    by (auto simp: set_chan_def)
  have new: "p \<notin> set ps" using Cons.prems(2) by simp
  have "only_cells (set (p # ps)) s s'"
    using s'(2) other by (auto simp: only_cells_def p set_chan_def)
  moreover have "\<forall>(d', c') \<in> set (p # ps). P (chans s d' c') (chans s' d' c')"
  proof (intro ballI, unfold split_beta)
    fix q assume q: "q \<in> set (p # ps)"
    show "P (chans s (fst q) (snd q)) (chans s' (fst q) (snd q))"
    proof (cases "q = p")
      case True
      have "chans s' d c = ch" using s'(2) new by (simp add: only_cells_def p)
      then show ?thesis using True p ch(2) by simp
    next
      case False
      then have "q \<in> set ps" "(fst q, snd q) \<noteq> (d, c)" using q p by auto
      then show ?thesis using bspec [OF s'(3), of q] other [of "fst q" "snd q"] by (simp add: split_beta)
    qed
  qed
  ultimately show ?case using ch(1) s'(1) p by auto
qed

lemma all_cells: "d < 4 \<and> c < 2 \<longleftrightarrow> (d :: u8, c :: u8) \<in> set (List.product [0, 1, 2, 3] [0, 1])"
proof -
  have "d < 4 \<longleftrightarrow> d \<in> {0, 1, 2, 3}" and "c < 2 \<longleftrightarrow> c \<in> {0, 1}"
    by (auto simp: word_unat_eq_iff word_less_nat_alt)
  then show ?thesis by auto
qed

lemma distinct_cells: "distinct (List.product [0, 1, 2, 3 :: u8] [0, 1 :: u8])"
  by (rule distinct_product) simp_all

lemma initCtrlMgrMsgqH_ok:
  assumes "4096 \<le> length mem"
  shows "\<exists>s'. initCtrlMgrMsgqH mem s = Inr s' \<and> (\<exists>f. s' = s\<lparr>chans := f\<rparr>) \<and>
    (\<forall>d c. d < 4 \<longrightarrow> c < 2 \<longrightarrow> qrel (msgqH (ctx s' d c)) [] \<and> qrel (msgqApp (ctx s' d c)) [])"
proof -
  obtain r where r: "init_quickMsgRing None 4096 (Some mem) = Inr (0, r)" "qrel r []"
    using init_fresh_ring [OF assms] by blast
  let ?f = "\<lambda>(d, c) s. rbind (init_quickMsgRing None 4096 (Some mem)) (\<lambda>(rc, r1).
     rbind (init_quickMsgRing None 4096 (Some mem)) (\<lambda>(rc', r2).
       upd_ctx d c (\<lambda>x. x\<lparr>msgqH := r1, msgqApp := r2\<rparr>) s))"
  have "\<exists>ch. ?f (d, c) s = Inr (set_chan d c ch s) \<and> (qrel (msgqH (gMacCtx ch)) [] \<and> qrel (msgqApp (gMacCtx ch)) [])"
    if "(d, c) \<in> set (List.product [0, 1, 2, 3] [0, 1])" for d c and s :: "'a mac"
    using iffD2 [OF all_cells that] r
    by (intro exI [of _ "chans s d c\<lparr>gMacCtx := ctx s d c\<lparr>msgqH := r, msgqApp := r\<rparr>\<rparr>"]) (simp add: upd_ctx_def upd_chan_ok)
  from over_cells [where P = "\<lambda>_ ch. qrel (msgqH (gMacCtx ch)) [] \<and> qrel (msgqApp (gMacCtx ch)) []", OF this distinct_cells]
  obtain s' where s': "foreach ?f (List.product [0, 1, 2, 3] [0, 1]) s = Inr s'" "\<exists>f. s' = s\<lparr>chans := f\<rparr>"
    "\<forall>(d, c) \<in> set (List.product [0, 1, 2, 3] [0, 1]). qrel (msgqH (ctx s' d c)) [] \<and> qrel (msgqApp (ctx s' d c)) []"
    unfolding only_cells_def by blast
  show ?thesis using s'(1,2) bspec [OF s'(3) iffD1 [OF all_cells]] unfolding initCtrlMgrMsgqH_def by auto
qed

lemma init_ready:
  assumes "4096 \<le> length mem"
  shows "\<exists>s'. macInit junk mem maxT minT run oper stub pdsch per sfnm s = Inr s' \<and>
    (\<exists>f. s' = s\<lparr>chans := f, mstats := (mstats s)\<lparr>maxTimeOut := maxT, minTimeOut := minT\<rparr>\<rparr>) \<and>
    (\<forall>d c. d < 4 \<longrightarrow> c < 2 \<longrightarrow> bufs_wf (chans s' d c) \<and> qrel (msgqApp (ctx s' d c)) [] \<and> qrel (msgqH (ctx s' d c)) [] \<and>
      phyState (ctx s' d c) = PHY_IDLE \<and> schState (ctx s' d c) = SCH_STOP \<and> runMode (ctx s' d c) = run \<and>
      setup_of (chans s' d c) = (oper, stub, per, pdsch, sfnm))"
proof -
  let ?set = "\<lambda>x. x\<lparr>runMode := run, operMode := oper, phyStub := stub, pdschMode := pdsch, phyState := PHY_IDLE,
    schState := SCH_STOP, runttiPerTc := per, sfnMode := sfnm\<rparr>"
  let ?cells = "List.product [0, 1, 2, 3 :: u8] [0, 1 :: u8]"
  obtain s1 f where s1: "initCtrlMgrMsgqH mem s = Inr s1" "s1 = s\<lparr>chans := f\<rparr>"
    "\<forall>d c. d < 4 \<longrightarrow> c < 2 \<longrightarrow> qrel (msgqH (ctx s1 d c)) [] \<and> qrel (msgqApp (ctx s1 d c)) []"
    using initCtrlMgrMsgqH_ok [OF assms] by blast
  let ?s2 = "s1\<lparr>mstats := (mstats s1)\<lparr>maxTimeOut := maxT, minTimeOut := minT\<rparr>\<rparr>"
  have "\<exists>ch. initCell junk ?set (d, c) t = Inr (set_chan d c ch t) \<and> (gMacCtx ch = ?set (gMacCtx (chans t d c)) \<and> bufs_wf ch)"
    if "(d, c) \<in> set ?cells" for d c and t :: "'a mac"
    using initCell_ok [of d c junk ?set t] iffD2 [OF all_cells that] by blast
  from over_cells [where P = "\<lambda>ch ch'. gMacCtx ch' = ?set (gMacCtx ch) \<and> bufs_wf ch'", OF this distinct_cells]
  obtain s' g where s': "foreach (initCell junk ?set) ?cells ?s2 = Inr s'" "s' = ?s2\<lparr>chans := g\<rparr>"
    "\<forall>(d, c) \<in> set ?cells. gMacCtx (chans s' d c) = ?set (gMacCtx (chans ?s2 d c)) \<and> bufs_wf (chans s' d c)"
    unfolding only_cells_def by blast
  have "macInit junk mem maxT minT run oper stub pdsch per sfnm s = Inr s'" using s1(1) s'(1) by (simp add: macInit_def)
  moreover have "gMacCtx (chans s' d c) = ?set (ctx s1 d c) \<and> bufs_wf (chans s' d c)" if "d < 4" "c < 2" for d c
    using bspec [OF s'(3) iffD1 [OF all_cells]] that by auto
  moreover have "\<exists>f. s' = s\<lparr>chans := f, mstats := (mstats s)\<lparr>maxTimeOut := maxT, minTimeOut := minT\<rparr>\<rparr>"
    unfolding s'(2) s1(2) by (intro exI [of _ g]) simp
  ultimately show ?thesis using s1(3) by (auto simp: setup_of_def)
qed

text \<open>
  C14: \<open>macInit\<close> succeeds whatever malloc leaves in its blocks, and puts every cell of every device in the
  initial state: all request buffers allocated at their sizes, both message rings empty and in order,
  the PHY idle, the scheduler stopped and the configuration as given; it touches nothing else.
\<close>

theorem init_all_cells:
  assumes "4096 \<le> length mem"
  shows "\<exists>s'. macInit junk mem maxT minT run oper stub pdsch per sfnm s = Inr s' \<and>
    (\<exists>f. s' = s\<lparr>chans := f, mstats := (mstats s)\<lparr>maxTimeOut := maxT, minTimeOut := minT\<rparr>\<rparr>) \<and>
    (\<forall>d c. d < 4 \<longrightarrow> c < 2 \<longrightarrow> bufs_wf (chans s' d c) \<and> qrel (msgqApp (ctx s' d c)) [] \<and> qrel (msgqH (ctx s' d c)) [] \<and>
      phyState (ctx s' d c) = PHY_IDLE \<and> schState (ctx s' d c) = SCH_STOP \<and> runMode (ctx s' d c) = run \<and>
      setup_of (chans s' d c) = (oper, stub, per, pdsch, sfnm))"
  using assms by (rule init_ready)

theorem init_all_cells_witness:
  "\<exists>s'. macInit (\<lambda>i. 7) (replicate 5000 9) 500 100 RUNMODE_FAPI_GENERATOR AUTO True PDSCHMODE_AUTO_MODE 10 False
      (mac_zero False 0) = Inr s' \<and> phyState (ctx s' 3 1) = PHY_IDLE"
  using init_all_cells [of "replicate 5000 9" "\<lambda>i. 7" 500 100 RUNMODE_FAPI_GENERATOR AUTO True PDSCHMODE_AUTO_MODE 10
      False "mac_zero False 0"] by auto

section \<open>The messages of the application\<close>

lemma Unpack_Inr:
  assumes "qrel r q" and "QuickMsgRingRecvMsgWithUnpackFunc r f s = Inr (rc, s', r')"
  shows "q = [] \<and> rc = 0 \<and> s' = s \<and> qrel r' [] \<or> (\<exists>m q0. q = m # q0 \<and> length m < 2 ^ 32 \<and>
    f s m (of_nat (length m)) = Inr (rc, s') \<and> qrel r' (if rc = 0 then q0 else q))"
proof (cases q)
  case Nil
  then show ?thesis using Unpack_empty [of r f s] assms by auto
next
  case (Cons m q0)
  from recv_one [OF assms(1)] Cons obtain pl r1 where
    b: "QuickMsgRingBeginRecvMsg r = Inr ([pl], r1)" "qr_payload r1 pl = Inr m" "unat (snd pl) = length m"
    by auto
  have len: "length m < 2 ^ 32" using unat_u32_lt [of "snd pl"] b(3) by simp
  have "of_nat (unat (snd pl)) = snd pl" by simp
  then have "snd pl = of_nat (length m)" using b(3) by simp
  then have f: "f s m (of_nat (length m)) = Inr (rc, s')"
    using assms(2) b by (auto simp: QuickMsgRingRecvMsgWithUnpackFunc_def rbind_Inr_iff split: if_splits)
  have "qrel r (m # q0)" using assms(1) Cons by simp
  from Unpack_head [OF this, of f s, OF f] assms(2) Cons f len show ?thesis by auto
qed

definition app_known :: "u16 set" where
  "app_known = {ctrl_id APP_TC_CONFIG_CASE, ctrl_id APP_TC_DL_CASE, ctrl_id APP_TC_UL_CASE, ctrl_id APP_TC_TX_CASE,
     ctrl_id APP_TX_CASE, ctrl_id APP_TC_STOP, ctrl_id APP_START_TEST}"

text \<open>The handler's answer depends on the identifier only; a message it does not know changes nothing.\<close>

lemma app_answer:
  assumes "appMgrMsgqHRecv env fs s m n = Inr (rc, s')"
  shows "if ucast (m ! 0) \<in> app_known then rc = 0 else rc = - 1 \<and> s' = s"
proof -
  obtain msg where msg: "ctrl_of_words m = Inr msg" using assms by (auto simp: appMgrMsgqHRecv_def rbind_Inr_iff)
  then have id: "cm_msgId msg = ucast (m ! 0)" by (auto simp: ctrl_of_words_def split: if_splits)
  show ?thesis
    using assms by (auto simp: appMgrMsgqHRecv_def rbind_Inr_iff msg id app_known_def Let_def split: if_splits)
qed

lemma app_unknown:
  assumes "5 \<le> length m" and "length m < 2 ^ 32" and "ucast (m ! 0) \<notin> app_known"
  shows "appMgrMsgqHRecv env fs s m (of_nat (length m)) = Inr (- 1, s)"
proof -
  have "0 < (of_nat (length m) :: u32)"
    unfolding word_less_nat_alt unat_of_nat_u32 [OF assms(2)] using assms(1) by (cases m) simp_all
  then show ?thesis using assms by (simp add: appMgrMsgqHRecv_def ctrl_of_words_def app_known_def Let_def)
qed

lemma macRevAppCtrlMsg_Inr:
  assumes "macRevAppCtrlMsg env fs d c s = Inr s'"
  obtains rc t r where "d < 4" and "c < 2" and "s' = set_chan d c (chans t d c\<lparr>gMacCtx := (ctx t d c)\<lparr>msgqApp := r\<rparr>\<rparr>) t"
    and "QuickMsgRingRecvMsgWithUnpackFunc (msgqApp (ctx s d c)) (appMgrMsgqHRecv env fs) s = Inr (rc, t, r)"
  using assms by (auto simp: macRevAppCtrlMsg_def upd_ctx_def upd_chan_Inr rbind_Inr_iff get_chan_Inr)

text \<open>
  C26: What becomes of a message of the application. When the thread of a cell has polled its ring, the
  message at the front has left the ring if and only if its identifier is one of the seven the handler
  knows; another identifier leaves the message at the front and the rest of the state as it was.
\<close>

theorem app_message_consumed_iff_known:
  assumes "macRevAppCtrlMsg env fs d c s = Inr s'" and "qrel (msgqApp (ctx s d c)) (m # q)"
  shows "if ucast (m ! 0) \<in> app_known then qrel (msgqApp (ctx s' d c)) q
    else qrel (msgqApp (ctx s' d c)) (m # q) \<and> lib s' = lib s \<and> blocks s' = blocks s \<and> mstats s' = mstats s \<and>
      appCellNum s' = appCellNum s \<and> (\<forall>d' c'. (d', c') \<noteq> (d, c) \<longrightarrow> chans s' d' c' = chans s d' c')"
proof -
  obtain rc t r where s': "s' = set_chan d c (chans t d c\<lparr>gMacCtx := (ctx t d c)\<lparr>msgqApp := r\<rparr>\<rparr>) t"
    and run: "QuickMsgRingRecvMsgWithUnpackFunc (msgqApp (ctx s d c)) (appMgrMsgqHRecv env fs) s = Inr (rc, t, r)"
    using assms(1) by (rule macRevAppCtrlMsg_Inr)
  have h: "appMgrMsgqHRecv env fs s m (of_nat (length m)) = Inr (rc, t)" "qrel r (if rc = 0 then q else m # q)"
    using Unpack_Inr [OF assms(2) run] by auto
  show ?thesis using app_answer [OF h(1)] h(2) by (auto simp: s' set_chan_def split: if_splits)
qed

text \<open>One poll of a ring whose first message is unknown.\<close>

lemma unknown_poll:
  assumes "d < 4" and "c < 2" and "qrel (msgqApp (ctx s d c)) (m # q)" and "5 \<le> length m"
    and "ucast (m ! 0) \<notin> app_known"
  shows "\<exists>s'. macRevAppCtrlMsg env fs d c s = Inr s' \<and> qrel (msgqApp (ctx s' d c)) (m # q) \<and>
    lib s' = lib s \<and> mstats s' = mstats s"
proof -
  from recv_one [OF assms(3)] obtain pl :: "nat \<times> u32" where "unat (snd pl) = length m" by auto
  then have len: "length m < 2 ^ 32" using unat_u32_lt [of "snd pl"] by simp
  from Unpack_head [where f = "appMgrMsgqHRecv env fs" and s = s, OF assms(3) app_unknown [OF assms(4) len assms(5)]]
  obtain r where r: "QuickMsgRingRecvMsgWithUnpackFunc (msgqApp (ctx s d c)) (appMgrMsgqHRecv env fs) s = Inr (- 1, s, r)"
    "qrel r (m # q)" by auto
  let ?s1 = "set_chan d c (chans s d c\<lparr>gMacCtx := (ctx s d c)\<lparr>msgqApp := r\<rparr>\<rparr>) s"
  have "macRevAppCtrlMsg env fs d c s = Inr ?s1"
    using assms(1,2) r(1) by (simp add: macRevAppCtrlMsg_def get_chan_def upd_ctx_def upd_chan_ok)
  moreover have "mstats ?s1 = mstats s" by (simp add: set_chan_def)
  ultimately show ?thesis using r(2) by auto
qed

text \<open>
  A message with an unknown identifier (\<open>APP_SIM_TTI\<close> and \<open>APP_STOP_TEST\<close> of the interface are two)
  blocks its ring for good: however often the cell polls, each poll returns, the message stays at the
  front, and no message behind it is ever handled.
\<close>

theorem unknown_app_message_blocks:
  assumes "d < 4" and "c < 2" and "qrel (msgqApp (ctx s d c)) (m # q)" and "5 \<le> length m"
    and "ucast (m ! 0) \<notin> app_known"
  shows "\<exists>s'. foreach (\<lambda>_. macRevAppCtrlMsg env fs d c) (replicate k ()) s = Inr s' \<and>
    qrel (msgqApp (ctx s' d c)) (m # q) \<and> lib s' = lib s \<and> mstats s' = mstats s"
  using assms(3)
proof (induction k arbitrary: s)
  case (Suc k)
  from unknown_poll [OF assms(1,2) Suc.prems assms(4,5), of env fs] obtain s1 where
    "macRevAppCtrlMsg env fs d c s = Inr s1" "qrel (msgqApp (ctx s1 d c)) (m # q)" "lib s1 = lib s" "mstats s1 = mstats s"
    by blast
  then show ?case using Suc.IH [of s1] by auto
qed simp

text \<open>A state with one message in its rings.\<close>

definition ring_with :: "u32 \<Rightarrow> qring" where
  "ring_with i = qring_zero\<lparr>qr_buf := [5, i, 0, 0, 1, 0] @ replicate 10 0, qr_size := 16, qr_flag := 1,
     qr_emptyFlag := 1, qr_in := 6, qr_nextIn := 6\<rparr>"

definition app_mac :: "u32 \<Rightarrow> nat mac" where
  "app_mac i = idle_mac\<lparr>chans := (\<lambda>d c. chan_zero\<lparr>gMacCtx := (gMacCtx chan_zero)\<lparr>msgqApp := ring_with i\<rparr>\<rparr>)\<rparr>"

lemma ring_with_rel: "qrel (ring_with i) [[i, 0, 0, 1, 0]]"
  by (simp add: ring_with_def qring_zero_def qrel_def qwf_def qshape_def qused_def qdec_def qhead_def upt_rec)

lemma app_mac_ring: "msgqApp (ctx (app_mac i) d c) = ring_with i"
  by (simp add: app_mac_def)

theorem app_message_consumed_iff_known_witness:
  "\<exists>s'. macRevAppCtrlMsg count_env (\<lambda>_. None) 1 0 (app_mac 109) = Inr s' \<and> qrel (msgqApp (ctx s' 1 0)) []"
proof -
  have "(case macRevAppCtrlMsg count_env (\<lambda>_. None) 1 0 (app_mac 109) of Inr s' \<Rightarrow> True | Inl f \<Rightarrow> False)"
    by code_simp
  then obtain s' where s': "macRevAppCtrlMsg count_env (\<lambda>_. None) 1 0 (app_mac 109) = Inr s'"
    by (auto split: sum.splits)
  have "qrel (msgqApp (ctx (app_mac 109) 1 0)) [[109, 0, 0, 1, 0]]" using ring_with_rel app_mac_ring by simp
  from app_message_consumed_iff_known [OF s' this] s' show ?thesis by (simp add: app_known_def)
qed

theorem unknown_app_message_blocks_witness:
  "\<exists>s'. foreach (\<lambda>_. macRevAppCtrlMsg count_env (\<lambda>_. None) 1 0) (replicate 50 ()) (app_mac 101) = Inr s' \<and>
    qrel (msgqApp (ctx s' 1 0)) [[101, 0, 0, 1, 0]] \<and> lib s' = 0"
proof -
  have "qrel (msgqApp (ctx (app_mac 101) 1 0)) [[101, 0, 0, 1, 0]]" using ring_with_rel app_mac_ring by simp
  from unknown_app_message_blocks [OF _ _ this, of count_env "\<lambda>_. None" 50] show ?thesis
    by (auto simp: app_known_def app_mac_def idle_mac_def simp del: foreach.simps)
qed

section \<open>The invariant\<close>

definition mac_inv :: "TestMacOperMode_e \<times> bool \<times> u32 \<times> TestMacPdschMode_e \<times> bool \<Rightarrow> 'e mac \<Rightarrow> bool" where
  "mac_inv cfg s \<longleftrightarrow> stats_wf (mstats s) \<and> trace_ok (mtrace s) \<and> (\<forall>d c. d < 4 \<longrightarrow> c < 2 \<longrightarrow>
     setup_of (chans s d c) = cfg \<and> bufs_wf (chans s d c) \<and> (\<exists>q. qrel (msgqApp (ctx s d c)) q) \<and>
     (\<exists>q. qrel (msgqH (ctx s d c)) q))"

lemma mac_inv_orderly: "mac_inv cfg s \<Longrightarrow> orderly s s' \<Longrightarrow> mac_inv cfg s'"
  by (auto simp: mac_inv_def orderly_def chan_le_def)

lemma mac_inv_rings:
  assumes "mac_inv cfg s" and "qrel r q" and "ch = chans s d c"
  shows "mac_inv cfg (set_chan d c (ch\<lparr>gMacCtx := (gMacCtx ch)\<lparr>msgqApp := r\<rparr>\<rparr>) s)"
    and "mac_inv cfg (set_chan d c (ch\<lparr>gMacCtx := (gMacCtx ch)\<lparr>msgqH := r\<rparr>\<rparr>) s)"
  using assms by (auto simp: mac_inv_def set_chan_def bufs_wf_def setup_of_def)

text \<open>The steps of the system: one call of an entry point.\<close>

inductive mac_step :: "'e env \<Rightarrow> files \<Rightarrow> 'e mac \<Rightarrow> 'e mac \<Rightarrow> bool" for env fs where
  receive: "macRevL1Ctrl env a buf n d c s = Inr (r, s') \<Longrightarrow> mac_step env fs s s'"
| poll: "macRevAppCtrlMsg env fs d c s = Inr s' \<Longrightarrow> mac_step env fs s s'"
| post_app: "macAppMgrSend d c bs n s = Inr s' \<Longrightarrow> unat n \<le> length bs \<Longrightarrow> mac_step env fs s s'"
| post_ctrl: "macCtrlMgrSend d c bs n s = Inr s' \<Longrightarrow> unat n \<le> length bs \<Longrightarrow> mac_step env fs s s'"
| halt: "macStop env d c s = Inr s' \<Longrightarrow> mac_step env fs s s'"
| trace_out: "phyTraceRound conn (mtrace s) = Inr (sent, t) \<Longrightarrow> mac_step env fs s (s\<lparr>mtrace := t\<rparr>)"

lemma drainLoop_items: "drainLoop conn start i n t = Inr (sent, t') \<Longrightarrow>
    tr_item t' = tr_item t \<and> tr_end t' = tr_end t \<and> tr_start t' = tr_start t"
proof (induction n arbitrary: i t sent)
  case (Suc n)
  then obtain item x where x: "drainLoop conn start (Suc i) n (snd (phyTrace conn item t)) = Inr (x, t')"
    by (auto simp: rbind_Inr_iff Let_def case_prod_beta)
  have "tr_item (snd (phyTrace conn item t)) = tr_item t \<and> tr_end (snd (phyTrace conn item t)) = tr_end t \<and>
    tr_start (snd (phyTrace conn item t)) = tr_start t" by (simp add: phyTrace_def)
  then show ?case using Suc.IH [OF x] by simp
qed simp

lemma phyTraceRound_ok: "phyTraceRound conn t = Inr (sent, t') \<Longrightarrow> trace_ok t \<Longrightarrow> trace_ok t'"
  by (auto simp: phyTraceRound_def Let_def rbind_Inr_iff trace_ok_def and31 dest: drainLoop_items split: if_splits)

lemma Send_inv:
  assumes "qrel r q" and "unat n \<le> length bs" and "QuickMsgRingSendMsg r (MsgExt bs) n = Inr (rc, r')"
  shows "\<exists>q'. qrel r' q'"
  using SendMsg_ext_rel [OF assms(1,2)] assms(3) by auto

lemma mac_step_inv:
  assumes "mac_step env fs s s'" and "mac_inv cfg s" shows "mac_inv cfg s'"
  using assms(1)
proof (cases rule: mac_step.cases)
  case (receive a buf n d c r)
  then have "orderly s s'" by (intro confined_orderly [OF endsVD [OF macRevL1Ctrl_frame]])
  then show ?thesis using assms(2) mac_inv_orderly by blast
next
  case (poll d c)
  then obtain rc t r where dc: "d < 4" "c < 2"
    and s': "s' = set_chan d c (chans t d c\<lparr>gMacCtx := (ctx t d c)\<lparr>msgqApp := r\<rparr>\<rparr>) t"
    and run: "QuickMsgRingRecvMsgWithUnpackFunc (msgqApp (ctx s d c)) (appMgrMsgqHRecv env fs) s = Inr (rc, t, r)"
    by (rule macRevAppCtrlMsg_Inr)
  obtain q where q: "qrel (msgqApp (ctx s d c)) q" using assms(2) dc unfolding mac_inv_def by blast
  have "mac_inv cfg t \<and> (\<exists>q'. qrel r q')"
    using Unpack_Inr [OF q run] assms(2) mac_inv_orderly endsVD [OF appMgrMsgqHRecv_frame] by metis
  then show ?thesis unfolding s' using mac_inv_rings(1) by blast
next
  case (post_app d c bs n)
  then obtain rc r where r: "QuickMsgRingSendMsg (msgqApp (ctx s d c)) (MsgExt bs) n = Inr (rc, r)" "d < 4" "c < 2"
    and s': "s' = set_chan d c (chans s d c\<lparr>gMacCtx := (ctx s d c)\<lparr>msgqApp := r\<rparr>\<rparr>) s"
    by (auto simp: macAppMgrSend_def rbind_Inr_iff get_chan_Inr upd_ctx_def upd_chan_Inr)
  obtain q where "qrel (msgqApp (ctx s d c)) q" using assms(2) r(2,3) unfolding mac_inv_def by blast
  then obtain q' where "qrel r q'" using Send_inv [OF _ post_app(2) r(1)] by blast
  then show ?thesis unfolding s' by (rule mac_inv_rings(1) [OF assms(2) _ refl])
next
  case (post_ctrl d c bs n)
  then obtain rc r where r: "QuickMsgRingSendMsg (msgqH (ctx s d c)) (MsgExt bs) n = Inr (rc, r)" "d < 4" "c < 2"
    and s': "s' = set_chan d c (chans s d c\<lparr>gMacCtx := (ctx s d c)\<lparr>msgqH := r\<rparr>\<rparr>) s"
    by (auto simp: macCtrlMgrSend_def rbind_Inr_iff get_chan_Inr upd_ctx_def upd_chan_Inr)
  obtain q where "qrel (msgqH (ctx s d c)) q" using assms(2) r(2,3) unfolding mac_inv_def by blast
  then obtain q' where "qrel r q'" using Send_inv [OF _ post_ctrl(2) r(1)] by blast
  then show ?thesis unfolding s' by (rule mac_inv_rings(2) [OF assms(2) _ refl])
next
  case (halt d c)
  then show ?thesis using assms(2)
    by (auto simp: macStop_def rbind_Inr_iff upd_chan_Inr mac_inv_def set_chan_def bufs_wf_def setup_of_def)
next
  case (trace_out conn sent t)
  then show ?thesis using assms(2) phyTraceRound_ok by (auto simp: mac_inv_def)
qed

text \<open>
  C2: Every state the MAC reaches from \<open>macInit\<close> is well-formed, whatever the PHY, the application and the
  library do: the statistics arrays have their shape, the trace ring its size and its indices inside,
  every request buffer is allocated at its size, both message rings of every cell are queues of whole
  messages, and the configuration of the cells is the one given to \<open>macInit\<close>.
\<close>

theorem mac_stays_well_formed:
  assumes "4096 \<le> length mem" and "macInit junk mem maxT minT run oper stub pdsch per sfnm (mac_zero udp e) = Inr s0"
    and "rtranclp (mac_step env fs) s0 s"
  shows "mac_inv (oper, stub, per, pdsch, sfnm) s"
  using assms(3)
proof (induction rule: rtranclp_induct)
  case base
  obtain s' f where s': "macInit junk mem maxT minT run oper stub pdsch per sfnm (mac_zero udp e) = Inr s'"
    "s' = (mac_zero udp e)\<lparr>chans := f, mstats := (mstats (mac_zero udp e))\<lparr>maxTimeOut := maxT, minTimeOut := minT\<rparr>\<rparr>"
    "\<forall>d c. d < 4 \<longrightarrow> c < 2 \<longrightarrow> bufs_wf (chans s' d c) \<and> qrel (msgqApp (ctx s' d c)) [] \<and> qrel (msgqH (ctx s' d c)) [] \<and>
      setup_of (chans s' d c) = (oper, stub, per, pdsch, sfnm)"
    using init_ready [OF assms(1), of junk maxT minT run oper stub pdsch per sfnm "mac_zero udp e"] by blast
  have "stats_wf (mstats s') \<and> trace_ok (mtrace s')"
    unfolding s'(2) by (simp add: mac_zero_def stats_wf_def shape2_def trace_ok_def trace0_def MAX_PHY_TRACE_ITEM_def)
  then have "mac_inv (oper, stub, per, pdsch, sfnm) s'" unfolding mac_inv_def using s'(3) by blast
  then show ?case using assms(2) s'(1) by simp
qed (rule mac_step_inv)

theorem mac_stays_well_formed_witness:
  "\<exists>s0 s. macInit (\<lambda>i. 7) (replicate 5000 9) 500 100 RUNMODE_FAPI_GENERATOR AUTO True PDSCHMODE_AUTO_MODE 10 False
      (mac_zero False 0) = Inr s0 \<and> mac_step count_env (\<lambda>_. None) s0 s \<and>
    mac_inv (AUTO, True, 10, PDSCHMODE_AUTO_MODE, False) s"
proof -
  have mem: "4096 \<le> length (replicate 5000 (9 :: u8))" by simp
  have dc: "(3 :: u8) < 4" "(1 :: u8) < 2" by simp_all
  from init_ready [OF mem, of "\<lambda>i. 7" 500 100 RUNMODE_FAPI_GENERATOR AUTO True PDSCHMODE_AUTO_MODE 10
      False "mac_zero False (0 :: nat)"] obtain s0 where
    s0: "macInit (\<lambda>i. 7) (replicate 5000 9) 500 100 RUNMODE_FAPI_GENERATOR AUTO True PDSCHMODE_AUTO_MODE 10 False
      (mac_zero False (0 :: nat)) = Inr s0" "qrel (msgqApp (ctx s0 3 1)) []" using dc by blast
  from Unpack_empty [OF s0(2), where f = "appMgrMsgqHRecv count_env (\<lambda>_. None)" and s = s0] obtain r where
    "QuickMsgRingRecvMsgWithUnpackFunc (msgqApp (ctx s0 3 1)) (appMgrMsgqHRecv count_env (\<lambda>_. None)) s0 = Inr (0, s0, r)"
    by blast
  then obtain s where "macRevAppCtrlMsg count_env (\<lambda>_. None) 3 1 s0 = Inr s"
    by (simp add: macRevAppCtrlMsg_def get_chan_def upd_ctx_def upd_chan_ok)
  then have st: "mac_step count_env (\<lambda>_. None) s0 s" by (rule mac_step.poll)
  then have "rtranclp (mac_step count_env (\<lambda>_. None)) s0 s" by (rule r_into_rtranclp)
  from mac_stays_well_formed [OF mem s0(1) this] st s0(1) show ?thesis by blast
qed

end
