(* ===== verification/CString.thy ===== *)
theory CString
  imports Prelude
begin

text \<open>
  Strings of C: the functions of the C library that the program calls on them, numbers as text, and the bounded
  copies of \<open>common/inc/cmmMem.h\<close>. A string is the list of its characters, without the final zero; a buffer is a
  list of as many characters as the array has.
\<close>

section \<open>Strings of C\<close>

definition strtok :: "string \<Rightarrow> string \<Rightarrow> (string \<times> string) option" where
  "strtok seps s =
     (let t = dropWhile (\<lambda>x. x \<in> set seps) s in
      if t = [] then None
      else Some (takeWhile (\<lambda>x. x \<notin> set seps) t, drop 1 (dropWhile (\<lambda>x. x \<notin> set seps) t)))"

definition chr_space :: "char \<Rightarrow> bool" where
  "chr_space x \<longleftrightarrow> x = CHR 0x20 \<or> (9 \<le> (of_char x :: nat) \<and> (of_char x :: nat) \<le> 13)"

definition chr_digit :: "char \<Rightarrow> nat" where
  "chr_digit x =
     (let n = of_char x in
      if 48 \<le> n \<and> n \<le> 57 then n - 48
      else if 97 \<le> n \<and> n \<le> 122 then n - 87
      else if 65 \<le> n \<and> n \<le> 90 then n - 55
      else 99)"

definition chr_lower :: "char \<Rightarrow> char" where
  "chr_lower x = (let n = of_char x in if 65 \<le> n \<and> n \<le> 90 then char_of (n + 32 :: nat) else x)"

definition strcasecmp0 :: "string \<Rightarrow> string \<Rightarrow> bool" where
  "strcasecmp0 a b \<longleftrightarrow> map chr_lower a = map chr_lower b"

definition num_of :: "nat \<Rightarrow> string \<Rightarrow> nat" where
  "num_of b ds = foldl (\<lambda>n x. n * b + chr_digit x) 0 ds"

definition has_hex :: "string \<Rightarrow> bool" where
  "has_hex s = (case s of x # y # z # _ \<Rightarrow> x = CHR ''0'' \<and> (y = CHR ''x'' \<or> y = CHR ''X'') \<and> chr_digit z < 16 | _ \<Rightarrow> False)"

text \<open>The value and what follows the number, as \<open>strtoul\<close> gives them for base 0, 10 or 16.\<close>

definition strtoul :: "nat \<Rightarrow> string \<Rightarrow> u64 \<times> string" where
  "strtoul base s =
     (let s1 = dropWhile chr_space s;
          sgn = (s1 \<noteq> [] \<and> (hd s1 = CHR ''-'' \<or> hd s1 = CHR ''+''));
          neg = (sgn \<and> hd s1 = CHR ''-'');
          s2 = (if sgn then tl s1 else s1);
          b = (if base \<noteq> 0 then base else if has_hex s2 then 16
               else if s2 \<noteq> [] \<and> hd s2 = CHR ''0'' then 8 else 10);
          s3 = (if b = 16 \<and> has_hex s2 then drop 2 s2 else s2);
          ds = takeWhile (\<lambda>x. chr_digit x < b) s3;
          n = num_of b ds
      in if ds = [] then (0, s)
         else (if 2 ^ 64 \<le> n then - 1 else if neg then - of_nat n else of_nat n, drop (length ds) s3))"

section \<open>Numbers as text\<close>

fun decimal :: "nat \<Rightarrow> string" where
  "decimal n = (if n < 10 then [char_of (48 + n)] else decimal (n div 10) @ [char_of (48 + n mod 10)])"

declare decimal.simps [simp del]

text \<open>For evaluation: the same with the number itself as fuel.\<close>

fun dec_fuel :: "nat \<Rightarrow> nat \<Rightarrow> string" where
  "dec_fuel 0 n = [char_of (48 + n)]"
| "dec_fuel (Suc k) n = (if n < 10 then [char_of (48 + n)] else dec_fuel k (n div 10) @ [char_of (48 + n mod 10)])"

lemma decimal_code [code]: "decimal n = dec_fuel n n"
proof -
  have small: "d < 10 \<Longrightarrow> decimal d = [char_of (48 + d)]" for d by (simp add: decimal.simps [of d])
  have "n \<le> k \<Longrightarrow> decimal n = dec_fuel k n" for k
  proof (induction n arbitrary: k rule: decimal.induct)
    case (1 n)
    show ?case
    proof (cases "n < 10")
      case False
      then obtain j where "k = Suc j" "n div 10 \<le> j" using 1(2) by (cases k) auto
      then show ?thesis using 1(1) [of j] False by (simp add: decimal.simps [of n])
    qed (cases k; use 1 small in simp)
  qed
  then show ?thesis by simp
qed

definition is_dec :: "char \<Rightarrow> bool" where
  "is_dec x \<longleftrightarrow> (48 \<le> (of_char x :: nat) \<and> (of_char x :: nat) \<le> 57)"

lemma decimal_dec: "x \<in> set (decimal n) \<Longrightarrow> is_dec x"
proof (induction n arbitrary: x rule: decimal.induct)
  case (1 n)
  show ?case
  proof (cases "n < 10")
    case True
    then show ?thesis using 1(2) by (simp add: decimal.simps [of n] is_dec_def of_char_of)
  next
    case False
    then show ?thesis using 1 by (auto simp: decimal.simps [of n] is_dec_def of_char_of)
  qed
qed

lemma decimal_nonempty: "decimal n \<noteq> []"
  by (simp add: decimal.simps [of n])

lemma decimal_zero: "hd (decimal n) = CHR ''0'' \<Longrightarrow> n = 0"
proof (induction n rule: decimal.induct)
  case (1 n)
  show ?case
  proof (cases "n < 10")
    case True
    have "char_of (48 + n) = CHR ''0''" using 1(2) True by (simp add: decimal.simps [of n])
    then have "of_char (char_of (48 + n) :: char) = (of_char (CHR ''0'') :: nat)" by simp
    then show ?thesis using True by (simp add: of_char_of)
  next
    case False
    then show ?thesis using 1 by (simp add: decimal.simps [of n] decimal_nonempty)
  qed
qed

lemma num_of_append: "num_of b (xs @ [x]) = num_of b xs * b + chr_digit x"
  by (simp add: num_of_def)

lemma num_of_decimal: "num_of 10 (decimal n) = n"
proof (induction n rule: decimal.induct)
  case (1 n)
  show ?case
  proof (cases "n < 10")
    case True
    then show ?thesis by (simp add: decimal.simps [of n] num_of_def chr_digit_def of_char_of)
  next
    case False
    moreover have "n mod 10 \<le> 9" by simp
    ultimately show ?thesis using 1
      by (simp add: decimal.simps [of n] num_of_append chr_digit_def of_char_of Let_def)
  qed
qed

lemma length_decimal: "n < 10 ^ k \<Longrightarrow> 0 < k \<Longrightarrow> length (decimal n) \<le> k"
proof (induction n arbitrary: k rule: decimal.induct)
  case (1 n)
  show ?case
  proof (cases "n < 10")
    case False
    obtain j where k: "k = Suc j" using 1(3) by (cases k) auto
    have "0 < j" using False 1(2) k by (cases j) auto
    moreover have "n div 10 < 10 ^ j" using 1(2) k by (simp add: less_mult_imp_div_less mult.commute)
    ultimately show ?thesis using 1(1) [of j] False k by (simp add: decimal.simps [of n])
  qed (use 1 in \<open>simp add: decimal.simps [of n]\<close>)
qed

lemma not_space: "is_dec x \<Longrightarrow> \<not> chr_space x"
  by (auto simp: is_dec_def chr_space_def)

lemma not_sign: "is_dec x \<Longrightarrow> x \<noteq> CHR ''-'' \<and> x \<noteq> CHR ''+'' \<and> x \<noteq> CHR ''x'' \<and> x \<noteq> CHR ''X'' \<and> x \<noteq> CHR 0x00"
  by (auto simp: is_dec_def)

lemma dec_digit: "is_dec x \<Longrightarrow> chr_digit x < 10"
  by (auto simp: is_dec_def chr_digit_def Let_def)

lemma decimal_0: "decimal 0 = ''0''"
  by code_simp

lemma has_hex_decimal: "\<not> has_hex (decimal n)"
proof
  assume "has_hex (decimal n)"
  then obtain x y z r where "decimal n = x # y # z # r" "y = CHR ''x'' \<or> y = CHR ''X''"
    by (auto simp: has_hex_def split: list.splits)
  then show False using decimal_dec [of y n] not_sign [of y] by auto
qed

lemma strtoul_decimal:
  assumes "n < 2 ^ 64" shows "strtoul 0 (decimal n) = (of_nat n, [])"
proof -
  have h: "is_dec (hd (decimal n))" using decimal_dec decimal_nonempty by (metis hd_in_set)
  have sp: "dropWhile chr_space (decimal n) = decimal n"
    using not_space [OF h] decimal_nonempty [of n] by (cases "decimal n") auto
  have ns: "hd (decimal n) \<noteq> CHR ''-'' \<and> hd (decimal n) \<noteq> CHR ''+''" using not_sign [OF h] by blast
  show ?thesis
  proof (cases "hd (decimal n) = CHR ''0''")
    case True
    then have n: "n = 0" by (rule decimal_zero)
    show ?thesis unfolding n decimal_0
      by (simp add: strtoul_def Let_def chr_space_def has_hex_def chr_digit_def num_of_def)
  next
    case False
    have all: "takeWhile (\<lambda>x. chr_digit x < 10) (decimal n) = decimal n"
      using dec_digit decimal_dec by (simp add: takeWhile_eq_all_conv)
    show ?thesis using assms
      by (simp add: strtoul_def Let_def sp ns False has_hex_decimal all num_of_decimal decimal_nonempty)
  qed
qed

section \<open>Buffers\<close>

text \<open>The string in a buffer; without a zero in it, the C functions run out of it.\<close>

definition cstr :: "string \<Rightarrow> string res" where
  "cstr b = rbind (guard (CHR 0x00 \<in> set b) OutOfRange) (\<lambda>_. Inr (takeWhile (\<lambda>x. x \<noteq> CHR 0x00) b))"

definition c_strcpy :: "string \<Rightarrow> string \<Rightarrow> string res" where
  "c_strcpy dst s = wr_block dst 0 (s @ [CHR 0x00])"

definition c_strncpy :: "string \<Rightarrow> string \<Rightarrow> nat \<Rightarrow> string res" where
  "c_strncpy dst s n = wr_block dst 0 (take n (s @ replicate n (CHR 0x00)))"

definition c_strcat :: "string \<Rightarrow> string \<Rightarrow> string res" where
  "c_strcat dst s = rbind (cstr dst) (\<lambda>d. wr_block dst (length d) (s @ [CHR 0x00]))"

definition c_strncat :: "string \<Rightarrow> string \<Rightarrow> nat \<Rightarrow> string res" where
  "c_strncat dst s n = rbind (cstr dst) (\<lambda>d. wr_block dst (length d) (take n s @ [CHR 0x00]))"

text \<open>The macros; \<open>n\<close> is the size the caller passes for the buffer, a positive number.\<close>

definition strcpySafe :: "string \<Rightarrow> string \<Rightarrow> nat \<Rightarrow> string res" where
  "strcpySafe dst s n =
     (if length s + 1 > n then rbind (c_strncpy dst s (n - 1)) (\<lambda>d. wr d (n - 1) (CHR 0x00)) else c_strcpy dst s)"

definition strcatSafe :: "string \<Rightarrow> string \<Rightarrow> nat \<Rightarrow> string res" where
  "strcatSafe dst s n =
     rbind (cstr dst) (\<lambda>d. if length d + length s + 1 > n then c_strncat dst s (n - length d) else c_strcat dst s)"

definition strncpySafe :: "string \<Rightarrow> string \<Rightarrow> nat \<Rightarrow> nat \<Rightarrow> string res" where
  "strncpySafe dst s k n = (if k > n - 1 then c_strncpy dst s (n - 1) else c_strncpy dst s k)"

definition strncatSafe :: "string \<Rightarrow> string \<Rightarrow> nat \<Rightarrow> nat \<Rightarrow> string res" where
  "strncatSafe dst s k n =
     rbind (cstr dst) (\<lambda>d. if length d + k > n - 1 then c_strncat dst s (n - length d) else c_strncat dst s k)"

lemma takeWhile_nul:
  "\<forall>x \<in> set s. x \<noteq> CHR 0x00 \<Longrightarrow> takeWhile (\<lambda>x. x \<noteq> CHR 0x00) (s @ CHR 0x00 # r) = s"
  by (induction s) auto

lemma cstr_prefix: "\<forall>x \<in> set s. x \<noteq> CHR 0x00 \<Longrightarrow> cstr (s @ CHR 0x00 # r) = Inr s"
  by (simp add: cstr_def takeWhile_nul)

lemma cstr_length: "cstr b = Inr s \<Longrightarrow> length s < length b"
proof -
  have "x \<in> set b \<Longrightarrow> length (takeWhile (\<lambda>y. y \<noteq> x) b) < length b" for x
    by (induction b) auto
  then show "cstr b = Inr s \<Longrightarrow> ?thesis" by (auto simp: cstr_def guard_def split: if_splits)
qed

text \<open>The bounded copy stays in its buffer and leaves the longest prefix of the source that fits.\<close>

lemma strcpySafe_fits:
  assumes "0 < length dst" and "\<forall>x \<in> set s. x \<noteq> CHR 0x00"
  shows "\<exists>d. strcpySafe dst s (length dst) = Inr d \<and> length d = length dst \<and> cstr d = Inr (take (length dst - 1) s)"
proof (cases "length s + 1 > length dst")
  case True
  let ?k = "length dst - 1" and ?t = "take (length dst - 1) s"
  have t: "length ?t = ?k" using True by simp
  have "take ?k (s @ replicate ?k (CHR 0x00)) = ?t" using True by simp
  then have "c_strncpy dst s ?k = Inr (overlay dst 0 ?t)" using t by (simp add: c_strncpy_def wr_block_def)
  moreover have "overlay dst 0 ?t = ?t @ drop ?k dst" unfolding overlay_def t by simp
  moreover have "(?t @ drop ?k dst)[?k := CHR 0x00] = ?t @ [CHR 0x00]"
    using assms(1) t by (simp add: list_update_append drop_Suc Cons_nth_drop_Suc [symmetric])
  ultimately have "strcpySafe dst s (length dst) = Inr (?t @ [CHR 0x00])"
    using True assms(1) t by (simp add: strcpySafe_def wr_def)
  then show ?thesis using cstr_prefix [of ?t "[]"] assms t by (auto dest: in_set_takeD)
next
  case False
  then show ?thesis using cstr_prefix [OF assms(2)]
    by (simp add: strcpySafe_def c_strcpy_def overlay_def)
qed

text \<open>
  C33: The bounded concatenation overruns its buffer exactly where it is meant to cut. Given the true size of the
  buffer, \<open>strcatSafe\<close> writes outside it if and only if the two strings and the final zero do not fit: it then
  copies as many characters as the buffer has left and puts the zero behind its end.
\<close>

theorem strcatSafe_overruns:
  assumes "cstr dst = Inr d"
  shows "strcatSafe dst s (length dst) =
    (if length dst < length d + length s + 1 then Inl OutOfRange else Inr (overlay dst (length d) (s @ [CHR 0x00])))"
  using assms cstr_length [OF assms]
  by (auto simp: strcatSafe_def c_strcat_def c_strncat_def wr_block_def)

theorem strcatSafe_overruns_witness:
  "strcatSafe (''ab'' @ [CHR 0x00, CHR 0x00]) ''cd'' (length (''ab'' @ [CHR 0x00, CHR 0x00])) = Inl OutOfRange"
  using strcatSafe_overruns [of "''ab'' @ [CHR 0x00, CHR 0x00]" "''ab''" "''cd''"] by (simp add: cstr_def)

end
