(* ===== verification/CmmMsgDesc.thy ===== *)
theory CmmMsgDesc
  imports CString L1Layout
begin

text \<open>
  The printer of described data: \<open>common/src/snprintbuf.c\<close>, \<open>common/src/cmmMsgDesc.c\<close> and the descriptions of
  \<open>common/inc/platformCfgDes.c\<close>. A description is a tree of containers and variables; the data it describes lies
  in the memory of the program, and its text is appended to a buffer of limited size. The pieces of text that the printer
  puts are those of a document, a tree that knows neither the buffer nor the indentation. A configuration of the platform
  in memory is shown to be printed as the text of its fields, cut where the buffer ends.
\<close>

section \<open>Memory\<close>

text \<open>The bytes that can be read from an address on: those up to the end of its object.\<close>

type_synonym cmem = "addr \<Rightarrow> u8 list option"

definition ld :: "cmem \<Rightarrow> addr \<Rightarrow> nat \<Rightarrow> u8 list res" where
  "ld m a n = (if a = 0 then Inl NullDeref
     else case m a of None \<Rightarrow> Inl OutOfRange
       | Some bs \<Rightarrow> if n \<le> length bs then Inr (take n bs) else Inl OutOfRange)"

definition le_num :: "u8 list \<Rightarrow> nat" where
  "le_num bs = foldr (\<lambda>b n. unat b + 256 * n) bs 0"

definition ld_num :: "cmem \<Rightarrow> addr \<Rightarrow> nat \<Rightarrow> nat res" where
  "ld_num m a n = rbind (ld m a n) (\<lambda>bs. Inr (le_num bs))"

definition ld_int :: "cmem \<Rightarrow> addr \<Rightarrow> nat \<Rightarrow> int res" where
  "ld_int m a n = rbind (ld_num m a n) (\<lambda>v. Inr (if v < 2 ^ (8 * n - 1) then int v else int v - 2 ^ (8 * n)))"

definition ld_str :: "cmem \<Rightarrow> addr \<Rightarrow> string res" where
  "ld_str m a = (if a = 0 then Inl NullDeref
     else case m a of None \<Rightarrow> Inl OutOfRange | Some bs \<Rightarrow> cstr (map (\<lambda>b. char_of (unat b)) bs))"

text \<open>The conversions of \<open>printf\<close>.\<close>

fun hexadecimal :: "nat \<Rightarrow> string" where
  "hexadecimal n = (if n < 10 then [char_of (48 + n)] else if n < 16 then [char_of (87 + n)]
     else hexadecimal (n div 16) @ hexadecimal (n mod 16))"

declare hexadecimal.simps [simp del]

text \<open>For evaluation: the same with the number itself as fuel.\<close>

fun hex_fuel :: "nat \<Rightarrow> nat \<Rightarrow> string" where
  "hex_fuel 0 n = [char_of (48 + n)]"
| "hex_fuel (Suc k) n = (if n < 10 then [char_of (48 + n)] else if n < 16 then [char_of (87 + n)]
     else hex_fuel k (n div 16) @ hex_fuel 1 (n mod 16))"

lemma hexadecimal_code [code]: "hexadecimal n = hex_fuel n n"
proof -
  have small: "d < 16 \<Longrightarrow> hexadecimal d = (if d < 10 then [char_of (48 + d)] else [char_of (87 + d)])" for d
    by (simp add: hexadecimal.simps [of d])
  have digit: "d < 16 \<Longrightarrow> hexadecimal d = hex_fuel 1 d" for d
    by (simp add: hexadecimal.simps [of d])
  have "n \<le> k \<Longrightarrow> hexadecimal n = hex_fuel k n" for k
  proof (induction n arbitrary: k rule: hexadecimal.induct)
    case (1 n)
    show ?case
    proof (cases "n < 16")
      case False
      then obtain j where "k = Suc j" "n div 16 \<le> j" using 1(3) by (cases k) auto
      then show ?thesis using 1(1) [of j] False digit [of "n mod 16"] by (simp add: hexadecimal.simps [of n])
    qed (cases k; use 1 digit small in simp)
  qed
  then show ?thesis by simp
qed

definition sdecimal :: "int \<Rightarrow> string" where
  "sdecimal i = (if i < 0 then CHR ''-'' # decimal (nat (- i)) else decimal (nat i))"

section \<open>The buffer\<close>

record CmmBuf_s =
  cb_octCnt :: u32
  cb_offset :: u32
  cb_data :: string

text \<open>
  \<open>snprintfBuf\<close> with the text its format gives. Each step of indentation writes four spaces and a zero;
  \<open>vsnprintf\<close> writes what fits before the last 101 bytes, and returns the length of the whole text, or -1
  when that is not an \<open>int\<close>.
\<close>

fun indent :: "nat \<Rightarrow> CmmBuf_s \<Rightarrow> CmmBuf_s res" where
  "indent 0 b = Inr b"
| "indent (Suc n) b =
     rbind (wr_block (cb_data b) (unat (cb_offset b)) (''    '' @ [CHR 0x00])) (\<lambda>d.
       indent n (b\<lparr>cb_data := d, cb_offset := cb_offset b + 4\<rparr>))"

definition vsnprintf :: "string \<Rightarrow> nat \<Rightarrow> nat \<Rightarrow> string \<Rightarrow> (int \<times> string) res" where
  "vsnprintf d off n s =
     rbind (if n = 0 then Inr d else wr_block d off (take (n - 1) s @ [CHR 0x00])) (\<lambda>d.
       Inr (if length s < 2 ^ 31 then int (length s) else - 1, d))"

definition snprintfBuf :: "CmmBuf_s \<Rightarrow> u32 \<Rightarrow> string \<Rightarrow> (int \<times> CmmBuf_s) res" where
  "snprintfBuf b spare s =
     (if cb_offset b + 4 * spare \<ge> cb_octCnt b - 100 then Inr (- 1, b)
      else rbind (indent (unat spare) b) (\<lambda>b.
        if cb_octCnt b \<le> cb_offset b then Inr (- 1, b)
        else rbind (vsnprintf (cb_data b) (unat (cb_offset b)) (unat (cb_octCnt b - cb_offset b - 101)) s) (\<lambda>(rev, d).
          Inr (rev, b\<lparr>cb_data := d,
            cb_offset := (if rev > 0 then cb_offset b + of_int rev else cb_octCnt b)\<rparr>))))"

definition emit :: "CmmBuf_s \<Rightarrow> u32 \<Rightarrow> string \<Rightarrow> CmmBuf_s res" where
  "emit b spare s = rbind (snprintfBuf b spare s) (\<lambda>(rev, b). Inr b)"

section \<open>Descriptions\<close>

datatype VarType_e = T_UINT | T_INT | T_I64 | T_U64 | T_I32 | T_U32 | T_I16 | T_U16 | T_I8 | T_U8 | T_CHAR | T_BOOL
  | T_OCTARR28 | T_OCTSTR | T_BITARR64 | T_BITSTR | T_PDU | T_TYPE

datatype ContainerType_e = T_CHOICE | T_ENUM | T_STRUCT | T_REF | T_ALIAS

datatype VarOption_e = VAR_DATA | VAR_DATA_P | VAR_ARRAY_F | VAR_ARRAY_VF | VAR_ARRAY_V | VAR_ARRAY_P
  | VAR_PARRAY_F | VAR_PARRAY_VF | VAR_PARRAY_V | VAR_PARRAY_P | VAR_DATA_PP

datatype ContainerTypeDef_s = ContainerTypeDef
    (cd_name: string) (cd_type: ContainerType_e) (cd_size: u32) (cd_aliasType: VarType_e)
    (cd_ref: "ContainerTypeDef_s option") (cd_varCnt: u32) (cd_var: "VarDesc_s list")
  and VarDesc_s = VarDesc
    (vd_name: string) (vd_type: VarType_e) (vd_def: "ContainerTypeDef_s option") (vd_offset: nat)
    (vd_option: VarOption_e) (vd_aCnt: u32)

text \<open>The types below \<open>T_OCTARR28\<close>, and the options above \<open>VAR_DATA_P\<close>.\<close>

definition is_scalar :: "VarType_e \<Rightarrow> bool" where
  "is_scalar t \<longleftrightarrow> t \<notin> {T_OCTARR28, T_OCTSTR, T_BITARR64, T_BITSTR, T_PDU, T_TYPE}"

fun option_num :: "VarOption_e \<Rightarrow> nat" where
  "option_num VAR_DATA = 0" | "option_num VAR_DATA_P = 1" | "option_num VAR_ARRAY_F = 2"
| "option_num VAR_ARRAY_VF = 3" | "option_num VAR_ARRAY_V = 4" | "option_num VAR_ARRAY_P = 5"
| "option_num VAR_PARRAY_F = 6" | "option_num VAR_PARRAY_VF = 7" | "option_num VAR_PARRAY_V = 8"
| "option_num VAR_PARRAY_P = 9" | "option_num VAR_DATA_PP = 10"

fun varSzT :: "VarType_e \<Rightarrow> nat" where
  "varSzT T_UINT = 4" | "varSzT T_INT = 4" | "varSzT T_I64 = 8" | "varSzT T_U64 = 8"
| "varSzT T_I32 = 4" | "varSzT T_U32 = 4" | "varSzT T_I16 = 2" | "varSzT T_U16 = 2"
| "varSzT T_I8 = 1" | "varSzT T_U8 = 1" | "varSzT T_CHAR = 1" | "varSzT T_BOOL = 4"
| "varSzT T_OCTARR28 = 32" | "varSzT T_OCTSTR = 16" | "varSzT T_BITARR64 = 12" | "varSzT T_BITSTR = 16"
| "varSzT T_PDU = 16" | "varSzT T_TYPE = 0"

section \<open>Printing values\<close>

text \<open>
  The functions of the table \<open>cmmPrintFun\<close> and the text each gives. The format of \<open>_snprintfI64\<close> ends in the
  middle of a conversion, which the C standard leaves undefined.
\<close>

fun scalar_text :: "cmem \<Rightarrow> VarType_e \<Rightarrow> addr \<Rightarrow> string res" where
  "scalar_text m T_UINT a = rbind (ld_num m a 4) (\<lambda>n. Inr (CHR '' '' # decimal n))"
| "scalar_text m T_INT a = rbind (ld_int m a 4) (\<lambda>n. Inr (CHR '' '' # sdecimal n))"
| "scalar_text m T_I64 a = Inl Undefined"
| "scalar_text m T_U64 a = rbind (ld_num m a 8) (\<lambda>n. Inr (CHR '' '' # decimal n))"
| "scalar_text m T_I32 a = rbind (ld_int m a 4) (\<lambda>n. Inr (CHR '' '' # sdecimal n))"
| "scalar_text m T_U32 a = rbind (ld_num m a 4) (\<lambda>n. Inr (CHR '' '' # decimal n))"
| "scalar_text m T_I16 a = rbind (ld_int m a 2) (\<lambda>n. Inr (CHR '' '' # sdecimal n))"
| "scalar_text m T_U16 a = rbind (ld_num m a 2) (\<lambda>n. Inr (CHR '' '' # decimal n))"
| "scalar_text m T_I8 a = rbind (ld_int m a 1) (\<lambda>n. Inr (CHR '' '' # sdecimal n))"
| "scalar_text m T_U8 a = rbind (ld_num m a 1) (\<lambda>n. Inr (CHR '' '' # decimal n))"
| "scalar_text m T_CHAR a = rbind (ld_int m a 1) (\<lambda>n. Inr (CHR '' '' # sdecimal n))"
| "scalar_text m T_BOOL a = rbind (ld_num m a 4) (\<lambda>n. Inr (if n = 0 then ''false '' else ''true ''))"
| "scalar_text m t a = Inl NullDeref"

definition cmmPrintFun :: "cmem \<Rightarrow> VarType_e \<Rightarrow> addr \<Rightarrow> u32 \<Rightarrow> CmmBuf_s \<Rightarrow> CmmBuf_s res" where
  "cmmPrintFun m t a spare out = rbind (scalar_text m t a) (emit out spare)"

definition tag :: "string \<Rightarrow> string" where
  "tag name = ''<'' @ name @ ''>''"

definition end_tag :: "string \<Rightarrow> string" where
  "end_tag name = ''</'' @ name @ ''>'' @ [CHR 0x0A]"

definition count_tag :: "string \<Rightarrow> string \<Rightarrow> string" where
  "count_tag name n = ''<'' @ name @ '' itemCnt = '' @ [CHR 0x22] @ n @ [CHR 0x22] @ ''>''"

definition nl :: string where
  "nl = [CHR 0x0A]"

definition snprintfStr :: "cmem \<Rightarrow> string \<Rightarrow> addr \<Rightarrow> u32 \<Rightarrow> CmmBuf_s \<Rightarrow> CmmBuf_s res" where
  "snprintfStr m name a spare out = rbind (ld_str m a) (\<lambda>s. emit out spare (tag name @ s @ end_tag name))"

text \<open>The bytes of an array of octets or bits: where they are, how many, and how each is printed.\<close>

definition dep_parts :: "cmem \<Rightarrow> VarType_e \<Rightarrow> addr \<Rightarrow> (nat \<times> nat \<times> addr \<times> (nat \<Rightarrow> string)) res" where
  "dep_parts m t a =
     rbind (ld_num m a 4) (\<lambda>n.
     let bits = unat ((of_nat n + 7 :: u32) div 8); hex = (\<lambda>b. hexadecimal b @ '' ''); dec = (\<lambda>b. decimal b @ '' '') in
     case t of
       T_OCTARR28 \<Rightarrow> Inr (n, n, a + 4, hex)
     | T_OCTSTR \<Rightarrow> rbind (ld_num m (a + 8) 8) (\<lambda>p. Inr (n, n, p, hex))
     | T_PDU \<Rightarrow> rbind (ld_num m (a + 8) 8) (\<lambda>p. Inr (n, n, p, hex))
     | T_BITARR64 \<Rightarrow> Inr (n, bits, a + 4, dec)
     | T_BITSTR \<Rightarrow> rbind (ld_num m (a + 8) 8) (\<lambda>p. Inr (n, bits, p, dec))
     | _ \<Rightarrow> Inl NullDeref)"

definition print_parts ::
    "cmem \<Rightarrow> string \<Rightarrow> nat \<times> nat \<times> addr \<times> (nat \<Rightarrow> string) \<Rightarrow> u32 \<Rightarrow> CmmBuf_s \<Rightarrow> CmmBuf_s res" where
  "print_parts m name parts spare out =
     (case parts of (n, k, p, f) \<Rightarrow>
     rbind (emit out spare (count_tag name (decimal n))) (\<lambda>out.
     rbind (foreach (\<lambda>i out. rbind (ld_num m (p + i) 1) (\<lambda>b. emit out 0 (f b))) [0..<k] out) (\<lambda>out.
       emit out 0 (end_tag name))))"

definition depPrintf :: "cmem \<Rightarrow> VarType_e \<Rightarrow> string \<Rightarrow> addr \<Rightarrow> u32 \<Rightarrow> CmmBuf_s \<Rightarrow> CmmBuf_s res" where
  "depPrintf m t name a spare out = rbind (dep_parts m t a) (\<lambda>parts. print_parts m name parts spare out)"

section \<open>Printing described data\<close>

fun getContainerRootType :: "ContainerTypeDef_s \<Rightarrow> VarType_e" where
  "getContainerRootType (ContainerTypeDef n T_REF sz al (Some r) k vs) = getContainerRootType r"
| "getContainerRootType (ContainerTypeDef n T_ALIAS sz al r k vs) = al"
| "getContainerRootType _ = T_TYPE"

definition getVarRootType :: "VarDesc_s \<Rightarrow> VarType_e res" where
  "getVarRootType v = (if vd_type v \<noteq> T_TYPE then Inr (vd_type v)
     else case vd_def v of None \<Rightarrow> Inl AssertFail | Some d \<Rightarrow> Inr (getContainerRootType d))"

definition objSize :: "VarDesc_s \<Rightarrow> nat res" where
  "objSize v = (if vd_type v \<noteq> T_TYPE then Inr (varSzT (vd_type v))
     else case vd_def v of None \<Rightarrow> Inl NullDeref | Some d \<Rightarrow> Inr (unat (cd_size d)))"

declare foreach_cong [fundef_cong] rbind_cong [fundef_cong]

lemma sub_desc_sizes:
  "cd_ref def = Some r \<Longrightarrow> size r < size def"
  "rd (cd_var def) i = Inr v \<Longrightarrow> size v < size def"
  "vd_def v = Some d \<Longrightarrow> size d < size v"
proof -
  show "cd_ref def = Some r \<Longrightarrow> size r < size def" by (cases def) auto
  show "vd_def v = Some d \<Longrightarrow> size d < size v" by (cases v) auto
  have "x \<in> set vs \<Longrightarrow> size x \<le> size_list size vs" for x :: VarDesc_s and vs
    by (rule size_list_estimation' [OF _ order_refl])
  then show "rd (cd_var def) i = Inr v \<Longrightarrow> size v < size def"
    by (cases def) (fastforce simp: rd_def split: if_splits dest: nth_mem)
qed

text \<open>
  \<open>snprintfData\<close>, \<open>_snprintfVar\<close> and \<open>_snprintfVarItem\<close>. The arrays of variable length are read 8 bytes after
  their counter. The functions read a counter of 4 bytes at the start of any container.
\<close>

definition array_count :: "VarDesc_s \<Rightarrow> cmem \<Rightarrow> addr \<Rightarrow> nat res" where
  "array_count v m data = (if vd_option v = VAR_ARRAY_F then Inr (unat (vd_aCnt v)) else ld_num m data 4)"

definition array_item :: "VarDesc_s \<Rightarrow> cmem \<Rightarrow> addr \<Rightarrow> nat \<Rightarrow> nat \<Rightarrow> addr res" where
  "array_item v m data sz i =
     (case vd_option v of
        VAR_ARRAY_F \<Rightarrow> Inr (data + i * sz)
      | VAR_PARRAY_V \<Rightarrow> ld_num m (data + 8 + 8 * i) 8
      | VAR_PARRAY_VF \<Rightarrow> ld_num m (data + 8 + 8 * i) 8
      | _ \<Rightarrow> Inr (data + 8 + i * sz))"

definition count_text :: "string \<Rightarrow> nat \<Rightarrow> string" where
  "count_text name n = count_tag name (sdecimal (sint (of_nat n :: u32)))"

text \<open>An array of \<open>n\<close> elements; \<open>item\<close> prints one that is not a number.\<close>

definition print_array ::
    "cmem \<Rightarrow> VarDesc_s \<Rightarrow> VarType_e \<Rightarrow> nat \<Rightarrow> addr \<Rightarrow> (addr \<Rightarrow> CmmBuf_s \<Rightarrow> CmmBuf_s res) \<Rightarrow> u32 \<Rightarrow> CmmBuf_s \<Rightarrow> CmmBuf_s res" where
  "print_array m v root sz data item spare out =
     (let name = vd_name v in
      rbind (array_count v m data) (\<lambda>n.
      if vd_option v \<in> {VAR_ARRAY_VF, VAR_PARRAY_VF} \<and> n > unat (vd_aCnt v) then Inr out
      else if root = T_CHAR then rbind (array_item v m data sz 0) (\<lambda>a. snprintfStr m name a spare out)
      else if is_scalar root then
        rbind (emit out spare (count_text name n)) (\<lambda>out.
        rbind (foreach (\<lambda>i out. rbind (array_item v m data sz i) (\<lambda>a. cmmPrintFun m root a 0 out)) [0..<n] out) (\<lambda>out.
          emit out 0 (end_tag name)))
      else
        rbind (emit out spare (count_text name n @ nl)) (\<lambda>out.
        rbind (foreach (\<lambda>i out. rbind (array_item v m data sz i) (\<lambda>a. item a out)) [0..<n] out) (\<lambda>out.
          emit out spare (end_tag name)))))"

function snprintfData :: "cmem \<Rightarrow> string \<Rightarrow> ContainerTypeDef_s \<Rightarrow> addr \<Rightarrow> u32 \<Rightarrow> CmmBuf_s \<Rightarrow> CmmBuf_s res"
  and snprintfVar :: "cmem \<Rightarrow> VarDesc_s \<Rightarrow> addr \<Rightarrow> u32 \<Rightarrow> CmmBuf_s \<Rightarrow> CmmBuf_s res"
  and snprintfVarItem :: "cmem \<Rightarrow> string \<Rightarrow> VarDesc_s \<Rightarrow> addr \<Rightarrow> u32 \<Rightarrow> CmmBuf_s \<Rightarrow> CmmBuf_s res" where
  "snprintfData m name def data spare out =
     rbind (ld_num m data 4) (\<lambda>t.
     case cd_type def of
       T_REF \<Rightarrow> (case cd_ref def of None \<Rightarrow> Inl NullDeref | Some r \<Rightarrow> snprintfData m name r data spare out)
     | T_CHOICE \<Rightarrow>
         rbind (rd (cd_var def) t) (\<lambda>v.
         rbind (emit out spare (''<'' @ name @ '' type='' @ [CHR 0x22] @ vd_name v @ [CHR 0x22] @ ''>'' @ nl)) (\<lambda>out.
         rbind (snprintfVar m v (data + 4) (spare + 1) out) (\<lambda>out.
           emit out spare (end_tag name))))
     | T_ENUM \<Rightarrow>
         if t < unat (cd_varCnt def)
         then rbind (rd (cd_var def) t) (\<lambda>v. emit out spare (tag name @ vd_name v @ end_tag name))
         else emit out spare (tag name @ ''value outrange('' @ sdecimal (sint (of_nat t :: u32)) @ '')</'' @ name @ ''> '')
     | T_ALIAS \<Rightarrow>
         if is_scalar (cd_aliasType def)
         then rbind (emit out spare (tag name)) (\<lambda>out.
              rbind (cmmPrintFun m (cd_aliasType def) data 0 out) (\<lambda>out.
                emit out 0 (end_tag name)))
         else if cd_aliasType def \<noteq> T_TYPE then depPrintf m (cd_aliasType def) name data spare out
         else Inr out
     | T_STRUCT \<Rightarrow>
         rbind (emit out spare (tag name @ nl)) (\<lambda>out.
         rbind (foreach (\<lambda>i out. rbind (rd (cd_var def) i) (\<lambda>v.
                  snprintfVar m v (data + vd_offset v) (spare + 1) out)) [0..<unat (cd_varCnt def)] out) (\<lambda>out.
           emit out spare (end_tag name))))"
| "snprintfVar m v data spare out =
     rbind (getVarRootType v) (\<lambda>root.
     rbind (objSize v) (\<lambda>sz.
     let name = vd_name v in
     case vd_option v of
       VAR_DATA \<Rightarrow> snprintfVarItem m name v data spare out
     | VAR_DATA_P \<Rightarrow> rbind (ld_num m data 8) (\<lambda>p. snprintfVarItem m name v p spare out)
     | opt \<Rightarrow>
         if opt \<in> {VAR_ARRAY_F, VAR_ARRAY_V, VAR_ARRAY_VF, VAR_PARRAY_V, VAR_PARRAY_VF}
         then print_array m v root sz data (\<lambda>a out. snprintfVarItem m ''item'' v a (spare + 1) out) spare out
         else
           rbind (emit out spare (tag name @ nl)) (\<lambda>out.
           rbind (emit out (spare + 1) (''VarOption '' @ decimal (option_num opt) @ '' not be supported'')) (\<lambda>out.
             emit out spare (end_tag name)))))"
| "snprintfVarItem m name v data spare out =
     rbind (getVarRootType v) (\<lambda>root.
     if data = 0 then emit out spare (''NULL_ADDR'' @ nl)
     else if vd_option v \<noteq> VAR_DATA \<and> vd_option v \<noteq> VAR_DATA_P \<and> is_scalar root then cmmPrintFun m root data 0 out
     else if is_scalar root then
       if take 3 name = ''rev'' then Inr out
       else rbind (emit out spare (tag name)) (\<lambda>out.
            rbind (cmmPrintFun m root data 0 out) (\<lambda>out.
              emit out 0 (end_tag name)))
     else if root \<noteq> T_TYPE then depPrintf m root name data spare out
     else case vd_def v of None \<Rightarrow> Inl NullDeref | Some d \<Rightarrow> snprintfData m name d data spare out)"
  by pat_completeness auto
termination
  by (relation "measure (case_sum (\<lambda>(m, name, def, a, sp, out). 3 * size def)
      (case_sum (\<lambda>(m, v, a, sp, out). 3 * size v + 2) (\<lambda>(m, name, v, a, sp, out). 3 * size v + 1)))")
    (auto dest: sub_desc_sizes)



text \<open>For evaluation: the equations on descriptions that are constructor terms.\<close>

lemmas print_code [code] =
  snprintfData.simps [where def = "ContainerTypeDef n ty sz al ref k vs" for n ty sz al ref k vs]
  snprintfVar.simps [where v = "VarDesc n ty d off opt k" for n ty d off opt k]
  snprintfVarItem.simps [where v = "VarDesc n ty d off opt k" for n ty d off opt k]

declare snprintfData.simps [simp del] snprintfVar.simps [simp del] snprintfVarItem.simps [simp del]

section \<open>The document of described data\<close>

text \<open>
  The text as a tree. A line is indented once, its further parts follow without indentation; a block indents what
  is inside it by one step more.
\<close>

datatype doc = Line string "string list" | Bare string | Block string "doc list" string

fun render :: "u32 \<Rightarrow> doc \<Rightarrow> (u32 \<times> string) list" where
  "render sp (Line p ps) = (sp, p) # map (Pair 0) ps"
| "render sp (Bare p) = [(0, p)]"
| "render sp (Block b ds e) = (sp, b) # concat (map (render (sp + 1)) ds) @ [(sp, e)]"

definition pieces :: "u32 \<Rightarrow> doc list \<Rightarrow> (u32 \<times> string) list" where
  "pieces sp ds = concat (map (render sp) ds)"

fun rmap :: "('a \<Rightarrow> 'b res) \<Rightarrow> 'a list \<Rightarrow> 'b list res" where
  "rmap f [] = Inr []"
| "rmap f (x # xs) = rbind (f x) (\<lambda>y. rbind (rmap f xs) (\<lambda>ys. Inr (y # ys)))"

lemma rmap_cong [fundef_cong]: "xs = ys \<Longrightarrow> (\<And>x. x \<in> set ys \<Longrightarrow> f x = g x) \<Longrightarrow> rmap f xs = rmap g ys"
  by (induction ys arbitrary: xs) auto

definition doc_tag :: "string \<Rightarrow> string list \<Rightarrow> doc" where
  "doc_tag name ps = Line (tag name) (ps @ [end_tag name])"

definition doc_dep :: "cmem \<Rightarrow> VarType_e \<Rightarrow> string \<Rightarrow> addr \<Rightarrow> doc list res" where
  "doc_dep m t name a = rbind (dep_parts m t a) (\<lambda>(n, k, p, f).
     rbind (rmap (\<lambda>i. rbind (ld_num m (p + i) 1) (\<lambda>b. Inr (f b))) [0..<k]) (\<lambda>ps.
       Inr [Line (count_tag name (decimal n)) (ps @ [end_tag name])]))"

definition doc_array ::
    "cmem \<Rightarrow> VarDesc_s \<Rightarrow> VarType_e \<Rightarrow> nat \<Rightarrow> addr \<Rightarrow> (addr \<Rightarrow> doc list res) \<Rightarrow> doc list res" where
  "doc_array m v root sz a item =
     (let name = vd_name v in
      rbind (array_count v m a) (\<lambda>n.
      if vd_option v \<in> {VAR_ARRAY_VF, VAR_PARRAY_VF} \<and> n > unat (vd_aCnt v) then Inr []
      else if root = T_CHAR then
        rbind (array_item v m a sz 0) (\<lambda>p. rbind (ld_str m p) (\<lambda>s. Inr [Line (tag name @ s @ end_tag name) []]))
      else if is_scalar root then
        rbind (rmap (\<lambda>i. rbind (array_item v m a sz i) (scalar_text m root)) [0..<n]) (\<lambda>ps.
          Inr [Line (count_text name n) (ps @ [end_tag name])])
      else
        rbind (rmap (\<lambda>i. rbind (array_item v m a sz i) item) [0..<n]) (\<lambda>dss.
          Inr [Block (count_text name n @ nl) (concat dss) (end_tag name)])))"

function doc_data :: "cmem \<Rightarrow> string \<Rightarrow> ContainerTypeDef_s \<Rightarrow> addr \<Rightarrow> doc list res"
  and doc_var :: "cmem \<Rightarrow> VarDesc_s \<Rightarrow> addr \<Rightarrow> doc list res"
  and doc_item :: "cmem \<Rightarrow> string \<Rightarrow> VarDesc_s \<Rightarrow> addr \<Rightarrow> doc list res" where
  "doc_data m name def a =
     rbind (ld_num m a 4) (\<lambda>t.
     case cd_type def of
       T_REF \<Rightarrow> (case cd_ref def of None \<Rightarrow> Inl NullDeref | Some r \<Rightarrow> doc_data m name r a)
     | T_CHOICE \<Rightarrow>
         rbind (rd (cd_var def) t) (\<lambda>v. rbind (doc_var m v (a + 4)) (\<lambda>ds.
           Inr [Block (''<'' @ name @ '' type='' @ [CHR 0x22] @ vd_name v @ [CHR 0x22] @ ''>'' @ nl) ds (end_tag name)]))
     | T_ENUM \<Rightarrow>
         if t < unat (cd_varCnt def)
         then rbind (rd (cd_var def) t) (\<lambda>v. Inr [Line (tag name @ vd_name v @ end_tag name) []])
         else Inr [Line (tag name @ ''value outrange('' @ sdecimal (sint (of_nat t :: u32)) @ '')</'' @ name @ ''> '') []]
     | T_ALIAS \<Rightarrow>
         if is_scalar (cd_aliasType def)
         then rbind (scalar_text m (cd_aliasType def) a) (\<lambda>s. Inr [doc_tag name [s]])
         else if cd_aliasType def \<noteq> T_TYPE then doc_dep m (cd_aliasType def) name a
         else Inr []
     | T_STRUCT \<Rightarrow>
         rbind (rmap (\<lambda>i. rbind (rd (cd_var def) i) (\<lambda>v. doc_var m v (a + vd_offset v))) [0..<unat (cd_varCnt def)])
           (\<lambda>dss. Inr [Block (tag name @ nl) (concat dss) (end_tag name)]))"
| "doc_var m v a =
     rbind (getVarRootType v) (\<lambda>root.
     rbind (objSize v) (\<lambda>sz.
     let name = vd_name v in
     case vd_option v of
       VAR_DATA \<Rightarrow> doc_item m name v a
     | VAR_DATA_P \<Rightarrow> rbind (ld_num m a 8) (\<lambda>p. doc_item m name v p)
     | opt \<Rightarrow>
         if opt \<in> {VAR_ARRAY_F, VAR_ARRAY_V, VAR_ARRAY_VF, VAR_PARRAY_V, VAR_PARRAY_VF}
         then doc_array m v root sz a (\<lambda>p. doc_item m ''item'' v p)
         else
           Inr [Block (tag name @ nl) [Line (''VarOption '' @ decimal (option_num opt) @ '' not be supported'') []]
             (end_tag name)]))"
| "doc_item m name v a =
     rbind (getVarRootType v) (\<lambda>root.
     if a = 0 then Inr [Line (''NULL_ADDR'' @ nl) []]
     else if vd_option v \<noteq> VAR_DATA \<and> vd_option v \<noteq> VAR_DATA_P \<and> is_scalar root
     then rbind (scalar_text m root a) (\<lambda>s. Inr [Bare s])
     else if is_scalar root then
       if take 3 name = ''rev'' then Inr [] else rbind (scalar_text m root a) (\<lambda>s. Inr [doc_tag name [s]])
     else if root \<noteq> T_TYPE then doc_dep m root name a
     else case vd_def v of None \<Rightarrow> Inl NullDeref | Some d \<Rightarrow> doc_data m name d a)"
  by pat_completeness auto
termination
  by (relation "measure (case_sum (\<lambda>(m, name, def, a). 3 * size def)
      (case_sum (\<lambda>(m, v, a). 3 * size v + 2) (\<lambda>(m, name, v, a). 3 * size v + 1)))")
    (auto dest: sub_desc_sizes)

lemmas doc_code [code] =
  doc_data.simps [where def = "ContainerTypeDef n ty sz al ref k vs" for n ty sz al ref k vs]
  doc_var.simps [where v = "VarDesc n ty d off opt k" for n ty d off opt k]
  doc_item.simps [where v = "VarDesc n ty d off opt k" for n ty d off opt k]

declare doc_data.simps [simp del] doc_var.simps [simp del] doc_item.simps [simp del]

section \<open>The printer prints the document\<close>

definition emits :: "(u32 \<times> string) list \<Rightarrow> CmmBuf_s \<Rightarrow> CmmBuf_s res" where
  "emits = foreach (\<lambda>(sp, s) b. emit b sp s)"

text \<open>
  A buffer of at least 100 bytes; its offset may have run past its end. The last 100 bytes of the buffer are never
  written.
\<close>

definition buf_ok :: "CmmBuf_s \<Rightarrow> bool" where
  "buf_ok b \<longleftrightarrow> 100 \<le> unat (cb_octCnt b) \<and> unat (cb_octCnt b) \<le> 2 ^ 30 \<and> unat (cb_octCnt b) \<le> length (cb_data b) \<and>
     unat (cb_offset b) < 3 * 2 ^ 30"

definition tail_kept :: "CmmBuf_s \<Rightarrow> CmmBuf_s \<Rightarrow> bool" where
  "tail_kept b b' \<longleftrightarrow> cb_octCnt b' = cb_octCnt b \<and> length (cb_data b') = length (cb_data b) \<and>
     drop (unat (cb_octCnt b) - 100) (cb_data b') = drop (unat (cb_octCnt b) - 100) (cb_data b)"

interpretation tail: step_frame tail_kept
  by unfold_locales (auto simp: tail_kept_def)

definition written :: "CmmBuf_s \<Rightarrow> string" where
  "written b = take (unat (cb_offset b)) (cb_data b)"

lemma drop_overlay:
  "i + length ys \<le> k \<Longrightarrow> i + length ys \<le> length xs \<Longrightarrow> drop k (overlay xs i ys) = drop k xs"
  by (rule nth_equalityI) (auto simp: nth_overlay_out)

lemma indent_ok:
  assumes "buf_ok b" and "unat (cb_offset b) + 4 * n < unat (cb_octCnt b) - 100"
  shows "\<exists>b'. indent n b = Inr b' \<and> buf_ok b' \<and> tail_kept b b' \<and> unat (cb_offset b') = unat (cb_offset b) + 4 * n \<and>
    written b' = written b @ replicate (4 * n) (CHR '' '')"
  using assms
proof (induction n arbitrary: b)
  case (Suc n)
  let ?d = "overlay (cb_data b) (unat (cb_offset b)) (''    '' @ [CHR 0x00])"
  let ?b = "b\<lparr>cb_data := ?d, cb_offset := cb_offset b + 4\<rparr>"
  have fit: "unat (cb_offset b) + 5 \<le> length (cb_data b)" using Suc.prems by (auto simp: buf_ok_def)
  then have d: "wr_block (cb_data b) (unat (cb_offset b)) (''    '' @ [CHR 0x00]) = Inr ?d" by (simp add: wr_block_def)
  have off: "unat (cb_offset b + 4) = unat (cb_offset b) + 4"
    using Suc.prems by (subst unat_plus_simple [THEN iffD1]) (auto simp: buf_ok_def word_le_nat_alt unat_word_ariths)
  have "drop (unat (cb_octCnt b) - 100) ?d = drop (unat (cb_octCnt b) - 100) (cb_data b)"
    using Suc.prems fit by (intro drop_overlay) auto
  then have t: "tail_kept b ?b" using fit by (simp add: tail_kept_def)
  have "buf_ok ?b" using Suc.prems fit off by (auto simp: buf_ok_def)
  from Suc.IH [OF this] Suc.prems off obtain b' where b': "indent n ?b = Inr b'" "buf_ok b'" "tail_kept ?b b'"
    "unat (cb_offset b') = unat (cb_offset b) + 4 * Suc n" "written b' = written ?b @ replicate (4 * n) (CHR '' '')" by auto
  have "written ?b = written b @ replicate 4 (CHR '' '')"
    using fit by (simp add: written_def off overlay_def numeral_eq_Suc)
  then have "written b' = written b @ replicate (4 * Suc n) (CHR '' '')"
    using b'(5) by (simp flip: replicate_add)
  then show ?case using d t tail.trans [OF t b'(3)] b'(1,2,4) by auto
qed (simp add: tail.refl)

lemma off_le: "buf_ok b \<Longrightarrow> unat sp < 2 ^ 26 \<Longrightarrow> unat (cb_offset b + 4 * sp) = unat (cb_offset b) + 4 * unat sp"
proof -
  assume a: "buf_ok b" "unat sp < 2 ^ 26"
  have "unat (4 * sp) = 4 * unat sp" using a(2) by (simp add: unat_word_ariths)
  then show ?thesis using a by (simp add: unat_word_ariths buf_ok_def)
qed

lemma vsnprintf_ok:
  assumes "off + length ys \<le> length d" and "ys = (if n = 0 then [] else take (n - 1) s @ [CHR 0x00])"
  shows "vsnprintf d off n s = Inr (if length s < 2 ^ 31 then int (length s) else - 1, overlay d off ys)"
proof (cases "n = 0")
  case True
  then have "overlay d off ys = d" using assms(2) by (simp add: overlay_def)
  then show ?thesis using True by (simp add: vsnprintf_def)
next
  case False
  then show ?thesis using assms by (simp add: vsnprintf_def)
qed

text \<open>With indentation that is not absurd, a piece of text is written without a fault, in the buffer.\<close>

definition piece_put :: "CmmBuf_s \<Rightarrow> nat \<Rightarrow> string \<Rightarrow> CmmBuf_s \<Rightarrow> bool" where
  "piece_put b n s b' \<longleftrightarrow>
     (let i = unat (cb_offset b) + n; w = unat (cb_octCnt b) - 102 - i in
      if unat (cb_octCnt b) - 100 \<le> i then b' = b
      else take (i + min w (length s)) (cb_data b') = take (unat (cb_offset b)) (cb_data b) @ replicate n (CHR '' '') @ take w s \<and>
        (s \<noteq> [] \<longrightarrow> unat (cb_offset b') = (if length s < 2 ^ 31 then i + length s else unat (cb_octCnt b))))"

lemma snprintfBuf_ok:
  assumes "buf_ok b" and "unat sp < 2 ^ 26"
  shows "\<exists>r b'. snprintfBuf b sp s = Inr (r, b') \<and> buf_ok b' \<and> tail_kept b b' \<and> piece_put b (4 * unat sp) s b'"
proof -
  have lim: "unat (cb_octCnt b - 100) = unat (cb_octCnt b) - 100"
    using assms(1) by (subst unat_sub) (simp_all add: buf_ok_def word_le_nat_alt)
  show ?thesis
  proof (cases "cb_offset b + 4 * sp \<ge> cb_octCnt b - 100")
    case True
    then have "unat (cb_octCnt b) - 100 \<le> unat (cb_offset b) + 4 * unat sp"
      using off_le [OF assms] lim by (simp add: word_le_nat_alt)
    then show ?thesis using assms True by (auto simp: snprintfBuf_def tail.refl piece_put_def)
  next
    case False
    have "unat (cb_offset b) + 4 * unat sp < unat (cb_octCnt b) - 100"
      using False off_le [OF assms] lim by (simp add: word_less_nat_alt not_le)
    from indent_ok [OF assms(1) this] obtain b1 where b1: "indent (unat sp) b = Inr b1" "buf_ok b1" "tail_kept b b1"
      "unat (cb_offset b1) < unat (cb_octCnt b1) - 100" "unat (cb_offset b1) = unat (cb_offset b) + 4 * unat sp"
      "written b1 = written b @ replicate (4 * unat sp) (CHR '' '')"
      using \<open>unat (cb_offset b) + 4 * unat sp < unat (cb_octCnt b) - 100\<close> by (auto simp: tail_kept_def)
    let ?o = "unat (cb_offset b1)" and ?n = "unat (cb_octCnt b1 - cb_offset b1 - 101)"
    have n: "?n = unat (cb_octCnt b1) - ?o - 101"
    proof -
      have "unat (cb_octCnt b1 - cb_offset b1) = unat (cb_octCnt b1) - ?o"
        using b1(4) by (subst unat_sub) (simp_all add: word_le_nat_alt)
      then show ?thesis using b1(4) by (subst unat_sub) (simp_all add: word_le_nat_alt)
    qed
    define ys where "ys = (if ?n = 0 then [] else take (?n - 1) s @ [CHR 0x00])"
    define d where "d = overlay (cb_data b1) ?o ys"
    have len: "length ys \<le> ?n" by (auto simp: ys_def)
    then have fit: "?o + length ys \<le> unat (cb_octCnt b1) - 100" "?o + length ys \<le> length (cb_data b1)"
      using n b1(2,4) by (auto simp: buf_ok_def)
    have v: "vsnprintf (cb_data b1) ?o ?n s = Inr (if length s < 2 ^ 31 then int (length s) else - 1, d)"
      unfolding d_def by (rule vsnprintf_ok [OF fit(2) ys_def])
    let ?rev = "if length s < 2 ^ 31 then int (length s) else - 1"
    let ?b = "b1\<lparr>cb_data := d, cb_offset := (if ?rev > 0 then cb_offset b1 + of_int ?rev else cb_octCnt b1)\<rparr>"
    have "snprintfBuf b sp s = Inr (?rev, ?b)"
      using False b1(1,4) v by (auto simp: snprintfBuf_def word_le_nat_alt)
    moreover have "tail_kept b ?b"
    proof (rule tail.trans [OF b1(3)])
      show "tail_kept b1 ?b" using fit drop_overlay [OF fit] by (simp add: tail_kept_def d_def)
    qed
    moreover have "buf_ok ?b"
    proof -
      have "unat (cb_offset b1 + of_nat (length s)) < 3 * 2 ^ 30" if "length s < 2 ^ 31"
        using that b1(2,4) mod_less_eq_dividend [of "unat (cb_offset b1) + length s" 4294967296]
        by (auto simp: unat_word_ariths unsigned_of_nat take_bit_nat_eq_self buf_ok_def)
      then show ?thesis using b1(2) fit(2) by (auto simp: buf_ok_def d_def)
    qed
    moreover have "piece_put b (4 * unat sp) s ?b"
    proof -
      let ?w = "unat (cb_octCnt b) - 102 - (unat (cb_offset b) + 4 * unat sp)"
      have oc: "unat (cb_octCnt b1) = unat (cb_octCnt b)" using b1(3) by (simp add: tail_kept_def)
      have small: "unat (cb_octCnt b1) \<le> 2 ^ 30" "?o < 2 ^ 30" using b1(2,4) by (auto simp: buf_ok_def)
      have o: "unat (cb_offset ?b) = (if length s < 2 ^ 31 then ?o + length s else unat (cb_octCnt b))" if "s \<noteq> []"
        using that small oc by (auto simp: unat_word_ariths unsigned_of_nat take_bit_nat_eq_self)
      have w: "?n - 1 = ?w" using n oc b1(5) by simp
      have y: "take (min ?w (length s)) ys = take ?w s" using w by (auto simp: ys_def min_def)
      have l: "min ?w (length s) \<le> length ys" using w by (auto simp: ys_def)
      have "take (?o + min ?w (length s)) d = take ?o (cb_data b1) @ take ?w s"
        using fit(2) l y by (simp add: d_def overlay_def)
      then have "take (?o + min ?w (length s)) d = written b @ replicate (4 * unat sp) (CHR '' '') @ take ?w s"
        using b1(6) by (simp add: written_def)
      moreover have "\<not> unat (cb_octCnt b) - 100 \<le> unat (cb_offset b) + 4 * unat sp"
        using b1(4,5) oc by simp
      ultimately show ?thesis using o b1(5) unfolding piece_put_def Let_def by (simp add: written_def)
    qed
    ultimately show ?thesis by blast
  qed
qed


text \<open>
  The text so far, \<open>acc\<close>, is in the buffer: all of it, or, when the buffer is full, its first \<open>K\<close> characters, where
  nothing is written any more.
\<close>

definition held :: "nat \<Rightarrow> string \<Rightarrow> CmmBuf_s \<Rightarrow> bool" where
  "held K acc b \<longleftrightarrow>
     unat (cb_offset b) = length acc \<and> written b = acc \<or>
     K \<le> unat (cb_offset b) \<and> K \<le> length acc \<and> take K (cb_data b) = take K acc"

lemma held_start: "buf_ok b \<Longrightarrow> K \<le> unat (cb_octCnt b) \<Longrightarrow> held K (written b) b"
  by (auto simp: held_def written_def buf_ok_def min_def)

lemma held_cut: "held K acc b \<Longrightarrow> take (min K (length acc)) (cb_data b) = take (min K (length acc)) acc"
  by (auto simp: held_def written_def min_def take_all)

lemma held_low: "held K acc b \<Longrightarrow> K \<le> unat (cb_offset b) \<Longrightarrow> K \<le> length acc \<and> take K (cb_data b) = take K acc"
  by (auto simp: held_def written_def min_def)

lemma piece_fits:
  assumes "piece_put b n s b'" "buf_ok b" "s \<noteq> []" "unat (cb_offset b) + n + length s + 101 < unat (cb_octCnt b)"
  shows "unat (cb_offset b') = unat (cb_offset b) + n + length s \<and> written b' = written b @ replicate n (CHR '' '') @ s"
proof -
  define w where "w = unat (cb_octCnt b) - 102 - (unat (cb_offset b) + n)"
  have w: "length s \<le> w" "length s < 2 ^ 31" using assms(2,4) by (auto simp: w_def buf_ok_def)
  have "\<not> unat (cb_octCnt b) - 100 \<le> unat (cb_offset b) + n" using assms(4) by simp
  then have "take (unat (cb_offset b) + n + min w (length s)) (cb_data b') = take (unat (cb_offset b)) (cb_data b) @ replicate n (CHR '' '') @ take w s \<and>
      unat (cb_offset b') = unat (cb_offset b) + n + length s"
    using assms(1,3) w(2) unfolding piece_put_def Let_def w_def [symmetric] by simp
  then show ?thesis using w(1) by (simp add: written_def)
qed

lemma piece_held:
  assumes "piece_put b n s b'" "buf_ok b" "s \<noteq> []" "K \<le> unat (cb_octCnt b) - 102 - n" "held K acc b"
  shows "held K (acc @ replicate n (CHR '' '') @ s) b'"
proof -
  define i w where "i = unat (cb_offset b) + n" and "w = unat (cb_octCnt b) - 102 - i"
  let ?off = "unat (cb_offset b)" and ?off' = "unat (cb_offset b')"
  let ?acc = "acc @ replicate n (CHR '' '') @ s"
  consider (skip) "unat (cb_octCnt b) - 100 \<le> i" "b' = b"
    | (put) "i < unat (cb_octCnt b) - 100" "take (i + min w (length s)) (cb_data b') = take ?off (cb_data b) @ replicate n (CHR '' '') @ take w s"
        "?off' = (if length s < 2 ^ 31 then i + length s else unat (cb_octCnt b))"
    using assms(1,3) unfolding piece_put_def Let_def i_def [symmetric] w_def [symmetric] by (cases "unat (cb_octCnt b) - 100 \<le> i") simp_all
  then show ?thesis
  proof cases
    case skip
    have "K \<le> ?off" using skip(1) assms(4) by (simp add: i_def)
    then show ?thesis using held_low [OF assms(5)] skip(2) by (simp add: held_def)
  next
    case put
    have len: "?off \<le> length (cb_data b)" using put(1) assms(2) by (auto simp: buf_ok_def i_def)
    have "?off \<le> ?off'" using put(1,3) by (auto simp: i_def)
    have pre: "take ?off (cb_data b') = take ?off (cb_data b)"
    proof -
      have "take ?off (take (i + min w (length s)) (cb_data b')) = take ?off (cb_data b)"
        unfolding put(2) using len by simp
      then show ?thesis by (simp add: i_def)
    qed
    show ?thesis
    proof (cases "?off = length acc \<and> written b = acc")
      case False
      then have low: "K \<le> ?off" "K \<le> length acc" "take K (cb_data b) = take K acc" using assms(5) by (auto simp: held_def)
      have "take K (take ?off (cb_data b')) = take K (take ?off (cb_data b))" using pre by (rule arg_cong)
      then have "take K (cb_data b') = take K (cb_data b)" using low(1) by (simp add: min_absorb1)
      then show ?thesis using low \<open>?off \<le> ?off'\<close> by (simp add: held_def)
    next
      case True
      then have d: "take (i + min w (length s)) (cb_data b') = acc @ replicate n (CHR '' '') @ take w s"
        using put(2) unfolding written_def by argo
      show ?thesis
      proof (cases "length s \<le> w")
        case fits: True
        have "w \<le> unat (cb_octCnt b)" by (simp add: w_def)
        then have "length s < 2 ^ 31" using fits assms(2) by (simp add: buf_ok_def)
        then have off: "?off' = length acc + n + length s" using put(3) True by (simp add: i_def)
        moreover have "written b' = ?acc"
          using d fits True unfolding written_def off by (simp add: i_def min_absorb2)
        ultimately show ?thesis by (simp add: held_def)
      next
        case full: False
        have k: "K \<le> i + w" using assms(4) put(1) by (simp add: w_def i_def)
        have "take K (take (i + min w (length s)) (cb_data b')) = take K (acc @ replicate n (CHR '' '') @ take w s)"
          using d by (rule arg_cong)
        then have "take K (cb_data b') = take K (acc @ replicate n (CHR '' '') @ take w s)"
          using k full by (simp add: min_absorb1)
        also have "\<dots> = take K ?acc" using k True by (simp add: i_def)
        finally have "take K (cb_data b') = take K ?acc" .
        moreover have "K \<le> ?off'" using put(1,3) full k by (auto simp: w_def)
        moreover have "K \<le> length ?acc" using k full True by (simp add: i_def)
        ultimately show ?thesis by (simp add: held_def)
      qed
    qed
  qed
qed

text \<open>The text of a list of pieces, where there is room for it.\<close>

definition text_of :: "(u32 \<times> string) list \<Rightarrow> string" where
  "text_of ps = concat (map (\<lambda>(sp, s). replicate (4 * unat sp) (CHR '' '') @ s) ps)"

lemma text_of_simps [simp]: "text_of [] = []" "text_of ((sp, s) # ps) = replicate (4 * unat sp) (CHR '' '') @ s @ text_of ps"
  by (simp_all add: text_of_def)

lemma emit_ok:
  assumes "buf_ok b" and "unat sp < 2 ^ 26" and "s \<noteq> []"
  shows "\<exists>b'. emit b sp s = Inr b' \<and> buf_ok b' \<and> tail_kept b b' \<and>
    (unat (cb_offset b) + length (text_of [(sp, s)]) + 101 < unat (cb_octCnt b) \<longrightarrow>
      unat (cb_offset b') = unat (cb_offset b) + length (text_of [(sp, s)]) \<and> written b' = written b @ text_of [(sp, s)]) \<and>
    (\<forall>K acc. K \<le> unat (cb_octCnt b) - 102 - 4 * unat sp \<and> held K acc b \<longrightarrow> held K (acc @ text_of [(sp, s)]) b')"
proof -
  obtain r b' where b': "snprintfBuf b sp s = Inr (r, b')" "buf_ok b'" "tail_kept b b'" "piece_put b (4 * unat sp) s b'"
    using snprintfBuf_ok [OF assms(1,2), of s] by blast
  then show ?thesis using piece_fits [OF b'(4) assms(1,3)] piece_held [OF b'(4) assms(1,3)] by (simp add: emit_def)
qed

definition small :: "(u32 \<times> string) list \<Rightarrow> bool" where
  "small ps \<longleftrightarrow> (\<forall>p \<in> set ps. unat (fst p) < 2 ^ 26 \<and> snd p \<noteq> [])"

lemma small_simps [simp]: "small []" "small (p # ps) \<longleftrightarrow> unat (fst p) < 2 ^ 26 \<and> snd p \<noteq> [] \<and> small ps"
  "small (ps @ qs) \<longleftrightarrow> small ps \<and> small qs"
  by (auto simp: small_def)

lemma emits_simps [simp]: "emits [] = Inr" "emits (p # ps) b = rbind (emit b (fst p) (snd p)) (emits ps)"
  by (auto simp: emits_def case_prod_beta)

lemma emits_append: "emits (ps @ qs) b = rbind (emits ps b) (emits qs)"
proof (induction ps arbitrary: b)
  case (Cons p ps)
  have "emits (ps @ qs) = (\<lambda>b. rbind (emits ps b) (emits qs))" using Cons by blast
  then show ?case by (simp add: rbind_assoc)
qed simp

lemma emits_ok:
  "buf_ok b \<Longrightarrow> small ps \<Longrightarrow> \<exists>b'. emits ps b = Inr b' \<and> buf_ok b' \<and> tail_kept b b' \<and>
    (unat (cb_offset b) + length (text_of ps) + 101 < unat (cb_octCnt b) \<longrightarrow> written b' = written b @ text_of ps) \<and>
    (\<forall>K acc. (\<forall>p \<in> set ps. K \<le> unat (cb_octCnt b) - 102 - 4 * unat (fst p)) \<and> held K acc b \<longrightarrow> held K (acc @ text_of ps) b')"
proof (induction ps arbitrary: b)
  case (Cons p ps)
  obtain sp s where [simp]: "p = (sp, s)" by (cases p)
  obtain b1 where b1: "emit b sp s = Inr b1" "buf_ok b1" "tail_kept b b1"
    "unat (cb_offset b) + length (text_of [(sp, s)]) + 101 < unat (cb_octCnt b) \<longrightarrow>
      unat (cb_offset b1) = unat (cb_offset b) + length (text_of [(sp, s)]) \<and> written b1 = written b @ text_of [(sp, s)]"
    and h1: "\<And>K acc. K \<le> unat (cb_octCnt b) - 102 - 4 * unat sp \<Longrightarrow> held K acc b \<Longrightarrow> held K (acc @ text_of [(sp, s)]) b1"
    using emit_ok [OF Cons.prems(1), of sp s] Cons.prems(2) by auto
  from Cons.IH [OF b1(2)] Cons.prems(2) obtain b2 where b2: "emits ps b1 = Inr b2" "buf_ok b2" "tail_kept b1 b2"
    "unat (cb_offset b1) + length (text_of ps) + 101 < unat (cb_octCnt b1) \<longrightarrow> written b2 = written b1 @ text_of ps"
    and h2: "\<And>K acc. \<forall>p \<in> set ps. K \<le> unat (cb_octCnt b1) - 102 - 4 * unat (fst p) \<Longrightarrow> held K acc b1 \<Longrightarrow> held K (acc @ text_of ps) b2"
    by auto
  have oc: "cb_octCnt b1 = cb_octCnt b" using b1(3) by (simp add: tail_kept_def)
  have "written b2 = written b @ text_of (p # ps)"
    if "unat (cb_offset b) + length (text_of (p # ps)) + 101 < unat (cb_octCnt b)"
    using that b1(3,4) b2(4) oc by auto
  moreover have "held K (acc @ text_of (p # ps)) b2"
    if "\<forall>q \<in> set (p # ps). K \<le> unat (cb_octCnt b) - 102 - 4 * unat (fst q)" "held K acc b" for K acc
    using that h2 [of K "acc @ text_of [(sp, s)]"] h1 [of K acc] oc by simp
  ultimately show ?case using b1(1) b2(1,2) tail.trans [OF b1(3) b2(3)] by auto
qed (auto simp: tail.refl)

text \<open>
  A routine prints a list of pieces: it fails as the list does, and otherwise writes exactly them. One rule per
  construct of the code.
\<close>

definition prints :: "(CmmBuf_s \<Rightarrow> CmmBuf_s res) \<Rightarrow> (u32 \<times> string) list res \<Rightarrow> bool" where
  "prints c r \<longleftrightarrow> (\<forall>ps. r = Inr ps \<longrightarrow> small ps) \<and>
     (\<forall>b. buf_ok b \<longrightarrow> c b = rbind r (\<lambda>ps. emits ps b))"

lemma prints_emit: "unat sp < 2 ^ 26 \<Longrightarrow> s \<noteq> [] \<Longrightarrow> prints (\<lambda>b. emit b sp s) (Inr [(sp, s)])"
  by (simp add: prints_def)

lemma prints_skip: "prints Inr (Inr [])"
  by (simp add: prints_def)

lemma prints_fail: "prints (\<lambda>b. Inl f) (Inl f)"
  by (simp add: prints_def)

lemma prints_read: "(\<And>x. r = Inr x \<Longrightarrow> prints (c x) (k x)) \<Longrightarrow> prints (\<lambda>b. rbind r (\<lambda>x. c x b)) (rbind r k)"
  by (cases r) (auto simp: prints_def)

lemma prints_seq:
  assumes "prints c r" and "prints c' r'"
  shows "prints (\<lambda>b. rbind (c b) c') (rbind r (\<lambda>ps. rbind r' (\<lambda>qs. Inr (ps @ qs))))"
  unfolding prints_def
proof safe
  fix b assume ok: "buf_ok b"
  show "rbind (c b) c' = rbind (rbind r (\<lambda>ps. rbind r' (\<lambda>qs. Inr (ps @ qs)))) (\<lambda>ps. emits ps b)"
  proof (cases r)
    case (Inr ps)
    then have "c b = emits ps b" "small ps" using assms(1) ok by (auto simp: prints_def)
    moreover from emits_ok [OF ok this(2)] obtain b' where "emits ps b = Inr b'" "buf_ok b'" by auto
    moreover from this have "c' b' = rbind r' (\<lambda>qs. emits qs b')" using assms(2) by (auto simp: prints_def)
    ultimately show ?thesis using Inr by (simp add: rbind_assoc emits_append)
  qed (use assms(1) ok in \<open>simp add: prints_def\<close>)
qed (use assms in \<open>auto simp: prints_def rbind_Inr_iff\<close>)

lemma prints_loop:
  "(\<And>x. x \<in> set xs \<Longrightarrow> prints (f x) (k x)) \<Longrightarrow> prints (foreach f xs) (rbind (rmap k xs) (\<lambda>pss. Inr (concat pss)))"
proof (induction xs)
  case Nil
  show ?case using prints_skip by (simp add: fun_eq_iff prints_def)
next
  case (Cons x xs)
  have "prints (\<lambda>b. rbind (f x b) (foreach f xs))
      (rbind (k x) (\<lambda>ps. rbind (rbind (rmap k xs) (\<lambda>pss. Inr (concat pss))) (\<lambda>qs. Inr (ps @ qs))))"
    using Cons by (intro prints_seq) auto
  then show ?case by (simp add: rbind_assoc)
qed

text \<open>The pieces of a document under construction.\<close>

lemma rmap_pieces:
  "rbind (rmap (\<lambda>x. rbind (d x) (\<lambda>ds. Inr (pieces sp ds))) xs) (\<lambda>pss. Inr (concat pss)) =
   rbind (rmap d xs) (\<lambda>dss. Inr (pieces sp (concat dss)))"
proof (induction xs)
  case (Cons x xs)
  show ?case
  proof (cases "d x")
    case (Inr ds)
    have "rbind (rmap (\<lambda>x. rbind (d x) (\<lambda>ds. Inr (pieces sp ds))) xs) (\<lambda>pss. Inr (pieces sp ds @ concat pss)) =
      rbind (rbind (rmap (\<lambda>x. rbind (d x) (\<lambda>ds. Inr (pieces sp ds))) xs) (\<lambda>pss. Inr (concat pss))) (\<lambda>ps. Inr (pieces sp ds @ ps))"
      by (simp add: rbind_assoc)
    then show ?thesis unfolding Cons using Inr by (simp add: rbind_assoc pieces_def)
  qed simp
qed (simp add: pieces_def)

lemma rmap_single:
  "rbind (rmap (\<lambda>x. rbind (d x) (\<lambda>s. Inr [(0 :: u32, s)])) xs) (\<lambda>pss. Inr (concat pss)) =
   rbind (rmap d xs) (\<lambda>ss. Inr (map (Pair 0) ss))"
proof (induction xs)
  case (Cons x xs)
  show ?case
  proof (cases "d x")
    case (Inr s)
    have "rbind (rmap (\<lambda>x. rbind (d x) (\<lambda>s. Inr [(0 :: u32, s)])) xs) (\<lambda>pss. Inr ((0, s) # concat pss)) =
      rbind (rbind (rmap (\<lambda>x. rbind (d x) (\<lambda>s. Inr [(0, s)])) xs) (\<lambda>pss. Inr (concat pss))) (\<lambda>ps. Inr ((0, s) # ps))"
      by (simp add: rbind_assoc)
    then show ?thesis unfolding Cons using Inr by (simp add: rbind_assoc)
  qed simp
qed simp

lemma prints_block:
  assumes "unat sp < 2 ^ 26" and "p \<noteq> []" and "e \<noteq> []" and "prints c (rbind d (\<lambda>ds. Inr (pieces (sp + 1) ds)))"
  shows "prints (\<lambda>b. rbind (emit b sp p) (\<lambda>b. rbind (c b) (\<lambda>b. emit b sp e)))
    (rbind d (\<lambda>ds. Inr (pieces sp [Block p ds e])))"
  using prints_seq [OF prints_emit [OF assms(1,2)] prints_seq [OF assms(4) prints_emit [OF assms(1,3)]]]
  by (simp add: rbind_assoc pieces_def)

lemma prints_line:
  assumes "unat sp < 2 ^ 26" and "p \<noteq> []" and "e \<noteq> []" and "prints c (rbind d (\<lambda>ss. Inr (map (Pair 0) ss)))"
  shows "prints (\<lambda>b. rbind (emit b sp p) (\<lambda>b. rbind (c b) (\<lambda>b. emit b 0 e)))
    (rbind d (\<lambda>ss. Inr (pieces sp [Line p (ss @ [e])])))"
  using prints_seq [OF prints_emit [OF assms(1,2)] prints_seq [OF assms(4) prints_emit [OF _ assms(3), of 0]]]
  by (simp add: rbind_assoc pieces_def)

lemma tags_nonempty [simp]:
  "tag name \<noteq> []" "end_tag name \<noteq> []" "count_tag name n \<noteq> []" "count_text name k \<noteq> []"
  by (simp_all add: tag_def end_tag_def count_tag_def count_text_def)

lemma scalar_nonempty: "scalar_text m t a = Inr s \<Longrightarrow> s \<noteq> []"
  by (cases t) (auto simp: rbind_Inr_iff split: if_splits)

lemma hexadecimal_nonempty: "hexadecimal n \<noteq> []"
  by (induction n rule: hexadecimal.induct) (simp add: hexadecimal.simps)

lemma dep_nonempty: "dep_parts m t a = Inr (n, k, p, f) \<Longrightarrow> f i \<noteq> []"
  by (cases t) (auto simp: dep_parts_def Let_def rbind_Inr_iff hexadecimal_nonempty decimal_nonempty)

lemma prints_scalar: "prints (cmmPrintFun m t a 0) (rbind (scalar_text m t a) (\<lambda>s. Inr [(0, s)]))"
  unfolding cmmPrintFun_def by (intro prints_read prints_emit scalar_nonempty) simp_all

lemma prints_scalars:
  "prints (foreach (\<lambda>i b. rbind (g i) (\<lambda>a. cmmPrintFun m t a 0 b)) xs)
    (rbind (rmap (\<lambda>i. rbind (g i) (scalar_text m t)) xs) (\<lambda>ss. Inr (map (Pair 0) ss)))"
proof -
  have "prints (foreach (\<lambda>i b. rbind (g i) (\<lambda>a. cmmPrintFun m t a 0 b)) xs)
      (rbind (rmap (\<lambda>i. rbind (rbind (g i) (scalar_text m t)) (\<lambda>s. Inr [(0, s)])) xs) (\<lambda>pss. Inr (concat pss)))"
    unfolding rbind_assoc by (intro prints_loop prints_read prints_scalar)
  then show ?thesis unfolding rmap_single .
qed

lemma prints_one: "unat sp < 2 ^ 26 \<Longrightarrow> s \<noteq> [] \<Longrightarrow> prints (\<lambda>b. emit b sp s) (Inr (pieces sp [Line s []]))"
  using prints_emit by (simp add: pieces_def)

lemma prints_tag:
  assumes "unat sp < 2 ^ 26"
  shows "prints (\<lambda>b. rbind (emit b sp (tag name)) (\<lambda>b. rbind (cmmPrintFun m t a 0 b) (\<lambda>b. emit b 0 (end_tag name))))
    (rbind (scalar_text m t a) (\<lambda>s. Inr (pieces sp [doc_tag name [s]])))"
proof -
  have "prints (cmmPrintFun m t a 0)
      (rbind (rbind (scalar_text m t a) (\<lambda>s. Inr [s])) (\<lambda>ss. Inr (map (Pair 0) ss)))"
    using prints_scalar [of m t a] by (simp add: rbind_assoc)
  from prints_line [OF assms _ _ this, of "tag name" "end_tag name"] show ?thesis
    by (simp add: rbind_assoc doc_tag_def)
qed

lemma prints_dep:
  assumes "unat sp < 2 ^ 26"
  shows "prints (depPrintf m t name a sp) (rbind (doc_dep m t name a) (\<lambda>ds. Inr (pieces sp ds)))"
proof -
  have line: "prints (\<lambda>b. rbind (emit b sp p) (\<lambda>b. rbind (foreach (\<lambda>i out. rbind (ld_num m (q + i) 1) (\<lambda>b. emit out 0 (f b)))
        [0..<k] b) (\<lambda>b. emit b 0 e)))
      (rbind (rmap (\<lambda>i. rbind (ld_num m (q + i) 1) (\<lambda>b. Inr (f b))) [0..<k]) (\<lambda>ss. Inr (pieces sp [Line p (ss @ [e])])))"
    if "p \<noteq> []" "e \<noteq> []" "\<And>b. f b \<noteq> []" for p q f k e
  proof (rule prints_line [OF assms that(1,2)])
    have "prints (foreach (\<lambda>i out. rbind (ld_num m (q + i) 1) (\<lambda>b. emit out 0 (f b))) [0..<k])
        (rbind (rmap (\<lambda>i. rbind (ld_num m (q + i) 1) (\<lambda>b. Inr [(0, f b)])) [0..<k]) (\<lambda>pss. Inr (concat pss)))"
      by (intro prints_loop prints_read prints_emit that(3)) simp
    then show "prints (foreach (\<lambda>i out. rbind (ld_num m (q + i) 1) (\<lambda>b. emit out 0 (f b))) [0..<k])
        (rbind (rmap (\<lambda>i. rbind (ld_num m (q + i) 1) (\<lambda>b. Inr (f b))) [0..<k]) (\<lambda>ss. Inr (map (Pair 0) ss)))"
      using rmap_single [of "\<lambda>i. rbind (ld_num m (q + i) 1) (\<lambda>b. Inr (f b))" "[0..<k]"] by (simp add: rbind_assoc)
  qed
  show ?thesis
    unfolding depPrintf_def [abs_def] print_parts_def doc_dep_def rbind_assoc
  proof (rule prints_read)
    fix x
    assume x: "dep_parts m t a = Inr x"
    obtain n k p f where [simp]: "x = (n, k, p, f)" by (cases x) auto
    have "f i \<noteq> []" for i using x by (auto dest: dep_nonempty)
    then show "prints (\<lambda>b. case x of (n, k, p, f) \<Rightarrow> rbind (emit b sp (count_tag name (decimal n))) (\<lambda>out.
          rbind (foreach (\<lambda>i out. rbind (ld_num m (p + i) 1) (\<lambda>b. emit out 0 (f b))) [0..<k] out) (\<lambda>out.
            emit out 0 (end_tag name))))
        (rbind (case x of (n, k, p, f) \<Rightarrow> rbind (rmap (\<lambda>i. rbind (ld_num m (p + i) 1) (\<lambda>b. Inr (f b))) [0..<k]) (\<lambda>ps.
          Inr [Line (count_tag name (decimal n)) (ps @ [end_tag name])])) (\<lambda>ds. Inr (pieces sp ds)))"
      using line [of "count_tag name (decimal n)" "end_tag name" f p k] by (simp add: rbind_assoc)
  qed
qed

lemma prints_array:
  assumes "unat sp < 2 ^ 26" and "\<And>p. prints (item p) (rbind (ditem p) (\<lambda>ds. Inr (pieces (sp + 1) ds)))"
  shows "prints (print_array m v root sz a item sp) (rbind (doc_array m v root sz a ditem) (\<lambda>ds. Inr (pieces sp ds)))"
proof -
  have str: "prints (\<lambda>b. rbind g (\<lambda>p. snprintfStr m name p sp b))
      (rbind g (\<lambda>p. rbind (ld_str m p) (\<lambda>s. Inr (pieces sp [Line (tag name @ s @ end_tag name) []]))))" for name g
    unfolding snprintfStr_def by (intro prints_read prints_one assms(1)) simp
  have items: "prints (foreach (\<lambda>i out. rbind (g i) (\<lambda>p. item p out)) xs)
      (rbind (rbind (rmap (\<lambda>i. rbind (g i) ditem) xs) (\<lambda>dss. Inr (concat dss))) (\<lambda>ds. Inr (pieces (sp + 1) ds)))"
    for g :: "nat \<Rightarrow> addr res" and xs
  proof -
    have "prints (foreach (\<lambda>i out. rbind (g i) (\<lambda>p. item p out)) xs)
        (rbind (rmap (\<lambda>i. rbind (rbind (g i) ditem) (\<lambda>ds. Inr (pieces (sp + 1) ds))) xs) (\<lambda>pss. Inr (concat pss)))"
      unfolding rbind_assoc by (intro prints_loop prints_read assms(2))
    then show ?thesis unfolding rmap_pieces by (simp add: rbind_assoc)
  qed
  note block = prints_block [OF assms(1) _ _ items, unfolded rbind_assoc rbind.simps]
  note line = prints_line [OF assms(1) _ _ prints_scalars]
  have skip: "prints Inr (Inr (pieces sp []))" using prints_skip by (simp add: pieces_def)
  show ?thesis
    unfolding print_array_def [abs_def] doc_array_def Let_def rbind_assoc
    by (rule prints_read) (simp add: rbind_assoc str line block skip)
qed

definition data_prints :: "cmem \<Rightarrow> ContainerTypeDef_s \<Rightarrow> bool" where
  "data_prints m def \<longleftrightarrow> (\<forall>name a sp. unat sp + 2 * size def < 2 ^ 26 \<longrightarrow>
     prints (snprintfData m name def a sp) (rbind (doc_data m name def a) (\<lambda>ds. Inr (pieces sp ds))))"

definition var_prints :: "cmem \<Rightarrow> VarDesc_s \<Rightarrow> bool" where
  "var_prints m v \<longleftrightarrow> (\<forall>a sp. unat sp + 2 * size v < 2 ^ 26 \<longrightarrow>
     prints (snprintfVar m v a sp) (rbind (doc_var m v a) (\<lambda>ds. Inr (pieces sp ds))))"

lemma succ_spare: "unat (sp :: u32) + k < 2 ^ 26 \<Longrightarrow> unat (sp + 1) = unat sp + 1"
  by (simp add: unat_word_ariths)

lemma item_prints:
  assumes "\<And>d. vd_def v = Some d \<Longrightarrow> data_prints m d" and "unat sp + 2 * size v \<le> 2 ^ 26"
  shows "prints (snprintfVarItem m name v a sp) (rbind (doc_item m name v a) (\<lambda>ds. Inr (pieces sp ds)))"
proof -
  have sp: "unat sp < 2 ^ 26" using assms(2) by (cases v) auto
  show ?thesis
    unfolding snprintfVarItem.simps [abs_def] doc_item.simps [of m name v a] rbind_assoc
  proof (rule prints_read)
    fix root
    have d: "prints (snprintfData m name d a sp) (rbind (doc_data m name d a) (\<lambda>ds. Inr (pieces sp ds)))"
      if "vd_def v = Some d" for d
      using assms(1) [OF that] sub_desc_sizes(3) [OF that] assms(2) by (simp add: data_prints_def)
    show "prints (\<lambda>out. if a = 0 then emit out sp (''NULL_ADDR'' @ nl)
        else if vd_option v \<noteq> VAR_DATA \<and> vd_option v \<noteq> VAR_DATA_P \<and> is_scalar root then cmmPrintFun m root a 0 out
        else if is_scalar root then if take 3 name = ''rev'' then Inr out
          else rbind (emit out sp (tag name)) (\<lambda>out. rbind (cmmPrintFun m root a 0 out) (\<lambda>out. emit out 0 (end_tag name)))
        else if root \<noteq> T_TYPE then depPrintf m root name a sp out
        else case vd_def v of None \<Rightarrow> Inl NullDeref | Some d \<Rightarrow> snprintfData m name d a sp out)
      (rbind (if a = 0 then Inr [Line (''NULL_ADDR'' @ nl) []]
        else if vd_option v \<noteq> VAR_DATA \<and> vd_option v \<noteq> VAR_DATA_P \<and> is_scalar root then rbind (scalar_text m root a) (\<lambda>s. Inr [Bare s])
        else if is_scalar root then
          if take 3 name = ''rev'' then Inr [] else rbind (scalar_text m root a) (\<lambda>s. Inr [doc_tag name [s]])
        else if root \<noteq> T_TYPE then doc_dep m root name a
        else case vd_def v of None \<Rightarrow> Inl NullDeref | Some d \<Rightarrow> doc_data m name d a) (\<lambda>ds. Inr (pieces sp ds)))"
      using sp d prints_scalar [of m root a] prints_tag [OF sp, of name m root a] prints_dep [OF sp, of m root name a]
        prints_one [OF sp] prints_skip prints_fail
      by (auto simp: rbind_assoc pieces_def split: option.split)
  qed
qed

lemma var_prints_intro:
  assumes "\<And>d. vd_def v = Some d \<Longrightarrow> data_prints m d"
  shows "var_prints m v"
  unfolding var_prints_def
proof (intro allI impI)
  fix a and sp :: u32
  assume lim: "unat sp + 2 * size v < 2 ^ 26"
  then have sp: "unat sp < 2 ^ 26" by simp
  have sp1: "unat (sp + 1) + 2 * size v \<le> 2 ^ 26" "unat (sp + 1) < 2 ^ 26"
    using lim succ_spare [OF lim] by (cases v; simp)+
  have item: "prints (snprintfVarItem m name v p sp) (rbind (doc_item m name v p) (\<lambda>ds. Inr (pieces sp ds)))" for name p
    using item_prints [OF assms, where sp = sp] lim by simp
  have inner: "prints (\<lambda>b. snprintfVarItem m name v p (sp + 1) b) (rbind (doc_item m name v p) (\<lambda>ds. Inr (pieces (sp + 1) ds)))"
    for name p using item_prints [OF assms sp1(1)] by simp
  have bad: "prints (\<lambda>b. rbind (emit b sp p) (\<lambda>b. rbind (emit b (sp + 1) q) (\<lambda>b. emit b sp e)))
      (Inr (pieces sp [Block p [Line q []] e]))" if "p \<noteq> []" "q \<noteq> []" "e \<noteq> []" for p q e
    using prints_block [OF sp that(1,3), of "\<lambda>b. emit b (sp + 1) q" "Inr [Line q []]"] prints_one [OF sp1(2) that(2)] by simp
  note array = prints_array [OF sp inner]
  have ptr: "prints (\<lambda>b. rbind g (\<lambda>p. snprintfVarItem m name v p sp b))
      (rbind g (\<lambda>p. rbind (doc_item m name v p) (\<lambda>ds. Inr (pieces sp ds))))" for g name
    by (intro prints_read item)
  show "prints (snprintfVar m v a sp) (rbind (doc_var m v a) (\<lambda>ds. Inr (pieces sp ds)))"
    unfolding snprintfVar.simps [abs_def] doc_var.simps [of m v a] rbind_assoc Let_def
    by (intro prints_read, cases "vd_option v") (simp_all add: item ptr array bad rbind_assoc)
qed

lemma data_prints_intro:
  assumes "\<And>r. cd_ref def = Some r \<Longrightarrow> data_prints m r" and "\<And>v. v \<in> set (cd_var def) \<Longrightarrow> var_prints m v"
  shows "data_prints m def"
  unfolding data_prints_def
proof (intro allI impI)
  fix name a and sp :: u32
  assume lim: "unat sp + 2 * size def < 2 ^ 26"
  then have sp: "unat sp < 2 ^ 26" by simp
  have var: "prints (\<lambda>b. snprintfVar m v p (sp + 1) b) (rbind (doc_var m v p) (\<lambda>ds. Inr (pieces (sp + 1) ds)))"
    if "rd (cd_var def) i = Inr v" for v p i
  proof -
    have "v \<in> set (cd_var def)" using that by (auto simp: rd_def split: if_splits)
    moreover have "unat (sp + 1) + 2 * size v < 2 ^ 26"
      using sub_desc_sizes(2) [OF that] lim succ_spare [OF lim] by simp
    ultimately show ?thesis using assms(2) by (simp add: var_prints_def)
  qed
  have ref: "prints (snprintfData m name r a sp) (rbind (doc_data m name r a) (\<lambda>ds. Inr (pieces sp ds)))"
    if "cd_ref def = Some r" for r
    using assms(1) [OF that] sub_desc_sizes(1) [OF that] lim by (simp add: data_prints_def)
  have vars: "prints (foreach (\<lambda>i out. rbind (rd (cd_var def) i) (\<lambda>v. snprintfVar m v (a + vd_offset v) (sp + 1) out)) xs)
      (rbind (rbind (rmap (\<lambda>i. rbind (rd (cd_var def) i) (\<lambda>v. doc_var m v (a + vd_offset v))) xs) (\<lambda>dss. Inr (concat dss)))
        (\<lambda>ds. Inr (pieces (sp + 1) ds)))" for xs
  proof -
    have "prints (foreach (\<lambda>i out. rbind (rd (cd_var def) i) (\<lambda>v. snprintfVar m v (a + vd_offset v) (sp + 1) out)) xs)
        (rbind (rmap (\<lambda>i. rbind (rbind (rd (cd_var def) i) (\<lambda>v. doc_var m v (a + vd_offset v))) (\<lambda>ds. Inr (pieces (sp + 1) ds))) xs)
          (\<lambda>pss. Inr (concat pss)))"
      unfolding rbind_assoc by (intro prints_loop prints_read var)
    then show ?thesis unfolding rmap_pieces by (simp add: rbind_assoc)
  qed
  note struct = prints_block [OF sp _ _ vars, unfolded rbind_assoc rbind.simps]
  have choice: "prints (\<lambda>b. rbind (rd (cd_var def) i) (\<lambda>v. rbind (emit b sp (p v)) (\<lambda>b.
        rbind (snprintfVar m v q (sp + 1) b) (\<lambda>b. emit b sp e))))
      (rbind (rd (cd_var def) i) (\<lambda>v. rbind (doc_var m v q) (\<lambda>ds. Inr (pieces sp [Block (p v) ds e]))))" if "\<And>v. p v \<noteq> []" "e \<noteq> []" for i p q e
    by (intro prints_read prints_block [OF sp that var])
  have enum: "prints (\<lambda>b. rbind (rd (cd_var def) i) (\<lambda>v. emit b sp (p v)))
      (rbind (rd (cd_var def) i) (\<lambda>v. Inr (pieces sp [Line (p v) []])))" if "\<And>v. p v \<noteq> []" for i p
    by (intro prints_read prints_one sp that)
  note skip = prints_skip [folded pieces_def [of sp "[]", simplified]]
  show "prints (snprintfData m name def a sp) (rbind (doc_data m name def a) (\<lambda>ds. Inr (pieces sp ds)))"
    unfolding snprintfData.simps [of m name def a sp, abs_def] doc_data.simps [of m name def a] rbind_assoc
    by (intro prints_read, cases "cd_type def")
      (auto simp: choice enum struct ref prints_fail prints_skip prints_one [OF sp] prints_tag [OF sp] prints_dep [OF sp]
        rbind_assoc pieces_def [of sp "[]"] split: option.split)
qed

lemma described_prints: "data_prints m def" "var_prints m v"
proof (induction def and v rule: ContainerTypeDef_s.induct VarDesc_s.induct)
  case (ContainerTypeDef n t sz al r k vs)
  show ?case by (rule data_prints_intro) (use ContainerTypeDef in auto)
next
  case (VarDesc n t d off opt k)
  show ?case by (rule var_prints_intro) (use VarDesc in auto)
qed

lemma document_prints:
  "unat sp + 2 * size def < 2 ^ 26 \<Longrightarrow>
    prints (snprintfData m name def a sp) (rbind (doc_data m name def a) (\<lambda>ds. Inr (pieces sp ds)))"
  using described_prints(1) [of m def] by (simp add: data_prints_def)

lemma document_printed:
  assumes "buf_ok b" and "unat sp + 2 * size def < 2 ^ 26" and "doc_data m name def a = Inr ds"
  shows "\<exists>b'. snprintfData m name def a sp b = Inr b' \<and> buf_ok b' \<and> tail_kept b b' \<and>
    (unat (cb_offset b) + length (text_of (pieces sp ds)) + 101 < unat (cb_octCnt b) \<longrightarrow>
      written b' = written b @ text_of (pieces sp ds)) \<and>
    (\<forall>K acc. (\<forall>p \<in> set (pieces sp ds). K \<le> unat (cb_octCnt b) - 102 - 4 * unat (fst p)) \<and> held K acc b \<longrightarrow>
      held K (acc @ text_of (pieces sp ds)) b')"
proof -
  have "small (pieces sp ds)" and e: "snprintfData m name def a sp b = emits (pieces sp ds) b"
    using document_prints [OF assms(2), of m name a] assms(1,3) by (auto simp: prints_def)
  then show ?thesis unfolding e by (intro emits_ok [OF assms(1)])
qed

text \<open>
  C18: The printer never leaves its buffer. Whatever the description and the data are, and however long their text
  is, a printing that ends has kept the size of the buffer and its last 100 bytes, and has left the buffer ready for
  further text.
\<close>

theorem print_stays_in_buffer:
  assumes "buf_ok b" and "unat sp + 2 * size def < 2 ^ 26" and "snprintfData m name def a sp b = Inr b'"
  shows "buf_ok b' \<and> length (cb_data b') = length (cb_data b) \<and>
    drop (unat (cb_octCnt b) - 100) (cb_data b') = drop (unat (cb_octCnt b) - 100) (cb_data b)"
proof (cases "doc_data m name def a")
  case (Inl f)
  then show ?thesis using document_prints [OF assms(2), of m name a] assms(1,3) by (auto simp: prints_def)
next
  case (Inr ds)
  from document_printed [OF assms(1,2) this] assms(3) show ?thesis by (auto simp: tail_kept_def)
qed

section \<open>Messages\<close>

record MsgDesc_s =
  md_msgId :: u32
  md_name :: string
  md_def :: ContainerTypeDef_s

record MsgSetDesc_s =
  ms_name :: string
  ms_msgCnt :: u32
  ms_msg :: "MsgDesc_s list"

fun find_msg :: "MsgSetDesc_s \<Rightarrow> u32 \<Rightarrow> nat list \<Rightarrow> MsgDesc_s option res" where
  "find_msg desc msgId [] = Inr None"
| "find_msg desc msgId (i # is) =
     rbind (rd (ms_msg desc) i) (\<lambda>d. if md_msgId d = msgId then Inr (Some d) else find_msg desc msgId is)"

text \<open>The body of the message is \<open>n\<close> octets at \<open>p\<close>.\<close>

definition snprintfMessageSep ::
    "cmem \<Rightarrow> MsgSetDesc_s option \<Rightarrow> nat \<Rightarrow> addr \<Rightarrow> u32 \<Rightarrow> CmmBuf_s \<Rightarrow> CmmBuf_s res" where
  "snprintfMessageSep m desc n p msgId out =
     (case desc of
        None \<Rightarrow> Inl AssertFail
      | Some d \<Rightarrow>
          rbind (find_msg d msgId [0..<unat (ms_msgCnt d)]) (\<lambda>found.
          case found of
            None \<Rightarrow>
              rbind (emit out 0 (nl @ ''A invlalid Msg, ID: '' @ sdecimal (sint msgId) @ nl)) (\<lambda>out.
                print_parts m ''msgBody'' (n, n, p, \<lambda>b. hexadecimal b @ '' '') 1 out)
          | Some def \<Rightarrow>
              rbind (emit out 0 (nl @ ''Msg-'' @ md_name def @ '', ID('' @ sdecimal (sint msgId) @ '') :'' @ nl)) (\<lambda>out.
                snprintfData m ''MsgBody'' (md_def def) p 1 out)))"

text \<open>A \<open>cmmMsg_s\<close>: its index, the size of its body, the body.\<close>

definition snprintfMessage :: "cmem \<Rightarrow> MsgSetDesc_s option \<Rightarrow> addr \<Rightarrow> CmmBuf_s \<Rightarrow> CmmBuf_s res" where
  "snprintfMessage m desc a out =
     rbind (ld_num m (a + 2) 2) (\<lambda>n. rbind (ld_num m a 2) (\<lambda>i.
       snprintfMessageSep m desc n (a + 4) (of_nat i) out))"

text \<open>The buffer of \<open>genDataPrintfStr\<close> has \<open>n\<close> bytes; \<open>MAX_PRINTF_DATA_STR_LEN\<close> is 500000.\<close>

definition fresh_buf :: "nat \<Rightarrow> CmmBuf_s" where
  "fresh_buf n = \<lparr>cb_octCnt = of_nat n, cb_offset = 0, cb_data = replicate n (CHR 0x00)\<rparr>"

definition MAX_PRINTF_DATA_STR_LEN :: nat where
  "MAX_PRINTF_DATA_STR_LEN = 500000"

definition genDataPrintfStr :: "cmem \<Rightarrow> ContainerTypeDef_s \<Rightarrow> addr \<Rightarrow> string res" where
  "genDataPrintfStr m def a =
     rbind (snprintfData m ''Data'' def a 0 (fresh_buf MAX_PRINTF_DATA_STR_LEN)) (\<lambda>b. Inr (cb_data b))"

section \<open>The configuration of the platform\<close>

datatype TraceType_e = TRACE_FALSE | TRACE_TERMINAL | TRACE_FILE | TRACE_UDP | TRACE_SYS_LOG

fun trace_num :: "TraceType_e \<Rightarrow> u32" where
  "trace_num TRACE_FALSE = 0" | "trace_num TRACE_TERMINAL = 1" | "trace_num TRACE_FILE = 2"
| "trace_num TRACE_UDP = 3" | "trace_num TRACE_SYS_LOG = 4"

definition TraceCfg_s_t :: ctype where
  "TraceCfg_s_t = CStruct [(''type'', U32), (''port'', U16), (''str'', CArr U8 30)]"

definition PlatformCfg_s_t :: ctype where
  "PlatformCfg_s_t = CStruct [(''modMsgTrace'', TraceCfg_s_t), (''phyTrace'', TraceCfg_s_t), (''uuTrace'', TraceCfg_s_t),
     (''debugCfg'', TraceCfg_s_t), (''rmtSvrIp'', CArr U8 30), (''monSvrIp'', TraceCfg_s_t), (''dbgLevPresent'', U32),
     (''dbgLev'', CArr U8 32)]"

definition enum_var :: "string \<Rightarrow> VarDesc_s" where
  "enum_var name = VarDesc name T_UINT None 0 VAR_DATA 0"

definition TraceType_e_def :: ContainerTypeDef_s where
  "TraceType_e_def = ContainerTypeDef ''TraceType_e'' T_ENUM 4 T_INT None 6
     (map enum_var [''TRACE_FALSE'', ''TRACE_TERMINAL'', ''TRACE_FILE'', ''TRACE_UDP'', ''TRACE_SYS_LOG'', ''TraceType_e_cnt''])"

definition TraceCfg_s_def :: ContainerTypeDef_s where
  "TraceCfg_s_def = ContainerTypeDef ''TraceCfg_s'' T_STRUCT (of_nat (csize TraceCfg_s_t)) T_TYPE None 3
     [VarDesc ''type'' T_TYPE (Some TraceType_e_def) (offsetof TraceCfg_s_t ''type'') VAR_DATA 0,
      VarDesc ''port'' T_U16 None (offsetof TraceCfg_s_t ''port'') VAR_DATA 0,
      VarDesc ''str'' T_CHAR None (offsetof TraceCfg_s_t ''str'') VAR_ARRAY_F 30]"

definition PlatformCfg_s_def :: ContainerTypeDef_s where
  "PlatformCfg_s_def = ContainerTypeDef ''PlatformCfg_s'' T_STRUCT (of_nat (csize PlatformCfg_s_t)) T_TYPE None 8
     [VarDesc ''modMsgTrace'' T_TYPE (Some TraceCfg_s_def) (offsetof PlatformCfg_s_t ''modMsgTrace'') VAR_DATA 0,
      VarDesc ''phyTrace'' T_TYPE (Some TraceCfg_s_def) (offsetof PlatformCfg_s_t ''phyTrace'') VAR_DATA 0,
      VarDesc ''uuTrace'' T_TYPE (Some TraceCfg_s_def) (offsetof PlatformCfg_s_t ''uuTrace'') VAR_DATA 0,
      VarDesc ''debugCfg'' T_TYPE (Some TraceCfg_s_def) (offsetof PlatformCfg_s_t ''debugCfg'') VAR_DATA 0,
      VarDesc ''rmtSvrIp'' T_CHAR None (offsetof PlatformCfg_s_t ''rmtSvrIp'') VAR_ARRAY_F 30,
      VarDesc ''monSvrIp'' T_TYPE (Some TraceCfg_s_def) (offsetof PlatformCfg_s_t ''monSvrIp'') VAR_DATA 0,
      VarDesc ''dbgLevPresent'' T_BOOL None (offsetof PlatformCfg_s_t ''dbgLevPresent'') VAR_DATA 0,
      VarDesc ''dbgLev'' T_U8 None (offsetof PlatformCfg_s_t ''dbgLev'') VAR_ARRAY_F 32]"

record TraceCfg_s =
  tc_type :: TraceType_e
  tc_port :: u16
  tc_str :: string

record PlatformCfg_s =
  pc_modMsgTrace :: TraceCfg_s
  pc_phyTrace :: TraceCfg_s
  pc_uuTrace :: TraceCfg_s
  pc_debugCfg :: TraceCfg_s
  pc_rmtSvrIp :: string
  pc_monSvrIp :: TraceCfg_s
  pc_dbgLevPresent :: bool
  pc_dbgLev :: "u8 list"

text \<open>The configuration in memory.\<close>

definition str_bytes :: "nat \<Rightarrow> string \<Rightarrow> u8 list" where
  "str_bytes n s = take n (map of_char s @ replicate n 0)"

definition trace_bytes :: "TraceCfg_s \<Rightarrow> u8 list" where
  "trace_bytes t = bytes_of_u32 (trace_num (tc_type t)) @ bytes_of_u16 (tc_port t) @ str_bytes 30 (tc_str t)"

definition platform_bytes :: "PlatformCfg_s \<Rightarrow> u8 list" where
  "platform_bytes p = trace_bytes (pc_modMsgTrace p) @ trace_bytes (pc_phyTrace p) @ trace_bytes (pc_uuTrace p) @
     trace_bytes (pc_debugCfg p) @ str_bytes 30 (pc_rmtSvrIp p) @ [0, 0] @ trace_bytes (pc_monSvrIp p) @
     bytes_of_u32 (if pc_dbgLevPresent p then 1 else 0) @ pc_dbgLev p"

definition object_at :: "addr \<Rightarrow> u8 list \<Rightarrow> cmem" where
  "object_at a bs p = (if a \<le> p \<and> p < a + length bs then Some (drop (p - a) bs) else None)"

definition udp_trace :: TraceCfg_s where
  "udp_trace = \<lparr>tc_type = TRACE_UDP, tc_port = 69, tc_str = ''10.0.0.1''\<rparr>"

lemma trace_offsets: "offsetof TraceCfg_s_t ''type'' = 0" "offsetof TraceCfg_s_t ''port'' = 4" "offsetof TraceCfg_s_t ''str'' = 6"
  by code_simp+

lemma upto_3: "[0..<3] = [0, 1, 2]"
  by code_simp

lemma char_codes: "char_of (0 :: nat) = CHR 0x00" "char_of (46 :: nat) = CHR ''.''" "char_of (48 :: nat) = CHR ''0''"
  "char_of (49 :: nat) = CHR ''1''"
  by code_simp+

lemma text_69: "decimal 69 = ''69''"
  by code_simp

lemma fresh_buf_ok: "100 \<le> n \<Longrightarrow> n \<le> 2 ^ 30 \<Longrightarrow> buf_ok (fresh_buf n)"
  by (simp add: buf_ok_def fresh_buf_def unsigned_of_nat take_bit_nat_eq_self)

lemma trace_def_size: "unat (1 :: u32) + 2 * size TraceCfg_s_def < 2 ^ 26"
  by (simp add: TraceCfg_s_def_def TraceType_e_def_def enum_var_def)

lemma upto_8_32: "[0..<8] = [0, 1, 2, 3, 4, 5, 6, 7]"
  "[0..<32] = [0, 1, 2, 3, 4, 5, 6, 7, 8, 9, 10, 11, 12, 13, 14, 15, 16, 17, 18, 19, 20, 21, 22, 23, 24, 25, 26, 27, 28,
    29, 30, 31]"
  by code_simp+

lemma platform_offsets:
  "offsetof PlatformCfg_s_t ''modMsgTrace'' = 0" "offsetof PlatformCfg_s_t ''phyTrace'' = 36"
  "offsetof PlatformCfg_s_t ''uuTrace'' = 72" "offsetof PlatformCfg_s_t ''debugCfg'' = 108"
  "offsetof PlatformCfg_s_t ''rmtSvrIp'' = 144" "offsetof PlatformCfg_s_t ''monSvrIp'' = 176"
  "offsetof PlatformCfg_s_t ''dbgLevPresent'' = 212" "offsetof PlatformCfg_s_t ''dbgLev'' = 216"
  by code_simp+

lemma platform_def_size: "unat (1 :: u32) + 2 * size PlatformCfg_s_def < 2 ^ 26"
  by (simp add: PlatformCfg_s_def_def TraceCfg_s_def_def TraceType_e_def_def enum_var_def)


section \<open>The configuration of the platform as text\<close>

text \<open>What the text is, in terms of the configuration; \<open>k\<close> is the depth.\<close>

definition line_text :: "nat \<Rightarrow> string \<Rightarrow> string \<Rightarrow> string" where
  "line_text k name v = replicate (4 * k) (CHR '' '') @ ''<'' @ name @ ''>'' @ v @ ''</'' @ name @ ''>'' @ nl"

definition block_text :: "nat \<Rightarrow> string \<Rightarrow> string \<Rightarrow> string" where
  "block_text k name inner =
     replicate (4 * k) (CHR '' '') @ ''<'' @ name @ ''>'' @ nl @ inner @ replicate (4 * k) (CHR '' '') @ ''</'' @ name @ ''>'' @ nl"

fun trace_name :: "TraceType_e \<Rightarrow> string" where
  "trace_name TRACE_FALSE = ''TRACE_FALSE''" | "trace_name TRACE_TERMINAL = ''TRACE_TERMINAL''"
| "trace_name TRACE_FILE = ''TRACE_FILE''" | "trace_name TRACE_UDP = ''TRACE_UDP''" | "trace_name TRACE_SYS_LOG = ''TRACE_SYS_LOG''"

definition trace_text :: "nat \<Rightarrow> string \<Rightarrow> TraceCfg_s \<Rightarrow> string" where
  "trace_text k name t = block_text k name
     (line_text (k + 1) ''type'' (trace_name (tc_type t)) @
      line_text (k + 1) ''port'' ('' '' @ decimal (unat (tc_port t))) @
      line_text (k + 1) ''str'' (tc_str t))"

definition platform_text :: "nat \<Rightarrow> string \<Rightarrow> PlatformCfg_s \<Rightarrow> string" where
  "platform_text k name p = block_text k name
     (trace_text (k + 1) ''modMsgTrace'' (pc_modMsgTrace p) @
      trace_text (k + 1) ''phyTrace'' (pc_phyTrace p) @
      trace_text (k + 1) ''uuTrace'' (pc_uuTrace p) @
      trace_text (k + 1) ''debugCfg'' (pc_debugCfg p) @
      line_text (k + 1) ''rmtSvrIp'' (pc_rmtSvrIp p) @
      trace_text (k + 1) ''monSvrIp'' (pc_monSvrIp p) @
      line_text (k + 1) ''dbgLevPresent'' (if pc_dbgLevPresent p then ''true '' else ''false '') @
      replicate (4 * (k + 1)) (CHR '' '') @ ''<dbgLev itemCnt = '' @ [CHR 0x22] @ ''32'' @ [CHR 0x22] @ ''>'' @
      concat (map (\<lambda>b. '' '' @ decimal (unat b)) (pc_dbgLev p)) @ ''</dbgLev>'' @ nl)"

text \<open>The strings of a configuration end inside their arrays; it has a level for each of 32 modules.\<close>

definition str_ok :: "string \<Rightarrow> bool" where
  "str_ok s \<longleftrightarrow> length s < 30 \<and> CHR 0x00 \<notin> set s"

definition platform_ok :: "PlatformCfg_s \<Rightarrow> bool" where
  "platform_ok p \<longleftrightarrow> str_ok (tc_str (pc_modMsgTrace p)) \<and> str_ok (tc_str (pc_phyTrace p)) \<and> str_ok (tc_str (pc_uuTrace p)) \<and>
     str_ok (tc_str (pc_debugCfg p)) \<and> str_ok (pc_rmtSvrIp p) \<and> str_ok (tc_str (pc_monSvrIp p)) \<and> length (pc_dbgLev p) = 32"

text \<open>The bytes at an address, and what is read there.\<close>

definition bytes_at :: "cmem \<Rightarrow> addr \<Rightarrow> u8 list \<Rightarrow> bool" where
  "bytes_at m a bs \<longleftrightarrow> a \<noteq> 0 \<and> (\<forall>i < length bs. \<exists>r. m (a + i) = Some (drop i bs @ r))"

lemma bytes_at_object: "a \<noteq> 0 \<Longrightarrow> bytes_at (object_at a bs) a bs"
  by (simp add: bytes_at_def object_at_def)

lemma bytes_at_append:
  assumes "bytes_at m a (xs @ ys)"
  shows "bytes_at m a xs" "bytes_at m (a + length xs) ys"
proof -
  have at: "\<exists>r. m (a + i) = Some (drop i (xs @ ys) @ r)" if "i < length xs + length ys" for i
    using assms that by (simp add: bytes_at_def)
  show "bytes_at m a xs" unfolding bytes_at_def
  proof (intro conjI allI impI)
    fix i assume "i < length xs"
    then show "\<exists>r. m (a + i) = Some (drop i xs @ r)" using at [of i] by auto
  qed (use assms in \<open>simp add: bytes_at_def\<close>)
  show "bytes_at m (a + length xs) ys" unfolding bytes_at_def
  proof (intro conjI allI impI)
    fix i assume "i < length ys"
    then show "\<exists>r. m (a + length xs + i) = Some (drop i ys @ r)" using at [of "length xs + i"] by (simp add: add.assoc)
  qed (use assms in \<open>simp add: bytes_at_def\<close>)
qed

lemma ld_at: "bytes_at m a bs \<Longrightarrow> 0 < n \<Longrightarrow> n \<le> length bs \<Longrightarrow> ld m a n = Inr (take n bs)"
  by (auto simp: bytes_at_def ld_def dest!: spec [of _ 0])

lemma unat_byte: "unat (ucast (x :: 'a :: len word) :: u8) = unat x mod 256"
  by (simp add: unsigned_ucast_eq take_bit_eq_mod)

lemma unat_drop: "unat (drop_bit k (x :: 'a :: len word)) = unat x div 2 ^ k"
  by (simp add: unat_drop_bit_eq drop_bit_eq_div [where 'a = nat] del: drop_bit_eq_div)

lemma le_num_u32: "le_num (bytes_of_u32 w) = unat w"
proof -
  have "n mod 256 + 256 * (n div 256 mod 256 + 256 * (n div 65536 mod 256 + 256 * (n div 16777216 mod 256))) = n"
    if "n < 2 ^ 32" for n :: nat
  proof -
    have "n div 65536 = n div 256 div 256" "n div 16777216 = n div 256 div 256 div 256"
      by (simp_all flip: div_mult2_eq)
    moreover have "n div 256 div 256 div 256 < 256" using that by (simp add: less_mult_imp_div_less)
    moreover have "k mod 256 + 256 * (k div 256) = k" for k :: nat by simp
    ultimately show ?thesis by simp
  qed
  moreover have "unat w < 2 ^ 32" using unsigned_less [of w] by simp
  ultimately show ?thesis by (simp add: le_num_def bytes_of_u32_def unat_byte unat_drop)
qed

lemma le_num_u16: "le_num (bytes_of_u16 w) = unat w"
proof -
  have "n mod 256 + 256 * (n div 256 mod 256) = n" if "n < 2 ^ 16" for n :: nat
    using that by (simp add: less_mult_imp_div_less)
  moreover have "unat w < 2 ^ 16" using unsigned_less [of w] by simp
  ultimately show ?thesis by (simp add: le_num_def bytes_of_u16_def unat_byte unat_drop)
qed

lemma ld_u32: "bytes_at m a (bytes_of_u32 w) \<Longrightarrow> ld_num m a 4 = Inr (unat w)"
  by (simp add: ld_num_def ld_at le_num_u32)

lemma ld_u16: "bytes_at m a (bytes_of_u16 w) \<Longrightarrow> ld_num m a 2 = Inr (unat w)"
  by (simp add: ld_num_def ld_at le_num_u16)

lemma char_unat: "unat (of_char c :: u8) = of_char c"
proof -
  have "(of_char c :: u8) = of_nat (of_char c)" by (rule of_nat_of_char [symmetric])
  then show ?thesis by (simp only: unsigned_of_nat) (simp add: take_bit_nat_eq_self)
qed

lemma ld_string:
  assumes "bytes_at m a (str_bytes 30 s)" "str_ok s"
  shows "ld_str m a = Inr s"
proof -
  obtain r where r: "m a = Some (str_bytes 30 s @ r)" "a \<noteq> 0"
    using assms by (auto simp: bytes_at_def str_bytes_def str_ok_def dest!: spec [of _ 0])
  obtain k where k: "30 - length s = Suc k" using assms(2) by (auto simp: str_ok_def dest: less_imp_Suc_add)
  have b: "str_bytes 30 s @ r = map of_char s @ 0 # replicate k 0 @ r"
    using assms(2) k by (simp add: str_bytes_def str_ok_def)
  have id: "map (\<lambda>b. char_of (unat b)) (map of_char s :: u8 list) = s"
    by (simp add: comp_def char_unat)
  have "takeWhile (\<lambda>x. x \<noteq> CHR 0x00) (s @ CHR 0x00 # t) = s" for t
    using assms(2) by (subst takeWhile_append2) (auto simp: str_ok_def)
  then show ?thesis
    using r id unfolding b by (simp add: ld_str_def cstr_def guard_def char_codes)
qed

text \<open>The document of a configuration.\<close>

definition trace_doc :: "string \<Rightarrow> TraceCfg_s \<Rightarrow> doc" where
  "trace_doc name t = Block (tag name @ nl)
     [Line (tag ''type'' @ trace_name (tc_type t) @ end_tag ''type'') [], doc_tag ''port'' ['' '' @ decimal (unat (tc_port t))],
      Line (tag ''str'' @ tc_str t @ end_tag ''str'') []] (end_tag name)"

lemma length_str_bytes [simp]: "length (str_bytes n s) = n"
  by (simp add: str_bytes_def)

lemma length_trace_bytes [simp]: "length (trace_bytes t) = 36"
  by (simp add: trace_bytes_def)

lemma trace_data:
  assumes "bytes_at m a (trace_bytes t)" "str_ok (tc_str t)"
  shows "doc_data m name TraceCfg_s_def a = Inr [trace_doc name t]"
proof -
  note b = assms(1) [unfolded trace_bytes_def]
  have r: "ld_num m a 4 = Inr (unat (trace_num (tc_type t)))" "ld_num m (a + 4) 2 = Inr (unat (tc_port t))" "ld_str m (a + 6) = Inr (tc_str t)"
    using ld_u32 [OF bytes_at_append(1) [OF b]] ld_u16 [OF bytes_at_append(1) [OF bytes_at_append(2) [OF b]]]
      ld_string [OF bytes_at_append(2) [OF bytes_at_append(2) [OF b]] assms(2)] by (simp_all add: ac_simps)
  have "a \<noteq> 0" using assms(1) by (simp add: bytes_at_def)
  then show ?thesis
    by (cases "tc_type t")
      (simp_all add: doc_code TraceCfg_s_def_def TraceType_e_def_def enum_var_def trace_offsets getVarRootType_def objSize_def
        is_scalar_def doc_array_def array_count_def array_item_def r Let_def upto_3 trace_doc_def doc_tag_def)
qed

lemma trace_var:
  "bytes_at m a (trace_bytes t) \<Longrightarrow> str_ok (tc_str t) \<Longrightarrow>
    doc_var m (VarDesc name T_TYPE (Some TraceCfg_s_def) off VAR_DATA 0) a = Inr [trace_doc name t]"
  using trace_data [of m a t name]
  by (simp add: doc_code getVarRootType_def objSize_def bytes_at_def TraceCfg_s_def_def [THEN arg_cong, of getContainerRootType] is_scalar_def)

lemma string_var:
  "bytes_at m a (str_bytes 30 s) \<Longrightarrow> str_ok s \<Longrightarrow>
    doc_var m (VarDesc name T_CHAR None off VAR_ARRAY_F 30) a = Inr [Line (tag name @ s @ end_tag name) []]"
  using ld_string [of m a s]
  by (simp add: doc_code getVarRootType_def objSize_def doc_array_def array_count_def array_item_def Let_def)

lemma bool_var:
  "bytes_at m a (bytes_of_u32 (if v then 1 else 0)) \<Longrightarrow> take 3 name \<noteq> ''rev'' \<Longrightarrow>
    doc_var m (VarDesc name T_BOOL None off VAR_DATA 0) a = Inr [doc_tag name [if v then ''true '' else ''false '']]"
  using ld_u32 [of m a "if v then 1 else 0"]
  by (auto simp: doc_code getVarRootType_def objSize_def is_scalar_def bytes_at_def)

lemma rmap_Inr: "(\<And>x. x \<in> set xs \<Longrightarrow> f x = Inr (g x)) \<Longrightarrow> rmap f xs = Inr (map g xs)"
  by (induction xs) auto

lemma ld_byte: "bytes_at m a bs \<Longrightarrow> i < length bs \<Longrightarrow> ld_num m (a + i) 1 = Inr (unat (bs ! i))"
  by (auto simp: bytes_at_def ld_num_def ld_def le_num_def Cons_nth_drop_Suc [symmetric] dest!: spec [of _ i])

lemma levels_var:
  assumes "bytes_at m a lev" "length lev = 32"
  shows "doc_var m (VarDesc name T_U8 None off VAR_ARRAY_F 32) a =
    Inr [Line (count_tag name ''32'') (map (\<lambda>b. '' '' @ decimal (unat b)) lev @ [end_tag name])]"
proof -
  have "rmap (\<lambda>i. scalar_text m T_U8 (a + i)) [0..<32] = Inr (map (\<lambda>i. '' '' @ decimal (unat (lev ! i))) [0..<32])"
    using ld_byte [OF assms(1)] assms(2) by (intro rmap_Inr) simp
  also have "map (\<lambda>i. '' '' @ decimal (unat (lev ! i))) [0..<32] = map (\<lambda>b. '' '' @ decimal (unat b)) lev"
    using assms(2) by (intro nth_equalityI) simp_all
  finally have r: "rmap (\<lambda>i. scalar_text m T_U8 (a + i)) [0..<32] = Inr (map (\<lambda>b. '' '' @ decimal (unat b)) lev)" .
  have "count_text name 32 = count_tag name ''32''" by (simp add: count_text_def) code_simp
  then show ?thesis using r
    by (simp add: doc_code getVarRootType_def objSize_def doc_array_def array_count_def array_item_def is_scalar_def Let_def
        del: scalar_text.simps upt_rec_numeral)
qed

definition platform_doc :: "string \<Rightarrow> PlatformCfg_s \<Rightarrow> doc" where
  "platform_doc name p = Block (tag name @ nl)
     [trace_doc ''modMsgTrace'' (pc_modMsgTrace p), trace_doc ''phyTrace'' (pc_phyTrace p), trace_doc ''uuTrace'' (pc_uuTrace p),
      trace_doc ''debugCfg'' (pc_debugCfg p), Line (tag ''rmtSvrIp'' @ pc_rmtSvrIp p @ end_tag ''rmtSvrIp'') [],
      trace_doc ''monSvrIp'' (pc_monSvrIp p), doc_tag ''dbgLevPresent'' [if pc_dbgLevPresent p then ''true '' else ''false ''],
      Line (count_tag ''dbgLev'' ''32'') (map (\<lambda>b. '' '' @ decimal (unat b)) (pc_dbgLev p) @ [end_tag ''dbgLev''])] (end_tag name)"

lemma platform_data:
  assumes "bytes_at m a (platform_bytes p)" "platform_ok p"
  shows "doc_data m name PlatformCfg_s_def a = Inr [platform_doc name p]"
proof -
  note b0 = assms(1) [unfolded platform_bytes_def]
  note b1 = bytes_at_append(2) [OF b0] note b2 = bytes_at_append(2) [OF b1] note b3 = bytes_at_append(2) [OF b2]
  note b4 = bytes_at_append(2) [OF b3] note b5 = bytes_at_append(2) [OF b4] note b6 = bytes_at_append(2) [OF b5]
  note b7 = bytes_at_append(2) [OF b6] note b8 = bytes_at_append(2) [OF b7]
  have at: "bytes_at m a (trace_bytes (pc_modMsgTrace p))" "bytes_at m (a + 36) (trace_bytes (pc_phyTrace p))"
    "bytes_at m (a + 72) (trace_bytes (pc_uuTrace p))" "bytes_at m (a + 108) (trace_bytes (pc_debugCfg p))"
    "bytes_at m (a + 144) (str_bytes 30 (pc_rmtSvrIp p))" "bytes_at m (a + 176) (trace_bytes (pc_monSvrIp p))"
    "bytes_at m (a + 212) (bytes_of_u32 (if pc_dbgLevPresent p then 1 else 0))" "bytes_at m (a + 216) (pc_dbgLev p)"
    using bytes_at_append(1) [OF b0] bytes_at_append(1) [OF b1] bytes_at_append(1) [OF b2] bytes_at_append(1) [OF b3]
      bytes_at_append(1) [OF b4] bytes_at_append(1) [OF b6] bytes_at_append(1) [OF b7] b8
    by (simp_all add: ac_simps split del: if_split)
  have "ld_num m a 4 = Inr (unat (trace_num (tc_type (pc_modMsgTrace p))))"
    using ld_u32 bytes_at_append(1) [OF at(1) [unfolded trace_bytes_def]] by blast
  then show ?thesis using assms(2) unfolding platform_ok_def
    by (simp add: doc_code(1) PlatformCfg_s_def_def platform_offsets upto_8_32 trace_var [OF at(1)] trace_var [OF at(2)] trace_var [OF at(3)]
        trace_var [OF at(4)] string_var [OF at(5)] trace_var [OF at(6)] bool_var [OF at(7)] levels_var [OF at(8)] platform_doc_def
        split del: if_split)
qed

text \<open>The text of the document.\<close>

lemma text_of_append: "text_of (ps @ qs) = text_of ps @ text_of qs"
  by (simp add: text_of_def)

lemma text_of_parts: "text_of (map (Pair 0) ss) = concat ss"
  by (induction ss) simp_all

lemma pieces_Cons: "pieces sp (d # ds) = render sp d @ pieces sp ds" "pieces sp [] = []"
  by (simp_all add: pieces_def)

lemma render_block: "render sp (Block b ds e) = (sp, b) # pieces (sp + 1) ds @ [(sp, e)]"
  by (simp add: pieces_def)

lemmas text_simps = text_of_append text_of_parts pieces_Cons render_block render.simps(1,2) line_text_def block_text_def tag_def end_tag_def doc_tag_def

lemma trace_doc_text: "unat sp + 1 < 2 ^ 26 \<Longrightarrow> text_of (render sp (trace_doc name t)) = trace_text (unat sp) name t"
  by (simp add: trace_doc_def trace_text_def text_simps succ_spare [of sp 1] nl_def)

lemma platform_doc_text: "unat sp + 2 < 2 ^ 26 \<Longrightarrow> text_of (render sp (platform_doc name p)) = platform_text (unat sp) name p"
  using succ_spare [of sp 2]
  by (simp add: platform_doc_def platform_text_def text_simps trace_doc_text count_tag_def nl_def del: map_map)

lemma platform_depth:
  assumes "unat sp + 2 < 2 ^ 26" "q \<in> set (render sp (platform_doc name p))"
  shows "unat (fst q) \<le> unat sp + 2"
proof -
  have s: "unat (sp + 1) = unat sp + 1" "unat (sp + 1 + 1) = unat sp + 2"
    using succ_spare [of sp 2] succ_spare [of "sp + 1" 1] assms(1) by simp_all
  have t: "unat (fst q) \<le> unat sp + 2" if "q \<in> set (render (sp + 1) (trace_doc nm t))" for nm t
    using that s by (auto simp: trace_doc_def doc_tag_def)
  show ?thesis using assms(2) s t
    unfolding platform_doc_def render_block pieces_Cons by (auto simp: doc_tag_def)
qed

text \<open>
  C17: A configuration of the platform is printed as its text. In any buffer of at least 100 bytes the printer appends to
  what is there the name of each field with its value, in the order of the structure and indented by its depth: the kinds of
  trace by their names, ports and levels in decimal, the strings as they are. When the whole does not fit, it is cut: the
  buffer, but for its last 102 bytes and the deepest indentation, holds its start.
\<close>

theorem platform_printed:
  assumes "buf_ok b" "unat sp < 1000" "platform_ok p" "a \<noteq> 0"
  shows "\<exists>b'. snprintfData (object_at a (platform_bytes p)) name PlatformCfg_s_def a sp b = Inr b' \<and>
    (let all = written b @ platform_text (unat sp) name p;
         n = min (unat (cb_octCnt b) - 102 - 4 * (unat sp + 2)) (length all) in
     take n (cb_data b') = take n all \<and>
     (unat (cb_offset b) + length (platform_text (unat sp) name p) + 101 < unat (cb_octCnt b) \<longrightarrow> written b' = all))"
proof -
  define all where "all = written b @ platform_text (unat sp) name p"
  define room where "room = unat (cb_octCnt b) - 102 - 4 * (unat sp + 2)"
  let ?m = "object_at a (platform_bytes p)" and ?ps = "render sp (platform_doc name p)"
  have sp: "unat sp + 2 < 2 ^ 26" "unat sp + 2 * size PlatformCfg_s_def < 2 ^ 26"
    using assms(2) by (simp_all add: PlatformCfg_s_def_def TraceCfg_s_def_def TraceType_e_def_def enum_var_def)
  have ps: "pieces sp [platform_doc name p] = ?ps" by (simp add: pieces_def)
  obtain b' where b': "snprintfData ?m name PlatformCfg_s_def a sp b = Inr b'"
    "unat (cb_offset b) + length (text_of ?ps) + 101 < unat (cb_octCnt b) \<longrightarrow> written b' = written b @ text_of ?ps"
    and held: "\<And>K acc. \<forall>q \<in> set ?ps. K \<le> unat (cb_octCnt b) - 102 - 4 * unat (fst q) \<Longrightarrow> held K acc b \<Longrightarrow> held K (acc @ text_of ?ps) b'"
    using document_printed [OF assms(1) sp(2) platform_data [where name = name, OF bytes_at_object [OF assms(4)] assms(3)]] unfolding ps by blast
  have "held room all b'"
    unfolding all_def platform_doc_text [OF sp(1), symmetric]
  proof (rule held)
    show "\<forall>q \<in> set ?ps. room \<le> unat (cb_octCnt b) - 102 - 4 * unat (fst q)"
      using platform_depth [OF sp(1), of _ name p] by (fastforce simp: room_def)
    show "held room (written b) b" by (rule held_start [OF assms(1)]) (simp add: room_def)
  qed
  then show ?thesis using b' held_cut [of room all b']
    unfolding platform_doc_text [OF sp(1)] Let_def all_def room_def by blast
qed

text \<open>A configuration in two buffers: it fits in the first, and is cut in the second.\<close>

definition no_trace_at :: "u16 \<Rightarrow> TraceCfg_s" where
  "no_trace_at port = \<lparr>tc_type = TRACE_FALSE, tc_port = port, tc_str = []\<rparr>"

definition udp_platform :: PlatformCfg_s where
  "udp_platform = \<lparr>pc_modMsgTrace = no_trace_at 0, pc_phyTrace = udp_trace, pc_uuTrace = no_trace_at 0, pc_debugCfg = no_trace_at 0,
     pc_rmtSvrIp = ''10.0.0.2'', pc_monSvrIp = no_trace_at 80, pc_dbgLevPresent = True, pc_dbgLev = replicate 31 0 @ [7]\<rparr>"

lemma udp_text:
  "length (platform_text 1 ''p'' udp_platform) < 1500"
  "take 41 (platform_text 1 ''p'' udp_platform) = ''    <p>'' @ nl @ ''        <modMsgTrace>'' @ nl @ ''           ''"
  "41 \<le> length (platform_text 1 ''p'' udp_platform)"
proof -
  have d: "decimal 0 = ''0''" "decimal 7 = ''7''" "decimal 80 = ''80''" by code_simp+
  note parts = platform_text_def trace_text_def block_text_def line_text_def udp_platform_def no_trace_at_def udp_trace_def nl_def
  show "length (platform_text 1 ''p'' udp_platform) < 1500" "41 \<le> length (platform_text 1 ''p'' udp_platform)"
    by (simp_all add: parts d text_69 length_concat sum_list_replicate)
  have i: "replicate 4 (CHR '' '') = ''    ''" "replicate 8 (CHR '' '') = ''        ''" "replicate 12 (CHR '' '') = ''            ''"
    by code_simp+
  have "take 41 (''    <p>'' @ nl @ ''        <modMsgTrace>'' @ nl @ ''            '' @ r) = ''    <p>'' @ nl @ ''        <modMsgTrace>'' @ nl @ ''           ''" for r
    by (simp add: nl_def)
  then show "take 41 (platform_text 1 ''p'' udp_platform) = ''    <p>'' @ nl @ ''        <modMsgTrace>'' @ nl @ ''           ''"
    unfolding platform_text_def trace_text_def [of _ "''modMsgTrace''"] block_text_def line_text_def [of _ "''type''"]
    by (simp add: i)
qed

theorem platform_printed_witness:
  "(\<exists>b'. snprintfData (object_at 8 (platform_bytes udp_platform)) ''p'' PlatformCfg_s_def 8 1 (fresh_buf 2000) = Inr b' \<and>
      written b' = platform_text 1 ''p'' udp_platform) \<and>
   (\<exists>b'. snprintfData (object_at 8 (platform_bytes udp_platform)) ''p'' PlatformCfg_s_def 8 1 (fresh_buf 155) = Inr b' \<and>
      take 41 (cb_data b') = ''    <p>'' @ nl @ ''        <modMsgTrace>'' @ nl @ ''           '')"
proof -
  let ?t = "platform_text 1 ''p'' udp_platform"
  have ok: "platform_ok udp_platform" by (simp add: platform_ok_def udp_platform_def no_trace_at_def udp_trace_def str_ok_def)
  have b: "buf_ok (fresh_buf 2000)" "buf_ok (fresh_buf 155)" by (rule fresh_buf_ok; simp)+
  have w: "written (fresh_buf n) = []" for n by (simp add: written_def fresh_buf_def)
  have o: "unat (cb_octCnt (fresh_buf 2000)) = 2000" "unat (cb_octCnt (fresh_buf 155)) = 155" "unat (cb_offset (fresh_buf n)) = 0" for n
    by (simp_all add: fresh_buf_def)
  show ?thesis
  proof
    obtain b' where "snprintfData (object_at 8 (platform_bytes udp_platform)) ''p'' PlatformCfg_s_def 8 1 (fresh_buf 2000) = Inr b'"
      "0 + length ?t + 101 < 2000 \<longrightarrow> written b' = ?t"
      using platform_printed [OF b(1) _ ok, of 1 8 "''p''"] unfolding w o Let_def by auto
    then show "\<exists>b'. snprintfData (object_at 8 (platform_bytes udp_platform)) ''p'' PlatformCfg_s_def 8 1 (fresh_buf 2000) = Inr b' \<and> written b' = ?t"
      using udp_text(1) by auto
    obtain b' where "snprintfData (object_at 8 (platform_bytes udp_platform)) ''p'' PlatformCfg_s_def 8 1 (fresh_buf 155) = Inr b'"
      "take (min 41 (length ?t)) (cb_data b') = take (min 41 (length ?t)) ?t"
      using platform_printed [OF b(2) _ ok, of 1 8 "''p''"] unfolding w o Let_def by auto
    then show "\<exists>b'. snprintfData (object_at 8 (platform_bytes udp_platform)) ''p'' PlatformCfg_s_def 8 1 (fresh_buf 155) = Inr b' \<and>
        take 41 (cb_data b') = ''    <p>'' @ nl @ ''        <modMsgTrace>'' @ nl @ ''           ''"
      using udp_text(2,3) by (auto simp: min_absorb1)
  qed
qed

theorem print_stays_in_buffer_witness:
  "\<exists>b'. snprintfData (object_at 8 (trace_bytes udp_trace)) ''t'' TraceCfg_s_def 8 1 (fresh_buf 120) = Inr b' \<and>
    drop 20 (cb_data b') = replicate 100 (CHR 0x00)"
proof -
  have str: "str_ok (tc_str udp_trace)" by (simp add: udp_trace_def str_ok_def)
  have ok: "buf_ok (fresh_buf 120)" by (rule fresh_buf_ok) simp_all
  obtain b' where b': "snprintfData (object_at 8 (trace_bytes udp_trace)) ''t'' TraceCfg_s_def 8 1 (fresh_buf 120) = Inr b'"
    using document_printed [OF ok trace_def_size trace_data [OF bytes_at_object str, where name = "''t''"], of 8] by auto
  from print_stays_in_buffer [OF ok trace_def_size b'] b' show ?thesis by (auto simp: fresh_buf_def)
qed

end
