(* ===== verification/CmmLog.thy ===== *)
theory CmmLog
  imports CmmMsgDesc
begin

text \<open>
  Debug output and logging of the platform library: the levels and the format buffers of \<open>common/src/cmmDebug.c\<close>, the
  three destinations of \<open>common/src/cmmLog.c\<close> with the two log files that are written in turn, the start of the
  library in \<open>common/src/cmmApiInit.c\<close>, and the allocation functions of \<open>common/src/cmmMem.c\<close>. The outcome of each
  call on a file is given from outside.
\<close>

section \<open>The log files\<close>

text \<open>
  The three arrays of 256 characters for the names, the file that is written, whether it is open, the bytes counted
  in it, and the contents of the two files.
\<close>

record filelog =
  debug_log_file_name :: string
  log_file_name :: "string list"
  lg_cur :: nat
  lg_open :: bool
  fileByteCount :: int
  lg_files :: "string list"

definition MAX_FILE_SIZE :: int where
  "MAX_FILE_SIZE = 10240"

definition filelog0 :: filelog where
  "filelog0 = \<lparr>debug_log_file_name = replicate 256 (CHR 0x00), log_file_name = replicate 2 (replicate 256 (CHR 0x00)),
     lg_cur = 0, lg_open = False, fileByteCount = 0, lg_files = [[], []]\<rparr>"

text \<open>\<open>logInit\<close> clears four bytes of each array (\<open>sizeof(256)\<close>), and does not check the length of the name.\<close>

definition clear4 :: "string \<Rightarrow> string res" where
  "clear4 b = wr_block b 0 (replicate 4 (CHR 0x00))"

definition logInit :: "string \<Rightarrow> filelog \<Rightarrow> filelog res" where
  "logInit name lg =
     rbind (clear4 (debug_log_file_name lg)) (\<lambda>d.
     rbind (c_strcpy d name) (\<lambda>d.
     rbind (rd (log_file_name lg) 0) (\<lambda>a. rbind (clear4 a) (\<lambda>a.
     rbind (rd (log_file_name lg) 1) (\<lambda>b. rbind (clear4 b) (\<lambda>b.
     rbind (cstr d) (\<lambda>n.
     rbind (c_strcat a n) (\<lambda>a. rbind (c_strcat a ''_A'') (\<lambda>a.
     rbind (c_strcat b n) (\<lambda>b. rbind (c_strcat b ''_B'') (\<lambda>b.
       Inr (lg\<lparr>debug_log_file_name := d, log_file_name := [a, b]\<rparr>))))))))))))"

text \<open>What the operating system answers to the calls of one entry: open, print, flush, close.\<close>

record logio =
  io_open :: bool
  io_write :: bool
  io_flush :: bool
  io_close :: bool

definition openFile :: "logio \<Rightarrow> nat \<Rightarrow> filelog \<Rightarrow> (int \<times> filelog) res" where
  "openFile io cur lg =
     (if cur \<noteq> 0 \<and> cur \<noteq> 1 then Inr (- 1, lg)
      else if io_open io then Inr (0, lg\<lparr>lg_open := True, lg_files := (lg_files lg)[cur := []]\<rparr>)
      else Inr (- 1, lg\<lparr>lg_open := False\<rparr>))"

definition closeFile :: "logio \<Rightarrow> nat \<Rightarrow> filelog \<Rightarrow> (int \<times> filelog) res" where
  "closeFile io cur lg =
     (if cur \<noteq> 0 \<and> cur \<noteq> 1 then Inr (- 1, lg)
      else rbind (guard (lg_open lg) NullDeref) (\<lambda>_.
        Inr (if io_close io then 0 else - 1, lg\<lparr>lg_open := False\<rparr>)))"

definition writeFile :: "logio \<Rightarrow> nat \<Rightarrow> string \<Rightarrow> filelog \<Rightarrow> (int \<times> filelog) res" where
  "writeFile io cur entry lg =
     (if cur \<noteq> 0 \<and> cur \<noteq> 1 then Inr (- 1, lg)
      else rbind (guard (lg_open lg) NullDeref) (\<lambda>_.
        if \<not> io_write io then Inr (- 1, lg\<lparr>fileByteCount := 0\<rparr>)
        else rbind (rd (lg_files lg) cur) (\<lambda>old.
          let lg = lg\<lparr>lg_files := (lg_files lg)[cur := old @ entry]\<rparr>; n = fileByteCount lg + int (length entry) in
          if \<not> io_flush io then Inr (- 1, lg)
          else rbind (guard (n < 2 ^ 31) Undefined) (\<lambda>_.
            if n \<ge> MAX_FILE_SIZE then Inr (1, lg\<lparr>fileByteCount := 0\<rparr>) else Inr (0, lg\<lparr>fileByteCount := n\<rparr>)))))"

definition logToFilelog :: "logio \<Rightarrow> string \<Rightarrow> filelog \<Rightarrow> filelog res" where
  "logToFilelog io entry lg =
     rbind (if \<not> lg_open lg
            then rbind (openFile io (lg_cur lg) lg) (\<lambda>(r, lg).
                   if r = 0 then writeFile io (lg_cur lg) entry lg else Inr (0, lg))
            else writeFile io (lg_cur lg) entry lg) (\<lambda>(ret, lg).
     if ret \<noteq> 0
     then rbind (closeFile io (lg_cur lg) lg) (\<lambda>(_, lg).
            Inr (if ret = 1 then lg\<lparr>lg_cur := (lg_cur lg + 1) mod 2\<rparr> else lg))
     else Inr lg)"

section \<open>What the files hold\<close>

lemma clear4_ok: "4 \<le> length b \<Longrightarrow> clear4 b = Inr (replicate 4 (CHR 0x00) @ drop 4 b)"
  by (simp add: clear4_def overlay_def)

lemma strcat_ok:
  assumes "\<forall>x \<in> set d. x \<noteq> CHR 0x00" and "length d + length s < length b" and "b = d @ CHR 0x00 # r"
  shows "\<exists>r'. c_strcat b s = Inr (d @ s @ CHR 0x00 # r') \<and> length (d @ s @ CHR 0x00 # r') = length b"
  using assms cstr_prefix [OF assms(1)]
  by (simp add: c_strcat_def overlay_def wr_block_def)

text \<open>The names come out right although the arrays are not cleared, as long as they fit.\<close>

lemma logInit_names:
  assumes "length name \<le> 253" and "\<forall>x \<in> set name. x \<noteq> CHR 0x00"
    and "length (debug_log_file_name lg) = 256" and "map length (log_file_name lg) = [256, 256]"
  shows "\<exists>lg'. logInit name lg = Inr lg' \<and> map cstr (log_file_name lg') = [Inr (name @ ''_A''), Inr (name @ ''_B'')] \<and>
    map length (log_file_name lg') = [256, 256] \<and> length (debug_log_file_name lg') = 256"
proof -
  obtain x y where xy: "log_file_name lg = [x, y]" "length x = 256" "length y = 256"
    using assms(4) by (auto simp: map_eq_Cons_conv)
  let ?z = "\<lambda>b. replicate 4 (CHR 0x00) @ drop 4 b"
  let ?d = "overlay (?z (debug_log_file_name lg)) 0 (name @ [CHR 0x00])"
  have d: "c_strcpy (?z (debug_log_file_name lg)) name = Inr ?d" "cstr ?d = Inr name" "length ?d = 256"
    using assms(1,3) cstr_prefix [OF assms(2)] by (simp_all add: c_strcpy_def wr_block_def overlay_def)
  have cat: "\<exists>b1 b2. c_strcat (?z b) name = Inr b1 \<and> c_strcat b1 t = Inr b2 \<and> cstr b2 = Inr (name @ t) \<and> length b2 = 256"
    if lt: "length b = 256" "length t = 2" "\<forall>x \<in> set t. x \<noteq> CHR 0x00" for b t
  proof -
    have z: "?z b = [] @ CHR 0x00 # (replicate 3 (CHR 0x00) @ drop 4 b)" "length (?z b) = 256"
      using lt(1) replicate_Suc [of 3 "CHR 0x00"] by simp_all
    obtain r1 where r1: "c_strcat (?z b) name = Inr (name @ CHR 0x00 # r1)" "length (name @ CHR 0x00 # r1) = 256"
      using strcat_ok [OF _ _ z(1), of name] z(2) assms(1) by auto
    obtain r2 where "c_strcat (name @ CHR 0x00 # r1) t = Inr (name @ t @ CHR 0x00 # r2)" "length (name @ t @ CHR 0x00 # r2) = 256"
      using strcat_ok [OF assms(2), of t "name @ CHR 0x00 # r1" r1] r1(2) lt(2) assms(1) by auto
    moreover have "cstr ((name @ t) @ CHR 0x00 # r2) = Inr (name @ t)" using assms(2) lt(3) by (intro cstr_prefix) auto
    ultimately show ?thesis using r1(1) by auto
  qed
  obtain a1 a2 where a: "c_strcat (?z x) name = Inr a1" "c_strcat a1 ''_A'' = Inr a2" "cstr a2 = Inr (name @ ''_A'')" "length a2 = 256"
    using cat [OF xy(2), of "''_A''"] by auto
  obtain b1 b2 where b: "c_strcat (?z y) name = Inr b1" "c_strcat b1 ''_B'' = Inr b2" "cstr b2 = Inr (name @ ''_B'')" "length b2 = 256"
    using cat [OF xy(3), of "''_B''"] by auto
  show ?thesis using assms(3) xy a b d by (simp add: logInit_def clear4_ok del: replicate.simps)
qed

definition io_fine :: logio where
  "io_fine = \<lparr>io_open = True, io_write = True, io_flush = True, io_close = True\<rparr>"

text \<open>The file written last before the current one, and what has been written to the current one.\<close>

definition prev_file :: "filelog \<Rightarrow> string" where
  "prev_file lg = lg_files lg ! (1 - lg_cur lg)"

definition curr_text :: "filelog \<Rightarrow> string" where
  "curr_text lg = (if lg_open lg then lg_files lg ! lg_cur lg else [])"

definition log_holds :: "string \<Rightarrow> filelog \<Rightarrow> bool" where
  "log_holds log lg \<longleftrightarrow> length (lg_files lg) = 2 \<and> lg_cur lg < 2 \<and> fileByteCount lg = int (length (curr_text lg)) \<and>
     fileByteCount lg < MAX_FILE_SIZE \<and>
     (\<exists>pre. log = pre @ prev_file lg @ curr_text lg \<and> (pre = [] \<or> MAX_FILE_SIZE \<le> int (length (prev_file lg))))"

lemma log_step:
  assumes "log_holds log lg" and "length e < 2 ^ 30"
  shows "\<exists>lg'. logToFilelog io_fine e lg = Inr lg' \<and> log_holds (log @ e) lg'"
proof -
  obtain f0 f1 where f: "lg_files lg = [f0, f1]" using assms(1) by (auto simp: log_holds_def length_Suc_conv numeral_2_eq_2)
  have c: "lg_cur lg = 0 \<or> lg_cur lg = 1" using assms(1) by (auto simp: log_holds_def)
  obtain pre where pre: "log = pre @ prev_file lg @ curr_text lg" "pre = [] \<or> MAX_FILE_SIZE \<le> int (length (prev_file lg))"
    using assms(1) by (auto simp: log_holds_def)
  let ?n = "fileByteCount lg + int (length e)"
  have n: "?n < 2 ^ 31" "?n = int (length (curr_text lg @ e))" using assms by (auto simp: log_holds_def MAX_FILE_SIZE_def)
  let ?files = "(lg_files lg)[lg_cur lg := curr_text lg @ e]"
  let ?new = "if ?n \<ge> MAX_FILE_SIZE
    then lg\<lparr>lg_open := False, fileByteCount := 0, lg_files := ?files, lg_cur := (lg_cur lg + 1) mod 2\<rparr>
    else lg\<lparr>lg_open := True, fileByteCount := ?n, lg_files := ?files\<rparr>"
  have "logToFilelog io_fine e lg = Inr ?new"
    using c n(1) f by (cases "lg_open lg"; elim disjE)
      (simp_all add: logToFilelog_def openFile_def writeFile_def closeFile_def io_fine_def curr_text_def Let_def)
  moreover have "log_holds (log @ e) ?new"
  proof (cases "?n \<ge> MAX_FILE_SIZE")
    case True
    have "log @ e = (pre @ prev_file lg) @ (curr_text lg @ e) @ []" using pre(1) by simp
    moreover have "MAX_FILE_SIZE \<le> int (length (curr_text lg @ e))" using True n(2) by simp
    ultimately show ?thesis
      using True c f by (elim disjE) (auto simp: log_holds_def prev_file_def curr_text_def MAX_FILE_SIZE_def)
  next
    case False
    then show ?thesis
      using pre c f n(2) by (elim disjE) (auto simp: log_holds_def prev_file_def curr_text_def)
  qed
  ultimately show ?thesis by blast
qed

text \<open>
  C22: The two log files hold the latest of the log. As long as the operating system answers all calls, the file
  before the current one and the current one are, one after the other, the end of everything that was logged; and
  what is lost from the beginning is lost only behind a full file of at least \<open>MAX_FILE_SIZE\<close> bytes.
\<close>

theorem log_files_hold_latest:
  assumes "\<forall>e \<in> set es. length e < 2 ^ 30"
  shows "\<exists>lg pre. foreach (logToFilelog io_fine) es filelog0 = Inr lg \<and>
    concat es = pre @ prev_file lg @ curr_text lg \<and> (pre = [] \<or> MAX_FILE_SIZE \<le> int (length (prev_file lg)))"
proof -
  have "\<exists>lg'. foreach (logToFilelog io_fine) es lg = Inr lg' \<and> log_holds (log @ concat es) lg'"
    if "log_holds log lg" "\<forall>e \<in> set es. length e < 2 ^ 30" for log lg es
    using that
  proof (induction es arbitrary: log lg)
    case (Cons e es)
    obtain lg1 where "logToFilelog io_fine e lg = Inr lg1" "log_holds (log @ e) lg1"
      using log_step [OF Cons.prems(1), of e] Cons.prems(2) by auto
    then show ?case using Cons.IH [of "log @ e" lg1] Cons.prems(2) by auto
  qed simp
  moreover have "log_holds [] filelog0"
    by (simp add: log_holds_def filelog0_def prev_file_def curr_text_def MAX_FILE_SIZE_def)
  ultimately have "\<exists>lg'. foreach (logToFilelog io_fine) es filelog0 = Inr lg' \<and> log_holds ([] @ concat es) lg'"
    using assms by blast
  then show ?thesis by (auto simp: log_holds_def)
qed

theorem log_files_hold_latest_witness:
  "\<exists>lg pre. foreach (logToFilelog io_fine) [replicate 6000 (CHR ''a''), replicate 6000 (CHR ''b''), ''end''] filelog0 = Inr lg \<and>
    concat [replicate 6000 (CHR ''a''), replicate 6000 (CHR ''b''), ''end''] = pre @ prev_file lg @ curr_text lg \<and>
    (pre = [] \<or> MAX_FILE_SIZE \<le> int (length (prev_file lg)))"
  by (rule log_files_hold_latest) simp

text \<open>Whatever fails, no file outgrows its limit by more than one entry.\<close>

definition files_bounded :: "nat \<Rightarrow> filelog \<Rightarrow> bool" where
  "files_bounded k lg \<longleftrightarrow> length (lg_files lg) = 2 \<and> lg_cur lg < 2 \<and> 0 \<le> fileByteCount lg \<and>
     fileByteCount lg < MAX_FILE_SIZE \<and>
     (lg_open lg \<longrightarrow> int (length (lg_files lg ! lg_cur lg)) \<le> fileByteCount lg) \<and>
     (\<forall>f \<in> set (lg_files lg). int (length f) < MAX_FILE_SIZE + int k)"

lemma log_bounded:
  assumes "files_bounded k lg" and "length e \<le> k" and "logToFilelog io e lg = Inr lg'"
  shows "files_bounded k lg'"
proof -
  obtain f0 f1 where f: "lg_files lg = [f0, f1]"
    using assms(1) by (auto simp: files_bounded_def length_Suc_conv numeral_2_eq_2)
  have "lg_cur lg = 0 \<or> lg_cur lg = 1" using assms(1) by (auto simp: files_bounded_def)
  then show ?thesis
    using assms f
    by (elim disjE) (auto simp: files_bounded_def logToFilelog_def openFile_def writeFile_def closeFile_def rbind_Inr_iff
        guard_def Let_def MAX_FILE_SIZE_def split: if_splits)
qed

section \<open>Debug output\<close>

text \<open>The levels and the modules as numbers; \<open>DEBUG\<close> comes before \<open>INFO\<close>.\<close>

datatype LogLevel_e = LOG_OF_ERROR | LOG_OF_WARNING | LOG_OF_DEBUG | LOG_OF_INFO

fun level_num :: "LogLevel_e \<Rightarrow> nat" where
  "level_num LOG_OF_ERROR = 0" | "level_num LOG_OF_WARNING = 1" | "level_num LOG_OF_DEBUG = 2" | "level_num LOG_OF_INFO = 3"

definition N_LOG_LEVELS :: nat where
  "N_LOG_LEVELS = 4"

definition mod_name :: "string list" where
  "mod_name = [''MOD_CMM'', ''MOD_L1INF'', ''MOD_L1CTRL'', ''MOD_RLC'', ''MOD_MAC'', ''MOD_F1C'', ''MOD_F1U'',
     ''MOD_ROUTINE'', ''MOD_APP'']"

definition N_DBG_MODS :: nat where
  "N_DBG_MODS = 9"

record tm =
  tm_year :: nat
  tm_mon :: nat
  tm_mday :: nat
  tm_hour :: nat
  tm_min :: nat
  tm_sec :: nat

record dbg =
  gDbgLevelGlb :: nat
  gDbgLevelMod :: "nat list"
  dbg_bufs :: "string list"
  dbgBufIndex :: u32
  stdout_text :: string
  syslog_text :: "(nat \<times> string) list"
  flog :: filelog

definition dbg0 :: dbg where
  "dbg0 = \<lparr>gDbgLevelGlb = level_num LOG_OF_INFO, gDbgLevelMod = replicate N_DBG_MODS (level_num LOG_OF_INFO),
     dbg_bufs = replicate 4 [], dbgBufIndex = 0, stdout_text = [], syslog_text = [], flog = filelog0\<rparr>"

text \<open>A number with at least \<open>k\<close> digits.\<close>

definition padded :: "nat \<Rightarrow> nat \<Rightarrow> string" where
  "padded k n = replicate (k - length (decimal n)) (CHR ''0'') @ decimal n"

definition date_text :: "tm \<Rightarrow> string" where
  "date_text t = ''['' @ padded 4 (1900 + tm_year t) @ ''.'' @ padded 2 (1 + tm_mon t) @ ''.'' @ padded 2 (tm_mday t) @ '' '' @
     padded 2 (tm_hour t) @ '':'' @ padded 2 (tm_min t) @ '':'' @ padded 2 (tm_sec t) @ ''] ''"

definition logToStderr :: "tm \<Rightarrow> nat \<Rightarrow> string \<Rightarrow> string \<Rightarrow> nat \<Rightarrow> string \<Rightarrow> string" where
  "logToStderr t lev md file line s =
     (let esc = CHR 0x1B; nl = [CHR 0x0A]; reset = esc # ''[0m'';
          full = date_text t @ md @ '' '' @ file @ '':'' @ decimal line @ '' '' @ s @ nl in
      if lev = level_num LOG_OF_ERROR then esc # ''[;31m'' @ full @ reset
      else if lev = level_num LOG_OF_WARNING then esc # ''[;33m'' @ full @ reset
      else if lev = level_num LOG_OF_INFO then
        esc # ''[;35m'' @ ''[:'' @ padded 2 (tm_min t) @ '':'' @ padded 2 (tm_sec t) @ ''] '' @ md @ ''  '' @ s @ nl @ reset
      else if lev = level_num LOG_OF_DEBUG then
        ''['' @ padded 2 (tm_min t) @ '':'' @ padded 2 (tm_sec t) @ ''] '' @ md @ ''  '' @ s @ nl
      else [])"

text \<open>The priorities \<open>LOG_ERR\<close>, \<open>LOG_WARNING\<close>, \<open>LOG_INFO\<close> and \<open>LOG_DEBUG\<close> of the system log are 3, 4, 6 and 7.\<close>

definition logToSyslog :: "nat \<Rightarrow> string \<Rightarrow> string \<Rightarrow> nat \<Rightarrow> string \<Rightarrow> (nat \<times> string) list" where
  "logToSyslog lev md file line s =
     (let text = md @ '' '' @ file @ '': '' @ decimal line @ '' '' @ s @ [CHR 0x0A] in
      if lev = level_num LOG_OF_ERROR then [(3, text)]
      else if lev = level_num LOG_OF_WARNING then [(4, text)]
      else if lev = level_num LOG_OF_INFO then [(6, text)]
      else if lev = level_num LOG_OF_DEBUG then [(7, text)]
      else [])"

definition file_entry :: "tm \<Rightarrow> string \<Rightarrow> string \<Rightarrow> nat \<Rightarrow> string \<Rightarrow> string" where
  "file_entry t md file line s =
     date_text t @ md @ '' '' @ file @ '': '' @ decimal line @ '' '' @ s @ [CHR 0x0A]"

text \<open>The text of the format goes into one of four buffers in turn, cut to 4095 characters.\<close>

definition dbgFmt :: "string \<Rightarrow> dbg \<Rightarrow> nat \<times> dbg" where
  "dbgFmt text g =
     (let i = unat (dbgBufIndex g AND 3) in
      (i, g\<lparr>dbg_bufs := (dbg_bufs g)[i := take 4095 text], dbgBufIndex := dbgBufIndex g + 1\<rparr>))"

definition dbgToLog ::
    "TraceType_e \<Rightarrow> tm \<Rightarrow> logio \<Rightarrow> nat \<Rightarrow> nat \<Rightarrow> string \<Rightarrow> nat \<Rightarrow> string \<Rightarrow> dbg \<Rightarrow> dbg res" where
  "dbgToLog dest t io lev md file line s g =
     (if lev < N_LOG_LEVELS \<and> md < N_DBG_MODS then
        rbind (rd mod_name md) (\<lambda>name.
        case dest of
          TRACE_TERMINAL \<Rightarrow> Inr (g\<lparr>stdout_text := stdout_text g @ logToStderr t lev name file line s\<rparr>)
        | TRACE_SYS_LOG \<Rightarrow> Inr (g\<lparr>syslog_text := syslog_text g @ logToSyslog lev name file line s\<rparr>)
        | TRACE_FILE \<Rightarrow> rbind (logToFilelog io (file_entry t name file line s) (flog g)) (\<lambda>f. Inr (g\<lparr>flog := f\<rparr>))
        | _ \<Rightarrow> Inr g)
      else Inr g)"

text \<open>The macro \<open>DBG\<close>.\<close>

definition DBG :: "TraceType_e \<Rightarrow> tm \<Rightarrow> logio \<Rightarrow> nat \<Rightarrow> nat \<Rightarrow> string \<Rightarrow> nat \<Rightarrow> string \<Rightarrow> dbg \<Rightarrow> dbg res" where
  "DBG dest t io lev md file line text g =
     (if lev \<le> gDbgLevelGlb g then
        rbind (rd (gDbgLevelMod g) md) (\<lambda>m.
        if lev \<le> m then
          (case dbgFmt text g of (i, g) \<Rightarrow> rbind (rd (dbg_bufs g) i) (\<lambda>s. dbgToLog dest t io lev md file line s g))
        else Inr g)
      else Inr g)"

definition setupgDbgLevGlb :: "nat \<Rightarrow> dbg \<Rightarrow> bool \<times> dbg" where
  "setupgDbgLevGlb lev g = (if lev < N_LOG_LEVELS then (True, g\<lparr>gDbgLevelGlb := lev\<rparr>) else (False, g))"

definition setupgDbgLevMod :: "nat \<Rightarrow> nat \<Rightarrow> dbg \<Rightarrow> bool \<times> dbg" where
  "setupgDbgLevMod lev md g =
     (if lev < N_LOG_LEVELS \<and> md < N_DBG_MODS then (True, g\<lparr>gDbgLevelMod := (gDbgLevelMod g)[md := lev]\<rparr>)
      else (False, g))"

definition setupgDbgLevSet :: "u8 list \<Rightarrow> dbg \<Rightarrow> dbg res" where
  "setupgDbgLevSet level g =
     rbind (guard (N_DBG_MODS < 32) AssertFail) (\<lambda>_.
     foreach (\<lambda>i g. rbind (rd level i) (\<lambda>v. rbind (wr (gDbgLevelMod g) i (unat v)) (\<lambda>l. Inr (g\<lparr>gDbgLevelMod := l\<rparr>))))
       [0..<N_DBG_MODS] g)"

text \<open>What \<open>printHexData\<close> prints.\<close>

definition hex2 :: "nat \<Rightarrow> string" where
  "hex2 n = (if n < 16 then ''0'' else []) @ hexadecimal n"

definition printHexData :: "u8 list \<Rightarrow> u32 \<Rightarrow> string \<Rightarrow> string res" where
  "printHexData data len flag =
     rbind (rmap (\<lambda>i. rbind (rd data i) (\<lambda>b. Inr (CHR '' '' # hex2 (unat b) @ (if i mod 16 = 15 then [CHR 0x0A] else []))))
       [0..<unat len]) (\<lambda>ss.
     Inr (''-----'' @ flag @ '' len['' @ decimal (unat len) @ '']'' @ [CHR 0x0A] @ concat ss @ ''-----end'' @ [CHR 0x0A]))"

text \<open>A message is formatted and sent exactly when both levels allow it; the formatted text survives three more.\<close>

lemma DBG_silent:
  "md < length (gDbgLevelMod g) \<Longrightarrow> gDbgLevelGlb g < lev \<or> gDbgLevelMod g ! md < lev \<Longrightarrow>
    DBG dest t io lev md file line text g = Inr g"
  by (auto simp: DBG_def)

lemma slot_mod: "unat ((w :: u32) AND 3) = unat w mod 4"
proof -
  have "w AND 3 = take_bit 2 w" by (simp add: take_bit_eq_mask mask_numeral)
  then show ?thesis by (simp add: take_bit_eq_mod unat_mod)
qed

lemma slot_plus: "unat ((w + of_nat k :: u32) AND 3) = (unat w + k) mod 4"
proof -
  have "unat (w + of_nat k) mod 4 = (unat w + k) mod 2 ^ 32 mod 4"
    by (simp add: unat_word_ariths unsigned_of_nat take_bit_eq_mod mod_simps)
  also have "\<dots> = (unat w + k) mod 4" by (rule mod_mod_cancel) simp
  finally show ?thesis by (simp add: slot_mod)
qed

lemma dbgFmt_lives:
  assumes "length (dbg_bufs g) = 4" and "dbgFmt s g = (i, g1)" and "length later \<le> 3"
  shows "dbg_bufs (foldl (\<lambda>g s. snd (dbgFmt s g)) g1 later) ! i = take 4095 s"
proof -
  let ?w = "dbgBufIndex g"
  have keep: "dbg_bufs (foldl (\<lambda>g s. snd (dbgFmt s g)) h later) ! i = dbg_bufs h ! i"
    if "dbgBufIndex h = ?w + of_nat k" "0 < k" "k + length later \<le> 4" for h k
    using that
  proof (induction later arbitrary: h k)
    case (Cons t later)
    let ?h = "snd (dbgFmt t h)"
    have "unat (dbgBufIndex h AND 3) \<noteq> i"
    proof -
      have "(unat ?w + k) mod 4 \<noteq> unat ?w mod 4" using Cons.prems(2,3) by (auto simp: mod_eq_dvd_iff_nat)
      then show ?thesis using assms(2) Cons.prems(1) slot_plus [of ?w k] slot_mod [of ?w] by (auto simp: dbgFmt_def Let_def)
    qed
    then have "dbg_bufs ?h ! i = dbg_bufs h ! i" by (simp add: dbgFmt_def Let_def)
    moreover have "dbg_bufs (foldl (\<lambda>g s. snd (dbgFmt s g)) ?h later) ! i = dbg_bufs ?h ! i"
      by (rule Cons.IH [of _ "Suc k"]) (use Cons.prems in \<open>simp_all add: dbgFmt_def Let_def\<close>)
    ultimately show ?case by simp
  qed simp
  have "i < 4" using assms(2) slot_mod [of ?w] by (auto simp: dbgFmt_def Let_def)
  then have "dbg_bufs g1 ! i = take 4095 s" using assms(1,2) by (auto simp: dbgFmt_def Let_def)
  moreover have "dbgBufIndex g1 = ?w + of_nat 1" using assms(2) by (auto simp: dbgFmt_def Let_def)
  ultimately show ?thesis using keep [of g1 1] assms(3) by simp
qed

section \<open>The start of the library\<close>

definition no_trace :: TraceCfg_s where
  "no_trace = \<lparr>tc_type = TRACE_FALSE, tc_port = 0, tc_str = []\<rparr>"

text \<open>The address goes into an array of 30 characters. \<open>at\<close> is where the configuration lies in memory.\<close>

definition init_platform :: "string \<Rightarrow> PlatformCfg_s res" where
  "init_platform ip =
     rbind (guard (length ip < 30) OutOfRange) (\<lambda>_.
     Inr \<lparr>pc_modMsgTrace = no_trace, pc_phyTrace = \<lparr>tc_type = TRACE_UDP, tc_port = 6882, tc_str = ip\<rparr>,
       pc_uuTrace = no_trace, pc_debugCfg = no_trace, pc_rmtSvrIp = [], pc_monSvrIp = no_trace,
       pc_dbgLevPresent = False, pc_dbgLev = replicate 32 0\<rparr>)"

definition cmmApiInit ::
    "addr \<Rightarrow> tm \<Rightarrow> logio \<Rightarrow> string \<Rightarrow> dbg \<Rightarrow> (PlatformCfg_s \<times> dbg) res" where
  "cmmApiInit at t io ip g =
     rbind (init_platform ip) (\<lambda>p.
     rbind (snprintfData (object_at at (platform_bytes p)) ''platformCfg'' PlatformCfg_s_def at 1 (fresh_buf 2000)) (\<lambda>out.
     rbind (cstr (cb_data out)) (\<lambda>text.
     rbind (DBG (tc_type (pc_debugCfg p)) t io (level_num LOG_OF_INFO) 0 ''cmmApiInit.c'' 51 text g) (\<lambda>g.
     rbind (if pc_dbgLevPresent p then setupgDbgLevSet (pc_dbgLev p) g else Inr g) (\<lambda>g.
       Inr (p, g))))))"

section \<open>Memory allocation\<close>

text \<open>
  The heap as the blocks in use; \<open>alloc\<close> stands for the C library: the address of a new block, 0 when there is no
  memory, and what the block holds. The address 0 is never in use.
\<close>

type_synonym heap = "addr \<Rightarrow> u8 list option"

definition c_malloc :: "(heap \<Rightarrow> nat \<Rightarrow> addr \<times> u8 list) \<Rightarrow> nat \<Rightarrow> heap \<Rightarrow> addr \<times> heap" where
  "c_malloc alloc n h = (case alloc h n of (p, junk) \<Rightarrow>
     if p = 0 then (0, h) else (p, h(p := Some (take n (junk @ replicate n 0)))))"

definition c_free :: "addr \<Rightarrow> heap \<Rightarrow> heap res" where
  "c_free p h = (if p = 0 then Inr h else rbind (guard (h p \<noteq> None) Undefined) (\<lambda>_. Inr (h(p := None))))"

definition c_realloc :: "(heap \<Rightarrow> nat \<Rightarrow> addr \<times> u8 list) \<Rightarrow> addr \<Rightarrow> nat \<Rightarrow> heap \<Rightarrow> (addr \<times> heap) res" where
  "c_realloc alloc p n h =
     (if p = 0 then Inr (c_malloc alloc n h)
      else case h p of
        None \<Rightarrow> Inl Undefined
      | Some bs \<Rightarrow>
          (case alloc h n of (q, junk) \<Rightarrow>
             Inr (if q = 0 then (0, h) else (q, (h(p := None))(q := Some (take n (bs @ junk @ replicate n 0)))))))"

definition MallocDebug :: "(heap \<Rightarrow> nat \<Rightarrow> addr \<times> u8 list) \<Rightarrow> u32 \<Rightarrow> heap \<Rightarrow> addr \<times> heap" where
  "MallocDebug alloc n h = c_malloc alloc (unat n) h"

definition FreeDebug :: "addr \<Rightarrow> heap \<Rightarrow> heap res" where
  "FreeDebug p h = (if p = 0 then Inr h else c_free p h)"

definition ReallocDebug :: "(heap \<Rightarrow> nat \<Rightarrow> addr \<times> u8 list) \<Rightarrow> addr \<Rightarrow> u32 \<Rightarrow> heap \<Rightarrow> (addr \<times> heap) res" where
  "ReallocDebug alloc p n h = c_realloc alloc p (unat n) h"

definition MallocSafe :: "(heap \<Rightarrow> nat \<Rightarrow> addr \<times> u8 list) \<Rightarrow> u32 \<Rightarrow> heap \<Rightarrow> (addr \<times> heap) res" where
  "MallocSafe alloc n h =
     rbind (guard (n \<noteq> 0) AssertFail) (\<lambda>_.
     case c_malloc alloc (unat n) h of (p, h) \<Rightarrow>
       if p = 0 then Inr (0, h)
       else (case h p of None \<Rightarrow> Inl OutOfRange
             | Some bs \<Rightarrow> rbind (wr_block bs 0 (replicate (unat n) 0)) (\<lambda>bs. Inr (p, h(p := Some bs)))))"

definition ReallocSafe :: "(heap \<Rightarrow> nat \<Rightarrow> addr \<times> u8 list) \<Rightarrow> addr \<Rightarrow> u32 \<Rightarrow> heap \<Rightarrow> (addr \<times> heap) res" where
  "ReallocSafe alloc p n h =
     rbind (guard (n \<noteq> 0) AssertFail) (\<lambda>_. rbind (guard (p \<noteq> 0) AssertFail) (\<lambda>_. c_realloc alloc p (unat n) h))"

definition FreeSafe :: "addr \<Rightarrow> heap \<Rightarrow> heap res" where
  "FreeSafe p h = (if p = 0 then Inr h else c_free p h)"

text \<open>A safe block is zeroed, a block that is moved keeps its contents, and a block that is freed is gone.\<close>

lemma MallocSafe_zeroed:
  assumes "n \<noteq> 0" and "alloc h (unat n) = (p, junk)" and "p \<noteq> 0"
  shows "MallocSafe alloc n h = Inr (p, h(p := Some (replicate (unat n) 0)))"
  using assms by (simp add: MallocSafe_def c_malloc_def overlay_def wr_block_def)

lemma ReallocSafe_keeps:
  assumes "n \<noteq> 0" and "p \<noteq> 0" and "h p = Some bs" and "alloc h (unat n) = (q, junk)" and "q \<noteq> 0"
  shows "\<exists>h'. ReallocSafe alloc p n h = Inr (q, h') \<and>
    (\<exists>bs'. h' q = Some bs' \<and> length bs' = unat n \<and> take (length bs) bs' = take (unat n) bs)"
  using assms by (cases "length bs \<le> unat n") (auto simp: ReallocSafe_def c_realloc_def)

lemma MallocSafe_FreeSafe:
  assumes "n \<noteq> 0" and "alloc h (unat n) = (p, junk)" and "p \<noteq> 0" and "h p = None" and "MallocSafe alloc n h = Inr (p, h')"
  shows "FreeSafe p h' = Inr h"
proof -
  have "h' = h(p := Some (replicate (unat n) 0))" using MallocSafe_zeroed [of n alloc h p junk] assms by simp
  then show ?thesis using assms(3,4) by (auto simp: FreeSafe_def c_free_def)
qed

text \<open>The library starts without an address for the trace.\<close>

definition no_ip_platform :: PlatformCfg_s where
  "no_ip_platform = \<lparr>pc_modMsgTrace = no_trace, pc_phyTrace = \<lparr>tc_type = TRACE_UDP, tc_port = 6882, tc_str = []\<rparr>,
     pc_uuTrace = no_trace, pc_debugCfg = no_trace, pc_rmtSvrIp = [], pc_monSvrIp = no_trace,
     pc_dbgLevPresent = False, pc_dbgLev = replicate 32 0\<rparr>"

lemma no_ip_ok: "platform_ok no_ip_platform"
  by (simp add: platform_ok_def no_ip_platform_def no_trace_def str_ok_def)

lemma cmmApiInit_runs: "\<exists>g. cmmApiInit 8 t io [] dbg0 = Inr (no_ip_platform, g)"
proof -
  have ok: "buf_ok (fresh_buf 2000)" by (rule fresh_buf_ok) simp_all
  obtain b where b: "snprintfData (object_at 8 (platform_bytes no_ip_platform)) ''platformCfg'' PlatformCfg_s_def 8 1
      (fresh_buf 2000) = Inr b" "tail_kept (fresh_buf 2000) b"
    using document_printed [OF ok platform_def_size platform_data [OF bytes_at_object no_ip_ok, where name = "''platformCfg''"], of 8] by auto
  have "drop 1900 (cb_data b) = replicate 100 (CHR 0x00)" using b(2) by (simp add: tail_kept_def fresh_buf_def)
  then have "CHR 0x00 \<in> set (drop 1900 (cb_data b))" by simp
  then have "CHR 0x00 \<in> set (cb_data b)" by (rule in_set_dropD)
  then obtain tx where tx: "cstr (cb_data b) = Inr tx" by (simp add: cstr_def)
  have "init_platform [] = Inr no_ip_platform" by (simp add: init_platform_def no_ip_platform_def)
  then show ?thesis
    using b(1) tx by (auto simp: cmmApiInit_def no_ip_platform_def no_trace_def DBG_def dbg0_def dbgFmt_def dbgToLog_def
        N_LOG_LEVELS_def N_DBG_MODS_def mod_name_def)
qed

end
