(* ===== verification/AppCli.thy ===== *)
theory AppCli
  imports MacSystem CmmLog
begin

text \<open>
  The application of \<open>src/main.c\<close>: its configuration and the options that set it, the console commands and
  the messages they post to the MAC, the timer, and the start and the end of the program. \<open>getopt_long\<close> gives its options as a
  list; what is printed to the terminal is not modelled.
\<close>

section \<open>The configuration\<close>

datatype TestMacCliMode_e = CLIMODE_NONE_MODE | CLIMODE_REMOTE_MODE | CLIMODE_LOCAL_MODE | CLIMODE_REMOTE_LOCAL_MODE

record TestmacCfg_s =
  cf_runMode :: TestMacRunMode_e
  cf_operMode :: TestMacOperMode_e
  cf_cliMode :: TestMacCliMode_e
  cf_pdschMode :: TestMacPdschMode_e
  cf_phyStub :: bool
  cf_runtimeTotal :: u16
  cf_runtimePerTc :: u32
  cf_atllloglevel :: u8
  cf_sfnMode :: bool
  cf_remote_trace_ip :: string
  cf_cellMask :: u32

text \<open>
  \<open>loadCfg\<close>; the log level is read from a file when there is one, by \<open>fgets\<close> into a buffer of one byte, which
  only gets the final zero.
\<close>

definition loadCfg :: "bool \<Rightarrow> TestmacCfg_s \<Rightarrow> TestmacCfg_s" where
  "loadCfg level_file cfg = cfg\<lparr>cf_runMode := RUNMODE_FAPI_GENERATOR, cf_operMode := MANUAL,
     cf_cliMode := CLIMODE_LOCAL_MODE, cf_pdschMode := PDSCHMODE_AUTO_MODE, cf_phyStub := False,
     cf_runtimeTotal := 0, cf_runtimePerTc := 0, cf_atllloglevel := (if level_file then 0 else - 1),
     cf_sfnMode := False, cf_cellMask := 0\<rparr>"

text \<open>The number an option stands for; 0 when anything follows it.\<close>

definition opt_number :: "nat \<Rightarrow> string \<Rightarrow> u64" where
  "opt_number base s = (case strtoul base s of (pm, e) \<Rightarrow> if pm = 0 \<or> e \<noteq> [] then 0 else pm)"

definition testmac_slot_num :: "string \<Rightarrow> TestmacCfg_s \<Rightarrow> int \<times> TestmacCfg_s" where
  "testmac_slot_num arg cfg = (let pm = opt_number 0 arg in
     (sint (ucast pm :: u32), cfg\<lparr>cf_runtimePerTc := ucast pm\<rparr>))"

text \<open>The buffer of the address has 128 bytes; the result is the size of a pointer.\<close>

definition testmac_parse_portmask :: "string \<Rightarrow> TestmacCfg_s \<Rightarrow> (int \<times> TestmacCfg_s) res" where
  "testmac_parse_portmask arg cfg =
     rbind (guard (length arg < 128) OutOfRange) (\<lambda>_. Inr (8, cfg\<lparr>cf_remote_trace_ip := arg\<rparr>))"

definition testmac_parse_cellmask ::
    "string \<Rightarrow> TestmacCfg_s \<Rightarrow> u8 list \<Rightarrow> int \<times> TestmacCfg_s \<times> u8 list" where
  "testmac_parse_cellmask arg cfg cellNum =
     (let pm = opt_number 16 arg; mask = (ucast pm :: u32) in
      (sint mask, cfg\<lparr>cf_cellMask := mask\<rparr>,
       if mask \<noteq> 0 then map (\<lambda>i. ucast (drop_bit (2 * i) mask AND 3)) [0..<MAC_PC802_INDEX_MAX] else cellNum))"

text \<open>The options of the command line as \<open>getopt_long\<close> delivers them.\<close>

datatype cl_option = OptTraceIp string | OptSlots string | OptIp string | OptCells string | OptUnknown

definition parse_option :: "cl_option \<Rightarrow> TestmacCfg_s \<times> u8 list \<Rightarrow> (int \<times> TestmacCfg_s \<times> u8 list) res" where
  "parse_option opt st =
     (case st of (cfg, cellNum) \<Rightarrow>
      case opt of
        OptTraceIp a \<Rightarrow> rbind (testmac_parse_portmask a cfg) (\<lambda>(r, cfg'). Inr (r, cfg', cellNum))
      | OptSlots a \<Rightarrow> (case testmac_slot_num a cfg of (r, cfg') \<Rightarrow> Inr (r, cfg', cellNum))
      | OptIp a \<Rightarrow> rbind (testmac_parse_portmask a cfg) (\<lambda>(r, cfg'). Inr (r, cfg', cellNum))
      | OptCells a \<Rightarrow> Inr (testmac_parse_cellmask a cfg cellNum)
      | OptUnknown \<Rightarrow> Inr (- 1, cfg, cellNum))"

fun parse_options :: "cl_option list \<Rightarrow> TestmacCfg_s \<times> u8 list \<Rightarrow> (bool \<times> TestmacCfg_s \<times> u8 list) res" where
  "parse_options [] st = Inr (True, st)"
| "parse_options (p # ps) st =
     rbind (parse_option p st) (\<lambda>(r, st'). if r < 0 then Inr (False, st') else parse_options ps st')"

definition testmac_parse_args ::
    "bool \<Rightarrow> cl_option list \<Rightarrow> TestmacCfg_s \<times> u8 list \<Rightarrow> (bool \<times> TestmacCfg_s \<times> u8 list) res" where
  "testmac_parse_args level_file ps st = (case st of (cfg, cellNum) \<Rightarrow> parse_options ps (loadCfg level_file cfg, cellNum))"

section \<open>Messages to the MAC\<close>

text \<open>A message in memory: 20 bytes.\<close>

definition ctrl_bytes :: "CtrlMsg_s \<Rightarrow> u8 list" where
  "ctrl_bytes m = bytes_of_u16 (cm_msgId m) @ bytes_of_u16 (cm_msgLen m) @ bytes_of_words (cm_paras m)"

definition post_msg :: "CtrlMsg_ev \<Rightarrow> u16 \<Rightarrow> u16 \<Rightarrow> u8 \<Rightarrow> u8 \<Rightarrow> 'e mac \<Rightarrow> 'e mac res" where
  "post_msg ev p0 p1 d c = macAppMgrSend d c (ctrl_bytes \<lparr>cm_msgId = ctrl_id ev, cm_msgLen = 0,
     cm_paras = [ucast p0, ucast p1, ucast d, ucast c]\<rparr>) 20"

definition simTtiInd :: "TestmacCfg_s \<Rightarrow> 'e mac \<Rightarrow> 'e mac res" where
  "simTtiInd cfg s = (if \<not> cf_phyStub cfg then Inr s else post_msg APP_SIM_TTI 0 0 0 0 s)"

definition appTestStart :: "TestmacCfg_s \<Rightarrow> u16 \<Rightarrow> u8 \<Rightarrow> u8 \<Rightarrow> 'e mac \<Rightarrow> 'e mac res" where
  "appTestStart cfg caseId d c s = (if cf_operMode cfg = MANUAL then Inr s else post_msg APP_START_TEST caseId 0 d c s)"

definition appTestStop :: "TestmacCfg_s \<Rightarrow> u16 \<Rightarrow> u8 \<Rightarrow> u8 \<Rightarrow> 'e mac \<Rightarrow> 'e mac res" where
  "appTestStop cfg caseId d c s = (if cf_operMode cfg = AUTO then Inr s else post_msg APP_STOP_TEST caseId 0 d c s)"

definition appTcConfigCase :: "TestmacCfg_s \<Rightarrow> u16 \<Rightarrow> u8 \<Rightarrow> u8 \<Rightarrow> 'e mac \<Rightarrow> 'e mac res" where
  "appTcConfigCase cfg caseId d c s = (if cf_operMode cfg = AUTO then Inr s else post_msg APP_TC_CONFIG_CASE caseId 0 d c s)"

definition appTcDlCase :: "TestmacCfg_s \<Rightarrow> u16 \<Rightarrow> u16 \<Rightarrow> u8 \<Rightarrow> u8 \<Rightarrow> 'e mac \<Rightarrow> 'e mac res" where
  "appTcDlCase cfg sfn slot d c s = (if cf_operMode cfg = AUTO then Inr s else post_msg APP_TC_DL_CASE sfn slot d c s)"

definition appTcUlCase :: "TestmacCfg_s \<Rightarrow> u16 \<Rightarrow> u16 \<Rightarrow> u8 \<Rightarrow> u8 \<Rightarrow> 'e mac \<Rightarrow> 'e mac res" where
  "appTcUlCase cfg sfn slot d c s = (if cf_operMode cfg = AUTO then Inr s else post_msg APP_TC_UL_CASE sfn slot d c s)"

definition appTcTxdataCase :: "TestmacCfg_s \<Rightarrow> u16 \<Rightarrow> u16 \<Rightarrow> u8 \<Rightarrow> u8 \<Rightarrow> 'e mac \<Rightarrow> 'e mac res" where
  "appTcTxdataCase cfg sfn slot d c s = (if cf_operMode cfg = AUTO then Inr s else post_msg APP_TC_TX_CASE sfn slot d c s)"

definition appTcTestCase :: "TestmacCfg_s \<Rightarrow> u16 \<Rightarrow> u16 \<Rightarrow> u8 \<Rightarrow> u8 \<Rightarrow> 'e mac \<Rightarrow> 'e mac res" where
  "appTcTestCase cfg i cellNum d c s = (if cf_operMode cfg = AUTO then Inr s else post_msg APP_TX_CASE i cellNum d c s)"

definition appTcStop :: "TestmacCfg_s \<Rightarrow> u16 \<Rightarrow> u8 \<Rightarrow> u8 \<Rightarrow> 'e mac \<Rightarrow> 'e mac res" where
  "appTcStop cfg caseId d c s = (if cf_operMode cfg = AUTO then Inr s else post_msg APP_TC_STOP caseId 0 d c s)"

definition getTestCaseNum :: "TestmacCfg_s \<Rightarrow> u16" where
  "getTestCaseNum cfg = (if cf_operMode cfg = MANUAL then 0 else 12)"

section \<open>The console\<close>

definition seps :: string where
  "seps = ''{}[]: ,._/='' @ [CHR 0x09, CHR 0x0A]"

text \<open>
  \<open>splitStr\<close> goes on with the line where the caller's \<open>strtok\<close> stopped; at most 10 words, each copied into
  an array of 20 bytes. A word that is missing is the empty string.
\<close>

fun splitWords :: "nat \<Rightarrow> string \<Rightarrow> string list" where
  "splitWords 0 s = []"
| "splitWords (Suc n) s = (case strtok seps s of None \<Rightarrow> [] | Some (t, r) \<Rightarrow> take 19 t # splitWords n r)"

definition splitStr :: "string \<Rightarrow> string list" where
  "splitStr s = (let ws = splitWords 10 s in ws @ replicate (10 - length ws) [])"

definition arg :: "string list \<Rightarrow> nat \<Rightarrow> u64" where
  "arg ws i = fst (strtoul 0 (ws ! i))"

definition CmdTcConfigCase :: "TestmacCfg_s \<Rightarrow> string \<Rightarrow> 'e mac \<Rightarrow> 'e mac res" where
  "CmdTcConfigCase cfg line = (let ws = splitStr line in
     appTcConfigCase cfg (ucast (arg ws 0)) (ucast (arg ws 1)) (ucast (arg ws 2)))"

definition CmdTcDlCase :: "TestmacCfg_s \<Rightarrow> string \<Rightarrow> 'e mac \<Rightarrow> 'e mac res" where
  "CmdTcDlCase cfg line = (let ws = splitStr line in
     appTcDlCase cfg (ucast (arg ws 0)) (ucast (arg ws 1)) (ucast (arg ws 2)) (ucast (arg ws 3)))"

definition CmdTcUlCase :: "TestmacCfg_s \<Rightarrow> string \<Rightarrow> 'e mac \<Rightarrow> 'e mac res" where
  "CmdTcUlCase cfg line = (let ws = splitStr line in
     appTcUlCase cfg (ucast (arg ws 0)) (ucast (arg ws 1)) (ucast (arg ws 2)) (ucast (arg ws 3)))"

definition CmdTcTxCase :: "TestmacCfg_s \<Rightarrow> string \<Rightarrow> 'e mac \<Rightarrow> 'e mac res" where
  "CmdTcTxCase cfg line = (let ws = splitStr line in
     appTcTxdataCase cfg (ucast (arg ws 0)) (ucast (arg ws 1)) (ucast (arg ws 2)) (ucast (arg ws 3)))"

definition CmdTestCase :: "TestmacCfg_s \<Rightarrow> string \<Rightarrow> 'e mac \<Rightarrow> 'e mac res" where
  "CmdTestCase cfg line = (let ws = splitStr line in
     appTcTestCase cfg (ucast (arg ws 0)) (ucast (arg ws 1)) (ucast (arg ws 2)) (ucast (arg ws 3)))"

definition CmdTcStop :: "TestmacCfg_s \<Rightarrow> string \<Rightarrow> 'e mac \<Rightarrow> 'e mac res" where
  "CmdTcStop cfg line = (let ws = splitStr line in
     appTcStop cfg (ucast (arg ws 0)) (ucast (arg ws 1)) (ucast (arg ws 2)))"

definition CmdHelp :: "TestmacCfg_s \<Rightarrow> string \<Rightarrow> 'e mac \<Rightarrow> 'e mac res" where
  "CmdHelp cfg line s = Inr s"

definition CmdList :: "(string \<times> (TestmacCfg_s \<Rightarrow> string \<Rightarrow> 'e mac \<Rightarrow> 'e mac res)) list" where
  "CmdList = [(''help'', CmdHelp), (''tc_config_case'', CmdTcConfigCase), (''tc_dl_case'', CmdTcDlCase),
     (''tc_ul_case'', CmdTcUlCase), (''tc_tx_case'', CmdTcTxCase), (''tc_case'', CmdTestCase), (''tc_stop'', CmdTcStop)]"

text \<open>
  What \<open>read\<close> gives, at most 512 bytes, with the last byte replaced by zero; at the end of the input
  \<open>read\<close> gives nothing and the zero is written before the buffer. The command ends at a space.
\<close>

definition console_line :: "string \<Rightarrow> string res" where
  "console_line input = rbind (guard (input \<noteq> []) OutOfRange) (\<lambda>_.
     Inr (takeWhile (\<lambda>x. x \<noteq> CHR 0x00) (butlast (take 512 input))))"

definition cmd_callback :: "TestmacCfg_s \<Rightarrow> string \<Rightarrow> 'e mac \<Rightarrow> 'e mac res" where
  "cmd_callback cfg input s =
     rbind (console_line input) (\<lambda>line.
     case strtok '' '' line of
       None \<Rightarrow> Inr s
     | Some (cmd, rest) \<Rightarrow>
         (case List.find (\<lambda>(name, parser). strcasecmp0 cmd name) CmdList of
            None \<Rightarrow> Inr s
          | Some (name, parser) \<Rightarrow> parser cfg rest s))"

section \<open>The timer and the end of the program\<close>

record app =
  ap_tti :: int
  ap_checkTti :: int
  ap_caseId :: u16
  ap_totalRuntime :: u16
  ap_phyState :: MacStatus_e
  ap_caseNum :: u16

definition app_zero :: app where
  "app_zero = \<lparr>ap_tti = 0, ap_checkTti = 0, ap_caseId = 0, ap_totalRuntime = 0, ap_phyState = PHY_IDLE, ap_caseNum = 0\<rparr>"

text \<open>The test case that runs next; with a stubbed PHY the timer ends one and starts the other.\<close>

definition next_case :: "TestmacCfg_s \<Rightarrow> app \<Rightarrow> 'e mac \<Rightarrow> (app \<times> 'e mac) res" where
  "next_case cfg a s =
     rbind (appTestStop cfg (ap_caseId a) 0 0 s) (\<lambda>s.
     let i = ap_caseId a + 1; j = (if i = ap_caseNum a then 0 else i) in
     rbind (appTestStart cfg j 0 0 s) (\<lambda>s.
       Inr (a\<lparr>ap_caseId := j, ap_totalRuntime := ap_totalRuntime a + ucast (cf_runtimePerTc cfg)\<rparr>, s)))"

text \<open>
  The wait for the PHY to get out of the configured states: \<open>None\<close> is the end of the program.
\<close>

definition check_phy :: "app \<Rightarrow> 'e mac \<Rightarrow> (app option \<times> 'e mac) res" where
  "check_phy a s =
     rbind (getPhyState 0 0 s) (\<lambda>st.
     if st = PHY_CFG \<or> st = PHY_INIT then
       if ap_checkTti a > 1000000 then Inr (None, s)
       else if ap_phyState a \<noteq> st then Inr (Some (a\<lparr>ap_checkTti := 0, ap_phyState := st\<rparr>), s)
       else Inr (Some (a\<lparr>ap_checkTti := ap_checkTti a + 1\<rparr>), s)
     else Inr (Some a, s))"

text \<open>\<open>oam\<close> is \<open>oamRecvAppMsg\<close>; the counter of ticks is an \<open>int\<close>, its overflow a fault.\<close>

definition tmr_callback ::
    "('e mac \<Rightarrow> 'e mac) \<Rightarrow> TestmacCfg_s \<Rightarrow> app \<Rightarrow> 'e mac \<Rightarrow> (app option \<times> 'e mac) res" where
  "tmr_callback oam cfg a0 s =
     rbind (guard (ap_tti a0 < 2147483647) OutOfRange) (\<lambda>_.
     let a = a0\<lparr>ap_tti := ap_tti a0 + 1\<rparr>; per = cf_runtimePerTc cfg in
     rbind (simTtiInd cfg s) (\<lambda>s.
     let s = oam s in
     if cf_runtimeTotal cfg > 0 \<and> ap_totalRuntime a > cf_runtimeTotal cfg then Inr (None, s)
     else if per \<noteq> 0 \<and> (of_int (ap_tti a) :: u32) mod per = 0 then
       if \<not> cf_phyStub cfg then Inr (Some a, s)
       else if ap_caseNum a = 0 then Inr (Some a, s)
       else rbind (next_case cfg a s) (\<lambda>(a', s). check_phy a' s)
     else check_phy a s))"

definition appSigQuit :: "'e env \<Rightarrow> int list \<Rightarrow> u8 list \<Rightarrow> 'e mac \<Rightarrow> 'e mac res" where
  "appSigQuit env devMapPort cellNum =
     foreach (\<lambda>d s. rbind (rd cellNum d) (\<lambda>n.
       foreach (\<lambda>c s. rbind (rd devMapPort d) (\<lambda>port.
         if port \<ge> 0 then macStop env (of_nat d) (of_nat c) s else Inr s)) [0..<unat n] s))
       [0..<MAC_PC802_INDEX_MAX]"

text \<open>
  \<open>main\<close> up to the event loop: the ports of the devices, the configuration, the platform library, the log, and the MAC.
  \<open>None\<close> is a program that gives up. \<open>sCaseNum\<close> keeps its initial value, so no test is started here.
\<close>

definition cfg_zero :: TestmacCfg_s where
  "cfg_zero = \<lparr>cf_runMode = RUNMODE_FAPI_GENERATOR, cf_operMode = AUTO, cf_cliMode = CLIMODE_NONE_MODE,
     cf_pdschMode = PDSCHMODE_AUTO_MODE, cf_phyStub = False, cf_runtimeTotal = 0, cf_runtimePerTc = 0,
     cf_atllloglevel = 0, cf_sfnMode = False, cf_remote_trace_ip = [], cf_cellMask = 0\<rparr>"

definition main_start ::
    "(nat \<Rightarrow> int) \<Rightarrow> bool \<Rightarrow> cl_option list \<Rightarrow> bool \<Rightarrow> addr \<Rightarrow> tm \<Rightarrow> logio \<Rightarrow> (nat \<Rightarrow> u8) \<Rightarrow> u8 list \<Rightarrow> u64 \<Rightarrow> u64 \<Rightarrow>
     'e \<Rightarrow> (int list \<times> TestmacCfg_s \<times> u8 list \<times> dbg \<times> app \<times> 'e mac) option res" where
  "main_start port_of level_file opts log_ok at t io junk ringMem maxT minT e =
     (let ports = map (\<lambda>d. if port_of d < 0 then - 1 else port_of d) [0..<MAC_PC802_INDEX_MAX];
          cfg = loadCfg level_file cfg_zero in
      rbind (testmac_parse_args level_file opts (cfg, replicate MAC_PC802_INDEX_MAX 1)) (\<lambda>(ok, cfg, cellNum).
      if \<not> ok then Inr None
      else rbind (cmmApiInit at t io (cf_remote_trace_ip cfg) dbg0) (\<lambda>(p, g).
        let s = loadTxCfg 15 (mac_zero (tc_type (pc_phyTrace p) = TRACE_UDP) e) in
        if \<not> log_ok then Inr None
        else rbind (macInit junk ringMem maxT minT (cf_runMode cfg) (cf_operMode cfg) (cf_phyStub cfg) (cf_pdschMode cfg)
                 (cf_runtimePerTc cfg) (cf_sfnMode cfg) s) (\<lambda>s.
             rbind (if ap_caseNum app_zero \<noteq> 0 then appTestStart cfg 0 0 0 s else Inr s) (\<lambda>s.
               Inr (Some (ports, cfg, cellNum, g, app_zero, s)))))))"

text \<open>A program that starts has a MAC in order, configured as the options say.\<close>

lemma main_start_ready:
  assumes "main_start port_of level_file opts log_ok at t io junk ringMem maxT minT e = Inr (Some (ports, cfg, cellNum, g, a, s))"
    and "4096 \<le> length ringMem"
  shows "mac_inv (cf_operMode cfg, cf_phyStub cfg, cf_runtimePerTc cfg, cf_pdschMode cfg, cf_sfnMode cfg) s"
proof -
  obtain udp where m: "macInit junk ringMem maxT minT (cf_runMode cfg) (cf_operMode cfg) (cf_phyStub cfg) (cf_pdschMode cfg)
      (cf_runtimePerTc cfg) (cf_sfnMode cfg) (loadTxCfg 15 (mac_zero udp e)) = Inr s"
    using assms(1) by (auto simp: main_start_def app_zero_def Let_def rbind_Inr_iff split: if_splits prod.splits)
  from init_ready [OF assms(2), of junk maxT minT "cf_runMode cfg" "cf_operMode cfg" "cf_phyStub cfg" "cf_pdschMode cfg"
      "cf_runtimePerTc cfg" "cf_sfnMode cfg" "loadTxCfg 15 (mac_zero udp e)"] m
  obtain f where f: "s = (loadTxCfg 15 (mac_zero udp e))\<lparr>chans := f, mstats := (mstats (loadTxCfg 15 (mac_zero udp e)))\<lparr>maxTimeOut := maxT, minTimeOut := minT\<rparr>\<rparr>"
    "\<forall>d c. d < 4 \<longrightarrow> c < 2 \<longrightarrow> bufs_wf (chans s d c) \<and> qrel (msgqApp (ctx s d c)) [] \<and> qrel (msgqH (ctx s d c)) [] \<and>
      setup_of (chans s d c) = (cf_operMode cfg, cf_phyStub cfg, cf_runtimePerTc cfg, cf_pdschMode cfg, cf_sfnMode cfg)" by auto
  have "stats_wf (mstats s) \<and> trace_ok (mtrace s)"
    unfolding f(1) by (simp add: loadTxCfg_def mac_zero_def stats_wf_def shape2_def trace_ok_def trace0_def MAX_PHY_TRACE_ITEM_def)
  then show ?thesis unfolding mac_inv_def using f(2) by blast
qed

section \<open>Numbers on the console\<close>

lemma not_sep: "is_dec x \<Longrightarrow> x \<notin> set seps"
  by (auto simp: is_dec_def seps_def)

text \<open>Numbers as they are typed: separated by spaces.\<close>

fun join :: "nat list \<Rightarrow> string" where
  "join [] = []"
| "join (n # ns) = decimal n @ (if ns = [] then [] else CHR '' '' # join ns)"

lemma strtok_word:
  assumes "w \<noteq> []" and "\<forall>x \<in> set w. x \<notin> set sp" and "tl0 = [] \<or> hd tl0 \<in> set sp"
  shows "strtok sp (w @ tl0) = Some (w, drop 1 tl0)"
proof -
  have "dropWhile (\<lambda>x. x \<in> set sp) (w @ tl0) = w @ tl0" using assms(1,2) by (cases w) auto
  moreover have "takeWhile (\<lambda>x. x \<notin> set sp) (w @ tl0) = w"
    using assms(2,3) by (cases tl0) (auto simp: takeWhile_append takeWhile_eq_all_conv)
  moreover have "dropWhile (\<lambda>x. x \<notin> set sp) (w @ tl0) = tl0"
    using assms(2,3) by (cases tl0) (auto simp: dropWhile_append)
  ultimately show ?thesis using assms(1) by (simp add: strtok_def)
qed

lemma splitWords_join:
  "length ns < k \<Longrightarrow> \<forall>n \<in> set ns. n < 10 ^ 19 \<Longrightarrow> splitWords k (join ns) = map decimal ns"
proof (induction ns arbitrary: k)
  case Nil
  then show ?case by (cases k) (auto simp: strtok_def)
next
  case (Cons n ns)
  obtain j where k: "k = Suc j" using Cons.prems(1) by (cases k) auto
  have "strtok seps (join (n # ns)) = Some (decimal n, join ns)"
    using strtok_word [of "decimal n" seps "if ns = [] then [] else CHR '' '' # join ns"]
      decimal_nonempty [of n] decimal_dec [of _ n] not_sep by (auto simp: seps_def)
  moreover have "take 19 (decimal n) = decimal n"
    using length_decimal [of n 19] Cons.prems(2) by simp
  ultimately show ?case using Cons k by simp
qed

lemma splitStr_join:
  "length ns < 10 \<Longrightarrow> \<forall>n \<in> set ns. n < 10 ^ 19 \<Longrightarrow> splitStr (join ns) = map decimal ns @ replicate (10 - length ns) []"
  by (simp add: splitStr_def splitWords_join Let_def)

lemma arg_decimal:
  assumes "length ns < 10" and "\<forall>n \<in> set ns. n < 10 ^ 19" and "i < length ns"
  shows "arg (splitStr (join ns)) i = of_nat (ns ! i)"
proof -
  have "ns ! i < 2 ^ 64" using assms(2,3) nth_mem [OF assms(3)] by fastforce
  then show ?thesis
    using assms by (simp add: arg_def splitStr_join nth_append strtoul_decimal)
qed

lemma ucast_wide:
  "(ucast (ucast (w :: u16) :: u64) :: u16) = w" "(ucast (ucast (v :: u8) :: u64) :: u8) = v"
  by (rule bit_word_eqI; simp add: bit_simps)+

section \<open>From the console to the handler\<close>

text \<open>The commands: the message they post, and whether they have two numbers before the cell.\<close>

definition console_table :: "(string \<times> CtrlMsg_ev \<times> bool) list" where
  "console_table = [(''tc_config_case'', APP_TC_CONFIG_CASE, False), (''tc_dl_case'', APP_TC_DL_CASE, True),
     (''tc_ul_case'', APP_TC_UL_CASE, True), (''tc_tx_case'', APP_TC_TX_CASE, True), (''tc_case'', APP_TX_CASE, True),
     (''tc_stop'', APP_TC_STOP, False)]"

definition console_args :: "bool \<Rightarrow> u16 \<Rightarrow> u16 \<Rightarrow> u8 \<Rightarrow> u8 \<Rightarrow> nat list" where
  "console_args two a b d c = unat a # (if two then [unat b] else []) @ [unat d, unat c]"

definition typed :: "string \<Rightarrow> nat list \<Rightarrow> string" where
  "typed name ns = name @ CHR '' '' # join ns @ [CHR 0x0A]"

lemma console_args_small: "\<forall>n \<in> set (console_args two a b d c). n < 65536"
proof -
  have "unat a < 2 ^ 16" "unat b < 2 ^ 16" "unat d < 2 ^ 8" "unat c < 2 ^ 8"
    using unsigned_less [of a] unsigned_less [of b] unsigned_less [of d] unsigned_less [of c] by simp_all
  then show ?thesis by (auto simp: console_args_def)
qed

lemma length_join: "\<forall>n \<in> set ns. n < 65536 \<Longrightarrow> length (join ns) \<le> 6 * length ns"
proof (induction ns)
  case (Cons n ns)
  then have "length (decimal n) \<le> 5" using length_decimal [of n 5] by simp
  then show ?case using Cons by auto
qed simp

lemma join_chars: "x \<in> set (join ns) \<Longrightarrow> x \<noteq> CHR 0x00"
proof (induction ns)
  case (Cons n ns)
  then show ?case using decimal_dec [of x n] not_sign [of x] by (auto split: if_splits)
qed simp

lemma console_line_typed:
  assumes "length (typed name ns) \<le> 512" and "\<forall>x \<in> set name. x \<noteq> CHR 0x00"
  shows "console_line (typed name ns) = Inr (name @ CHR '' '' # join ns)"
proof -
  have "\<forall>x \<in> set (name @ CHR '' '' # join ns). x \<noteq> CHR 0x00" using assms(2) join_chars by auto
  then have "takeWhile (\<lambda>x. x \<noteq> CHR 0x00) (name @ CHR '' '' # join ns) = name @ CHR '' '' # join ns"
    by (simp only: takeWhile_eq_all_conv)
  moreover have "butlast (typed name ns) = name @ CHR '' '' # join ns" by (simp add: typed_def butlast_append)
  ultimately show ?thesis using assms(1) by (simp add: console_line_def typed_def)
qed

lemma find_commands:
  "List.find (\<lambda>(name, parser). strcasecmp0 ''tc_config_case'' name) CmdList = Some (''tc_config_case'', CmdTcConfigCase)"
  "List.find (\<lambda>(name, parser). strcasecmp0 ''tc_dl_case'' name) CmdList = Some (''tc_dl_case'', CmdTcDlCase)"
  "List.find (\<lambda>(name, parser). strcasecmp0 ''tc_ul_case'' name) CmdList = Some (''tc_ul_case'', CmdTcUlCase)"
  "List.find (\<lambda>(name, parser). strcasecmp0 ''tc_tx_case'' name) CmdList = Some (''tc_tx_case'', CmdTcTxCase)"
  "List.find (\<lambda>(name, parser). strcasecmp0 ''tc_case'' name) CmdList = Some (''tc_case'', CmdTestCase)"
  "List.find (\<lambda>(name, parser). strcasecmp0 ''tc_stop'' name) CmdList = Some (''tc_stop'', CmdTcStop)"
  by (simp_all add: CmdList_def strcasecmp0_def chr_lower_def Let_def)

lemma console_arg:
  "i < length (console_args two a b d c) \<Longrightarrow>
    arg (splitStr (join (console_args two a b d c))) i = of_nat (console_args two a b d c ! i)"
proof (rule arg_decimal)
  show "\<forall>n \<in> set (console_args two a b d c). n < 10 ^ 19" using console_args_small by fastforce
qed (auto simp: console_args_def)

lemma console_arg_two:
  "arg (splitStr (join (console_args True a b d c))) 0 = of_nat (unat a)"
  "arg (splitStr (join (console_args True a b d c))) 1 = of_nat (unat b)"
  "arg (splitStr (join (console_args True a b d c))) 2 = of_nat (unat d)"
  "arg (splitStr (join (console_args True a b d c))) 3 = of_nat (unat c)"
  by (subst console_arg; simp add: console_args_def)+

lemma console_arg_one:
  "arg (splitStr (join (console_args False a b d c))) 0 = of_nat (unat a)"
  "arg (splitStr (join (console_args False a b d c))) 1 = of_nat (unat d)"
  "arg (splitStr (join (console_args False a b d c))) 2 = of_nat (unat c)"
  by (subst console_arg; simp add: console_args_def)+

lemmas commands = CmdTcConfigCase_def CmdTcDlCase_def CmdTcUlCase_def CmdTcTxCase_def CmdTestCase_def CmdTcStop_def
  appTcConfigCase_def appTcDlCase_def appTcUlCase_def appTcTxdataCase_def appTcTestCase_def appTcStop_def

lemma typed_posts:
  assumes "(name, ev, two) \<in> set console_table" and "cf_operMode cfg = MANUAL"
  shows "cmd_callback cfg (typed name (console_args two a b d c)) s = post_msg ev a (if two then b else 0) d c s"
proof -
  let ?ns = "console_args two a b d c"
  have len: "length ?ns \<le> 4" by (simp add: console_args_def)
  have nm: "length name \<le> 14" "name \<noteq> []" "\<forall>x \<in> set name. x \<noteq> CHR 0x00 \<and> x \<notin> set '' ''"
    using assms(1) by (auto simp: console_table_def)
  have "length (join ?ns) \<le> 6 * length ?ns" by (rule length_join [OF console_args_small])
  then have "length (typed name ?ns) \<le> 512" using len nm(1) by (simp add: typed_def)
  then have line: "console_line (typed name ?ns) = Inr (name @ CHR '' '' # join ?ns)"
    using nm(3) by (intro console_line_typed) auto
  have tok: "strtok '' '' (name @ CHR '' '' # join ?ns) = Some (name, join ?ns)"
    using strtok_word [of name "'' ''" "CHR '' '' # join ?ns"] nm(2,3) by simp
  have par: "cmd_callback cfg (typed name ?ns) s = parser cfg (join ?ns) s"
    if "List.find (\<lambda>(name', parser). strcasecmp0 name name') CmdList = Some (name, parser)" for parser
    by (simp add: cmd_callback_def line tok that)
  show ?thesis
    using assms(1) par unfolding console_table_def
    by (auto simp: find_commands commands Let_def console_arg_two console_arg_one [unfolded One_nat_def]
        console_arg_two [unfolded One_nat_def] assms(2) ucast_wide)
qed

lemma length_ctrl_bytes: "length (cm_paras m) = 4 \<Longrightarrow> length (ctrl_bytes m) = 20"
  by (simp add: ctrl_bytes_def)

lemma half_words:
  "ucast (u32_of_bytes x y z w) = u16_of_bytes x y" "ucast (drop_bit 16 (u32_of_bytes x y z w)) = u16_of_bytes z w"
  unfolding u32_of_bytes_def u16_of_bytes_def
  by (rule bit_word_eqI, auto simp: bit_simps not_less dest: bit_imp_le_length)+

lemma ctrl_roundtrip:
  assumes "length (cm_paras m) = 4"
  shows "ctrl_of_words (qpad (ctrl_bytes m)) = Inr m"
proof -
  let ?w = "u32_of_bytes (ucast (cm_msgId m)) (ucast (drop_bit 8 (cm_msgId m))) (ucast (cm_msgLen m)) (ucast (drop_bit 8 (cm_msgLen m)))"
  have "qpad (ctrl_bytes m) = words_of_bytes (ctrl_bytes m)"
    unfolding qpad_def length_ctrl_bytes [OF assms] by (simp add: words_for_def)
  also have "\<dots> = ?w # cm_paras m" by (simp add: ctrl_bytes_def bytes_of_u16_def)
  finally show ?thesis using assms by (simp add: ctrl_of_words_def half_words)
qed

lemma post_msg_ring:
  fixes ev :: CtrlMsg_ev and p0 p1 :: u16 and d c :: u8
  assumes "d < 4" and "c < 2" and "qrel (msgqApp (ctx s d c)) q"
  defines "r \<equiv> msgqApp (ctx s d c)"
  defines "m \<equiv> \<lparr>cm_msgId = ctrl_id ev, cm_msgLen = 0, cm_paras = [ucast p0, ucast p1, ucast d, ucast c]\<rparr>"
  shows "\<exists>r'. post_msg ev p0 p1 d c s = Inr (set_chan d c (chans s d c\<lparr>gMacCtx := (ctx s d c)\<lparr>msgqApp := r'\<rparr>\<rparr>) s) \<and>
    qrel r' (if qheader r (qi r) 5 = None then q else q @ [qpad (ctrl_bytes m)])"
proof -
  have len: "length (ctrl_bytes m) = 20" by (rule length_ctrl_bytes) (simp add: m_def)
  have w: "length (qpad (ctrl_bytes m)) = 5" by (simp add: len words_for_def)
  have t: "take (unat (20 :: u32)) (ctrl_bytes m) = ctrl_bytes m" by (simp add: len)
  obtain rc r' where "QuickMsgRingSendMsg r (MsgExt (ctrl_bytes m)) 20 = Inr (rc, r')"
    "qrel r' (if qheader r (qi r) 5 = None then q else q @ [qpad (ctrl_bytes m)])"
    using SendMsg_ext_rel [OF assms(3), of 20 "ctrl_bytes m"] unfolding t w r_def by (auto simp: len)
  then show ?thesis
    using assms(1,2) by (auto simp: post_msg_def macAppMgrSend_def m_def [symmetric] r_def get_chan_def upd_ctx_def
        upd_chan_ok simp del: QuickMsgRingSendMsg.simps)
qed

text \<open>
  C10: What is typed on the console arrives at the MAC. In the manual mode a command with its numbers posts
  one message to the ring of the cell it names, unless the ring is full, and changes nothing else; the
  message decodes to the command's identifier and exactly the numbers typed.
\<close>

theorem console_command_posts:
  assumes "(name, ev, two) \<in> set console_table" and "cf_operMode cfg = MANUAL"
    and "d < 4" and "c < 2" and "qrel (msgqApp (ctx s d c)) q"
  shows "\<exists>r' m. cmd_callback cfg (typed name (console_args two a b d c)) s
      = Inr (set_chan d c (chans s d c\<lparr>gMacCtx := (ctx s d c)\<lparr>msgqApp := r'\<rparr>\<rparr>) s) \<and>
    qrel r' (if qheader (msgqApp (ctx s d c)) (qi (msgqApp (ctx s d c))) 5 = None then q else q @ [m]) \<and>
    ctrl_of_words m = Inr \<lparr>cm_msgId = ctrl_id ev, cm_msgLen = 0,
      cm_paras = [ucast a, if two then ucast b else 0, ucast d, ucast c]\<rparr>"
proof -
  let ?m = "\<lparr>cm_msgId = ctrl_id ev, cm_msgLen = 0, cm_paras = [ucast a, ucast (if two then b else 0), ucast d, ucast c]\<rparr>"
  have p: "[ucast a, ucast (if two then b else 0), ucast d, ucast c] = [ucast a, if two then ucast b else 0, ucast d, ucast c :: u32]"
    by simp
  obtain r' where "post_msg ev a (if two then b else 0) d c s
      = Inr (set_chan d c (chans s d c\<lparr>gMacCtx := (ctx s d c)\<lparr>msgqApp := r'\<rparr>\<rparr>) s)"
    "qrel r' (if qheader (msgqApp (ctx s d c)) (qi (msgqApp (ctx s d c))) 5 = None then q else q @ [qpad (ctrl_bytes ?m)])"
    using post_msg_ring [OF assms(3-5), of ev a "if two then b else 0"] by blast
  moreover have "ctrl_of_words (qpad (ctrl_bytes ?m)) = Inr ?m" by (rule ctrl_roundtrip) simp
  ultimately show ?thesis unfolding typed_posts [OF assms(1,2)] p by blast
qed

text \<open>A cell that is ready: its rings are empty and have room.\<close>

definition manual_cfg :: TestmacCfg_s where
  "manual_cfg = \<lparr>cf_runMode = RUNMODE_FAPI_GENERATOR, cf_operMode = MANUAL, cf_cliMode = CLIMODE_LOCAL_MODE,
     cf_pdschMode = PDSCHMODE_AUTO_MODE, cf_phyStub = True, cf_runtimeTotal = 0, cf_runtimePerTc = 0,
     cf_atllloglevel = - 1, cf_sfnMode = False, cf_remote_trace_ip = [], cf_cellMask = 0\<rparr>"

definition ready_ring :: qring where
  "ready_ring = qring_zero\<lparr>qr_buf := replicate 16 0, qr_size := 16, qr_flag := 1, qr_emptyFlag := 1\<rparr>"

definition ready_mac :: "nat mac" where
  "ready_mac = idle_mac\<lparr>chans := (\<lambda>d c. chan_zero\<lparr>gMacCtx := (gMacCtx chan_zero)\<lparr>msgqApp := ready_ring\<rparr>\<rparr>)\<rparr>"

lemma ready_mac_ring:
  "qrel (msgqApp (ctx ready_mac d c)) []" "qheader (msgqApp (ctx ready_mac d c)) (qi (msgqApp (ctx ready_mac d c))) 5 = Some 0"
  by (simp_all add: ready_mac_def ready_ring_def qring_zero_def qrel_def qwf_def qshape_def qused_def qheader_def qfree_def)

theorem console_command_posts_witness:
  "\<exists>s' m. cmd_callback manual_cfg (''tc_dl_case 1000 19 3 1'' @ [CHR 0x0A]) ready_mac = Inr s' \<and>
    qrel (msgqApp (ctx s' 3 1)) [m] \<and>
    ctrl_of_words m = Inr \<lparr>cm_msgId = ctrl_id APP_TC_DL_CASE, cm_msgLen = 0, cm_paras = [1000, 19, 3, 1]\<rparr>"
proof -
  have ty: "typed ''tc_dl_case'' (console_args True 1000 19 3 1) = ''tc_dl_case 1000 19 3 1'' @ [CHR 0x0A]"
    by code_simp
  have "cf_operMode manual_cfg = MANUAL" by (simp add: manual_cfg_def)
  moreover have "(''tc_dl_case'', APP_TC_DL_CASE, True) \<in> set console_table" by (simp add: console_table_def)
  moreover have "(3 :: u8) < 4" "(1 :: u8) < 2" by simp_all
  ultimately show ?thesis
    using console_command_posts [of "''tc_dl_case''" APP_TC_DL_CASE True manual_cfg 3 1 ready_mac "[]" 1000 19]
      ready_mac_ring [of 3 1] unfolding ty by auto
qed

section \<open>The stubbed PHY\<close>

text \<open>What can happen to a cell after a tick of the timer: the MAC polls its ring, or a message is posted.\<close>

datatype session = Poll | Post CtrlMsg_ev u16 u16

fun session_step :: "'e env \<Rightarrow> files \<Rightarrow> session \<Rightarrow> 'e mac \<Rightarrow> 'e mac res" where
  "session_step env fs Poll s = macRevAppCtrlMsg env fs 0 0 s"
| "session_step env fs (Post ev p0 p1) s = post_msg ev p0 p1 0 0 s"

definition tick_msg :: "u32 list" where
  "tick_msg = qpad (ctrl_bytes \<lparr>cm_msgId = ctrl_id APP_SIM_TTI, cm_msgLen = 0, cm_paras = [0, 0, 0, 0]\<rparr>)"

lemma tick_msg_words: "tick_msg = [101, 0, 0, 0, 0]"
  by code_simp

lemma session_blocked:
  assumes "5 \<le> length m" and "ucast (m ! 0) \<notin> app_known"
  shows "qrel (msgqApp (ctx s 0 0)) (m # q) \<Longrightarrow>
    \<exists>s' q'. foreach (session_step env fs) es s = Inr s' \<and> qrel (msgqApp (ctx s' 0 0)) (m # q') \<and>
      lib s' = lib s \<and> mstats s' = mstats s"
proof (induction es arbitrary: s q)
  case (Cons e es)
  have "\<exists>s1 q1. session_step env fs e s = Inr s1 \<and> qrel (msgqApp (ctx s1 0 0)) (m # q1) \<and>
    lib s1 = lib s \<and> mstats s1 = mstats s"
  proof (cases e)
    case Poll
    then show ?thesis using unknown_poll [OF _ _ Cons.prems assms, of env fs] by auto
  next
    case (Post ev p0 p1)
    then show ?thesis
      using post_msg_ring [OF _ _ Cons.prems, of ev p0 p1]
      by (fastforce simp: set_chan_def split: if_splits)
  qed
  then show ?case using Cons.IH by fastforce
qed auto

text \<open>
  C27: With a stubbed PHY the first tick of the timer is the last thing the MAC gets. The tick posts a message
  that no handler knows to cell (0, 0); when it comes to the head of the ring it stays there, whatever is polled
  and posted afterwards: nothing is sent to the PHY, no statistics change, and no later command is handled. The PHY is
  stubbed by a field of the configuration that \<open>loadCfg\<close> clears and no option of the program sets.
\<close>

theorem stub_tick_blocks:
  assumes "cf_phyStub cfg" and "qrel (msgqApp (ctx s 0 0)) []"
    and "qheader (msgqApp (ctx s 0 0)) (qi (msgqApp (ctx s 0 0))) 5 \<noteq> None"
  shows "\<exists>s1 s2 q. simTtiInd cfg s = Inr s1 \<and> foreach (session_step env fs) es s1 = Inr s2 \<and>
    qrel (msgqApp (ctx s2 0 0)) (tick_msg # q) \<and> lib s2 = lib s \<and> mstats s2 = mstats s"
proof -
  obtain s1 where s1: "simTtiInd cfg s = Inr s1" "qrel (msgqApp (ctx s1 0 0)) [tick_msg]" "lib s1 = lib s" "mstats s1 = mstats s"
    using post_msg_ring [OF _ _ assms(2), of APP_SIM_TTI 0 0] assms(1,3)
    by (auto simp: simTtiInd_def tick_msg_def set_chan_def)
  have "5 \<le> length tick_msg" "ucast (tick_msg ! 0) \<notin> app_known" by (simp_all add: tick_msg_words app_known_def)
  from session_blocked [OF this s1(2), of env fs es] show ?thesis using s1 by auto
qed

theorem stub_tick_blocks_witness:
  "\<exists>s1 s2 q. simTtiInd manual_cfg ready_mac = Inr s1 \<and>
    foreach (session_step count_env (\<lambda>_. None)) [Poll, Post APP_TC_STOP 0 0, Poll, Poll] s1 = Inr s2 \<and>
    qrel (msgqApp (ctx s2 0 0)) (tick_msg # q) \<and> lib s2 = 0"
  using stub_tick_blocks [of manual_cfg ready_mac count_env "\<lambda>_. None" "[Poll, Post APP_TC_STOP 0 0, Poll, Poll]"]
    ready_mac_ring [of 0 0] by (auto simp: manual_cfg_def ready_mac_def idle_mac_def simp del: foreach.simps)

section \<open>The program\<close>

text \<open>
  The program between its start and its end: a line is typed, the timer expires, the signal to quit is caught (its handler
  is installed by the build for shared memory only), or the MAC works. \<open>oamRecvAppMsg\<close>, which the timer calls, does
  not touch the MAC; it is modelled in \<open>OamFeu\<close>.
\<close>

inductive main_step :: "'e env \<Rightarrow> TestmacCfg_s \<Rightarrow> int list \<Rightarrow> u8 list \<Rightarrow> app \<times> 'e mac \<Rightarrow> app \<times> 'e mac \<Rightarrow> bool"
  for env cfg ports cellNum where
  console: "cmd_callback cfg line s = Inr s' \<Longrightarrow> main_step env cfg ports cellNum (a, s) (a, s')"
| timer: "tmr_callback (\<lambda>s. s) cfg a s = Inr (Some a', s') \<Longrightarrow> main_step env cfg ports cellNum (a, s) (a', s')"
| quit: "appSigQuit env ports cellNum s = Inr s' \<Longrightarrow> main_step env cfg ports cellNum (a, s) (a, s')"

inductive app_step :: "'e env \<Rightarrow> files \<Rightarrow> TestmacCfg_s \<Rightarrow> int list \<Rightarrow> u8 list \<Rightarrow> app \<times> 'e mac \<Rightarrow> app \<times> 'e mac \<Rightarrow> bool"
  for env fs cfg ports cellNum where
  main: "main_step env cfg ports cellNum x y \<Longrightarrow> app_step env fs cfg ports cellNum x y"
| mac: "mac_step env fs s s' \<Longrightarrow> app_step env fs cfg ports cellNum (a, s) (a, s')"

definition steps :: "'e env \<Rightarrow> files \<Rightarrow> 'e mac \<Rightarrow> 'e mac \<Rightarrow> bool" where
  "steps env fs = rtranclp (mac_step env fs)"

interpretation steps: step_frame "steps env fs"
  by unfold_locales (auto simp: steps_def)

lemma post_steps: "ends (steps env fs) s (post_msg ev p0 p1 d c s)"
  using post_app [where env = env and fs = fs]
  by (fastforce simp: ends_def steps_def post_msg_def length_ctrl_bytes)

lemma test_steps:
  "ends (steps env fs) s (simTtiInd cfg s)" "ends (steps env fs) s (appTestStart cfg i d c s)"
  "ends (steps env fs) s (appTestStop cfg i d c s)" "ends (steps env fs) s (appTcConfigCase cfg i d c s)"
  "ends (steps env fs) s (appTcDlCase cfg i j d c s)" "ends (steps env fs) s (appTcUlCase cfg i j d c s)"
  "ends (steps env fs) s (appTcTxdataCase cfg i j d c s)" "ends (steps env fs) s (appTcTestCase cfg i j d c s)"
  "ends (steps env fs) s (appTcStop cfg i d c s)"
  by (simp_all add: simTtiInd_def appTestStart_def appTestStop_def commands post_steps steps.ret)

lemma parser_steps:
  "(name, parser) \<in> set CmdList \<Longrightarrow> ends (steps env fs) s (parser cfg rest s)"
  by (auto simp: CmdList_def CmdHelp_def CmdTcConfigCase_def CmdTcDlCase_def CmdTcUlCase_def CmdTcTxCase_def
      CmdTestCase_def CmdTcStop_def Let_def intro: test_steps steps.ret)

lemma cmd_steps: "ends (steps env fs) s (cmd_callback cfg line s)"
proof -
  have found: "List.find P xs = Some x \<Longrightarrow> x \<in> set xs" for P and xs :: "'x list" and x
    by (auto simp: find_Some_iff)
  show ?thesis unfolding cmd_callback_def
    by (rule steps.get) (auto intro: steps.ret parser_steps dest: found split: option.split)
qed

lemma tmr_steps: "endsV (steps env fs) s (tmr_callback (\<lambda>s. s) cfg a s)"
proof -
  have check: "endsV (steps env fs) t (check_phy a t)" for a t
    unfolding check_phy_def by (intro steps.getV steps.branchV steps.retV)
  have nxt: "endsV (steps env fs) t (next_case cfg a t)" for a t
    unfolding next_case_def Let_def by (intro steps.bindV test_steps steps.retV)
  show ?thesis
    unfolding tmr_callback_def Let_def
    by (rule steps.getV, rule steps.bindV [OF test_steps(1)])
      (auto intro!: steps.branchV steps.retV check steps.bind_pairV nxt)
qed

lemma quit_steps: "ends (steps env fs) s (appSigQuit env ports cellNum s)"
proof -
  have stop: "ends (steps env fs) s (macStop env d c s)" for d c s
    using halt [where env = env and fs = fs] by (auto simp: ends_def steps_def)
  show ?thesis unfolding appSigQuit_def
    by (intro steps.loop steps.get steps.branch stop steps.ret)
qed

lemma main_steps:
  assumes "main_step env cfg ports cellNum (a, s) (a', s')" shows "steps env fs s s'"
  using assms
proof (cases rule: main_step.cases)
  case (console line)
  then show ?thesis using cmd_steps [of env fs s cfg line] by (auto simp: ends_def)
next
  case timer
  then show ?thesis using tmr_steps [of env fs s cfg a] by (auto simp: endsV_def)
next
  case quit
  then show ?thesis using quit_steps [of env fs s ports cellNum] by (auto simp: ends_def)
qed

lemma app_steps:
  assumes "app_step env fs cfg ports cellNum (a, s) (a', s')" shows "steps env fs s s'"
  using assms
proof (cases rule: app_step.cases)
  case main
  then show ?thesis by (rule main_steps)
next
  case mac
  then show ?thesis by (auto simp: steps_def)
qed

lemma steps_inv: "steps env fs s s' \<Longrightarrow> mac_inv x s \<Longrightarrow> mac_inv x s'"
  unfolding steps_def by (induction rule: rtranclp_induct) (auto intro: mac_step_inv)

text \<open>
  C1: The whole program keeps the MAC in order. From \<open>main\<close> on, whatever options were given, whatever is typed on the
  console, however the timer, the PHY and the signal to quit interleave with the work of the MAC, every state that is
  reached is well-formed, and its cells have the configuration that the options stand for.
\<close>

theorem program_keeps_mac_in_order:
  assumes "main_start port_of level_file opts log_ok at t io junk ringMem maxT minT e = Inr (Some (ports, cfg, cellNum, g, a0, s0))"
    and "4096 \<le> length ringMem" and "rtranclp (app_step env fs cfg ports cellNum) (a0, s0) (a, s)"
  shows "mac_inv (cf_operMode cfg, cf_phyStub cfg, cf_runtimePerTc cfg, cf_pdschMode cfg, cf_sfnMode cfg) s"
  using assms(3)
proof (induction "(a, s)" arbitrary: a s rule: rtranclp_induct)
  case base
  then show ?case using main_start_ready [OF assms(1,2)] by simp
next
  case (step y)
  obtain b u where y: "y = (b, u)" by (cases y)
  show ?case using steps_inv [OF app_steps] step.hyps(2) step.hyps(3) [OF y] unfolding y by blast
qed

lemma number_20: "strtoul 0 ''20'' = (20, [])"
proof -
  have "decimal 20 = ''20''" by code_simp
  then show ?thesis using strtoul_decimal [of 20] by simp
qed

lemma four_cells: "replicate MAC_PC802_INDEX_MAX (1 :: u8) = [1, 1, 1, 1]"
  by (simp add: MAC_PC802_INDEX_MAX_def numeral_eq_Suc)

lemma help_line: "console_line (''help'' @ [CHR 0x0A]) = Inr ''help''" "strtok '' '' ''help'' = Some (''help'', [])"
  by code_simp+

definition example_cfg :: TestmacCfg_s where
  "example_cfg = (loadCfg False cfg_zero)\<lparr>cf_runtimePerTc := 20\<rparr>"

lemma example_start:
  "\<exists>g s0. main_start (\<lambda>_. 0) False [OptSlots ''20''] True 8 t io (\<lambda>_. 7) (replicate 5000 9) 500 100 (0 :: nat) =
    Inr (Some (map (\<lambda>_. 0) [0..<MAC_PC802_INDEX_MAX], example_cfg, [1, 1, 1, 1], g, app_zero, s0))"
proof -
  obtain g where g: "cmmApiInit 8 t io [] dbg0 = Inr (no_ip_platform, g)" using cmmApiInit_runs by blast
  have opts: "testmac_parse_args False [OptSlots ''20''] (loadCfg False cfg_zero, replicate MAC_PC802_INDEX_MAX 1) =
      Inr (True, example_cfg, [1, 1, 1, 1])"
    by (simp add: testmac_parse_args_def parse_option_def testmac_slot_num_def opt_number_def number_20
        four_cells example_cfg_def loadCfg_def cfg_zero_def)
  let ?s = "loadTxCfg 15 (mac_zero (tc_type (pc_phyTrace no_ip_platform) = TRACE_UDP) (0 :: nat))"
  obtain s0 where s0: "macInit (\<lambda>_. 7) (replicate 5000 9) 500 100 (cf_runMode example_cfg) (cf_operMode example_cfg)
      (cf_phyStub example_cfg) (cf_pdschMode example_cfg) (cf_runtimePerTc example_cfg) (cf_sfnMode example_cfg) ?s = Inr s0"
    using init_ready [of "replicate 5000 9" "\<lambda>_. 7" 500 100 "cf_runMode example_cfg" "cf_operMode example_cfg"
      "cf_phyStub example_cfg" "cf_pdschMode example_cfg" "cf_runtimePerTc example_cfg" "cf_sfnMode example_cfg" ?s] by auto
  have ip: "cf_remote_trace_ip example_cfg = []" by (simp add: example_cfg_def loadCfg_def cfg_zero_def)
  show ?thesis unfolding main_start_def Let_def using s0 by (simp add: opts ip g app_zero_def)
qed

theorem program_keeps_mac_in_order_witness:
  "\<forall>t io fs (env :: nat env). \<exists>ports cfg cellNum g a0 s0. main_start (\<lambda>_. 0) False [OptSlots ''20''] True 8 t io (\<lambda>_. 7) (replicate 5000 9) 500 100 0 =
      Inr (Some (ports, cfg, cellNum, g, a0, s0)) \<and>
    app_step env fs cfg ports cellNum (a0, s0) (a0, s0) \<and>
    mac_inv (MANUAL, False, 20, PDSCHMODE_AUTO_MODE, False) s0"
proof (intro allI)
  fix t io fs and env :: "nat env"
  obtain g s0 where start: "main_start (\<lambda>_. 0) False [OptSlots ''20''] True 8 t io (\<lambda>_. 7) (replicate 5000 9) 500 100 (0 :: nat) =
      Inr (Some (map (\<lambda>_. 0) [0..<MAC_PC802_INDEX_MAX], example_cfg, [1, 1, 1, 1], g, app_zero, s0))"
    using example_start by blast
  have hlp: "cmd_callback example_cfg (''help'' @ [CHR 0x0A]) s0 = Inr s0"
    by (simp only: cmd_callback_def help_line) (simp add: help_line CmdList_def CmdHelp_def strcasecmp0_def)
  have step: "app_step env fs example_cfg p cs (app_zero, s0) (app_zero, s0)" for p cs
    by (rule app_step.main [OF main_step.console [OF hlp]])
  have "mac_inv (cf_operMode example_cfg, cf_phyStub example_cfg, cf_runtimePerTc example_cfg, cf_pdschMode example_cfg,
      cf_sfnMode example_cfg) s0"
    by (rule program_keeps_mac_in_order [OF start]) (use step in auto)
  then show "\<exists>ports cfg cellNum g a0 s0. main_start (\<lambda>_. 0) False [OptSlots ''20''] True 8 t io (\<lambda>_. 7) (replicate 5000 9) 500 100 0 =
      Inr (Some (ports, cfg, cellNum, g, a0, s0)) \<and> app_step env fs cfg ports cellNum (a0, s0) (a0, s0) \<and>
      mac_inv (MANUAL, False, 20, PDSCHMODE_AUTO_MODE, False) s0"
    using start step by (intro exI conjI) (assumption, assumption, simp add: example_cfg_def loadCfg_def)
qed

end
