(* ===== verification/MacThreads.thy ===== *)
theory MacThreads
  imports AppCli
begin

text \<open>
  The threads of the program: the receive threads that \<open>macInit\<close> launches on the worker cores (\<open>src/mac/src/mac.c\<close>), one per
  configured cell, beside the main thread with its event loop. Every thread polls the application ring of its cell and lets
  the library hand over what the PHY sent, until its flag is cleared. A call of an entry point is one step; the steps
  of the threads interleave in any order.
\<close>

section \<open>The launch of the threads\<close>

text \<open>\<open>main\<close> collects the worker cores in an array of 10.\<close>

definition worker_cores :: "u32 list \<Rightarrow> u32 list res" where
  "worker_cores lcores = foreach (\<lambda>(n, lcore) b. wr b n lcore) (enumerate 0 lcores) (replicate 10 0)"

text \<open>
  \<open>rte_eal_remote_launch\<close> is a parameter: whether it starts a thread on a core, when the cores of a set run one already.
  Its result is not looked at. A thread is a cell with the core it runs on.
\<close>

type_synonym launcher = "u32 set \<Rightarrow> u32 \<Rightarrow> bool"

type_synonym threads = "((u8 \<times> u8) \<times> u32) list"

definition start_cell :: "launcher \<Rightarrow> u32 list \<Rightarrow> u8 \<times> u8 \<Rightarrow> nat \<times> threads \<Rightarrow> (nat \<times> threads) res" where
  "start_cell launch cpuId cell st =
     (case st of (cpu_index, ts) \<Rightarrow>
       rbind (rd cpuId cpu_index) (\<lambda>core.
         Inr (cpu_index + 1, if launch (snd ` set ts) core then ts @ [(cell, core)] else ts)))"

definition start_threads :: "launcher \<Rightarrow> int list \<Rightarrow> u8 list \<Rightarrow> u32 list \<Rightarrow> threads res" where
  "start_threads launch devMapPort cellNum cpuId =
     rbind (foreach (\<lambda>d st.
         rbind (rd devMapPort d) (\<lambda>port.
         if port \<ge> 0 then
           rbind (start_cell launch cpuId (of_nat d, 0) st) (\<lambda>st.
           rbind (rd cellNum d) (\<lambda>n.
           if n > 1 then start_cell launch cpuId (of_nat d, 1) st else Inr st))
         else Inr st)) [0..<MAC_PC802_INDEX_MAX] (0, []))
       (\<lambda>(cpu_index, ts). Inr ts)"

text \<open>
  What DPDK documents: a worker core that waits for work is started, and a core that does not wait is busy. Nothing is said
  of cores that are no workers.
\<close>

definition launches_waiting :: "launcher \<Rightarrow> u32 list \<Rightarrow> bool" where
  "launches_waiting launch lcores \<longleftrightarrow> distinct lcores \<and> (\<forall>busy core. core \<in> busy \<longrightarrow> \<not> launch busy core) \<and>
     (\<forall>busy core. core \<in> set lcores \<longrightarrow> core \<notin> busy \<longrightarrow> launch busy core)"

text \<open>The cells that are configured, in the order of the launch.\<close>

definition configured :: "int list \<Rightarrow> u8 list \<Rightarrow> (u8 \<times> u8) list" where
  "configured devMapPort cellNum = concat (map (\<lambda>d. if devMapPort ! d \<ge> 0
     then (of_nat d, 0) # (if cellNum ! d > 1 then [(of_nat d, 1)] else []) else []) [0..<MAC_PC802_INDEX_MAX])"

lemma foreach_concat: "foreach f (concat (map g xs)) s = foreach (\<lambda>x. foreach f (g x)) xs s"
proof (induction xs arbitrary: s)
  case (Cons x xs)
  then have "foreach f (concat (map g xs)) = foreach (\<lambda>x. foreach f (g x)) xs" by blast
  then show ?case by (simp add: foreach_append)
qed simp

lemma foreach_one: "foreach f [] = Inr" "foreach f [x] = f x"
proof -
  show "foreach f [] = Inr" for f :: "'x \<Rightarrow> 'y \<Rightarrow> 'y res" by (rule ext) simp
  from this [of f] show "foreach f [x] = f x" by (intro ext) simp
qed

lemma start_threads_cells:
  assumes "length devMapPort = 4" and "length cellNum = 4"
  shows "start_threads launch devMapPort cellNum cpuId =
    rbind (foreach (start_cell launch cpuId) (configured devMapPort cellNum) (0, [])) (\<lambda>(i, ts). Inr ts)"
proof -
  have "foreach (\<lambda>d st. rbind (rd devMapPort d) (\<lambda>port. if port \<ge> 0 then
           rbind (start_cell launch cpuId (of_nat d, 0) st) (\<lambda>st. rbind (rd cellNum d) (\<lambda>n.
           if n > 1 then start_cell launch cpuId (of_nat d, 1) st else Inr st)) else Inr st)) [0..<MAC_PC802_INDEX_MAX] st =
      foreach (start_cell launch cpuId) (configured devMapPort cellNum) st" for st
    unfolding configured_def foreach_concat
    by (rule foreach_cong [OF refl refl]) (use assms in \<open>auto simp: MAC_PC802_INDEX_MAX_def foreach_one\<close>)
  then show ?thesis by (simp add: start_threads_def)
qed

lemma worker_cores_eq: "length lcores \<le> 10 \<Longrightarrow> worker_cores lcores = Inr (lcores @ replicate (10 - length lcores) 0)"
proof -
  have "length pre + length lcores \<le> 10 \<Longrightarrow>
      foreach (\<lambda>(n, lcore) b. wr b n lcore) (enumerate (length pre) lcores) (pre @ replicate (10 - length pre) 0) =
      Inr (pre @ lcores @ replicate (10 - length pre - length lcores) 0)" for pre
  proof (induction lcores arbitrary: pre)
    case (Cons x xs)
    have "replicate (10 - length pre) (0 :: u32) = 0 # replicate (9 - length pre) 0"
      using Cons.prems by (cases "10 - length pre") auto
    then have "wr (pre @ replicate (10 - length pre) 0) (length pre) x = Inr ((pre @ [x]) @ replicate (9 - length pre) 0)"
      by (simp add: wr_def list_update_append)
    then show ?case using Cons.IH [of "pre @ [x]"] Cons.prems by simp
  qed simp
  from this [of "[]"] show "length lcores \<le> 10 \<Longrightarrow> worker_cores lcores = Inr (lcores @ replicate (10 - length lcores) 0)"
    by (simp add: worker_cores_def)
qed

lemma snd_zip: "snd ` set (zip xs ys) = set (take (length xs) ys)"
  by (simp add: map_snd_zip_take min_def flip: set_map)

lemma zip_take: "zip xs (take (length xs) ys) = zip xs ys" "zip (take (length ys) xs) ys = zip xs ys"
  by (induction xs ys rule: list_induct2') auto

text \<open>The cells for which there are cores.\<close>

lemma start_cells:
  assumes "launches_waiting launch lcores" and "length lcores \<le> 10"
  shows "length pre + length cs \<le> length lcores \<Longrightarrow>
    foreach (start_cell launch (lcores @ replicate (10 - length lcores) 0)) cs (length pre, zip pre lcores) =
    Inr (length pre + length cs, zip (pre @ cs) lcores)"
proof (induction cs arbitrary: pre)
  case (Cons x cs)
  have i: "length pre < length lcores" using Cons.prems by simp
  have d: "distinct lcores" using assms(1) by (simp add: launches_waiting_def)
  have "lcores ! length pre \<notin> snd ` set (zip pre lcores)"
    unfolding snd_zip using d i by (auto simp: in_set_conv_nth nth_eq_iff_index_eq)
  then have "launch (snd ` set (zip pre lcores)) (lcores ! length pre)"
    using assms(1) i by (simp add: launches_waiting_def)
  moreover have "zip (pre @ [x]) lcores = zip pre lcores @ [(x, lcores ! length pre)]"
    using i Cons_nth_drop_Suc [OF i, symmetric] by (simp add: zip_append1 zip_take)
  ultimately have "start_cell launch (lcores @ replicate (10 - length lcores) 0) x (length pre, zip pre lcores) =
      Inr (length (pre @ [x]), zip (pre @ [x]) lcores)"
    using i assms(2) by (simp add: start_cell_def rd_def nth_append)
  then show ?case using Cons.IH [of "pre @ [x]"] Cons.prems by simp
qed simp

text \<open>The cells after them ask for core 0, with which the array of \<open>main\<close> was filled; at most one of them gets it.\<close>

lemma start_more_cells:
  assumes "launches_waiting launch lcores"
  shows "length lcores \<le> i \<Longrightarrow> i + length cs \<le> 10 \<Longrightarrow>
    \<exists>more. foreach (start_cell launch (lcores @ replicate (10 - length lcores) 0)) cs (i, ts) = Inr (i + length cs, ts @ more) \<and>
      (more = [] \<or> (\<exists>cell \<in> set cs. more = [(cell, 0)] \<and> 0 \<notin> snd ` set ts))"
proof (induction cs arbitrary: i ts)
  case (Cons x cs)
  have core: "rd (lcores @ replicate (10 - length lcores) 0) i = Inr 0" using Cons.prems by (simp add: rd_def nth_append)
  have busy: "launch busy 0 \<Longrightarrow> 0 \<notin> busy" for busy using assms by (auto simp: launches_waiting_def)
  show ?case
  proof (cases "launch (snd ` set ts) 0")
    case True
    have step: "start_cell launch (lcores @ replicate (10 - length lcores) 0) x (i, ts) = Inr (Suc i, ts @ [(x, 0)])"
      using core True by (simp add: start_cell_def)
    obtain more where m: "foreach (start_cell launch (lcores @ replicate (10 - length lcores) 0)) cs (Suc i, ts @ [(x, 0)]) =
        Inr (Suc i + length cs, (ts @ [(x, 0)]) @ more)" "more = []"
      using Cons.IH [of "Suc i" "ts @ [(x, 0)]"] Cons.prems by auto
    then show ?thesis using step busy [OF True] by auto
  next
    case False
    have step: "start_cell launch (lcores @ replicate (10 - length lcores) 0) x (i, ts) = Inr (Suc i, ts)"
      using core False by (simp add: start_cell_def)
    then show ?thesis using Cons.IH [of "Suc i" ts] Cons.prems by auto
  qed
qed simp

lemma configured_at_most: "length (configured devMapPort cellNum) \<le> 8"
  by (simp add: configured_def MAC_PC802_INDEX_MAX_def upt_rec)

lemma distinct_by_key:
  assumes "\<And>d. distinct (g d)" and "\<And>d x. x \<in> set (g d) \<Longrightarrow> fst x = k d"
  shows "distinct ds \<Longrightarrow> inj_on k (set ds) \<Longrightarrow> distinct (concat (map g ds))"
proof (induction ds)
  case (Cons d ds)
  have "x \<notin> set (concat (map g ds))" if x: "x \<in> set (g d)" for x
  proof
    assume "x \<in> set (concat (map g ds))"
    then obtain d' where "d' \<in> set ds" "x \<in> set (g d')" by auto
    then have "k d' = k d" "d' \<noteq> d" using assms(2) x Cons.prems(1) by (metis, auto)
    then show False using Cons.prems(2) \<open>d' \<in> set ds\<close> by (simp add: inj_on_def)
  qed
  then show ?case using Cons assms(1) by auto
qed simp

lemma configured_distinct: "distinct (configured devMapPort cellNum)"
  unfolding configured_def
proof (rule distinct_by_key [where k = of_nat])
  show "inj_on (of_nat :: nat \<Rightarrow> u8) (set [0..<MAC_PC802_INDEX_MAX])"
    by (rule inj_onI) (simp add: MAC_PC802_INDEX_MAX_def word_of_nat_eq_iff take_bit_nat_eq_self)
qed (auto split: if_splits)

text \<open>
  C23: The threads of a program on up to 10 worker cores. With a core for every configured cell, every cell gets one thread, each
  on a core of its own, in the order of the devices. With fewer, the first cells do, and the launches for the others name core 0;
  at most one of them gets a thread there, when core 0 runs none and the library starts it. No two threads
  share a core, and no ring is polled by two threads.
\<close>

theorem threads_started:
  assumes "length devMapPort = 4" and "length cellNum = 4" and "length lcores \<le> 10"
    and "launches_waiting launch lcores" and "worker_cores lcores = Inr cpuId"
  shows "\<exists>more. start_threads launch devMapPort cellNum cpuId = Inr (zip (configured devMapPort cellNum) lcores @ more) \<and>
    (more = [] \<or> (\<exists>cell \<in> set (drop (length lcores) (configured devMapPort cellNum)). more = [(cell, 0)])) \<and>
    distinct (map fst (zip (configured devMapPort cellNum) lcores @ more)) \<and>
    distinct (map snd (zip (configured devMapPort cellNum) lcores @ more))"
proof -
  let ?cs = "configured devMapPort cellNum" and ?n = "length lcores"
  let ?run = "foreach (start_cell launch (lcores @ replicate (10 - ?n) 0))"
  have cores: "cpuId = lcores @ replicate (10 - ?n) 0" using worker_cores_eq [OF assms(3)] assms(5) by simp
  have first: "?run (take ?n ?cs) (0, []) = Inr (length (take ?n ?cs), zip ?cs lcores)"
    using start_cells [OF assms(4,3), of "[]" "take ?n ?cs"] by (simp add: zip_take)
  have "\<exists>more. ?run (drop ?n ?cs) (length (take ?n ?cs), zip ?cs lcores) = Inr (length ?cs, zip ?cs lcores @ more) \<and>
      (more = [] \<or> (\<exists>cell \<in> set (drop ?n ?cs). more = [(cell, 0)] \<and> 0 \<notin> snd ` set (zip ?cs lcores)))"
  proof (cases "?n \<le> length ?cs")
    case True
    then show ?thesis
      using start_more_cells [OF assms(4), of ?n "drop ?n ?cs" "zip ?cs lcores"] configured_at_most [of devMapPort cellNum] by simp
  qed simp
  then obtain more where m: "?run (drop ?n ?cs) (length (take ?n ?cs), zip ?cs lcores) = Inr (length ?cs, zip ?cs lcores @ more)"
    "more = [] \<or> (\<exists>cell \<in> set (drop ?n ?cs). more = [(cell, 0)] \<and> 0 \<notin> snd ` set (zip ?cs lcores))" by blast
  have "?run ?cs (0, []) = Inr (length ?cs, zip ?cs lcores @ more)"
    using first m(1) foreach_append [of "start_cell launch (lcores @ replicate (10 - ?n) 0)" "take ?n ?cs" "drop ?n ?cs"] by simp
  then have run: "start_threads launch devMapPort cellNum cpuId = Inr (zip ?cs lcores @ more)"
    by (simp add: start_threads_cells [OF assms(1,2)] cores)
  have fst: "map fst (zip ?cs lcores) = take ?n ?cs" by (simp add: map_fst_zip_take min_def)
  have d: "distinct (map fst (zip ?cs lcores))" "distinct (map snd (zip ?cs lcores))"
    using configured_distinct assms(4) by (simp_all add: map_fst_zip_take map_snd_zip_take launches_waiting_def)
  have "set (take ?n ?cs) \<inter> set (drop ?n ?cs) = {}" using configured_distinct by (rule set_take_disj_set_drop_if_distinct) simp
  then have "distinct (map fst (zip ?cs lcores @ more))" using d(1) m(2) fst by auto
  moreover have "distinct (map snd (zip ?cs lcores @ more))"
    using m(2)
  proof (elim disjE bexE conjE)
    fix cell assume "more = [(cell, 0)]" "0 \<notin> snd ` set (zip ?cs lcores)"
    then show ?thesis using d(2) by (simp only: map_append distinct_append list.map snd_conv set_map) simp
  qed (use d(2) in simp)
  ultimately show ?thesis using run m(2) by blast
qed

text \<open>Four cells and five cores, on a machine that starts its worker cores only.\<close>

theorem threads_started_witness:
  "start_threads (\<lambda>busy core. core \<in> {3, 4, 5, 6, 7} - busy) [0, - 1, 1, 2] [2, 1, 1, 1] [4, 3, 7, 5, 6, 0, 0, 0, 0, 0] =
    Inr [((0, 0), 4), ((0, 1), 3), ((2, 0), 7), ((3, 0), 5)]"
proof -
  have w: "worker_cores [4, 3, 7, 5, 6] = Inr [4, 3, 7, 5, 6, 0, 0, 0, 0, 0]" by code_simp
  have l: "launches_waiting (\<lambda>busy core. core \<in> {3, 4, 5, 6, 7} - busy) [4, 3, 7, 5, 6]" by (auto simp: launches_waiting_def)
  have "zip (configured [0, - 1, 1, 2] [2, 1, 1, 1]) [4, 3, 7, 5, 6 :: u32] = [((0, 0), 4), ((0, 1), 3), ((2, 0), 7), ((3, 0), 5)]"
    "drop 5 (configured [0, - 1, 1, 2] [2, 1, 1, 1]) = []" by code_simp+
  then show ?thesis
    using threads_started [OF _ _ _ l w, of "[0, - 1, 1, 2]" "[2, 1, 1, 1]"] by fastforce
qed

section \<open>The threads at work\<close>

text \<open>
  Where a receive thread is in its loop: at the test of its flag, before the poll of the ring, before the call of
  \<open>pcxxCtrlRecv\<close>, or at its end.
\<close>

datatype pc = AtTest | AtPoll | AtRecv | Finished

text \<open>\<open>pcxxCtrlRecv\<close> calls \<open>macRevL1Ctrl\<close> for every message group it has: an address, the bytes and their number.\<close>

definition received :: "'e env \<Rightarrow> u8 \<Rightarrow> u8 \<Rightarrow> (addr \<times> u8 list \<times> u32) list \<Rightarrow> 'e mac \<Rightarrow> 'e mac res" where
  "received env d c groups s =
     foreach (\<lambda>(a, buf, n) s. rbind (macRevL1Ctrl env a buf n d c s) (\<lambda>(r, s'). Inr s')) groups s"

inductive phyRecvThreadMain :: "'e env \<Rightarrow> files \<Rightarrow> u8 \<times> u8 \<Rightarrow> pc \<times> 'e mac \<Rightarrow> pc \<times> 'e mac \<Rightarrow> bool" for env fs where
  test: "s_rtRun (chans s d c) \<Longrightarrow> phyRecvThreadMain env fs (d, c) (AtTest, s) (AtPoll, s)"
| leave: "\<not> s_rtRun (chans s d c) \<Longrightarrow> phyRecvThreadMain env fs (d, c) (AtTest, s) (Finished, s)"
| poll: "macRevAppCtrlMsg env fs d c s = Inr s' \<Longrightarrow> phyRecvThreadMain env fs (d, c) (AtPoll, s) (AtRecv, s')"
| recv: "received env d c groups s = Inr s' \<Longrightarrow> phyRecvThreadMain env fs (d, c) (AtRecv, s) (AtTest, s')"

inductive_cases phyRecvThreadMainE: "phyRecvThreadMain env fs cell (p, s) (p', s')"

text \<open>
  The whole program: the main thread with its event loop, and one receive thread for every cell of the launch. A step is
  labelled with the cell of the thread that makes it.
\<close>

type_synonym 'e sys = "app \<times> 'e mac \<times> (u8 \<times> u8 \<Rightarrow> pc option)"

definition launched :: "threads \<Rightarrow> u8 \<times> u8 \<Rightarrow> pc option" where
  "launched ts cell = (if cell \<in> fst ` set ts then Some AtTest else None)"

inductive sys_step :: "'e env \<Rightarrow> files \<Rightarrow> TestmacCfg_s \<Rightarrow> int list \<Rightarrow> u8 list \<Rightarrow> (u8 \<times> u8) option \<Rightarrow> 'e sys \<Rightarrow> 'e sys \<Rightarrow> bool"
  for env fs cfg ports cellNum where
  main: "main_step env cfg ports cellNum (a, s) (a', s') \<Longrightarrow>
     sys_step env fs cfg ports cellNum None (a, s, pcs) (a', s', pcs)"
| trace: "phyTraceRound conn (mtrace s) = Inr (sent, t) \<Longrightarrow>
     sys_step env fs cfg ports cellNum None (a, s, pcs) (a, s\<lparr>mtrace := t\<rparr>, pcs)"
| thread: "pcs cell = Some p \<Longrightarrow> phyRecvThreadMain env fs cell (p, s) (p', s') \<Longrightarrow>
     sys_step env fs cfg ports cellNum (Some cell) (a, s, pcs) (a, s', pcs(cell \<mapsto> p'))"

inductive sys_run :: "'e env \<Rightarrow> files \<Rightarrow> TestmacCfg_s \<Rightarrow> int list \<Rightarrow> u8 list \<Rightarrow> (u8 \<times> u8) option list \<Rightarrow> 'e sys \<Rightarrow> 'e sys \<Rightarrow> bool"
  for env fs cfg ports cellNum where
  start: "sys_run env fs cfg ports cellNum [] x x"
| more: "sys_run env fs cfg ports cellNum ls x y \<Longrightarrow> sys_step env fs cfg ports cellNum l y z \<Longrightarrow>
     sys_run env fs cfg ports cellNum (ls @ [l]) x z"

lemma received_steps: "ends (steps env fs) s (received env d c groups s)"
proof -
  have "ends (steps env fs) s (rbind (macRevL1Ctrl env a buf n d c s) (\<lambda>(r, s'). Inr s'))" for a buf n s
    using receive [where env = env and fs = fs] by (fastforce simp: ends_def steps_def rbind_Inr_iff)
  then show ?thesis unfolding received_def by (intro steps.loop) (auto split: prod.split)
qed

lemma thread_steps: "phyRecvThreadMain env fs cell (p, s) (p', s') \<Longrightarrow> steps env fs s s'"
proof (erule phyRecvThreadMainE)
  fix d c groups
  assume "received env d c groups s = Inr s'"
  then show ?thesis using received_steps [of env fs s d c groups] by (simp add: ends_def)
next
  fix d c
  assume "macRevAppCtrlMsg env fs d c s = Inr s'"
  then show ?thesis unfolding steps_def using mac_step.poll by (metis r_into_rtranclp)
qed (auto simp: steps_def)

lemma sys_steps:
  assumes "sys_step env fs cfg ports cellNum l (a, s, pcs) (a', s', pcs')" shows "steps env fs s s'"
  using assms
proof (cases rule: sys_step.cases)
  case main
  then show ?thesis by (auto intro: main_steps)
next
  case trace
  then show ?thesis unfolding steps_def using mac_step.trace_out by (metis r_into_rtranclp)
next
  case (thread cell p p')
  then show ?thesis using thread_steps by blast
qed

text \<open>A flag that is cleared stays cleared.\<close>

lemma step_flag:
  assumes "mac_step env fs s s'" and "mac_inv x s" and "\<not> s_rtRun (chans s d c)" shows "\<not> s_rtRun (chans s' d c)"
  using assms(1)
proof (cases rule: mac_step.cases)
  case (receive a buf n d c r)
  then have "orderly s s'" by (intro confined_orderly [OF endsVD [OF macRevL1Ctrl_frame]])
  then show ?thesis using assms(3) by (simp add: orderly_def chan_le_def)
next
  case (poll d' c')
  then obtain rc t r where dc: "d' < 4" "c' < 2"
    and s': "s' = set_chan d' c' (chans t d' c'\<lparr>gMacCtx := (ctx t d' c')\<lparr>msgqApp := r\<rparr>\<rparr>) t"
    and run: "QuickMsgRingRecvMsgWithUnpackFunc (msgqApp (ctx s d' c')) (appMgrMsgqHRecv env fs) s = Inr (rc, t, r)"
    by (rule macRevAppCtrlMsg_Inr)
  obtain q where q: "qrel (msgqApp (ctx s d' c')) q" using assms(2) dc unfolding mac_inv_def by blast
  have "s = t \<or> orderly s t" using Unpack_Inr [OF q run] endsVD [OF appMgrMsgqHRecv_frame] by metis
  then have "\<not> s_rtRun (chans t d c)" using assms(3) by (auto simp: orderly_def chan_le_def)
  then show ?thesis unfolding s' by (auto simp: set_chan_def)
next
  case post_app
  then show ?thesis using assms(3)
    by (auto simp: macAppMgrSend_def rbind_Inr_iff upd_ctx_def upd_chan_Inr set_chan_def split: if_splits)
next
  case post_ctrl
  then show ?thesis using assms(3)
    by (auto simp: macCtrlMgrSend_def rbind_Inr_iff upd_ctx_def upd_chan_Inr set_chan_def split: if_splits)
next
  case halt
  then show ?thesis using assms(3) by (auto simp: macStop_def rbind_Inr_iff upd_chan_Inr set_chan_def split: if_splits)
next
  case trace_out
  then show ?thesis using assms(3) by simp
qed

lemma steps_flag:
  assumes "steps env fs s s'" and "mac_inv x s" and "\<not> s_rtRun (chans s d c)" shows "\<not> s_rtRun (chans s' d c)"
  using assms(1) unfolding steps_def
proof (induction rule: rtranclp_induct)
  case (step t u)
  then have "mac_inv x t" using steps_inv assms(2) unfolding steps_def by blast
  then show ?case using step_flag step by blast
qed (rule assms(3))

text \<open>What a thread has left to do once its flag is cleared, and which of its steps poll the ring.\<close>

fun steps_left :: "pc \<Rightarrow> nat" where
  "steps_left Finished = 0"
| "steps_left AtTest = 1"
| "steps_left AtRecv = 2"
| "steps_left AtPoll = 3"

lemma thread_progress:
  assumes "phyRecvThreadMain env fs (d, c) (p, s) (p', s')" and "\<not> s_rtRun (chans s d c)"
  shows "steps_left p' < steps_left p"
  using assms(1) by (cases rule: phyRecvThreadMain.cases) (use assms(2) in auto)

lemma stopped_run:
  assumes "sys_run env fs cfg ports cellNum ls (a, s, pcs) y" and "mac_inv x s" and "\<not> s_rtRun (chans s d c)"
    and "pcs (d, c) = Some p"
  shows "\<exists>a' s' pcs' p'. y = (a', s', pcs') \<and> mac_inv x s' \<and> \<not> s_rtRun (chans s' d c) \<and> pcs' (d, c) = Some p' \<and>
    steps_left p' + count_list ls (Some (d, c)) \<le> steps_left p"
  using assms(1)
proof (induction ls "(a, s, pcs)" y rule: sys_run.induct)
  case start
  then show ?case using assms(2-4) by simp
next
  case (more ls y l z)
  then obtain a' s' pcs' p' where y: "y = (a', s', pcs')" and inv: "mac_inv x s'" "\<not> s_rtRun (chans s' d c)"
    "pcs' (d, c) = Some p'" "steps_left p' + count_list ls (Some (d, c)) \<le> steps_left p" by blast
  obtain a2 s2 pcs2 where z: "z = (a2, s2, pcs2)" by (cases z)
  have st: "steps env fs s' s2" using sys_steps more.hyps(3) unfolding y z by blast
  then have keep: "mac_inv x s2" "\<not> s_rtRun (chans s2 d c)" using inv steps_inv steps_flag by blast+
  have "\<exists>p2. pcs2 (d, c) = Some p2 \<and> steps_left p2 + count_list (ls @ [l]) (Some (d, c)) \<le> steps_left p"
    using more.hyps(3) unfolding y z
  proof (cases rule: sys_step.cases)
    case (thread cell p1 p2)
    then show ?thesis
      using inv thread_progress [of env fs d c p1 s' p2 s2] by (cases "cell = (d, c)") auto
  qed (use inv in auto)
  then show ?case using z keep by blast
qed

text \<open>
  C15: A thread that is told to stop stops. In every run after the flag of a cell is cleared, however the other threads and
  the main thread interleave, the thread of that cell makes at most three more steps (the poll it was about to make,
  the call that receives, and the way out) and never starts a new round; when it makes no more, it is at its end or its next
  step is not possible.
\<close>

theorem stopped_thread_finishes:
  assumes "mac_inv x s" and "macStop env d c s = Inr s0" and "pcs (d, c) = Some p"
    and "sys_run env fs cfg ports cellNum ls (a, s0, pcs) (a', s', pcs')"
  shows "\<exists>p'. pcs' (d, c) = Some p' \<and> steps_left p' + count_list ls (Some (d, c)) \<le> 3 \<and>
    (count_list ls (Some (d, c)) = 3 \<longrightarrow> p' = Finished) \<and>
    (p' = AtTest \<longrightarrow> phyRecvThreadMain env fs (d, c) (p', s') (Finished, s'))"
proof -
  have "mac_step env fs s s0" using assms(2) by (rule mac_step.halt)
  then have inv: "mac_inv x s0" using assms(1) mac_step_inv by blast
  have off: "\<not> s_rtRun (chans s0 d c)"
    using assms(2) by (auto simp: macStop_def rbind_Inr_iff upd_chan_Inr set_chan_def)
  obtain p' where p': "pcs' (d, c) = Some p'" "\<not> s_rtRun (chans s' d c)"
    "steps_left p' + count_list ls (Some (d, c)) \<le> steps_left p"
    using stopped_run [OF assms(4) inv off assms(3)] by blast
  moreover have "steps_left p \<le> 3" by (cases p) auto
  moreover have "steps_left p' = 0 \<Longrightarrow> p' = Finished" by (cases p') auto
  ultimately have "steps_left p' + count_list ls (Some (d, c)) \<le> 3"
    "count_list ls (Some (d, c)) = 3 \<Longrightarrow> p' = Finished" by auto
  then show ?thesis using p'(1,2) phyRecvThreadMain.leave by blast
qed

text \<open>All threads together keep the MAC in order.\<close>

lemma threads_keep_mac_in_order:
  assumes "main_start port_of level_file opts log_ok at t io junk ringMem maxT minT e = Inr (Some (ports, cfg, cellNum, g, a0, s0))"
    and "4096 \<le> length ringMem" and "sys_run env fs cfg ports cellNum ls (a0, s0, launched ts) (a, s, pcs)"
  shows "mac_inv (cf_operMode cfg, cf_phyStub cfg, cf_runtimePerTc cfg, cf_pdschMode cfg, cf_sfnMode cfg) s"
proof -
  have "steps env fs s0 s"
    using assms(3)
  proof (induction ls "(a0, s0, launched ts)" "(a, s, pcs)" arbitrary: a s pcs rule: sys_run.induct)
    case (more ls y l)
    obtain a1 s1 pcs1 where y: "y = (a1, s1, pcs1)" by (cases y)
    then show ?case using more.hyps(2) [OF y] sys_steps more.hyps(3) steps.trans by blast
  qed (simp add: steps_def)
  then show ?thesis using steps_inv main_start_ready [OF assms(1,2)] by blast
qed

theorem stopped_thread_finishes_witness:
  "\<exists>s s0. macStop count_env 2 1 s = Inr s0 \<and> mac_inv (MANUAL, False, 20, PDSCHMODE_AUTO_MODE, False) s \<and>
    (\<forall>ls a' s' pcs'. sys_run count_env (\<lambda>_. None) manual_cfg [0, 0, 0, 0] [2, 2, 2, 2] ls (app_zero, s0, (\<lambda>_. Some AtPoll)) (a', s', pcs')
      \<longrightarrow> count_list ls (Some (2, 1)) \<le> 3)"
proof -
  obtain g s where "main_start (\<lambda>_. 0) False [OptSlots ''20''] True 8 \<lparr>tm_year = 124, tm_mon = 0, tm_mday = 1, tm_hour = 0, tm_min = 0, tm_sec = 0\<rparr> io_fine
      (\<lambda>_. 7) (replicate 5000 9) 500 100 (0 :: nat) =
      Inr (Some (map (\<lambda>_. 0) [0..<MAC_PC802_INDEX_MAX], example_cfg, [1, 1, 1, 1], g, app_zero, s))"
    using example_start by blast
  from main_start_ready [OF this] have inv: "mac_inv (MANUAL, False, 20, PDSCHMODE_AUTO_MODE, False) s"
    by (simp add: example_cfg_def loadCfg_def)
  obtain s0 where s0: "macStop count_env 2 1 s = Inr s0" by (auto simp: macStop_def upd_chan_ok)
  have "count_list ls (Some (2, 1)) \<le> 3"
    if "sys_run count_env (\<lambda>_. None) manual_cfg [0, 0, 0, 0] [2, 2, 2, 2] ls (app_zero, s0, (\<lambda>_. Some AtPoll)) (a', s', pcs')"
    for ls a' s' pcs'
    using stopped_thread_finishes [OF inv s0 _ that] by auto
  then show ?thesis using s0 inv by blast
qed

end
