(* ===== verification/MacLoad.thy ===== *)
theory MacLoad
  imports MacPhy
begin

text \<open>
  The built-in test case of \<open>src/mac/src/macLoad.c\<close>: constant assignments to the fields of the requests of cell (0, 0). An
  assignment is the path of a field with a value; the layout of \<open>L1Layout\<close> says which bytes it writes, as the compiler does.
  Nothing in the program calls \<open>testCae1\<close>.
\<close>

section \<open>Assignments to fields\<close>

datatype hop = F string | I nat

type_synonym assigns = "(hop list \<times> nat) list"

definition under :: "hop list \<Rightarrow> assigns \<Rightarrow> assigns" where
  "under pre as = map (\<lambda>(p, v). (pre @ p, v)) as"

definition provided :: "bool \<Rightarrow> assigns \<Rightarrow> assigns" where
  "provided b as = (if b then as else [])"

text \<open>The offset and the type of what a path names; an index of an array with a size must be below it.\<close>

fun locate :: "ctype \<Rightarrow> hop list \<Rightarrow> nat \<Rightarrow> (nat \<times> ctype) option" where
  "locate t [] off = Some (off, t)"
| "locate (CStruct fs) (F f # p) off =
     (case (foff 0 fs f, ftype fs f) of (Some k, Some t) \<Rightarrow> locate t p (off + k) | _ \<Rightarrow> None)"
| "locate (CUnion fs) (F f # p) off = (case ftype fs f of Some t \<Rightarrow> locate t p off | None \<Rightarrow> None)"
| "locate (CArr t n) (I i # p) off = (if i < n then locate t p (off + i * csize t) else None)"
| "locate (CFlex t) (I i # p) off = locate t p (off + i * csize t)"
| "locate _ _ off = None"

definition scalar_bytes :: "nat \<Rightarrow> nat \<Rightarrow> u8 list" where
  "scalar_bytes n v = map (\<lambda>k. of_nat (v div 256 ^ k)) [0..<n]"

fun scalar :: "ctype \<Rightarrow> bool" where
  "scalar U8 = True"
| "scalar U16 = True"
| "scalar U32 = True"
| "scalar I16 = True"
| "scalar _ = False"

text \<open>An assignment to a field of a structure at the start of a buffer.\<close>

definition store :: "ctype \<Rightarrow> hop list \<times> nat \<Rightarrow> u8 list \<Rightarrow> u8 list res" where
  "store T a m =
     (case a of (p, v) \<Rightarrow>
      case locate T p 0 of
        None \<Rightarrow> Inl OutOfRange
      | Some (off, t) \<Rightarrow> wr_block m off (scalar_bytes (csize t) v))"

definition store_all :: "ctype \<Rightarrow> assigns \<Rightarrow> u8 list option \<Rightarrow> u8 list option res" where
  "store_all T as buf =
     (case buf of None \<Rightarrow> Inl NullDeref | Some m \<Rightarrow> rbind (foreach (store T) as m) (\<lambda>m'. Inr (Some m')))"

section \<open>The test case\<close>

text \<open>The configuration request, and the heads of the requests of a slot.\<close>

definition case1_config :: assigns where
  "case1_config =
     [([F ''CarriConfig'', F ''dlFrequency''], 2565690), ([F ''CarriConfig'', F ''ulFrequency''], 2565690),
      ([F ''CarriConfig'', F ''dlBandwidth''], 100), ([F ''CarriConfig'', F ''ulBandwidth''], 100),
      ([F ''CarriConfig'', F ''dlGridSize'', I 1], 273), ([F ''CarriConfig'', F ''ulGridSize'', I 1], 273),
      ([F ''CarriConfig'', F ''numTxAnt''], 1), ([F ''CarriConfig'', F ''numRxAnt''], 1),
      ([F ''CarriConfig'', F ''FrequencyShift7p5KHz''], 0), ([F ''CellConfig'', F ''phyCellId''], 1),
      ([F ''CellConfig'', F ''FrameDuplexType''], 1), ([F ''SSBConfig'', F ''bchPayloadFlag''], 1),
      ([F ''SSBConfig'', F ''ssPbchBlockPowerScaling''], 0),
      ([F ''PRACHCfgInfo'', F ''numPrachConfigurations''], 1),
      ([F ''PRACHCfgInfo'', F ''PrachConfiguration'', I 0, F ''prachResConfigIndex''], 0),
      ([F ''PRACHCfgInfo'', F ''PrachConfiguration'', I 0, F ''prachSequenceLength''], 1),
      ([F ''PRACHCfgInfo'', F ''PrachConfiguration'', I 0, F ''prachSubCSpacing''], 1),
      ([F ''PRACHCfgInfo'', F ''PrachConfiguration'', I 0, F ''ulBwpPuschScs''], 1),
      ([F ''PRACHCfgInfo'', F ''PrachConfiguration'', I 0, F ''restrictedSetConfig''], 0),
      ([F ''PRACHCfgInfo'', F ''PrachConfiguration'', I 0, F ''numPrachFdOccasions''], 1),
      ([F ''PRACHCfgInfo'', F ''PrachConfiguration'', I 0, F ''prachConfigIndex''], 159),
      ([F ''PRACHCfgInfo'', F ''PrachConfiguration'', I 0, F ''SsbPerRach''], 3),
      ([F ''PRACHCfgInfo'', F ''PrachConfiguration'', I 0, F ''PrachFdOccaCfgInfos'', I 0, F ''prachRootSequenceIndex''], 20),
      ([F ''PRACHCfgInfo'', F ''PrachConfiguration'', I 0, F ''PrachFdOccaCfgInfos'', I 0, F ''prachFrequencyOffset''], 0),
      ([F ''PRACHCfgInfo'', F ''PrachConfiguration'', I 0, F ''PrachFdOccaCfgInfos'', I 0, F ''numUnusedRootSequences''], 1),
      ([F ''PRACHCfgInfo'', F ''PrachConfiguration'', I 0, F ''PrachFdOccaCfgInfos'', I 0, F ''numRootSequences''], 6),
      ([F ''PRACHCfgInfo'', F ''PrachConfiguration'', I 0, F ''PrachFdOccaCfgInfos'', I 0, F ''prachZeroCorrConf''], 6),
      ([F ''PRACHCfgInfo'', F ''PrachConfiguration'', I 0, F ''PrachFdOccaCfgInfos'', I 0, F ''unusedRootSequences'', I 0], 137),
      ([F ''SSBtableInfo'', F ''Case''], 2), ([F ''SSBtableInfo'', F ''subcarrierSpacing''], 1),
      ([F ''SSBtableInfo'', F ''subCarrierSpacingCommon''], 1), ([F ''SSBtableInfo'', F ''lMax''], 8),
      ([F ''SSBtableInfo'', F ''rmsiPresence''], 1), ([F ''SSBtableInfo'', F ''SsbMask'', I 0], 4278190080)] @
     map (\<lambda>i. ([F ''SSBtableInfo'', F ''BeamId'', I i], i)) [0..<64] @
     [([F ''TDDtableInfo'', F ''TddPeriod''], 6), ([F ''MeasurementCfgInfo'', F ''RsrpMeasurement''], 1),
      ([F ''MeasurementCfgInfo'', F ''RssiMeasurement''], 1), ([F ''UciConfigurationInfo'', F ''numUci2Maps''], 1),
      ([F ''UciConfigurationInfo'', F ''mapIndex'', I 0, F ''numPart1Params''], 1)] @
     map (\<lambda>i. ([F ''UciConfigurationInfo'', F ''mapIndex'', I 0, F ''sizesPart1Params'', I i], 1)) [1..<4] @
     [([F ''PrbSymol'', F ''numberOfPrbSymbRateMatchPatterns''], 1), ([F ''PrbSymol'', F ''numCoresetRmPatterns''], 1),
      ([F ''PrbSymol'', F ''CoresetRmPatterns'', I 0, F ''symbolsPattern''], 3),
      ([F ''PrbSymol'', F ''CoresetRmPatterns'', I 0, F ''freqDomainResources'', I 0], 240),
      ([F ''PrbSymol'', F ''CoresetRmPatterns'', I 0, F ''coresetRmPatternID''], 0),
      ([F ''PrbSymol'', F ''PrbSymbRateMatchPatterns'', I 0, F ''prbSymbRateMatchPatternID''], 2),
      ([F ''PrbSymol'', F ''PrbSymbRateMatchPatterns'', I 0, F ''subcarrierSpacing''], 1),
      ([F ''PrbSymol'', F ''PrbSymbRateMatchPatterns'', I 0, F ''symbolsInRB''], 3),
      ([F ''PucchSSConfig'', F ''numUlBwpIds''], 1), ([F ''PdschConfig'', F ''pdschCbgScheme''], 0),
      ([F ''DBTInfo'', F ''numDigBeams''], 1), ([F ''DBTInfo'', F ''numBasebandPorts''], 1),
      ([F ''DBTInfo'', F ''digBeam'', I 0, F ''beamIdx''], 2),
      ([F ''DBTInfo'', F ''digBeam'', I 0, F ''TXRU'', I 0, F ''digBeamWeightIm''], 2),
      ([F ''DBTInfo'', F ''digBeam'', I 0, F ''TXRU'', I 0, F ''digBeamWeightRe''], 2),
      ([F ''PMInfo'', F ''numPMTables''], 1), ([F ''PMInfo'', F ''pmTable'', I 0, F ''PMidx''], 0),
      ([F ''PMInfo'', F ''pmTable'', I 0, F ''numLayers''], 1),
      ([F ''PMInfo'', F ''pmTable'', I 0, F ''numAntPorts''], 4),
      ([F ''PMInfo'', F ''pmTable'', I 0, F ''layers'', I 0, F ''precoderInfo'', I 0, F ''precoderWeightIm''], 2),
      ([F ''PMInfo'', F ''pmTable'', I 0, F ''layers'', I 0, F ''precoderInfo'', I 0, F ''precoderWeightRe''], 2)]"

definition dl_head :: "nat \<Rightarrow> nat \<Rightarrow> assigns" where
  "dl_head sfn slot =
     [([F ''SFN''], sfn), ([F ''Slot''], slot)]"

definition ul_head :: "nat \<Rightarrow> nat \<Rightarrow> assigns" where
  "ul_head sfn slot =
     [([F ''SFN''], sfn), ([F ''Slot''], slot)]"

definition tx_head :: "nat \<Rightarrow> nat \<Rightarrow> assigns" where
  "tx_head sfn slot =
     [([F ''SFN''], sfn), ([F ''Slot''], slot)]"

definition dl_ssb :: "nat \<Rightarrow> assigns" where
  "dl_ssb slot =
     [([F ''nPDUs''], 1), ([F ''nDlTypes''], 5), ([F ''nGroup''], 0), ([F ''nPDUsOfEachType'', I 0], 1),
      ([F ''nPDUsOfEachType'', I 1], 1), ([F ''nPDUsOfEachType'', I 4], 1), ([F ''pdus'', I 0, F ''PDUType''], 3),
      ([F ''pdus'', I 0, F ''PDUSize''], 0)] @
     under [F ''pdus'', I 0, F ''DlPDUConfig'', F ''u'', F ''SsbPdu'']
       [([F ''ssbConfigIndex''], 0)] @
     (if slot = 0 then under [F ''pdus'', I 0, F ''DlPDUConfig'', F ''u'', F ''SsbPdu'']
         [([F ''ssbBlockIndex''], 0)]
      else if slot = 10 then under [F ''pdus'', I 0, F ''DlPDUConfig'', F ''u'', F ''SsbPdu'']
         [([F ''ssbBlockIndex''], 16)] else []) @
     under [F ''pdus'', I 0, F ''DlPDUConfig'', F ''u'', F ''SsbPdu'']
       [([F ''bchPayloadFlag''], 1), ([F ''BchPayload'', F ''bchPayload''], 65539)]"

definition dl_none :: assigns where
  "dl_none =
     [([F ''nPDUs''], 0), ([F ''nDlTypes''], 5), ([F ''nGroup''], 0)]"

definition dl_pdcch1 :: "nat \<Rightarrow> assigns" where
  "dl_pdcch1 slot =
     [([F ''nPDUs''], 2), ([F ''nDlTypes''], 5), ([F ''nGroup''], 0), ([F ''nPDUsOfEachType'', I 0], 1),
      ([F ''nPDUsOfEachType'', I 1], 1), ([F ''nPDUsOfEachType'', I 4], 1), ([F ''pdus'', I 0, F ''PDUType''], 0),
      ([F ''pdus'', I 0, F ''PDUSize''], 0)] @
     under [F ''pdus'', I 0, F ''DlPDUConfig'', F ''u'', F ''PdcchPdu'']
       [([F ''pdcchPduIndex''], 0), ([F ''numDlDci''], 1), ([F ''BWP'', F ''CoresetBWPSize''], 273),
        ([F ''BWP'', F ''CoresetBWPStart''], 0), ([F ''BWP'', F ''SubcarrierSpacing''], 1),
        ([F ''BWP'', F ''CyclicPrefix''], 0), ([F ''Coreset'', F ''ShiftIndex''], 1),
        ([F ''Coreset'', F ''StartSymbolIndex''], 0), ([F ''Coreset'', F ''DurationSymbols''], 2),
        ([F ''Coreset'', F ''FreqDomainResource'', I 1], 255),
        ([F ''Coreset'', F ''FreqDomainResource'', I 2], 255),
        ([F ''Coreset'', F ''FreqDomainResource'', I 3], 255), ([F ''Coreset'', F ''CceRegMappingType''], 1),
        ([F ''Coreset'', F ''RegBundleSize''], 2), ([F ''Coreset'', F ''InterleaverSize''], 3),
        ([F ''Coreset'', F ''CoreSetType''], 1), ([F ''Coreset'', F ''precoderGranularity''], 0),
        ([F ''DlDCIs'', I 0, F ''RNTI''], 12345), ([F ''DlDCIs'', I 0, F ''nIdPdcchData''], 201),
        ([F ''DlDCIs'', I 0, F ''nRntiPdcchData''], 12345), ([F ''DlDCIs'', I 0, F ''nIdPdcchDmrs''], 60)] @
     provided (slot = 1) (under [F ''pdus'', I 0, F ''DlPDUConfig'', F ''u'', F ''PdcchPdu'']
         [([F ''DlDCIs'', I 0, F ''CceIndex''], 30)]) @
     provided (slot = 2) (under [F ''pdus'', I 0, F ''DlPDUConfig'', F ''u'', F ''PdcchPdu'']
         [([F ''DlDCIs'', I 0, F ''CceIndex''], 35)]) @
     provided (slot = 3) (under [F ''pdus'', I 0, F ''DlPDUConfig'', F ''u'', F ''PdcchPdu'']
         [([F ''DlDCIs'', I 0, F ''CceIndex''], 0)]) @
     provided (slot = 6) (under [F ''pdus'', I 0, F ''DlPDUConfig'', F ''u'', F ''PdcchPdu'']
         [([F ''DlDCIs'', I 0, F ''CceIndex''], 24)]) @
     provided (slot = 11) (under [F ''pdus'', I 0, F ''DlPDUConfig'', F ''u'', F ''PdcchPdu'']
         [([F ''DlDCIs'', I 0, F ''CceIndex''], 14)]) @
     provided (slot = 12) (under [F ''pdus'', I 0, F ''DlPDUConfig'', F ''u'', F ''PdcchPdu'']
         [([F ''DlDCIs'', I 0, F ''CceIndex''], 4)]) @
     provided (slot = 13) (under [F ''pdus'', I 0, F ''DlPDUConfig'', F ''u'', F ''PdcchPdu'']
         [([F ''DlDCIs'', I 0, F ''CceIndex''], 27)]) @
     provided (slot = 16) (under [F ''pdus'', I 0, F ''DlPDUConfig'', F ''u'', F ''PdcchPdu'']
         [([F ''DlDCIs'', I 0, F ''CceIndex''], 46)]) @
     under [F ''pdus'', I 0, F ''DlPDUConfig'', F ''u'', F ''PdcchPdu'']
       [([F ''DlDCIs'', I 0, F ''AggregationLevel''], 1), ([F ''DlDCIs'', I 0, F ''PayloadSizeBits''], 52),
        ([F ''DlDCIs'', I 0, F ''TxPowerInfo'', F ''pdcchDmrsPowerOffsetProfileSSS''], 0),
        ([F ''DlDCIs'', I 0, F ''TxPowerInfo'', F ''pdcchDataPowerOffsetProfileSSS''], 0)] @
     provided (slot = 1) (under [F ''pdus'', I 0, F ''DlPDUConfig'', F ''u'', F ''PdcchPdu'']
         [([F ''DlDCIs'', I 0, F ''Payload'', I 0], 194), ([F ''DlDCIs'', I 0, F ''Payload'', I 1], 32),
          ([F ''DlDCIs'', I 0, F ''Payload'', I 2], 7), ([F ''DlDCIs'', I 0, F ''Payload'', I 3], 176),
          ([F ''DlDCIs'', I 0, F ''Payload'', I 4], 24), ([F ''DlDCIs'', I 0, F ''Payload'', I 5], 54)]) @
     provided (slot = 2) (under [F ''pdus'', I 0, F ''DlPDUConfig'', F ''u'', F ''PdcchPdu'']
         [([F ''DlDCIs'', I 0, F ''Payload'', I 0], 194), ([F ''DlDCIs'', I 0, F ''Payload'', I 1], 32),
          ([F ''DlDCIs'', I 0, F ''Payload'', I 2], 7), ([F ''DlDCIs'', I 0, F ''Payload'', I 3], 177),
          ([F ''DlDCIs'', I 0, F ''Payload'', I 4], 0), ([F ''DlDCIs'', I 0, F ''Payload'', I 5], 14)]) @
     provided (slot = 3) (under [F ''pdus'', I 0, F ''DlPDUConfig'', F ''u'', F ''PdcchPdu'']
         [([F ''DlDCIs'', I 0, F ''Payload'', I 0], 194), ([F ''DlDCIs'', I 0, F ''Payload'', I 1], 32),
          ([F ''DlDCIs'', I 0, F ''Payload'', I 2], 7), ([F ''DlDCIs'', I 0, F ''Payload'', I 3], 176),
          ([F ''DlDCIs'', I 0, F ''Payload'', I 4], 144), ([F ''DlDCIs'', I 0, F ''Payload'', I 5], 46)]) @
     provided (slot = 6) (under [F ''pdus'', I 0, F ''DlPDUConfig'', F ''u'', F ''PdcchPdu'']
         [([F ''DlDCIs'', I 0, F ''Payload'', I 0], 194), ([F ''DlDCIs'', I 0, F ''Payload'', I 1], 32),
          ([F ''DlDCIs'', I 0, F ''Payload'', I 2], 7), ([F ''DlDCIs'', I 0, F ''Payload'', I 3], 177),
          ([F ''DlDCIs'', I 0, F ''Payload'', I 4], 64), ([F ''DlDCIs'', I 0, F ''Payload'', I 5], 6)]) @
     provided (slot = 11) (under [F ''pdus'', I 0, F ''DlPDUConfig'', F ''u'', F ''PdcchPdu'']
         [([F ''DlDCIs'', I 0, F ''Payload'', I 0], 194), ([F ''DlDCIs'', I 0, F ''Payload'', I 1], 32),
          ([F ''DlDCIs'', I 0, F ''Payload'', I 2], 7), ([F ''DlDCIs'', I 0, F ''Payload'', I 3], 184),
          ([F ''DlDCIs'', I 0, F ''Payload'', I 4], 24), ([F ''DlDCIs'', I 0, F ''Payload'', I 5], 54)]) @
     provided (slot = 12) (under [F ''pdus'', I 0, F ''DlPDUConfig'', F ''u'', F ''PdcchPdu'']
         [([F ''DlDCIs'', I 0, F ''Payload'', I 0], 194), ([F ''DlDCIs'', I 0, F ''Payload'', I 1], 32),
          ([F ''DlDCIs'', I 0, F ''Payload'', I 2], 7), ([F ''DlDCIs'', I 0, F ''Payload'', I 3], 185),
          ([F ''DlDCIs'', I 0, F ''Payload'', I 4], 0), ([F ''DlDCIs'', I 0, F ''Payload'', I 5], 14)]) @
     provided (slot = 13) (under [F ''pdus'', I 0, F ''DlPDUConfig'', F ''u'', F ''PdcchPdu'']
         [([F ''DlDCIs'', I 0, F ''Payload'', I 0], 194), ([F ''DlDCIs'', I 0, F ''Payload'', I 1], 32),
          ([F ''DlDCIs'', I 0, F ''Payload'', I 2], 7), ([F ''DlDCIs'', I 0, F ''Payload'', I 3], 184),
          ([F ''DlDCIs'', I 0, F ''Payload'', I 4], 144), ([F ''DlDCIs'', I 0, F ''Payload'', I 5], 46)]) @
     provided (slot = 16) (under [F ''pdus'', I 0, F ''DlPDUConfig'', F ''u'', F ''PdcchPdu'']
         [([F ''DlDCIs'', I 0, F ''Payload'', I 0], 194), ([F ''DlDCIs'', I 0, F ''Payload'', I 1], 32),
          ([F ''DlDCIs'', I 0, F ''Payload'', I 2], 7), ([F ''DlDCIs'', I 0, F ''Payload'', I 3], 185),
          ([F ''DlDCIs'', I 0, F ''Payload'', I 4], 64), ([F ''DlDCIs'', I 0, F ''Payload'', I 5], 6)])"

definition dl_pdsch :: assigns where
  "dl_pdsch =
     [([F ''pdus'', I 1, F ''PDUType''], 1), ([F ''pdus'', I 1, F ''PDUSize''], 0)] @
     under [F ''pdus'', I 1, F ''DlPDUConfig'', F ''u'', F ''PdschPdu'']
       [([F ''pduBitmap''], 0), ([F ''RNTI''], 12345), ([F ''BWP'', F ''BWPSize''], 273),
        ([F ''BWP'', F ''BWPStart''], 0), ([F ''BWP'', F ''SubcarrierSpacing''], 1),
        ([F ''BWP'', F ''CyclicPrefix''], 0), ([F ''CodewordInfo'', F ''NrOfCodewords''], 1),
        ([F ''CodewordInfo'', F ''CodewordInfo'', I 0, F ''TBSize''], 30215),
        ([F ''CodewordInfo'', F ''CodewordInfo'', I 0, F ''tbSizeLbrmBytes''], 0),
        ([F ''CodewordInfo'', F ''CodewordInfo'', I 0, F ''targetCodeRate''], 9480),
        ([F ''CodewordInfo'', F ''CodewordInfo'', I 0, F ''mcsIndex''], 27),
        ([F ''CodewordInfo'', F ''CodewordInfo'', I 0, F ''mcsTable''], 1),
        ([F ''CodewordInfo'', F ''CodewordInfo'', I 0, F ''rvIndex''], 0),
        ([F ''CodewordInfo'', F ''CodewordInfo'', I 0, F ''ldpcBaseGraph''], 1), ([F ''nIdPdsch''], 50),
        ([F ''refPoint''], 0), ([F ''DMRSInfo'', F ''dlDmrsSymbPos''], 2052),
        ([F ''DMRSInfo'', F ''dlDmrsScramblingId''], 300), ([F ''DMRSInfo'', F ''dmrsPorts''], 1),
        ([F ''DMRSInfo'', F ''maxLen''], 1), ([F ''DMRSInfo'', F ''dmrsConfigType''], 0),
        ([F ''DMRSInfo'', F ''nSCID''], 0), ([F ''DMRSInfo'', F ''numDmrsCdmGrpsNoData''], 2),
        ([F ''ResourceAllocFd'', F ''rbStart''], 0), ([F ''ResourceAllocFd'', F ''rbSize''], 273),
        ([F ''ResourceAllocFd'', F ''coresetStartPoint''], 0),
        ([F ''ResourceAllocFd'', F ''initialDlBwpSize''], 0), ([F ''ResourceAllocFd'', F ''resourceAlloc''], 1),
        ([F ''ResourceAllocFd'', F ''VRBtoPRBMapping''], 0), ([F ''ResourceAllocFd'', F ''pdschTransType''], 0)] @
     map (\<lambda>i. ([F ''pdus'', I 1, F ''DlPDUConfig'', F ''u'', F ''PdschPdu'', F ''ResourceAllocFd'', F ''rbBitmap'', I i], 0)) [0..<36] @
     under [F ''pdus'', I 1, F ''DlPDUConfig'', F ''u'', F ''PdschPdu'']
       [([F ''RateMatchingInformation'', F ''ssbConfigForRateMatching''], 0),
        ([F ''RateMatchingInformation'', F ''numCoresetRMP''], 0),
        ([F ''RateMatchingInformation'', F ''numCsiRsForRM''], 0),
        ([F ''RateMatchingInformation'', F ''coresetRMPIndex'', I 0], 0),
        ([F ''RateMatchingInformation'', F ''csiRsForRM'', I 0], 0),
        ([F ''ResourceAllocTd'', F ''StartSymbolIndex''], 2), ([F ''ResourceAllocTd'', F ''NrOfSymbols''], 12),
        ([F ''TxPowerInfo'', F ''pdschDataPowerOffsetProfileSSS''], 0),
        ([F ''TxPowerInfo'', F ''pdschDmrsPowerOffsetProfileSSS''], 0),
        ([F ''PTRS'', F ''pdschPtrsPowerOffsetProfileSSS''], 0), ([F ''PTRS'', F ''PTRSFreqDensity''], 0),
        ([F ''PTRS'', F ''PTRSPortIndex''], 0), ([F ''PTRS'', F ''PTRSReOffset''], 0),
        ([F ''PTRS'', F ''PTRSTimeDensity''], 0), ([F ''CbgInfo'', F ''maxNumCbgPerTb''], 0)] @
     map (\<lambda>i. ([F ''pdus'', I 1, F ''DlPDUConfig'', F ''u'', F ''PdschPdu'', F ''CbgInfo'', F ''dlTbCrcCW'', I i], 0)) [0..<8]"

definition dl_pdcch2 :: "nat \<Rightarrow> assigns" where
  "dl_pdcch2 slot =
     [([F ''nPDUs''], 2), ([F ''nDlTypes''], 5), ([F ''nGroup''], 0), ([F ''nPDUsOfEachType'', I 0], 1),
      ([F ''nPDUsOfEachType'', I 1], 1), ([F ''nPDUsOfEachType'', I 4], 2), ([F ''pdus'', I 0, F ''PDUType''], 0),
      ([F ''pdus'', I 0, F ''PDUSize''], 0)] @
     under [F ''pdus'', I 0, F ''DlPDUConfig'', F ''u'', F ''PdcchPdu'']
       [([F ''pdcchPduIndex''], 0), ([F ''numDlDci''], 2), ([F ''BWP'', F ''CoresetBWPSize''], 273),
        ([F ''BWP'', F ''CoresetBWPStart''], 0), ([F ''BWP'', F ''SubcarrierSpacing''], 1),
        ([F ''BWP'', F ''CyclicPrefix''], 0), ([F ''Coreset'', F ''ShiftIndex''], 1),
        ([F ''Coreset'', F ''StartSymbolIndex''], 0), ([F ''Coreset'', F ''DurationSymbols''], 2),
        ([F ''Coreset'', F ''FreqDomainResource'', I 1], 255),
        ([F ''Coreset'', F ''FreqDomainResource'', I 2], 255),
        ([F ''Coreset'', F ''FreqDomainResource'', I 3], 255), ([F ''Coreset'', F ''CceRegMappingType''], 1),
        ([F ''Coreset'', F ''RegBundleSize''], 2), ([F ''Coreset'', F ''InterleaverSize''], 3),
        ([F ''Coreset'', F ''CoreSetType''], 1), ([F ''Coreset'', F ''precoderGranularity''], 0),
        ([F ''DlDCIs'', I 0, F ''RNTI''], 12345), ([F ''DlDCIs'', I 0, F ''nIdPdcchData''], 201),
        ([F ''DlDCIs'', I 0, F ''nRntiPdcchData''], 12345), ([F ''DlDCIs'', I 0, F ''nIdPdcchDmrs''], 60)] @
     provided (slot = 4) (under [F ''pdus'', I 0, F ''DlPDUConfig'', F ''u'', F ''PdcchPdu'']
         [([F ''DlDCIs'', I 0, F ''CceIndex''], 38)]) @
     provided (slot = 5) (under [F ''pdus'', I 0, F ''DlPDUConfig'', F ''u'', F ''PdcchPdu'']
         [([F ''DlDCIs'', I 0, F ''CceIndex''], 7)]) @
     provided (slot = 14) (under [F ''pdus'', I 0, F ''DlPDUConfig'', F ''u'', F ''PdcchPdu'']
         [([F ''DlDCIs'', I 0, F ''CceIndex''], 30)]) @
     provided (slot = 15) (under [F ''pdus'', I 0, F ''DlPDUConfig'', F ''u'', F ''PdcchPdu'']
         [([F ''DlDCIs'', I 0, F ''CceIndex''], 31)]) @
     under [F ''pdus'', I 0, F ''DlPDUConfig'', F ''u'', F ''PdcchPdu'']
       [([F ''DlDCIs'', I 0, F ''AggregationLevel''], 1), ([F ''DlDCIs'', I 0, F ''PayloadSizeBits''], 52),
        ([F ''DlDCIs'', I 0, F ''TxPowerInfo'', F ''pdcchDmrsPowerOffsetProfileSSS''], 0),
        ([F ''DlDCIs'', I 0, F ''TxPowerInfo'', F ''pdcchDataPowerOffsetProfileSSS''], 0)] @
     provided (slot = 4) (under [F ''pdus'', I 0, F ''DlPDUConfig'', F ''u'', F ''PdcchPdu'']
         [([F ''DlDCIs'', I 0, F ''Payload'', I 0], 194), ([F ''DlDCIs'', I 0, F ''Payload'', I 1], 32),
          ([F ''DlDCIs'', I 0, F ''Payload'', I 2], 7), ([F ''DlDCIs'', I 0, F ''Payload'', I 3], 177),
          ([F ''DlDCIs'', I 0, F ''Payload'', I 4], 128), ([F ''DlDCIs'', I 0, F ''Payload'', I 5], 46)]) @
     provided (slot = 5) (under [F ''pdus'', I 0, F ''DlPDUConfig'', F ''u'', F ''PdcchPdu'']
         [([F ''DlDCIs'', I 0, F ''Payload'', I 0], 194), ([F ''DlDCIs'', I 0, F ''Payload'', I 1], 32),
          ([F ''DlDCIs'', I 0, F ''Payload'', I 2], 7), ([F ''DlDCIs'', I 0, F ''Payload'', I 3], 176),
          ([F ''DlDCIs'', I 0, F ''Payload'', I 4], 64), ([F ''DlDCIs'', I 0, F ''Payload'', I 5], 46)]) @
     provided (slot = 14) (under [F ''pdus'', I 0, F ''DlPDUConfig'', F ''u'', F ''PdcchPdu'']
         [([F ''DlDCIs'', I 0, F ''Payload'', I 0], 194), ([F ''DlDCIs'', I 0, F ''Payload'', I 1], 32),
          ([F ''DlDCIs'', I 0, F ''Payload'', I 2], 7), ([F ''DlDCIs'', I 0, F ''Payload'', I 3], 185),
          ([F ''DlDCIs'', I 0, F ''Payload'', I 4], 128), ([F ''DlDCIs'', I 0, F ''Payload'', I 5], 46)]) @
     provided (slot = 15) (under [F ''pdus'', I 0, F ''DlPDUConfig'', F ''u'', F ''PdcchPdu'']
         [([F ''DlDCIs'', I 0, F ''Payload'', I 0], 194), ([F ''DlDCIs'', I 0, F ''Payload'', I 1], 32),
          ([F ''DlDCIs'', I 0, F ''Payload'', I 2], 7), ([F ''DlDCIs'', I 0, F ''Payload'', I 3], 184),
          ([F ''DlDCIs'', I 0, F ''Payload'', I 4], 64), ([F ''DlDCIs'', I 0, F ''Payload'', I 5], 46)]) @
     under [F ''pdus'', I 0, F ''DlPDUConfig'', F ''u'', F ''PdcchPdu'']
       [([F ''DlDCIs'', I 1, F ''RNTI''], 12345), ([F ''DlDCIs'', I 1, F ''nIdPdcchData''], 201),
        ([F ''DlDCIs'', I 1, F ''nRntiPdcchData''], 12345), ([F ''DlDCIs'', I 1, F ''nIdPdcchDmrs''], 60)] @
     provided (slot = 4) (under [F ''pdus'', I 0, F ''DlPDUConfig'', F ''u'', F ''PdcchPdu'']
         [([F ''DlDCIs'', I 1, F ''CceIndex''], 44)]) @
     provided (slot = 5) (under [F ''pdus'', I 0, F ''DlPDUConfig'', F ''u'', F ''PdcchPdu'']
         [([F ''DlDCIs'', I 1, F ''CceIndex''], 13)]) @
     provided (slot = 14) (under [F ''pdus'', I 0, F ''DlPDUConfig'', F ''u'', F ''PdcchPdu'']
         [([F ''DlDCIs'', I 1, F ''CceIndex''], 36)]) @
     provided (slot = 15) (under [F ''pdus'', I 0, F ''DlPDUConfig'', F ''u'', F ''PdcchPdu'']
         [([F ''DlDCIs'', I 1, F ''CceIndex''], 37)]) @
     under [F ''pdus'', I 0, F ''DlPDUConfig'', F ''u'', F ''PdcchPdu'']
       [([F ''DlDCIs'', I 1, F ''AggregationLevel''], 1), ([F ''DlDCIs'', I 1, F ''PayloadSizeBits''], 47),
        ([F ''DlDCIs'', I 1, F ''TxPowerInfo'', F ''pdcchDmrsPowerOffsetProfileSSS''], 0),
        ([F ''DlDCIs'', I 1, F ''TxPowerInfo'', F ''pdcchDataPowerOffsetProfileSSS''], 0),
        ([F ''DlDCIs'', I 1, F ''Payload'', I 0], 67), ([F ''DlDCIs'', I 1, F ''Payload'', I 1], 184),
        ([F ''DlDCIs'', I 1, F ''Payload'', I 2], 67), ([F ''DlDCIs'', I 1, F ''Payload'', I 3], 128),
        ([F ''DlDCIs'', I 1, F ''Payload'', I 4], 80), ([F ''DlDCIs'', I 1, F ''Payload'', I 5], 66)]"

definition tx_data :: assigns where
  "tx_data =
     [([F ''numPDUs''], 1), ([F ''pdus'', I 0, F ''PDULength''], 30215), ([F ''pdus'', I 0, F ''PDUIndex''], 0),
      ([F ''pdus'', I 0, F ''CWIndex''], 0), ([F ''pdus'', I 0, F ''numTLV''], 1),
      ([F ''pdus'', I 0, F ''TLVs'', I 0, F ''Tag''], 2),
      ([F ''pdus'', I 0, F ''TLVs'', I 0, F ''Length''], 30215),
      ([F ''pdus'', I 0, F ''TLVs'', I 0, F ''Value''], 0)]"

definition tx_none :: assigns where
  "tx_none =
     [([F ''numPDUs''], 0)]"

definition ul_three :: assigns where
  "ul_three =
     [([F ''nPDUs''], 3), ([F ''nUlTypes''], 5), ([F ''nGroup''], 1), ([F ''nPDUsOfEachType'', I 1], 1),
      ([F ''nPDUsOfEachType'', I 2], 1), ([F ''nPDUsOfEachType'', I 3], 1), ([F ''pdus'', I 0, F ''PDUType''], 1),
      ([F ''pdus'', I 0, F ''PDUSize''], 0)] @
     under [F ''pdus'', I 0, F ''UlPDUConfig'', F ''u'', F ''PuschPdu'']
       [([F ''Handle''], 0), ([F ''pduBitmap''], 1), ([F ''RNTI''], 12345), ([F ''tbSizeLbrmBytes''], 0),
        ([F ''targetCodeRate''], 6160), ([F ''nIdPusch''], 123), ([F ''qamModOrder''], 6), ([F ''mcsIndex''], 14),
        ([F ''mcsTable''], 1), ([F ''TransformPrecoding''], 1), ([F ''nrOfLayers''], 1),
        ([F ''ldpcBaseGraph''], 0), ([F ''BeamformingInfoOffset''], 0), ([F ''BWP'', F ''BWPSize''], 273),
        ([F ''BWP'', F ''BWPStart''], 0), ([F ''BWP'', F ''SubcarrierSpacing''], 1),
        ([F ''BWP'', F ''CyclicPrefix''], 0), ([F ''DMRS'', F ''ulDmrsSymbPos''], 4),
        ([F ''DMRS'', F ''puschDmrsScramblingId''], 456), ([F ''DMRS'', F ''puschDmrsIdentity''], 0),
        ([F ''DMRS'', F ''dmrsPorts''], 1), ([F ''DMRS'', F ''maxLen''], 1),
        ([F ''DMRS'', F ''dmrsConfigType''], 0), ([F ''DMRS'', F ''nSCID''], 0),
        ([F ''DMRS'', F ''numDmrsCdmGrpsNoData''], 2), ([F ''DMRS'', F ''groupOrSequenceHopping''], 0),
        ([F ''ResourceAllocFd'', F ''rbStart''], 12), ([F ''ResourceAllocFd'', F ''rbSize''], 261),
        ([F ''ResourceAllocFd'', F ''deltaBwp0StartFromActiveBwp''], 0),
        ([F ''ResourceAllocFd'', F ''initialUlBwpSize''], 0),
        ([F ''ResourceAllocFd'', F ''puschSecondHopPRB''], 0),
        ([F ''ResourceAllocFd'', F ''txDirectCurrentLocation''], 3300),
        ([F ''ResourceAllocFd'', F ''resourceAlloc''], 1), ([F ''ResourceAllocFd'', F ''VRBtoPRBMapping''], 0),
        ([F ''ResourceAllocFd'', F ''puschTransType''], 0),
        ([F ''ResourceAllocFd'', F ''IntraSlotFrequencyHopping''], 0),
        ([F ''ResourceAllocFd'', F ''uplinkFrequencyShift7p5khz''], 1)] @
     map (\<lambda>i. ([F ''pdus'', I 0, F ''UlPDUConfig'', F ''u'', F ''PuschPdu'', F ''ResourceAllocFd'', F ''rbBitmap'', I i], 0)) [0..<36] @
     under [F ''pdus'', I 0, F ''UlPDUConfig'', F ''u'', F ''PuschPdu'']
       [([F ''ResourceAllocTd'', F ''StartSymbolIndex''], 0), ([F ''ResourceAllocTd'', F ''NrOfSymbols''], 13),
        ([F ''puschData'', F ''TBSize''], 16912), ([F ''puschData'', F ''numCb''], 0),
        ([F ''puschData'', F ''rvIndex''], 0), ([F ''puschData'', F ''harqProcessID''], 0),
        ([F ''puschData'', F ''newData''], 1), ([F ''puschData'', F ''cbCrcRequest''], 0)] @
     map (\<lambda>i. ([F ''pdus'', I 0, F ''UlPDUConfig'', F ''u'', F ''PuschPdu'', F ''puschData'', F ''cbPresentAndPosition'', I i], 0)) [0..<128] @
     under [F ''pdus'', I 0, F ''UlPDUConfig'', F ''u'', F ''PuschPdu'']
       [([F ''puschPtrs'', F ''numPtrsPorts''], 1), ([F ''dftsOfdm'', F ''ulPtrsSampleDensity''], 1),
        ([F ''dftsOfdm'', F ''ulPtrsTimeDensityTransformPrecoding''], 1)] @
     [([F ''pdus'', I 1, F ''PDUType''], 2), ([F ''pdus'', I 1, F ''PDUSize''], 0)] @
     under [F ''pdus'', I 1, F ''UlPDUConfig'', F ''u'', F ''PucchPdu'']
       [([F ''Handle''], 1), ([F ''RNTI''], 34567), ([F ''FormatType''], 0), ([F ''multiSlotTxIndicator''], 0),
        ([F ''pi2Bpsk''], 0), ([F ''harqBitLen''], 1), ([F ''csiPart1BitLen''], 0), ([F ''srBitLen''], 1),
        ([F ''combineUciReport''], 0), ([F ''BeamformingInfoOffset''], 0), ([F ''BWP'', F ''BWPSize''], 273),
        ([F ''BWP'', F ''BWPStart''], 0), ([F ''BWP'', F ''SubcarrierSpacing''], 1),
        ([F ''BWP'', F ''CyclicPrefix''], 0), ([F ''ResourceAllocFd'', F ''prbStart''], 11),
        ([F ''ResourceAllocFd'', F ''prbSize''], 1), ([F ''ResourceAllocTd'', F ''StartSymbolIndex''], 12),
        ([F ''ResourceAllocTd'', F ''NrOfSymbols''], 2), ([F ''hoppingInfo'', F ''nIdPucchHopping''], 0),
        ([F ''hoppingInfo'', F ''InitialCyclicShift''], 0), ([F ''hoppingInfo'', F ''nIdPucchScrambling''], 150),
        ([F ''hoppingInfo'', F ''secondHopPRB''], 0), ([F ''hoppingInfo'', F ''intraSlotFrequencyHopping''], 0),
        ([F ''hoppingInfo'', F ''preDftOccLen''], 2), ([F ''DMRS'', F ''nId0PucchDmrsScrambling''], 777)] @
     [([F ''pdus'', I 2, F ''PDUType''], 2), ([F ''pdus'', I 2, F ''PDUSize''], 0)] @
     under [F ''pdus'', I 2, F ''UlPDUConfig'', F ''u'', F ''PucchPdu'']
       [([F ''Handle''], 2), ([F ''RNTI''], 34568), ([F ''FormatType''], 2), ([F ''multiSlotTxIndicator''], 0),
        ([F ''pi2Bpsk''], 0), ([F ''harqBitLen''], 1), ([F ''csiPart1BitLen''], 100), ([F ''srBitLen''], 0),
        ([F ''combineUciReport''], 0), ([F ''BeamformingInfoOffset''], 0), ([F ''BWP'', F ''BWPSize''], 273),
        ([F ''BWP'', F ''BWPStart''], 0), ([F ''BWP'', F ''SubcarrierSpacing''], 1),
        ([F ''BWP'', F ''CyclicPrefix''], 0), ([F ''ResourceAllocFd'', F ''prbStart''], 0),
        ([F ''ResourceAllocFd'', F ''prbSize''], 10), ([F ''ResourceAllocTd'', F ''StartSymbolIndex''], 12),
        ([F ''ResourceAllocTd'', F ''NrOfSymbols''], 2), ([F ''hoppingInfo'', F ''nIdPucchHopping''], 0),
        ([F ''hoppingInfo'', F ''InitialCyclicShift''], 1), ([F ''hoppingInfo'', F ''nIdPucchScrambling''], 150),
        ([F ''hoppingInfo'', F ''secondHopPRB''], 0), ([F ''hoppingInfo'', F ''intraSlotFrequencyHopping''], 0),
        ([F ''hoppingInfo'', F ''preDftOccLen''], 2), ([F ''DMRS'', F ''nId0PucchDmrsScrambling''], 778)]"

definition ul_none :: assigns where
  "ul_none =
     [([F ''nPDUs''], 0), ([F ''nUlTypes''], 5), ([F ''nGroup''], 0)]"

text \<open>
  The requests of a slot. The two branches with data describe the same PDSCH message. The assignments to the three
  requests of a slot are kept apart, as they are different buffers.
\<close>

definition dl_slot :: "nat \<Rightarrow> nat \<Rightarrow> assigns" where
  "dl_slot sfn slot = dl_head sfn slot @
     (if slot div 10 = 0 then dl_ssb slot
      else if slot mod 10 = 7 \<or> slot mod 10 = 8 \<or> slot mod 10 = 9 then dl_none
      else if slot mod 10 = 1 \<or> slot mod 10 = 2 \<or> slot mod 10 = 3 \<or> slot mod 10 = 6
      then dl_pdcch1 slot @ dl_pdsch
      else dl_pdcch2 slot @ dl_pdsch)"

definition tx_slot :: "nat \<Rightarrow> nat \<Rightarrow> assigns" where
  "tx_slot sfn slot = tx_head sfn slot @ (let txDataSlot = slot mod 10 in
     if txDataSlot = 1 \<or> txDataSlot = 2 \<or> txDataSlot = 3 \<or> txDataSlot = 4 \<or> txDataSlot = 5 \<or> txDataSlot = 6
     then tx_data else tx_none)"

definition ul_slot :: "nat \<Rightarrow> nat \<Rightarrow> assigns" where
  "ul_slot sfn slot = ul_head sfn slot @ (let ulTtiSlot = slot mod 10 in
     if ulTtiSlot = 8 \<or> ulTtiSlot = 9 then ul_three else ul_none)"

definition put2 :: "(nat \<Rightarrow> nat \<Rightarrow> 'b) \<Rightarrow> nat \<Rightarrow> nat \<Rightarrow> 'b \<Rightarrow> nat \<Rightarrow> nat \<Rightarrow> 'b" where
  "put2 f i j v = f(i := (f i)(j := v))"

definition case1_slot :: "nat \<times> nat \<Rightarrow> chan \<Rightarrow> chan res" where
  "case1_slot p ch =
     (case p of (sfn, slot) \<Rightarrow>
      rbind (store_all L1DLTTIReq_t (dl_slot sfn slot) (gL1DLTTIReq ch sfn slot)) (\<lambda>dl.
      rbind (store_all L1TXDATAREQ_t (tx_slot sfn slot) (gL1TXDATAREQ ch sfn slot)) (\<lambda>tx.
      rbind (store_all L1ULTTI_t (ul_slot sfn slot) (gL1ULTTI ch sfn slot)) (\<lambda>ul.
        Inr (ch\<lparr>gL1DLTTIReq := put2 (gL1DLTTIReq ch) sfn slot dl, gL1TXDATAREQ := put2 (gL1TXDATAREQ ch) sfn slot tx,
          gL1ULTTI := put2 (gL1ULTTI ch) sfn slot ul\<rparr>)))))"

definition testCae1 :: "'e mac \<Rightarrow> 'e mac res" where
  "testCae1 s =
     rbind (get_chan 0 0 s) (\<lambda>ch.
     rbind (store_all L1ConfigRequest_t case1_config (gL1ConfigRequest ch)) (\<lambda>cfg.
     rbind (foreach case1_slot (List.product [0..<3] [0..<19]) (ch\<lparr>gL1ConfigRequest := cfg\<rparr>)) (\<lambda>ch'.
       Inr (set_chan 0 0 ch' s))))"

section \<open>Where the assignments go\<close>

named_theorems locs \<open>the fields of the structures, located\<close>

lemma locate_struct:
  "foff 0 fs f = Some k \<Longrightarrow> ftype fs f = Some t \<Longrightarrow> locate (CStruct fs) (F f # p) off = locate t p (off + k)"
  by simp

lemma loc_L1PrachFdOccasionConfigInfo_t [locs]:
  "locate L1PrachFdOccasionConfigInfo_t (F ''prachRootSequenceIndex'' # p) off = locate U16 p off"
  "locate L1PrachFdOccasionConfigInfo_t (F ''prachFrequencyOffset'' # p) off = locate I16 p (off + 2)"
  "locate L1PrachFdOccasionConfigInfo_t (F ''numUnusedRootSequences'' # p) off = locate U16 p (off + 4)"
  "locate L1PrachFdOccasionConfigInfo_t (F ''numRootSequences'' # p) off = locate U8 p (off + 6)"
  "locate L1PrachFdOccasionConfigInfo_t (F ''prachZeroCorrConf'' # p) off = locate U8 p (off + 7)"
  "locate L1PrachFdOccasionConfigInfo_t (F ''unusedRootSequences'' # p) off = locate (CArr U16 3) p (off + 8)"
  by (simp_all add: locate_struct L1PrachFdOccasionConfigInfo_t_def offset_simps del: foff.simps One_nat_def add_2_eq_Suc add_2_eq_Suc')

lemma loc_L1TxRu_t [locs]:
  "locate L1TxRu_t (F ''digBeamWeightRe'' # p) off = locate I16 p off"
  "locate L1TxRu_t (F ''digBeamWeightIm'' # p) off = locate I16 p (off + 2)"
  by (simp_all add: locate_struct L1TxRu_t_def offset_simps del: foff.simps One_nat_def add_2_eq_Suc add_2_eq_Suc')

lemma loc_L1DigBeam_t [locs]:
  "locate L1DigBeam_t (F ''beamIdx'' # p) off = locate U16 p off"
  "locate L1DigBeam_t (F ''TXRU'' # p) off = locate (CFlex L1TxRu_t) p (off + 4)"
  by (simp_all add: locate_struct L1DigBeam_t_def offset_simps del: foff.simps One_nat_def add_2_eq_Suc add_2_eq_Suc')

lemma loc_L1PrecoderInfo_t [locs]:
  "locate L1PrecoderInfo_t (F ''precoderWeightRe'' # p) off = locate I16 p off"
  "locate L1PrecoderInfo_t (F ''precoderWeightIm'' # p) off = locate I16 p (off + 2)"
  by (simp_all add: locate_struct L1PrecoderInfo_t_def offset_simps del: foff.simps One_nat_def add_2_eq_Suc add_2_eq_Suc')

lemma loc_L1PMLayer_t [locs]:
  "locate L1PMLayer_t (F ''precoderInfo'' # p) off = locate (CFlex L1PrecoderInfo_t) p off"
  by (simp_all add: locate_struct L1PMLayer_t_def offset_simps del: foff.simps One_nat_def add_2_eq_Suc add_2_eq_Suc')

lemma loc_L1CarriConfigInfo_t [locs]:
  "locate L1CarriConfigInfo_t (F ''dlFrequency'' # p) off = locate U32 p off"
  "locate L1CarriConfigInfo_t (F ''ulFrequency'' # p) off = locate U32 p (off + 4)"
  "locate L1CarriConfigInfo_t (F ''dlBandwidth'' # p) off = locate U16 p (off + 8)"
  "locate L1CarriConfigInfo_t (F ''ulBandwidth'' # p) off = locate U16 p (off + 10)"
  "locate L1CarriConfigInfo_t (F ''dlGridSize'' # p) off = locate (CArr U16 5) p (off + 32)"
  "locate L1CarriConfigInfo_t (F ''ulGridSize'' # p) off = locate (CArr U16 5) p (off + 42)"
  "locate L1CarriConfigInfo_t (F ''numTxAnt'' # p) off = locate U16 p (off + 52)"
  "locate L1CarriConfigInfo_t (F ''numRxAnt'' # p) off = locate U16 p (off + 54)"
  "locate L1CarriConfigInfo_t (F ''FrequencyShift7p5KHz'' # p) off = locate U8 p (off + 56)"
  by (simp_all add: locate_struct L1CarriConfigInfo_t_def offset_simps del: foff.simps One_nat_def add_2_eq_Suc add_2_eq_Suc')

lemma loc_L1CellConfigInfo_t [locs]:
  "locate L1CellConfigInfo_t (F ''phyCellId'' # p) off = locate U16 p off"
  "locate L1CellConfigInfo_t (F ''FrameDuplexType'' # p) off = locate U8 p (off + 2)"
  by (simp_all add: locate_struct L1CellConfigInfo_t_def offset_simps del: foff.simps One_nat_def add_2_eq_Suc add_2_eq_Suc')

lemma loc_L1SsbConfigInfo_t [locs]:
  "locate L1SsbConfigInfo_t (F ''ssPbchBlockPowerScaling'' # p) off = locate I16 p off"
  "locate L1SsbConfigInfo_t (F ''bchPayloadFlag'' # p) off = locate U8 p (off + 2)"
  by (simp_all add: locate_struct L1SsbConfigInfo_t_def offset_simps del: foff.simps One_nat_def add_2_eq_Suc add_2_eq_Suc')

lemma loc_L1PrachConfiguration_t [locs]:
  "locate L1PrachConfiguration_t (F ''prachResConfigIndex'' # p) off = locate U16 p off"
  "locate L1PrachConfiguration_t (F ''prachSequenceLength'' # p) off = locate U8 p (off + 2)"
  "locate L1PrachConfiguration_t (F ''prachSubCSpacing'' # p) off = locate U8 p (off + 3)"
  "locate L1PrachConfiguration_t (F ''ulBwpPuschScs'' # p) off = locate U8 p (off + 4)"
  "locate L1PrachConfiguration_t (F ''restrictedSetConfig'' # p) off = locate U8 p (off + 5)"
  "locate L1PrachConfiguration_t (F ''numPrachFdOccasions'' # p) off = locate U8 p (off + 6)"
  "locate L1PrachConfiguration_t (F ''prachConfigIndex'' # p) off = locate U8 p (off + 7)"
  "locate L1PrachConfiguration_t (F ''SsbPerRach'' # p) off = locate U8 p (off + 8)"
  "locate L1PrachConfiguration_t (F ''PrachFdOccaCfgInfos'' # p) off = locate (CFlex L1PrachFdOccasionConfigInfo_t) p (off + 12)"
  by (simp_all add: locate_struct L1PrachConfiguration_t_def offset_simps del: foff.simps One_nat_def add_2_eq_Suc add_2_eq_Suc')

lemma loc_L1PrachConfigInfo_t [locs]:
  "locate L1PrachConfigInfo_t (F ''numPrachConfigurations'' # p) off = locate U16 p off"
  "locate L1PrachConfigInfo_t (F ''PrachConfiguration'' # p) off = locate (CFlex L1PrachConfiguration_t) p (off + 4)"
  by (simp_all add: locate_struct L1PrachConfigInfo_t_def offset_simps del: foff.simps One_nat_def add_2_eq_Suc add_2_eq_Suc')

lemma loc_L1SsbTableConfigInfo_t [locs]:
  "locate L1SsbTableConfigInfo_t (F ''Case'' # p) off = locate U8 p (off + 8)"
  "locate L1SsbTableConfigInfo_t (F ''subcarrierSpacing'' # p) off = locate U8 p (off + 9)"
  "locate L1SsbTableConfigInfo_t (F ''subCarrierSpacingCommon'' # p) off = locate U8 p (off + 10)"
  "locate L1SsbTableConfigInfo_t (F ''lMax'' # p) off = locate U8 p (off + 11)"
  "locate L1SsbTableConfigInfo_t (F ''rmsiPresence'' # p) off = locate U8 p (off + 12)"
  "locate L1SsbTableConfigInfo_t (F ''SsbMask'' # p) off = locate (CArr U32 2) p (off + 16)"
  "locate L1SsbTableConfigInfo_t (F ''BeamId'' # p) off = locate (CArr U8 64) p (off + 24)"
  by (simp_all add: locate_struct L1SsbTableConfigInfo_t_def offset_simps del: foff.simps One_nat_def add_2_eq_Suc add_2_eq_Suc')

lemma loc_L1TddTableConfigInfo_t [locs]:
  "locate L1TddTableConfigInfo_t (F ''TddPeriod'' # p) off = locate U8 p off"
  by (simp_all add: locate_struct L1TddTableConfigInfo_t_def offset_simps del: foff.simps One_nat_def add_2_eq_Suc add_2_eq_Suc')

lemma loc_L1MeasurementConfigInfo_t [locs]:
  "locate L1MeasurementConfigInfo_t (F ''RssiMeasurement'' # p) off = locate U8 p off"
  "locate L1MeasurementConfigInfo_t (F ''RsrpMeasurement'' # p) off = locate U8 p (off + 1)"
  by (simp_all add: locate_struct L1MeasurementConfigInfo_t_def offset_simps del: foff.simps One_nat_def add_2_eq_Suc add_2_eq_Suc')

lemma loc_L1DBTConfigInfo_t [locs]:
  "locate L1DBTConfigInfo_t (F ''numDigBeams'' # p) off = locate U16 p off"
  "locate L1DBTConfigInfo_t (F ''numBasebandPorts'' # p) off = locate U16 p (off + 2)"
  "locate L1DBTConfigInfo_t (F ''digBeam'' # p) off = locate (CFlex L1DigBeam_t) p (off + 4)"
  by (simp_all add: locate_struct L1DBTConfigInfo_t_def offset_simps del: foff.simps One_nat_def add_2_eq_Suc add_2_eq_Suc')

lemma loc_L1PMConfigInfo_t [locs]:
  "locate L1PMConfigInfo_t (F ''PMidx'' # p) off = locate U16 p off"
  "locate L1PMConfigInfo_t (F ''numLayers'' # p) off = locate U16 p (off + 2)"
  "locate L1PMConfigInfo_t (F ''numAntPorts'' # p) off = locate U16 p (off + 4)"
  "locate L1PMConfigInfo_t (F ''layers'' # p) off = locate (CFlex L1PMLayer_t) p (off + 8)"
  by (simp_all add: locate_struct L1PMConfigInfo_t_def offset_simps del: foff.simps One_nat_def add_2_eq_Suc add_2_eq_Suc')

lemma loc_L1PMCfgTableInfo_t [locs]:
  "locate L1PMCfgTableInfo_t (F ''numPMTables'' # p) off = locate U16 p off"
  "locate L1PMCfgTableInfo_t (F ''pmTable'' # p) off = locate (CFlex L1PMConfigInfo_t) p (off + 4)"
  by (simp_all add: locate_struct L1PMCfgTableInfo_t_def offset_simps del: foff.simps One_nat_def add_2_eq_Suc add_2_eq_Suc')

lemma loc_L1MapIndex_t [locs]:
  "locate L1MapIndex_t (F ''numPart1Params'' # p) off = locate U8 p off"
  "locate L1MapIndex_t (F ''sizesPart1Params'' # p) off = locate (CFlex U8) p (off + 6)"
  by (simp_all add: locate_struct L1MapIndex_t_def offset_simps del: foff.simps One_nat_def add_2_eq_Suc add_2_eq_Suc')

lemma loc_L1UciConfigurationInfo_t [locs]:
  "locate L1UciConfigurationInfo_t (F ''numUci2Maps'' # p) off = locate U16 p off"
  "locate L1UciConfigurationInfo_t (F ''mapIndex'' # p) off = locate (CFlex L1MapIndex_t) p (off + 4)"
  by (simp_all add: locate_struct L1UciConfigurationInfo_t_def offset_simps del: foff.simps One_nat_def add_2_eq_Suc add_2_eq_Suc')

lemma loc_L1CoresetRmPattern_t [locs]:
  "locate L1CoresetRmPattern_t (F ''symbolsPattern'' # p) off = locate U16 p off"
  "locate L1CoresetRmPattern_t (F ''freqDomainResources'' # p) off = locate (CArr U8 6) p (off + 2)"
  "locate L1CoresetRmPattern_t (F ''coresetRmPatternID'' # p) off = locate U8 p (off + 8)"
  by (simp_all add: locate_struct L1CoresetRmPattern_t_def offset_simps del: foff.simps One_nat_def add_2_eq_Suc add_2_eq_Suc')

lemma loc_L1PrbSymbRateMatchPatterns_t [locs]:
  "locate L1PrbSymbRateMatchPatterns_t (F ''prbSymbRateMatchPatternID'' # p) off = locate U8 p off"
  "locate L1PrbSymbRateMatchPatterns_t (F ''subcarrierSpacing'' # p) off = locate U8 p (off + 36)"
  "locate L1PrbSymbRateMatchPatterns_t (F ''symbolsInRB'' # p) off = locate U32 p (off + 40)"
  by (simp_all add: locate_struct L1PrbSymbRateMatchPatterns_t_def offset_simps del: foff.simps One_nat_def add_2_eq_Suc add_2_eq_Suc')

lemma loc_L1PrbSym_t [locs]:
  "locate L1PrbSym_t (F ''numberOfPrbSymbRateMatchPatterns'' # p) off = locate U8 p off"
  "locate L1PrbSym_t (F ''numCoresetRmPatterns'' # p) off = locate U8 p (off + 1)"
  "locate L1PrbSym_t (F ''CoresetRmPatterns'' # p) off = locate (CFlex L1CoresetRmPattern_t) p (off + 4)"
  "locate L1PrbSym_t (F ''PrbSymbRateMatchPatterns'' # p) off = locate (CFlex L1PrbSymbRateMatchPatterns_t) p (off + 4)"
  by (simp_all add: locate_struct L1PrbSym_t_def offset_simps del: foff.simps One_nat_def add_2_eq_Suc add_2_eq_Suc')

lemma loc_L1PucchSSConfig_t [locs]:
  "locate L1PucchSSConfig_t (F ''numUlBwpIds'' # p) off = locate U8 p off"
  by (simp_all add: locate_struct L1PucchSSConfig_t_def offset_simps del: foff.simps One_nat_def add_2_eq_Suc add_2_eq_Suc')

lemma loc_L1PdschConfig_t [locs]:
  "locate L1PdschConfig_t (F ''pdschCbgScheme'' # p) off = locate U8 p off"
  by (simp_all add: locate_struct L1PdschConfig_t_def offset_simps del: foff.simps One_nat_def add_2_eq_Suc add_2_eq_Suc')

lemma loc_L1ConfigRequest_t [locs]:
  "locate L1ConfigRequest_t (F ''CarriConfig'' # p) off = locate L1CarriConfigInfo_t p off"
  "locate L1ConfigRequest_t (F ''CellConfig'' # p) off = locate L1CellConfigInfo_t p (off + 60)"
  "locate L1ConfigRequest_t (F ''SSBConfig'' # p) off = locate L1SsbConfigInfo_t p (off + 64)"
  "locate L1ConfigRequest_t (F ''PRACHCfgInfo'' # p) off = locate L1PrachConfigInfo_t p (off + 68)"
  "locate L1ConfigRequest_t (F ''SSBtableInfo'' # p) off = locate L1SsbTableConfigInfo_t p (off + 72)"
  "locate L1ConfigRequest_t (F ''TDDtableInfo'' # p) off = locate L1TddTableConfigInfo_t p (off + 160)"
  "locate L1ConfigRequest_t (F ''MeasurementCfgInfo'' # p) off = locate L1MeasurementConfigInfo_t p (off + 1284)"
  "locate L1ConfigRequest_t (F ''UciConfigurationInfo'' # p) off = locate L1UciConfigurationInfo_t p (off + 1288)"
  "locate L1ConfigRequest_t (F ''PrbSymol'' # p) off = locate L1PrbSym_t p (off + 1292)"
  "locate L1ConfigRequest_t (F ''PucchSSConfig'' # p) off = locate L1PucchSSConfig_t p (off + 1296)"
  "locate L1ConfigRequest_t (F ''PdschConfig'' # p) off = locate L1PdschConfig_t p (off + 1300)"
  "locate L1ConfigRequest_t (F ''DBTInfo'' # p) off = locate L1DBTConfigInfo_t p (off + 1304)"
  "locate L1ConfigRequest_t (F ''PMInfo'' # p) off = locate L1PMCfgTableInfo_t p (off + 1308)"
  by (simp_all add: locate_struct L1ConfigRequest_t_def offset_simps del: foff.simps One_nat_def add_2_eq_Suc add_2_eq_Suc')

lemma loc_L1PdcchBwpInfo_t [locs]:
  "locate L1PdcchBwpInfo_t (F ''CoresetBWPSize'' # p) off = locate U16 p off"
  "locate L1PdcchBwpInfo_t (F ''CoresetBWPStart'' # p) off = locate U16 p (off + 2)"
  "locate L1PdcchBwpInfo_t (F ''SubcarrierSpacing'' # p) off = locate U8 p (off + 4)"
  "locate L1PdcchBwpInfo_t (F ''CyclicPrefix'' # p) off = locate U8 p (off + 5)"
  by (simp_all add: locate_struct L1PdcchBwpInfo_t_def offset_simps del: foff.simps One_nat_def add_2_eq_Suc add_2_eq_Suc')

lemma loc_L1BwpInfo_t [locs]:
  "locate L1BwpInfo_t (F ''BWPSize'' # p) off = locate U16 p off"
  "locate L1BwpInfo_t (F ''BWPStart'' # p) off = locate U16 p (off + 2)"
  "locate L1BwpInfo_t (F ''SubcarrierSpacing'' # p) off = locate U8 p (off + 4)"
  "locate L1BwpInfo_t (F ''CyclicPrefix'' # p) off = locate U8 p (off + 5)"
  by (simp_all add: locate_struct L1BwpInfo_t_def offset_simps del: foff.simps One_nat_def add_2_eq_Suc add_2_eq_Suc')

lemma loc_L1PdcchTxPowerInfo_t [locs]:
  "locate L1PdcchTxPowerInfo_t (F ''pdcchDmrsPowerOffsetProfileSSS'' # p) off = locate I16 p off"
  "locate L1PdcchTxPowerInfo_t (F ''pdcchDataPowerOffsetProfileSSS'' # p) off = locate I16 p (off + 2)"
  by (simp_all add: locate_struct L1PdcchTxPowerInfo_t_def offset_simps del: foff.simps One_nat_def add_2_eq_Suc add_2_eq_Suc')

lemma loc_L1DlDciInfo_t [locs]:
  "locate L1DlDciInfo_t (F ''RNTI'' # p) off = locate U16 p off"
  "locate L1DlDciInfo_t (F ''nIdPdcchData'' # p) off = locate U16 p (off + 2)"
  "locate L1DlDciInfo_t (F ''nRntiPdcchData'' # p) off = locate U16 p (off + 4)"
  "locate L1DlDciInfo_t (F ''nIdPdcchDmrs'' # p) off = locate U16 p (off + 6)"
  "locate L1DlDciInfo_t (F ''CceIndex'' # p) off = locate U8 p (off + 8)"
  "locate L1DlDciInfo_t (F ''AggregationLevel'' # p) off = locate U8 p (off + 9)"
  "locate L1DlDciInfo_t (F ''PayloadSizeBits'' # p) off = locate U16 p (off + 10)"
  "locate L1DlDciInfo_t (F ''TxPowerInfo'' # p) off = locate L1PdcchTxPowerInfo_t p (off + 12)"
  "locate L1DlDciInfo_t (F ''Payload'' # p) off = locate (CArr U8 20) p (off + 16)"
  by (simp_all add: locate_struct L1DlDciInfo_t_def offset_simps del: foff.simps One_nat_def add_2_eq_Suc add_2_eq_Suc')

lemma loc_L1CoresetInfo_t [locs]:
  "locate L1CoresetInfo_t (F ''ShiftIndex'' # p) off = locate U16 p off"
  "locate L1CoresetInfo_t (F ''StartSymbolIndex'' # p) off = locate U8 p (off + 2)"
  "locate L1CoresetInfo_t (F ''DurationSymbols'' # p) off = locate U8 p (off + 3)"
  "locate L1CoresetInfo_t (F ''FreqDomainResource'' # p) off = locate (CArr U8 6) p (off + 4)"
  "locate L1CoresetInfo_t (F ''CceRegMappingType'' # p) off = locate U8 p (off + 10)"
  "locate L1CoresetInfo_t (F ''RegBundleSize'' # p) off = locate U8 p (off + 11)"
  "locate L1CoresetInfo_t (F ''InterleaverSize'' # p) off = locate U8 p (off + 12)"
  "locate L1CoresetInfo_t (F ''CoreSetType'' # p) off = locate U8 p (off + 13)"
  "locate L1CoresetInfo_t (F ''precoderGranularity'' # p) off = locate U8 p (off + 14)"
  by (simp_all add: locate_struct L1CoresetInfo_t_def offset_simps del: foff.simps One_nat_def add_2_eq_Suc add_2_eq_Suc')

lemma loc_L1Codeword_t [locs]:
  "locate L1Codeword_t (F ''TBSize'' # p) off = locate U32 p off"
  "locate L1Codeword_t (F ''tbSizeLbrmBytes'' # p) off = locate U32 p (off + 4)"
  "locate L1Codeword_t (F ''targetCodeRate'' # p) off = locate U16 p (off + 8)"
  "locate L1Codeword_t (F ''mcsIndex'' # p) off = locate U8 p (off + 11)"
  "locate L1Codeword_t (F ''mcsTable'' # p) off = locate U8 p (off + 12)"
  "locate L1Codeword_t (F ''rvIndex'' # p) off = locate U8 p (off + 13)"
  "locate L1Codeword_t (F ''ldpcBaseGraph'' # p) off = locate U8 p (off + 14)"
  by (simp_all add: locate_struct L1Codeword_t_def offset_simps del: foff.simps One_nat_def add_2_eq_Suc add_2_eq_Suc')

lemma loc_L1CodewordInfo_t [locs]:
  "locate L1CodewordInfo_t (F ''NrOfCodewords'' # p) off = locate U8 p off"
  "locate L1CodewordInfo_t (F ''CodewordInfo'' # p) off = locate (CArr L1Codeword_t 2) p (off + 4)"
  by (simp_all add: locate_struct L1CodewordInfo_t_def offset_simps del: foff.simps One_nat_def add_2_eq_Suc add_2_eq_Suc')

lemma loc_L1PdschDmrsInfo_t [locs]:
  "locate L1PdschDmrsInfo_t (F ''dlDmrsSymbPos'' # p) off = locate U16 p off"
  "locate L1PdschDmrsInfo_t (F ''dlDmrsScramblingId'' # p) off = locate U16 p (off + 2)"
  "locate L1PdschDmrsInfo_t (F ''dmrsPorts'' # p) off = locate U16 p (off + 4)"
  "locate L1PdschDmrsInfo_t (F ''maxLen'' # p) off = locate U8 p (off + 6)"
  "locate L1PdschDmrsInfo_t (F ''dmrsConfigType'' # p) off = locate U8 p (off + 7)"
  "locate L1PdschDmrsInfo_t (F ''nSCID'' # p) off = locate U8 p (off + 8)"
  "locate L1PdschDmrsInfo_t (F ''numDmrsCdmGrpsNoData'' # p) off = locate U8 p (off + 9)"
  by (simp_all add: locate_struct L1PdschDmrsInfo_t_def offset_simps del: foff.simps One_nat_def add_2_eq_Suc add_2_eq_Suc')

lemma loc_L1PdschAllocationFdInfo_t [locs]:
  "locate L1PdschAllocationFdInfo_t (F ''rbStart'' # p) off = locate U16 p off"
  "locate L1PdschAllocationFdInfo_t (F ''rbSize'' # p) off = locate U16 p (off + 2)"
  "locate L1PdschAllocationFdInfo_t (F ''coresetStartPoint'' # p) off = locate U16 p (off + 4)"
  "locate L1PdschAllocationFdInfo_t (F ''initialDlBwpSize'' # p) off = locate U16 p (off + 6)"
  "locate L1PdschAllocationFdInfo_t (F ''resourceAlloc'' # p) off = locate U8 p (off + 8)"
  "locate L1PdschAllocationFdInfo_t (F ''VRBtoPRBMapping'' # p) off = locate U8 p (off + 9)"
  "locate L1PdschAllocationFdInfo_t (F ''pdschTransType'' # p) off = locate U8 p (off + 10)"
  "locate L1PdschAllocationFdInfo_t (F ''rbBitmap'' # p) off = locate (CArr U8 36) p (off + 12)"
  by (simp_all add: locate_struct L1PdschAllocationFdInfo_t_def offset_simps del: foff.simps One_nat_def add_2_eq_Suc add_2_eq_Suc')

lemma loc_L1PxschAllocationTdInfo_t [locs]:
  "locate L1PxschAllocationTdInfo_t (F ''StartSymbolIndex'' # p) off = locate U8 p off"
  "locate L1PxschAllocationTdInfo_t (F ''NrOfSymbols'' # p) off = locate U8 p (off + 1)"
  by (simp_all add: locate_struct L1PxschAllocationTdInfo_t_def offset_simps del: foff.simps One_nat_def add_2_eq_Suc add_2_eq_Suc')

lemma loc_L1PtrsInfo_t [locs]:
  "locate L1PtrsInfo_t (F ''pdschPtrsPowerOffsetProfileSSS'' # p) off = locate I16 p off"
  "locate L1PtrsInfo_t (F ''PTRSPortIndex'' # p) off = locate U8 p (off + 2)"
  "locate L1PtrsInfo_t (F ''PTRSTimeDensity'' # p) off = locate U8 p (off + 3)"
  "locate L1PtrsInfo_t (F ''PTRSFreqDensity'' # p) off = locate U8 p (off + 4)"
  "locate L1PtrsInfo_t (F ''PTRSReOffset'' # p) off = locate U8 p (off + 5)"
  by (simp_all add: locate_struct L1PtrsInfo_t_def offset_simps del: foff.simps One_nat_def add_2_eq_Suc add_2_eq_Suc')

lemma loc_L1TxPowerInfo_t [locs]:
  "locate L1TxPowerInfo_t (F ''pdschDmrsPowerOffsetProfileSSS'' # p) off = locate I16 p off"
  "locate L1TxPowerInfo_t (F ''pdschDataPowerOffsetProfileSSS'' # p) off = locate I16 p (off + 2)"
  by (simp_all add: locate_struct L1TxPowerInfo_t_def offset_simps del: foff.simps One_nat_def add_2_eq_Suc add_2_eq_Suc')

lemma loc_L1CbgFeildInfo_t [locs]:
  "locate L1CbgFeildInfo_t (F ''maxNumCbgPerTb'' # p) off = locate U8 p off"
  "locate L1CbgFeildInfo_t (F ''dlTbCrcCW'' # p) off = locate (CArr U8 8) p (off + 4)"
  by (simp_all add: locate_struct L1CbgFeildInfo_t_def offset_simps del: foff.simps One_nat_def add_2_eq_Suc add_2_eq_Suc')

lemma loc_L1PdcchPduInfo_t [locs]:
  "locate L1PdcchPduInfo_t (F ''pdcchPduIndex'' # p) off = locate U16 p off"
  "locate L1PdcchPduInfo_t (F ''numDlDci'' # p) off = locate U16 p (off + 2)"
  "locate L1PdcchPduInfo_t (F ''BWP'' # p) off = locate L1PdcchBwpInfo_t p (off + 4)"
  "locate L1PdcchPduInfo_t (F ''Coreset'' # p) off = locate L1CoresetInfo_t p (off + 12)"
  "locate L1PdcchPduInfo_t (F ''DlDCIs'' # p) off = locate (CFlex L1DlDciInfo_t) p (off + 28)"
  by (simp_all add: locate_struct L1PdcchPduInfo_t_def offset_simps del: foff.simps One_nat_def add_2_eq_Suc add_2_eq_Suc')

lemma loc_L1RateMatchingInformation_t [locs]:
  "locate L1RateMatchingInformation_t (F ''ssbConfigForRateMatching'' # p) off = locate U16 p off"
  "locate L1RateMatchingInformation_t (F ''numCoresetRMP'' # p) off = locate U8 p (off + 2)"
  "locate L1RateMatchingInformation_t (F ''numCsiRsForRM'' # p) off = locate U8 p (off + 3)"
  "locate L1RateMatchingInformation_t (F ''coresetRMPIndex'' # p) off = locate (CFlex U8) p (off + 4)"
  "locate L1RateMatchingInformation_t (F ''csiRsForRM'' # p) off = locate (CFlex U16) p (off + 4)"
  by (simp_all add: locate_struct L1RateMatchingInformation_t_def offset_simps del: foff.simps One_nat_def add_2_eq_Suc add_2_eq_Suc')

lemma loc_L1PdschPduInfo_t [locs]:
  "locate L1PdschPduInfo_t (F ''pduBitmap'' # p) off = locate U16 p off"
  "locate L1PdschPduInfo_t (F ''RNTI'' # p) off = locate U16 p (off + 2)"
  "locate L1PdschPduInfo_t (F ''BWP'' # p) off = locate L1BwpInfo_t p (off + 8)"
  "locate L1PdschPduInfo_t (F ''CodewordInfo'' # p) off = locate L1CodewordInfo_t p (off + 16)"
  "locate L1PdschPduInfo_t (F ''nIdPdsch'' # p) off = locate U16 p (off + 52)"
  "locate L1PdschPduInfo_t (F ''refPoint'' # p) off = locate U8 p (off + 55)"
  "locate L1PdschPduInfo_t (F ''DMRSInfo'' # p) off = locate L1PdschDmrsInfo_t p (off + 56)"
  "locate L1PdschPduInfo_t (F ''ResourceAllocFd'' # p) off = locate L1PdschAllocationFdInfo_t p (off + 68)"
  "locate L1PdschPduInfo_t (F ''RateMatchingInformation'' # p) off = locate L1RateMatchingInformation_t p (off + 116)"
  "locate L1PdschPduInfo_t (F ''ResourceAllocTd'' # p) off = locate L1PxschAllocationTdInfo_t p (off + 120)"
  "locate L1PdschPduInfo_t (F ''TxPowerInfo'' # p) off = locate L1TxPowerInfo_t p (off + 124)"
  "locate L1PdschPduInfo_t (F ''PTRS'' # p) off = locate L1PtrsInfo_t p (off + 128)"
  "locate L1PdschPduInfo_t (F ''CbgInfo'' # p) off = locate L1CbgFeildInfo_t p (off + 136)"
  by (simp_all add: locate_struct L1PdschPduInfo_t_def offset_simps del: foff.simps One_nat_def add_2_eq_Suc add_2_eq_Suc')

lemma loc_L1BchPayload_t [locs]:
  "locate L1BchPayload_t (F ''bchPayload'' # p) off = locate U32 p off"
  by (simp_all add: locate_struct L1BchPayload_t_def offset_simps del: foff.simps One_nat_def add_2_eq_Suc add_2_eq_Suc')

lemma loc_L1SsbPduInfo_t [locs]:
  "locate L1SsbPduInfo_t (F ''ssbConfigIndex'' # p) off = locate U8 p off"
  "locate L1SsbPduInfo_t (F ''ssbBlockIndex'' # p) off = locate U8 p (off + 1)"
  "locate L1SsbPduInfo_t (F ''bchPayloadFlag'' # p) off = locate U8 p (off + 2)"
  "locate L1SsbPduInfo_t (F ''BchPayload'' # p) off = locate L1BchPayload_t p (off + 4)"
  by (simp_all add: locate_struct L1SsbPduInfo_t_def offset_simps del: foff.simps One_nat_def add_2_eq_Suc add_2_eq_Suc')

lemma loc_L1DlPduConfiguration_t [locs]:
  "locate L1DlPduConfiguration_t (F ''u'' # p) off = locate (CUnion [(''PdcchPdu'', L1PdcchPduInfo_t), (''PdschPdu'', L1PdschPduInfo_t), (''CsiRsPdu'', L1CsiRsPduInfo_t), (''SsbPdu'', L1SsbPduInfo_t)]) p off"
  by (simp_all add: locate_struct L1DlPduConfiguration_t_def offset_simps del: foff.simps One_nat_def add_2_eq_Suc add_2_eq_Suc')

lemma loc_L1DlPduInfo_t [locs]:
  "locate L1DlPduInfo_t (F ''PDUType'' # p) off = locate U16 p off"
  "locate L1DlPduInfo_t (F ''PDUSize'' # p) off = locate U16 p (off + 2)"
  "locate L1DlPduInfo_t (F ''DlPDUConfig'' # p) off = locate L1DlPduConfiguration_t p (off + 4)"
  by (simp_all add: locate_struct L1DlPduInfo_t_def offset_simps del: foff.simps One_nat_def add_2_eq_Suc add_2_eq_Suc')

lemma loc_L1DLTTIReq_t [locs]:
  "locate L1DLTTIReq_t (F ''SFN'' # p) off = locate U16 p off"
  "locate L1DLTTIReq_t (F ''Slot'' # p) off = locate U16 p (off + 2)"
  "locate L1DLTTIReq_t (F ''nPDUs'' # p) off = locate U16 p (off + 4)"
  "locate L1DLTTIReq_t (F ''nDlTypes'' # p) off = locate U8 p (off + 6)"
  "locate L1DLTTIReq_t (F ''nGroup'' # p) off = locate U8 p (off + 7)"
  "locate L1DLTTIReq_t (F ''nPDUsOfEachType'' # p) off = locate (CArr U16 5) p (off + 10)"
  "locate L1DLTTIReq_t (F ''pdus'' # p) off = locate (CFlex L1DlPduInfo_t) p (off + 20)"
  by (simp_all add: locate_struct L1DLTTIReq_t_def offset_simps del: foff.simps One_nat_def add_2_eq_Suc add_2_eq_Suc')

lemma loc_L1PuschDmrsInfo_t [locs]:
  "locate L1PuschDmrsInfo_t (F ''ulDmrsSymbPos'' # p) off = locate U16 p off"
  "locate L1PuschDmrsInfo_t (F ''puschDmrsScramblingId'' # p) off = locate U16 p (off + 2)"
  "locate L1PuschDmrsInfo_t (F ''puschDmrsIdentity'' # p) off = locate U16 p (off + 4)"
  "locate L1PuschDmrsInfo_t (F ''dmrsPorts'' # p) off = locate U16 p (off + 6)"
  "locate L1PuschDmrsInfo_t (F ''maxLen'' # p) off = locate U8 p (off + 8)"
  "locate L1PuschDmrsInfo_t (F ''dmrsConfigType'' # p) off = locate U8 p (off + 9)"
  "locate L1PuschDmrsInfo_t (F ''nSCID'' # p) off = locate U8 p (off + 10)"
  "locate L1PuschDmrsInfo_t (F ''numDmrsCdmGrpsNoData'' # p) off = locate U8 p (off + 11)"
  "locate L1PuschDmrsInfo_t (F ''groupOrSequenceHopping'' # p) off = locate U8 p (off + 12)"
  by (simp_all add: locate_struct L1PuschDmrsInfo_t_def offset_simps del: foff.simps One_nat_def add_2_eq_Suc add_2_eq_Suc')

lemma loc_L1PuschAllocationFdInfo_t [locs]:
  "locate L1PuschAllocationFdInfo_t (F ''rbStart'' # p) off = locate U16 p off"
  "locate L1PuschAllocationFdInfo_t (F ''rbSize'' # p) off = locate U16 p (off + 2)"
  "locate L1PuschAllocationFdInfo_t (F ''deltaBwp0StartFromActiveBwp'' # p) off = locate U16 p (off + 4)"
  "locate L1PuschAllocationFdInfo_t (F ''initialUlBwpSize'' # p) off = locate U16 p (off + 6)"
  "locate L1PuschAllocationFdInfo_t (F ''puschSecondHopPRB'' # p) off = locate U16 p (off + 8)"
  "locate L1PuschAllocationFdInfo_t (F ''txDirectCurrentLocation'' # p) off = locate U16 p (off + 10)"
  "locate L1PuschAllocationFdInfo_t (F ''resourceAlloc'' # p) off = locate U8 p (off + 12)"
  "locate L1PuschAllocationFdInfo_t (F ''VRBtoPRBMapping'' # p) off = locate U8 p (off + 13)"
  "locate L1PuschAllocationFdInfo_t (F ''puschTransType'' # p) off = locate U8 p (off + 14)"
  "locate L1PuschAllocationFdInfo_t (F ''IntraSlotFrequencyHopping'' # p) off = locate U8 p (off + 15)"
  "locate L1PuschAllocationFdInfo_t (F ''uplinkFrequencyShift7p5khz'' # p) off = locate U8 p (off + 16)"
  "locate L1PuschAllocationFdInfo_t (F ''rbBitmap'' # p) off = locate (CArr U8 36) p (off + 20)"
  by (simp_all add: locate_struct L1PuschAllocationFdInfo_t_def offset_simps del: foff.simps One_nat_def add_2_eq_Suc add_2_eq_Suc')

lemma loc_L1PuschData_t [locs]:
  "locate L1PuschData_t (F ''TBSize'' # p) off = locate U32 p off"
  "locate L1PuschData_t (F ''numCb'' # p) off = locate U16 p (off + 4)"
  "locate L1PuschData_t (F ''rvIndex'' # p) off = locate U8 p (off + 6)"
  "locate L1PuschData_t (F ''harqProcessID'' # p) off = locate U8 p (off + 7)"
  "locate L1PuschData_t (F ''newData'' # p) off = locate U8 p (off + 8)"
  "locate L1PuschData_t (F ''cbCrcRequest'' # p) off = locate U8 p (off + 9)"
  "locate L1PuschData_t (F ''cbPresentAndPosition'' # p) off = locate (CArr U8 128) p (off + 12)"
  by (simp_all add: locate_struct L1PuschData_t_def offset_simps del: foff.simps One_nat_def add_2_eq_Suc add_2_eq_Suc')

lemma loc_L1PuschPtrs_t [locs]:
  "locate L1PuschPtrs_t (F ''numPtrsPorts'' # p) off = locate U8 p (off + 3)"
  by (simp_all add: locate_struct L1PuschPtrs_t_def offset_simps del: foff.simps One_nat_def add_2_eq_Suc add_2_eq_Suc')

lemma loc_L1DftsOfdm_t [locs]:
  "locate L1DftsOfdm_t (F ''ulPtrsSampleDensity'' # p) off = locate U8 p (off + 3)"
  "locate L1DftsOfdm_t (F ''ulPtrsTimeDensityTransformPrecoding'' # p) off = locate U8 p (off + 4)"
  by (simp_all add: locate_struct L1DftsOfdm_t_def offset_simps del: foff.simps One_nat_def add_2_eq_Suc add_2_eq_Suc')

lemma loc_L1PucchAllocationFdInfo_t [locs]:
  "locate L1PucchAllocationFdInfo_t (F ''prbStart'' # p) off = locate U16 p off"
  "locate L1PucchAllocationFdInfo_t (F ''prbSize'' # p) off = locate U16 p (off + 2)"
  by (simp_all add: locate_struct L1PucchAllocationFdInfo_t_def offset_simps del: foff.simps One_nat_def add_2_eq_Suc add_2_eq_Suc')

lemma loc_L1PucchHoppingInfo_t [locs]:
  "locate L1PucchHoppingInfo_t (F ''nIdPucchHopping'' # p) off = locate U16 p off"
  "locate L1PucchHoppingInfo_t (F ''InitialCyclicShift'' # p) off = locate U16 p (off + 2)"
  "locate L1PucchHoppingInfo_t (F ''nIdPucchScrambling'' # p) off = locate U16 p (off + 4)"
  "locate L1PucchHoppingInfo_t (F ''secondHopPRB'' # p) off = locate U16 p (off + 6)"
  "locate L1PucchHoppingInfo_t (F ''intraSlotFrequencyHopping'' # p) off = locate U8 p (off + 8)"
  "locate L1PucchHoppingInfo_t (F ''preDftOccLen'' # p) off = locate U8 p (off + 13)"
  by (simp_all add: locate_struct L1PucchHoppingInfo_t_def offset_simps del: foff.simps One_nat_def add_2_eq_Suc add_2_eq_Suc')

lemma loc_L1PucchDMRSInfo_t [locs]:
  "locate L1PucchDMRSInfo_t (F ''nId0PucchDmrsScrambling'' # p) off = locate U16 p off"
  by (simp_all add: locate_struct L1PucchDMRSInfo_t_def offset_simps del: foff.simps One_nat_def add_2_eq_Suc add_2_eq_Suc')

lemma loc_L1PuschPduInfo_t [locs]:
  "locate L1PuschPduInfo_t (F ''Handle'' # p) off = locate U32 p off"
  "locate L1PuschPduInfo_t (F ''pduBitmap'' # p) off = locate U16 p (off + 4)"
  "locate L1PuschPduInfo_t (F ''RNTI'' # p) off = locate U16 p (off + 6)"
  "locate L1PuschPduInfo_t (F ''tbSizeLbrmBytes'' # p) off = locate U32 p (off + 8)"
  "locate L1PuschPduInfo_t (F ''targetCodeRate'' # p) off = locate U16 p (off + 12)"
  "locate L1PuschPduInfo_t (F ''nIdPusch'' # p) off = locate U16 p (off + 14)"
  "locate L1PuschPduInfo_t (F ''qamModOrder'' # p) off = locate U8 p (off + 16)"
  "locate L1PuschPduInfo_t (F ''mcsIndex'' # p) off = locate U8 p (off + 17)"
  "locate L1PuschPduInfo_t (F ''mcsTable'' # p) off = locate U8 p (off + 18)"
  "locate L1PuschPduInfo_t (F ''TransformPrecoding'' # p) off = locate U8 p (off + 19)"
  "locate L1PuschPduInfo_t (F ''nrOfLayers'' # p) off = locate U8 p (off + 20)"
  "locate L1PuschPduInfo_t (F ''ldpcBaseGraph'' # p) off = locate U8 p (off + 21)"
  "locate L1PuschPduInfo_t (F ''BeamformingInfoOffset'' # p) off = locate U32 p (off + 24)"
  "locate L1PuschPduInfo_t (F ''BWP'' # p) off = locate L1BwpInfo_t p (off + 28)"
  "locate L1PuschPduInfo_t (F ''DMRS'' # p) off = locate L1PuschDmrsInfo_t p (off + 36)"
  "locate L1PuschPduInfo_t (F ''ResourceAllocFd'' # p) off = locate L1PuschAllocationFdInfo_t p (off + 52)"
  "locate L1PuschPduInfo_t (F ''ResourceAllocTd'' # p) off = locate L1PxschAllocationTdInfo_t p (off + 108)"
  "locate L1PuschPduInfo_t (F ''puschData'' # p) off = locate L1PuschData_t p (off + 112)"
  "locate L1PuschPduInfo_t (F ''puschPtrs'' # p) off = locate L1PuschPtrs_t p (off + 268)"
  "locate L1PuschPduInfo_t (F ''dftsOfdm'' # p) off = locate L1DftsOfdm_t p (off + 272)"
  by (simp_all add: locate_struct L1PuschPduInfo_t_def offset_simps del: foff.simps One_nat_def add_2_eq_Suc add_2_eq_Suc')

lemma loc_L1PucchPduInfo_t [locs]:
  "locate L1PucchPduInfo_t (F ''Handle'' # p) off = locate U32 p off"
  "locate L1PucchPduInfo_t (F ''RNTI'' # p) off = locate U16 p (off + 4)"
  "locate L1PucchPduInfo_t (F ''FormatType'' # p) off = locate U8 p (off + 6)"
  "locate L1PucchPduInfo_t (F ''multiSlotTxIndicator'' # p) off = locate U8 p (off + 7)"
  "locate L1PucchPduInfo_t (F ''pi2Bpsk'' # p) off = locate U8 p (off + 8)"
  "locate L1PucchPduInfo_t (F ''harqBitLen'' # p) off = locate U16 p (off + 10)"
  "locate L1PucchPduInfo_t (F ''csiPart1BitLen'' # p) off = locate U16 p (off + 12)"
  "locate L1PucchPduInfo_t (F ''srBitLen'' # p) off = locate U8 p (off + 14)"
  "locate L1PucchPduInfo_t (F ''combineUciReport'' # p) off = locate U8 p (off + 15)"
  "locate L1PucchPduInfo_t (F ''BeamformingInfoOffset'' # p) off = locate U32 p (off + 16)"
  "locate L1PucchPduInfo_t (F ''BWP'' # p) off = locate L1BwpInfo_t p (off + 20)"
  "locate L1PucchPduInfo_t (F ''ResourceAllocFd'' # p) off = locate L1PucchAllocationFdInfo_t p (off + 28)"
  "locate L1PucchPduInfo_t (F ''ResourceAllocTd'' # p) off = locate L1PxschAllocationTdInfo_t p (off + 32)"
  "locate L1PucchPduInfo_t (F ''hoppingInfo'' # p) off = locate L1PucchHoppingInfo_t p (off + 36)"
  "locate L1PucchPduInfo_t (F ''DMRS'' # p) off = locate L1PucchDMRSInfo_t p (off + 52)"
  by (simp_all add: locate_struct L1PucchPduInfo_t_def offset_simps del: foff.simps One_nat_def add_2_eq_Suc add_2_eq_Suc')

lemma loc_L1UlPduConfiguration_t [locs]:
  "locate L1UlPduConfiguration_t (F ''u'' # p) off = locate (CUnion [(''PrachPdu'', L1PrachPdu_t), (''PuschPdu'', L1PuschPduInfo_t), (''PucchPdu'', L1PucchPduInfo_t), (''SrsPdu'', L1SrsPdu_t)]) p off"
  by (simp_all add: locate_struct L1UlPduConfiguration_t_def offset_simps del: foff.simps One_nat_def add_2_eq_Suc add_2_eq_Suc')

lemma loc_L1UlPduInfo_t [locs]:
  "locate L1UlPduInfo_t (F ''PDUType'' # p) off = locate U16 p off"
  "locate L1UlPduInfo_t (F ''PDUSize'' # p) off = locate U16 p (off + 2)"
  "locate L1UlPduInfo_t (F ''UlPDUConfig'' # p) off = locate L1UlPduConfiguration_t p (off + 4)"
  by (simp_all add: locate_struct L1UlPduInfo_t_def offset_simps del: foff.simps One_nat_def add_2_eq_Suc add_2_eq_Suc')

lemma loc_L1ULTTI_t [locs]:
  "locate L1ULTTI_t (F ''SFN'' # p) off = locate U16 p off"
  "locate L1ULTTI_t (F ''Slot'' # p) off = locate U16 p (off + 2)"
  "locate L1ULTTI_t (F ''nPDUs'' # p) off = locate U16 p (off + 4)"
  "locate L1ULTTI_t (F ''nUlTypes'' # p) off = locate U8 p (off + 6)"
  "locate L1ULTTI_t (F ''nGroup'' # p) off = locate U8 p (off + 7)"
  "locate L1ULTTI_t (F ''nPDUsOfEachType'' # p) off = locate (CArr U16 5) p (off + 8)"
  "locate L1ULTTI_t (F ''pdus'' # p) off = locate (CFlex L1UlPduInfo_t) p (off + 20)"
  by (simp_all add: locate_struct L1ULTTI_t_def offset_simps del: foff.simps One_nat_def add_2_eq_Suc add_2_eq_Suc')

lemma loc_L1DataTLV_t [locs]:
  "locate L1DataTLV_t (F ''Tag'' # p) off = locate U16 p off"
  "locate L1DataTLV_t (F ''Length'' # p) off = locate U32 p (off + 4)"
  "locate L1DataTLV_t (F ''Value'' # p) off = locate U32 p (off + 8)"
  by (simp_all add: locate_struct L1DataTLV_t_def offset_simps del: foff.simps One_nat_def add_2_eq_Suc add_2_eq_Suc')

lemma loc_L1TxDataPduInfo_t [locs]:
  "locate L1TxDataPduInfo_t (F ''PDULength'' # p) off = locate U32 p off"
  "locate L1TxDataPduInfo_t (F ''PDUIndex'' # p) off = locate U16 p (off + 4)"
  "locate L1TxDataPduInfo_t (F ''CWIndex'' # p) off = locate U8 p (off + 6)"
  "locate L1TxDataPduInfo_t (F ''numTLV'' # p) off = locate U32 p (off + 8)"
  "locate L1TxDataPduInfo_t (F ''TLVs'' # p) off = locate (CFlex L1DataTLV_t) p (off + 12)"
  by (simp_all add: locate_struct L1TxDataPduInfo_t_def offset_simps del: foff.simps One_nat_def add_2_eq_Suc add_2_eq_Suc')

lemma loc_L1TXDATAREQ_t [locs]:
  "locate L1TXDATAREQ_t (F ''SFN'' # p) off = locate U16 p off"
  "locate L1TXDATAREQ_t (F ''Slot'' # p) off = locate U16 p (off + 2)"
  "locate L1TXDATAREQ_t (F ''numPDUs'' # p) off = locate U16 p (off + 4)"
  "locate L1TXDATAREQ_t (F ''pdus'' # p) off = locate (CFlex L1TxDataPduInfo_t) p (off + 8)"
  by (simp_all add: locate_struct L1TXDATAREQ_t_def offset_simps del: foff.simps One_nat_def add_2_eq_Suc add_2_eq_Suc')

section \<open>What the assignments do\<close>

text \<open>An assignment is right when its path leads to a number inside the buffer, which can hold the value.\<close>

definition fits :: "ctype \<Rightarrow> nat \<Rightarrow> hop list \<times> nat \<Rightarrow> bool" where
  "fits T n a = (case a of (p, v) \<Rightarrow>
     case locate T p 0 of None \<Rightarrow> False | Some (off, t) \<Rightarrow> scalar t \<and> off + csize t \<le> n \<and> v < 256 ^ csize t)"

text \<open>The value of one byte after a list of assignments.\<close>

fun final_byte :: "ctype \<Rightarrow> assigns \<Rightarrow> nat \<Rightarrow> u8 \<Rightarrow> u8" where
  "final_byte T [] k d = d"
| "final_byte T ((p, v) # as) k d = final_byte T as k
     (case locate T p 0 of None \<Rightarrow> d
      | Some (off, t) \<Rightarrow> if off \<le> k \<and> k < off + csize t then of_nat (v div 256 ^ (k - off)) else d)"

lemma final_append: "final_byte T (as @ bs) k d = final_byte T bs k (final_byte T as k d)"
  by (induction T as k d rule: final_byte.induct) simp_all

lemma final_provided: "final_byte T (provided b as) k d = (if b then final_byte T as k d else d)"
  by (simp add: provided_def)

lemma final_loop:
  assumes "\<And>i. a \<le> i \<Longrightarrow> i < b \<Longrightarrow> (case locate T (p i) 0 of None \<Rightarrow> True | Some (off, t) \<Rightarrow> k < off \<or> off + csize t \<le> k)"
  shows "final_byte T (map (\<lambda>i. (p i, v i)) [a..<b]) k d = d"
proof -
  have "set is \<subseteq> {a..<b} \<Longrightarrow> final_byte T (map (\<lambda>i. (p i, v i)) is) k d = d" for "is"
    by (induction "is") (use assms in \<open>fastforce split: option.splits prod.splits\<close>)+
  then show ?thesis by simp
qed

lemma stores_run:
  "list_all (fits T (length m)) as \<Longrightarrow>
    \<exists>m'. foreach (store T) as m = Inr m' \<and> length m' = length m \<and> (\<forall>k < length m. m' ! k = final_byte T as k (m ! k))"
proof (induction as arbitrary: m)
  case (Cons a as)
  obtain p v where a: "a = (p, v)" by (cases a)
  from Cons.prems obtain off t where loc: "locate T p 0 = Some (off, t)" and inside: "off + csize t \<le> length m"
    by (auto simp: a fits_def split: option.splits)
  let ?m = "overlay m off (scalar_bytes (csize t) v)"
  have st: "store T a m = Inr ?m" and len: "length ?m = length m"
    using inside by (simp_all add: store_def a loc scalar_bytes_def)
  have byte: "?m ! k = (if off \<le> k \<and> k < off + csize t then of_nat (v div 256 ^ (k - off)) else m ! k)" if "k < length m" for k
    using inside that nth_overlay [of off "scalar_bytes (csize t) v" m k] by (auto simp: scalar_bytes_def)
  obtain m' where "foreach (store T) as ?m = Inr m'" "length m' = length ?m"
    "\<forall>k < length ?m. m' ! k = final_byte T as k (?m ! k)"
    using Cons.IH [of ?m] Cons.prems len by auto
  then show ?case using st len byte by (auto simp: a loc)
qed simp

lemma store_all_run:
  assumes "list_all (fits T n) as" and "b = Some m" and "length m = n"
  shows "\<exists>m'. store_all T as b = Inr (Some m') \<and> length m' = n \<and> (\<forall>k < n. m' ! k = final_byte T as k (m ! k))"
  using stores_run [of T m as] assms by (auto simp: store_all_def)

lemma fits_loop: "list_all (fits T n) (map f [a..<b]) \<longleftrightarrow> (\<forall>i. a \<le> i \<longrightarrow> i < b \<longrightarrow> fits T n (f i))"
  by (auto simp: list_all_iff)

lemma fits_provided: "list_all P (provided b as) \<longleftrightarrow> (b \<longrightarrow> list_all P as)"
  by (simp add: provided_def)

lemma case1_config_fits: "list_all (fits L1ConfigRequest_t 65536) case1_config"
  by (simp add: case1_config_def fits_def fits_loop locs layout)

lemma dl_fits: "list_all (fits L1DLTTIReq_t 65536) (dl_ssb slot)" "list_all (fits L1DLTTIReq_t 65536) dl_none"
  "list_all (fits L1DLTTIReq_t 65536) (dl_pdcch1 slot)" "list_all (fits L1DLTTIReq_t 65536) dl_pdsch"
  "list_all (fits L1DLTTIReq_t 65536) (dl_pdcch2 slot)"
  by (simp_all add: dl_ssb_def dl_none_def dl_pdcch1_def dl_pdcch2_def dl_pdsch_def under_def fits_def fits_loop fits_provided
      locs layout)

lemma tx_ul_fits: "list_all (fits L1TXDATAREQ_t 4096) tx_data" "list_all (fits L1TXDATAREQ_t 4096) tx_none"
  "list_all (fits L1ULTTI_t 4096) ul_three" "list_all (fits L1ULTTI_t 4096) ul_none"
  by (simp_all add: tx_data_def tx_none_def ul_three_def ul_none_def under_def fits_def fits_loop locs layout)

section \<open>The configuration overlaps itself\<close>

text \<open>
  The structures of the configuration end in arrays without a size, and the next structure starts where such an array does.
\<close>

lemma config_bytes:
  "final_byte L1ConfigRequest_t case1_config 84 d = 1" "final_byte L1ConfigRequest_t case1_config 85 d = 0"
  "final_byte L1ConfigRequest_t case1_config 90 d = 0" "final_byte L1ConfigRequest_t case1_config 91 d = 255"
  "final_byte L1ConfigRequest_t case1_config 80 d = 2"
  by (simp_all add: case1_config_def final_append final_loop locs layout)

definition prach_fd :: "string \<Rightarrow> nat" where
  "prach_fd f = (case locate L1ConfigRequest_t [F ''PRACHCfgInfo'', F ''PrachConfiguration'', I 0, F ''PrachFdOccaCfgInfos'', I 0, F f] 0 of
     Some (off, t) \<Rightarrow> off | None \<Rightarrow> 0)"

text \<open>
  The built-in configuration destroys its PRACH part. Every assignment goes to a number of the buffer that can hold its
  value, so nothing is written outside; but the fields of the PRACH occasions share their bytes with the SSB table, which is
  assigned later. What is left is 1 for the root sequence index (assigned 20), no root sequences (6), the correlation
  zone 255 (6) and 2 SSBs per RACH occasion (3).
\<close>

theorem case1_config_overlaps:
  assumes "length m = 65536"
  shows "\<exists>m'. store_all L1ConfigRequest_t case1_config (Some m) = Inr (Some m') \<and> length m' = 65536 \<and>
    (\<forall>f v. (f, v) \<in> {(''prachRootSequenceIndex'', 20), (''numRootSequences'', 6), (''prachZeroCorrConf'', 6)} \<longrightarrow>
       ([F ''PRACHCfgInfo'', F ''PrachConfiguration'', I 0, F ''PrachFdOccaCfgInfos'', I 0, F f], v) \<in> set case1_config) \<and>
    rd_u16 m' (prach_fd ''prachRootSequenceIndex'') = Inr 1 \<and> rd m' (prach_fd ''numRootSequences'') = Inr 0 \<and>
    rd m' (prach_fd ''prachZeroCorrConf'') = Inr 255"
proof -
  obtain m' where m': "store_all L1ConfigRequest_t case1_config (Some m) = Inr (Some m')" "length m' = 65536"
    "\<forall>k < 65536. m' ! k = final_byte L1ConfigRequest_t case1_config k (m ! k)"
    using store_all_run [OF case1_config_fits refl assms] by blast
  have at: "prach_fd ''prachRootSequenceIndex'' = 84" "prach_fd ''numRootSequences'' = 90" "prach_fd ''prachZeroCorrConf'' = 91"
    by (simp_all add: prach_fd_def locs layout)
  have "rd_u16 m' 84 = Inr 1" using m'(2,3) by (simp add: rd_u16_ok config_bytes u16_of_bytes_def)
  moreover have "rd m' 90 = Inr 0" "rd m' 91 = Inr 255" using m'(2,3) by (simp_all add: config_bytes)
  moreover have "(f, v) \<in> {(''prachRootSequenceIndex'', 20), (''numRootSequences'', 6), (''prachZeroCorrConf'', 6)} \<Longrightarrow>
       ([F ''PRACHCfgInfo'', F ''PrachConfiguration'', I 0, F ''PrachFdOccaCfgInfos'', I 0, F f], v) \<in> set case1_config" for f v
    by (auto simp: case1_config_def)
  ultimately show ?thesis using m'(1,2) unfolding at by blast
qed

section \<open>The slots\<close>

text \<open>The assignments to the PDUs do not touch the first fields of a request.\<close>

lemma locate_beyond: "locate t p off = Some (k, t') \<Longrightarrow> off \<le> k"
proof (induction t p off rule: locate.induct)
  case (2 fs f p off)
  then show ?case by (fastforce split: option.splits)
qed (fastforce split: option.splits if_splits)+

fun outer :: "hop list \<times> nat \<Rightarrow> bool" where
  "outer (F f # q, v) = (f \<noteq> ''pdus'')"
| "outer _ = True"

lemma final_outer:
  assumes "\<And>q off. locate T (F ''pdus'' # q) off = locate U q (off + n)" and "k < n"
  shows "final_byte T as k d = final_byte T (filter outer as) k d"
proof (induction as arbitrary: d)
  case (Cons a as)
  obtain p v where a: "a = (p, v)" by (cases a)
  show ?case
  proof (cases "outer a")
    case False
    then obtain q where p: "p = F ''pdus'' # q" unfolding a by (cases "(p, v)" rule: outer.cases) auto
    have "\<not> off \<le> k" if "locate T p 0 = Some (off, t)" for off t
      using that assms locate_beyond [of U q n off t] unfolding p by simp
    then have "final_byte T (a # as) k d = final_byte T as k d" unfolding a by (auto split: option.split)
    then show ?thesis using Cons False by simp
  qed (use Cons in \<open>simp add: a\<close>)
qed simp

lemma outer_under: "filter outer (under (F ''pdus'' # q) as) = []"
  by (auto simp: under_def filter_empty_conv)

lemma outer_provided: "filter outer (provided b as) = provided b (filter outer as)"
  by (simp add: provided_def)

lemma outer_loop: "(\<And>i. \<not> outer (f i)) \<Longrightarrow> filter outer (map f xs) = []"
  by (simp add: filter_empty_conv)

lemmas outers = outer_under outer_provided outer_loop

lemma outer_lists:
  "filter outer (dl_ssb slot) = [([F ''nPDUs''], 1), ([F ''nDlTypes''], 5), ([F ''nGroup''], 0),
     ([F ''nPDUsOfEachType'', I 0], 1), ([F ''nPDUsOfEachType'', I 1], 1), ([F ''nPDUsOfEachType'', I 4], 1)]"
  "filter outer dl_none = [([F ''nPDUs''], 0), ([F ''nDlTypes''], 5), ([F ''nGroup''], 0)]"
  "filter outer (dl_pdcch1 slot) = [([F ''nPDUs''], 2), ([F ''nDlTypes''], 5), ([F ''nGroup''], 0),
     ([F ''nPDUsOfEachType'', I 0], 1), ([F ''nPDUsOfEachType'', I 1], 1), ([F ''nPDUsOfEachType'', I 4], 1)]"
  "filter outer (dl_pdcch2 slot) = [([F ''nPDUs''], 2), ([F ''nDlTypes''], 5), ([F ''nGroup''], 0),
     ([F ''nPDUsOfEachType'', I 0], 1), ([F ''nPDUsOfEachType'', I 1], 1), ([F ''nPDUsOfEachType'', I 4], 2)]"
  "filter outer dl_pdsch = []"
  "filter outer ul_three = [([F ''nPDUs''], 3), ([F ''nUlTypes''], 5), ([F ''nGroup''], 1),
     ([F ''nPDUsOfEachType'', I 1], 1), ([F ''nPDUsOfEachType'', I 2], 1), ([F ''nPDUsOfEachType'', I 3], 1)]"
  "filter outer tx_data = [([F ''numPDUs''], 1)]"
  by (simp_all add: dl_ssb_def dl_none_def dl_pdcch1_def dl_pdcch2_def dl_pdsch_def ul_three_def tx_data_def outers provided_def)

section \<open>The slots\<close>

lemma outer_dl: "k < 20 \<Longrightarrow> final_byte L1DLTTIReq_t as k d = final_byte L1DLTTIReq_t (filter outer as) k d"
  by (rule final_outer [where n = 20]) (simp_all add: locs)

lemma outer_tx: "k < 8 \<Longrightarrow> final_byte L1TXDATAREQ_t as k d = final_byte L1TXDATAREQ_t (filter outer as) k d"
  by (rule final_outer [where n = 8]) (simp_all add: locs)

lemma outer_ul: "k < 20 \<Longrightarrow> final_byte L1ULTTI_t as k d = final_byte L1ULTTI_t (filter outer as) k d"
  by (rule final_outer [where n = 20]) (simp_all add: locs)

text \<open>The number of PDUs in the requests of a slot.\<close>

definition dl_count :: "nat \<Rightarrow> nat" where
  "dl_count slot = (if slot < 10 then 1 else if slot mod 10 \<in> {7, 8, 9} then 0 else 2)"

definition tx_count :: "nat \<Rightarrow> nat" where
  "tx_count slot = (if slot mod 10 \<in> {1, 2, 3, 4, 5, 6} then 1 else 0)"

definition ul_count :: "nat \<Rightarrow> nat" where
  "ul_count slot = (if slot mod 10 \<in> {8, 9} then 3 else 0)"

lemma dl_slot_fits: "sfn < 65536 \<Longrightarrow> slot < 65536 \<Longrightarrow> list_all (fits L1DLTTIReq_t 65536) (dl_slot sfn slot)"
  by (simp add: dl_slot_def dl_head_def dl_fits fits_def locs layout)

lemma tx_slot_fits: "sfn < 65536 \<Longrightarrow> slot < 65536 \<Longrightarrow> list_all (fits L1TXDATAREQ_t 4096) (tx_slot sfn slot)"
  by (simp add: tx_slot_def tx_head_def tx_ul_fits fits_def locs layout Let_def)

lemma ul_slot_fits: "sfn < 65536 \<Longrightarrow> slot < 65536 \<Longrightarrow> list_all (fits L1ULTTI_t 4096) (ul_slot sfn slot)"
  by (simp add: ul_slot_def ul_head_def tx_ul_fits fits_def locs layout Let_def)

lemma div_10: "n div 10 = 0 \<longleftrightarrow> n < (10 :: nat)"
  by auto

lemma dl_slot_bytes:
  "final_byte L1DLTTIReq_t (dl_slot sfn slot) 4 d = of_nat (dl_count slot)"
  "final_byte L1DLTTIReq_t (dl_slot sfn slot) 5 d = 0"
  by (subst outer_dl, simp, simp add: dl_slot_def dl_head_def outer_lists dl_count_def div_10 locs layout)+

lemma tx_slot_bytes:
  "final_byte L1TXDATAREQ_t (tx_slot sfn slot) 4 d = of_nat (tx_count slot)"
  "final_byte L1TXDATAREQ_t (tx_slot sfn slot) 5 d = 0"
  by (subst outer_tx, simp, simp add: tx_slot_def tx_head_def outer_lists tx_none_def tx_count_def locs layout Let_def)+

lemma ul_slot_bytes:
  "final_byte L1ULTTI_t (ul_slot sfn slot) 4 d = of_nat (ul_count slot)"
  "final_byte L1ULTTI_t (ul_slot sfn slot) 5 d = 0"
  by (subst outer_ul, simp, simp add: ul_slot_def ul_head_def outer_lists ul_none_def ul_count_def locs layout Let_def)+

lemmas slot_bytes = dl_slot_bytes tx_slot_bytes ul_slot_bytes

lemma ssb_bytes:
  "slot < 10 \<Longrightarrow> final_byte L1DLTTIReq_t (dl_slot sfn slot) 20 d = 3"
  "slot < 10 \<Longrightarrow> final_byte L1DLTTIReq_t (dl_slot sfn slot) 21 d = 0"
  by (simp_all add: dl_slot_def dl_ssb_def under_def final_append locs layout)

text \<open>What the three requests of a slot hold when the test case is done.\<close>

definition slot_done :: "nat \<Rightarrow> nat \<Rightarrow> chan \<Rightarrow> bool" where
  "slot_done sfn slot ch \<longleftrightarrow> (\<exists>dl tx ul. gL1DLTTIReq ch sfn slot = Some dl \<and> gL1TXDATAREQ ch sfn slot = Some tx \<and>
     gL1ULTTI ch sfn slot = Some ul \<and>
     fld16 dl 0 L1DLTTIReq_t ''nPDUs'' = Inr (of_nat (dl_count slot)) \<and>
     fld16 tx 0 L1TXDATAREQ_t ''numPDUs'' = Inr (of_nat (tx_count slot)) \<and>
     fld16 ul 0 L1ULTTI_t ''nPDUs'' = Inr (of_nat (ul_count slot)) \<and>
     (slot < 10 \<longrightarrow> rd_u16 dl 20 = Inr 3))"

lemma small_u16: "n < 256 \<Longrightarrow> u16_of_bytes (of_nat n) 0 = of_nat n"
  by (simp add: u16_of_bytes_def word_unat_eq_iff unsigned_ucast_eq unsigned_of_nat take_bit_nat_eq_self)

lemma case1_slot_run:
  assumes "has_length (gL1DLTTIReq ch sfn slot) 65536" and "has_length (gL1TXDATAREQ ch sfn slot) 4096"
    and "has_length (gL1ULTTI ch sfn slot) 4096" and "sfn < 3" and "slot < 19"
  shows "\<exists>ch'. case1_slot (sfn, slot) ch = Inr ch' \<and> slot_done sfn slot ch' \<and>
    (\<forall>i j. (i, j) \<noteq> (sfn, slot) \<longrightarrow> gL1DLTTIReq ch' i j = gL1DLTTIReq ch i j \<and> gL1TXDATAREQ ch' i j = gL1TXDATAREQ ch i j \<and>
       gL1ULTTI ch' i j = gL1ULTTI ch i j)"
proof -
  from assms(1-3) obtain dl tx ul where bufs: "gL1DLTTIReq ch sfn slot = Some dl" "length dl = 65536"
    "gL1TXDATAREQ ch sfn slot = Some tx" "length tx = 4096" "gL1ULTTI ch sfn slot = Some ul" "length ul = 4096"
    unfolding has_length_def by blast
  have small: "sfn < 65536" "slot < 65536" using assms(4,5) by simp_all
  obtain dl' where dl: "store_all L1DLTTIReq_t (dl_slot sfn slot) (Some dl) = Inr (Some dl')" "length dl' = 65536"
    "\<forall>k < 65536. dl' ! k = final_byte L1DLTTIReq_t (dl_slot sfn slot) k (dl ! k)"
    using store_all_run [OF dl_slot_fits [OF small] refl bufs(2)] by blast
  obtain tx' where tx: "store_all L1TXDATAREQ_t (tx_slot sfn slot) (Some tx) = Inr (Some tx')" "length tx' = 4096"
    "\<forall>k < 4096. tx' ! k = final_byte L1TXDATAREQ_t (tx_slot sfn slot) k (tx ! k)"
    using store_all_run [OF tx_slot_fits [OF small] refl bufs(4)] by blast
  obtain ul' where ul: "store_all L1ULTTI_t (ul_slot sfn slot) (Some ul) = Inr (Some ul')" "length ul' = 4096"
    "\<forall>k < 4096. ul' ! k = final_byte L1ULTTI_t (ul_slot sfn slot) k (ul ! k)"
    using store_all_run [OF ul_slot_fits [OF small] refl bufs(6)] by blast
  have counts: "dl_count slot < 256" "tx_count slot < 256" "ul_count slot < 256"
    by (simp_all add: dl_count_def tx_count_def ul_count_def)
  have "rd_u16 dl' 4 = Inr (of_nat (dl_count slot))" "rd_u16 tx' 4 = Inr (of_nat (tx_count slot))"
    "rd_u16 ul' 4 = Inr (of_nat (ul_count slot))"
    using dl(2,3) tx(2,3) ul(2,3) counts by (simp_all add: rd_u16_ok slot_bytes small_u16)
  moreover have "slot < 10 \<Longrightarrow> rd_u16 dl' 20 = Inr 3"
    using dl(2,3) small_u16 [of 3] by (simp add: rd_u16_ok ssb_bytes)
  ultimately have "slot_done sfn slot (ch\<lparr>gL1DLTTIReq := put2 (gL1DLTTIReq ch) sfn slot (Some dl'),
      gL1TXDATAREQ := put2 (gL1TXDATAREQ ch) sfn slot (Some tx'), gL1ULTTI := put2 (gL1ULTTI ch) sfn slot (Some ul')\<rparr>)"
    by (simp add: slot_done_def put2_def fld16_def layout)
  then show ?thesis
    using dl(1) tx(1) ul(1) bufs by (intro exI conjI) (auto simp: case1_slot_def put2_def)
qed

definition untouched :: "nat \<Rightarrow> nat \<Rightarrow> chan \<Rightarrow> chan \<Rightarrow> bool" where
  "untouched i j ch ch' \<longleftrightarrow> gL1DLTTIReq ch' i j = gL1DLTTIReq ch i j \<and> gL1TXDATAREQ ch' i j = gL1TXDATAREQ ch i j \<and>
     gL1ULTTI ch' i j = gL1ULTTI ch i j"

lemma slot_done_untouched: "untouched i j ch ch' \<Longrightarrow> slot_done i j ch' = slot_done i j ch"
  by (simp add: untouched_def slot_done_def)

lemma case1_slots_run:
  "distinct ps \<Longrightarrow> (\<And>i j. (i, j) \<in> set ps \<Longrightarrow> i < 3 \<and> j < 19 \<and> has_length (gL1DLTTIReq ch i j) 65536 \<and>
      has_length (gL1TXDATAREQ ch i j) 4096 \<and> has_length (gL1ULTTI ch i j) 4096) \<Longrightarrow>
    \<exists>ch'. foreach case1_slot ps ch = Inr ch' \<and> (\<forall>i j. (i, j) \<in> set ps \<longrightarrow> slot_done i j ch') \<and>
      (\<forall>i j. (i, j) \<notin> set ps \<longrightarrow> untouched i j ch ch')"
proof (induction ps arbitrary: ch)
  case (Cons p ps)
  obtain i j where p: "p = (i, j)" by (cases p)
  obtain ch1 where ch1: "case1_slot (i, j) ch = Inr ch1" "slot_done i j ch1" "\<And>i' j'. (i', j') \<noteq> (i, j) \<Longrightarrow> untouched i' j' ch ch1"
    using case1_slot_run [of ch i j] Cons.prems(2) [of i j] unfolding p untouched_def by auto
  have rest: "i' < 3 \<and> j' < 19 \<and> has_length (gL1DLTTIReq ch1 i' j') 65536 \<and> has_length (gL1TXDATAREQ ch1 i' j') 4096 \<and>
      has_length (gL1ULTTI ch1 i' j') 4096" if "(i', j') \<in> set ps" for i' j'
    using that Cons.prems ch1(3) [of i' j'] unfolding p untouched_def by fastforce
  obtain ch' where ch': "foreach case1_slot ps ch1 = Inr ch'" "\<And>i j. (i, j) \<in> set ps \<Longrightarrow> slot_done i j ch'"
    "\<And>i j. (i, j) \<notin> set ps \<Longrightarrow> untouched i j ch1 ch'"
    using Cons.IH [OF _ rest] Cons.prems(1) by auto
  have "slot_done i j ch'" using ch'(3) [of i j] ch1(2) slot_done_untouched Cons.prems(1) unfolding p by auto
  moreover have "untouched a b ch ch'" if "(a, b) \<notin> set (p # ps)" for a b
    using that ch1(3) [of a b] ch'(3) [of a b] unfolding p untouched_def by auto
  ultimately show ?case using ch1(1) ch' unfolding p by auto
qed (simp add: untouched_def)

text \<open>
  C30: The slots of the built-in test case. It runs to its end on the buffers that \<open>macInit\<close> allocates. Of the first ten slots
  of a frame each has one downlink PDU, an SSB, so the slots 1 to 6 send a payload that no PDSCH belongs to, and nothing
  distinguishes downlink from uplink slots; the next nine have what the test is about: two PDUs in the downlink slots, none in
  7 to 9, a payload in 1 to 6 of the ten, and three uplink PDUs in 8 and 9.
\<close>

theorem case1_slots:
  assumes "bufs_wf (chans s 0 0)"
  shows "\<exists>s'. testCae1 s = Inr s' \<and> (\<forall>sfn slot. sfn < 3 \<and> slot < 19 \<longrightarrow> slot_done sfn slot (chans s' 0 0)) \<and>
    (\<forall>d c. (d, c) \<noteq> (0, 0) \<longrightarrow> chans s' d c = chans s d c)"
proof -
  let ?ch = "chans s 0 0"
  obtain m where m: "gL1ConfigRequest ?ch = Some m" "length m = 65536" using assms unfolding bufs_wf_def has_length_def by blast
  obtain cfg where cfg: "store_all L1ConfigRequest_t case1_config (gL1ConfigRequest ?ch) = Inr cfg"
    using store_all_run [OF case1_config_fits m] by blast
  let ?c = "?ch\<lparr>gL1ConfigRequest := cfg\<rparr>"
  have all: "set (List.product [0..<3] [0..<19]) = {(i, j). i < 3 \<and> j < 19}" by auto
  obtain ch' where ch': "foreach case1_slot (List.product [0..<3] [0..<19]) ?c = Inr ch'"
    "\<forall>i j. (i, j) \<in> set (List.product [0..<3] [0..<19]) \<longrightarrow> slot_done i j ch'"
    using case1_slots_run [OF distinct_product, of "[0..<3]" "[0..<19]" ?c] assms unfolding all bufs_wf_def by fastforce
  have "testCae1 s = Inr (set_chan 0 0 ch' s)" by (simp add: testCae1_def get_chan_def cfg ch'(1))
  then show ?thesis using ch'(2) unfolding all by (intro exI conjI) (auto simp: set_chan_def)
qed

theorem case1_config_overlaps_witness:
  "\<exists>m'. store_all L1ConfigRequest_t case1_config (Some (replicate 65536 0xAA)) = Inr (Some m') \<and>
    rd_u16 m' (prach_fd ''prachRootSequenceIndex'') = Inr 1"
  using case1_config_overlaps [of "replicate 65536 0xAA"] by auto

definition case1_mac :: "nat mac" where
  "case1_mac = idle_mac\<lparr>chans := (\<lambda>d c. chan_zero\<lparr>gL1ConfigRequest := Some (replicate 65536 0),
     gL1DLTTIReq := (\<lambda>i j. Some (replicate 65536 0)), gL1TXDATAREQ := (\<lambda>i j. Some (replicate 4096 0)),
     gL1ULTTI := (\<lambda>i j. Some (replicate 4096 0))\<rparr>)\<rparr>"

theorem case1_slots_witness:
  "\<exists>s'. testCae1 case1_mac = Inr s' \<and> slot_done 2 5 (chans s' 0 0) \<and> slot_done 2 15 (chans s' 0 0) \<and>
    dl_count 5 = 1 \<and> tx_count 5 = 1 \<and> dl_count 15 = 2 \<and> tx_count 15 = 1"
proof -
  have "bufs_wf (chans case1_mac 0 0)" by (simp add: case1_mac_def bufs_wf_def has_length_def)
  from case1_slots [OF this] obtain s' where "testCae1 case1_mac = Inr s'"
    "\<forall>sfn slot. sfn < 3 \<and> slot < 19 \<longrightarrow> slot_done sfn slot (chans s' 0 0)" by blast
  then show ?thesis by (intro exI [of _ s']) (simp add: dl_count_def tx_count_def)
qed

end
