(* ===== verification/OamFeu.thy ===== *)
theory OamFeu
  imports L1Layout
begin

text \<open>
  The front end between an operation-and-maintenance application and the PC802 of \<open>src/mac/src/mac_feu_fapi.c\<close>:
  datagrams with FEU or OAM requests are decoded and handed to the PC802 library, its answers are sent back. The
  structures of \<open>src/mac/inc/mac_feu_fapi.h\<close> and \<open>src/mac/inc/mac_oam_interface.h\<close> are terms of the language of
  types of \<open>L1Layout\<close>. The library (\<open>pcxx_oam.h\<close>, which is not part of the sources) and the socket are parameters.
\<close>

section \<open>The messages\<close>

text \<open>A packed structure: every field stands where the one before it ends, whatever its type.\<close>

definition packed :: "(string \<times> ctype) list \<Rightarrow> ctype" where
  "packed fs = CStruct (map (\<lambda>(n, t). (n, CArr U8 (csize t))) fs)"

datatype FEUFAPIMsgId_e = FEU_FAPI_PARAM_REQUEST | FEU_FAPI_PARAM_RESPONSE | FEU_FAPI_CONFIG_REQUEST
  | FEU_FAPI_CONFIG_RESPONSE | FEU_FAPI_INDICATION | FEU_FAPI_SCHEDULE_REQUEST | FEU_FAPI_SCHEDULE_RESPONSE
  | FEU_FAPI_START_REQUEST | FEU_FAPI_START_RESPONSE | FEU_FAPI_STOP_REQUEST | FEU_FAPI_STOP_INDICATION
  | FEU_FAPI_ERROR_INDICATION | FEU_FAPI_DFE_PARAM_REQUEST | FEU_FAPI_DFE_PARAM_RESPONSE
  | FEU_FAPI_DFE_CONFIG_REQUEST | FEU_FAPI_DFE_CONFIG_RESPONSE | FEU_FAPI_DFE_CONFIG_INDICATION
  | FEU_FAPI_DFE_START_REQUEST | FEU_FAPI_DFE_START_RESPONSE | FEU_FAPI_DFE_STOP_REQUEST
  | FEU_FAPI_DFE_STOP_INDICATION | FEU_FAPI_DFE_ERROR_INDICATION | FEUFAPIMSGID_E_CNT

fun feu_id :: "FEUFAPIMsgId_e \<Rightarrow> u16" where
  "feu_id FEU_FAPI_PARAM_REQUEST = 0x400"
| "feu_id FEU_FAPI_PARAM_RESPONSE = 0x401"
| "feu_id FEU_FAPI_CONFIG_REQUEST = 0x402"
| "feu_id FEU_FAPI_CONFIG_RESPONSE = 0x403"
| "feu_id FEU_FAPI_INDICATION = 0x404"
| "feu_id FEU_FAPI_SCHEDULE_REQUEST = 0x405"
| "feu_id FEU_FAPI_SCHEDULE_RESPONSE = 0x406"
| "feu_id FEU_FAPI_START_REQUEST = 0x407"
| "feu_id FEU_FAPI_START_RESPONSE = 0x408"
| "feu_id FEU_FAPI_STOP_REQUEST = 0x409"
| "feu_id FEU_FAPI_STOP_INDICATION = 0x40A"
| "feu_id FEU_FAPI_ERROR_INDICATION = 0x40B"
| "feu_id FEU_FAPI_DFE_PARAM_REQUEST = 0x500"
| "feu_id FEU_FAPI_DFE_PARAM_RESPONSE = 0x501"
| "feu_id FEU_FAPI_DFE_CONFIG_REQUEST = 0x502"
| "feu_id FEU_FAPI_DFE_CONFIG_RESPONSE = 0x503"
| "feu_id FEU_FAPI_DFE_CONFIG_INDICATION = 0x504"
| "feu_id FEU_FAPI_DFE_START_REQUEST = 0x507"
| "feu_id FEU_FAPI_DFE_START_RESPONSE = 0x508"
| "feu_id FEU_FAPI_DFE_STOP_REQUEST = 0x509"
| "feu_id FEU_FAPI_DFE_STOP_INDICATION = 0x50A"
| "feu_id FEU_FAPI_DFE_ERROR_INDICATION = 0x50B"
| "feu_id FEUFAPIMSGID_E_CNT = 0x50C"

datatype OAM_PHY_API_MSGID = PHY_VERSION_GET_REQ | PHY_VERSION_GET_RSP | PHY_CELLSTATE_GET_REQ
  | PHY_CELLSTATE_GET_RSP | PC802_TEMP_GET_REQ | PC802_TEMP_GET_RSP | PHY_OAM_MSG_MAX

fun oam_phy_id :: "OAM_PHY_API_MSGID \<Rightarrow> u16" where
  "oam_phy_id PHY_VERSION_GET_REQ = 0"
| "oam_phy_id PHY_VERSION_GET_RSP = 1"
| "oam_phy_id PHY_CELLSTATE_GET_REQ = 2"
| "oam_phy_id PHY_CELLSTATE_GET_RSP = 3"
| "oam_phy_id PC802_TEMP_GET_REQ = 4"
| "oam_phy_id PC802_TEMP_GET_RSP = 5"
| "oam_phy_id PHY_OAM_MSG_MAX = 6"

datatype OAM_eCPRI_API_MSGID = ECPRI_GET_REQ | ECPRI_GET_RESP | ECPRI_SET_REQ | ECPRI_SET_RESP
  | ECPRI_TEST_NTFY | ECPRI_ERR_IND

fun ecpri_id :: "OAM_eCPRI_API_MSGID \<Rightarrow> u16" where
  "ecpri_id ECPRI_GET_REQ = 1000"
| "ecpri_id ECPRI_GET_RESP = 1001"
| "ecpri_id ECPRI_SET_REQ = 1002"
| "ecpri_id ECPRI_SET_RESP = 1003"
| "ecpri_id ECPRI_TEST_NTFY = 1004"
| "ecpri_id ECPRI_ERR_IND = 1005"

definition FEUMsgHdr_t :: ctype where
  "FEUMsgHdr_t = CStruct [(''msgNum'', U8), (''opaque'', U8), (''rev'', U16)]"

definition FEUGeneralMsgHdr_t :: ctype where
  "FEUGeneralMsgHdr_t = CStruct [(''msgId'', U16), (''cellid'', U16), (''msgSize'', U32)]"

definition FEUDataTLV_t :: ctype where
  "FEUDataTLV_t = CStruct [(''Tag'', U16), (''Length'', U16), (''Value'', CFlex U8)]"

definition FEUParamRequest_t :: ctype where
  "FEUParamRequest_t = CStruct []"

definition FEUParamResponse_t :: ctype where
  "FEUParamResponse_t = CStruct [(''ErrorCode'', U8), (''NumberOfTLV'', U8), (''rev'', U16),
    (''TLVs'', CFlex FEUDataTLV_t)]"

definition FEUTXRFCHAINCFG :: ctype where
  "FEUTXRFCHAINCFG = packed [(''rfChaninId'', U8), (''rfChaninCtrl'', U8), (''bandType'', U8),
    (''bandNum'', U16), (''carrierIdx'', U8), (''bandwidth'', U8), (''carrierFreq'', U32),
    (''nominalRmsOutPower'', I16), (''nominalRmsInputPower'', I16), (''gain'', I16),
    (''subcarrierSpacing'', U8), (''cyclicPrefix'', U8)]"

definition FEURXRFCHAINCFG :: ctype where
  "FEURXRFCHAINCFG = packed [(''rfChaninId'', U8), (''rfChaninCtrl'', U8), (''bandType'', U8),
    (''bandNum'', U16), (''carrierIdx'', U8), (''bandwidth'', U8), (''carrierFreq'', U32), (''gain'', I16),
    (''subcarrierSpacing'', U8), (''cyclicPrefix'', U8)]"

definition FEUTXRXPATTERNCFG :: ctype where
  "FEUTXRXPATTERNCFG = packed [(''sfn'', U16), (''slot'', U8), (''subcarrierSpacing'', U8),
    (''cyclicPrefixType'', U8), (''patternLengthInSymbols'', U16), (''symbolTxRxMask'', CFlex U8)]"

definition FEUConfigRequesTLV_t :: ctype where
  "FEUConfigRequesTLV_t = packed [(''NumberTLVs'', U8), (''rev1'', U8), (''rev2'', U16),
    (''TLVs'', CFlex FEUDataTLV_t)]"

definition FEUConfigResponse_t :: ctype where
  "FEUConfigResponse_t = packed [(''ErrorCode'', U8), (''NumberInvalidTLVs'', U8),
    (''NumberOnlyIDLETLVs'', U8), (''NumberOnlyRUNNINGTLVs'', U8), (''NumberMissTLVs'', U8),
    (''rev'', CArr U8 3), (''TLVs'', CFlex FEUDataTLV_t)]"

definition FEUStartRequest_t :: ctype where
  "FEUStartRequest_t = CStruct []"

definition FEUStartResponse_t :: ctype where
  "FEUStartResponse_t = CStruct [(''ErrorCode'', U8), (''rev'', CArr U8 3)]"

definition FEUStopRequest_t :: ctype where
  "FEUStopRequest_t = CStruct []"

definition FEUStopIndication_t :: ctype where
  "FEUStopIndication_t = CStruct []"

definition FEUErrorIndicationExtenInfo_t :: ctype where
  "FEUErrorIndicationExtenInfo_t = packed [(''ExtendedStatusLen'', U16), (''ExtendedStatusContents'', CFlex U8)]"

definition FEUErrorIndication_t :: ctype where
  "FEUErrorIndication_t = packed [(''Sfn'', U16), (''Slot'', U16), (''MsgID'', U16), (''ErrorCode'', U8),
    (''ExpectedSFN'', U16), (''ExpectedSLOT'', U16), (''rsv1'', U8), (''rsv2'', U16),
    (''ExtendedStatus'', FEUErrorIndicationExtenInfo_t)]"

definition FEUDPDCFG :: ctype where
  "FEUDPDCFG = packed [(''ChainIdx'', U16), (''Sfn'', U16), (''Slot'', U8), (''SubcarrierSpacing'', U8),
    (''CyclicPrefixType'', U8), (''DPDstate'', U8), (''DPDtimeOffset'', U16)]"

definition FEUCFRCFG :: ctype where
  "FEUCFRCFG = packed [(''ChainIdx'', U16), (''Sfn'', U16), (''Slot'', U8), (''SubcarrierSpacing'', U8),
    (''CyclicPrefixType'', U8), (''CFRstate'', U8), (''CFRthreshold'', U16)]"

definition FEUDFEConfigRequesTLV_t :: ctype where
  "FEUDFEConfigRequesTLV_t = packed [(''NumberTLVs'', U8), (''rev1'', U8), (''rev2'', U16),
    (''TLVs'', CFlex FEUDataTLV_t)]"

definition FEUDFEConfigResponse_t :: ctype where
  "FEUDFEConfigResponse_t = packed [(''ErrorCode'', U8), (''NumberInvalidTLVs'', U8),
    (''NumberOnlyIDLETLVs'', U8), (''NumberOnlyRUNNINGTLVs'', U8), (''NumberMissTLVs'', U8),
    (''rev'', CArr U8 3), (''TLVs'', CFlex FEUDataTLV_t)]"

definition FEUDFEParamRequest_t :: ctype where
  "FEUDFEParamRequest_t = CStruct []"

definition FEUDFEParamResponse_t :: ctype where
  "FEUDFEParamResponse_t = CStruct [(''ErrorCode'', U8), (''NumberOfTLV'', U8), (''rev'', U16),
    (''TLVs'', CFlex FEUDataTLV_t)]"

definition FEUDFEStartRequest_t :: ctype where
  "FEUDFEStartRequest_t = CStruct []"

definition FEUDFEStartResponse_t :: ctype where
  "FEUDFEStartResponse_t = CStruct [(''ErrorCode'', U8), (''rev'', CArr U8 3)]"

definition FEUDFEStopRequest_t :: ctype where
  "FEUDFEStopRequest_t = CStruct []"

definition FEUDFEStopIndication_t :: ctype where
  "FEUDFEStopIndication_t = CStruct []"

text \<open>The structures of the OAM messages and of the values they carry, with the tags that announce them.\<close>

datatype OAM_TLV_TAG_VAL = TAG_BASIC_CFG | TAG_PTP_CFG | TAG_COMP_CFG | TAG_MTU_CFG | TAG_RTX_CFG | TAG_RU_CFG
  | TAG_DU_INTERNAL_CFG | TAG_DU_CFG | TAG_DU_KPIS | TAG_DU_TSU_KPIS | TAG_DU_PTP_KPIS | TAG_DU_SLOT_RX | TAG_DU_DEBUG_CFG
  | TAG_DU_PERF_TX | TAG_DU_PERF_CNT_TX | TAG_DU_PERF_RX | TAG_DU_PERF_CNT_RX | TAG_ECPRI_NET_LINKUP_CFG
  | TAG_ECPRI_RX_HWA_ERROR | TAG_MAC_READ | TAG_PCS_READ | TAG_SFP_READ

definition oam_tags :: "OAM_TLV_TAG_VAL list" where
  "oam_tags = [TAG_BASIC_CFG, TAG_PTP_CFG, TAG_COMP_CFG, TAG_MTU_CFG, TAG_RTX_CFG, TAG_RU_CFG, TAG_DU_INTERNAL_CFG,
     TAG_DU_CFG, TAG_DU_KPIS, TAG_DU_TSU_KPIS, TAG_DU_PTP_KPIS, TAG_DU_SLOT_RX, TAG_DU_DEBUG_CFG, TAG_DU_PERF_TX,
     TAG_DU_PERF_CNT_TX, TAG_DU_PERF_RX, TAG_DU_PERF_CNT_RX, TAG_ECPRI_NET_LINKUP_CFG, TAG_ECPRI_RX_HWA_ERROR,
     TAG_MAC_READ, TAG_PCS_READ, TAG_SFP_READ]"

text \<open>The tags are numbered from 0x1000 in this order.\<close>

definition oam_tag :: "OAM_TLV_TAG_VAL \<Rightarrow> u16" where
  "oam_tag t = 0x1000 + of_nat (length (takeWhile (\<lambda>u. u \<noteq> t) oam_tags))"

definition OamMsgHdr_t :: ctype where
  "OamMsgHdr_t = CStruct [(''start_flag'', U32), (''msg_type'', U32), (''seq_id'', U32), (''msg_num'', U32),
    (''Msg_id'', U16), (''Msg_size'', U16)]"

definition OamTlv_t :: ctype where
  "OamTlv_t = CStruct [(''Tag'', U16), (''Length'', U16)]"

definition eCPRIGetReq :: ctype where
  "eCPRIGetReq = CStruct [(''TagsNum'', U16), (''tags'', CFlex U16)]"

definition eCPRIGetRes :: ctype where
  "eCPRIGetRes = CStruct [(''TlvNum'', U8), (''TLVs'', CFlex OamTlv_t)]"

definition stOam_set_req :: ctype where
  "stOam_set_req = CStruct [(''num_tlvs'', U16), (''tlvs'', CFlex OamTlv_t)]"

definition stOam_set_rsp :: ctype where
  "stOam_set_rsp = CStruct [(''error_number'', U8), (''tags'', CFlex U16)]"

definition Pc802TempTlv_t :: ctype where
  "Pc802TempTlv_t = CStruct [(''temp_0'', U32), (''temp_1'', U32), (''temp_2'', U32), (''temp_3'', U32)]"

definition eCPRIBasicConfigure_t :: ctype where
  "eCPRIBasicConfigure_t = CStruct [(''eth_type'', U8), (''max_antenna_cnt'', U8), (''max_section_cnt'', U8),
    (''max_symbol_cnt_per_slot'', U8), (''cur_antenna_cnt'', U8), (''cur_section_cnt'', U8),
    (''cur_symbol_cnt_per_slot'', U8), (''rev0'', U8)]"

definition eCPRIPTPTlv_t :: ctype where
  "eCPRIPTPTlv_t = CStruct [(''ptp_enable'', U8), (''ptp_step_mode'', U8), (''ecpri_step_mode'', U8),
    (''ptp_domain'', U8)]"

definition eCPRICompressionTlv_t :: ctype where
  "eCPRICompressionTlv_t = CStruct [(''isStaticComp'', U8), (''method'', U8), (''comIqWidth'', U8),
    (''decomIqWidth'', U8)]"

definition eCPRIEthernetMTUTlv_t :: ctype where
  "eCPRIEthernetMTUTlv_t = CStruct [(''mtu'', U32)]"

definition eCPRITxRxTlv_t :: ctype where
  "eCPRITxRxTlv_t = CStruct [(''maxTxLateThreshold'', U32)]"

definition eCPRIORUTlv_t :: ctype where
  "eCPRIORUTlv_t = CStruct [(''ru_id'', U8), (''rev0'', U8), (''s_interval'', U16), (''Ta4min'', U32),
    (''Ta4max'', U32), (''T1amin_cp_ul'', U32), (''T1amax_cp_ul'', U32), (''T1amin_cp_dl'', U32),
    (''T1amax_cp_dl'', U32), (''T1amin_up'', U32), (''T1amax_up'', U32), (''ru_mac'', CArr U8 6),
    (''rev1'', U16)]"

definition eCPRIDULocalTlv_t :: ctype where
  "eCPRIDULocalTlv_t = CStruct [(''pcie_enable'', U8), (''pipeline_mode'', U8), (''outgoing_core_cnt'', U8),
    (''ingoing_core_cnt'', U8)]"

definition eCPRIDUTlv_t :: ctype where
  "eCPRIDUTlv_t = CStruct [(''cp_enable'', U8), (''ru_cnt'', U8), (''du_mac'', CArr U8 6),
    (''du_port_id'', U8), (''rev0'', U8), (''vlan_id'', U16)]"

definition eCPRIODUKpisTlv_t :: ctype where
  "eCPRIODUKpisTlv_t = CStruct [(''m_rx_total_l'', U32), (''m_rx_total_h'', U32), (''m_rx_on_time_l'', U32),
    (''m_rx_on_time_h'', U32), (''m_rx_early_l'', U32), (''m_rx_early_h'', U32), (''m_rx_late_l'', U32),
    (''m_rx_late_h'', U32), (''m_rx_seqid_err_l'', U32), (''m_rx_seqid_err_h'', U32),
    (''m_rx_on_time_c_l'', U32), (''m_rx_on_time_c_h'', U32), (''m_rx_early_c_l'', U32),
    (''m_rx_early_c_h'', U32), (''m_rx_late_c_l'', U32), (''m_rx_late_c_h'', U32),
    (''m_rx_seqid_err_c_l'', U32), (''m_rx_seqid_err_c_h'', U32), (''m_rx_corrupt_l'', U32),
    (''m_rx_corrupt_h'', U32), (''m_rx_err_drop_l'', U32), (''m_rx_err_drop_h'', U32),
    (''m_rx_pkt_dupl_l'', U32), (''m_rx_pkt_dupl_h'', U32), (''m_tx_total_l'', U32), (''m_tx_total_h'', U32),
    (''m_tx_total_c_l'', U32), (''m_tx_total_c_h'', U32)]"

definition stEcpri_tsu_perf_kpis :: ctype where
  "stEcpri_tsu_perf_kpis = CStruct [(''m_tx_tsu_ptp'', U32), (''m_tx_tsu_ecpri'', U32),
    (''m_rx_tsu_ptp'', U32), (''m_rx_tsu_ecpri'', U32)]"

definition stEcpri_ptp_perf_kpis :: ctype where
  "stEcpri_ptp_perf_kpis = CStruct [(''m_tx_announce'', U32), (''m_tx_sync'', U32), (''m_tx_follow_up'', U32),
    (''m_rx_request'', U32), (''m_tx_response'', U32)]"

definition stEcpri_slot_rx :: ctype where
  "stEcpri_slot_rx = CStruct [(''slot7_cnt'', CArr U32 8), (''slot8_cnt'', CArr U32 8),
    (''slot9_cnt'', CArr U32 8), (''slot17_cnt'', CArr U32 8), (''slot18_cnt'', CArr U32 8),
    (''slot19_cnt'', CArr U32 8)]"

definition stEcpri_perf_data_tx :: ctype where
  "stEcpri_perf_data_tx = CStruct [(''m_cnt'', U32), (''m_ptx_push_u_desc_fifo'', U32),
    (''m_ptx_build_u_desc'', U32), (''m_ptx_wait_u'', U32), (''m_comp_push_desc_fifo'', U32),
    (''m_comp_build_desc'', U32), (''m_comp_wait'', U32), (''m_pkt_pack'', U32), (''m_ptx_comp_total'', U32),
    (''m_tsc'', U32), (''m_idx'', U32)]"

definition stEcpri_perf_data_cnt_tx :: ctype where
  "stEcpri_perf_data_cnt_tx = CStruct [(''m_ptx_build_s_desc_cnt'', U32), (''m_ptx_push_s_desc_cnt'', U32),
    (''m_ptx_wait_s_desc_cnt'', U32), (''m_ptx_build_c_desc_cnt'', U32), (''m_ptx_push_c_desc_cnt'', U32),
    (''m_ptx_wait_c_desc_cnt'', U32), (''m_ptx_build_u_desc_cnt'', U32), (''m_ptx_push_u_desc_cnt'', U32),
    (''m_ptx_wait_u_desc_cnt'', U32), (''m_ptx_build_desc_total_cnt'', U32),
    (''m_ptx_push_desc_total_cnt'', U32), (''m_ptx_wait_desc_total_cnt'', U32),
    (''m_comp_build_push_desc_cnt'', U32), (''m_comp_wait_desc_cnt'', U32)]"

definition stEcpri_perf_data_rx :: ctype where
  "stEcpri_perf_data_rx = CStruct [(''m_cnt'', U32), (''m_prx_push_desc_fifo'', U32),
    (''m_prx_build_desc'', U32), (''m_prx_wait'', U32), (''m_decomp_push_desc_fifo'', U32),
    (''m_decomp_build_desc'', U32), (''m_decomp_wait'', U32), (''m_pkt_unpack'', U32),
    (''m_prx_decomp_total'', U32)]"

definition stEcpri_perf_data_cnt_rx :: ctype where
  "stEcpri_perf_data_cnt_rx = CStruct [(''m_prx_build_push_desc_cnt'', U32), (''m_prx_wait_desc_cnt'', U32),
    (''m_prx_rcv_msg_cnt'', U32), (''m_decomp_build_push_desc_cnt'', U32), (''m_decomp_wait_desc_cnt'', U32)]"

definition stEcpri_debug_cfg :: ctype where
  "stEcpri_debug_cfg = CStruct [(''m_plane_debug_enable'', U8), (''u_plane_debug_enable'', U8),
    (''c_plane_debug_enable'', U8), (''s_plane_debug_enable'', U8), (''ptp_debug_enable'', U8),
    (''tsu_mgr_debug_enable'', U8), (''phy_mgr_debug_enable'', U8), (''data_rtx_debug_enable'', U8),
    (''du_mgr_debug_enable'', U8), (''ru_mgr_debug_enable'', U8), (''hwa_debug_enable'', U8),
    (''receiving_windows_debug_enable'', U8)]"

definition stEcpri_net_linkup_status :: ctype where
  "stEcpri_net_linkup_status = CStruct [(''net_ecpri_linkup_status'', U32)]"

definition stEcpri_rx_complete_error_count :: ctype where
  "stEcpri_rx_complete_error_count = CStruct [(''timed_ecpri_complete_error'', U32),
    (''non_ecpri_complete_error'', U32)]"

definition stEcpri_mac_register :: ctype where
  "stEcpri_mac_register = CStruct [(''rx_64_b_pkts'', U32), (''rx_65_b_pkts'', U32), (''rx_128_b_pkts'', U32),
    (''rx_256_b_pkts'', U32), (''rx_512_b_pkts'', U32), (''rx_1024_b_pkts'', U32), (''rx_1519_b_pkts'', U32),
    (''rx_undersize_pkts'', U32), (''rx_oversize_pkts'', U32), (''rx_in_pkts'', U32),
    (''rx_in_lsb_bytes'', U32), (''rx_in_msb_bytes'', U32), (''rx_bad_crc_pkts'', U32), (''rx_tag_pkts'', U32),
    (''rx_dmac_fltrd_pkts'', U32), (''rx_uc_pkts'', U32), (''rx_mc_pkts'', U32), (''rx_bc_pkts'', U32),
    (''rx_discard_pkts'', U32), (''rx_overflow_pkts'', U32)]"

definition stEcpri_pcs_status :: ctype where
  "stEcpri_pcs_status = CStruct [(''pcs_status_1'', U32), (''pcs_status_2'', U32),
    (''pcs_mltbser_status_4'', U32)]"

definition stEcpri_sfp_status :: ctype where
  "stEcpri_sfp_status = CStruct [(''sfp_status'', U32)]"

section \<open>The sizes of the messages\<close>

text \<open>The packed structures have no padding; every tag has a number of its own.\<close>

lemma feu_sizes:
  "csize FEUTXRFCHAINCFG = 19" "csize FEURXRFCHAINCFG = 15" "csize FEUTXRXPATTERNCFG = 7" "csize FEUConfigRequesTLV_t = 4"
  "csize FEUConfigResponse_t = 8" "csize FEUErrorIndication_t = 16" "csize FEUDPDCFG = 10" "csize FEUCFRCFG = 10"
  by code_simp+

lemma oam_tags_distinct: "distinct (map oam_tag oam_tags)"
  by code_simp

text \<open>
  A message with one value for every tag (the structures in the order of the tags) fits a sub-message and a datagram: the
  two headers, the count and the values with their own headers stay well below 2048 bytes.
\<close>

definition oam_values :: "ctype list" where
  "oam_values = [eCPRIBasicConfigure_t, eCPRIPTPTlv_t, eCPRICompressionTlv_t, eCPRIEthernetMTUTlv_t, eCPRITxRxTlv_t,
     eCPRIORUTlv_t, eCPRIDULocalTlv_t, eCPRIDUTlv_t, eCPRIODUKpisTlv_t, stEcpri_tsu_perf_kpis,
     stEcpri_ptp_perf_kpis, stEcpri_slot_rx, stEcpri_debug_cfg, stEcpri_perf_data_tx,
     stEcpri_perf_data_cnt_tx, stEcpri_perf_data_rx, stEcpri_perf_data_cnt_rx, stEcpri_net_linkup_status,
     stEcpri_rx_complete_error_count, stEcpri_mac_register, stEcpri_pcs_status, stEcpri_sfp_status]"

lemma oam_values_fit:
  "length oam_values = length oam_tags"
  "csize FEUGeneralMsgHdr_t + csize OamMsgHdr_t + csize stOam_set_req +
    sum_list (map (\<lambda>t. csize OamTlv_t + csize t) oam_values) \<le> 1024"
  by code_simp+

section \<open>The front end\<close>

text \<open>
  What the PC802 library is to this code. A sub-message starts with a header of \<open>px_head\<close> bytes that holds an identifier
  and the size of the body; \<open>px_put\<close> are the bytes of a header after both were assigned, \<open>px_size\<close> reads the size from
  the memory of a sub-message. \<open>px_send\<close> is what \<open>sendto\<close> returns for a datagram to a peer.
\<close>

record 'p pcxx =
  px_head :: nat
  px_put :: "u16 \<Rightarrow> u64 \<Rightarrow> u8 list"
  px_size :: "u8 list \<Rightarrow> nat"
  px_send :: "'p \<Rightarrow> u8 list \<Rightarrow> int"

text \<open>The size is kept in an unsigned field of some width, and reading it gives what was assigned to it.\<close>

definition pcxx_ok :: "'p pcxx \<Rightarrow> bool" where
  "pcxx_ok px \<longleftrightarrow> (\<forall>i n. length (px_put px i n) = px_head px) \<and>
     (\<exists>w \<in> {16, 32, 64}. \<forall>i n body. px_size px (px_put px i n @ body) = take_bit w (unat n))"

datatype OamMessageType_e = PICO_OAM_MSG | PICO_P19_MSG | PICO_DEBUG_MSG

datatype e_pfi_p19_type = P19_REQ | P19_RSP

fun p19_id :: "e_pfi_p19_type \<Rightarrow> u16" where
  "p19_id P19_REQ = 0"
| "p19_id P19_RSP = 1"

text \<open>
  The state: whether the socket is open and the two handlers registered, the address of the peer, the datagrams sent, and
  the sub-messages given to the library with the kind they were sent as; each is the whole buffer of 2048 bytes.
\<close>

record 'p oam =
  om_open :: bool
  om_client :: 'p
  om_udp :: "('p \<times> u8 list) list"
  om_phy :: "(OamMessageType_e \<times> u8 list) list"

definition OAM_MSG_MAX_LEN :: nat where
  "OAM_MSG_MAX_LEN = 2048"

definition OAM_FAIL :: int where
  "OAM_FAIL = - 1"

definition oamSendAppRsp :: "'p pcxx \<Rightarrow> OamMessageType_e \<Rightarrow> u8 list \<Rightarrow> u16 \<Rightarrow> 'p oam \<Rightarrow> (int \<times> 'p oam) res" where
  "oamSendAppRsp px msgType pMsg msgSize s =
     rbind (guard (unat msgSize \<le> length pMsg) OutOfRange) (\<lambda>_.
     let d = take (unat msgSize) pMsg; r = px_send px (om_client s) d;
         s' = (if r < 0 then s else s\<lparr>om_udp := om_udp s @ [(om_client s, d)]\<rparr>)
     in Inr (if (of_int r :: u32) \<noteq> ucast msgSize then OAM_FAIL else 0, s'))"

text \<open>The answers of the library: \<open>m\<close> is the memory of the first sub-message.\<close>

definition p19_config_rsp :: "'p pcxx \<Rightarrow> u8 list \<Rightarrow> 'p oam \<Rightarrow> 'p oam res" where
  "p19_config_rsp px m s =
     (let pHdr = px_head px + csize FEUMsgHdr_t in
      rbind (fld32 m pHdr FEUGeneralMsgHdr_t ''msgSize'') (\<lambda>msgSize.
      rbind (oamSendAppRsp px PICO_P19_MSG (drop pHdr m) (ucast msgSize) s) (\<lambda>(r, s'). Inr s')))"

definition oam_config_rsp :: "'p pcxx \<Rightarrow> u8 list \<Rightarrow> 'p oam \<Rightarrow> 'p oam res" where
  "oam_config_rsp px m s =
     rbind (oamSendAppRsp px PICO_OAM_MSG m (of_nat (px_size px m + px_head px)) s) (\<lambda>(r, s'). Inr s')"

text \<open>
  A request is copied behind the header of a sub-message in a zeroed buffer; the library sends it, and what it
  answers is only printed.
\<close>

definition p19_config_req :: "'p pcxx \<Rightarrow> u8 list \<Rightarrow> u16 \<Rightarrow> u16 \<Rightarrow> u16 \<Rightarrow> 'p oam \<Rightarrow> 'p oam res" where
  "p19_config_req px pInput msgId msgSize cellid s =
     rbind (wr_block (replicate 2048 0) 0 (px_put px (p19_id P19_REQ) (of_nat (csize FEUMsgHdr_t) + ucast msgSize))) (\<lambda>b.
     rbind (wr_block b (px_head px + offsetof FEUMsgHdr_t ''msgNum'') [1]) (\<lambda>b.
     rbind (wr_block b (px_head px + offsetof FEUMsgHdr_t ''opaque'') [ucast cellid]) (\<lambda>b.
     rbind (guard (unat msgSize \<le> length pInput) OutOfRange) (\<lambda>_.
     rbind (wr_block b (px_head px + csize FEUMsgHdr_t) (take (unat msgSize) pInput)) (\<lambda>b.
       Inr (s\<lparr>om_phy := om_phy s @ [(PICO_P19_MSG, b)]\<rparr>))))))"

definition oam_config_req :: "'p pcxx \<Rightarrow> u8 list \<Rightarrow> u16 \<Rightarrow> u16 \<Rightarrow> u8 \<Rightarrow> 'p oam \<Rightarrow> 'p oam res" where
  "oam_config_req px pTlv msgId msgSize cellid s =
     rbind (wr_block (replicate 2048 0) 0 (px_put px msgId (ucast msgSize - of_nat (csize FEUGeneralMsgHdr_t)))) (\<lambda>b.
     let n = px_size px b; src = drop (csize FEUGeneralMsgHdr_t) pTlv in
     rbind (if msgSize \<noteq> 0
            then rbind (guard (n \<le> length src) OutOfRange) (\<lambda>_. wr_block b (px_head px) (take n src))
            else Inr b) (\<lambda>b.
       Inr (s\<lparr>om_phy := om_phy s @ [(PICO_OAM_MSG, b)]\<rparr>)))"

definition feu_requests :: "u16 set" where
  "feu_requests = feu_id ` {FEU_FAPI_PARAM_REQUEST, FEU_FAPI_CONFIG_REQUEST, FEU_FAPI_START_REQUEST,
     FEU_FAPI_DFE_CONFIG_REQUEST, FEU_FAPI_STOP_REQUEST}"

definition oam_requests :: "u16 set" where
  "oam_requests = {oam_phy_id PC802_TEMP_GET_REQ, ecpri_id ECPRI_GET_REQ, ecpri_id ECPRI_SET_REQ,
     ecpri_id ECPRI_TEST_NTFY, ecpri_id ECPRI_ERR_IND}"

text \<open>The length of the datagram is an argument that is not used.\<close>

definition oamConfigMsgDec :: "'p pcxx \<Rightarrow> u8 list \<Rightarrow> nat \<Rightarrow> 'p oam \<Rightarrow> (int \<times> 'p oam) res" where
  "oamConfigMsgDec px pRecvMsg msgSize s =
     rbind (fld16 pRecvMsg 0 FEUGeneralMsgHdr_t ''msgId'') (\<lambda>i.
     rbind (fld32 pRecvMsg 0 FEUGeneralMsgHdr_t ''msgSize'') (\<lambda>n.
     rbind (fld16 pRecvMsg 0 FEUGeneralMsgHdr_t ''cellid'') (\<lambda>cell.
     if i \<in> feu_requests then rbind (p19_config_req px pRecvMsg i (ucast n) cell s) (\<lambda>s'. Inr (0, s'))
     else if i \<in> oam_requests then rbind (oam_config_req px pRecvMsg i (ucast n) 0 s) (\<lambda>s'. Inr (0, s'))
     else Inr (OAM_FAIL, s))))"

text \<open>
  One poll of the socket. \<open>up\<close>: whether a socket can be opened and bound to its port, with the address that is configured
  for the peer; \<open>datagram\<close>: what \<open>recvfrom\<close> delivers, with its sender; \<open>junk\<close>: what the buffer on the stack held before.
  \<open>None\<close> is the end of the program.
\<close>

definition oamRecvAppMsg ::
    "'p pcxx \<Rightarrow> 'p option \<Rightarrow> ('p \<times> u8 list) option \<Rightarrow> u8 list \<Rightarrow> 'p oam \<Rightarrow> 'p oam option res" where
  "oamRecvAppMsg px up datagram junk s =
     (case (if om_open s then Some s else map_option (\<lambda>p. s\<lparr>om_open := True, om_client := p\<rparr>) up) of
        None \<Rightarrow> Inr None
      | Some s \<Rightarrow>
          (case datagram of
             None \<Rightarrow> Inr (Some s)
           | Some (p, d) \<Rightarrow>
               let s = s\<lparr>om_client := p\<rparr>; got = take OAM_MSG_MAX_LEN d in
               if got = [] then Inr (Some s)
               else rbind (wr_block junk 0 got) (\<lambda>recvBuf.
                    rbind (oamConfigMsgDec px recvBuf (length got) s) (\<lambda>(r, s'). Inr (Some s')))))"

section \<open>The requests\<close>

lemma feu_layout [simp]:
  "csize FEUMsgHdr_t = 4" "csize FEUGeneralMsgHdr_t = 8"
  "offsetof FEUMsgHdr_t ''msgNum'' = 0" "offsetof FEUMsgHdr_t ''opaque'' = 1"
  "offsetof FEUGeneralMsgHdr_t ''msgId'' = 0" "offsetof FEUGeneralMsgHdr_t ''cellid'' = 2"
  "offsetof FEUGeneralMsgHdr_t ''msgSize'' = 4"
  by code_simp+

lemma wr_block_append: "length xs = k \<Longrightarrow> wr_block (xs @ ys) k zs =
    (if length zs \<le> length ys then Inr (xs @ zs @ drop (length zs) ys) else Inl OutOfRange)"
  by (auto simp: wr_block_def overlay_def)

lemma wr_block_start: "wr_block ys 0 zs = (if length zs \<le> length ys then Inr (zs @ drop (length zs) ys) else Inl OutOfRange)"
  using wr_block_append [of "[]" 0 ys zs] by simp

lemma unat_ucast_u16_u64: "unat (ucast (w :: u16) :: u64) = unat w"
  using unat_u16_lt [of w] by (simp add: unsigned_ucast_eq take_bit_nat_eq_self)

text \<open>A message with its general header.\<close>

definition feu_msg :: "u16 \<Rightarrow> u16 \<Rightarrow> u32 \<Rightarrow> u8 list \<Rightarrow> u8 list" where
  "feu_msg i cell n body = bytes_of_u16 i @ bytes_of_u16 cell @ bytes_of_u32 n @ body"

lemma length_feu_msg [simp]: "length (feu_msg i cell n body) = 8 + length body"
  by (simp add: feu_msg_def)

lemma feu_msg_fields [simp]:
  "rd_u16 (feu_msg i cell n body) 0 = Inr i" "rd_u16 (feu_msg i cell n body) 2 = Inr cell"
  "rd_u32 (feu_msg i cell n body) 4 = Inr n"
  using rd_u16_bytes [of "[]" 0 i] rd_u16_bytes [of "bytes_of_u16 i" 2 cell]
    rd_u32_bytes [of "bytes_of_u16 i @ bytes_of_u16 cell" 4 n]
  by (simp_all add: feu_msg_def)

lemma oamConfigMsgDec_msg:
  "oamConfigMsgDec px (feu_msg i cell n body) len s =
    (if i \<in> feu_requests
     then rbind (p19_config_req px (feu_msg i cell n body) i (ucast n) cell s) (\<lambda>s'. Inr (0, s'))
     else if i \<in> oam_requests
     then rbind (oam_config_req px (feu_msg i cell n body) i (ucast n) 0 s) (\<lambda>s'. Inr (0, s'))
     else Inr (- 1, s))"
  by (simp only: oamConfigMsgDec_def fld16_def fld32_def feu_layout add_0 feu_msg_fields rbind.simps OAM_FAIL_def)

lemma unat_neg: "unat (- k :: u64) = 2 ^ 64 - unat k" if k: "k \<noteq> 0"
proof -
  have z: "(unat (- k) + unat k) mod 2 ^ 64 = 0" using unat_word_ariths(1) [of "- k" k] by simp
  have b: "unat (- k) < 2 ^ 64" "0 < unat k" "unat k < 2 ^ 64"
    using k unsigned_less [of "- k"] unsigned_less [of k] by (simp_all add: unat_gt_0)
  have "2 ^ 64 \<le> unat (- k) + unat k" using z b(2) mod_less [of "unat (- k) + unat k" "2 ^ 64"] by linarith
  then have "(unat (- k) + unat k - 2 ^ 64) mod 2 ^ 64 = 0" using z le_mod_geq by metis
  moreover have "unat (- k) + unat k - 2 ^ 64 < 2 ^ 64" using b by linarith
  ultimately have "unat (- k) + unat k - 2 ^ 64 = 0" using mod_less by metis
  then show ?thesis using \<open>2 ^ 64 \<le> unat (- k) + unat k\<close> by linarith
qed

lemma pcxx_okD:
  assumes "pcxx_ok px"
  shows "length (px_put px i n) = px_head px" "unat n < 65536 \<Longrightarrow> px_size px (px_put px i n @ body) = unat n"
    "unat k \<le> 8 \<Longrightarrow> k \<noteq> 0 \<Longrightarrow> 65000 < px_size px (px_put px i (- k) @ body)"
proof -
  show "length (px_put px i n) = px_head px" using assms by (simp add: pcxx_ok_def)
  obtain w :: nat where w: "w \<in> {16, 32, 64}" "\<And>i n body. px_size px (px_put px i n @ body) = take_bit w (unat n)"
    using assms unfolding pcxx_ok_def by blast
  show "px_size px (px_put px i n @ body) = unat n" if "unat n < 65536"
    using that w by (auto simp: take_bit_nat_eq_self_iff)
  have small: "n \<le> 8 \<Longrightarrow> n \<noteq> 0 \<Longrightarrow> n \<in> {1, 2, 3, 4, 5, 6, 7, 8}" for n :: nat
    by auto
  show "65000 < px_size px (px_put px i (- k) @ body)" if k: "unat k \<le> 8" "k \<noteq> 0"
  proof -
    have "unat (- k) = 2 ^ 64 - unat k" using k(2) by (rule unat_neg)
    moreover have "unat k \<in> {1, 2, 3, 4, 5, 6, 7, 8}" using k(1) small [of "unat k"] k(2) by (simp add: unat_eq_zero)
    ultimately show ?thesis using w by (auto simp: take_bit_eq_mod)
  qed
qed

lemma p19_config_req_eq:
  assumes "pcxx_ok px"
  shows "p19_config_req px buf i m cell s =
    (if px_head px + 4 + unat m \<le> 2048 \<and> unat m \<le> length buf
     then Inr (s\<lparr>om_phy := om_phy s @ [(PICO_P19_MSG, px_put px 0 (4 + ucast m) @ [1, ucast cell, 0, 0] @
            take (unat m) buf @ replicate (2044 - px_head px - unat m) 0)]\<rparr>)
     else Inl OutOfRange)"
proof (cases "px_head px + 4 \<le> 2048")
  case True
  let ?h = "px_put px 0 (4 + ucast m)"
  obtain k where k: "2048 - px_head px = 4 + k" using True by (metis add_leD2 le_add_diff_inverse le_diff_conv2 add.commute)
  have r: "replicate (2048 - px_head px) (0 :: u8) = [0, 0, 0, 0] @ replicate k 0"
    unfolding k by (simp add: numeral_eq_Suc)
  have l: "length ?h = px_head px" using pcxx_okD(1) [OF assms] .
  have "wr_block (replicate 2048 0) 0 ?h = Inr (?h @ [0, 0, 0, 0] @ replicate k 0)"
    using True l r by (simp add: wr_block_start)
  moreover have "wr_block (?h @ [0, 0, 0, 0] @ replicate k 0) (px_head px) [1] = Inr ((?h @ [1]) @ [0, 0, 0] @ replicate k 0)"
    using wr_block_append [OF l, of "[0, 0, 0, 0] @ replicate k 0" "[1]"] by simp
  moreover have "wr_block ((?h @ [1]) @ [0, 0, 0] @ replicate k 0) (px_head px + 1) [ucast cell] =
      Inr ((?h @ [1, ucast cell, 0, 0]) @ replicate k 0)"
    using wr_block_append [of "?h @ [1]" "px_head px + 1" "[0, 0, 0] @ replicate k 0" "[ucast cell]"] l by simp
  moreover have "wr_block ((?h @ [1, ucast cell, 0, 0]) @ replicate k 0) (px_head px + 4) (take (unat m) buf) =
      (if unat m \<le> k then Inr ((?h @ [1, ucast cell, 0, 0]) @ take (unat m) buf @ replicate (k - unat m) 0)
       else Inl OutOfRange)" if "unat m \<le> length buf"
    using wr_block_append [of "?h @ [1, ucast cell, 0, 0]" "px_head px + 4" "replicate k 0" "take (unat m) buf"] l that
    by (simp add: min_absorb2)
  moreover have "2044 - px_head px - unat m = k - unat m" "(px_head px + 4 + unat m \<le> 2048) = (unat m \<le> k)"
    using True k by arith+
  ultimately show ?thesis by (simp add: p19_config_req_def guard_def)
next
  case False
  then show ?thesis
    using pcxx_okD(1) [OF assms] by (auto simp: p19_config_req_def wr_block_start wr_block_def guard_def split: if_splits)
qed

text \<open>A request of OAM: the size of its body is the size announced, less the header.\<close>

lemma oam_config_req_eq:
  assumes "pcxx_ok px" and "length buf = 2048"
  shows "oam_config_req px buf i m cell s =
    (if px_head px \<le> 2048 \<and> (m = 0 \<or> 8 \<le> m \<and> m \<le> 2048 \<and> px_head px + (unat m - 8) \<le> 2048)
     then Inr (s\<lparr>om_phy := om_phy s @ [(PICO_OAM_MSG, px_put px i (ucast m - 8) @ take (unat m - 8) (drop 8 buf) @
            replicate (2048 - px_head px - (unat m - 8)) 0)]\<rparr>)
     else Inl OutOfRange)"
proof -
  let ?h = "px_put px i (ucast m - 8)"
  have l: "length ?h = px_head px" using pcxx_okD(1) [OF assms(1)] .
  have u: "unat (ucast m :: u64) = unat m" by (rule unat_ucast_u16_u64)
  consider (low) "m < 8" "m \<noteq> 0" | (zero) "m = 0" | (high) "8 \<le> m" by fastforce
  then show ?thesis
  proof cases
    case low
    have m8: "unat m < 8" using low(1) by (simp add: word_less_nat_alt)
    have n: "(ucast m - 8 :: u64) = - (8 - ucast m)" by simp
    have "unat (8 - ucast m :: u64) = 8 - unat m" using m8 u by (subst unat_sub) (simp_all add: word_le_nat_alt)
    then have k: "unat (8 - ucast m :: u64) \<le> 8" "(8 - ucast m :: u64) \<noteq> 0" using m8 by (simp, auto)
    have big: "65000 < px_size px (?h @ body)" for body using pcxx_okD(3) [OF assms(1) k] unfolding n by blast
    have big': "\<not> px_size px (?h @ body) \<le> 2040" for body using big [of body] by simp
    have "\<not> 8 \<le> m" using low(1) by simp
    then show ?thesis
      using low(2) big' assms(2) l by (simp add: oam_config_req_def wr_block_start guard_def Let_def)
  next
    case zero
    then show ?thesis using l by (simp add: oam_config_req_def wr_block_start)
  next
    case high
    then have m8: "8 \<le> unat m" by (simp add: word_le_nat_alt)
    have d: "unat (ucast m - 8 :: u64) = unat m - 8" using m8 u by (subst unat_sub) (simp_all add: word_le_nat_alt)
    have "unat m < 65536" using unat_u16_lt [of m] by simp
    then have sz: "px_size px (?h @ body) = unat m - 8" for body
      using pcxx_okD(2) [OF assms(1), of "ucast m - 8"] d by simp
    have "m \<noteq> 0" using high by auto
    then show ?thesis
      using high m8 l assms(2) sz
      by (auto simp: oam_config_req_def wr_block_start wr_block_append guard_def word_le_nat_alt Let_def min_def)
  qed
qed

text \<open>
  C19: Which requests the front end survives. The size that a request announces is never compared with the length of the
  datagram. A request to the FEU is handled exactly when the sub-message it becomes fits the buffer of 2048 bytes; an OAM
  request when it announces no size at all, or at least the 8 bytes of its header and no more than fit; a smaller size
  wraps round to a copy of gigabytes. Every other message is refused and changes nothing.
\<close>

theorem oam_decode_safe:
  assumes "pcxx_ok px" and "length body = 2040"
  shows "let m = unat n mod 65536; survives = (\<exists>r s'. oamConfigMsgDec px (feu_msg i cell n body) len s = Inr (r, s')) in
    if i \<in> feu_requests then survives \<longleftrightarrow> px_head px + 4 + m \<le> 2048
    else if i \<in> oam_requests then
      survives \<longleftrightarrow> px_head px \<le> 2048 \<and> (m = 0 \<or> 8 \<le> m \<and> m \<le> 2048 \<and> px_head px + (m - 8) \<le> 2048)
    else oamConfigMsgDec px (feu_msg i cell n body) len s = Inr (- 1, s)"
proof -
  have l: "length (feu_msg i cell n body) = 2048" using assms(2) by simp
  have u: "unat (ucast n :: u16) = unat n mod 65536" by (simp add: unsigned_ucast_eq take_bit_eq_mod)
  show ?thesis
  proof (cases "i \<in> feu_requests")
    case True
    then show ?thesis
      using assms(2) by (auto simp: oamConfigMsgDec_msg Let_def p19_config_req_eq [OF assms(1)] u)
  next
    case False
    then show ?thesis
      by (auto simp: oamConfigMsgDec_msg Let_def u oam_config_req_eq [OF assms(1) l] word_le_nat_alt word_unat_eq_iff)
  qed
qed

section \<open>A request and its answer\<close>

lemma oam_poll:
  assumes "om_open s \<or> up \<noteq> None" and "d \<noteq> []" and "length d \<le> 2048" and "length junk = 2048"
  shows "\<exists>s0. om_client s0 = p \<and> om_phy s0 = om_phy s \<and> om_udp s0 = om_udp s \<and> om_open s0 \<and>
    oamRecvAppMsg px up (Some (p, d)) junk s =
      rbind (oamConfigMsgDec px (d @ drop (length d) junk) (length d) s0) (\<lambda>(r, s'). Inr (Some s'))"
  using assms
  by (intro exI [of _ "(if om_open s then s else s\<lparr>om_open := True\<rparr>)\<lparr>om_client := p\<rparr>"])
    (auto simp: oamRecvAppMsg_def OAM_MSG_MAX_LEN_def wr_block_start Let_def split: option.split)

text \<open>
  C20: A request to the FEU comes back from a PHY that echoes it. When a complete request arrives, the library gets
  one sub-message that announces 4 bytes more than the request and carries, behind the FEU header, the request byte for
  byte; answered with the same sub-message, the handler sends these bytes to the peer the request came from.
\<close>

theorem feu_request_echoed:
  assumes "pcxx_ok px" and "om_open s \<or> up \<noteq> None" and "length junk = 2048"
    and "i \<in> feu_requests" and "d = feu_msg i cell n body" and "unat n = length d" and "px_head px + 4 + length d \<le> 2048"
    and "px_send px p d = int (length d)"
  shows "\<exists>s1 b s2. oamRecvAppMsg px up (Some (p, d)) junk s = Inr (Some s1) \<and>
    om_phy s1 = om_phy s @ [(PICO_P19_MSG, b)] \<and> px_size px b = 4 + length d \<and>
    take (4 + length d) (drop (px_head px) b) = [1, ucast cell, 0, 0] @ d \<and>
    p19_config_rsp px b s1 = Inr s2 \<and> om_udp s2 = om_udp s @ [(p, d)]"
proof -
  have ld: "length d = 8 + length body" "d \<noteq> []" "length d \<le> 2048"
    using assms(7) length_feu_msg [of i cell n body] unfolding assms(5) by (simp, fastforce, simp)
  have m: "unat (ucast n :: u16) = length d"
    using assms(6) ld(3) by (simp add: unsigned_ucast_eq take_bit_nat_eq_self)
  obtain s0 where s0: "om_client s0 = p" "om_phy s0 = om_phy s" "om_udp s0 = om_udp s" and
    poll: "oamRecvAppMsg px up (Some (p, d)) junk s =
      rbind (oamConfigMsgDec px (d @ drop (length d) junk) (length d) s0) (\<lambda>(r, s'). Inr (Some s'))"
    using oam_poll [OF assms(2) ld(2,3) assms(3)] by blast
  have whole: "d @ drop (length d) junk = feu_msg i cell n (body @ drop (length d) junk)"
    by (simp add: assms(5) feu_msg_def)
  let ?b = "px_put px 0 (4 + ucast (ucast n :: u16)) @ [1, ucast cell, 0, 0] @ d @
      replicate (2044 - px_head px - length d) 0"
  let ?s1 = "s0\<lparr>om_phy := om_phy s0 @ [(PICO_P19_MSG, ?b)]\<rparr>"
  have buf: "take (unat (ucast n :: u16)) (feu_msg i cell n (body @ drop (length d) junk)) = d"
    by (simp add: m whole [symmetric])
  have run: "oamRecvAppMsg px up (Some (p, d)) junk s = Inr (Some ?s1)"
    unfolding poll whole using assms(4,7) buf m ld(1)
    by (simp add: oamConfigMsgDec_msg p19_config_req_eq [OF assms(1)])
  have l: "length (px_put px 0 (4 + ucast (ucast n :: u16))) = px_head px" by (rule pcxx_okD(1) [OF assms(1)])
  have "unat (ucast (ucast n :: u16) :: u64) = length d"
    using m by (simp add: unat_ucast_u16_u64)
  then have "unat (4 + ucast (ucast n :: u16) :: u64) = 4 + length d"
    using ld(3) by (simp add: unat_word_ariths)
  then have size: "px_size px ?b = 4 + length d"
    using pcxx_okD(2) [OF assms(1), of "4 + ucast (ucast n :: u16)"] ld(3) by simp
  have gen: "drop (px_head px + 4) ?b = d @ replicate (2044 - px_head px - length d) 0" using l by simp
  have "fld32 ?b (px_head px + 4) FEUGeneralMsgHdr_t ''msgSize'' = Inr n"
    using rd_u32_bytes [of "px_put px 0 (4 + ucast (ucast n :: u16)) @ [1, ucast cell, 0, 0] @ bytes_of_u16 i @
        bytes_of_u16 cell" "px_head px + 8" n "body @ replicate (2044 - px_head px - length d) 0"] l
    by (simp add: fld32_def assms(5) feu_msg_def add.commute)
  moreover have "(of_int (int (length d)) :: u32) = ucast (ucast n :: u16)" by (simp add: m [symmetric])
  ultimately have ans: "p19_config_rsp px ?b ?s1 = Inr (?s1\<lparr>om_udp := om_udp s0 @ [(p, d)]\<rparr>)"
    using gen l m assms(8) s0 by (simp add: p19_config_rsp_def oamSendAppRsp_def Let_def)
  have body: "take (4 + length d) (drop (px_head px) ?b) = [1, ucast cell, 0, 0] @ d"
    using l by (simp add: eval_nat_numeral)
  have "om_phy ?s1 = om_phy s @ [(PICO_P19_MSG, ?b)]" "om_udp (?s1\<lparr>om_udp := om_udp s0 @ [(p, d)]\<rparr>) = om_udp s @ [(p, d)]"
    using s0 by simp_all
  then show ?thesis using run size body ans by blast
qed

text \<open>A library whose header holds two 16-bit fields.\<close>

definition plain_pcxx :: "nat pcxx" where
  "plain_pcxx = \<lparr>px_head = 4, px_put = (\<lambda>i n. bytes_of_u16 i @ bytes_of_u16 (ucast n)),
     px_size = (\<lambda>m. unat (u16_of_bytes (m ! 2) (m ! 3))), px_send = (\<lambda>p d. int (length d))\<rparr>"

definition oam_idle :: "nat oam" where
  "oam_idle = \<lparr>om_open = False, om_client = 0, om_udp = [], om_phy = []\<rparr>"

lemma plain_pcxx_ok: "pcxx_ok plain_pcxx"
proof -
  have "px_size plain_pcxx (px_put plain_pcxx i n @ body) = take_bit 16 (unat n)" for i n body
  proof -
    have "(px_put plain_pcxx i n @ body) ! 2 = ucast (ucast n :: u16)"
      "(px_put plain_pcxx i n @ body) ! 3 = ucast (drop_bit 8 (ucast n :: u16))"
      by (simp_all add: plain_pcxx_def bytes_of_u16_def nth_append numeral_3_eq_3 numeral_2_eq_2)
    moreover have "px_size plain_pcxx m = unat (u16_of_bytes (m ! 2) (m ! 3))" for m by (simp add: plain_pcxx_def)
    ultimately have "px_size plain_pcxx (px_put plain_pcxx i n @ body) = unat (ucast n :: u16)"
      by (simp only: u16_of_bytes_of_u16)
    then show ?thesis by (simp only: unsigned_ucast_eq) simp
  qed
  then show ?thesis by (auto simp: pcxx_ok_def plain_pcxx_def)
qed

theorem oam_decode_safe_witness:
  "(\<exists>r s'. oamConfigMsgDec plain_pcxx (feu_msg 0x402 0 2040 (replicate 2040 0)) 2048 oam_idle = Inr (r, s')) \<and>
   \<not> (\<exists>r s'. oamConfigMsgDec plain_pcxx (feu_msg 0x402 0 2041 (replicate 2040 0)) 2048 oam_idle = Inr (r, s')) \<and>
   (\<exists>r s'. oamConfigMsgDec plain_pcxx (feu_msg 1002 0 0 (replicate 2040 0)) 2048 oam_idle = Inr (r, s')) \<and>
   \<not> (\<exists>r s'. oamConfigMsgDec plain_pcxx (feu_msg 1002 0 7 (replicate 2040 0)) 2048 oam_idle = Inr (r, s'))"
proof -
  have "px_head plain_pcxx = 4" by (simp add: plain_pcxx_def)
  moreover have "(0x402 :: u16) \<in> feu_requests" "(1002 :: u16) \<notin> feu_requests" "(1002 :: u16) \<in> oam_requests"
    by (simp_all add: feu_requests_def oam_requests_def)
  moreover have "length (replicate 2040 (0 :: u8)) = 2040" by simp
  ultimately show ?thesis
    using oam_decode_safe [OF plain_pcxx_ok, where body = "replicate 2040 0" and i = "0x402" and cell = 0 and n = 2040 and len = 2048 and s = oam_idle]
      oam_decode_safe [OF plain_pcxx_ok, where body = "replicate 2040 0" and i = "0x402" and cell = 0 and n = 2041 and len = 2048 and s = oam_idle]
      oam_decode_safe [OF plain_pcxx_ok, where body = "replicate 2040 0" and i = 1002 and cell = 0 and n = 0 and len = 2048 and s = oam_idle]
      oam_decode_safe [OF plain_pcxx_ok, where body = "replicate 2040 0" and i = 1002 and cell = 0 and n = 7 and len = 2048 and s = oam_idle]
    by (simp add: Let_def)
qed

theorem feu_request_echoed_witness:
  "\<exists>s1 b s2. oamRecvAppMsg plain_pcxx (Some 5) (Some (9, feu_msg 0x407 1 12 [1, 2, 3, 4])) (replicate 2048 0xAA) oam_idle =
      Inr (Some s1) \<and> om_phy s1 = [(PICO_P19_MSG, b)] \<and> p19_config_rsp plain_pcxx b s1 = Inr s2 \<and>
    om_udp s2 = [(9, feu_msg 0x407 1 12 [1, 2, 3, 4])]"
proof -
  have "(0x407 :: u16) \<in> feu_requests" by (simp add: feu_requests_def)
  then show ?thesis
    using feu_request_echoed [OF plain_pcxx_ok, of oam_idle "Some 5" "replicate 2048 0xAA" "0x407"
      "feu_msg 0x407 1 12 [1, 2, 3, 4]" 1 12 "[1, 2, 3, 4]" 9]
    by (auto simp: plain_pcxx_def oam_idle_def)
qed

end
