(* ===== verification/CmmUdp.thy ===== *)
theory CmmUdp
  imports CmmLog
begin

text \<open>
  The UDP sockets of the platform library, \<open>common/src/cmmUdp.c\<close>, and the messages of the Uu monitor in
  \<open>common/src/cmmApiInit.c\<close>. What the calls of the operating system return is given from outside; the state holds
  the configuration of the socket and the descriptors that are open.
\<close>

section \<open>The sockets\<close>

record UdpCfg_s =
  us_fd :: int
  us_rmtPort :: u16
  us_lcPort :: u16
  us_lcIp :: u32
  us_rmtIp :: u32

record sockio =
  so_socket :: int
  so_bind :: int
  so_connect :: int
  so_setsockopt :: int
  so_getfl :: int
  so_setfl :: int

definition setUdpNonblock :: "sockio \<Rightarrow> int" where
  "setUdpNonblock io = (if so_getfl io = - 1 then - 1 else so_setfl io)"

text \<open>\<open>socket\<close> opens a descriptor, or returns a negative number; \<open>close\<close> closes it.\<close>

definition open_socket :: "sockio \<Rightarrow> int list \<Rightarrow> int list" where
  "open_socket io fds = (if so_socket io < 0 then fds else so_socket io # fds)"

definition initUdpConnectedFile :: "sockio \<Rightarrow> UdpCfg_s \<times> int list \<Rightarrow> int \<times> UdpCfg_s \<times> int list" where
  "initUdpConnectedFile io st =
     (case st of (cfg, fds) \<Rightarrow>
      let fd = so_socket io; fds = open_socket io fds in
      if fd < 0 then (fd, cfg\<lparr>us_fd := fd\<rparr>, fds)
      else if so_bind io < 0 then (so_bind io, cfg\<lparr>us_fd := - 1\<rparr>, remove1 fd fds)
      else if so_connect io < 0 then (so_connect io, cfg\<lparr>us_fd := - 1\<rparr>, remove1 fd fds)
      else (so_connect io, cfg\<lparr>us_fd := fd\<rparr>, fds))"

definition initListenBroadCastUdp :: "sockio \<Rightarrow> UdpCfg_s \<times> int list \<Rightarrow> int \<times> UdpCfg_s \<times> int list" where
  "initListenBroadCastUdp io st =
     (case st of (cfg, fds) \<Rightarrow>
      let fd = so_socket io; fds = open_socket io fds in
      if fd \<le> 0 then (fd, cfg\<lparr>us_fd := fd\<rparr>, fds)
      else if so_setsockopt io \<noteq> 0 then (1, cfg\<lparr>us_fd := - 1\<rparr>, remove1 fd fds)
      else (so_bind io, cfg\<lparr>us_fd := fd\<rparr>, fds))"

definition initListenUdpFile :: "sockio \<Rightarrow> UdpCfg_s \<times> int list \<Rightarrow> int \<times> UdpCfg_s \<times> int list" where
  "initListenUdpFile io st =
     (case st of (cfg, fds) \<Rightarrow>
      let fd = so_socket io; fds = open_socket io fds in
      if fd \<le> 0 then (fd, cfg\<lparr>us_fd := fd\<rparr>, fds) else (so_bind io, cfg\<lparr>us_fd := fd\<rparr>, fds))"

text \<open>The result of \<open>setUdpNonblock\<close> is not looked at.\<close>

definition initZbcListenUdpFile :: "sockio \<Rightarrow> UdpCfg_s \<times> int list \<Rightarrow> int \<times> UdpCfg_s \<times> int list" where
  "initZbcListenUdpFile io st =
     (case st of (cfg, fds) \<Rightarrow>
      let fd = so_socket io; fds = open_socket io fds in
      if fd \<le> 0 then (fd, cfg\<lparr>us_fd := fd\<rparr>, fds)
      else (case setUdpNonblock io of r \<Rightarrow> (so_bind io, cfg\<lparr>us_fd := fd\<rparr>, fds)))"

text \<open>
  A datagram is the address and the port of its sender with its data. The first one fixes the peer when none
  is configured; the socket is then connected, which has no effect the code can see.
\<close>

definition receiveCheckUdp :: "(u32 \<times> u16 \<times> u8 list) option \<Rightarrow> nat \<Rightarrow> UdpCfg_s \<Rightarrow> int \<times> UdpCfg_s" where
  "receiveCheckUdp datagram bufLen cfg =
     (case datagram of
        None \<Rightarrow> (- 1, cfg)
      | Some (ip, port, d) \<Rightarrow>
          let revLen = int (length (take bufLen d)) in
          if revLen \<le> 0 then (- 1, cfg)
          else if us_rmtIp cfg = 0 then (revLen, cfg\<lparr>us_rmtIp := ip, us_rmtPort := port\<rparr>)
          else if us_rmtIp cfg \<noteq> ip then (- 1, cfg)
          else (revLen, cfg))"

section \<open>The Uu monitor\<close>

record UuMonMsg_s =
  um_msgIdx :: u32
  um_objIdx :: u32
  um_itemCnt :: u32
  um_item :: "u32 list"

text \<open>
  \<open>uuMonUdp\<close> with the descriptors and the messages written. \<open>aton\<close> is \<open>inet_aton\<close>, which leaves the address
  alone when the text is none. A message is written whether the socket could be opened or not.
\<close>

definition sendUuMonMsg :: "(string \<Rightarrow> u32 option) \<Rightarrow> sockio \<Rightarrow> PlatformCfg_s \<Rightarrow> UuMonMsg_s \<Rightarrow>
    UdpCfg_s \<times> int list \<times> UuMonMsg_s list \<Rightarrow> UdpCfg_s \<times> int list \<times> UuMonMsg_s list" where
  "sendUuMonMsg aton io p msg st =
     (case st of (cfg, fds, out) \<Rightarrow>
      let mon = pc_monSvrIp p in
      if tc_type mon \<noteq> TRACE_UDP then st
      else
        let (cfg, fds) = (if us_fd cfg < 0
            then snd (initUdpConnectedFile io (cfg\<lparr>us_rmtIp := (case aton (tc_str mon) of None \<Rightarrow> us_rmtIp cfg | Some ip \<Rightarrow> ip),
                   us_rmtPort := tc_port mon, us_lcPort := tc_port mon + 1\<rparr>, fds))
            else (cfg, fds))
        in (cfg, fds, if us_fd cfg \<in> set fds then out @ [msg] else out))"

section \<open>What is open and who is heard\<close>

text \<open>
  A connected socket is either open and in the configuration, or nothing is left behind. A listening socket that
  cannot be bound stays open, and one whose option cannot be set is reported with a positive number.
\<close>

lemma connected_or_closed:
  "initUdpConnectedFile io (cfg, fds) = (r, cfg', fds') \<Longrightarrow>
    if r < 0 then us_fd cfg' < 0 \<and> fds' = fds else us_fd cfg' = so_socket io \<and> fds' = us_fd cfg' # fds"
  by (auto simp: initUdpConnectedFile_def open_socket_def Let_def split: if_splits)

lemma listen_stays_open:
  assumes "0 < so_socket io" and "so_bind io < 0"
  shows "initListenUdpFile io (cfg, fds) = (so_bind io, cfg\<lparr>us_fd := so_socket io\<rparr>, so_socket io # fds)"
  using assms by (simp add: initListenUdpFile_def open_socket_def Let_def)

lemma broadcast_positive:
  assumes "0 < so_socket io" and "so_setsockopt io \<noteq> 0"
  shows "initListenBroadCastUdp io (cfg, fds) = (1, cfg\<lparr>us_fd := - 1\<rparr>, fds)"
  using assms by (simp add: initListenBroadCastUdp_def open_socket_def Let_def)

fun receive_all :: "nat \<Rightarrow> (u32 \<times> u16 \<times> u8 list) list \<Rightarrow> UdpCfg_s \<Rightarrow> int list \<times> UdpCfg_s" where
  "receive_all bufLen [] cfg = ([], cfg)"
| "receive_all bufLen (x # xs) cfg =
     (case receiveCheckUdp (Some x) bufLen cfg of (r, cfg') \<Rightarrow>
      case receive_all bufLen xs cfg' of (rs, cfg'') \<Rightarrow> (r # rs, cfg''))"

definition heard :: "nat \<Rightarrow> u32 \<Rightarrow> u32 \<times> u16 \<times> u8 list \<Rightarrow> int" where
  "heard bufLen peer x = (case x of (ip, port, d) \<Rightarrow> if ip = peer \<and> take bufLen d \<noteq> [] then int (length (take bufLen d)) else - 1)"

lemma known_peer:
  "us_rmtIp cfg = peer \<Longrightarrow> peer \<noteq> 0 \<Longrightarrow> receive_all bufLen xs cfg = (map (heard bufLen peer) xs, cfg)"
  by (induction xs) (auto simp: receiveCheckUdp_def heard_def Let_def min_def split: prod.split if_splits)

text \<open>
  A socket without a configured peer listens to one peer only. Empty datagrams aside, the first sender
  becomes the peer; from then on exactly the datagrams from its address are accepted, with their length, and all others
  are answered with -1.
\<close>

theorem first_sender_is_heard:
  assumes "us_rmtIp cfg = 0" and "ip \<noteq> 0" and "take bufLen d \<noteq> []" and "\<forall>(i, p, e) \<in> set pre. take bufLen e = []"
  shows "receive_all bufLen (pre @ (ip, port, d) # xs) cfg =
    (map (heard bufLen ip) (pre @ (ip, port, d) # xs), cfg\<lparr>us_rmtIp := ip, us_rmtPort := port\<rparr>)"
  using assms(4)
proof (induction pre)
  case Nil
  have "receiveCheckUdp (Some (ip, port, d)) bufLen cfg =
      (int (length (take bufLen d)), cfg\<lparr>us_rmtIp := ip, us_rmtPort := port\<rparr>)"
    using assms(1,3) by (simp add: receiveCheckUdp_def Let_def)
  moreover have "receive_all bufLen xs (cfg\<lparr>us_rmtIp := ip, us_rmtPort := port\<rparr>) =
      (map (heard bufLen ip) xs, cfg\<lparr>us_rmtIp := ip, us_rmtPort := port\<rparr>)"
    using known_peer [of "cfg\<lparr>us_rmtIp := ip, us_rmtPort := port\<rparr>" ip bufLen xs] assms(2) by simp
  ultimately show ?case using assms(3) by (simp add: heard_def)
next
  case (Cons x pre)
  obtain i p e where x: "x = (i, p, e)" by (cases x)
  then have e: "take bufLen e = []" using Cons.prems by simp
  then have "receiveCheckUdp (Some x) bufLen cfg = (- 1, cfg)" by (auto simp: x receiveCheckUdp_def Let_def)
  moreover have "heard bufLen ip x = - 1" using e by (simp add: x heard_def)
  ultimately show ?case using Cons by simp
qed

theorem first_sender_is_heard_witness:
  "fst (receive_all 100 [(7, 1, []), (5, 2, [1, 2, 3]), (7, 1, [9]), (5, 3, [4])]
     \<lparr>us_fd = 3, us_rmtPort = 0, us_lcPort = 8, us_lcIp = 0, us_rmtIp = 0\<rparr>) = [- 1, 3, - 1, 1]"
  using first_sender_is_heard [of "\<lparr>us_fd = 3, us_rmtPort = 0, us_lcPort = 8, us_lcIp = 0, us_rmtIp = 0\<rparr>" 5 100
    "[1, 2, 3]" "[(7, 1, [])]" 2 "[(7, 1, [9]), (5, 3, [4])]"]
  by (simp add: heard_def)

end
