(* ===== verification/CmmZlog.thy ===== *)
theory CmmZlog
  imports CString
begin

text \<open>
  The front of the zlog library in \<open>common/src/cmm_zlog.c\<close>: the three categories and the dump of data as text. The
  library itself is not modelled: what its calls return is given from outside.
\<close>

section \<open>The categories\<close>

datatype LOGCat_e = LOG_CMM | LOG_APP | LOG_MAC | LOG_MAX

record 'z logCatInfo_s =
  lc_type :: LOGCat_e
  lc_catName :: string
  lc_zc :: "'z option"

definition sLogCatInfo0 :: "'z logCatInfo_s list" where
  "sLogCatInfo0 = [\<lparr>lc_type = LOG_CMM, lc_catName = ''cmm'', lc_zc = None\<rparr>,
     \<lparr>lc_type = LOG_APP, lc_catName = ''app'', lc_zc = None\<rparr>,
     \<lparr>lc_type = LOG_MAC, lc_catName = ''mac'', lc_zc = None\<rparr>,
     \<lparr>lc_type = LOG_MAX, lc_catName = '''', lc_zc = None\<rparr>]"

text \<open>The loop stops at the first category the library does not have; the ones before it stay.\<close>

fun load_cats :: "(string \<Rightarrow> 'z option) \<Rightarrow> nat \<Rightarrow> nat \<Rightarrow> 'z logCatInfo_s list \<Rightarrow> (bool \<times> 'z logCatInfo_s list) res" where
  "load_cats getcat i 0 cats = Inr (True, cats)"
| "load_cats getcat i (Suc n) cats =
     rbind (rd cats i) (\<lambda>cat.
     let zc = getcat (lc_catName cat) in
     rbind (wr cats i (cat\<lparr>lc_zc := zc\<rparr>)) (\<lambda>cats'.
       if zc = None then Inr (False, cats') else load_cats getcat (i + 1) n cats'))"

text \<open>\<open>zlog_init\<close> returns \<open>rc\<close>; the boolean of the result says whether the library is in use afterwards.\<close>

definition cmmLogInit :: "int \<Rightarrow> (string \<Rightarrow> 'z option) \<Rightarrow> 'z logCatInfo_s list \<Rightarrow> (int \<times> bool \<times> 'z logCatInfo_s list) res" where
  "cmmLogInit rc getcat cats =
     (if rc \<noteq> 0 then Inr (- 1, False, cats)
      else rbind (load_cats getcat 0 3 cats) (\<lambda>(ok, cats'). Inr (if ok then 0 else - 2, ok, cats')))"

lemma cmmLogInit_result:
  "\<exists>r on cats. cmmLogInit rc getcat sLogCatInfo0 = Inr (r, on, cats) \<and>
    (r = 0 \<longleftrightarrow> rc = 0 \<and> (\<forall>n \<in> {''cmm'', ''app'', ''mac''}. getcat n \<noteq> None)) \<and>
    (r = 0 \<longrightarrow> map lc_zc cats = [getcat ''cmm'', getcat ''app'', getcat ''mac'', None]) \<and> (on \<longleftrightarrow> r = 0)"
  by (auto simp: cmmLogInit_def sLogCatInfo0_def Let_def numeral_3_eq_3)

section \<open>The dump of data\<close>

text \<open>
  A digit is computed from an \<open>int\<close> and stored into a \<open>char\<close>. The bytes are of type \<open>char\<close>, which is signed on the
  platform: the shift of a byte from 0x80 on gives a negative number.
\<close>

definition trace_digit :: "int \<Rightarrow> char" where
  "trace_digit num = char_of (nat ((if num \<le> 9 then num + 48 else num - 10 + 97) mod 256))"

definition trace_byte :: "u8 \<Rightarrow> string" where
  "trace_byte b = [trace_digit (sint b div 16), trace_digit (uint (b AND 15))]"

definition trace_sep :: "nat \<Rightarrow> string" where
  "trace_sep n = (if n = 0 then replicate 10 CHR '' '' else if n = 8 then '' - '' else '' '')"

definition trace_item :: "nat \<times> u8 \<Rightarrow> string" where
  "trace_item x = (case x of (i, b) \<Rightarrow>
     trace_sep (i mod 16) @ trace_byte b @ (if i mod 16 = 15 then [CHR 0x0A] else []))"

definition trace_text :: "u8 list \<Rightarrow> string" where
  "trace_text bs = concat (map trace_item (enumerate 0 bs)) @ (if length bs mod 16 \<noteq> 0 then [CHR 0x0A] else [])"

text \<open>At most 128 bytes are shown. The text, with the final zero, goes into a buffer of 4096 bytes.\<close>

definition cmmTraceData :: "int \<Rightarrow> u8 list option \<Rightarrow> (int \<times> string option) res" where
  "cmmTraceData len data =
     (if len < 0 then Inr (- 1, None)
      else if len = 0 then Inr (0, None)
      else (case data of
          None \<Rightarrow> Inr (- 1, None)
        | Some d \<Rightarrow>
            let n = nat (if len > 128 then 128 else len); s = trace_text (take n d) in
            rbind (guard (n \<le> length d) OutOfRange) (\<lambda>_.
            rbind (guard (length s < 4096) OutOfRange) (\<lambda>_. Inr (0, Some s)))))"

lemma trace_item_length: "length (trace_item x) \<le> 13"
  by (auto simp: trace_item_def trace_sep_def trace_byte_def split: prod.split)

lemma trace_items_length: "length (concat (map trace_item xs)) \<le> 13 * length xs"
  by (induction xs) (use trace_item_length in \<open>auto intro: add_mono\<close>)

lemma trace_text_length: "length (trace_text bs) \<le> 13 * length bs + 1"
  using trace_items_length [of "enumerate 0 bs"] by (simp add: trace_text_def)

text \<open>The dump never fails on data that is there, and below 0x80 a byte is shown as its two hexadecimal digits.\<close>

lemma trace_data_runs:
  assumes "0 < len" and "nat len \<le> length d"
  shows "cmmTraceData len (Some d) = Inr (0, Some (trace_text (take (min 128 (nat len)) d)))"
proof -
  let ?n = "nat (if len > 128 then 128 else len)"
  have n: "?n = min 128 (nat len)" by auto
  have "length (trace_text (take ?n d)) \<le> 13 * 128 + 1"
    using trace_text_length [of "take ?n d"] unfolding n by simp
  moreover have "?n \<le> length d" using assms by auto
  ultimately show ?thesis using assms(1) unfolding cmmTraceData_def Let_def n by simp
qed

lemma trace_byte_high: "map trace_byte [0x80, 0x9F, 0xFF] = [''(0'', '')f'', ''/f'']"
  by code_simp

lemma trace_byte_low: "map trace_byte [0x00, 0x3C, 0x7F] = [''00'', ''3c'', ''7f'']"
  by code_simp

end
