(* ===== verification/CmmThread.thy ===== *)
theory CmmThread
  imports CString "HOL-Library.Signed_Division"
begin

text \<open>
  The thread wrappers of \<open>common/src/cmm_thread.c\<close> and the start of the trace thread in \<open>mac/src/macTrace.c\<close>. A thread
  is known by a handle, a block on the heap that the creator gets and the thread receives as its argument. The POSIX
  threads and the allocator are parameters; the state is what they keep: the handles in use, the thread attributes that
  are initialised, the threads that run with their arguments, and those of them that were asked to end.
\<close>

section \<open>The wrappers\<close>

record Thread_s =
  th_Tid :: u64
  th_UsrArg :: addr
  th_szName :: string

record procs =
  pr_heap :: "addr \<Rightarrow> Thread_s option"
  pr_attrs :: nat
  pr_run :: "(u64 \<times> addr) list"
  pr_cancel :: "u64 list"

text \<open>
  What the library answers: the address of a new block with what it holds (0 when there is no memory), the results of the
  calls, and of the creation with the number of the new thread.
\<close>

record pthreads =
  pl_malloc :: "(addr \<Rightarrow> Thread_s option) \<Rightarrow> addr \<times> Thread_s"
  pl_init :: int
  pl_setinheritsched :: int
  pl_setschedpolicy :: int
  pl_setstacksize :: "u32 \<Rightarrow> int"
  pl_setschedparam :: "u32 \<Rightarrow> int"
  pl_setdetachstate :: int
  pl_create :: "int \<times> u64"

definition ThreadGetUsrArg :: "addr \<Rightarrow> procs \<Rightarrow> addr res" where
  "ThreadGetUsrArg p s = (case pr_heap s p of None \<Rightarrow> Inl Undefined | Some h \<Rightarrow> Inr (th_UsrArg h))"

text \<open>The attributes are set one after the other; \<open>rt\<close> is the build with \<open>_RT_SUPPORT\<close>.\<close>

definition attr_calls :: "bool \<Rightarrow> pthreads \<Rightarrow> u32 \<Rightarrow> u32 \<Rightarrow> int list" where
  "attr_calls rt lib prior stack =
     (if rt then [pl_setinheritsched lib, pl_setschedpolicy lib, pl_setstacksize lib stack, pl_setschedparam lib prior,
        pl_setdetachstate lib]
      else [pl_setinheritsched lib, pl_setstacksize lib stack, pl_setdetachstate lib])"

definition first_error :: "int list \<Rightarrow> int" where
  "first_error rs = (case dropWhile (\<lambda>r. r = 0) rs of [] \<Rightarrow> 0 | r # _ \<Rightarrow> r)"

text \<open>
  The label \<open>ERR\<close>, reached with an error: the attributes are destroyed, which is undefined when they were never
  initialised, and the handle is freed.
\<close>

definition thread_err :: "bool \<Rightarrow> addr \<Rightarrow> procs \<Rightarrow> (addr \<times> procs) res" where
  "thread_err inited p s =
     rbind (guard inited Undefined) (\<lambda>_. Inr (0, s\<lparr>pr_attrs := pr_attrs s - 1, pr_heap := (pr_heap s)(p := None)\<rparr>))"

definition start_thread :: "pthreads \<Rightarrow> bool \<Rightarrow> string \<Rightarrow> addr \<Rightarrow> u32 \<Rightarrow> u32 \<Rightarrow> procs \<Rightarrow> (addr \<times> procs) res" where
  "start_thread lib rt szName UsrArg prior nStackSize s =
     (case pl_malloc lib (pr_heap s) of (p, junk) \<Rightarrow>
      if p = 0 then Inr (0, s)
      else rbind (c_strcpy (th_szName junk) szName) (\<lambda>name.
        let h = junk\<lparr>th_UsrArg := UsrArg, th_szName := name\<rparr>; s = s\<lparr>pr_heap := (pr_heap s)(p \<mapsto> h)\<rparr> in
        if pl_init lib \<noteq> 0 then thread_err False p s
        else
          let s = s\<lparr>pr_attrs := pr_attrs s + 1\<rparr> in
          if first_error (attr_calls rt lib prior nStackSize) \<noteq> 0 then thread_err True p s
          else case pl_create lib of (err, tid) \<Rightarrow>
            if err \<noteq> 0 then thread_err True p s
            else Inr (p, s\<lparr>pr_heap := (pr_heap s)(p \<mapsto> h\<lparr>th_Tid := tid\<rparr>), pr_run := pr_run s @ [(tid, p)]\<rparr>)))"

text \<open>The debug output after the creation reads the handle again.\<close>

definition report_thread :: "addr \<Rightarrow> procs \<Rightarrow> unit res" where
  "report_thread p s = guard (pr_heap s p \<noteq> None) Undefined"

definition cmm_threadCreate :: "pthreads \<Rightarrow> bool \<Rightarrow> string \<Rightarrow> addr \<Rightarrow> u32 \<Rightarrow> u32 \<Rightarrow> procs \<Rightarrow> (addr \<times> procs) res" where
  "cmm_threadCreate lib rt szName UsrArg prior nStackSize s =
     rbind (start_thread lib rt szName UsrArg prior nStackSize s) (\<lambda>(p, s).
     rbind (if p \<noteq> 0 then report_thread p s else Inr ()) (\<lambda>_. Inr (p, s)))"

text \<open>\<open>self\<close> is the thread that calls; it does not return.\<close>

definition cmm_threadExit :: "u64 \<Rightarrow> addr \<Rightarrow> procs \<Rightarrow> procs res" where
  "cmm_threadExit self p s =
     rbind (guard (p \<noteq> 0) AssertFail) (\<lambda>_.
     rbind (report_thread p s) (\<lambda>_.
       Inr (s\<lparr>pr_heap := (pr_heap s)(p := None), pr_run := filter (\<lambda>x. fst x \<noteq> self) (pr_run s)\<rparr>)))"

text \<open>A thread that is cancelled runs on to its next cancellation point; to cancel one that has ended is undefined.\<close>

definition cmm_threadCancel :: "addr \<Rightarrow> procs \<Rightarrow> procs res" where
  "cmm_threadCancel p s =
     rbind (guard (p \<noteq> 0) AssertFail) (\<lambda>_.
     case pr_heap s p of
       None \<Rightarrow> Inl Undefined
     | Some h \<Rightarrow>
         rbind (guard (th_Tid h \<in> fst ` set (pr_run s)) Undefined) (\<lambda>_.
           Inr (s\<lparr>pr_heap := (pr_heap s)(p := None), pr_cancel := th_Tid h # pr_cancel s\<rparr>)))"

text \<open>The delay handed to \<open>select\<close>, in seconds and microseconds; the division of C rounds towards 0.\<close>

definition cmm_threadSleep :: "int \<Rightarrow> int \<times> int" where
  "cmm_threadSleep mSDelay = (let sec = mSDelay sdiv 1000 in (sec, mSDelay - 1000 * sec))"

definition startPhyTraceThread :: "pthreads \<Rightarrow> bool \<Rightarrow> bool \<Rightarrow> procs \<Rightarrow> (bool \<times> procs) res" where
  "startPhyTraceThread lib rt udp s =
     (if udp then rbind (cmm_threadCreate lib rt ''phyTraceThread'' 0 55 0x100000 s) (\<lambda>(p, s). Inr (p \<noteq> 0, s))
      else Inr (True, s))"

definition openL1Trace :: "pthreads \<Rightarrow> bool \<Rightarrow> bool \<Rightarrow> procs \<Rightarrow> (int \<times> procs) res" where
  "openL1Trace lib rt udp s = rbind (startPhyTraceThread lib rt udp s) (\<lambda>(_, s). Inr (0, s))"

section \<open>What the calls do\<close>

lemma first_error_0: "first_error rs = 0 \<longleftrightarrow> (\<forall>r \<in> set rs. r = 0)"
  by (induction rs) (auto simp: first_error_def)

text \<open>
  A block from the allocator is new and an object of its type; a number is not given to two running threads.
\<close>

definition lib_fresh :: "pthreads \<Rightarrow> procs \<Rightarrow> bool" where
  "lib_fresh lib s \<longleftrightarrow> (case pl_malloc lib (pr_heap s) of (p, junk) \<Rightarrow>
     pr_heap s p = None \<and> length (th_szName junk) = 64) \<and> snd (pl_create lib) \<notin> fst ` set (pr_run s)"

text \<open>The creation fails without a trace, or there is a new thread with a handle of its own.\<close>

lemma cmm_threadCreate_result:
  assumes "lib_fresh lib s" and "length name < 64" and "pl_init lib = 0"
  shows "cmm_threadCreate lib rt name arg prior stack s =
    (case pl_malloc lib (pr_heap s) of (p, junk) \<Rightarrow>
       if p = 0 \<or> (\<exists>r \<in> set (attr_calls rt lib prior stack). r \<noteq> 0) \<or> fst (pl_create lib) \<noteq> 0 then Inr (0, s)
       else Inr (p, s\<lparr>pr_attrs := pr_attrs s + 1,
         pr_heap := (pr_heap s)(p \<mapsto> junk\<lparr>th_UsrArg := arg, th_szName := overlay (th_szName junk) 0 (name @ [CHR 0x00]),
           th_Tid := snd (pl_create lib)\<rparr>),
         pr_run := pr_run s @ [(snd (pl_create lib), p)]\<rparr>))"
proof -
  obtain p junk where m: "pl_malloc lib (pr_heap s) = (p, junk)" by (cases "pl_malloc lib (pr_heap s)")
  have c: "c_strcpy (th_szName junk) name = Inr (overlay (th_szName junk) 0 (name @ [CHR 0x00]))" "pr_heap s p = None"
    using assms(1,2) m by (auto simp: lib_fresh_def c_strcpy_def)
  have gone: "(pr_heap s)(p := None) = pr_heap s" using c(2) by auto
  show ?thesis
    using assms(3) first_error_0 [of "attr_calls rt lib prior stack"]
    by (auto simp: cmm_threadCreate_def start_thread_def m c(1) thread_err_def report_thread_def Let_def gone
        split: prod.split)
qed

text \<open>
  The creator reads the handle after the thread was started: when the thread was faster and has ended, the handle is gone.
\<close>

lemma early_exit_races:
  assumes "start_thread lib rt name arg prior stack s = Inr (p, s1)" and "p \<noteq> 0" and "cmm_threadExit t p s1 = Inr s2"
  shows "report_thread p s2 = Inl Undefined"
  using assms(3) by (auto simp: cmm_threadExit_def report_thread_def rbind_Inr_iff)

text \<open>The part of a delay below a second is taken as microseconds.\<close>

lemma sleep_too_short:
  assumes "0 \<le> ms" and "cmm_threadSleep ms = (sec, usec)"
  shows "sec * 1000000 + usec = 1000 * ms - 999 * (ms mod 1000)"
proof -
  have "sec = ms div 1000" "usec = ms - 1000 * (ms div 1000)"
    using assms by (auto simp: cmm_threadSleep_def Let_def signed_divide_int_def sgn_if)
  then show ?thesis by (simp add: minus_mult_div_eq_mod [symmetric])
qed

section \<open>Handles and threads\<close>

text \<open>
  A process whose threads keep the contract of the handles: a thread ends by the exit function with the handle it was
  given, unless it was cancelled, and a thread is cancelled by its handle while that is in use.
\<close>

inductive th_step :: "procs \<Rightarrow> procs \<Rightarrow> bool" where
  create: "lib_fresh lib s \<Longrightarrow> cmm_threadCreate lib rt name arg prior stack s = Inr (p, s') \<Longrightarrow> th_step s s'"
| leave: "(t, p) \<in> set (pr_run s) \<Longrightarrow> t \<notin> set (pr_cancel s) \<Longrightarrow> cmm_threadExit t p s = Inr s' \<Longrightarrow> th_step s s'"
| cancel: "cmm_threadCancel p s = Inr s' \<Longrightarrow> th_step s s'"
| cancelled: "t \<in> set (pr_cancel s) \<Longrightarrow>
     th_step s (s\<lparr>pr_run := filter (\<lambda>x. fst x \<noteq> t) (pr_run s), pr_cancel := removeAll t (pr_cancel s)\<rparr>)"

definition live :: "procs \<Rightarrow> (u64 \<times> addr) list" where
  "live s = filter (\<lambda>x. fst x \<notin> set (pr_cancel s)) (pr_run s)"

definition procs0 :: procs where
  "procs0 = \<lparr>pr_heap = \<lambda>_. None, pr_attrs = 0, pr_run = [], pr_cancel = []\<rparr>"

definition procs_ok :: "procs \<Rightarrow> bool" where
  "procs_ok s \<longleftrightarrow> distinct (map fst (pr_run s)) \<and> set (pr_cancel s) \<subseteq> fst ` set (pr_run s) \<and>
     distinct (map snd (live s)) \<and> {p. pr_heap s p \<noteq> None} = snd ` set (live s) \<and>
     (\<forall>(t, p) \<in> set (live s). p \<noteq> 0 \<and> map_option th_Tid (pr_heap s p) = Some t)"

lemma create_ok:
  assumes "procs_ok s" and "lib_fresh lib s" and "cmm_threadCreate lib rt name arg prior stack s = Inr (p, s')"
  shows "procs_ok s'"
proof -
  have init: "pl_init lib = 0 \<or> fst (pl_malloc lib (pr_heap s)) = 0" and len: "length name < 64 \<or> fst (pl_malloc lib (pr_heap s)) = 0"
    using assms(2,3)
    by (auto simp: cmm_threadCreate_def start_thread_def lib_fresh_def thread_err_def c_strcpy_def wr_block_def Let_def
        rbind_Inr_iff split: prod.splits if_splits)
  show ?thesis
  proof (cases "fst (pl_malloc lib (pr_heap s)) = 0")
    case True
    then have "s' = s" using assms(3) by (auto simp: cmm_threadCreate_def start_thread_def split: prod.splits)
    then show ?thesis using assms(1) by simp
  next
    case False
    let ?t = "snd (pl_create lib)"
    obtain q junk where m: "pl_malloc lib (pr_heap s) = (q, junk)" by (cases "pl_malloc lib (pr_heap s)")
    have new: "?t \<notin> fst ` set (pr_run s)" "?t \<notin> set (pr_cancel s)" "q \<notin> snd ` set (live s)" "q \<noteq> 0"
      using assms(1,2) m False by (auto simp: lib_fresh_def procs_ok_def)
    consider "s' = s" | h where "s' = s\<lparr>pr_attrs := pr_attrs s + 1, pr_heap := (pr_heap s)(q \<mapsto> h), pr_run := pr_run s @ [(?t, q)]\<rparr>"
        "th_Tid h = ?t"
      using assms(3) cmm_threadCreate_result [OF assms(2), of name rt arg prior stack] init len False m
      by (fastforce split: if_splits)
    then show ?thesis
    proof cases
      case (2 h)
      have "live s' = live s @ [(?t, q)]" using new 2 by (simp add: live_def)
      moreover have "(a, q) \<notin> set (live s)" for a using new(3) by force
      ultimately show ?thesis using assms(1) new 2 by (auto simp: procs_ok_def)
    qed (use assms(1) in simp)
  qed
qed

lemma pair_keys:
  assumes "distinct (map fst xs)" and "distinct (map snd xs)" and "(u, q) \<in> set xs" and "(t, p) \<in> set xs"
  shows "u = t \<longleftrightarrow> q = p"
  using assms inj_onD [of fst "set xs" "(u, q)" "(t, p)"] inj_onD [of snd "set xs" "(u, q)" "(t, p)"]
  by (auto simp: distinct_map)

lemma end_ok:
  assumes "procs_ok s" and "(t, p) \<in> set (live s)"
    and "pr_heap s' = (pr_heap s)(p := None)" and "live s' = filter (\<lambda>x. fst x \<noteq> t) (live s)"
    and "distinct (map fst (pr_run s'))" and "set (pr_cancel s') \<subseteq> fst ` set (pr_run s')"
  shows "procs_ok s'"
proof -
  have "distinct (map fst (live s))" "distinct (map snd (live s))"
    using assms(1) by (simp_all add: procs_ok_def live_def distinct_map_filter)
  then have one: "(u, q) \<in> set (live s) \<Longrightarrow> u = t \<longleftrightarrow> q = p" for u q
    using pair_keys [OF _ _ _ assms(2)] by simp
  have d: "distinct (map snd (live s'))" using assms(1) unfolding assms(4) by (simp add: procs_ok_def distinct_map_filter)
  have live': "(u, q) \<in> set (live s') \<longleftrightarrow> (u, q) \<in> set (live s) \<and> q \<noteq> p" for u q
    using one [of u q] unfolding assms(4) by auto
  have "{q. pr_heap s' q \<noteq> None} = {q. pr_heap s q \<noteq> None} - {p}" unfolding assms(3) by auto
  also have "\<dots> = snd ` set (live s) - {p}" using assms(1) by (simp add: procs_ok_def)
  also have "\<dots> = snd ` set (live s')"
  proof -
    have "q \<in> snd ` set (live s) - {p} \<longleftrightarrow> q \<in> snd ` set (live s')" for q
      using live' [of _ q] by (auto simp: image_iff Bex_def)
    then show ?thesis by blast
  qed
  finally have heap: "{q. pr_heap s' q \<noteq> None} = snd ` set (live s')" .
  have "\<forall>(u, q) \<in> set (live s'). q \<noteq> 0 \<and> map_option th_Tid (pr_heap s' q) = Some u"
    using assms(1) live' unfolding procs_ok_def assms(3) by auto
  then show ?thesis using assms(5,6) d heap unfolding procs_ok_def by blast
qed

lemma th_step_ok: "th_step s s' \<Longrightarrow> procs_ok s \<Longrightarrow> procs_ok s'"
proof (induction rule: th_step.induct)
  case (create lib s name rt arg prior stack p s')
  then show ?case by (blast intro: create_ok)
next
  case (leave t p s s')
  have s': "s' = s\<lparr>pr_heap := (pr_heap s)(p := None), pr_run := filter (\<lambda>x. fst x \<noteq> t) (pr_run s)\<rparr>"
    using leave.hyps(3) by (auto simp: cmm_threadExit_def rbind_Inr_iff)
  have "(t, p) \<in> set (live s)" using leave.hyps(1,2) by (simp add: live_def)
  then show ?case
    by (rule end_ok [OF leave.prems]) (use leave in \<open>auto simp: s' live_def procs_ok_def distinct_map_filter conj_commute\<close>)
next
  case (cancel p s s')
  obtain h where h: "pr_heap s p = Some h" "s' = s\<lparr>pr_heap := (pr_heap s)(p := None), pr_cancel := th_Tid h # pr_cancel s\<rparr>"
    "th_Tid h \<in> fst ` set (pr_run s)"
    using cancel.hyps by (auto simp: cmm_threadCancel_def rbind_Inr_iff guard_def split: option.splits if_splits)
  have "p \<in> snd ` set (live s)" using cancel.prems h(1) by (auto simp: procs_ok_def)
  then have tp: "(th_Tid h, p) \<in> set (live s)" using cancel.prems h(1) by (auto simp: procs_ok_def)
  have "live s' = filter (\<lambda>x. fst x \<noteq> th_Tid h) (live s)" by (auto simp: h(2) live_def intro: filter_cong)
  moreover have "distinct (map fst (pr_run s'))" "set (pr_cancel s') \<subseteq> fst ` set (pr_run s')"
    using cancel.prems h(3) by (simp_all add: h(2) procs_ok_def)
  ultimately show ?case using end_ok [OF cancel.prems tp] by (simp add: h(2))
next
  case (cancelled t s)
  have "live (s\<lparr>pr_run := filter (\<lambda>x. fst x \<noteq> t) (pr_run s), pr_cancel := removeAll t (pr_cancel s)\<rparr>) = live s"
    using cancelled.hyps by (auto simp: live_def intro: filter_cong)
  then show ?case using cancelled by (auto simp: procs_ok_def distinct_map_filter)
qed

text \<open>
  C16: Handles and threads belong together. In every process whose threads keep the contract, however creations, exits
  and cancellations follow each other, the handles in use are those of the threads that are neither ended nor cancelled,
  one for each; a creation that fails leaves none behind; and such a thread can always be cancelled by its handle, and can
  always end by itself.
\<close>

theorem handles_match_threads:
  assumes "rtranclp th_step procs0 s"
  shows "{p. pr_heap s p \<noteq> None} = snd ` set (live s) \<and> distinct (map snd (live s)) \<and>
    (\<forall>(t, p) \<in> set (live s). (\<exists>s'. cmm_threadExit t p s = Inr s') \<and> (\<exists>s'. cmm_threadCancel p s = Inr s' \<and> t \<in> set (pr_cancel s')))"
proof -
  have ok: "procs_ok s" using assms
  proof (induction rule: rtranclp_induct)
    case base
    show ?case by (simp add: procs0_def procs_ok_def live_def)
  qed (rule th_step_ok)
  have "(\<exists>s'. cmm_threadExit t p s = Inr s') \<and> (\<exists>s'. cmm_threadCancel p s = Inr s' \<and> t \<in> set (pr_cancel s'))"
    if tp: "(t, p) \<in> set (live s)" for t p
  proof -
    have "p \<noteq> 0 \<and> map_option th_Tid (pr_heap s p) = Some t" using ok tp by (auto simp: procs_ok_def)
    then obtain h where "p \<noteq> 0" "pr_heap s p = Some h" "th_Tid h = t" by auto
    moreover have "t \<in> fst ` set (pr_run s)" using tp by (force simp: live_def)
    ultimately show ?thesis by (simp add: cmm_threadExit_def cmm_threadCancel_def report_thread_def)
  qed
  then show ?thesis using ok by (auto simp: procs_ok_def)
qed

text \<open>A library that answers, and a process in which a thread is created.\<close>

definition one_lib :: pthreads where
  "one_lib = \<lparr>pl_malloc = \<lambda>_. (96, \<lparr>th_Tid = 0, th_UsrArg = 0, th_szName = replicate 64 (CHR 0x00)\<rparr>), pl_init = 0,
     pl_setinheritsched = 0, pl_setschedpolicy = 0, pl_setstacksize = \<lambda>_. 0, pl_setschedparam = \<lambda>_. 0,
     pl_setdetachstate = 0, pl_create = (0, 7)\<rparr>"

lemma trace_thread_starts:
  "\<exists>s. startPhyTraceThread one_lib True True procs0 = Inr (True, s) \<and> th_step procs0 s \<and> live s = [(7, 96)]"
proof -
  have f: "lib_fresh one_lib procs0" by (simp add: lib_fresh_def one_lib_def procs0_def)
  obtain s where s: "cmm_threadCreate one_lib True ''phyTraceThread'' 0 55 0x100000 procs0 = Inr (96, s)" "live s = [(7, 96)]"
    using cmm_threadCreate_result [OF f, of "''phyTraceThread''" True 0 55 "0x100000"]
    by (simp add: one_lib_def attr_calls_def live_def procs0_def)
  then show ?thesis using th_step.create [OF f s(1)] by (simp add: startPhyTraceThread_def)
qed

theorem handles_match_threads_witness:
  "\<exists>s. startPhyTraceThread one_lib True True procs0 = Inr (True, s) \<and> {p. pr_heap s p \<noteq> None} = {96} \<and>
    (\<exists>s'. cmm_threadCancel 96 s = Inr s' \<and> 7 \<in> set (pr_cancel s'))"
proof -
  obtain s where s: "startPhyTraceThread one_lib True True procs0 = Inr (True, s)" "th_step procs0 s" "live s = [(7, 96)]"
    using trace_thread_starts by blast
  then show ?thesis using handles_match_threads [of s] by auto
qed

end
