(* ===== verification/AppStart.thy ===== *)
theory AppStart
  imports CmmMsgDesc
begin

text \<open>
  The first things \<open>main\<close> of \<open>src/main.c\<close> does. In \<open>sys_load_app_in_ram\<close> the program reads the list of its own memory mappings and touches
  every page of those that belong to its binary, so that no page has to be loaded later. The lines of
  \<open>/proc/<pid>/maps\<close> are an argument, as \<open>fgets\<close> delivers them; the state is what the
  function keeps between the lines. Then the ports of the devices are set up (\<open>port_init\<close>).
\<close>

section \<open>The function\<close>

definition strrchr :: "char \<Rightarrow> string \<Rightarrow> string option" where
  "strrchr x s = (if x \<in> set s then Some (x # rev (takeWhile (\<lambda>y. y \<noteq> x) (rev s))) else None)"

text \<open>A conversion \<open>%lx\<close> of \<open>sscanf\<close>: the number and the rest, or nothing.\<close>

definition scan_lx :: "string \<Rightarrow> (u64 \<times> string) option" where
  "scan_lx s = (case strtoul 16 s of (v, r) \<Rightarrow> if length r = length s then None else Some (v, r))"

record ram =
  ra_start :: u64
  ra_end :: u64
  ra_read :: "nat list"
  ra_cnt :: u32

text \<open>\<open>sscanf(s, "%lx-%lx", &addr_start, &addr_end)\<close>: what is converted is stored, and the number of conversions.\<close>

definition scan_range :: "string \<Rightarrow> ram \<Rightarrow> int \<times> ram" where
  "scan_range s r =
     (case scan_lx s of
        None \<Rightarrow> (if dropWhile chr_space s = [] then - 1 else 0, r)
      | Some (a, t) \<Rightarrow>
          let r = r\<lparr>ra_start := a\<rparr> in
          if t = [] \<or> hd t \<noteq> CHR ''-'' then (1, r)
          else (case scan_lx (tl t) of None \<Rightarrow> (1, r) | Some (b, _) \<Rightarrow> (2, r\<lparr>ra_end := b\<rparr>)))"

text \<open>The addresses that are read: from the start on, one in each page. The size of a page is positive.\<close>

function touch :: "nat \<Rightarrow> nat \<Rightarrow> nat \<Rightarrow> nat list" where
  "touch pageSize p e = (if p < e \<and> 0 < pageSize then p # touch pageSize (p + pageSize) e else [])"
  by auto
termination by (relation "measure (\<lambda>(n, p, e). e - p)") auto

declare touch.simps [simp del]

text \<open>
  One line. \<open>binName\<close> is the name of the program from its last slash on; the comparison with no name is a null
  pointer. The last character of the name found, the end of the line, is cut off in the line itself.
\<close>

definition ram_line :: "nat \<Rightarrow> string option \<Rightarrow> string \<Rightarrow> ram \<Rightarrow> ram res" where
  "ram_line pageSize binName string1 r =
     (case strrchr (CHR ''/'') string1 of
        None \<Rightarrow> Inr r
      | Some foundName \<Rightarrow>
          case binName of
            None \<Rightarrow> Inl NullDeref
          | Some bin \<Rightarrow>
              if butlast foundName = bin then
                case scan_range (butlast string1) r of (argsNum, r) \<Rightarrow>
                  if argsNum \<noteq> 2 \<or> ra_start r = 0 \<or> ra_end r = 0 then Inr r
                  else Inr (r\<lparr>ra_read := ra_read r @ touch pageSize (unat (ra_start r)) (unat (ra_end r)), ra_cnt := ra_cnt r + 1\<rparr>)
              else Inr r)"

definition ram0 :: ram where
  "ram0 = \<lparr>ra_start = 0, ra_end = 0, ra_read = [], ra_cnt = 0\<rparr>"

definition sys_load_app_in_ram :: "nat \<Rightarrow> string \<Rightarrow> string list option \<Rightarrow> ram res" where
  "sys_load_app_in_ram pageSize appname lines =
     (case lines of
        None \<Rightarrow> Inr ram0
      | Some ls \<Rightarrow> foreach (ram_line pageSize (strrchr (CHR ''/'') appname)) ls ram0)"

section \<open>Numbers in hexadecimal\<close>

lemma hex_digit_class:
  assumes "chr_digit x < 16"
  shows "\<not> chr_space x" and "x \<noteq> CHR ''-''" and "x \<noteq> CHR ''+''" and "x \<noteq> CHR ''x''" and "x \<noteq> CHR ''X''"
    and "x \<noteq> CHR ''/''"
  using assms by (auto simp: chr_digit_def chr_space_def Let_def split: if_splits)

lemma strtoul_hex:
  assumes "ds \<noteq> []" and "\<forall>x \<in> set ds. chr_digit x < 16" and "\<not> chr_digit y < 16" and "y \<noteq> CHR ''x''" and "y \<noteq> CHR ''X''"
    and "num_of 16 ds < 2 ^ 64"
  shows "strtoul 16 (ds @ y # r) = (of_nat (num_of 16 ds), y # r)"
proof -
  obtain d ds' where d: "ds = d # ds'" "chr_digit d < 16" using assms(1,2) by (cases ds) auto
  have "\<not> has_hex (ds @ y # r)"
  proof (cases ds')
    case (Cons e es)
    then have "chr_digit e < 16" using assms(2) d(1) by simp
    then show ?thesis using hex_digit_class(4,5) [of e] unfolding d(1) Cons has_hex_def by (cases "es @ y # r") auto
  qed (use assms(4,5) in \<open>cases r; simp add: d(1) has_hex_def\<close>)
  moreover have "takeWhile (\<lambda>x. chr_digit x < 16) (ds @ y # r) = ds" using assms(2,3) by (simp add: takeWhile_append2)
  ultimately show ?thesis
    using assms(6) hex_digit_class(1-3) [OF d(2)] by (simp add: strtoul_def Let_def d(1))
qed

lemma hex_small: "d < 16 \<Longrightarrow> hexadecimal d = [if d < 10 then char_of (48 + d) else char_of (87 + d)]"
  by (simp add: hexadecimal.simps [of d])

lemma chr_digit_hex: "d < 16 \<Longrightarrow> chr_digit (if d < 10 then char_of (48 + d) else char_of (87 + d)) = d"
  by (auto simp: chr_digit_def Let_def of_char_of)

lemma num_of_hexadecimal: "num_of 16 (hexadecimal n) = n \<and> hexadecimal n \<noteq> [] \<and> (\<forall>x \<in> set (hexadecimal n). chr_digit x < 16)"
proof (induction n rule: hexadecimal.induct)
  case (1 n)
  show ?case
  proof (cases "n < 16")
    case True
    then show ?thesis using chr_digit_hex [OF True] by (simp add: hex_small num_of_def)
  next
    case False
    then have "hexadecimal n = hexadecimal (n div 16) @ hexadecimal (n mod 16)" by (simp add: hexadecimal.simps [of n])
    then show ?thesis using 1 False chr_digit_hex [of "n mod 16"] by (auto simp: hex_small num_of_append)
  qed
qed

lemma num_of_zeros: "num_of b (replicate z (CHR ''0'') @ ds) = num_of b ds"
proof -
  have "foldl (\<lambda>n x. n * b + chr_digit x) 0 (replicate z (CHR ''0'')) = 0"
    by (induction z) (simp_all add: chr_digit_def)
  then show ?thesis by (simp add: num_of_def)
qed

section \<open>The mappings\<close>

text \<open>
  A mapping and its line: the addresses, filled up with zeros to some width, the columns up to the name, which hold no
  slash, and the name, empty for memory without a file.
\<close>

record mapping =
  mp_start :: nat
  mp_end :: nat
  mp_zeros :: "nat \<times> nat"
  mp_cols :: string
  mp_path :: string

definition map_text :: "mapping \<Rightarrow> string" where
  "map_text m = replicate (fst (mp_zeros m)) (CHR ''0'') @ hexadecimal (mp_start m) @ CHR ''-'' #
     replicate (snd (mp_zeros m)) (CHR ''0'') @ hexadecimal (mp_end m) @ CHR '' '' # mp_cols m @ mp_path m @ [CHR 0x0A]"

definition mapping_ok :: "mapping \<Rightarrow> bool" where
  "mapping_ok m \<longleftrightarrow> 0 < mp_start m \<and> mp_start m < mp_end m \<and> mp_end m < 2 ^ 64 \<and> CHR ''/'' \<notin> set (mp_cols m) \<and>
     length (map_text m) < 512"

lemma strrchr_append: "x \<notin> set pre \<Longrightarrow> strrchr x (pre @ s) = strrchr x s"
  by (auto simp: strrchr_def takeWhile_append)

lemma strrchr_snoc: "x \<noteq> y \<Longrightarrow> strrchr x (s @ [y]) = map_option (\<lambda>t. t @ [y]) (strrchr x s)"
  by (auto simp: strrchr_def)

lemma scan_lx_hex:
  assumes "n < 2 ^ 64" and "y = CHR ''-'' \<or> y = CHR '' ''"
  shows "scan_lx (replicate z (CHR ''0'') @ hexadecimal n @ y # r) = Some (of_nat n, y # r)"
proof -
  let ?ds = "replicate z (CHR ''0'') @ hexadecimal n"
  have "\<forall>x \<in> set ?ds. chr_digit x < 16" "?ds \<noteq> []" "num_of 16 ?ds = n"
    using num_of_hexadecimal [of n] num_of_zeros [of 16 z "hexadecimal n"] by (auto simp: chr_digit_def)
  moreover have "\<not> chr_digit y < 16" "y \<noteq> CHR ''x''" "y \<noteq> CHR ''X''" using assms(2) by (auto simp: chr_digit_def)
  ultimately have "strtoul 16 (?ds @ y # r) = (of_nat n, y # r)" using strtoul_hex [of ?ds y r] assms(1) by simp
  then show ?thesis using num_of_hexadecimal [of n] by (simp add: scan_lx_def)
qed

lemma map_line:
  assumes "mapping_ok m"
  shows "ram_line ps (Some bin) (map_text m) r = Inr (if strrchr (CHR ''/'') (mp_path m) = Some bin
    then r\<lparr>ra_start := of_nat (mp_start m), ra_end := of_nat (mp_end m),
      ra_read := ra_read r @ touch ps (mp_start m) (mp_end m), ra_cnt := ra_cnt r + 1\<rparr> else r)"
proof -
  let ?pre = "replicate (fst (mp_zeros m)) (CHR ''0'') @ hexadecimal (mp_start m) @ CHR ''-'' #
     replicate (snd (mp_zeros m)) (CHR ''0'') @ hexadecimal (mp_end m) @ CHR '' '' # mp_cols m"
  have "CHR ''/'' \<notin> set (hexadecimal n)" for n using num_of_hexadecimal [of n] hex_digit_class(6) by blast
  then have "CHR ''/'' \<notin> set ?pre" using assms by (auto simp: mapping_ok_def)
  from strrchr_append [OF this, of "mp_path m @ [CHR 0x0A]"]
  have s: "strrchr (CHR ''/'') (map_text m) = map_option (\<lambda>t. t @ [CHR 0x0A]) (strrchr (CHR ''/'') (mp_path m))"
    by (simp add: map_text_def strrchr_snoc)
  have b: "butlast (map_text m) = replicate (fst (mp_zeros m)) (CHR ''0'') @ hexadecimal (mp_start m) @ CHR ''-'' #
     replicate (snd (mp_zeros m)) (CHR ''0'') @ hexadecimal (mp_end m) @ CHR '' '' # mp_cols m @ mp_path m"
    by (simp add: map_text_def butlast_append)
  have n: "mp_start m < 2 ^ 64" "mp_end m < 2 ^ 64" "mp_start m \<noteq> 0" "mp_end m \<noteq> 0" using assms by (auto simp: mapping_ok_def)
  have u: "unat (of_nat (mp_start m) :: u64) = mp_start m" "unat (of_nat (mp_end m) :: u64) = mp_end m"
    using n by (simp_all add: unat_of_nat)
  then have nz: "(of_nat (mp_start m) :: u64) \<noteq> 0" "(of_nat (mp_end m) :: u64) \<noteq> 0" using n(3,4) by (metis unat_0)+
  have "scan_range (butlast (map_text m)) r = (2, r\<lparr>ra_start := of_nat (mp_start m), ra_end := of_nat (mp_end m)\<rparr>)"
    unfolding b by (simp add: scan_range_def scan_lx_hex [OF n(1)] scan_lx_hex [OF n(2)])
  then show ?thesis using u nz by (auto simp: ram_line_def s split: option.split)
qed

lemma touch_covers: "0 < n \<Longrightarrow> p \<le> a \<Longrightarrow> a < e \<Longrightarrow> \<exists>q \<in> set (touch n p e). q \<le> a \<and> a < q + n"
proof (induction n p e rule: touch.induct)
  case (1 n p e)
  then show ?case by (cases "a < p + n") (auto simp: touch.simps [of n p e])
qed

lemma touch_inside: "q \<in> set (touch n p e) \<Longrightarrow> p \<le> q \<and> q < e"
  by (induction n p e rule: touch.induct) (subst (asm) (2) touch.simps, auto split: if_splits)

text \<open>
  C21: The whole binary is brought into memory. For every list of mappings that the kernel reports, the function reads
  every page of each mapping whose file has the name of the program, in the order of the list, and nothing outside these
  mappings; other files, and memory without a file, are left alone.
\<close>

theorem binary_pages_read:
  assumes "strrchr (CHR ''/'') appname = Some bin" and "\<forall>m \<in> set ms. mapping_ok m" and "0 < pageSize"
    and "own = filter (\<lambda>m. strrchr (CHR ''/'') (mp_path m) = Some bin) ms"
  shows "\<exists>r. sys_load_app_in_ram pageSize appname (Some (map map_text ms)) = Inr r \<and> ra_cnt r = of_nat (length own) \<and>
    ra_read r = concat (map (\<lambda>m. touch pageSize (mp_start m) (mp_end m)) own) \<and>
    (\<forall>m \<in> set own. \<forall>a. mp_start m \<le> a \<and> a < mp_end m \<longrightarrow> (\<exists>q \<in> set (ra_read r). q \<le> a \<and> a < q + pageSize)) \<and>
    (\<forall>q \<in> set (ra_read r). \<exists>m \<in> set own. mp_start m \<le> q \<and> q < mp_end m)"
proof -
  let ?own = "filter (\<lambda>m. strrchr (CHR ''/'') (mp_path m) = Some bin)"
  let ?reads = "\<lambda>ms. concat (map (\<lambda>m. touch pageSize (mp_start m) (mp_end m)) (?own ms))"
  have "\<exists>r'. foreach (ram_line pageSize (Some bin)) (map map_text ms) r = Inr r' \<and>
      ra_cnt r' = ra_cnt r + of_nat (length (?own ms)) \<and> ra_read r' = ra_read r @ ?reads ms" for r
    using assms(2) by (induction ms arbitrary: r) (fastforce simp: map_line)+
  from this [of ram0] obtain r where r: "sys_load_app_in_ram pageSize appname (Some (map map_text ms)) = Inr r"
    "ra_cnt r = of_nat (length own)" "ra_read r = ?reads ms"
    by (auto simp: sys_load_app_in_ram_def assms(1,4) ram0_def)
  have "\<exists>q \<in> set (ra_read r). q \<le> a \<and> a < q + pageSize" if "m \<in> set own" "mp_start m \<le> a \<and> a < mp_end m" for m a
    using touch_covers [OF assms(3), of "mp_start m" a "mp_end m"] that unfolding r(3) assms(4) by auto
  moreover have "\<forall>q \<in> set (ra_read r). \<exists>m \<in> set own. mp_start m \<le> q \<and> q < mp_end m"
    using touch_inside unfolding r(3) assms(4) by fastforce
  ultimately show ?thesis using r assms(4) by blast
qed

text \<open>A program that was found on the search path has no slash in its name: the first line with a file ends it.\<close>

lemma bare_name_crashes:
  "CHR ''/'' \<notin> set appname \<Longrightarrow> CHR ''/'' \<in> set l \<Longrightarrow> sys_load_app_in_ram pageSize appname (Some (l # ls)) = Inl NullDeref"
  by (simp add: sys_load_app_in_ram_def ram_line_def strrchr_def)

definition example_maps :: "mapping list" where
  "example_maps = [\<lparr>mp_start = 8192, mp_end = 20480, mp_zeros = (4, 4), mp_cols = ''r-xp 0 8:1 7 '', mp_path = ''/opt/testmac''\<rparr>,
     \<lparr>mp_start = 65536, mp_end = 69632, mp_zeros = (3, 3), mp_cols = ''rw-p 0 0:0 0 '', mp_path = ''[heap]''\<rparr>]"

theorem binary_pages_read_witness:
  "\<exists>r. sys_load_app_in_ram 4096 ''./testmac'' (Some (map map_text example_maps)) = Inr r \<and> ra_cnt r = 1 \<and>
    ra_read r = [8192, 12288, 16384]"
proof -
  have len: "length (hexadecimal 8192) = 4" "length (hexadecimal 20480) = 4" "length (hexadecimal 65536) = 5" "length (hexadecimal 69632) = 5"
    by (simp_all add: hexadecimal.simps)
  have "strrchr (CHR ''/'') ''./testmac'' = Some ''/testmac''" by (simp add: strrchr_def)
  moreover have "\<forall>m \<in> set example_maps. mapping_ok m"
    by (simp add: example_maps_def mapping_ok_def map_text_def len)
  moreover have "filter (\<lambda>m. strrchr (CHR ''/'') (mp_path m) = Some ''/testmac'') example_maps = [hd example_maps]"
    by (simp add: example_maps_def strrchr_def)
  moreover have "touch 4096 8192 20480 = [8192, 12288, 16384]" by (simp add: touch.simps)
  ultimately show ?thesis
    using binary_pages_read [of "''./testmac''" "''/testmac''" example_maps 4096 "[hd example_maps]"]
    by (auto simp: example_maps_def)
qed

section \<open>The ports\<close>

text \<open>
  What DPDK answers: the port of a device, negative for one that is not there, and whether a buffer pool can be created
  under a name. The state: \<open>g_devMapPort\<close>, the pools, the pool for sending, the channels that are open (with whether they
  are for control or for data) and the ports that are started. \<open>None\<close> is the end of the program.
\<close>

record dpdk =
  dp_port :: "nat \<Rightarrow> int"
  dp_pool :: "string \<Rightarrow> bool"

record ports =
  po_map :: "int list"
  po_pools :: "string list"
  po_tx :: "string option"
  po_open :: "(bool \<times> nat \<times> nat) list"
  po_started :: "int list"

definition ports0 :: ports where
  "ports0 = \<lparr>po_map = [- 1, - 1, - 1, - 1], po_pools = [], po_tx = None, po_open = [], po_started = []\<rparr>"

definition pool_name :: "nat \<Rightarrow> string \<Rightarrow> string" where
  "pool_name i kind = ''MBUF_POOL_ETH'' @ decimal i @ kind"

definition port_init :: "dpdk \<Rightarrow> nat \<Rightarrow> nat \<Rightarrow> ports \<Rightarrow> ports option" where
  "port_init dp cellNum i s =
     (let port = dp_port dp i; tx = pool_name i ''_TX''; rx = pool_name i ''_RX'' in
      if port < 0 \<or> \<not> dp_pool dp tx \<or> \<not> dp_pool dp rx then None
      else Some (s\<lparr>po_pools := po_pools s @ [tx, rx], po_tx := Some tx,
        po_open := po_open s @ concat (map (\<lambda>cell. [(False, i, cell), (True, i, cell)]) [0..<cellNum]),
        po_started := po_started s @ [port]\<rparr>))"

text \<open>The loop of \<open>main\<close> over the devices.\<close>

fun init_ports :: "dpdk \<Rightarrow> nat \<Rightarrow> nat list \<Rightarrow> ports \<Rightarrow> ports option" where
  "init_ports dp cellNum [] s = Some s"
| "init_ports dp cellNum (i # is) s =
     (let port_id = dp_port dp i in
      if port_id < 0 then init_ports dp cellNum is s
      else case port_init dp cellNum i (s\<lparr>po_map := (po_map s)[i := port_id]\<rparr>) of
             None \<Rightarrow> None
           | Some s \<Rightarrow> init_ports dp cellNum is s)"

lemma channels: "set (concat (map (\<lambda>cell. [(False, i, cell), (True, i, cell)]) [0..<n])) = {(k, j, c). j = i \<and> c < n}"
proof -
  have "(k, j, c) \<in> set (concat (map (\<lambda>cell. [(False, i, cell), (True, i, cell)]) [0..<n])) \<longleftrightarrow> j = i \<and> c < n" for k j c
    by (cases k) auto
  then show ?thesis by auto
qed

text \<open>
  Every device that is there is entered in the map, with its two channels for every cell, and its port is started; only the
  pool of the last one is kept for sending.
\<close>

lemma init_ports_all:
  assumes "distinct is" and "\<forall>i \<in> set is. i < length (po_map s)" and "\<forall>n. dp_pool dp n"
  shows "\<exists>s'. init_ports dp cellNum is s = Some s' \<and> length (po_map s') = length (po_map s) \<and>
    (\<forall>i < length (po_map s). po_map s' ! i = (if i \<in> set is \<and> 0 \<le> dp_port dp i then dp_port dp i else po_map s ! i)) \<and>
    set (po_open s') = set (po_open s) \<union> {(k, i, c). i \<in> set is \<and> 0 \<le> dp_port dp i \<and> c < cellNum} \<and>
    po_started s' = po_started s @ filter (\<lambda>p. 0 \<le> p) (map (dp_port dp) is)"
  using assms(1,2)
proof (induction "is" arbitrary: s)
  case (Cons i js)
  show ?case
  proof (cases "dp_port dp i < 0")
    case True
    then show ?thesis using Cons.IH [of s] Cons.prems by (fastforce simp: Let_def)
  next
    case False
    let ?s = "s\<lparr>po_map := (po_map s)[i := dp_port dp i]\<rparr>"
    obtain s1 where s1: "port_init dp cellNum i ?s = Some s1" "po_map s1 = (po_map s)[i := dp_port dp i]"
      "set (po_open s1) = set (po_open s) \<union> {(k, j, c). j = i \<and> c < cellNum}" "po_started s1 = po_started s @ [dp_port dp i]"
      using False assms(3) by (simp add: port_init_def Let_def channels del: set_concat)
    obtain s' where "init_ports dp cellNum js s1 = Some s'" "length (po_map s') = length (po_map s1)"
      "\<forall>j < length (po_map s1). po_map s' ! j = (if j \<in> set js \<and> 0 \<le> dp_port dp j then dp_port dp j else po_map s1 ! j)"
      "set (po_open s') = set (po_open s1) \<union> {(k, j, c). j \<in> set js \<and> 0 \<le> dp_port dp j \<and> c < cellNum}"
      "po_started s' = po_started s1 @ filter (\<lambda>p. 0 \<le> p) (map (dp_port dp) js)"
      using Cons.IH [of s1] Cons.prems s1(2) by auto
    then show ?thesis using False Cons.prems s1
      by (intro exI [of _ s']) (auto simp: Let_def nth_list_update)
  qed
qed auto

text \<open>The map is the one that the rest of \<open>main\<close> starts with.\<close>

lemma init_ports_map:
  assumes "\<forall>n. dp_pool dp n"
  shows "\<exists>s. init_ports dp cellNum [0..<4] ports0 = Some s \<and>
    po_map s = map (\<lambda>d. if dp_port dp d < 0 then - 1 else dp_port dp d) [0..<4]"
proof -
  have l: "length (po_map ports0) = 4" "i < 4 \<Longrightarrow> po_map ports0 ! i = - 1" for i
    by (auto simp: ports0_def numeral_eq_Suc less_Suc_eq)
  obtain s where s: "init_ports dp cellNum [0..<4] ports0 = Some s" "length (po_map s) = 4"
    "\<forall>i < 4. po_map s ! i = (if i \<in> set [0..<4] \<and> 0 \<le> dp_port dp i then dp_port dp i else po_map ports0 ! i)"
    using init_ports_all [of "[0..<4]" ports0 dp cellNum] assms l(1) by auto
  then show ?thesis using l(2) by (intro exI [of _ s]) (auto intro!: nth_equalityI)
qed

end
