(* ===== verification/AppCommand.thy ===== *)
theory AppCommand
  imports AppCli
begin

text \<open>
  From the console to the handlers: what the line of the console, the ring of the cell and the poll of the cell's thread do
  together. The abstract side is \<open>command_effect\<close>, the handler that a command stands for.
\<close>

definition command_effect :: "'e env \<Rightarrow> files \<Rightarrow> CtrlMsg_ev \<Rightarrow> u16 \<Rightarrow> u16 \<Rightarrow> u8 \<Rightarrow> u8 \<Rightarrow> 'e mac \<Rightarrow> 'e mac res" where
  "command_effect env fs ev a b d c =
     (case ev of
        APP_TC_CONFIG_CASE \<Rightarrow> caseConfig env d c
      | APP_TC_DL_CASE \<Rightarrow> caseDl env (ucast a) (ucast b) d c
      | APP_TC_UL_CASE \<Rightarrow> caseUl env (ucast a) (ucast b) d c
      | APP_TC_TX_CASE \<Rightarrow> caseTx env (ucast a) (ucast b) d c
      | APP_TX_CASE \<Rightarrow> caseTest env fs (ucast a) (ucast b) d c
      | APP_TC_STOP \<Rightarrow> caseStop env d
      | _ \<Rightarrow> Inr)"

text \<open>The front of a ring, whatever its handler does: the handler runs on it, and when it answers 0 the message is gone.\<close>

lemma Unpack_run:
  assumes "qrel r (m # q)"
  shows "\<exists>r1 r2. qrel r1 (m # q) \<and> qrel r2 q \<and> QuickMsgRingRecvMsgWithUnpackFunc r f s = rbind (f s m (of_nat (length m)))
    (\<lambda>(ret, s'). if ret \<noteq> 0 then Inr (ret, s', r1) else Inr (0, s', r2))"
proof -
  from recv_one [OF assms(1)] obtain pl r' where
    b: "QuickMsgRingBeginRecvMsg r = Inr ([pl], r')" "qr_payload r' pl = Inr m"
    "unat (snd pl) = length m" "qrel r' (m # q)" "qrel (QuickMsgRingRecvMsgComplete r') q"
    by auto
  have "of_nat (unat (snd pl)) = snd pl" by simp
  then have "snd pl = of_nat (length m)" using b(3) by simp
  then show ?thesis
    using b by (intro exI [of _ r'] exI [of _ "QuickMsgRingRecvMsgComplete r'"]) (auto simp: QuickMsgRingRecvMsgWithUnpackFunc_def)
qed

text \<open>The handler on the message of a command.\<close>

lemma command_handled:
  assumes "(name, ev, two) \<in> set console_table" and "length m = 5"
    and "ctrl_of_words m = Inr \<lparr>cm_msgId = ctrl_id ev, cm_msgLen = 0, cm_paras = [ucast a, ucast b, ucast d, ucast c]\<rparr>"
  shows "appMgrMsgqHRecv env fs s m (of_nat (length m)) = rbind (command_effect env fs ev a b d c s) (\<lambda>s'. Inr (0, s'))"
proof -
  have w: "(ucast (ucast x :: u32) :: u8) = x" for x :: u8 by (rule bit_word_eqI) (simp add: bit_simps)
  have p: "[ucast a, ucast b, ucast d, ucast c :: u32] ! 2 = ucast d" "[ucast a, ucast b, ucast d, ucast c :: u32] ! 3 = ucast c"
    by simp_all
  show ?thesis using assms(1,2)
    by (auto simp: appMgrMsgqHRecv_def assms(3) Let_def console_table_def command_effect_def w p)
qed

text \<open>
  C9: What is typed is what the MAC does. In the manual mode, on a cell whose ring is empty, a command is executed by the
  next poll of the cell's thread: the console stores nothing but the message, and the poll does exactly what the handler of
  the command does with the numbers that were typed, faults included, and leaves the ring empty again.
\<close>

theorem typed_command_executed:
  assumes "(name, ev, two) \<in> set console_table" and "cf_operMode cfg = MANUAL" and "d < 4" and "c < 2"
    and "qrel (msgqApp (ctx s d c)) []" and "qheader (msgqApp (ctx s d c)) (qi (msgqApp (ctx s d c))) 5 \<noteq> None"
  shows "\<exists>r1 r2. let s1 = set_chan d c (chans s d c\<lparr>gMacCtx := (ctx s d c)\<lparr>msgqApp := r1\<rparr>\<rparr>) s in
    cmd_callback cfg (typed name (console_args two a b d c)) s = Inr s1 \<and> qrel r2 [] \<and>
    macRevAppCtrlMsg env fs d c s1 =
      rbind (command_effect env fs ev a (if two then b else 0) d c s1) (upd_ctx d c (\<lambda>x. x\<lparr>msgqApp := r2\<rparr>))"
proof -
  define k where "k = (if two then b else 0)"
  define w where "w = qpad (ctrl_bytes \<lparr>cm_msgId = ctrl_id ev, cm_msgLen = 0, cm_paras = [ucast a, ucast k, ucast d, ucast c]\<rparr>)"
  obtain r1 where post: "post_msg ev a k d c s = Inr (set_chan d c (chans s d c\<lparr>gMacCtx := (ctx s d c)\<lparr>msgqApp := r1\<rparr>\<rparr>) s)"
    and q: "qrel r1 [w]"
    using post_msg_ring [OF assms(3-5), of ev a k] assms(6) unfolding w_def by auto
  have "length w = 5" by (simp add: w_def length_ctrl_bytes words_for_def)
  moreover have "ctrl_of_words w = Inr \<lparr>cm_msgId = ctrl_id ev, cm_msgLen = 0, cm_paras = [ucast a, ucast k, ucast d, ucast c]\<rparr>"
    unfolding w_def by (rule ctrl_roundtrip) simp
  ultimately have run: "appMgrMsgqHRecv env fs t w (of_nat (length w)) = rbind (command_effect env fs ev a k d c t) (\<lambda>s'. Inr (0, s'))" for t
    by (rule command_handled [OF assms(1)])
  define s1 where "s1 = set_chan d c (chans s d c\<lparr>gMacCtx := (ctx s d c)\<lparr>msgqApp := r1\<rparr>\<rparr>) s"
  obtain r0 r2 where u: "qrel r2 []"
    "QuickMsgRingRecvMsgWithUnpackFunc r1 (appMgrMsgqHRecv env fs) s1 = rbind (appMgrMsgqHRecv env fs s1 w (of_nat (length w)))
      (\<lambda>(ret, s'). if ret \<noteq> 0 then Inr (ret, s', r0) else Inr (0, s', r2))"
    using Unpack_run [OF q, of "appMgrMsgqHRecv env fs" s1] by (elim exE conjE) (rule that)
  have "msgqApp (ctx s1 d c) = r1" by (simp add: s1_def set_chan_def)
  moreover have "get_chan d c s1 = Inr (chans s1 d c)" using assms(3,4) by (simp add: get_chan_def)
  ultimately have "macRevAppCtrlMsg env fs d c s1 = rbind (command_effect env fs ev a k d c s1) (upd_ctx d c (\<lambda>x. x\<lparr>msgqApp := r2\<rparr>))"
    by (simp add: macRevAppCtrlMsg_def u(2) run rbind_assoc)
  then show ?thesis
    using post u(1) unfolding typed_posts [OF assms(1,2)] k_def s1_def Let_def by blast
qed

text \<open>The command to stop, on a cell that is ready: the poll sends the requests of the handler.\<close>

theorem typed_command_executed_witness:
  "\<exists>r1 r2. let s1 = set_chan 3 1 (chans ready_mac 3 1\<lparr>gMacCtx := (ctx ready_mac 3 1)\<lparr>msgqApp := r1\<rparr>\<rparr>) ready_mac in
    cmd_callback manual_cfg (typed ''tc_stop'' [0, 3, 1]) ready_mac = Inr s1 \<and> qrel r2 [] \<and>
    macRevAppCtrlMsg count_env (\<lambda>_. None) 3 1 s1 = rbind (caseStop count_env 3 s1) (upd_ctx 3 1 (\<lambda>x. x\<lparr>msgqApp := r2\<rparr>))"
proof -
  have "(''tc_stop'', APP_TC_STOP, False) \<in> set console_table" "cf_operMode manual_cfg = MANUAL" "(3 :: u8) < 4" "(1 :: u8) < 2"
    by (simp_all add: console_table_def manual_cfg_def)
  from typed_command_executed [OF this, of ready_mac 0 0 count_env "\<lambda>_. None"] ready_mac_ring [of 3 1]
  show ?thesis by (simp add: console_args_def command_effect_def)
qed

end
