(* ===== verification/ZlogBuf.thy ===== *)
theory ZlogBuf
  imports CmmMsgDesc
begin

text \<open>
  The buffers of zlog (\<open>third_part/zlog/src/buf.c\<close>), in which every line of the log is put together. A buffer grows
  with its text up to a limit; a text that is longer is cut, and its end replaced by a mark. The pointers \<open>tail\<close>, \<open>end\<close>
  and \<open>end_plus_1\<close> are offsets from \<open>start\<close>. Sizes are numbers: no sum of two sizes of objects wraps in 64 bits.
\<close>

section \<open>The buffer\<close>

record zbuf =
  zb_start :: "string option"
  zb_tail :: nat
  zb_size_min :: nat
  zb_size_max :: nat
  zb_size_real :: nat
  zb_truncate_str :: string

definition zb_end_plus_1 :: "zbuf \<Rightarrow> nat" where
  "zb_end_plus_1 b = (if zb_start b = None then 0 else zb_size_real b)"

definition zb_end :: "zbuf \<Rightarrow> nat" where
  "zb_end b = zb_end_plus_1 b - 1"

text \<open>The allocator: whether it has a block of a size, and what the new part of a block holds.\<close>

record zalloc =
  za_ok :: "nat \<Rightarrow> bool"
  za_junk :: "nat \<Rightarrow> char"

definition zlog_buf_new :: "zalloc \<Rightarrow> nat \<Rightarrow> nat \<Rightarrow> string option \<Rightarrow> zbuf option" where
  "zlog_buf_new al buf_size_min buf_size_max truncate_str =
     (if buf_size_min = 0 then None
      else if buf_size_max \<noteq> 0 \<and> buf_size_max < buf_size_min then None
      else if \<not> za_ok al 1096 then None
      else case truncate_str of
        Some t \<Rightarrow>
          if length t > 1024 \<or> \<not> za_ok al buf_size_min then None
          else Some \<lparr>zb_start = Some (replicate buf_size_min (CHR 0x00)), zb_tail = 0, zb_size_min = buf_size_min,
            zb_size_max = buf_size_max, zb_size_real = buf_size_min, zb_truncate_str = t\<rparr>
      | None \<Rightarrow>
          if \<not> za_ok al buf_size_min then None
          else Some \<lparr>zb_start = Some (replicate buf_size_min (CHR 0x00)), zb_tail = 0, zb_size_min = buf_size_min,
            zb_size_max = buf_size_max, zb_size_real = buf_size_min, zb_truncate_str = []\<rparr>)"

text \<open>Writing \<open>s\<close> at an offset.\<close>

definition zput :: "nat \<Rightarrow> string \<Rightarrow> zbuf \<Rightarrow> zbuf res" where
  "zput off s b =
     (if s = [] then Inr b
      else case zb_start b of
        None \<Rightarrow> Inl NullDeref
      | Some m \<Rightarrow> rbind (wr_block m off s) (\<lambda>m. Inr (b\<lparr>zb_start := Some m\<rparr>)))"

definition zlog_buf_truncate :: "zbuf \<Rightarrow> zbuf res" where
  "zlog_buf_truncate b =
     (if zb_truncate_str b = [] then Inr b
      else
        let p = zb_tail b - length (zb_truncate_str b); len = zb_tail b - p
        in zput p (take len (zb_truncate_str b)) b)"

text \<open>
  The size is computed as a floating point number when there is no limit; the result is the sum rounded down. When there is
  no memory the buffer is given up.
\<close>

definition zlog_buf_resize :: "zalloc \<Rightarrow> nat \<Rightarrow> zbuf \<Rightarrow> int \<times> zbuf" where
  "zlog_buf_resize al increment b =
     (if zb_size_max b \<noteq> 0 \<and> zb_size_real b \<ge> zb_size_max b then (1, b)
      else
        let (new_size, rc) =
          (if zb_size_max b = 0 then (zb_size_real b + 3 * increment div 2, 0)
           else if zb_size_real b + increment \<le> zb_size_max b then (zb_size_real b + increment, 0)
           else (zb_size_max b, 1))
        in if \<not> za_ok al new_size then (- 1, b\<lparr>zb_start := None, zb_tail := 0\<rparr>)
           else
             let m = (case zb_start b of None \<Rightarrow> [] | Some m \<Rightarrow> m)
             in (rc, b\<lparr>zb_start := Some (take new_size m @ map (za_junk al) [length m..<new_size]), zb_size_real := new_size\<rparr>))"

section \<open>The writers\<close>

text \<open>\<open>str_len\<close> is the length of \<open>str\<close> in all calls.\<close>

definition zlog_buf_append :: "zalloc \<Rightarrow> string \<Rightarrow> zbuf \<Rightarrow> (int \<times> zbuf) res" where
  "zlog_buf_append al str b =
     (let n = length str in
      if zb_tail b + n > zb_end b then
        case zlog_buf_resize al (n - (zb_end b - zb_tail b)) b of (rc, b) \<Rightarrow>
          if rc > 0 then
            let len_left = zb_end b - zb_tail b in
            rbind (zput (zb_tail b) (take len_left str) b) (\<lambda>b.
            rbind (zlog_buf_truncate (b\<lparr>zb_tail := zb_tail b + len_left\<rparr>)) (\<lambda>b. Inr (1, b)))
          else if rc < 0 then Inr (- 1, b)
          else rbind (zput (zb_tail b) str b) (\<lambda>b. Inr (0, b\<lparr>zb_tail := zb_tail b + n\<rparr>))
      else rbind (zput (zb_tail b) str b) (\<lambda>b. Inr (0, b\<lparr>zb_tail := zb_tail b + n\<rparr>)))"

text \<open>A text that \<open>vsnprintf\<close> makes; its length is an \<open>int\<close>.\<close>

definition zvsnprintf :: "nat \<Rightarrow> string \<Rightarrow> zbuf \<Rightarrow> (int \<times> zbuf) res" where
  "zvsnprintf size_left s b =
     rbind (if size_left = 0 then Inr b else zput (zb_tail b) (take (size_left - 1) s @ [CHR 0x00]) b) (\<lambda>b.
       Inr (if length s < 2 ^ 31 then int (length s) else - 1, b))"

definition zlog_buf_vprintf :: "zalloc \<Rightarrow> string \<Rightarrow> zbuf \<Rightarrow> (int \<times> zbuf) res" where
  "zlog_buf_vprintf al s b =
     (if zb_start b = None then Inr (- 1, b)
      else
        let size_left = zb_end_plus_1 b - zb_tail b in
        rbind (zvsnprintf size_left s b) (\<lambda>(nwrite, b).
        if nwrite < 0 then Inr (- 1, b)
        else if nat nwrite < size_left then Inr (0, b\<lparr>zb_tail := zb_tail b + nat nwrite\<rparr>)
        else
          case zlog_buf_resize al (nat nwrite - size_left + 1) b of (rc, b) \<Rightarrow>
            if rc > 0 then
              let size_left = zb_end_plus_1 b - zb_tail b in
              rbind (zvsnprintf size_left s b) (\<lambda>(_, b).
              rbind (zlog_buf_truncate (b\<lparr>zb_tail := zb_tail b + (size_left - 1)\<rparr>)) (\<lambda>b. Inr (1, b)))
            else if rc < 0 then Inr (- 1, b)
            else
              rbind (zvsnprintf (zb_end_plus_1 b - zb_tail b) s b) (\<lambda>(nwrite, b).
                if nwrite < 0 then Inr (- 1, b) else Inr (0, b\<lparr>zb_tail := zb_tail b + nat nwrite\<rparr>))))"

text \<open>The digits of a number are put into an array from its end on; \<open>p\<close> is the place of the last digit so far.\<close>

fun digit_loop :: "nat \<Rightarrow> nat \<Rightarrow> nat \<Rightarrow> string \<Rightarrow> string res" where
  "digit_loop base 0 n ds = Inl OutOfRange"
| "digit_loop base (Suc p) n ds =
     (let d = n mod base; ds = (if d < 10 then char_of (48 + d) else char_of (87 + d)) # ds
      in if n div base = 0 then Inr ds else digit_loop base p (n div base) ds)"

text \<open>
  The end that the number writers share: zeros up to the width, then the digits. The width is compared as a \<open>size_t\<close>: a
  negative one is huge, and the zeros run out of the buffer.
\<close>

definition zlog_buf_number :: "zalloc \<Rightarrow> string \<Rightarrow> int \<Rightarrow> zbuf \<Rightarrow> (int \<times> zbuf) res" where
  "zlog_buf_number al digits width b =
     rbind (guard (0 \<le> width) OutOfRange) (\<lambda>_.
     let num_len = length digits;
         (zero_len, out_len) = (if nat width > num_len then (nat width - num_len, nat width) else (0, num_len));
         finish = (\<lambda>b. rbind (zput (zb_tail b) (replicate zero_len (CHR ''0'')) b) (\<lambda>b.
           rbind (zput (zb_tail b + zero_len) digits b) (\<lambda>b. Inr (0, b\<lparr>zb_tail := zb_tail b + out_len\<rparr>))))
     in if zb_tail b + out_len > zb_end b then
          case zlog_buf_resize al (out_len - (zb_end b - zb_tail b)) b of (rc, b) \<Rightarrow>
            if rc > 0 then
              let len_left = zb_end b - zb_tail b;
                  (zero_len, num_len) = (if len_left \<le> zero_len then (len_left, 0) else (zero_len, len_left - zero_len)) in
              rbind (zput (zb_tail b) (replicate zero_len (CHR ''0'')) b) (\<lambda>b.
              rbind (zput (zb_tail b + zero_len) (take num_len digits) b) (\<lambda>b.
              rbind (zlog_buf_truncate (b\<lparr>zb_tail := zb_tail b + len_left\<rparr>)) (\<lambda>b. Inr (1, b))))
            else if rc < 0 then Inr (- 1, b)
            else finish b
        else finish b)"

definition zlog_buf_printf_dec32 :: "zalloc \<Rightarrow> u32 \<Rightarrow> int \<Rightarrow> zbuf \<Rightarrow> (int \<times> zbuf) res" where
  "zlog_buf_printf_dec32 al ui32 width b =
     (if zb_start b = None then Inr (- 1, b)
      else rbind (digit_loop 10 11 (unat ui32) []) (\<lambda>ds. zlog_buf_number al ds width b))"

definition zlog_buf_printf_dec64 :: "zalloc \<Rightarrow> u64 \<Rightarrow> int \<Rightarrow> zbuf \<Rightarrow> (int \<times> zbuf) res" where
  "zlog_buf_printf_dec64 al ui64 width b =
     (if zb_start b = None then Inr (- 1, b)
      else rbind (digit_loop 10 20 (unat ui64) []) (\<lambda>ds. zlog_buf_number al ds width b))"

definition zlog_buf_printf_hex :: "zalloc \<Rightarrow> u32 \<Rightarrow> int \<Rightarrow> zbuf \<Rightarrow> (int \<times> zbuf) res" where
  "zlog_buf_printf_hex al ui32 width b =
     (if zb_start b = None then Inr (- 1, b)
      else rbind (digit_loop 16 11 (unat ui32) []) (\<lambda>ds. zlog_buf_number al ds width b))"

definition adjust_lens :: "nat \<Rightarrow> nat \<Rightarrow> nat \<Rightarrow> nat \<times> nat \<times> nat" where
  "adjust_lens str_len in_width out_width =
     (let source_len = (if out_width = 0 \<or> str_len < out_width then str_len else out_width)
      in if in_width = 0 \<or> source_len \<ge> in_width then (source_len, source_len, 0) else (in_width, source_len, in_width - source_len))"

definition adjust_put :: "bool \<Rightarrow> bool \<Rightarrow> string \<Rightarrow> nat \<Rightarrow> nat \<Rightarrow> zbuf \<Rightarrow> zbuf res" where
  "adjust_put left_adjust zero_pad str source_len space_len b =
     (if left_adjust then
        rbind (zput (zb_tail b + source_len) (replicate space_len (CHR '' '')) b) (zput (zb_tail b) (take source_len str))
      else
        rbind (zput (zb_tail b) (replicate space_len (if zero_pad then CHR ''0'' else CHR '' '')) b)
          (zput (zb_tail b + space_len) (take source_len str)))"

definition zlog_buf_adjust_append :: "zalloc \<Rightarrow> string \<Rightarrow> bool \<Rightarrow> bool \<Rightarrow> nat \<Rightarrow> nat \<Rightarrow> zbuf \<Rightarrow> (int \<times> zbuf) res" where
  "zlog_buf_adjust_append al str left_adjust zero_pad in_width out_width b =
     (if zb_start b = None then Inr (- 1, b)
      else case adjust_lens (length str) in_width out_width of (append_len, source_len, space_len) \<Rightarrow>
        if append_len > zb_end b - zb_tail b then
          case zlog_buf_resize al (append_len - (zb_end b - zb_tail b)) b of (rc, b) \<Rightarrow>
            if rc > 0 then
              let append_len = zb_end b - zb_tail b;
                  (source_len, space_len) =
                    (if left_adjust then
                       (if source_len < append_len then (source_len, append_len - source_len) else (append_len, 0))
                     else
                       (if space_len < append_len then (append_len - space_len, space_len) else (0, append_len))) in
              rbind (adjust_put left_adjust zero_pad str source_len space_len b) (\<lambda>b.
              rbind (zlog_buf_truncate (b\<lparr>zb_tail := zb_tail b + append_len\<rparr>)) (\<lambda>b. Inr (1, b)))
            else if rc < 0 then Inr (- 1, b)
            else rbind (adjust_put left_adjust zero_pad str source_len space_len b) (\<lambda>b.
                   Inr (0, b\<lparr>zb_tail := zb_tail b + append_len\<rparr>))
        else rbind (adjust_put left_adjust zero_pad str source_len space_len b) (\<lambda>b.
               Inr (0, b\<lparr>zb_tail := zb_tail b + append_len\<rparr>)))"
section \<open>Every writer appends a text\<close>

text \<open>The text in a buffer, and the invariant: there is room for a final zero, and the limit is kept.\<close>

definition ztext :: "zbuf \<Rightarrow> string" where
  "ztext b = (case zb_start b of None \<Rightarrow> [] | Some m \<Rightarrow> take (zb_tail b) m)"

definition zb_ok :: "zbuf \<Rightarrow> bool" where
  "zb_ok b \<longleftrightarrow> (\<exists>m. zb_start b = Some m \<and> length m = zb_size_real b) \<and> zb_tail b < zb_size_real b \<and>
     (zb_size_max b = 0 \<or> zb_size_real b \<le> zb_size_max b)"

lemma zput_append:
  "rbind (zput off s b) (zput (off + length s) t) = zput off (s @ t) b"
proof (cases "zb_start b")
  case (Some m)
  have "overlay (overlay m off s) (off + length s) t = overlay m off (s @ t)" if "off + (length s + length t) \<le> length m"
    using that by (simp add: overlay_def ac_simps)
  then show ?thesis using Some by (auto simp: zput_def wr_block_def)
qed (auto simp: zput_def)

lemma zput_before:
  "rbind (zput (off + length s) t b) (zput off s) = zput off (s @ t) b"
proof (cases "zb_start b")
  case (Some m)
  have "overlay (overlay m (off + length s) t) off s = overlay m off (s @ t)" if "off + (length s + length t) \<le> length m"
    using that by (simp add: overlay_def ac_simps)
  then show ?thesis using Some by (auto simp: zput_def wr_block_def)
qed (auto simp: zput_def)

lemma zput_tail: "zput off s b = Inr b' \<Longrightarrow> zb_tail b' = zb_tail b \<and> zb_end b' = zb_end b"
  by (auto simp: zput_def rbind_Inr_iff zb_end_def zb_end_plus_1_def split: if_splits option.splits)

text \<open>Numbers and adjusted texts are appended as wholes, whatever room there is.\<close>

definition pad :: "int \<Rightarrow> string \<Rightarrow> string" where
  "pad width ds = replicate (nat width - length ds) (CHR ''0'') @ ds"

lemma zput_after:
  assumes "n = length s"
  shows "rbind (zput (zb_tail b) s b) (\<lambda>b. rbind (zput (zb_tail b + n) t b) k) = rbind (zput (zb_tail b) (s @ t) b) k"
proof -
  have "rbind (zput (zb_tail b) s b) (\<lambda>b'. rbind (zput (zb_tail b' + n) t b') k) =
      rbind (zput (zb_tail b) s b) (\<lambda>b'. rbind (zput (zb_tail b + n) t b') k)"
    using zput_tail [of "zb_tail b" s b] by (cases "zput (zb_tail b) s b") auto
  then show ?thesis by (simp add: assms rbind_assoc [symmetric] zput_append [symmetric])
qed

lemma number_appends:
  assumes "0 \<le> width" shows "zlog_buf_number al ds width b = zlog_buf_append al (pad width ds) b"
proof -
  define z n where "z = nat width - length ds" and "n = length (pad width ds)"
  have zn: "(if nat width > length ds then (nat width - length ds, nat width) else (0, length ds)) = (z, n)"
    by (auto simp: z_def n_def pad_def)
  have n: "n = z + length ds" by (simp add: z_def n_def pad_def)
  have p: "pad width ds = replicate z (CHR ''0'') @ ds" by (simp add: pad_def z_def)
  have cut: "(if l \<le> z then (l, 0) else (z, l - z)) = (min l z, l - z)" "min l z = length (replicate (min l z) (CHR ''0''))"
    "replicate (min l z) (CHR ''0'') @ take (l - z) ds = take l (pad width ds)" for l
    by (auto simp: p)
  have whole: "rbind (zput (zb_tail b) (replicate z (CHR ''0'')) b) (\<lambda>b. rbind (zput (zb_tail b + z) ds b) k) =
      rbind (zput (zb_tail b) (pad width ds) b) k" for b k
    unfolding p by (rule zput_after) simp
  have part: "rbind (zput (zb_tail b) (replicate (min l z) (CHR ''0'')) b) (\<lambda>b. rbind (zput (zb_tail b + min l z) (take (l - z) ds) b) k) =
      rbind (zput (zb_tail b) (take l (pad width ds)) b) k" for l b k
    unfolding cut(3) [symmetric] by (rule zput_after) simp
  show ?thesis
    using assms unfolding zlog_buf_number_def zlog_buf_append_def Let_def zn prod.case n_def [symmetric] whole cut(1) part
    by simp
qed

lemma digits_dec: "n < 10 ^ p \<Longrightarrow> 0 < p \<Longrightarrow> digit_loop 10 p n ds = Inr (decimal n @ ds)"
proof (induction p arbitrary: n ds)
  case (Suc p)
  show ?case
  proof (cases "n < 10")
    case False
    then have "0 < p" "n div 10 < 10 ^ p" using Suc.prems by (cases p; auto simp: less_mult_imp_div_less mult.commute)+
    then show ?thesis using Suc.IH [of "n div 10"] False by (simp add: decimal.simps [of n] Let_def div_eq_0_iff)
  qed (simp add: decimal.simps [of n])
qed simp

lemma digits_hex: "n < 16 ^ p \<Longrightarrow> 0 < p \<Longrightarrow> digit_loop 16 p n ds = Inr (hexadecimal n @ ds)"
proof (induction p arbitrary: n ds)
  case (Suc p)
  show ?case
  proof (cases "n < 16")
    case False
    then have "0 < p" "n div 16 < 16 ^ p" using Suc.prems by (cases p; auto simp: less_mult_imp_div_less mult.commute)+
    then show ?thesis using Suc.IH [of "n div 16"] False
      by (simp add: hexadecimal.simps [of n] hexadecimal.simps [of "n mod 16"] Let_def div_eq_0_iff)
  qed (simp add: hexadecimal.simps [of n])
qed simp

definition adjust_text :: "string \<Rightarrow> bool \<Rightarrow> bool \<Rightarrow> nat \<Rightarrow> nat \<Rightarrow> string" where
  "adjust_text str left_adjust zero_pad in_width out_width =
     (let s = (if out_width = 0 then str else take out_width str); sp = in_width - length s in
      if left_adjust then s @ replicate sp (CHR '' '')
      else replicate sp (if zero_pad then CHR ''0'' else CHR '' '') @ s)"

lemma adjust_put_whole:
  assumes "n \<le> length str"
  shows "adjust_put left_adjust zero_pad str n m b =
    zput (zb_tail b) (if left_adjust then take n str @ replicate m (CHR '' '')
      else replicate m (if zero_pad then CHR ''0'' else CHR '' '') @ take n str) b"
  using zput_before [of "zb_tail b" "take n str" "replicate m (CHR '' '')" b]
    zput_append [of "zb_tail b" "replicate m (if zero_pad then CHR ''0'' else CHR '' '')" b "take n str"] assms
  by (simp add: adjust_put_def min_absorb2)

lemma adjust_appends:
  assumes "zb_ok b"
  shows "zlog_buf_adjust_append al str l z iw ow b = zlog_buf_append al (adjust_text str l z iw ow) b"
proof -
  obtain n so sp where lens: "adjust_lens (length str) iw ow = (n, so, sp)" by (cases "adjust_lens (length str) iw ow") auto
  have so: "so \<le> length str" "n = so + sp" "sp = iw - so" "so = (if ow = 0 then length str else min ow (length str))"
    using lens by (auto simp: adjust_lens_def Let_def split: if_splits)
  define t where "t = adjust_text str l z iw ow"
  have tx: "t = (if l then take so str @ replicate sp (CHR '' '') else replicate sp (if z then CHR ''0'' else CHR '' '') @ take so str)"
  proof -
    have s: "(if ow = 0 then str else take ow str) = take so str" unfolding so(4) by (simp add: min_def)
    show ?thesis using so(1,3) unfolding t_def adjust_text_def s Let_def by (simp add: min_absorb2)
  qed
  have len: "length t = n" using so by (simp add: tx)
  obtain m where m: "zb_start b = Some m" using assms by (auto simp: zb_ok_def)
  have start: "zb_start b = Some m" "(zb_end b - zb_tail b < n) = (zb_end b < zb_tail b + n)"
    using assms m by (auto simp: zb_ok_def zb_end_def zb_end_plus_1_def)
  have whole: "adjust_put l z str so sp b = zput (zb_tail b) t b" for b
    using so by (simp add: adjust_put_whole tx)
  have part: "adjust_put l z str (if l then (if so < k then so else k) else (if sp < k then k - sp else 0))
      (if l then (if so < k then k - so else 0) else (if sp < k then sp else k)) b = zput (zb_tail b) (take k t) b"
    if "k < n" for b k
    using that so(1,2)
    by (cases l; cases "so < k"; cases "sp < k"; simp add: adjust_put_whole tx take_replicate min_absorb1 min_absorb2)
  show ?thesis
  proof (cases "zb_end b < zb_tail b + n")
    case False
    then show ?thesis using start
      unfolding zlog_buf_adjust_append_def zlog_buf_append_def t_def [symmetric] len lens prod.case Let_def
      by (simp add: whole)
  next
    case True
    obtain rc b1 where r: "zlog_buf_resize al (n - (zb_end b - zb_tail b)) b = (rc, b1)" by fastforce
    have left: "zb_end b1 - zb_tail b1 < n" if "rc > 0"
      using r that True assms
      by (auto simp: zlog_buf_resize_def Let_def zb_ok_def zb_end_def zb_end_plus_1_def split: if_splits)
    define k where "k = zb_end b1 - zb_tail b1"
    have pick: "(case if l then if so < k then (so, k - so) else (k, 0) else if sp < k then (k - sp, sp) else (0, k) of
        (s', p') \<Rightarrow> F s' p') =
      F (if l then (if so < k then so else k) else (if sp < k then k - sp else 0))
        (if l then (if so < k then k - so else 0) else (if sp < k then sp else k))" for F :: "nat \<Rightarrow> nat \<Rightarrow> (int \<times> zbuf) res"
      by simp
    have fit: "rc > 0 \<Longrightarrow> k < n" using left by (simp add: k_def)
    show ?thesis using True start fit part [of k]
      unfolding zlog_buf_adjust_append_def zlog_buf_append_def t_def [symmetric] len lens prod.case Let_def r
        k_def [symmetric] pick
      by (simp add: whole)
  qed
qed

section \<open>A line of the log\<close>

definition zlog_buf_restart :: "zbuf \<Rightarrow> zbuf" where
  "zlog_buf_restart b = b\<lparr>zb_tail := 0\<rparr>"

text \<open>What is left of a text under a limit (0: no limit): it is cut, and its end overwritten by the mark.\<close>

definition zfit :: "nat \<Rightarrow> string \<Rightarrow> string \<Rightarrow> string" where
  "zfit mx mark t =
     (if mx = 0 \<or> length t < mx then t
      else take (mx - 1 - length mark) t @ take (mx - 1) mark)"

lemma zfit_zfit: "zfit mx mark (zfit mx mark t @ u) = zfit mx mark (t @ u)"
  by (cases u) (auto simp: zfit_def min_def)

lemma length_zfit: "mx \<noteq> 0 \<Longrightarrow> length (zfit mx mark t) < mx"
  by (auto simp: zfit_def)

definition zb_kept :: "zbuf \<Rightarrow> zbuf \<Rightarrow> bool" where
  "zb_kept b b' \<longleftrightarrow> zb_ok b' \<and> zb_size_max b' = zb_size_max b \<and> zb_truncate_str b' = zb_truncate_str b"

lemma zput_ok:
  assumes "zb_ok b" "off + length s \<le> zb_size_real b"
  obtains m where "zput off s b = Inr (b\<lparr>zb_start := Some m\<rparr>)" "length m = zb_size_real b"
    "take (off + length s) m = take off (the (zb_start b)) @ s"
proof -
  obtain m0 where "zb_start b = Some m0" "length m0 = zb_size_real b" using assms by (auto simp: zb_ok_def)
  then show thesis using assms
    by (intro that [of "overlay m0 off s"]) (auto simp: zput_def overlay_def)
qed

lemma resize_ok:
  assumes "zb_ok b" "\<And>n. za_ok al n" "0 < inc"
    and "zlog_buf_resize al inc b = (rc, b')"
  shows "zb_kept b b'" "zb_tail b' = zb_tail b" "ztext b' = ztext b"
    "rc = (if zb_size_max b = 0 \<or> zb_size_real b + inc \<le> zb_size_max b then 0 else 1)"
    "rc = 0 \<Longrightarrow> zb_size_real b + inc \<le> zb_size_real b'" "rc = 1 \<Longrightarrow> zb_size_real b' = zb_size_max b"
  using assms
  by (auto simp: zlog_buf_resize_def Let_def zb_ok_def zb_kept_def ztext_def split: if_splits)

text \<open>The end of a writer that meets the limit: the rest of the room is filled, then the mark is set.\<close>

lemma cut_ok:
  assumes "zb_ok b" "zb_size_real b = zb_size_max b" "length t = zb_size_max b - 1 - zb_tail b" "length s \<le> 1"
  obtains b1 b2 where "zput (zb_tail b) (t @ s) b = Inr b1" "zlog_buf_truncate (b1\<lparr>zb_tail := zb_tail b + length t\<rparr>) = Inr b2"
    "zb_kept b b2" "ztext b2 = zfit (zb_size_max b) (zb_truncate_str b) (ztext b @ t @ [CHR 0x00])"
proof -
  have room: "zb_tail b + length (t @ s) \<le> zb_size_real b" "zb_tail b + length t = zb_size_real b - 1" "0 < zb_size_real b"
    using assms by (auto simp: zb_ok_def)
  obtain m where m: "zput (zb_tail b) (t @ s) b = Inr (b\<lparr>zb_start := Some m\<rparr>)" "length m = zb_size_real b"
    "take (zb_tail b + length (t @ s)) m = take (zb_tail b) (the (zb_start b)) @ (t @ s)"
    by (rule zput_ok [OF assms(1) room(1)])
  define b1 where "b1 = b\<lparr>zb_start := Some m, zb_tail := zb_tail b + length t\<rparr>"
  have ok1: "zb_ok b1" using assms(1) m(2) room by (auto simp: zb_ok_def b1_def)
  have "take (zb_tail b + length t) m = take (zb_tail b + length t) (take (zb_tail b) (the (zb_start b)) @ t @ s)"
    unfolding m(3) [symmetric] by simp
  moreover have "ztext b = take (zb_tail b) (the (zb_start b))" "length (ztext b) = zb_tail b"
    using assms(1) by (auto simp: ztext_def zb_ok_def)
  ultimately have t1: "ztext b1 = ztext b @ t" "length (ztext b1) = zb_size_real b - 1"
    using room(2) by (auto simp: ztext_def b1_def)
  show thesis
  proof (cases "zb_truncate_str b = []")
    case True
    then show thesis using that [of "b\<lparr>zb_start := Some m\<rparr>" b1] m(1) ok1 t1 assms(2) room(3)
      by (simp add: zlog_buf_truncate_def b1_def zb_kept_def zfit_def)
  next
    case False
    define p where "p = zb_tail b1 - length (zb_truncate_str b)"
    define s' where "s' = take (zb_tail b1 - p) (zb_truncate_str b)"
    have tl: "zb_tail b1 = zb_size_max b - 1" using room(2) assms(2) by (simp add: b1_def)
    have whole: "take (n - (n - length s)) s = take n s" for n and s :: string by (cases "length s \<le> n") simp_all
    have s': "p + length s' = zb_tail b1" "s' = take (zb_size_max b - 1) (zb_truncate_str b)"
      by (simp add: p_def s'_def) (simp add: p_def s'_def whole, simp add: tl)
    have fit: "p + length s' \<le> zb_size_real b1" using ok1 s'(1) by (simp add: zb_ok_def)
    obtain m' where m': "zput p s' b1 = Inr (b1\<lparr>zb_start := Some m'\<rparr>)" "length m' = zb_size_real b1"
      "take (p + length s') m' = take p (the (zb_start b1)) @ s'"
      by (rule zput_ok [OF ok1 fit])
    define b2 where "b2 = b1\<lparr>zb_start := Some m'\<rparr>"
    have tr: "zlog_buf_truncate b1 = Inr b2" using False m'(1)
      by (simp add: zlog_buf_truncate_def Let_def b2_def p_def s'_def b1_def)
    have k: "zb_kept b b2" using ok1 m'(2) by (auto simp: zb_kept_def zb_ok_def b1_def b2_def)
    have "ztext b2 = take p (the (zb_start b1)) @ s'" using m'(3) s'(1) by (simp add: ztext_def b2_def)
    also have "take p (the (zb_start b1)) = take p (ztext b1)" using s'(1) by (simp add: ztext_def b1_def)
    also have "p = zb_size_max b - 1 - length (zb_truncate_str b)" using room(2) assms(2) by (simp add: p_def b1_def)
    finally have "ztext b2 = zfit (zb_size_max b) (zb_truncate_str b) (ztext b @ t @ [CHR 0x00])"
      using t1 s'(2) room assms(2) by (simp add: zfit_def)
    then show thesis using that [of "b\<lparr>zb_start := Some m\<rparr>" b2] m(1) tr k by (simp add: b1_def)
  qed
qed

lemma ztext_len: "zb_ok b \<Longrightarrow> length (ztext b) = zb_tail b"
  by (auto simp: ztext_def zb_ok_def)

lemma put_ok:
  assumes "zb_ok b" "zb_tail b + length t < zb_size_real b" "length s \<le> 1"
  obtains b1 where "zput (zb_tail b) (t @ s) b = Inr b1" "zb_tail b1 = zb_tail b"
    "zb_kept b (b1\<lparr>zb_tail := zb_tail b + length t\<rparr>)" "ztext (b1\<lparr>zb_tail := zb_tail b + length t\<rparr>) = ztext b @ t"
proof -
  have room: "zb_tail b + length (t @ s) \<le> zb_size_real b" using assms by simp
  obtain m where m: "zput (zb_tail b) (t @ s) b = Inr (b\<lparr>zb_start := Some m\<rparr>)" "length m = zb_size_real b"
    "take (zb_tail b + length (t @ s)) m = take (zb_tail b) (the (zb_start b)) @ (t @ s)"
    by (rule zput_ok [OF assms(1) room])
  have "take (zb_tail b + length t) m = take (zb_tail b + length t) (take (zb_tail b) (the (zb_start b)) @ t @ s)"
    unfolding m(3) [symmetric] by simp
  moreover have "ztext b = take (zb_tail b) (the (zb_start b))" using assms(1) by (auto simp: ztext_def zb_ok_def)
  ultimately have "ztext (b\<lparr>zb_start := Some m, zb_tail := zb_tail b + length t\<rparr>) = ztext b @ t"
    using ztext_len [OF assms(1)] by (simp add: ztext_def)
  then show thesis using that [of "b\<lparr>zb_start := Some m\<rparr>"] m(1,2) assms(1,2) by (auto simp: zb_kept_def zb_ok_def)
qed

text \<open>What every writer does: the text is appended, and cut when it meets the limit.\<close>

definition writes :: "zbuf \<Rightarrow> string \<Rightarrow> (int \<times> zbuf) res \<Rightarrow> bool" where
  "writes b t r \<longleftrightarrow> (\<exists>b'. zb_kept b b' \<and> ztext b' = zfit (zb_size_max b) (zb_truncate_str b) (ztext b @ t) \<and>
     r = Inr (if zb_size_max b = 0 \<or> length (ztext b @ t) < zb_size_max b then 0 else 1, b'))"

lemma zb_end_ok: "zb_ok b \<Longrightarrow> zb_end_plus_1 b = zb_size_real b \<and> zb_end b = zb_size_real b - 1 \<and> zb_tail b \<le> zb_size_real b - 1"
  by (auto simp: zb_ok_def zb_end_def zb_end_plus_1_def)

lemma zb_kept_ok: "zb_kept b b' \<Longrightarrow> zb_ok b' \<and> zb_size_max b' = zb_size_max b \<and> zb_truncate_str b' = zb_truncate_str b"
  by (simp add: zb_kept_def)

lemma zfit_cut:
  assumes "mx \<noteq> 0" "mx \<le> length (x @ t)" "length x < mx"
  shows "zfit mx mark (x @ take (mx - 1 - length x) t @ [c]) = zfit mx mark (x @ t)"
proof -
  define u where "u = take (mx - 1) (x @ t)"
  have u: "x @ take (mx - 1 - length x) t @ [c] = u @ [c]" "length u = mx - 1" using assms by (simp_all add: u_def)
  have "take (mx - 1 - length mark) (u @ [c]) = take (mx - 1 - length mark) (x @ t)"
  proof -
    have "take (mx - 1 - length mark) (u @ [c]) = take (mx - 1 - length mark) u" using u(2) by simp
    then show ?thesis unfolding u_def take_take by (simp only: min_absorb1 diff_le_self)
  qed
  then show ?thesis unfolding u(1) using u(2) assms by (simp add: zfit_def)
qed

lemma append_writes:
  assumes ok: "zb_ok b" and al: "\<And>n. za_ok al n"
  shows "writes b t (zlog_buf_append al t b)"
proof (cases "zb_tail b + length t > zb_end b")
  case False
  then have fit: "zb_tail b + length t < zb_size_real b" using zb_end_ok [OF ok] ok by (auto simp: zb_ok_def)
  obtain b1 where b1: "zput (zb_tail b) (t @ []) b = Inr b1" "zb_tail b1 = zb_tail b"
    "zb_kept b (b1\<lparr>zb_tail := zb_tail b + length t\<rparr>)" "ztext (b1\<lparr>zb_tail := zb_tail b + length t\<rparr>) = ztext b @ t"
    using put_ok [OF ok fit, of "[]"] by (metis list.size(3) zero_le)
  have "zb_size_max b = 0 \<or> length (ztext b @ t) < zb_size_max b" using fit ok ztext_len [OF ok] by (auto simp: zb_ok_def)
  then show ?thesis using b1 False by (auto simp: writes_def zlog_buf_append_def zfit_def)
next
  case True
  define inc where "inc = length t - (zb_end b - zb_tail b)"
  have inc: "0 < inc" "zb_size_real b + inc = zb_tail b + length t + 1"
    using True zb_end_ok [OF ok] ok by (auto simp: inc_def zb_ok_def)
  obtain rc b1 where r: "zlog_buf_resize al inc b = (rc, b1)" by fastforce
  note rs = resize_ok [OF ok al inc(1) r]
  note k1 = zb_kept_ok [OF rs(1)]
  show ?thesis
  proof (cases "rc = 0")
    case fits: True
    have fit: "zb_tail b1 + length t < zb_size_real b1" using rs(2) rs(5) fits inc(2) by simp
    obtain b2 where b2: "zput (zb_tail b1) (t @ []) b1 = Inr b2" "zb_tail b2 = zb_tail b1"
      "zb_kept b1 (b2\<lparr>zb_tail := zb_tail b1 + length t\<rparr>)" "ztext (b2\<lparr>zb_tail := zb_tail b1 + length t\<rparr>) = ztext b1 @ t"
      using put_ok [of b1 t "[]"] k1 fit by (metis list.size(3) zero_le)
    have lim: "zb_size_max b = 0 \<or> length (ztext b @ t) < zb_size_max b"
      using rs(4) fits inc(2) ztext_len [OF ok] by (auto split: if_splits)
    have "zlog_buf_append al t b = Inr (0, b2\<lparr>zb_tail := zb_tail b1 + length t\<rparr>)"
      using True r fits b2(1,2) by (simp add: zlog_buf_append_def inc_def [symmetric])
    then show ?thesis using b2(3,4) rs(3) k1 lim by (auto simp: writes_def zb_kept_def zfit_def)
  next
    case False
    then have c: "rc = 1" "zb_size_max b \<noteq> 0" "zb_size_max b < zb_size_real b + inc" using rs(4) by (auto split: if_splits)
    define l where "l = zb_end b1 - zb_tail b1"
    have l: "l = zb_size_max b - 1 - zb_tail b" "length (take l t) = l"
      using c rs(2) rs(6) zb_end_ok [of b1] k1 inc(2) by (auto simp: l_def min_def)
    obtain b2 b3 where b: "zput (zb_tail b1) (take l t @ []) b1 = Inr b2"
      "zlog_buf_truncate (b2\<lparr>zb_tail := zb_tail b1 + length (take l t)\<rparr>) = Inr b3"
      "zb_kept b1 b3" "ztext b3 = zfit (zb_size_max b1) (zb_truncate_str b1) (ztext b1 @ take l t @ [CHR 0x00])"
      using cut_ok [of b1 "take l t" "[]"] k1 rs(2) rs(6) c(1) l by (metis list.size(3) zero_le)
    have over: "zb_size_max b \<le> length (ztext b @ t)" "length (ztext b) < zb_size_max b"
      using c inc(2) ztext_len [OF ok] ok by (auto simp: zb_ok_def)
    have "zb_tail b2 = zb_tail b1" using zput_tail [OF b(1)] by simp
    then have "zlog_buf_append al t b = Inr (1, b3)"
      using True r c(1) b(1,2) l(2) by (simp add: zlog_buf_append_def inc_def [symmetric] l_def [symmetric])
    then show ?thesis
      using b(3,4) rs(3) k1 c(2) over zfit_cut [OF c(2) over, of "zb_truncate_str b" "CHR 0x00"] l(1) ztext_len [OF ok]
      by (auto simp: writes_def zb_kept_def)
  qed
qed

lemma vsnprintf_put:
  assumes "0 < n" "length s < 2 ^ 31"
  shows "zvsnprintf n s b = rbind (zput (zb_tail b) (take (n - 1) s @ [CHR 0x00]) b) (\<lambda>b. Inr (int (length s), b))"
  using assms by (simp add: zvsnprintf_def)

lemma vprintf_writes:
  assumes ok: "zb_ok b" and al: "\<And>n. za_ok al n" and int: "length t < 2 ^ 31"
  shows "writes b t (zlog_buf_vprintf al t b)"
proof -
  define sl where "sl = zb_end_plus_1 b - zb_tail b"
  have sl: "0 < sl" "zb_tail b + sl = zb_size_real b" using zb_end_ok [OF ok] ok by (auto simp: sl_def zb_ok_def)
  have start: "zb_start b \<noteq> None" using ok by (auto simp: zb_ok_def)
  have shrt: "zb_tail b + length (take (sl - 1) t) < zb_size_real b" using sl by (auto simp: min_def)
  obtain b1 where b1: "zput (zb_tail b) (take (sl - 1) t @ [CHR 0x00]) b = Inr b1" "zb_tail b1 = zb_tail b"
    "zb_kept b (b1\<lparr>zb_tail := zb_tail b + length (take (sl - 1) t)\<rparr>)"
    "ztext (b1\<lparr>zb_tail := zb_tail b + length (take (sl - 1) t)\<rparr>) = ztext b @ take (sl - 1) t"
    by (rule put_ok [OF ok shrt, of "[CHR 0x00]"]) (simp, blast)
  have first: "zvsnprintf sl t b = Inr (int (length t), b1)" unfolding vsnprintf_put [OF sl(1) int] b1(1) by simp
  show ?thesis
  proof (cases "length t < sl")
    case True
    then have "take (sl - 1) t = t" by simp
    moreover have "zb_size_max b = 0 \<or> length (ztext b @ t) < zb_size_max b" using True sl ztext_len [OF ok] ok by (auto simp: zb_ok_def)
    ultimately show ?thesis using b1 True start
      by (auto simp: writes_def zlog_buf_vprintf_def sl_def [symmetric] first zfit_def)
  next
    case False
    have ok1: "zb_ok b1" "zb_kept b b1" "ztext b1 = ztext b" "zb_size_real b1 = zb_size_real b"
    proof -
      have "zb_tail b + length (take (sl - 1) t @ [CHR 0x00]) \<le> zb_size_real b" using shrt by simp
      then obtain m where m: "b1 = b\<lparr>zb_start := Some m\<rparr>" "length m = zb_size_real b"
        "take (zb_tail b + length (take (sl - 1) t @ [CHR 0x00])) m = take (zb_tail b) (the (zb_start b)) @ (take (sl - 1) t @ [CHR 0x00])"
        using b1(1) zput_ok [OF ok, of "zb_tail b" "take (sl - 1) t @ [CHR 0x00]"] by (metis sum.inject(2))
      have "take (zb_tail b) (take (zb_tail b + length (take (sl - 1) t @ [CHR 0x00])) m) = take (zb_tail b) (the (zb_start b))"
        unfolding m(3) using ok by (auto simp: zb_ok_def)
      then have "take (zb_tail b) m = take (zb_tail b) (the (zb_start b))" by simp
      then show "zb_ok b1" "zb_kept b b1" "ztext b1 = ztext b" "zb_size_real b1 = zb_size_real b"
        using ok m(1,2) by (auto simp: zb_ok_def zb_kept_def ztext_def)
    qed
    define inc where "inc = nat (int (length t)) - sl + 1"
    have inc: "0 < inc" "zb_size_real b + inc = zb_tail b + length t + 1" using False sl by (auto simp: inc_def)
    obtain rc b2 where r: "zlog_buf_resize al inc b1 = (rc, b2)" by fastforce
    note rs = resize_ok [OF ok1(1) al inc(1) r]
    note k1 = zb_kept_ok [OF ok1(2)] and k2 = zb_kept_ok [OF rs(1)]
    define l where "l = zb_end_plus_1 b2 - zb_tail b2"
    have l: "l = zb_size_real b2 - zb_tail b" "0 < l" using zb_end_ok k2 rs(2) b1(2) by (auto simp: l_def zb_ok_def)
    note second = vsnprintf_put [OF l(2) int]
    show ?thesis
    proof (cases "rc = 0")
      case fits: True
      have fit: "zb_tail b2 + length t < zb_size_real b2" using rs(2) rs(5) fits inc(2) b1(2) ok1(4) by simp
      have tk: "take (l - 1) t = t" using fit l rs(2) b1(2) by simp
      obtain b3 where b3: "zput (zb_tail b2) (t @ [CHR 0x00]) b2 = Inr b3" "zb_tail b3 = zb_tail b2"
        "zb_kept b2 (b3\<lparr>zb_tail := zb_tail b2 + length t\<rparr>)" "ztext (b3\<lparr>zb_tail := zb_tail b2 + length t\<rparr>) = ztext b2 @ t"
        using k2 by (elim conjE) (rule put_ok [OF _ fit, of "[CHR 0x00]"], assumption, simp, blast)
      have lim: "zb_size_max b = 0 \<or> length (ztext b @ t) < zb_size_max b"
        using rs(4) fits inc(2) ztext_len [OF ok] k1 ok1(4) by (auto split: if_splits)
      have "zlog_buf_vprintf al t b = Inr (0, b3\<lparr>zb_tail := zb_tail b2 + length t\<rparr>)"
        using False start fits b3(1,2)
        unfolding zlog_buf_vprintf_def Let_def sl_def [symmetric] first rbind.simps prod.case inc_def [symmetric] r
          l_def [symmetric] second tk by simp
      then show ?thesis using b3(3,4) rs(3) k1 k2 lim ok1(3) by (auto simp: writes_def zb_kept_def zfit_def)
    next
      case rc: False
      then have c: "rc = 1" "zb_size_max b \<noteq> 0" "zb_size_max b < zb_size_real b + inc"
        using rs(4) k1 ok1(4) by (auto split: if_splits)
      have l1: "l - 1 = zb_size_max b - 1 - zb_tail b" "length (take (l - 1) t) = l - 1"
        using c rs(6) l k1 inc(2) by (auto simp: min_def)
      obtain b3 b4 where b: "zput (zb_tail b2) (take (l - 1) t @ [CHR 0x00]) b2 = Inr b3"
        "zlog_buf_truncate (b3\<lparr>zb_tail := zb_tail b2 + length (take (l - 1) t)\<rparr>) = Inr b4"
        "zb_kept b2 b4" "ztext b4 = zfit (zb_size_max b2) (zb_truncate_str b2) (ztext b2 @ take (l - 1) t @ [CHR 0x00])"
        using cut_ok [of b2 "take (l - 1) t" "[CHR 0x00]"] k1 k2 rs(2) rs(6) c(1) l1 b1(2)
        by (metis One_nat_def le_refl length_Cons list.size(3))
      have over: "zb_size_max b \<le> length (ztext b @ t)" "length (ztext b) < zb_size_max b"
        using c inc(2) ztext_len [OF ok] ok by (auto simp: zb_ok_def)
      have "zb_tail b3 = zb_tail b2" using zput_tail [OF b(1)] by simp
      then have "zlog_buf_vprintf al t b = Inr (1, b4)"
        using False start c(1) b(2) l1(2)
        unfolding zlog_buf_vprintf_def Let_def sl_def [symmetric] first rbind.simps prod.case inc_def [symmetric] r
          l_def [symmetric] second b(1) by simp
      then show ?thesis
        using b(3,4) rs(3) k1 k2 c(2) over zfit_cut [OF c(2) over, of "zb_truncate_str b" "CHR 0x00"] l1(1) ztext_len [OF ok] ok1(3)
        by (auto simp: writes_def zb_kept_def)
    qed
  qed
qed

datatype zop =
    Zappend string
  | Zvprintf string
  | Zdec32 u32 int
  | Zdec64 u64 int
  | Zhex u32 int
  | Zadjust string bool bool nat nat

fun zop_run :: "zalloc \<Rightarrow> zop \<Rightarrow> zbuf \<Rightarrow> (int \<times> zbuf) res" where
  "zop_run al (Zappend s) b = zlog_buf_append al s b"
| "zop_run al (Zvprintf s) b = zlog_buf_vprintf al s b"
| "zop_run al (Zdec32 n w) b = zlog_buf_printf_dec32 al n w b"
| "zop_run al (Zdec64 n w) b = zlog_buf_printf_dec64 al n w b"
| "zop_run al (Zhex n w) b = zlog_buf_printf_hex al n w b"
| "zop_run al (Zadjust s l z iw ow) b = zlog_buf_adjust_append al s l z iw ow b"

fun zop_text :: "zop \<Rightarrow> string" where
  "zop_text (Zappend s) = s"
| "zop_text (Zvprintf s) = s"
| "zop_text (Zdec32 n w) = pad w (decimal (unat n))"
| "zop_text (Zdec64 n w) = pad w (decimal (unat n))"
| "zop_text (Zhex n w) = pad w (hexadecimal (unat n))"
| "zop_text (Zadjust s l z iw ow) = adjust_text s l z iw ow"

text \<open>Widths are not negative, and a formatted text has a length that is an \<open>int\<close>.\<close>

fun zop_fine :: "zop \<Rightarrow> bool" where
  "zop_fine (Zvprintf s) = (length s < 2 ^ 31)"
| "zop_fine (Zdec32 n w) = (0 \<le> w)"
| "zop_fine (Zdec64 n w) = (0 \<le> w)"
| "zop_fine (Zhex n w) = (0 \<le> w)"
| "zop_fine op = True"

lemma digits_words:
  "digit_loop 10 11 (unat (n :: u32)) [] = Inr (decimal (unat n))"
  "digit_loop 10 20 (unat (m :: u64)) [] = Inr (decimal (unat m))"
  "digit_loop 16 11 (unat n) [] = Inr (hexadecimal (unat n))"
  using unsigned_less [of n, where ?'a = nat] unsigned_less [of m, where ?'a = nat]
    digits_dec [of "unat n" 11 "[]"] digits_dec [of "unat m" 20 "[]"] digits_hex [of "unat n" 11 "[]"]
  by simp_all

lemma zop_writes:
  assumes "zb_ok b" "\<And>n. za_ok al n" "zop_fine op"
  shows "writes b (zop_text op) (zop_run al op b)"
proof -
  obtain m where "zb_start b = Some m" using assms(1) by (auto simp: zb_ok_def)
  then show ?thesis using assms
    by (cases op) (simp_all add: append_writes vprintf_writes adjust_appends number_appends zlog_buf_printf_dec32_def
        zlog_buf_printf_dec64_def zlog_buf_printf_hex_def digits_words del: digit_loop.simps)
qed

text \<open>The writes of one line, in their order.\<close>

fun zops_run :: "zalloc \<Rightarrow> zop list \<Rightarrow> zbuf \<Rightarrow> zbuf res" where
  "zops_run al [] b = Inr b"
| "zops_run al (op # ops) b = rbind (zop_run al op b) (\<lambda>(rc, b). zops_run al ops b)"

lemma zops_text:
  assumes "\<And>n. za_ok al n"
  shows "zb_ok b \<Longrightarrow> (\<And>op. op \<in> set ops \<Longrightarrow> zop_fine op) \<Longrightarrow>
    \<exists>b'. zops_run al ops b = Inr b' \<and> zb_kept b b' \<and>
      ztext b' = zfit (zb_size_max b) (zb_truncate_str b) (ztext b @ concat (map zop_text ops))"
proof (induction ops arbitrary: b)
  case Nil
  then show ?case using ztext_len [of b] by (auto simp: zb_kept_def zfit_def zb_ok_def)
next
  case (Cons op ops)
  obtain rc b1 where b1: "zop_run al op b = Inr (rc, b1)" "zb_kept b b1"
    "ztext b1 = zfit (zb_size_max b) (zb_truncate_str b) (ztext b @ zop_text op)"
    using zop_writes [of b al op] Cons.prems assms by (auto simp: writes_def)
  obtain b2 where b2: "zops_run al ops b1 = Inr b2" "zb_kept b1 b2"
    "ztext b2 = zfit (zb_size_max b1) (zb_truncate_str b1) (ztext b1 @ concat (map zop_text ops))"
    using Cons.IH [of b1] Cons.prems b1(2) by (auto simp: zb_kept_def)
  then show ?case using b1 by (auto simp: zb_kept_def zfit_zfit)
qed

lemma new_ok:
  assumes "zlog_buf_new al mn mx mark = Some b"
  shows "zb_ok b" "zb_size_max b = mx" "zb_truncate_str b = (case mark of None \<Rightarrow> [] | Some t \<Rightarrow> t)" "ztext b = []"
  using assms by (auto simp: zlog_buf_new_def zb_ok_def ztext_def split: if_splits option.splits)

lemma restart_ok: "zb_kept b0 b \<Longrightarrow> zb_kept b0 (zlog_buf_restart b) \<and> ztext (zlog_buf_restart b) = []"
  by (auto simp: zlog_buf_restart_def zb_kept_def zb_ok_def ztext_def)

text \<open>
  C36: A buffer of the log that was made with the limit \<open>mx\<close> and any earlier line in it takes the next line: after any
  sequence of texts, numbers and adjusted texts it holds exactly their texts one after the other, whatever its size was
  at the start; when they do not fit the limit it holds their beginning with the mark at the end, and never more bytes
  than the limit allows.
\<close>

theorem log_line_complete:
  assumes "zlog_buf_new al mn mx mark = Some b0" "\<And>n. za_ok al n"
    and "\<And>op. op \<in> set before \<Longrightarrow> zop_fine op" "\<And>op. op \<in> set line \<Longrightarrow> zop_fine op"
  shows "\<exists>b1 b2. zops_run al before b0 = Inr b1 \<and> zops_run al line (zlog_buf_restart b1) = Inr b2 \<and>
    ztext b2 = zfit mx (case mark of None \<Rightarrow> [] | Some t \<Rightarrow> t) (concat (map zop_text line)) \<and>
    zb_tail b2 < zb_size_real b2 \<and> (mx \<noteq> 0 \<longrightarrow> zb_size_real b2 \<le> mx)"
proof -
  note n = new_ok [OF assms(1)]
  obtain b1 where b1: "zops_run al before b0 = Inr b1" "zb_kept b0 b1"
    using zops_text [OF assms(2) n(1) assms(3)] by blast
  note r = restart_ok [OF b1(2)]
  obtain b2 where b2: "zops_run al line (zlog_buf_restart b1) = Inr b2" "zb_kept (zlog_buf_restart b1) b2"
    "ztext b2 = zfit (zb_size_max (zlog_buf_restart b1)) (zb_truncate_str (zlog_buf_restart b1))
      (ztext (zlog_buf_restart b1) @ concat (map zop_text line))"
    using zops_text [OF assms(2) _ assms(4)] r by (meson zb_kept_def)
  then show ?thesis using b1 r n by (auto simp: zb_kept_def zb_ok_def)
qed

theorem log_line_complete_witness:
  "\<exists>b1 b2. zops_run \<lparr>za_ok = (\<lambda>_. True), za_junk = (\<lambda>_. CHR ''?'')\<rparr> [Zvprintf ''started''] \<lparr>zb_start = Some ([CHR 0x00]), zb_tail = 0,
      zb_size_min = 1, zb_size_max = 16, zb_size_real = 1, zb_truncate_str = ''...''\<rparr> = Inr b1 \<and>
    zops_run \<lparr>za_ok = (\<lambda>_. True), za_junk = (\<lambda>_. CHR ''?'')\<rparr> [Zappend ''slot '', Zdec32 7 2, Zadjust ''mac'' True False 5 0, Zhex 255 0, Zappend ''!!'']
      (zlog_buf_restart b1) = Inr b2 \<and>
    ztext b2 = ''slot 07mac  ...''"
proof -
  let ?al = "\<lparr>za_ok = (\<lambda>_. True), za_junk = (\<lambda>_. CHR ''?'')\<rparr> :: zalloc"
  have new: "zlog_buf_new ?al 1 16 (Some ''...'') = Some \<lparr>zb_start = Some ([CHR 0x00]), zb_tail = 0,
      zb_size_min = 1, zb_size_max = 16, zb_size_real = 1, zb_truncate_str = ''...''\<rparr>"
    by (simp add: zlog_buf_new_def)
  let ?ops = "[Zappend ''slot '', Zdec32 7 2, Zadjust ''mac'' True False 5 0, Zhex 255 0, Zappend ''!!'']"
  have two: "replicate 2 c = [c, c]" for c :: char by (simp add: numeral_2_eq_2)
  have c: "concat (map zop_text ?ops) = ''slot 07mac  ff!!''"
    by (simp add: pad_def decimal.simps hexadecimal.simps adjust_text_def char_of_def bit_0 two)
  have t: "zfit 16 ''...'' (concat (map zop_text ?ops)) = ''slot 07mac  ...''"
    unfolding c by (simp add: zfit_def)
  show ?thesis
    using log_line_complete [OF new, of "[Zvprintf ''started'']" ?ops] unfolding t option.case by fastforce
qed

end
