(* ===== verification/ZlogList.thy ===== *)
theory ZlogList
  imports ZlogBuf "HOL-Library.Sublist"
begin

unbundle bit_operations_syntax

text \<open>
  The lists of zlog (\<open>zc_arraylist.c\<close>), its levels (\<open>level.c\<close>, \<open>level_list.c\<close>) and the categories with the rules that
  fit them (\<open>category.c\<close>, and of \<open>rule.c\<close> what decides whether a rule fits). A list holds pointers, \<open>None\<close> is the null
  pointer; the allocator is asked for the bytes that the code asks for. The sizes of lists stay far below \<open>2\<^sup>3\<^sup>1\<close>.
\<close>

section \<open>Lists\<close>

record 'a zlist =
  al_array :: "'a option list"
  al_len :: nat
  al_size :: nat
  al_del :: bool

definition zc_arraylist_new :: "zalloc \<Rightarrow> bool \<Rightarrow> 'a zlist option" where
  "zc_arraylist_new al del =
     (if \<not> za_ok al 24 then None
      else if \<not> za_ok al (32 * 8) then None
      else Some \<lparr>al_array = replicate 32 None, al_len = 0, al_size = 32, al_del = del\<rparr>)"

text \<open>The elements that are given to the destructor.\<close>

definition zc_arraylist_del :: "'a zlist option \<Rightarrow> 'a list" where
  "zc_arraylist_del l =
     (case l of
        None \<Rightarrow> []
      | Some l \<Rightarrow> if al_del l then map the (filter (\<lambda>e. e \<noteq> None) (take (al_len l) (al_array l))) else [])"

definition zc_arraylist_expand_inner :: "zalloc \<Rightarrow> nat \<Rightarrow> 'a zlist \<Rightarrow> int \<times> 'a zlist" where
  "zc_arraylist_expand_inner al mx l =
     (let new_size = max (al_size l * 2) mx in
      if \<not> za_ok al (new_size * 8) then (- 1, l)
      else (0, l\<lparr>al_array := al_array l @ replicate (new_size - al_size l) None, al_size := new_size\<rparr>))"

text \<open>The result, the list, and the element that is given to the destructor.\<close>

definition zc_arraylist_set :: "zalloc \<Rightarrow> nat \<Rightarrow> 'a option \<Rightarrow> 'a zlist \<Rightarrow> (int \<times> 'a zlist \<times> 'a option) res" where
  "zc_arraylist_set al idx data l =
     (case (if int idx > int (al_size l) - 1 then zc_arraylist_expand_inner al idx l else (0, l)) of (rc, l) \<Rightarrow>
        if rc \<noteq> 0 then Inr (- 1, l, None)
        else rbind (rd (al_array l) idx) (\<lambda>old.
          Inr (0, l\<lparr>al_array := (al_array l)[idx := data], al_len := (if al_len l \<le> idx then idx + 1 else al_len l)\<rparr>,
            if al_del l then old else None)))"

definition zc_arraylist_add :: "zalloc \<Rightarrow> 'a option \<Rightarrow> 'a zlist \<Rightarrow> (int \<times> 'a zlist \<times> 'a option) res" where
  "zc_arraylist_add al data l = zc_arraylist_set al (al_len l) data l"

definition zc_arraylist_insert_inner :: "zalloc \<Rightarrow> nat \<Rightarrow> 'a option \<Rightarrow> 'a zlist \<Rightarrow> (int \<times> 'a zlist) res" where
  "zc_arraylist_insert_inner al idx data l =
     rbind (rd (al_array l) idx) (\<lambda>old.
     if old = None then Inr (0, l\<lparr>al_array := (al_array l)[idx := data]\<rparr>)
     else
       case (if int (al_len l) > int (al_size l) - 1 then zc_arraylist_expand_inner al 0 l else (0, l)) of (rc, l) \<Rightarrow>
         if rc \<noteq> 0 then Inr (- 1, l)
         else rbind (wr_block (al_array l) (idx + 1) (take (al_len l - idx) (drop idx (al_array l)))) (\<lambda>a.
           Inr (0, l\<lparr>al_array := a[idx := data], al_len := al_len l + 1\<rparr>)))"

fun sort_place :: "('a option \<Rightarrow> 'a option \<Rightarrow> int) \<Rightarrow> 'a option \<Rightarrow> 'a option list \<Rightarrow> nat" where
  "sort_place cmp data [] = 0"
| "sort_place cmp data (x # xs) = (if cmp x data > 0 then 0 else Suc (sort_place cmp data xs))"

definition zc_arraylist_sortadd :: "zalloc \<Rightarrow> ('a option \<Rightarrow> 'a option \<Rightarrow> int) \<Rightarrow> 'a option \<Rightarrow> 'a zlist \<Rightarrow> (int \<times> 'a zlist) res" where
  "zc_arraylist_sortadd al cmp data l =
     (let i = sort_place cmp data (take (al_len l) (al_array l)) in
      if i = al_len l then rbind (zc_arraylist_add al data l) (\<lambda>(rc, l, _). Inr (rc, l))
      else zc_arraylist_insert_inner al i data l)"

text \<open>The macros; an index of the caller is an \<open>int\<close>.\<close>

definition zc_arraylist_get :: "'a zlist \<Rightarrow> int \<Rightarrow> 'a option res" where
  "zc_arraylist_get l i = (if i \<ge> int (al_len l) then Inr None else if i < 0 then Inl OutOfRange else rd (al_array l) (nat i))"

definition zl_items :: "'a zlist \<Rightarrow> 'a option list" where
  "zl_items l = take (al_len l) (al_array l)"

section \<open>Levels\<close>

record zlevel =
  lv_int_level :: int
  lv_str_uppercase :: string
  lv_str_lowercase :: string
  lv_str_len :: nat
  lv_syslog_level :: int

definition is_space :: "char \<Rightarrow> bool" where
  "is_space c \<longleftrightarrow> c \<in> {CHR '' '', CHR 0x09, CHR 0x0A, CHR 0x0B, CHR 0x0C, CHR 0x0D}"

definition toupper :: "char \<Rightarrow> char" where
  "toupper c = (let n = of_char c :: nat in if 97 \<le> n \<and> n \<le> 122 then char_of (n - 32) else c)"

definition tolower :: "char \<Rightarrow> char" where
  "tolower c = (let n = of_char c :: nat in if 65 \<le> n \<and> n \<le> 90 then char_of (n + 32) else c)"

definition strieq :: "string \<Rightarrow> string \<Rightarrow> bool" where
  "strieq a b \<longleftrightarrow> map tolower a = map tolower b"

definition syslog_level_atoi :: "string \<Rightarrow> int" where
  "syslog_level_atoi str =
     (if strieq str ''LOG_EMERG'' then 0
      else if strieq str ''LOG_ALERT'' then 1
      else if strieq str ''LOG_CRIT'' then 2
      else if strieq str ''LOG_ERR'' then 3
      else if strieq str ''LOG_WARNING'' then 4
      else if strieq str ''LOG_NOTICE'' then 5
      else if strieq str ''LOG_INFO'' then 6
      else if strieq str ''LOG_DEBUG'' then 7
      else - 187)"

text \<open>
  \<open>sscanf\<close> with the format \<open>" %[^= \t] = %d ,%s"\<close>: how many items, and the items. A number is read as a \<open>long\<close>, at its limits
  when it exceeds them, and its lower 32 bits are stored, as in glibc.
\<close>

definition to_int :: "int \<Rightarrow> int" where
  "to_int n = signed_take_bit 31 (max (- (2 ^ 63)) (min (2 ^ 63 - 1) n))"

definition scan_int :: "string \<Rightarrow> (int \<times> string) option" where
  "scan_int s =
     (let s = dropWhile is_space s;
          (neg, s) = (case s of c # r \<Rightarrow> if c = CHR ''-'' then (True, r) else if c = CHR ''+'' then (False, r) else (False, s) | [] \<Rightarrow> (False, s));
          ds = takeWhile (\<lambda>c. 48 \<le> (of_char c :: nat) \<and> (of_char c :: nat) \<le> 57) s;
          n = foldl (\<lambda>n c. n * 10 + (int (of_char c) - 48)) 0 ds
      in if ds = [] then None else Some (to_int (if neg then - n else n), drop (length ds) s))"

definition scan_level :: "string \<Rightarrow> nat \<times> string \<times> int \<times> string" where
  "scan_level line =
     (let in_name = (\<lambda>c. c \<notin> {CHR ''='', CHR '' '', CHR 0x09});
          s = dropWhile is_space line; str = takeWhile in_name s; s = dropWhile is_space (dropWhile in_name s)
      in if str = [] then (0, [], 0, [])
         else case s of
           [] \<Rightarrow> (1, str, 0, [])
         | c # s \<Rightarrow>
             if c \<noteq> CHR ''='' then (1, str, 0, [])
             else case scan_int s of
               None \<Rightarrow> (1, str, 0, [])
             | Some (l, s) \<Rightarrow>
                 (case dropWhile is_space s of
                    [] \<Rightarrow> (2, str, l, [])
                  | c # s \<Rightarrow>
                      let sl = takeWhile (\<lambda>c. \<not> is_space c) (dropWhile is_space s) in
                      if c \<noteq> CHR '','' \<or> sl = [] then (2, str, l, []) else (3, str, l, sl)))"

definition zlog_level_new :: "zalloc \<Rightarrow> string option \<Rightarrow> zlevel option" where
  "zlog_level_new al line =
     (case line of
        None \<Rightarrow> None
      | Some line \<Rightarrow>
          case scan_level line of (nscan, str, l, sl) \<Rightarrow>
            if nscan < 2 then None
            else if l < 0 \<or> l > 255 then None
            else if str = [] then None
            else if \<not> za_ok al 2072 then None
            else
              let syslog = (if sl = [] then 7 else syslog_level_atoi sl) in
              if syslog = - 187 then None
              else if length str > 1024 then None
              else Some \<lparr>lv_int_level = l, lv_str_uppercase = map toupper str, lv_str_lowercase = map tolower str,
                lv_str_len = length str, lv_syslog_level = syslog\<rparr>)"

text \<open>The level that was in the slot is deleted by \<open>zc_arraylist_set\<close>.\<close>

definition zlog_level_list_set :: "zalloc \<Rightarrow> string option \<Rightarrow> zlevel zlist \<Rightarrow> (int \<times> zlevel zlist) res" where
  "zlog_level_list_set al line levels =
     (case zlog_level_new al line of
        None \<Rightarrow> Inr (- 1, levels)
      | Some lv \<Rightarrow> rbind (zc_arraylist_set al (nat (lv_int_level lv)) (Some lv) levels) (\<lambda>(rc, levels, _).
          Inr (if rc \<noteq> 0 then (- 1, levels) else (0, levels))))"

fun set_lines :: "zalloc \<Rightarrow> string list \<Rightarrow> zlevel zlist \<Rightarrow> (int \<times> zlevel zlist) res" where
  "set_lines al [] levels = Inr (0, levels)"
| "set_lines al (line # lines) levels = rbind (zlog_level_list_set al (Some line) levels) (\<lambda>(rc, levels).
     if rc \<noteq> 0 then Inr (1, levels) else set_lines al lines levels)"

definition default_levels :: "string list" where
  "default_levels = [''* = 0, LOG_INFO'', ''DEBUG = 20, LOG_DEBUG'', ''INFO = 40, LOG_INFO'', ''NOTICE = 60, LOG_NOTICE'',
     ''WARN = 80, LOG_WARNING'', ''ERROR = 100, LOG_ERR'', ''FATAL = 120, LOG_ALERT'', ''UNKNOWN = 254, LOG_ERR'', ''! = 255, LOG_INFO'']"

definition zlog_level_list_new :: "zalloc \<Rightarrow> zlevel zlist option res" where
  "zlog_level_list_new al =
     (case zc_arraylist_new al True of
        None \<Rightarrow> Inr None
      | Some levels \<Rightarrow> rbind (set_lines al default_levels levels) (\<lambda>(rc, levels). Inr (if rc \<noteq> 0 then None else Some levels)))"

definition zlog_level_list_get :: "zlevel zlist \<Rightarrow> int \<Rightarrow> zlevel option res" where
  "zlog_level_list_get levels l =
     rbind (zc_arraylist_get levels l) (\<lambda>lv.
       if lv \<noteq> None then Inr lv else zc_arraylist_get levels 254)"

fun level_named :: "string \<Rightarrow> zlevel option list \<Rightarrow> int \<Rightarrow> int" where
  "level_named str [] i = - 1"
| "level_named str (lv # lvs) i =
     (if (case lv of None \<Rightarrow> False | Some lv \<Rightarrow> strieq str (lv_str_uppercase lv)) then i else level_named str lvs (i + 1))"

definition zlog_level_list_atoi :: "zlevel zlist \<Rightarrow> string option \<Rightarrow> int" where
  "zlog_level_list_atoi levels str =
     (case str of
        None \<Rightarrow> - 1
      | Some str \<Rightarrow> if str = [] then - 1 else level_named str (zl_items levels) 0)"

section \<open>Categories\<close>

text \<open>Of a rule: the category it is for, and the bits of the levels it wants (\<open>rule.h\<close>).\<close>

record zrule =
  zr_category :: string
  zr_level_bitmap :: "u8 list"

definition zlog_rule_is_wastebin :: "zrule option \<Rightarrow> int" where
  "zlog_rule_is_wastebin r = (case r of None \<Rightarrow> - 1 | Some r \<Rightarrow> of_bool (zr_category r = ''!''))"

definition zlog_rule_match_category :: "zrule option \<Rightarrow> string \<Rightarrow> int res" where
  "zlog_rule_match_category r category =
     (case r of
        None \<Rightarrow> Inr (- 1)
      | Some r \<Rightarrow>
          if zr_category r = ''*'' then Inr 1
          else if zr_category r = category then Inr 1
          else if zr_category r = [] then Inl OutOfRange
          else
            let n = length (zr_category r) in
            if zr_category r ! (n - 1) = CHR ''_'' then
              let n = (if length category = n - 1 then n - 1 else n) in
              Inr (if take n (zr_category r) = take n category then 1 else 0)
            else Inr 0)"

text \<open>The rules of a list are pointers into the memory of rules.\<close>

record zcategory =
  ca_name :: string
  ca_name_len :: nat
  ca_level_bitmap :: "u8 list"
  ca_level_bitmap_backup :: "u8 list"
  ca_fit_rules :: "nat zlist option"
  ca_fit_rules_backup :: "nat zlist option"

definition zlog_cateogry_overlap_bitmap :: "zcategory \<Rightarrow> zrule option \<Rightarrow> zcategory res" where
  "zlog_cateogry_overlap_bitmap c r =
     (case r of
        None \<Rightarrow> Inl NullDeref
      | Some r \<Rightarrow> Inr (c\<lparr>ca_level_bitmap := map2 (OR) (ca_level_bitmap c) (zr_level_bitmap r)\<rparr>))"

definition rule_at :: "(nat \<rightharpoonup> zrule) \<Rightarrow> nat option \<Rightarrow> zrule option res" where
  "rule_at rh p = (case p of None \<Rightarrow> Inr None | Some a \<Rightarrow> (case rh a of None \<Rightarrow> Inl Undefined | Some r \<Rightarrow> Inr (Some r)))"

text \<open>A rule is taken: added to the list, and its levels to the bitmap.\<close>

definition take_rule :: "zalloc \<Rightarrow> nat option \<Rightarrow> zrule option \<Rightarrow> nat zlist \<Rightarrow> zcategory \<Rightarrow> (int \<times> nat zlist \<times> zcategory) res" where
  "take_rule al p r l c =
     rbind (zc_arraylist_add al p l) (\<lambda>(rc, l, _).
     if rc \<noteq> 0 then Inr (- 1, l, c)
     else rbind (zlog_cateogry_overlap_bitmap c r) (\<lambda>c. Inr (0, l, c)))"

fun obtain_loop :: "zalloc \<Rightarrow> (nat \<rightharpoonup> zrule) \<Rightarrow> nat option list \<Rightarrow> nat \<Rightarrow> nat option \<Rightarrow> nat zlist \<Rightarrow> zcategory
    \<Rightarrow> (int \<times> nat \<times> nat option \<times> nat zlist \<times> zcategory) res" where
  "obtain_loop al rh [] count wastebin l c = Inr (0, count, wastebin, l, c)"
| "obtain_loop al rh (p # ps) count wastebin l c =
     rbind (rule_at rh p) (\<lambda>r.
     rbind (zlog_rule_match_category r (ca_name c)) (\<lambda>fit.
     rbind (if fit \<noteq> 0 then take_rule al p r l c else Inr (0, l, c)) (\<lambda>(rc, l, c).
       if rc \<noteq> 0 then Inr (- 1, count, wastebin, l, c)
       else obtain_loop al rh ps (if fit \<noteq> 0 then count + 1 else count)
         (if zlog_rule_is_wastebin r \<noteq> 0 then p else wastebin) l c)))"

definition zlog_category_obtain_rules :: "zalloc \<Rightarrow> (nat \<rightharpoonup> zrule) \<Rightarrow> nat zlist \<Rightarrow> zcategory \<Rightarrow> (int \<times> zcategory) res" where
  "zlog_category_obtain_rules al rh rules c =
     (let c = c\<lparr>ca_level_bitmap := replicate 32 0\<rparr> in
      case zc_arraylist_new al False of
        None \<Rightarrow> Inr (- 1, c\<lparr>ca_fit_rules := None\<rparr>)
      | Some l \<Rightarrow>
          rbind (obtain_loop al rh (zl_items rules) 0 None l c) (\<lambda>(rc, count, wastebin, l, c).
          if rc \<noteq> 0 then Inr (- 1, c\<lparr>ca_fit_rules := None\<rparr>)
          else if count = 0 \<and> wastebin \<noteq> None then
            rbind (rule_at rh wastebin) (\<lambda>r.
            rbind (take_rule al wastebin r l c) (\<lambda>(rc, l, c).
              Inr (if rc \<noteq> 0 then (- 1, c\<lparr>ca_fit_rules := None\<rparr>) else (0, c\<lparr>ca_fit_rules := Some l\<rparr>))))
          else Inr (0, c\<lparr>ca_fit_rules := Some l\<rparr>)))"

definition zlog_category_new :: "zalloc \<Rightarrow> (nat \<rightharpoonup> zrule) \<Rightarrow> string \<Rightarrow> nat zlist \<Rightarrow> zcategory option res" where
  "zlog_category_new al rh name rules =
     (if length name > 1024 then Inr None
      else if \<not> za_ok al 1120 then Inr None
      else rbind (zlog_category_obtain_rules al rh rules \<lparr>ca_name = name, ca_name_len = length name,
          ca_level_bitmap = replicate 32 0, ca_level_bitmap_backup = replicate 32 0, ca_fit_rules = None, ca_fit_rules_backup = None\<rparr>)
        (\<lambda>(rc, c). Inr (if rc \<noteq> 0 then None else Some c)))"

definition zlog_category_update_rules :: "zalloc \<Rightarrow> (nat \<rightharpoonup> zrule) \<Rightarrow> nat zlist \<Rightarrow> zcategory \<Rightarrow> (int \<times> zcategory) res" where
  "zlog_category_update_rules al rh new_rules c =
     rbind (zlog_category_obtain_rules al rh new_rules
         (c\<lparr>ca_fit_rules_backup := ca_fit_rules c, ca_fit_rules := None, ca_level_bitmap_backup := ca_level_bitmap c\<rparr>))
       (\<lambda>(rc, c). Inr (if rc \<noteq> 0 then (- 1, c\<lparr>ca_fit_rules := None\<rparr>) else (0, c)))"

definition zlog_category_commit_rules :: "zcategory \<Rightarrow> zcategory" where
  "zlog_category_commit_rules c =
     (if ca_fit_rules_backup c = None then c
      else c\<lparr>ca_fit_rules_backup := None, ca_level_bitmap_backup := replicate 32 0\<rparr>)"

definition zlog_category_rollback_rules :: "zcategory \<Rightarrow> zcategory" where
  "zlog_category_rollback_rules c =
     (if ca_fit_rules_backup c = None then c
      else c\<lparr>ca_fit_rules := ca_fit_rules_backup c, ca_fit_rules_backup := None,
        ca_level_bitmap := ca_level_bitmap_backup c, ca_level_bitmap_backup := replicate 32 0\<rparr>)"

text \<open>\<open>zlog_rule_output\<close> is a parameter; its result for the last rule is the result.\<close>

fun output_loop :: "(nat option \<Rightarrow> 's \<Rightarrow> int \<times> 's) \<Rightarrow> nat option list \<Rightarrow> int \<Rightarrow> 's \<Rightarrow> int \<times> 's" where
  "output_loop out [] rc s = (rc, s)"
| "output_loop out (p # ps) rc s = (case out p s of (rc, s) \<Rightarrow> output_loop out ps rc s)"

definition zlog_category_output :: "(nat option \<Rightarrow> 's \<Rightarrow> int \<times> 's) \<Rightarrow> zcategory \<Rightarrow> 's \<Rightarrow> (int \<times> 's) res" where
  "zlog_category_output out c s =
     (case ca_fit_rules c of
        None \<Rightarrow> Inl NullDeref
      | Some l \<Rightarrow> Inr (output_loop out (zl_items l) 0 s))"

definition zlog_category_needless_level :: "zcategory \<Rightarrow> nat \<Rightarrow> bool res" where
  "zlog_category_needless_level c lv =
     rbind (rd (ca_level_bitmap c) (lv div 8)) (\<lambda>b. Inr (drop_bit (7 - lv mod 8) b AND 1 = 0))"

section \<open>The contents of a list\<close>

text \<open>The invariant: the slots behind the end are empty.\<close>

definition zl_ok :: "'a zlist \<Rightarrow> bool" where
  "zl_ok l \<longleftrightarrow> length (al_array l) = al_size l \<and> al_len l \<le> al_size l \<and> 0 < al_size l \<and>
     drop (al_len l) (al_array l) = replicate (al_size l - al_len l) None"

definition put_at :: "nat \<Rightarrow> 'a option \<Rightarrow> 'a option list \<Rightarrow> 'a option list" where
  "put_at i x xs = (if i < length xs then xs[i := x] else xs @ replicate (i - length xs) None @ [x])"

lemma new_list_ok:
  assumes "zc_arraylist_new al del = Some l"
  shows "zl_ok l" "zl_items l = []" "al_size l = 32"
  using assms by (auto simp: zc_arraylist_new_def zl_ok_def zl_items_def split: if_splits)

lemma zl_array: "zl_ok l \<Longrightarrow> al_array l = zl_items l @ replicate (al_size l - al_len l) None \<and> length (zl_items l) = al_len l"
  unfolding zl_ok_def zl_items_def by (metis append_take_drop_id length_take min_absorb2)

lemma expand_ok:
  assumes "zl_ok l" "zc_arraylist_expand_inner al mx l = (0, l')"
  shows "zl_ok l'" "zl_items l' = zl_items l" "al_size l' = max (al_size l * 2) mx" "al_len l' = al_len l" "al_del l' = al_del l"
  using assms
  by (auto simp: zc_arraylist_expand_inner_def Let_def zl_ok_def zl_items_def replicate_add [symmetric] split: if_splits)

lemma zl_okI:
  "al_array l = xs @ replicate n None \<Longrightarrow> al_len l = length xs \<Longrightarrow> al_size l = length xs + n \<Longrightarrow> 0 < al_size l \<Longrightarrow>
    zl_ok l \<and> zl_items l = xs"
  by (simp add: zl_ok_def zl_items_def)

lemma list_update_put:
  fixes data :: "'a option"
  assumes "zl_ok l" "idx < al_size l"
  defines "l' \<equiv> l\<lparr>al_array := (al_array l)[idx := data], al_len := (if al_len l \<le> idx then idx + 1 else al_len l)\<rparr>"
  shows "zl_ok l' \<and> zl_items l' = put_at idx data (zl_items l)"
proof -
  define xs n where "xs = zl_items l" and "n = al_size l - al_len l"
  have xs: "al_array l = xs @ replicate n None" "length xs = al_len l" "zl_items l = xs" "al_size l = al_len l + n"
    using zl_array [OF assms(1)] assms(1) by (auto simp: zl_ok_def xs_def n_def)
  show ?thesis
  proof (cases "idx < length xs")
    case True
    then have "al_array l' = put_at idx data xs @ replicate n None" by (simp add: l'_def put_at_def list_update_append xs(1))
    then show ?thesis unfolding xs(3) using True xs(2,4) by (intro zl_okI [of _ _ n]) (simp_all add: l'_def put_at_def)
  next
    case False
    define k where "k = idx - length xs"
    have k: "idx = length xs + k" "k < n" using False assms(2) xs(2,4) by (auto simp: k_def)
    then obtain m where m: "n = k + Suc m" by (metis less_iff_Suc_add add_Suc_right)
    have "(replicate k None @ None # replicate m None)[k := data] = replicate k None @ data # replicate m None"
      by (simp add: list_update_append)
    then have "(replicate n None)[k := data] = replicate k None @ data # replicate m None"
      unfolding m replicate_add by simp
    then have "al_array l' = put_at idx data xs @ replicate m None"
      using k(1) by (simp add: l'_def xs(1) list_update_append put_at_def)
    then show ?thesis unfolding xs(3) using k m xs(2,4) by (intro zl_okI [of _ _ m]) (simp_all add: l'_def put_at_def)
  qed
qed

text \<open>Setting a slot; a slot that is twice the size or more behind the start is not reached by one expansion.\<close>

lemma set_ok:
  assumes "zl_ok l" "\<And>n. za_ok al n" "idx < 2 * al_size l"
  obtains l' old where "zc_arraylist_set al idx data l = Inr (0, l', old)" "zl_ok l'"
    "zl_items l' = put_at idx data (zl_items l)" "al_size l' = (if idx < al_size l then al_size l else 2 * al_size l)" "al_del l' = al_del l"
    "old = (if al_del l \<and> idx < al_len l then zl_items l ! idx else None)"
proof (cases "idx < al_size l")
  case True
  have "al_array l ! idx = (if idx < al_len l then zl_items l ! idx else None)"
    using zl_array [OF assms(1)] True assms(1) by (auto simp: nth_append zl_ok_def)
  then show thesis using that list_update_put [OF assms(1) True, of data] True assms(1)
    by (simp add: zc_arraylist_set_def zl_ok_def)
next
  case False
  obtain rc l1 where e: "zc_arraylist_expand_inner al idx l = (rc, l1)" by fastforce
  have "rc = 0" using e assms(2) by (simp add: zc_arraylist_expand_inner_def Let_def split: if_splits)
  note x = expand_ok [OF assms(1) e [unfolded this]]
  have i: "idx < al_size l1" using x(3) assms(3) by simp
  have "al_array l1 ! idx = None"
    using zl_array [OF x(1)] x(4) i False assms(1) by (auto simp: nth_append zl_ok_def)
  then show thesis using that list_update_put [OF x(1) i, of data] False e \<open>rc = 0\<close> x i assms(1)
    by (simp add: zc_arraylist_set_def zl_ok_def)
qed

lemma set_far_overruns:
  assumes "zl_ok l" "\<And>n. za_ok al n" "2 * al_size l \<le> idx"
  shows "zc_arraylist_set al idx data l = Inl OutOfRange"
proof -
  obtain rc l1 where e: "zc_arraylist_expand_inner al idx l = (rc, l1)" by fastforce
  have "rc = 0" using e assms(2) by (simp add: zc_arraylist_expand_inner_def Let_def split: if_splits)
  note x = expand_ok [OF assms(1) e [unfolded this]]
  have "length (al_array l1) = idx" "idx \<ge> al_size l" using x(1,3) assms(3) by (auto simp: zl_ok_def)
  then show ?thesis using e \<open>rc = 0\<close> by (simp add: zc_arraylist_set_def rd_def)
qed

lemma add_ok:
  assumes "zl_ok l"
  obtains (full) "zc_arraylist_add al data l = Inr (- 1, l, None)"
  | (added) l' where "zc_arraylist_add al data l = Inr (0, l', None)" "zl_ok l'" "zl_items l' = zl_items l @ [data]"
proof (cases "al_len l < al_size l")
  case True
  have "zl_items (l\<lparr>al_array := (al_array l)[al_len l := data], al_len := al_len l + 1\<rparr>) = zl_items l @ [data]"
    "zl_ok (l\<lparr>al_array := (al_array l)[al_len l := data], al_len := al_len l + 1\<rparr>)"
    using list_update_put [OF assms True, of data] zl_array [OF assms] by (simp_all add: put_at_def)
  moreover have "al_array l ! al_len l = None" using zl_array [OF assms] True by (simp add: nth_append)
  ultimately show thesis using True added assms
    by (simp add: zc_arraylist_add_def zc_arraylist_set_def zl_ok_def)
next
  case False
  obtain rc l1 where e: "zc_arraylist_expand_inner al (al_len l) l = (rc, l1)" by fastforce
  show thesis
  proof (cases "rc = 0")
    case True
    note x = expand_ok [OF assms e [unfolded True]]
    have i: "al_len l1 < al_size l1" using x(3,4) assms by (auto simp: zl_ok_def)
    have "al_array l1 ! al_len l1 = None" using zl_array [OF x(1)] i by (simp add: nth_append)
    then show thesis using added list_update_put [OF x(1) i, of data] zl_array [OF x(1)] e False True x i assms
      by (simp add: zc_arraylist_add_def zc_arraylist_set_def zl_ok_def put_at_def)
  next
    case rc: False
    then have "l1 = l" "rc = - 1" using e by (auto simp: zc_arraylist_expand_inner_def Let_def split: if_splits)
    then show thesis using full e False assms by (auto simp: zc_arraylist_add_def zc_arraylist_set_def)
  qed
qed

section \<open>The level of a number\<close>

text \<open>An allocator that always answers.\<close>

definition rich :: zalloc where
  "rich = \<lparr>za_ok = (\<lambda>_. True), za_junk = (\<lambda>_. CHR 0x00)\<rparr>"

definition level_of :: "string \<Rightarrow> zlevel option" where
  "level_of line = zlog_level_new rich (Some line)"

lemma level_new_rich: "(\<And>n. za_ok al n) \<Longrightarrow> zlog_level_new al (Some line) = level_of line"
  by (simp add: zlog_level_new_def rich_def level_of_def split: prod.split)

text \<open>A level as a configuration declares it: a name, a number, the name of a level of syslog, and blanks between them.\<close>

record level_decl =
  ld_name :: string
  ld_number :: nat
  ld_syslog :: "nat option"
  ld_blank :: "nat \<Rightarrow> string"

definition syslog_names :: "string list" where
  "syslog_names = [''LOG_EMERG'', ''LOG_ALERT'', ''LOG_CRIT'', ''LOG_ERR'', ''LOG_WARNING'', ''LOG_NOTICE'', ''LOG_INFO'', ''LOG_DEBUG'']"

definition decl_line :: "level_decl \<Rightarrow> string" where
  "decl_line d =
     ld_blank d 0 @ ld_name d @ ld_blank d 1 @ ''='' @ ld_blank d 2 @ decimal (ld_number d) @ ld_blank d 3 @
     (case ld_syslog d of None \<Rightarrow> [] | Some k \<Rightarrow> '','' @ ld_blank d 4 @ syslog_names ! k @ ld_blank d 5)"

definition decl_ok :: "level_decl \<Rightarrow> bool" where
  "decl_ok d \<longleftrightarrow> ld_name d \<noteq> [] \<and> length (ld_name d) \<le> 1024 \<and> \<not> is_space (hd (ld_name d)) \<and>
     (\<forall>c \<in> set (ld_name d). c \<notin> {CHR ''='', CHR '' '', CHR 0x09}) \<and> ld_number d < 2 ^ 31 \<and>
     (case ld_syslog d of None \<Rightarrow> True | Some k \<Rightarrow> k < 8) \<and> (\<forall>i. set (ld_blank d i) \<subseteq> {CHR '' '', CHR 0x09})"

definition decl_level :: "level_decl \<Rightarrow> zlevel" where
  "decl_level d =
     \<lparr>lv_int_level = int (ld_number d), lv_str_uppercase = map toupper (ld_name d), lv_str_lowercase = map tolower (ld_name d),
      lv_str_len = length (ld_name d), lv_syslog_level = (case ld_syslog d of None \<Rightarrow> 7 | Some k \<Rightarrow> int k)\<rparr>"

definition level_at :: "level_decl list \<Rightarrow> nat \<Rightarrow> zlevel option" where
  "level_at ds n = map_option decl_level (List.find (\<lambda>d. ld_number d = n) (rev ds))"

definition builtin :: "level_decl list" where
  "builtin = map (\<lambda>(nm, n, k). \<lparr>ld_name = nm, ld_number = n, ld_syslog = Some k, ld_blank = (\<lambda>i. if i \<in> {1, 2, 4} then '' '' else [])\<rparr>)
     [(''*'', 0, 6), (''DEBUG'', 20, 7), (''INFO'', 40, 6), (''NOTICE'', 60, 5), (''WARN'', 80, 4), (''ERROR'', 100, 3),
      (''FATAL'', 120, 1), (''UNKNOWN'', 254, 3), (''!'', 255, 6)]"

lemma default_builtin: "default_levels = map decl_line builtin"
  by code_simp

lemma builtin_ok: "list_all decl_ok builtin"
  by (auto simp: builtin_def decl_ok_def is_space_def)

text \<open>The line of a declaration is read as what it declares.\<close>

lemma drop_blank: "set g \<subseteq> {CHR '' '', CHR 0x09} \<Longrightarrow> dropWhile is_space (g @ s) = dropWhile is_space s"
  by (rule dropWhile_append2) (auto simp: is_space_def)

lemma drop_space_id: "s = [] \<or> \<not> is_space (hd s) \<Longrightarrow> dropWhile is_space s = s"
  by (cases s) auto

lemma digit_space: "is_dec c \<Longrightarrow> \<not> is_space c"
  by (auto simp: is_dec_def is_space_def)

lemma take_drop_name:
  "(\<And>c. c \<in> set xs \<Longrightarrow> P c) \<Longrightarrow> \<not> P (hd ys) \<Longrightarrow> ys \<noteq> [] \<Longrightarrow>
    takeWhile P (xs @ ys) = xs \<and> dropWhile P (xs @ ys) = ys"
  by (cases ys) (simp_all add: takeWhile_append2 dropWhile_append2)

lemma foldl_dec:
  "(\<And>c. c \<in> set ds \<Longrightarrow> is_dec c) \<Longrightarrow>
    foldl (\<lambda>n c. n * 10 + (int (of_char c) - 48)) (int a) ds = int (foldl (\<lambda>n x. n * 10 + chr_digit x) a ds)"
proof (induction ds arbitrary: a)
  case (Cons c ds)
  have "is_dec c" using Cons.prems by simp
  then have "int a * 10 + (int (of_char c) - 48) = int (a * 10 + chr_digit c)"
    by (simp add: is_dec_def chr_digit_def Let_def of_nat_diff)
  then show ?case using Cons.IH [of "a * 10 + chr_digit c"] Cons.prems by (simp only: foldl_Cons list.set_intros)
qed simp

lemma to_int_small: "n < 2 ^ 31 \<Longrightarrow> to_int (int n) = int n"
  by (simp add: to_int_def signed_take_bit_int_eq_self)

lemma scan_decimal:
  assumes "n < 2 ^ 31" "set g \<subseteq> {CHR '' '', CHR 0x09}" "s = [] \<or> \<not> is_dec (hd s)"
  shows "scan_int (g @ decimal n @ s) = Some (int n, s)"
proof -
  obtain c r where c: "decimal n = c # r" "is_dec c" using decimal_nonempty [of n] decimal_dec [of _ n]
    by (cases "decimal n") auto
  have d: "dropWhile is_space (g @ decimal n @ s) = c # r @ s"
    using digit_space [OF c(2)] by (simp add: drop_blank [OF assms(2)] c(1))
  have "takeWhile is_dec (decimal n @ s) = decimal n"
    using decimal_dec [of _ n] assms(3) by (cases s) auto
  then have t: "takeWhile (\<lambda>c. 48 \<le> (of_char c :: nat) \<and> (of_char c :: nat) \<le> 57) (c # r @ s) = decimal n"
    unfolding is_dec_def [abs_def] c(1) by simp
  have f: "foldl (\<lambda>n c. n * 10 + (int (of_char c) - 48)) 0 (decimal n) = int n"
    using foldl_dec [of "decimal n" 0] decimal_dec num_of_decimal [of n] by (simp add: num_of_def)
  have "drop (length (decimal n)) (c # r @ s) = s" by (simp add: c(1))
  then show ?thesis using not_sign [OF c(2)] decimal_nonempty [of n]
    unfolding scan_int_def Let_def d by (simp add: t f to_int_small [OF assms(1)] del: takeWhile.simps foldl_Cons drop_append)
qed

lemma tolower_letters:
  "tolower CHR ''A'' = CHR ''a''" "tolower CHR ''B'' = CHR ''b''" "tolower CHR ''C'' = CHR ''c''" "tolower CHR ''D'' = CHR ''d''" "tolower CHR ''E'' = CHR ''e''" "tolower CHR ''F'' = CHR ''f''" "tolower CHR ''G'' = CHR ''g''" "tolower CHR ''I'' = CHR ''i''" "tolower CHR ''L'' = CHR ''l''" "tolower CHR ''M'' = CHR ''m''" "tolower CHR ''N'' = CHR ''n''" "tolower CHR ''O'' = CHR ''o''" "tolower CHR ''R'' = CHR ''r''" "tolower CHR ''T'' = CHR ''t''" "tolower CHR ''U'' = CHR ''u''" "tolower CHR ''W'' = CHR ''w''" "tolower CHR ''_'' = CHR ''_''"
  by code_simp+

lemma syslog_level:
  "syslog_level_atoi ''LOG_EMERG'' = 0" "syslog_level_atoi ''LOG_ALERT'' = 1" "syslog_level_atoi ''LOG_CRIT'' = 2"
  "syslog_level_atoi ''LOG_ERR'' = 3" "syslog_level_atoi ''LOG_WARNING'' = 4" "syslog_level_atoi ''LOG_NOTICE'' = 5"
  "syslog_level_atoi ''LOG_INFO'' = 6" "syslog_level_atoi ''LOG_DEBUG'' = 7"
  by (simp_all add: syslog_level_atoi_def strieq_def tolower_letters)

lemma syslog_name:
  assumes "k < 8"
  shows "syslog_level_atoi (syslog_names ! k) = int k" "syslog_names ! k \<noteq> []" "\<forall>c \<in> set (syslog_names ! k). \<not> is_space c"
proof -
  have "list_all (\<lambda>s. s \<noteq> [] \<and> (\<forall>c \<in> set s. \<not> is_space c)) syslog_names" by (simp add: syslog_names_def is_space_def)
  moreover have "map syslog_level_atoi syslog_names = map int [0..<8]" by (simp add: syslog_names_def syslog_level upt_rec)
  moreover have "length syslog_names = 8" by (simp add: syslog_names_def)
  ultimately show "syslog_level_atoi (syslog_names ! k) = int k" "syslog_names ! k \<noteq> []" "\<forall>c \<in> set (syslog_names ! k). \<not> is_space c"
    using assms nth_map [of k syslog_names syslog_level_atoi] by (simp_all add: list_all_length)
qed

lemma scan_decl:
  assumes "decl_ok d"
  shows "\<exists>m. scan_level (decl_line d) = (m, ld_name d, int (ld_number d), (case ld_syslog d of None \<Rightarrow> [] | Some k \<Rightarrow> syslog_names ! k)) \<and> 2 \<le> m"
proof -
  define rest where "rest = (case ld_syslog d of None \<Rightarrow> [] | Some k \<Rightarrow> '','' @ ld_blank d 4 @ syslog_names ! k @ ld_blank d 5)"
  define num where "num = ld_blank d 2 @ decimal (ld_number d) @ ld_blank d 3 @ rest"
  have b: "set (ld_blank d i) \<subseteq> {CHR '' '', CHR 0x09}" for i using assms by (simp add: decl_ok_def)
  have nm: "ld_name d \<noteq> []" "\<not> is_space (hd (ld_name d))" "\<And>c. c \<in> set (ld_name d) \<Longrightarrow> c \<notin> {CHR ''='', CHR '' '', CHR 0x09}"
    using assms by (auto simp: decl_ok_def)
  have line: "decl_line d = ld_blank d 0 @ ld_name d @ ld_blank d 1 @ CHR ''='' # num"
    by (simp add: decl_line_def num_def rest_def)
  have s: "dropWhile is_space (decl_line d) = ld_name d @ ld_blank d 1 @ CHR ''='' # num"
    unfolding line drop_blank [OF b] using nm(1,2) by (cases "ld_name d") auto
  have mark: "hd (ld_blank d 1 @ CHR ''='' # num) \<in> {CHR ''='', CHR '' '', CHR 0x09}"
    using b [of 1] by (cases "ld_blank d 1") auto
  have name: "takeWhile (\<lambda>c. c \<notin> {CHR ''='', CHR '' '', CHR 0x09}) (ld_name d @ ld_blank d 1 @ CHR ''='' # num) = ld_name d"
    "dropWhile (\<lambda>c. c \<notin> {CHR ''='', CHR '' '', CHR 0x09}) (ld_name d @ ld_blank d 1 @ CHR ''='' # num) = ld_blank d 1 @ CHR ''='' # num"
    using take_drop_name [of "ld_name d" "\<lambda>c. c \<notin> {CHR ''='', CHR '' '', CHR 0x09}" "ld_blank d 1 @ CHR ''='' # num"] nm(3) mark
    by blast+
  have eq: "dropWhile is_space (ld_blank d 1 @ CHR ''='' # num) = CHR ''='' # num"
    by (simp add: drop_blank [OF b] is_space_def)
  have "ld_blank d 3 @ rest = [] \<or> \<not> is_dec (hd (ld_blank d 3 @ rest))"
    using b [of 3] by (cases "ld_blank d 3") (auto simp: rest_def is_dec_def split: option.split)
  then have int: "scan_int num = Some (int (ld_number d), ld_blank d 3 @ rest)"
    unfolding num_def using scan_decimal b assms by (simp add: decl_ok_def)
  note scan = scan_level_def Let_def s name eq int nm(1)
  show ?thesis
  proof (cases "ld_syslog d")
    case None
    then have "rest = []" by (simp add: rest_def)
    have r: "dropWhile is_space (ld_blank d 3) = []" using drop_blank [OF b, of 3 "[]"] by (simp only: append_Nil2 dropWhile.simps)
    show ?thesis unfolding scan by (simp add: None nm(1) int \<open>rest = []\<close> r)
  next
    case (Some k)
    note k = syslog_name [of k]
    have "k < 8" using assms Some by (simp add: decl_ok_def)
    have r: "dropWhile is_space (ld_blank d 3 @ rest) = CHR '','' # ld_blank d 4 @ syslog_names ! k @ ld_blank d 5"
      by (simp add: rest_def Some drop_blank [OF b] is_space_def)
    have "dropWhile is_space (ld_blank d 4 @ syslog_names ! k @ ld_blank d 5) = syslog_names ! k @ ld_blank d 5"
      using k(2,3) [OF \<open>k < 8\<close>] by (cases "syslog_names ! k") (auto simp: drop_blank [OF b])
    moreover have "takeWhile (\<lambda>c. \<not> is_space c) (syslog_names ! k @ ld_blank d 5) = syslog_names ! k"
      using k(3) [OF \<open>k < 8\<close>] b [of 5] by (cases "ld_blank d 5") (auto simp: is_space_def)
    ultimately show ?thesis unfolding scan by (simp add: Some nm(1) int r k(2) [OF \<open>k < 8\<close>])
  qed
qed

lemma level_of_decl:
  assumes "decl_ok d"
  shows "level_of (decl_line d) = (if ld_number d \<le> 255 then Some (decl_level d) else None)"
proof -
  obtain m where s: "scan_level (decl_line d) = (m, ld_name d, int (ld_number d), (case ld_syslog d of None \<Rightarrow> [] | Some k \<Rightarrow> syslog_names ! k))"
    "2 \<le> m" using scan_decl [OF assms] by blast
  show ?thesis using assms s(2) syslog_name
    by (cases "ld_syslog d") (auto simp: level_of_def zlog_level_new_def rich_def s(1) Let_def decl_ok_def decl_level_def)
qed

lemma level_of_bounds: "level_of line = Some lv \<Longrightarrow> 0 \<le> lv_int_level lv \<and> lv_int_level lv \<le> 255"
  by (auto simp: level_of_def zlog_level_new_def Let_def split: prod.splits if_splits)

lemma default_lines:
  "map (\<lambda>line. map_option lv_int_level (level_of line)) default_levels = map Some [0, 20, 40, 60, 80, 100, 120, 254, 255]"
proof -
  have "map_option lv_int_level (level_of (decl_line d)) = Some (int (ld_number d))" if "d \<in> set builtin" for d
  proof -
    have "decl_ok d" using builtin_ok that by (simp add: list_all_iff)
    moreover have "ld_number d \<le> 255" using that by (auto simp: builtin_def)
    ultimately show ?thesis by (simp add: level_of_decl decl_level_def)
  qed
  then have "map (\<lambda>line. map_option lv_int_level (level_of line)) default_levels = map (\<lambda>d. Some (int (ld_number d))) builtin"
    by (simp add: default_builtin)
  then show ?thesis by (simp add: builtin_def)
qed

text \<open>The table of the levels as a map: a line sets the level of its number.\<close>

definition level_line :: "(int \<rightharpoonup> zlevel) \<Rightarrow> string \<Rightarrow> (int \<rightharpoonup> zlevel)" where
  "level_line m line = (case level_of line of None \<Rightarrow> m | Some lv \<Rightarrow> m(lv_int_level lv \<mapsto> lv))"

definition level_map :: "string list \<Rightarrow> (int \<rightharpoonup> zlevel)" where
  "level_map lines = foldl level_line Map.empty lines"

definition holds :: "zlevel zlist \<Rightarrow> (int \<rightharpoonup> zlevel) \<Rightarrow> bool" where
  "holds ls m \<longleftrightarrow> zl_ok ls \<and> (\<forall>i. m i = (if 0 \<le> i \<and> i < int (al_len ls) then zl_items ls ! nat i else None))"

lemma put_at_nth: "k < length (put_at i x xs) \<Longrightarrow> put_at i x xs ! k = (if k = i then x else if k < length xs then xs ! k else None)"
  by (auto simp: put_at_def nth_append nth_list_update nth_Cons split: nat.splits if_splits)

lemma length_put_at: "length (put_at i x xs) = max (length xs) (Suc i)"
  by (auto simp: put_at_def)

lemma list_set_holds:
  assumes "holds ls m" "\<And>n. za_ok al n" "level_of line = Some lv" "lv_int_level lv < 2 * int (al_size ls)"
  obtains ls' where "zlog_level_list_set al (Some line) ls = Inr (0, ls')" "holds ls' (level_line m line)"
    "al_size ls' = (if lv_int_level lv < int (al_size ls) then al_size ls else 2 * al_size ls)"
proof -
  define i where "i = nat (lv_int_level lv)"
  have i: "lv_int_level lv = int i" "i < 2 * al_size ls" using level_of_bounds [OF assms(3)] assms(4) by (auto simp: i_def)
  have ok: "zl_ok ls" using assms(1) by (simp add: holds_def)
  obtain ls' old where s: "zc_arraylist_set al i (Some lv) ls = Inr (0, ls', old)" "zl_ok ls'"
    "zl_items ls' = put_at i (Some lv) (zl_items ls)" "al_size ls' = (if i < al_size ls then al_size ls else 2 * al_size ls)"
    by (rule set_ok [OF ok assms(2) i(2)])
  have len: "al_len ls' = max (al_len ls) (Suc i)"
    using zl_array [OF s(2)] zl_array [OF ok] s(3) by (simp add: length_put_at)
  have "holds ls' (level_line m line)" unfolding holds_def
  proof (intro conjI allI)
    fix k
    show "level_line m line k = (if 0 \<le> k \<and> k < int (al_len ls') then zl_items ls' ! nat k else None)"
      using assms(1,3) i(1) len zl_array [OF ok] zl_array [OF s(2)]
      by (auto simp: holds_def level_line_def s(3) put_at_nth)
  qed (rule s(2))
  then show thesis using that s(1,4) i(1) assms(3)
    by (simp add: zlog_level_list_set_def level_new_rich [OF assms(2)])
qed

fun grown :: "nat \<Rightarrow> int list \<Rightarrow> nat option" where
  "grown sz [] = Some sz"
| "grown sz (i # is) = (if i < 2 * int sz then grown (if i < int sz then sz else 2 * sz) is else None)"

lemma set_lines_holds:
  assumes "\<And>n. za_ok al n"
  shows "holds ls m \<Longrightarrow> map (\<lambda>line. map_option lv_int_level (level_of line)) lines = map Some ns \<Longrightarrow>
    grown (al_size ls) ns = Some sz \<Longrightarrow>
    \<exists>ls'. set_lines al lines ls = Inr (0, ls') \<and> holds ls' (foldl level_line m lines) \<and> al_size ls' = sz"
proof (induction lines arbitrary: ls m ns)
  case (Cons line lines)
  obtain n ns' lv where n: "ns = n # ns'" "level_of line = Some lv" "lv_int_level lv = n" using Cons.prems(2) by auto
  then have fit: "lv_int_level lv < 2 * int (al_size ls)" using Cons.prems(3) by (auto split: if_splits)
  obtain ls1 where s: "zlog_level_list_set al (Some line) ls = Inr (0, ls1)" "holds ls1 (level_line m line)"
    "al_size ls1 = (if lv_int_level lv < int (al_size ls) then al_size ls else 2 * al_size ls)"
    by (rule list_set_holds [OF Cons.prems(1) assms n(2) fit])
  have "grown (al_size ls1) ns' = Some sz" using Cons.prems(3) n(1,3) s(3) by (simp split: if_splits)
  then show ?case using Cons.IH [OF s(2), of ns'] Cons.prems(2) n(1) s(1) by auto
qed auto

lemma holds_new: "zc_arraylist_new al True = Some ls \<Longrightarrow> holds ls Map.empty \<and> al_size ls = 32"
  using new_list_ok [of al True ls] by (auto simp: holds_def zl_ok_def zl_items_def zc_arraylist_new_def split: if_splits)

lemma default_list:
  assumes "\<And>n. za_ok al n"
  obtains ls where "zlog_level_list_new al = Inr (Some ls)" "holds ls (level_map default_levels)" "al_size ls = 256"
proof -
  obtain ls0 where n: "zc_arraylist_new al True = (Some ls0 :: zlevel zlist option)" using assms by (simp add: zc_arraylist_new_def)
  note h = holds_new [OF n]
  have "grown (al_size ls0) [0, 20, 40, 60, 80, 100, 120, 254, 255] = Some 256" using h by simp
  then obtain ls where "set_lines al default_levels ls0 = Inr (0, ls)" "holds ls (level_map default_levels)" "al_size ls = 256"
    using set_lines_holds [OF assms _ default_lines] h unfolding level_map_def by blast
  then show thesis using that n by (simp add: zlog_level_list_new_def)
qed

lemma config_lines:
  assumes "\<And>n. za_ok al n"
  shows "holds ls m \<Longrightarrow> 256 \<le> al_size ls \<Longrightarrow>
    \<exists>rc ls'. set_lines al lines ls = Inr (rc, ls') \<and> (rc = 0 \<longleftrightarrow> (\<forall>line \<in> set lines. level_of line \<noteq> None)) \<and>
      (rc = 0 \<longrightarrow> holds ls' (foldl level_line m lines))"
proof (induction lines arbitrary: ls m)
  case (Cons line lines)
  show ?case
  proof (cases "level_of line")
    case None
    then show ?thesis by (auto simp: zlog_level_list_set_def level_new_rich [OF assms])
  next
    case (Some lv)
    have fit: "lv_int_level lv < 2 * int (al_size ls)" using level_of_bounds [OF Some] Cons.prems(2) by simp
    obtain ls1 where s: "zlog_level_list_set al (Some line) ls = Inr (0, ls1)" "holds ls1 (level_line m line)"
      "al_size ls1 = (if lv_int_level lv < int (al_size ls) then al_size ls else 2 * al_size ls)"
      by (rule list_set_holds [OF Cons.prems(1) assms Some fit])
    have "256 \<le> al_size ls1" using s(3) Cons.prems(2) by simp
    then show ?thesis using Cons.IH [OF s(2)] s(1) Some by simp
  qed
qed auto

lemma foldl_level_line: "m 254 \<noteq> None \<Longrightarrow> foldl level_line m lines 254 \<noteq> None"
  by (induction lines arbitrary: m) (auto simp: level_line_def split: option.splits)

lemma get_holds:
  assumes "holds ls m" "0 \<le> l" "m 254 \<noteq> None"
  shows "zlog_level_list_get ls l = Inr (if m l \<noteq> None then m l else m 254)"
proof -
  have get: "zc_arraylist_get ls i = Inr (m i)" if "0 \<le> i" for i
  proof -
    have ok: "zl_ok ls" and m: "m i = (if i < int (al_len ls) then zl_items ls ! nat i else None)"
      using assms(1) that by (simp_all add: holds_def)
    have "nat i < al_len ls \<Longrightarrow> rd (al_array ls) (nat i) = Inr (zl_items ls ! nat i)"
      using ok by (simp add: rd_def zl_ok_def zl_items_def)
    then show ?thesis using m that by (auto simp: zc_arraylist_get_def)
  qed
  show ?thesis using get [OF assms(2)] get [of 254] by (simp add: zlog_level_list_get_def)
qed

lemma level_line_decl:
  "decl_ok d \<Longrightarrow> level_line m (decl_line d) = (if ld_number d \<le> 255 then m(int (ld_number d) \<mapsto> decl_level d) else m)"
  by (simp add: level_line_def level_of_decl decl_level_def)

lemma level_map_decls:
  "list_all decl_ok ds \<Longrightarrow> \<forall>d \<in> set ds. ld_number d \<le> 255 \<Longrightarrow> level_map (map decl_line ds) (int n) = level_at ds n"
  by (induction ds rule: rev_induct) (simp_all add: level_map_def level_at_def level_line_decl)

text \<open>
  C37: The levels of the log: the built-in levels and any declarations of a configuration, however they are spaced, are
  accepted exactly when no number exceeds 255 (the manual allows 1 to 253 only: 0, 254 and 255 are taken as well and
  replace built-in levels). Then every number is answered with the last level that was declared for it, its name in both
  cases, its length and its level of syslog (\<open>LOG_DEBUG\<close> when none is given), and a number without a level with the level
  of 254. The table never leaves its array.
\<close>

theorem level_table_complete:
  assumes "\<And>n. za_ok al n" "list_all decl_ok decls"
  shows "\<exists>ls0 rc ls. zlog_level_list_new al = Inr (Some ls0) \<and> set_lines al (map decl_line decls) ls0 = Inr (rc, ls) \<and>
    (rc = 0 \<longleftrightarrow> (\<forall>d \<in> set decls. ld_number d \<le> 255)) \<and>
    (rc = 0 \<longrightarrow> (\<forall>n. zlog_level_list_get ls (int n) = Inr (case level_at (builtin @ decls) n of
       Some lv \<Rightarrow> Some lv
     | None \<Rightarrow> level_at (builtin @ decls) 254)))"
proof -
  let ?lines = "map decl_line decls" and ?ds = "builtin @ decls"
  obtain ls0 where n: "zlog_level_list_new al = Inr (Some ls0)" "holds ls0 (level_map default_levels)" "al_size ls0 = 256"
    by (rule default_list [OF assms(1)])
  obtain rc ls where c: "set_lines al ?lines ls0 = Inr (rc, ls)" "rc = 0 \<longleftrightarrow> (\<forall>line \<in> set ?lines. level_of line \<noteq> None)"
    "rc = 0 \<longrightarrow> holds ls (foldl level_line (level_map default_levels) ?lines)"
    using config_lines [OF assms(1) n(2), of ?lines] n(3) by auto
  have rc: "rc = 0 \<longleftrightarrow> (\<forall>d \<in> set decls. ld_number d \<le> 255)"
    using c(2) assms(2) by (simp add: list_all_iff level_of_decl)
  have unknown: "level_at ?ds 254 \<noteq> None"
  proof -
    have "\<exists>d \<in> set builtin. ld_number d = 254" by (simp add: builtin_def)
    then show ?thesis by (auto simp: level_at_def find_None_iff)
  qed
  have "zlog_level_list_get ls (int i) = Inr (case level_at ?ds i of Some lv \<Rightarrow> Some lv | None \<Rightarrow> level_at ?ds 254)" if "rc = 0" for i
  proof -
    have "\<forall>d \<in> set builtin. ld_number d \<le> 255" by (simp add: builtin_def)
    then have small: "\<forall>d \<in> set ?ds. ld_number d \<le> 255" using that rc by auto
    have "foldl level_line (level_map default_levels) ?lines = level_map (map decl_line ?ds)"
      by (simp add: level_map_def default_builtin)
    moreover have m: "level_map (map decl_line ?ds) (int k) = level_at ?ds k" for k
      using assms(2) builtin_ok by (intro level_map_decls [OF _ small]) simp
    ultimately show ?thesis
      using get_holds [of ls "level_map (map decl_line ?ds)" "int i"] m [of 254] c(3) that unknown
      by (simp add: m split: option.split)
  qed
  then show ?thesis using n(1) c(1) rc by blast
qed

text \<open>A configuration that renames level 20, and 254 as the manual forbids; the level of 33 is the new UNKNOWN.\<close>

theorem level_table_complete_witness:
  "\<exists>ls0 ls. zlog_level_list_new rich = Inr (Some ls0) \<and>
    set_lines rich [''TRACE=20,LOG_DEBUG'', ''  Other =  254''] ls0 = Inr (0, ls) \<and>
    map_sum id (map_option lv_str_uppercase) (zlog_level_list_get ls 20) = Inr (Some ''TRACE'') \<and>
    map_sum id (map_option lv_str_uppercase) (zlog_level_list_get ls 40) = Inr (Some ''INFO'') \<and>
    zlog_level_list_get ls 33 = Inr (Some \<lparr>lv_int_level = 254, lv_str_uppercase = ''OTHER'', lv_str_lowercase = ''other'',
      lv_str_len = 5, lv_syslog_level = 7\<rparr>)"
proof -
  let ?a = "\<lparr>ld_name = ''TRACE'', ld_number = 20, ld_syslog = Some 7, ld_blank = (\<lambda>i. [])\<rparr>"
  let ?b = "\<lparr>ld_name = ''Other'', ld_number = 254, ld_syslog = None, ld_blank = (\<lambda>i. if i = 0 \<or> i = 2 then ''  '' else if i = 1 then '' '' else [])\<rparr>"
  have ok: "list_all decl_ok [?a, ?b]" by (auto simp: decl_ok_def is_space_def)
  have lines: "map decl_line [?a, ?b] = [''TRACE=20,LOG_DEBUG'', ''  Other =  254'']" by code_simp
  have upper: "toupper CHR ''T'' = CHR ''T''" "toupper CHR ''R'' = CHR ''R''" "toupper CHR ''A'' = CHR ''A''" "toupper CHR ''C'' = CHR ''C''" "toupper CHR ''E'' = CHR ''E''" "toupper CHR ''I'' = CHR ''I''" "toupper CHR ''N'' = CHR ''N''" "toupper CHR ''F'' = CHR ''F''" "toupper CHR ''O'' = CHR ''O''" "toupper CHR ''t'' = CHR ''T''" "toupper CHR ''h'' = CHR ''H''" "toupper CHR ''e'' = CHR ''E''" "toupper CHR ''r'' = CHR ''R''"
    "tolower CHR ''t'' = CHR ''t''" "tolower CHR ''h'' = CHR ''h''" "tolower CHR ''e'' = CHR ''e''" "tolower CHR ''r'' = CHR ''r''"
    by code_simp+
  have at: "map_option lv_str_uppercase (level_at (builtin @ [?a, ?b]) 20) = Some ''TRACE''"
    "map_option lv_str_uppercase (level_at (builtin @ [?a, ?b]) 40) = Some ''INFO''"
    "level_at (builtin @ [?a, ?b]) 33 = None"
    "level_at (builtin @ [?a, ?b]) 254 = Some \<lparr>lv_int_level = 254, lv_str_uppercase = ''OTHER'', lv_str_lowercase = ''other'',
      lv_str_len = 5, lv_syslog_level = 7\<rparr>"
    by (simp_all add: level_at_def builtin_def decl_level_def tolower_letters upper)
  show ?thesis
    using level_table_complete [OF _ ok, of rich, unfolded lines] at
    by (auto simp: rich_def dest: spec [of _ 20] spec [of _ 40] spec [of _ 33] split: option.splits)
qed

section \<open>The rules of a category\<close>

text \<open>What the code computes, said without its comparisons: \<open>aa_\<close> fits \<open>aa\<close> and every name that begins with \<open>aa_\<close>.\<close>

definition rule_fits :: "string \<Rightarrow> string \<Rightarrow> bool" where
  "rule_fits cat name \<longleftrightarrow> cat = ''*'' \<or> cat = name \<or> (last cat = CHR ''_'' \<and> (name = butlast cat \<or> prefix cat name))"

lemma match_category:
  assumes "zr_category r \<noteq> []"
  shows "zlog_rule_match_category (Some r) name = Inr (of_bool (rule_fits (zr_category r) name))"
proof -
  define cat where "cat = zr_category r"
  have ne: "cat \<noteq> []" using assms by (simp add: cat_def)
  have b: "(length name = length cat - 1 \<and> take (length cat - 1) cat = take (length cat - 1) name) = (name = butlast cat)"
    by (auto simp: butlast_conv_take)
  have p: "(cat = take (length cat) name) = prefix cat name" using take_is_prefix [of "length cat" name] by (auto elim: prefixE)
  have short: "length name = length cat - 1 \<Longrightarrow> \<not> prefix cat name" using ne prefix_length_le [of cat name] by (cases cat) auto
  show ?thesis
    using b p short ne unfolding zlog_rule_match_category_def option.case cat_def [symmetric] Let_def rule_fits_def
    by (auto simp: last_conv_nth)
qed

definition rules_valid :: "(nat \<rightharpoonup> zrule) \<Rightarrow> nat option list \<Rightarrow> bool" where
  "rules_valid rh ps \<longleftrightarrow> (\<forall>p \<in> set ps. \<exists>a r. p = Some a \<and> rh a = Some r \<and> zr_category r \<noteq> [] \<and> length (zr_level_bitmap r) = 32)"

definition rule_of :: "(nat \<rightharpoonup> zrule) \<Rightarrow> nat option \<Rightarrow> zrule" where
  "rule_of rh p = the (rh (the p))"

definition fitting :: "(nat \<rightharpoonup> zrule) \<Rightarrow> string \<Rightarrow> nat option list \<Rightarrow> nat option list" where
  "fitting rh name ps =
     (let fs = filter (\<lambda>p. rule_fits (zr_category (rule_of rh p)) name) ps; ws = filter (\<lambda>p. zr_category (rule_of rh p) = ''!'') ps
      in if fs \<noteq> [] then fs else if ws \<noteq> [] then [last ws] else [])"

text \<open>The bit of a level in a bitmap.\<close>

definition lv_bit :: "u8 list \<Rightarrow> nat \<Rightarrow> bool" where
  "lv_bit bm lv = bit (bm ! (lv div 8)) (7 - lv mod 8)"

lemma needless_bit: "length (ca_level_bitmap c) = 32 \<Longrightarrow> lv < 256 \<Longrightarrow>
    zlog_category_needless_level c lv = Inr (\<not> lv_bit (ca_level_bitmap c) lv)"
  by (simp add: zlog_category_needless_level_def lv_bit_def rd_def and_one_eq bit_iff_odd_drop_bit mod_2_eq_odd)

definition covers :: "(nat \<rightharpoonup> zrule) \<Rightarrow> nat option list \<Rightarrow> u8 list \<Rightarrow> bool" where
  "covers rh ps bm \<longleftrightarrow> length bm = 32 \<and> (\<forall>lv < 256. lv_bit bm lv \<longleftrightarrow> (\<exists>p \<in> set ps. lv_bit (zr_level_bitmap (rule_of rh p)) lv))"

lemma covers_none: "covers rh [] (replicate 32 0)"
  by (simp add: covers_def lv_bit_def)

lemma covers_more:
  assumes "covers rh ps bm" "length (zr_level_bitmap (rule_of rh p)) = 32"
  shows "covers rh (ps @ [p]) (map2 (OR) bm (zr_level_bitmap (rule_of rh p)))"
proof -
  have "lv_bit (map2 (OR) bm (zr_level_bitmap (rule_of rh p))) lv = (lv_bit bm lv \<or> lv_bit (zr_level_bitmap (rule_of rh p)) lv)"
    if "lv < 256" for lv
    using assms that by (simp add: covers_def lv_bit_def bit_or_iff)
  then show ?thesis using assms by (auto simp: covers_def)
qed

text \<open>A step of the loop keeps what is known of the rules taken so far.\<close>

definition same_rest :: "zcategory \<Rightarrow> zcategory \<Rightarrow> bool" where
  "same_rest c c' \<longleftrightarrow> c' = c\<lparr>ca_level_bitmap := ca_level_bitmap c'\<rparr>"

lemma take_rule_ok:
  assumes "zl_ok l" "covers rh (zl_items l) (ca_level_bitmap c)" "rules_valid rh [p]"
  obtains rc l' c' where "take_rule al p (Some (rule_of rh p)) l c = Inr (rc, l', c')" "same_rest c c'"
    "rc = 0 \<longrightarrow> zl_ok l' \<and> zl_items l' = zl_items l @ [p] \<and> covers rh (zl_items l') (ca_level_bitmap c')"
proof (cases rule: add_ok [OF assms(1), of al p, case_names full added])
  case full
  then show thesis using that [of "- 1" l c] by (simp add: take_rule_def same_rest_def)
next
  case (added l')
  define c' where "c' = c\<lparr>ca_level_bitmap := map2 (OR) (ca_level_bitmap c) (zr_level_bitmap (rule_of rh p))\<rparr>"
  have "length (zr_level_bitmap (rule_of rh p)) = 32" using assms(3) by (auto simp: rules_valid_def rule_of_def)
  then have "covers rh (zl_items l') (ca_level_bitmap c')" using covers_more [OF assms(2)] added(3) by (simp add: c'_def)
  then show thesis using added that [of 0 l' c'] by (simp add: take_rule_def zlog_cateogry_overlap_bitmap_def c'_def same_rest_def)
qed

lemma rule_at_valid: "rules_valid rh (p # ps) \<Longrightarrow> rule_at rh p = Inr (Some (rule_of rh p)) \<and> zr_category (rule_of rh p) \<noteq> []
    \<and> rules_valid rh ps \<and> rules_valid rh [p]"
  by (auto simp: rules_valid_def rule_at_def rule_of_def)

lemma same_rest_trans: "same_rest a b \<Longrightarrow> same_rest b c \<Longrightarrow> same_rest a c"
  unfolding same_rest_def by (metis zcategory.surjective zcategory.update_convs(3))

lemma obtain_loop_ok:
  "rules_valid rh ps \<Longrightarrow> zl_ok l \<Longrightarrow> covers rh (zl_items l) (ca_level_bitmap c) \<Longrightarrow>
   \<exists>rc n w l' c'. obtain_loop al rh ps count wb l c = Inr (rc, n, w, l', c') \<and> same_rest c c' \<and>
     (rc = 0 \<longrightarrow> zl_ok l' \<and> covers rh (zl_items l') (ca_level_bitmap c') \<and>
       zl_items l' = zl_items l @ filter (\<lambda>p. rule_fits (zr_category (rule_of rh p)) (ca_name c)) ps \<and>
       n = count + length (filter (\<lambda>p. rule_fits (zr_category (rule_of rh p)) (ca_name c)) ps) \<and>
       w = (let ws = filter (\<lambda>p. zr_category (rule_of rh p) = ''!'') ps in if ws = [] then wb else last ws))"
proof (induction ps arbitrary: count wb l c)
  case Nil
  then show ?case by (simp add: same_rest_def)
next
  case (Cons p ps)
  note v = rule_at_valid [OF Cons.prems(1)]
  define fit where "fit = rule_fits (zr_category (rule_of rh p)) (ca_name c)"
  have m: "zlog_rule_match_category (Some (rule_of rh p)) (ca_name c) = Inr (of_bool fit)"
    unfolding fit_def by (rule match_category) (simp add: v)
  have w: "zlog_rule_is_wastebin (Some (rule_of rh p)) \<noteq> 0 \<longleftrightarrow> zr_category (rule_of rh p) = ''!''"
    by (simp add: zlog_rule_is_wastebin_def)
  obtain rc l1 c1 where t: "(if fit then take_rule al p (Some (rule_of rh p)) l c else Inr (0, l, c)) = Inr (rc, l1, c1)" "same_rest c c1"
    "rc = 0 \<longrightarrow> zl_ok l1 \<and> zl_items l1 = zl_items l @ (if fit then [p] else []) \<and> covers rh (zl_items l1) (ca_level_bitmap c1)"
  proof (cases fit)
    case True
    obtain rc l1 c1 where "take_rule al p (Some (rule_of rh p)) l c = Inr (rc, l1, c1)" "same_rest c c1"
      "rc = 0 \<longrightarrow> zl_ok l1 \<and> zl_items l1 = zl_items l @ [p] \<and> covers rh (zl_items l1) (ca_level_bitmap c1)"
      by (rule take_rule_ok [OF Cons.prems(2,3)]) (use v in auto)
    then show thesis using True by (intro that [of rc l1 c1]) auto
  qed (use that [of 0 l c] Cons.prems(2,3) in \<open>simp add: same_rest_def\<close>)
  have name: "ca_name c1 = ca_name c" using t(2) unfolding same_rest_def by (metis zcategory.select_convs(1) zcategory.surjective zcategory.update_convs(3))
  show ?case
  proof (cases "rc = 0")
    case False
    then show ?thesis using v m t(1,2) by (simp add: fit_def [symmetric])
  next
    case True
    define wb' where "wb' = (if zr_category (rule_of rh p) = ''!'' then p else wb)"
    define count' where "count' = (if fit then count + 1 else count)"
    obtain rc2 n2 w2 l2 c2 where r: "obtain_loop al rh ps count' wb' l1 c1 = Inr (rc2, n2, w2, l2, c2)" "same_rest c1 c2"
     "(rc2 = 0 \<longrightarrow> zl_ok l2 \<and> covers rh (zl_items l2) (ca_level_bitmap c2) \<and>
       zl_items l2 = zl_items l1 @ filter (\<lambda>p. rule_fits (zr_category (rule_of rh p)) (ca_name c)) ps \<and>
       n2 = count' + length (filter (\<lambda>p. rule_fits (zr_category (rule_of rh p)) (ca_name c)) ps) \<and>
       w2 = (let ws = filter (\<lambda>p. zr_category (rule_of rh p) = ''!'') ps in if ws = [] then wb' else last ws))"
      using Cons.IH [of l1 c1 count' wb'] v t(3) True name by (elim exE conjE) (auto simp: name)
    have "obtain_loop al rh (p # ps) count wb l c = Inr (rc2, n2, w2, l2, c2)"
      using v m w t(1) True r(1) by (simp add: fit_def [symmetric] count'_def wb'_def)
    then show ?thesis using r(2,3) same_rest_trans [OF t(2) r(2)] t(3) True
      by (auto simp: fit_def [symmetric] count'_def wb'_def Let_def)
  qed
qed

definition same_but_fit :: "zcategory \<Rightarrow> zcategory \<Rightarrow> bool" where
  "same_but_fit c c' \<longleftrightarrow> c' = c\<lparr>ca_level_bitmap := ca_level_bitmap c', ca_fit_rules := ca_fit_rules c'\<rparr>"

definition fitted :: "(nat \<rightharpoonup> zrule) \<Rightarrow> nat option list \<Rightarrow> zcategory \<Rightarrow> bool" where
  "fitted rh ps c \<longleftrightarrow> (\<exists>l. ca_fit_rules c = Some l \<and> zl_ok l \<and> zl_items l = fitting rh (ca_name c) ps) \<and>
     covers rh (fitting rh (ca_name c) ps) (ca_level_bitmap c)"

lemma same_fit_rest: "same_rest (c\<lparr>ca_level_bitmap := b\<rparr>) c' \<Longrightarrow> same_but_fit c (c'\<lparr>ca_fit_rules := r\<rparr>) \<and> ca_name c' = ca_name c"
  unfolding same_rest_def same_but_fit_def by (cases c; cases c') simp

lemma obtain_rules_ok:
  assumes "rules_valid rh (zl_items rules)"
  obtains rc c' where "zlog_category_obtain_rules al rh rules c = Inr (rc, c')" "same_but_fit c c'"
    "rc = 0 \<longrightarrow> fitted rh (zl_items rules) c'" "rc \<noteq> 0 \<longrightarrow> ca_fit_rules c' = None"
proof (cases "zc_arraylist_new al False :: nat zlist option")
  case None
  then show thesis using that [of "- 1" "c\<lparr>ca_level_bitmap := replicate 32 0, ca_fit_rules := None\<rparr>"]
    by (simp add: zlog_category_obtain_rules_def Let_def same_but_fit_def)
next
  case (Some l0)
  define c0 where "c0 = c\<lparr>ca_level_bitmap := replicate 32 0\<rparr>"
  define fs where "fs = filter (\<lambda>p. rule_fits (zr_category (rule_of rh p)) (ca_name c)) (zl_items rules)"
  define ws where "ws = filter (\<lambda>p. zr_category (rule_of rh p) = ''!'') (zl_items rules)"
  note l0 = new_list_ok [OF Some]
  have c0: "covers rh (zl_items l0) (ca_level_bitmap c0)" "ca_name c0 = ca_name c" by (simp_all add: l0 c0_def covers_none)
  obtain rc n w l1 c1 where r: "obtain_loop al rh (zl_items rules) 0 None l0 c0 = Inr (rc, n, w, l1, c1)" "same_rest c0 c1"
    "rc = 0 \<longrightarrow> zl_ok l1 \<and> covers rh (zl_items l1) (ca_level_bitmap c1) \<and> zl_items l1 = fs \<and> n = length fs \<and>
      w = (if ws = [] then None else last ws)"
    using obtain_loop_ok [OF assms l0(1) c0(1), of al 0 None] unfolding c0(2) fs_def [symmetric] ws_def [symmetric] Let_def l0(2)
    by (elim exE conjE) (rule that, assumption+, auto)
  have ft: "fitting rh (ca_name c) (zl_items rules) = (if fs \<noteq> [] then fs else if ws \<noteq> [] then [last ws] else [])"
    by (simp add: fitting_def fs_def ws_def)
  note sr = same_fit_rest [OF r(2) [unfolded c0_def]]
  show thesis
  proof (cases "rc = 0")
    case False
    then show thesis using Some r(1) sr that [of "- 1" "c1\<lparr>ca_fit_rules := None\<rparr>"]
      by (simp add: zlog_category_obtain_rules_def Let_def c0_def [symmetric])
  next
    case rc: True
    show thesis
    proof (cases "fs = [] \<and> ws \<noteq> []")
      case False
      then have nw: "\<not> (n = 0 \<and> w \<noteq> None)" using r(3) rc by auto
      have "fitted rh (zl_items rules) (c1\<lparr>ca_fit_rules := Some l1\<rparr>)"
        using r(3) rc False sr ft by (auto simp: fitted_def)
      moreover have "zlog_category_obtain_rules al rh rules c = Inr (0, c1\<lparr>ca_fit_rules := Some l1\<rparr>)"
        using nw rc by (auto simp: zlog_category_obtain_rules_def Let_def c0_def [symmetric] Some r(1))
      ultimately show thesis using sr that by simp
    next
      case True
      have w: "w = last ws" "rules_valid rh [w]" "w \<noteq> None" "n = 0" "zl_items l1 = []"
      proof -
        have "last ws \<in> set (zl_items rules)" using True last_in_set [of ws] by (auto simp: ws_def)
        then show "w = last ws" "rules_valid rh [w]" "w \<noteq> None" "n = 0" "zl_items l1 = []"
          using assms r(3) rc True by (auto simp: rules_valid_def)
      qed
      note v = rule_at_valid [OF w(2)]
      obtain rc2 l2 c2 where t: "take_rule al w (Some (rule_of rh w)) l1 c1 = Inr (rc2, l2, c2)" "same_rest c1 c2"
        "rc2 = 0 \<longrightarrow> zl_ok l2 \<and> zl_items l2 = zl_items l1 @ [w] \<and> covers rh (zl_items l2) (ca_level_bitmap c2)"
      proof -
        have "zl_ok l1" "covers rh (zl_items l1) (ca_level_bitmap c1)" using r(3) rc by auto
        then show thesis by (rule take_rule_ok [OF _ _ w(2), of l1 c1 al]) (rule that)
      qed
      have sr2: "same_but_fit c (c2\<lparr>ca_fit_rules := x\<rparr>)" "ca_name c2 = ca_name c" for x
        using same_fit_rest [OF same_rest_trans [OF r(2) t(2), unfolded c0_def]] by simp_all
      have "rc2 = 0 \<Longrightarrow> fitted rh (zl_items rules) (c2\<lparr>ca_fit_rules := Some l2\<rparr>)"
        using t(3) w True sr2 ft by (auto simp: fitted_def)
      then show thesis
        using Some r(1) rc w v t(1) sr2 that [of "if rc2 = 0 then 0 else - 1" "c2\<lparr>ca_fit_rules := if rc2 = 0 then Some l2 else None\<rparr>"]
        by (cases "rc2 = 0") (simp_all add: zlog_category_obtain_rules_def Let_def c0_def [symmetric])
    qed
  qed
qed

text \<open>
  C38: A new category takes exactly the rules that fit its name, in the order of the configuration, or the last rule of the
  category \<open>!\<close> when none fits; a message of a level is written off as needless before the rules are asked exactly when
  none of these rules has the bit of the level.
\<close>

theorem category_rules_complete:
  assumes "rules_valid rh (zl_items rules)"
  shows "\<exists>co. zlog_category_new al rh name rules = Inr co \<and>
    (\<forall>c. co = Some c \<longrightarrow> (\<exists>l. ca_fit_rules c = Some l \<and> zl_items l = fitting rh name (zl_items rules) \<and>
      (\<forall>lv < 256. zlog_category_needless_level c lv =
        Inr (\<forall>p \<in> set (zl_items l). \<not> lv_bit (zr_level_bitmap (rule_of rh p)) lv))))"
proof -
  define c0 where "c0 = \<lparr>ca_name = name, ca_name_len = length name, ca_level_bitmap = replicate 32 0,
    ca_level_bitmap_backup = replicate 32 0, ca_fit_rules = None, ca_fit_rules_backup = None\<rparr>"
  obtain rc c' where o: "zlog_category_obtain_rules al rh rules c0 = Inr (rc, c')" "same_but_fit c0 c'"
    "rc = 0 \<longrightarrow> fitted rh (zl_items rules) c'" "rc \<noteq> 0 \<longrightarrow> ca_fit_rules c' = None"
    by (rule obtain_rules_ok [OF assms, of al c0])
  have "ca_name c' = name" using o(2) unfolding same_but_fit_def c0_def by (cases c') simp
  then have "rc = 0 \<Longrightarrow> \<exists>l. ca_fit_rules c' = Some l \<and> zl_items l = fitting rh name (zl_items rules) \<and>
      (\<forall>lv < 256. zlog_category_needless_level c' lv = Inr (\<forall>p \<in> set (zl_items l). \<not> lv_bit (zr_level_bitmap (rule_of rh p)) lv))"
    using o(3) by (auto simp: fitted_def covers_def needless_bit)
  then show ?thesis using o(1) by (auto simp: zlog_category_new_def c0_def [symmetric])
qed

theorem category_rules_complete_witness:
  "\<exists>c l. zlog_category_new rich [1 \<mapsto> \<lparr>zr_category = ''mac_'', zr_level_bitmap = replicate 32 15\<rparr>,
      2 \<mapsto> \<lparr>zr_category = ''!'', zr_level_bitmap = replicate 32 255\<rparr>] ''mac_dl''
      \<lparr>al_array = [Some 2, Some 1], al_len = 2, al_size = 2, al_del = True\<rparr> = Inr (Some c) \<and>
    ca_fit_rules c = Some l \<and> zl_items l = [Some 1] \<and>
    zlog_category_needless_level c 20 = Inr False \<and> zlog_category_needless_level c 18 = Inr True"
proof -
  define rh where "rh = [1 \<mapsto> \<lparr>zr_category = ''mac_'', zr_level_bitmap = replicate 32 15\<rparr>,
      2 :: nat \<mapsto> \<lparr>zr_category = ''!'', zr_level_bitmap = replicate 32 255\<rparr>]"
  define rules where "rules = \<lparr>al_array = [Some (2 :: nat), Some 1], al_len = 2, al_size = 2, al_del = True\<rparr>"
  have "case zlog_category_new rich rh ''mac_dl'' rules of Inr (Some c) \<Rightarrow> True | _ \<Rightarrow> False"
    unfolding rh_def rules_def by code_simp
  then obtain c where c: "zlog_category_new rich rh ''mac_dl'' rules = Inr (Some c)"
    by (auto split: sum.splits option.splits)
  have v: "rules_valid rh (zl_items rules)" by (simp add: rules_valid_def zl_items_def rules_def rh_def)
  have f: "fitting rh ''mac_dl'' (zl_items rules) = [Some 1]"
    by (simp add: fitting_def zl_items_def rules_def rh_def rule_of_def rule_fits_def)
  have b: "lv_bit (replicate 32 15) 20" "\<not> lv_bit (replicate 32 15) 18" by code_simp+
  obtain l where "ca_fit_rules c = Some l" "zl_items l = [Some 1]"
    "\<forall>lv < 256. zlog_category_needless_level c lv = Inr (\<not> lv_bit (replicate 32 15) lv)"
    using category_rules_complete [OF v, of rich "''mac_dl''"] unfolding c f by (auto simp: rule_of_def rh_def)
  then show ?thesis using c b unfolding rh_def rules_def by simp
qed

section \<open>A change of the rules\<close>

lemma update_ok:
  assumes "rules_valid rh (zl_items rules)" "ca_fit_rules c = Some old" "length (ca_level_bitmap c) = 32"
  obtains rc c' where "zlog_category_update_rules al rh rules c = Inr (rc, c')" "rc = 0 \<or> rc = - 1"
    "zlog_category_rollback_rules c' = c\<lparr>ca_fit_rules_backup := None, ca_level_bitmap_backup := replicate 32 0\<rparr>"
    "rc = 0 \<longrightarrow> fitted rh (zl_items rules) (zlog_category_commit_rules c') \<and> ca_name c' = ca_name c \<and>
      ca_fit_rules_backup (zlog_category_commit_rules c') = None"
proof -
  define c0 where "c0 = c\<lparr>ca_fit_rules_backup := ca_fit_rules c, ca_fit_rules := None, ca_level_bitmap_backup := ca_level_bitmap c\<rparr>"
  obtain rc c1 where o: "zlog_category_obtain_rules al rh rules c0 = Inr (rc, c1)" "same_but_fit c0 c1"
    "rc = 0 \<longrightarrow> fitted rh (zl_items rules) c1" "rc \<noteq> 0 \<longrightarrow> ca_fit_rules c1 = None"
    by (rule obtain_rules_ok [OF assms(1), of al c0])
  define c2 where "c2 = (if rc \<noteq> 0 then c1\<lparr>ca_fit_rules := None\<rparr> else c1)"
  have u: "zlog_category_update_rules al rh rules c = Inr (if rc \<noteq> 0 then - 1 else 0, c2)"
    using o(1) by (simp add: zlog_category_update_rules_def c0_def [symmetric] c2_def)
  have bk: "zlog_category_rollback_rules c2 = c\<lparr>ca_fit_rules_backup := None, ca_level_bitmap_backup := replicate 32 0\<rparr>"
    using o(2) assms(2) unfolding same_but_fit_def c0_def c2_def zlog_category_rollback_rules_def
    by (cases c; cases c1) simp
  have fit: "rc = 0 \<longrightarrow> fitted rh (zl_items rules) (zlog_category_commit_rules c2) \<and> ca_name c2 = ca_name c \<and>
      ca_fit_rules_backup (zlog_category_commit_rules c2) = None"
  proof -
    have "ca_name c1 = ca_name c" using o(2) unfolding same_but_fit_def c0_def by (cases c; cases c1) simp
    then show ?thesis using o(3) by (auto simp: c2_def zlog_category_commit_rules_def fitted_def)
  qed
  show thesis by (rule that [OF u]) (use bk fit in auto)
qed

end
