(* ===== verification/ZlogTable.thy ===== *)
theory ZlogTable
  imports Prelude "HOL-Library.Multiset"
begin

text \<open>
  The hash tables of zlog (\<open>zc_hashtable.c\<close>): buckets of doubly linked chains of entries, in an explicit memory of entries.
  A key is a pointer that is only read through \<open>hash\<close> and \<open>equal\<close>; here it stands for what they read. \<open>calloc\<close> is a
  parameter: the address of a new entry, if any, and whether there is room for a new array of buckets. A loop along a
  chain has fuel.
\<close>

section \<open>Tables\<close>

record ('k, 'v) zentry =
  en_hash_key :: u32
  en_key :: 'k
  en_value :: 'v
  en_prev :: "nat option"
  en_next :: "nat option"

type_synonym ('k, 'v) zheap = "nat \<rightharpoonup> ('k, 'v) zentry"

text \<open>The two destructors may be missing; \<open>ht_dropped\<close> has what they were called with.\<close>

record ('k, 'v) ztable =
  ht_nelem :: nat
  ht_tab :: "nat option list"
  ht_tab_size :: nat
  ht_hash :: "'k \<Rightarrow> u32"
  ht_equal :: "'k \<Rightarrow> 'k \<Rightarrow> bool"
  ht_key_del :: bool
  ht_value_del :: bool
  ht_entries :: "('k, 'v) zheap"
  ht_dropped :: "('k + 'v) list"

record ('k, 'v) zcalloc =
  zk_struct :: bool
  zk_tab :: "nat \<Rightarrow> bool"
  zk_entry :: "('k, 'v) zheap \<Rightarrow> nat option"

definition zc_hashtable_new :: "('k, 'v) zcalloc \<Rightarrow> nat \<Rightarrow> ('k \<Rightarrow> u32) \<Rightarrow> ('k \<Rightarrow> 'k \<Rightarrow> bool) \<Rightarrow> bool \<Rightarrow> bool \<Rightarrow> ('k, 'v) ztable option" where
  "zc_hashtable_new ca a_size hash equal key_del value_del =
     (if \<not> zk_struct ca then None
      else if \<not> zk_tab ca a_size then None
      else Some \<lparr>ht_nelem = 0, ht_tab = replicate a_size None, ht_tab_size = a_size, ht_hash = hash, ht_equal = equal,
        ht_key_del = key_del, ht_value_del = value_del, ht_entries = Map.empty, ht_dropped = []\<rparr>)"

definition entry_at :: "('k, 'v) zheap \<Rightarrow> nat \<Rightarrow> ('k, 'v) zentry res" where
  "entry_at h a = (case h a of None \<Rightarrow> Inl Undefined | Some e \<Rightarrow> Inr e)"

text \<open>Both destructors on an entry.\<close>

definition drop_entry :: "('k, 'v) zentry \<Rightarrow> ('k, 'v) ztable \<Rightarrow> ('k, 'v) ztable" where
  "drop_entry e t = t\<lparr>ht_dropped := ht_dropped t @ (if ht_key_del t then [Inl (en_key e)] else []) @
     (if ht_value_del t then [Inr (en_value e)] else [])\<rparr>"

fun free_chain :: "nat \<Rightarrow> nat option \<Rightarrow> ('k, 'v) ztable \<Rightarrow> ('k, 'v) ztable res" where
  "free_chain n None t = Inr t"
| "free_chain 0 (Some a) t = Inl Diverge"
| "free_chain (Suc n) (Some a) t =
     rbind (entry_at (ht_entries t) a) (\<lambda>e.
       let q = en_next e; t = drop_entry e t in free_chain n q (t\<lparr>ht_entries := (ht_entries t)(a := None)\<rparr>))"

text \<open>Whether the buckets are emptied, too, is the difference of \<open>zc_hashtable_clean\<close> and \<open>zc_hashtable_del\<close>.\<close>

fun free_buckets :: "nat \<Rightarrow> bool \<Rightarrow> nat list \<Rightarrow> ('k, 'v) ztable \<Rightarrow> ('k, 'v) ztable res" where
  "free_buckets n clean [] t = Inr t"
| "free_buckets n clean (i # is) t =
     rbind (rd (ht_tab t) i) (\<lambda>p.
     rbind (free_chain n p t) (\<lambda>t.
       free_buckets n clean is (if clean then t\<lparr>ht_tab := (ht_tab t)[i := None]\<rparr> else t)))"

definition zc_hashtable_del :: "nat \<Rightarrow> ('k, 'v) ztable option \<Rightarrow> ('k, 'v) ztable option res" where
  "zc_hashtable_del n t =
     (case t of None \<Rightarrow> Inr None | Some t \<Rightarrow> rbind (free_buckets n False [0..<ht_tab_size t] t) (\<lambda>t. Inr (Some t)))"

definition zc_hashtable_clean :: "nat \<Rightarrow> ('k, 'v) ztable \<Rightarrow> ('k, 'v) ztable res" where
  "zc_hashtable_clean n t = rbind (free_buckets n True [0..<ht_tab_size t] t) (\<lambda>t. Inr (t\<lparr>ht_nelem := 0\<rparr>))"

text \<open>An entry becomes the first of the chain of its bucket.\<close>

definition push_entry :: "nat \<Rightarrow> ('k, 'v) zentry \<Rightarrow> nat \<Rightarrow> ('k, 'v) zheap \<times> nat option list \<Rightarrow> (('k, 'v) zheap \<times> nat option list) res" where
  "push_entry a e tab_size s =
     (case s of (h, tab) \<Rightarrow>
        let e = e\<lparr>en_next := None, en_prev := None\<rparr> in
        rbind (guard (tab_size \<noteq> 0) Undefined) (\<lambda>_.
        let j = unat (en_hash_key e) mod tab_size in
        rbind (rd tab j) (\<lambda>q.
        rbind (case q of
            None \<Rightarrow> Inr (h(a \<mapsto> e))
          | Some b \<Rightarrow> rbind (entry_at h b) (\<lambda>eb. Inr (h(b \<mapsto> eb\<lparr>en_prev := Some a\<rparr>, a \<mapsto> e\<lparr>en_next := Some b\<rparr>)))) (\<lambda>h.
          Inr (h, tab[j := Some a])))))"

fun rehash_chain :: "nat \<Rightarrow> nat \<Rightarrow> nat option \<Rightarrow> ('k, 'v) zheap \<times> nat option list \<Rightarrow> (('k, 'v) zheap \<times> nat option list) res" where
  "rehash_chain n tab_size None s = Inr s"
| "rehash_chain 0 tab_size (Some a) s = Inl Diverge"
| "rehash_chain (Suc n) tab_size (Some a) s =
     rbind (entry_at (fst s) a) (\<lambda>e. rbind (push_entry a e tab_size s) (rehash_chain n tab_size (en_next e)))"

fun rehash_buckets :: "nat \<Rightarrow> nat \<Rightarrow> nat option list \<Rightarrow> ('k, 'v) zheap \<times> nat option list \<Rightarrow> (('k, 'v) zheap \<times> nat option list) res" where
  "rehash_buckets n tab_size [] s = Inr s"
| "rehash_buckets n tab_size (p # ps) s = rbind (rehash_chain n tab_size p s) (rehash_buckets n tab_size ps)"

definition zc_hashtable_rehash :: "nat \<Rightarrow> ('k, 'v) zcalloc \<Rightarrow> ('k, 'v) ztable \<Rightarrow> (int \<times> ('k, 'v) ztable) res" where
  "zc_hashtable_rehash n ca t =
     (let tab_size = 2 * ht_tab_size t in
      if \<not> zk_tab ca tab_size then Inr (- 1, t)
      else rbind (rehash_buckets n tab_size (ht_tab t) (ht_entries t, replicate tab_size None)) (\<lambda>(h, tab).
        Inr (0, t\<lparr>ht_tab := tab, ht_tab_size := tab_size, ht_entries := h\<rparr>)))"

fun find_entry :: "nat \<Rightarrow> ('k, 'v) ztable \<Rightarrow> 'k \<Rightarrow> nat option \<Rightarrow> nat option res" where
  "find_entry n t k None = Inr None"
| "find_entry 0 t k (Some a) = Inl Diverge"
| "find_entry (Suc n) t k (Some a) =
     rbind (entry_at (ht_entries t) a) (\<lambda>e. if ht_equal t k (en_key e) then Inr (Some a) else find_entry n t k (en_next e))"

definition zc_hashtable_get_entry :: "nat \<Rightarrow> ('k, 'v) ztable \<Rightarrow> 'k \<Rightarrow> nat option res" where
  "zc_hashtable_get_entry n t k =
     rbind (guard (ht_tab_size t \<noteq> 0) Undefined) (\<lambda>_.
     rbind (rd (ht_tab t) (unat (ht_hash t k) mod ht_tab_size t)) (find_entry n t k))"

definition zc_hashtable_get :: "nat \<Rightarrow> ('k, 'v) ztable \<Rightarrow> 'k \<Rightarrow> 'v option res" where
  "zc_hashtable_get n t k =
     rbind (zc_hashtable_get_entry n t k) (\<lambda>p.
       case p of None \<Rightarrow> Inr None | Some a \<Rightarrow> rbind (entry_at (ht_entries t) a) (\<lambda>e. Inr (Some (en_value e))))"

text \<open>The loaded factor is 1.3; the multiplication of a size by it is exact where it matters.\<close>

definition zc_hashtable_put :: "nat \<Rightarrow> ('k, 'v) zcalloc \<Rightarrow> 'k \<Rightarrow> 'v \<Rightarrow> ('k, 'v) ztable \<Rightarrow> (int \<times> ('k, 'v) ztable) res" where
  "zc_hashtable_put n ca k v t =
     rbind (zc_hashtable_get_entry n t k) (\<lambda>p.
     case p of
       Some a \<Rightarrow> rbind (entry_at (ht_entries t) a) (\<lambda>e.
         let t = drop_entry e t in Inr (0, t\<lparr>ht_entries := (ht_entries t)(a \<mapsto> e\<lparr>en_key := k, en_value := v\<rparr>)\<rparr>))
     | None \<Rightarrow>
         rbind (if 10 * ht_nelem t > 13 * ht_tab_size t then zc_hashtable_rehash n ca t else Inr (0, t)) (\<lambda>(rc, t).
         if rc \<noteq> 0 then Inr (- 1, t)
         else case zk_entry ca (ht_entries t) of
           None \<Rightarrow> Inr (- 1, t)
         | Some a \<Rightarrow>
             let e = \<lparr>en_hash_key = ht_hash t k, en_key = k, en_value = v, en_prev = None, en_next = None\<rparr> in
             rbind (push_entry a e (ht_tab_size t) (ht_entries t, ht_tab t)) (\<lambda>(h, tab).
               Inr (0, t\<lparr>ht_tab := tab, ht_entries := h, ht_nelem := ht_nelem t + 1\<rparr>))))"

text \<open>Taking an entry out of its chain.\<close>

definition unlink :: "('k, 'v) zentry \<Rightarrow> nat \<Rightarrow> nat \<Rightarrow> ('k, 'v) zheap \<times> nat option list \<Rightarrow> (('k, 'v) zheap \<times> nat option list) res" where
  "unlink e a i s =
     rbind (case en_next e of
         None \<Rightarrow> Inr (fst s)
       | Some b \<Rightarrow> rbind (entry_at (fst s) b) (\<lambda>eb. Inr ((fst s)(b \<mapsto> eb\<lparr>en_prev := en_prev e\<rparr>)))) (\<lambda>h.
     rbind (case en_prev e of
         None \<Rightarrow> rbind (wr (snd s) i (en_next e)) (\<lambda>tab. Inr (h, tab))
       | Some b \<Rightarrow> rbind (entry_at h b) (\<lambda>eb. Inr (h(b \<mapsto> eb\<lparr>en_next := en_next e\<rparr>), snd s))) (\<lambda>(h, tab).
       Inr (h(a := None), tab)))"

text \<open>The key is not the null pointer.\<close>

definition zc_hashtable_remove :: "nat \<Rightarrow> ('k, 'v) ztable \<Rightarrow> 'k \<Rightarrow> ('k, 'v) ztable res" where
  "zc_hashtable_remove n t k =
     rbind (zc_hashtable_get_entry n t k) (\<lambda>p.
     case p of
       None \<Rightarrow> Inr t
     | Some a \<Rightarrow> rbind (entry_at (ht_entries t) a) (\<lambda>e.
         let t = drop_entry e t in
         rbind (unlink e a (unat (en_hash_key e) mod ht_tab_size t) (ht_entries t, ht_tab t)) (\<lambda>(h, tab).
           Inr (t\<lparr>ht_tab := tab, ht_entries := h, ht_nelem := ht_nelem t - 1\<rparr>))))"

fun first_bucket :: "nat option list \<Rightarrow> nat option" where
  "first_bucket [] = None"
| "first_bucket (p # ps) = (case p of None \<Rightarrow> first_bucket ps | Some a \<Rightarrow> Some a)"

definition zc_hashtable_begin :: "('k, 'v) ztable \<Rightarrow> nat option" where
  "zc_hashtable_begin t = first_bucket (take (ht_tab_size t) (ht_tab t))"

definition zc_hashtable_next :: "('k, 'v) ztable \<Rightarrow> nat \<Rightarrow> nat option res" where
  "zc_hashtable_next t a =
     rbind (entry_at (ht_entries t) a) (\<lambda>e.
       if en_next e \<noteq> None then Inr (en_next e)
       else Inr (first_bucket (drop (unat (en_hash_key e) mod ht_tab_size t + 1) (take (ht_tab_size t) (ht_tab t)))))"

text \<open>\<open>zc_hashtable_foreach\<close>: the entries that it visits.\<close>

fun foreach_from :: "nat \<Rightarrow> ('k, 'v) ztable \<Rightarrow> nat option \<Rightarrow> nat list res" where
  "foreach_from n t None = Inr []"
| "foreach_from 0 t (Some a) = Inl Diverge"
| "foreach_from (Suc n) t (Some a) =
     rbind (zc_hashtable_next t a) (\<lambda>p. rbind (foreach_from n t p) (\<lambda>as. Inr (a # as)))"

definition zc_hashtable_foreach :: "nat \<Rightarrow> ('k, 'v) ztable \<Rightarrow> nat list res" where
  "zc_hashtable_foreach n t = foreach_from n t (zc_hashtable_begin t)"

text \<open>Strings as keys; a \<open>char\<close> is signed.\<close>

definition zc_hashtable_str_hash :: "string \<Rightarrow> u32" where
  "zc_hashtable_str_hash s = foldl (\<lambda>h c. push_bit 5 h + h + scast (of_char c :: u8)) 5381 s"

definition zc_hashtable_str_equal :: "string \<Rightarrow> string \<Rightarrow> bool" where
  "zc_hashtable_str_equal k1 k2 \<longleftrightarrow> k1 = k2"

section \<open>Chains\<close>

text \<open>A doubly linked stretch: entered from \<open>prev\<close> at \<open>p\<close>, left at \<open>q\<close> behind the last entry.\<close>

fun dseg :: "('k, 'v) zheap \<Rightarrow> nat option \<Rightarrow> nat option \<Rightarrow> nat list \<Rightarrow> nat option \<Rightarrow> bool" where
  "dseg h prev p [] q \<longleftrightarrow> p = q"
| "dseg h prev p (a # as) q \<longleftrightarrow> p = Some a \<and> (\<exists>e. h a = Some e \<and> en_prev e = prev \<and> dseg h (Some a) (en_next e) as q)"

definition last_or :: "nat option \<Rightarrow> nat list \<Rightarrow> nat option" where
  "last_or prev as = (if as = [] then prev else Some (last as))"

lemma last_or_simps [simp]: "last_or prev [] = prev" "last_or prev (a # as) = last_or (Some a) as"
  by (auto simp: last_or_def)

lemma dseg_append:
  "dseg h prev p (as @ bs) q \<longleftrightarrow> (\<exists>m. dseg h prev p as m \<and> dseg h (last_or prev as) m bs q)"
  by (induction as arbitrary: prev p) auto

lemma dseg_frame:
  "(\<And>a. a \<in> set as \<Longrightarrow> map_option (\<lambda>e. (en_prev e, en_next e)) (h' a) = map_option (\<lambda>e. (en_prev e, en_next e)) (h a)) \<Longrightarrow>
   dseg h' prev p as q = dseg h prev p as q"
proof (induction as arbitrary: prev p)
  case (Cons a as)
  have "map_option (\<lambda>e. (en_prev e, en_next e)) (h' a) = map_option (\<lambda>e. (en_prev e, en_next e)) (h a)"
    "dseg h' (Some a) m as q = dseg h (Some a) m as q" for m
    using Cons by simp_all
  then show ?case by (cases "h a"; cases "h' a") auto
qed simp

lemma dseg_upd [simp]: "a \<notin> set as \<Longrightarrow> dseg (h(a := x)) prev p as q = dseg h prev p as q"
  by (rule dseg_frame) auto

lemma dseg_entry: "dseg h prev p as q \<Longrightarrow> a \<in> set as \<Longrightarrow> \<exists>e. h a = Some e"
  by (induction as arbitrary: prev p) auto

text \<open>The stretch that a chain is, seen through its links forward only, is enough to walk it.\<close>

fun fpath :: "('k, 'v) zheap \<Rightarrow> nat option \<Rightarrow> nat list \<Rightarrow> bool" where
  "fpath h p [] \<longleftrightarrow> p = None"
| "fpath h p (a # as) \<longleftrightarrow> p = Some a \<and> (\<exists>e. h a = Some e \<and> fpath h (en_next e) as)"

lemma dseg_fpath: "dseg h prev p as None \<Longrightarrow> fpath h p as"
  by (induction as arbitrary: prev p) auto

lemma fpath_frame: "(\<And>a. a \<in> set as \<Longrightarrow> h' a = h a) \<Longrightarrow> fpath h' p as = fpath h p as"
  by (induction as arbitrary: p) auto

section \<open>The invariant\<close>

text \<open>What an entry holds, without its links.\<close>

definition body :: "('k, 'v) zheap \<Rightarrow> nat \<Rightarrow> (u32 \<times> 'k \<times> 'v) option" where
  "body h a = map_option (\<lambda>e. (en_hash_key e, en_key e, en_value e)) (h a)"

definition chains :: "('k, 'v) zheap \<Rightarrow> nat option list \<Rightarrow> nat list list \<Rightarrow> bool" where
  "chains h tab cs \<longleftrightarrow> length cs = length tab \<and> 0 < length tab \<and> distinct (concat cs) \<and>
     (\<forall>i < length tab. dseg h None (tab ! i) (cs ! i) None \<and>
        (\<forall>a \<in> set (cs ! i). \<exists>e. h a = Some e \<and> unat (en_hash_key e) mod length tab = i))"

lemma body_dom: "(\<And>b. body h' b = body h b) \<Longrightarrow> dom h' = dom h"
proof -
  assume b: "\<And>b. body h' b = body h b"
  have "h' a = None \<longleftrightarrow> h a = None" for a using b [of a] by (cases "h' a"; cases "h a") (auto simp: body_def)
  then show ?thesis by (auto simp: dom_def)
qed

text \<open>Pushing an entry that is in no chain.\<close>

lemma mem_concat_nth: "i < length cs \<Longrightarrow> a \<in> set (cs ! i) \<Longrightarrow> a \<in> set (concat cs)"
  by (auto simp: in_set_conv_nth) (metis nth_mem)

lemma distinct_concat_update:
  assumes "i < length cs"
  shows "mset (concat (cs[i := c])) + mset (cs ! i) = mset (concat cs) + mset c"
  using assms by (induction cs arbitrary: i) (auto split: nat.splits)

lemma chains_apart:
  "chains h tab cs \<Longrightarrow> i < length tab \<Longrightarrow> j < length tab \<Longrightarrow> a \<in> set (cs ! i) \<Longrightarrow> a \<in> set (cs ! j) \<Longrightarrow> i = j"
  unfolding chains_def by (metis option.inject)

lemma push_ok:
  fixes e :: "('k, 'v) zentry" and h :: "('k, 'v) zheap"
  assumes ch: "chains h tab cs" and a: "a \<notin> set (concat cs)"
  defines "j \<equiv> unat (en_hash_key e) mod length tab"
  obtains h' where "push_entry a e (length tab) (h, tab) = Inr (h', tab[j := Some a])"
    "chains h' (tab[j := Some a]) (cs[j := a # cs ! j])"
    "body h' a = Some (en_hash_key e, en_key e, en_value e)" "\<forall>b. b \<noteq> a \<longrightarrow> body h' b = body h b"
    "\<forall>b. b \<noteq> a \<longrightarrow> b \<notin> set (concat cs) \<longrightarrow> h' b = h b" "dom h' = insert a (dom h)"
proof -
  have n: "0 < length tab" "length cs = length tab" and j: "j < length tab" "j < length cs"
    using ch by (auto simp: chains_def j_def)
  have dj: "dseg h None (tab ! j) (cs ! j) None" using ch j by (simp add: chains_def)
  have dist: "distinct (concat (cs[j := a # cs ! j]))"
  proof -
    have "mset (concat (cs[j := a # cs ! j])) = add_mset a (mset (concat cs))"
      using distinct_concat_update [OF j(2), of "a # cs ! j"] by simp
    then have "mset (concat (cs[j := a # cs ! j])) = mset (a # concat cs)" by simp
    then show ?thesis using a ch unfolding chains_def by (metis distinct.simps(2) mset_eq_imp_distinct_iff)
  qed
  show thesis
  proof (cases "tab ! j")
    case None
    then have cj: "cs ! j = []" using dj by (cases "cs ! j") auto
    define h' where "h' = h(a \<mapsto> e\<lparr>en_next := None, en_prev := None\<rparr>)"
    have p: "push_entry a e (length tab) (h, tab) = Inr (h', tab[j := Some a])"
      using None j n by (simp add: push_entry_def Let_def j_def [symmetric] h'_def)
    have "chains h' (tab[j := Some a]) (cs[j := a # cs ! j])"
      unfolding chains_def
    proof (intro conjI allI impI)
      fix i assume i: "i < length (tab[j := Some a])"
      have "a \<notin> set (cs ! i)" using a i n mem_concat_nth [of i cs a] by auto
      then show "dseg h' None (tab[j := Some a] ! i) (cs[j := a # cs ! j] ! i) None"
        "\<forall>x\<in>set (cs[j := a # cs ! j] ! i). \<exists>e. h' x = Some e \<and> unat (en_hash_key e) mod length (tab[j := Some a]) = i"
        using ch i j cj n by (auto simp: chains_def h'_def nth_list_update j_def)
    qed (use n dist in auto)
    then show thesis using that [OF p] by (simp add: h'_def body_def)
  next
    case (Some b)
    then obtain cj eb where cj: "cs ! j = b # cj" "h b = Some eb" "en_prev eb = None" "dseg h (Some b) (en_next eb) cj None"
      using dj by (cases "cs ! j") auto
    have ab: "a \<noteq> b" "b \<in> set (concat cs)" using a mem_concat_nth [OF j(2), of b] cj(1) by auto
    define h' where "h' = h(b \<mapsto> eb\<lparr>en_prev := Some a\<rparr>, a \<mapsto> e\<lparr>en_prev := None, en_next := Some b\<rparr>)"
    have p: "push_entry a e (length tab) (h, tab) = Inr (h', tab[j := Some a])"
      using Some j n cj by (simp add: push_entry_def Let_def j_def [symmetric] h'_def entry_at_def)
    have "chains h' (tab[j := Some a]) (cs[j := a # cs ! j])"
      unfolding chains_def
    proof (intro conjI allI impI)
      fix i assume i: "i < length (tab[j := Some a])"
      have ai: "a \<notin> set (cs ! i)" using a i n mem_concat_nth [of i cs a] by auto
      have bi: "i \<noteq> j \<Longrightarrow> b \<notin> set (cs ! i)"
        using chains_apart [OF ch, of i j b] i j cj(1) by auto
      have bj: "b \<notin> set cj"
      proof -
        have "distinct (cs ! j)" using ch j by (simp add: chains_def distinct_concat_iff)
        then show ?thesis by (simp add: cj(1))
      qed
      show "dseg h' None (tab[j := Some a] ! i) (cs[j := a # cs ! j] ! i) None"
        using ch i j ai bi bj cj ab n by (auto simp: chains_def h'_def nth_list_update)
      show "\<forall>x\<in>set (cs[j := a # cs ! j] ! i). \<exists>e. h' x = Some e \<and> unat (en_hash_key e) mod length (tab[j := Some a]) = i"
        using ch i j ab n cj ai bi by (cases "i = j") (auto simp: chains_def h'_def j_def [symmetric])
    qed (use n dist in auto)
    then show thesis using ab cj(2) by (intro that [OF p]) (auto simp: h'_def body_def)
  qed
qed

section \<open>The table as a map\<close>

text \<open>What the entries in the memory say about keys and values.\<close>

definition stores :: "('k \<Rightarrow> u32) \<Rightarrow> ('k, 'v) zheap \<Rightarrow> ('k \<rightharpoonup> 'v) \<Rightarrow> bool" where
  "stores hash h m \<longleftrightarrow> (\<forall>a hk k v. body h a = Some (hk, k, v) \<longrightarrow> hk = hash k) \<and>
     (\<forall>a b hk hk' k v v'. body h a = Some (hk, k, v) \<longrightarrow> body h b = Some (hk', k, v') \<longrightarrow> a = b) \<and>
     (\<forall>k v. m k = Some v \<longleftrightarrow> (\<exists>a hk. body h a = Some (hk, k, v)))"

definition ht_inv :: "('k, 'v) ztable \<Rightarrow> nat list list \<Rightarrow> bool" where
  "ht_inv t cs \<longleftrightarrow> chains (ht_entries t) (ht_tab t) cs \<and> ht_tab_size t = length (ht_tab t) \<and>
     ht_nelem t = length (concat cs) \<and> dom (ht_entries t) = set (concat cs) \<and> ht_equal t = (=)"

definition represents :: "('k, 'v) ztable \<Rightarrow> ('k \<rightharpoonup> 'v) \<Rightarrow> bool" where
  "represents t m \<longleftrightarrow> (\<exists>cs. ht_inv t cs) \<and> stores (ht_hash t) (ht_entries t) m"

lemma stores_same: "(\<And>a. body h' a = body h a) \<Longrightarrow> stores hash h' m = stores hash h m"
  by (simp add: stores_def)

lemma stores_put_new:
  assumes "stores hash h m" "m k = None" "body h a = None" "body h' a = Some (hash k, k, v)" "\<And>b. b \<noteq> a \<Longrightarrow> body h' b = body h b"
  shows "stores hash h' (m(k \<mapsto> v))"
proof -
  have old: "body h b \<noteq> Some (hk, k, v')" for b hk v' using assms(1,2) unfolding stores_def by (metis option.simps(3))
  have b: "body h' b = (if b = a then Some (hash k, k, v) else body h b)" for b using assms(4,5) by auto
  have m: "(\<exists>b hk. body h' b = Some (hk, k', v')) = (if k' = k then v' = v else m k' = Some v')" for k' v'
    using assms(1,3) old unfolding stores_def b by (auto split: if_splits; metis option.simps(3))
  show ?thesis unfolding stores_def
  proof (intro conjI allI impI)
    show "hk = hash k'" if "body h' b = Some (hk, k', v')" for b hk k' v'
      using that assms(1) unfolding b stores_def by (auto split: if_splits)
    show "b = b'" if "body h' b = Some (hk, k', v1)" "body h' b' = Some (hk', k', v2)" for b b' hk hk' k' v1 v2
      using that assms(1) old unfolding b stores_def by (auto split: if_splits)
    show "((m(k \<mapsto> v)) k' = Some v') = (\<exists>b hk. body h' b = Some (hk, k', v'))" for k' v' unfolding m by auto
  qed
qed

lemma stores_put_old:
  assumes "stores hash h m" "body h a = Some (hk0, k, v0)" "body h' a = Some (hk0, k, v)" "\<And>b. b \<noteq> a \<Longrightarrow> body h' b = body h b"
  shows "stores hash h' (m(k \<mapsto> v))"
proof -
  have only: "body h b = Some (hk, k, v') \<Longrightarrow> b = a" for b hk v' using assms(1,2) unfolding stores_def by blast
  have b: "body h' b = (if b = a then Some (hk0, k, v) else body h b)" for b using assms(3,4) by auto
  have hk: "hk0 = hash k" using assms(1,2) unfolding stores_def by blast
  have m: "(\<exists>b hk. body h' b = Some (hk, k', v')) = (if k' = k then v' = v else m k' = Some v')" for k' v'
    using assms(1,2) only unfolding stores_def b by (auto split: if_splits; metis option.inject prod.inject)
  show ?thesis unfolding stores_def
  proof (intro conjI allI impI)
    show "hk = hash k'" if "body h' b = Some (hk, k', v')" for b hk k' v'
      using that assms(1) \<open>hk0 = hash k\<close> unfolding b stores_def by (auto split: if_splits)
    show "b = b'" if "body h' b = Some (hk, k', v1)" "body h' b' = Some (hk', k', v2)" for b b' hk hk' k' v1 v2
      using that assms(1) only unfolding b stores_def by (auto split: if_splits)
    show "((m(k \<mapsto> v)) k' = Some v') = (\<exists>b hk. body h' b = Some (hk, k', v'))" for k' v' unfolding m by auto
  qed
qed

lemma stores_remove:
  assumes "stores hash h m" "body h a = Some (hk0, k, v0)" "body h' a = None" "\<And>b. b \<noteq> a \<Longrightarrow> body h' b = body h b"
  shows "stores hash h' (m(k := None))"
proof -
  have only: "body h b = Some (hk, k, v') \<Longrightarrow> b = a" for b hk v' using assms(1,2) unfolding stores_def by blast
  have b: "body h' b = (if b = a then None else body h b)" for b using assms(3,4) by auto
  have m: "(\<exists>b hk. body h' b = Some (hk, k', v')) = (k' \<noteq> k \<and> m k' = Some v')" for k' v'
    using assms(1,2) only unfolding stores_def b by (auto split: if_splits; metis option.inject prod.inject)
  show ?thesis unfolding stores_def
  proof (intro conjI allI impI)
    show "hk = hash k'" if "body h' b = Some (hk, k', v')" for b hk k' v'
      using that assms(1) unfolding b stores_def by (auto split: if_splits)
    show "b = b'" if "body h' b = Some (hk, k', v1)" "body h' b' = Some (hk', k', v2)" for b b' hk hk' k' v1 v2
      using that assms(1) unfolding b stores_def by (auto split: if_splits)
    show "((m(k := None)) k' = Some v') = (\<exists>b hk. body h' b = Some (hk, k', v'))" for k' v' unfolding m by auto
  qed
qed

section \<open>Looking up\<close>

definition key_at :: "('k, 'v) zheap \<Rightarrow> nat \<Rightarrow> 'k" where
  "key_at h a = en_key (the (h a))"

lemma find_entry_ok:
  "fpath (ht_entries t) p as \<Longrightarrow> length as \<le> n \<Longrightarrow> ht_equal t = (=) \<Longrightarrow>
    find_entry n t k p = Inr (List.find (\<lambda>a. key_at (ht_entries t) a = k) as)"
proof (induction as arbitrary: n p)
  case (Cons a as)
  then show ?case by (cases n) (auto simp: entry_at_def key_at_def)
qed simp

lemma in_concat: "a \<in> set (concat cs) \<Longrightarrow> (\<And>j. j < length cs \<Longrightarrow> a \<in> set (cs ! j) \<Longrightarrow> thesis) \<Longrightarrow> thesis"
  by (auto simp: in_set_conv_nth [of _ cs])

lemma body_iff: "(\<exists>hk v. body h a = Some (hk, k, v)) = (a \<in> dom h \<and> key_at h a = k)"
  by (auto simp: body_def key_at_def)

lemma get_entry_ok:
  assumes r: "represents t m" and n: "ht_nelem t \<le> n"
  obtains (found) a hk v where "zc_hashtable_get_entry n t k = Inr (Some a)" "body (ht_entries t) a = Some (hk, k, v)" "m k = Some v"
  | (missing) "zc_hashtable_get_entry n t k = Inr None" "m k = None"
proof -
  obtain cs where inv: "ht_inv t cs" and st: "stores (ht_hash t) (ht_entries t) m" using r by (auto simp: represents_def)
  define i where "i = unat (ht_hash t k) mod ht_tab_size t"
  have i: "i < length (ht_tab t)" "ht_tab_size t \<noteq> 0" "length cs = length (ht_tab t)"
    using inv by (auto simp: ht_inv_def chains_def i_def)
  have d: "dseg (ht_entries t) None (ht_tab t ! i) (cs ! i) None" using inv i by (simp add: ht_inv_def chains_def)
  have "length (cs ! i) \<le> length (concat cs)"
  proof -
    have "cs ! i \<in> set cs" using i by simp
    then show ?thesis by (metis (no_types) in_set_conv_decomp concat.simps(2) concat_append length_append le_add1 le_add2 le_trans)
  qed
  then have "find_entry n t k (ht_tab t ! i) = Inr (List.find (\<lambda>a. key_at (ht_entries t) a = k) (cs ! i))"
    using n inv by (intro find_entry_ok [OF dseg_fpath [OF d]]) (auto simp: ht_inv_def)
  then have g: "zc_hashtable_get_entry n t k = Inr (List.find (\<lambda>a. key_at (ht_entries t) a = k) (cs ! i))"
    using i by (simp add: zc_hashtable_get_entry_def i_def [symmetric])
  show thesis
  proof (cases "List.find (\<lambda>a. key_at (ht_entries t) a = k) (cs ! i)")
    case (Some a)
    then have "a \<in> set (cs ! i)" "key_at (ht_entries t) a = k" by (auto simp: find_Some_iff)
    then obtain hk v where b: "body (ht_entries t) a = Some (hk, k, v)"
      using d body_iff [of "ht_entries t" a k] dseg_entry by blast
    then have "m k = Some v" using st unfolding stores_def by blast
    then show thesis using found g Some b by simp
  next
    case None
    have "m k = None"
    proof (rule ccontr)
      assume "m k \<noteq> None"
      then obtain a hk v where b: "body (ht_entries t) a = Some (hk, k, v)" using st unfolding stores_def by (metis not_None_eq)
      then have hk: "hk = ht_hash t k" using st unfolding stores_def by blast
      obtain e where e: "ht_entries t a = Some e" "en_hash_key e = hk" "en_key e = k" using b by (auto simp: body_def)
      have "a \<in> set (concat cs)" using inv e(1) by (auto simp: ht_inv_def)
      then obtain j where j: "j < length cs" "a \<in> set (cs ! j)" by (rule in_concat)
      then have "j = i" using inv i e hk unfolding ht_inv_def chains_def i_def by (metis option.inject)
      then show False using None j e by (auto simp: find_None_iff key_at_def)
    qed
    then show thesis using missing g None by simp
  qed
qed

lemma get_ok:
  assumes "represents t m" "ht_nelem t \<le> n"
  shows "zc_hashtable_get n t k = Inr (m k)"
  by (cases rule: get_entry_ok [OF assms, of k]) (auto simp: zc_hashtable_get_def entry_at_def body_def)

section \<open>Putting\<close>

lemma concat_push: "j < length cs \<Longrightarrow> mset (concat (cs[j := a # cs ! j])) = add_mset a (mset (concat cs))"
  using distinct_concat_update [of j cs "a # cs ! j"] by simp

text \<open>A rehash moves the entries into the new chains; the entries keep what they hold.\<close>

definition moved :: "('k, 'v) zheap \<times> nat list list \<Rightarrow> nat list \<Rightarrow> ('k, 'v) zheap \<times> nat list list \<Rightarrow> bool" where
  "moved s as s' \<longleftrightarrow> mset (concat (snd s')) = mset (concat (snd s)) + mset as \<and> (\<forall>b. body (fst s') b = body (fst s) b) \<and>
     (\<forall>b. b \<notin> set as \<longrightarrow> b \<notin> set (concat (snd s)) \<longrightarrow> fst s' b = fst s b)"

lemma moved_set: "moved s as s' \<Longrightarrow> set (concat (snd s')) = set (concat (snd s)) \<union> set as"
  unfolding moved_def by (metis set_mset_mset set_mset_union)

lemma moved_append: "moved s as s' \<Longrightarrow> moved s' bs s'' \<Longrightarrow> moved s (as @ bs) s''"
  using moved_set [of s as s'] by (auto simp: moved_def)

lemma rehash_chain_ok:
  "fpath h p as \<Longrightarrow> chains h tab ds \<Longrightarrow> distinct as \<Longrightarrow> set as \<inter> set (concat ds) = {} \<Longrightarrow> length as \<le> n \<Longrightarrow>
    \<exists>h' tab' ds'. rehash_chain n (length tab) p (h, tab) = Inr (h', tab') \<and> chains h' tab' ds' \<and> length tab' = length tab \<and>
      moved (h, ds) as (h', ds')"
proof (induction as arbitrary: n p h tab ds)
  case Nil
  then show ?case by (auto simp: moved_def)
next
  case (Cons a as)
  obtain n' e where n: "n = Suc n'" "h a = Some e" "p = Some a" "fpath h (en_next e) as" "a \<notin> set (concat ds)" "a \<notin> set as"
    using Cons.prems by (cases n) auto
  define j where "j = unat (en_hash_key e) mod length tab"
  obtain h1 where p: "push_entry a e (length tab) (h, tab) = Inr (h1, tab[j := Some a])"
    "chains h1 (tab[j := Some a]) (ds[j := a # ds ! j])" "body h1 a = Some (en_hash_key e, en_key e, en_value e)"
    "\<forall>b. b \<noteq> a \<longrightarrow> body h1 b = body h b" "\<forall>b. b \<noteq> a \<longrightarrow> b \<notin> set (concat ds) \<longrightarrow> h1 b = h b" "dom h1 = insert a (dom h)"
    unfolding j_def by (rule push_ok [OF Cons.prems(2) n(5), of e])
  have j: "j < length ds" using Cons.prems(2) by (simp add: chains_def j_def)
  have "body h1 b = body h b" for b using p(3,4) n(2) by (cases "b = a") (auto simp: body_def)
  then have m1: "moved (h, ds) [a] (h1, ds[j := a # ds ! j])"
    using p(5) by (auto simp: moved_def concat_push [OF j])
  have f: "fpath h1 (en_next e) as"
  proof -
    have "x \<in> set as \<Longrightarrow> x \<noteq> a \<and> x \<notin> set (concat ds)" for x using n(6) Cons.prems(4) unfolding list.set by blast
    then have "x \<in> set as \<Longrightarrow> h1 x = h x" for x using p(5) by blast
    then show ?thesis using n(4) by (subst fpath_frame [of as h1 h])
  qed
  have sep: "set as \<inter> set (concat (ds[j := a # ds ! j])) = {}"
    using moved_set [OF m1] Cons.prems(4) n(6) by auto
  obtain h2 tab2 ds2 where r: "rehash_chain n' (length (tab[j := Some a])) (en_next e) (h1, tab[j := Some a]) = Inr (h2, tab2)"
    "chains h2 tab2 ds2" "length tab2 = length (tab[j := Some a])" "moved (h1, ds[j := a # ds ! j]) as (h2, ds2)"
    using Cons.IH [OF f p(2) _ sep, of n'] Cons.prems n(1) by auto
  have "rehash_chain n (length tab) p (h, tab) = Inr (h2, tab2)"
    using r(1) n p(1) by (simp add: entry_at_def)
  then show ?case using r(2,3) moved_append [OF m1 r(4)] by auto
qed

lemma rehash_buckets_ok:
  "list_all2 (fpath h) ps cs \<Longrightarrow> chains h tab ds \<Longrightarrow> distinct (concat cs) \<Longrightarrow> set (concat cs) \<inter> set (concat ds) = {} \<Longrightarrow>
    length (concat cs) \<le> n \<Longrightarrow>
    \<exists>h' tab' ds'. rehash_buckets n (length tab) ps (h, tab) = Inr (h', tab') \<and> chains h' tab' ds' \<and> length tab' = length tab \<and>
      moved (h, ds) (concat cs) (h', ds')"
proof (induction ps arbitrary: cs h tab ds)
  case Nil
  then show ?case by (auto simp: moved_def)
next
  case (Cons p ps)
  obtain c cs' where cs: "cs = c # cs'" "fpath h p c" "list_all2 (fpath h) ps cs'" using Cons.prems(1) by (auto simp: list_all2_Cons1)
  have sep: "distinct c" "set c \<inter> set (concat ds) = {}" "length c \<le> n" "distinct (concat cs')" "set c \<inter> set (concat cs') = {}"
    "set (concat cs') \<inter> set (concat ds) = {}" "length (concat cs') \<le> n"
    using Cons.prems(3-5) cs(1) by auto
  obtain h1 tab1 ds1 where r: "rehash_chain n (length tab) p (h, tab) = Inr (h1, tab1)" "chains h1 tab1 ds1"
    "length tab1 = length tab" "moved (h, ds) c (h1, ds1)"
    using rehash_chain_ok [OF cs(2) Cons.prems(2) sep(1-3)] by blast
  have keep: "b \<in> set (concat cs') \<Longrightarrow> h1 b = h b" for b
  proof -
    assume "b \<in> set (concat cs')"
    then have "b \<notin> set c" "b \<notin> set (concat ds)" using sep(5,6) by blast+
    then show ?thesis using r(4) unfolding moved_def fst_conv snd_conv by blast
  qed
  have f: "list_all2 (fpath h1) ps cs'"
    using cs(3) unfolding list_all2_conv_all_nth by (metis fpath_frame keep mem_concat_nth)
  have "set (concat cs') \<inter> set (concat ds1) = {}" using moved_set [OF r(4)] sep(5,6) by auto
  then obtain h2 tab2 ds2 where r2: "rehash_buckets n (length tab1) ps (h1, tab1) = Inr (h2, tab2)" "chains h2 tab2 ds2"
    "length tab2 = length tab1" "moved (h1, ds1) (concat cs') (h2, ds2)"
    using Cons.IH [OF f r(2) sep(4) _ sep(7)] by blast
  then show ?case using r(1,3) moved_append [OF r(4) r2(4)] cs(1) by auto
qed

lemma rehash_ok:
  assumes r: "represents t m" and n: "ht_nelem t \<le> n"
  obtains rc t' where "zc_hashtable_rehash n ca t = Inr (rc, t')" "represents t' m" "ht_nelem t' = ht_nelem t" "ht_hash t' = ht_hash t"
    "rc = 0 \<or> rc = - 1" "dom (ht_entries t') = dom (ht_entries t)" "ht_value_del t' = ht_value_del t"
proof (cases "zk_tab ca (2 * ht_tab_size t)")
  case False
  then show thesis using that [of "- 1" t] r by (simp add: zc_hashtable_rehash_def)
next
  case True
  obtain cs where inv: "ht_inv t cs" and st: "stores (ht_hash t) (ht_entries t) m" using r by (auto simp: represents_def)
  define sz where "sz = 2 * ht_tab_size t"
  have ch: "chains (ht_entries t) (ht_tab t) cs" using inv by (simp add: ht_inv_def)
  have l: "list_all2 (fpath (ht_entries t)) (ht_tab t) cs"
    using ch unfolding chains_def list_all2_conv_all_nth by (auto intro: dseg_fpath)
  have new: "chains (ht_entries t) (replicate sz None) (replicate sz [])" "concat (replicate sz []) = ([] :: nat list)"
    using inv by (auto simp: chains_def sz_def ht_inv_def)
  have fit: "distinct (concat cs)" "set (concat cs) \<inter> set (concat (replicate sz [])) = {}" "length (concat cs) \<le> n"
    using inv n new(2) by (simp_all add: ht_inv_def chains_def)
  obtain h' tab' ds' where b: "rehash_buckets n sz (ht_tab t) (ht_entries t, replicate sz None) = Inr (h', tab')"
    "chains h' tab' ds'" "length tab' = sz" "moved (ht_entries t, replicate sz []) (concat cs) (h', ds')"
    using rehash_buckets_ok [OF l new(1) fit] unfolding length_replicate by blast
  define t' where "t' = t\<lparr>ht_tab := tab', ht_tab_size := sz, ht_entries := h'\<rparr>"
  have z: "zc_hashtable_rehash n ca t = Inr (0, t')"
    using True b(1) by (simp add: zc_hashtable_rehash_def sz_def [symmetric] t'_def)
  have bo: "body h' a = body (ht_entries t) a" for a using b(4) by (simp add: moved_def)
  have do: "dom h' = dom (ht_entries t)" by (rule body_dom) (rule bo)
  have ms: "mset (concat ds') = mset (concat cs)" using b(4) new(2) by (simp add: moved_def)
  have "ht_inv t' ds'"
    using inv b(2,3) do mset_eq_setD [OF ms] mset_eq_length [OF ms] by (simp add: ht_inv_def t'_def)
  then have "represents t' m" using st stores_same [of h' "ht_entries t"] bo by (auto simp: represents_def t'_def)
  then show thesis using that [OF z] do by (simp add: t'_def)
qed

lemma drop_entry_simps [simp]:
  "ht_entries (drop_entry e t) = ht_entries t" "ht_tab (drop_entry e t) = ht_tab t" "ht_tab_size (drop_entry e t) = ht_tab_size t"
  "ht_nelem (drop_entry e t) = ht_nelem t" "ht_hash (drop_entry e t) = ht_hash t" "ht_equal (drop_entry e t) = ht_equal t"
  by (simp_all add: drop_entry_def)

text \<open>Only the values of entries change.\<close>

lemma chains_values:
  assumes "chains h tab cs" "h a = Some e" "en_prev e' = en_prev e" "en_next e' = en_next e" "en_hash_key e' = en_hash_key e"
  shows "chains (h(a \<mapsto> e')) tab cs"
proof -
  have "dseg (h(a \<mapsto> e')) None p c None = dseg h None p c None" for p c
    by (rule dseg_frame) (use assms(2-4) in auto)
  moreover have "(\<exists>f. (h(a \<mapsto> e')) x = Some f \<and> unat (en_hash_key f) mod n = i) = (\<exists>f. h x = Some f \<and> unat (en_hash_key f) mod n = i)" for x n i
    using assms(2,5) by auto
  ultimately show ?thesis using assms(1) unfolding chains_def by simp
qed

lemma put_old_ok:
  fixes t :: "('k, 'v) ztable" and v :: 'v
  assumes r: "represents t m" and a: "body (ht_entries t) a = Some (hk, k, v0)" "ht_entries t a = Some e"
  defines "t' \<equiv> (drop_entry e t)\<lparr>ht_entries := (ht_entries t)(a \<mapsto> e\<lparr>en_key := k, en_value := v\<rparr>)\<rparr>"
  shows "represents t' (m(k \<mapsto> v))"
proof -
  obtain cs where inv: "ht_inv t cs" and st: "stores (ht_hash t) (ht_entries t) m" using r by (auto simp: represents_def)
  have ent: "ht_entries t' = (ht_entries t)(a \<mapsto> e\<lparr>en_key := k, en_value := v\<rparr>)" by (simp add: t'_def)
  have "chains (ht_entries t') (ht_tab t) cs"
    unfolding ent using inv a(2) by (intro chains_values [of _ _ _ _ e]) (simp_all add: ht_inv_def)
  then have "ht_inv t' cs" using inv a(2) by (auto simp: ht_inv_def t'_def)
  moreover have "stores (ht_hash t) (ht_entries t') (m(k \<mapsto> v))"
    by (rule stores_put_old [OF st a(1)]) (use a in \<open>auto simp: t'_def body_def\<close>)
  ultimately show ?thesis by (auto simp: represents_def t'_def)
qed

lemma put_new_ok:
  fixes t :: "('k, 'v) ztable" and v :: 'v
  assumes r: "represents t m" and a: "ht_entries t a = None" "m k = None"
  defines "e \<equiv> \<lparr>en_hash_key = ht_hash t k, en_key = k, en_value = v, en_prev = None, en_next = None\<rparr>"
  obtains h tab where "push_entry a e (ht_tab_size t) (ht_entries t, ht_tab t) = Inr (h, tab)"
    "represents (t\<lparr>ht_tab := tab, ht_entries := h, ht_nelem := ht_nelem t + 1\<rparr>) (m(k \<mapsto> v))"
proof -
  obtain cs where inv: "ht_inv t cs" and st: "stores (ht_hash t) (ht_entries t) m" using r by (auto simp: represents_def)
  define j where "j = unat (en_hash_key e) mod length (ht_tab t)"
  have ch: "chains (ht_entries t) (ht_tab t) cs" and fresh: "a \<notin> set (concat cs)"
    using inv a(1) by (auto simp: ht_inv_def)
  obtain h where p: "push_entry a e (length (ht_tab t)) (ht_entries t, ht_tab t) = Inr (h, (ht_tab t)[j := Some a])"
    "chains h ((ht_tab t)[j := Some a]) (cs[j := a # cs ! j])" "body h a = Some (en_hash_key e, en_key e, en_value e)"
    "\<forall>b. b \<noteq> a \<longrightarrow> body h b = body (ht_entries t) b" "dom h = insert a (dom (ht_entries t))"
    unfolding j_def by (rule push_ok [OF ch fresh, of e]) blast
  have j: "j < length cs" using ch by (simp add: chains_def j_def)
  have ms: "mset (concat (cs[j := a # cs ! j])) = mset (a # concat cs)" using concat_push [OF j, of a] by simp
  define t' where "t' = t\<lparr>ht_tab := (ht_tab t)[j := Some a], ht_entries := h, ht_nelem := ht_nelem t + 1\<rparr>"
  have "ht_inv t' (cs[j := a # cs ! j])"
    using inv p(2,5) mset_eq_setD [OF ms] mset_eq_length [OF ms] by (simp add: ht_inv_def t'_def)
  moreover have "stores (ht_hash t) h (m(k \<mapsto> v))"
    by (rule stores_put_new [OF st a(2), of a]) (use p(3,4) a(1) in \<open>auto simp: body_def e_def\<close>)
  ultimately have "represents t' (m(k \<mapsto> v))" by (auto simp: represents_def t'_def)
  then show thesis using that p(1) inv by (simp add: t'_def ht_inv_def)
qed

text \<open>An allocator never gives away the place of an entry that is in use.\<close>

definition fresh_calloc :: "('k, 'v) zcalloc \<Rightarrow> bool" where
  "fresh_calloc ca \<longleftrightarrow> (\<forall>h a. zk_entry ca h = Some a \<longrightarrow> h a = None)"

lemma tput_ok:
  assumes r: "represents t m" and n: "ht_nelem t \<le> n" and fresh: "fresh_calloc ca"
  obtains rc t' where "zc_hashtable_put n ca k v t = Inr (rc, t')"
    "rc = 0 \<and> represents t' (m(k \<mapsto> v)) \<or> rc = - 1 \<and> represents t' m \<and> m k = None" "ht_nelem t' \<le> ht_nelem t + 1"
proof (cases rule: get_entry_ok [OF r n, of k, case_names found missing])
  case (found a hk v0)
  then obtain e where e: "ht_entries t a = Some e" by (auto simp: body_def)
  show thesis using that [of 0] found(1) e put_old_ok [OF r found(2) e, of v]
    by (simp add: zc_hashtable_put_def entry_at_def Let_def)
next
  case missing
  obtain rc t1 where t1: "(if 10 * ht_nelem t > 13 * ht_tab_size t then zc_hashtable_rehash n ca t else Inr (0, t)) = Inr (rc, t1)"
    "represents t1 m" "ht_nelem t1 = ht_nelem t" "ht_hash t1 = ht_hash t" "rc = 0 \<or> rc = - 1"
    using r rehash_ok [OF r n, of ca thesis] that by (cases "10 * ht_nelem t > 13 * ht_tab_size t") auto
  show thesis
  proof (cases "rc = 0")
    case False
    then show thesis using that [of "- 1" t1] missing t1 by (simp add: zc_hashtable_put_def)
  next
    case rc: True
    show thesis
    proof (cases "zk_entry ca (ht_entries t1)")
      case None
      then show thesis using that [of "- 1" t1] missing t1 rc by (simp add: zc_hashtable_put_def)
    next
      case (Some a)
      obtain h tab where p: "push_entry a \<lparr>en_hash_key = ht_hash t1 k, en_key = k, en_value = v, en_prev = None, en_next = None\<rparr>
          (ht_tab_size t1) (ht_entries t1, ht_tab t1) = Inr (h, tab)"
        "represents (t1\<lparr>ht_tab := tab, ht_entries := h, ht_nelem := ht_nelem t1 + 1\<rparr>) (m(k \<mapsto> v))"
        by (rule put_new_ok [OF t1(2) fresh [unfolded fresh_calloc_def, rule_format, OF Some] missing(2)])
      then show thesis using that [of 0] missing t1 rc Some by (simp add: zc_hashtable_put_def Let_def)
    qed
  qed
qed

section \<open>Removing\<close>

lemma dseg_new_prev:
  "dseg h prev (Some b) (b # bs) q \<Longrightarrow> b \<notin> set bs \<Longrightarrow> h b = Some eb \<Longrightarrow> dseg (h(b \<mapsto> eb\<lparr>en_prev := prev'\<rparr>)) prev' (Some b) (b # bs) q"
  by simp

lemma dseg_new_next:
  "dseg h prev p (as @ [b]) q \<Longrightarrow> b \<notin> set as \<Longrightarrow> h b = Some eb \<Longrightarrow> dseg (h(b \<mapsto> eb\<lparr>en_next := q'\<rparr>)) prev p (as @ [b]) q'"
  by (auto simp: dseg_append)

lemma unlink_ok:
  assumes d: "dseg h None (tab ! i) (xs @ a # ys) None" "distinct (xs @ a # ys)" "i < length tab" "h a = Some e"
  obtains h' p' where "unlink e a i (h, tab) = Inr (h', tab[i := p'])" "dseg h' None p' (xs @ ys) None"
    "body h' a = None" "\<forall>b. b \<noteq> a \<longrightarrow> body h' b = body h b" "\<forall>b. b \<notin> set (xs @ a # ys) \<longrightarrow> h' b = h b"
proof -
  have s: "dseg h None (tab ! i) xs (Some a)" "en_prev e = last_or None xs" "dseg h (Some a) (en_next e) ys None"
    using d(1,4) by (auto simp: dseg_append)
  have nd: "a \<notin> set xs" "a \<notin> set ys" "set xs \<inter> set ys = {}" "distinct xs" "distinct ys" using d(2) by auto
  obtain h1 where h1: "(case en_next e of None \<Rightarrow> Inr h | Some b \<Rightarrow> rbind (entry_at h b) (\<lambda>eb. Inr (h(b \<mapsto> eb\<lparr>en_prev := en_prev e\<rparr>)))) = Inr h1"
    "dseg h1 (last_or None xs) (en_next e) ys None" "\<forall>b. b \<notin> set ys \<longrightarrow> h1 b = h b" "\<forall>b. body h1 b = body h b"
  proof (cases ys)
    case Nil
    then show thesis using that [of h] s(3) by simp
  next
    case (Cons b bs)
    then obtain eb where b: "en_next e = Some b" "h b = Some eb" using s(3) by auto
    have "dseg (h(b \<mapsto> eb\<lparr>en_prev := last_or None xs\<rparr>)) (last_or None xs) (Some b) (b # bs) None"
      using dseg_new_prev [of h "Some a" b bs None eb "last_or None xs"] s(3) b Cons nd by simp
    then show thesis using that [of "h(b \<mapsto> eb\<lparr>en_prev := last_or None xs\<rparr>)"] b Cons s(2) by (simp add: entry_at_def body_def)
  qed
  have x1: "dseg h1 None (tab ! i) xs (Some a)"
    using s(1) h1(3) nd(3) by (subst dseg_frame [of xs h1 h]) auto
  show thesis
  proof (cases xs rule: rev_cases)
    case Nil
    have "unlink e a i (h, tab) = Inr (h1(a := None), tab[i := en_next e])"
      using s(2) Nil d(3) unfolding unlink_def fst_conv snd_conv h1(1) by (simp add: wr_def)
    then show thesis using that [of "h1(a := None)" "en_next e"] h1 Nil nd by (auto simp: body_def)
  next
    case (snoc zs l)
    then obtain el where l: "h1 l = Some el" "h l = Some el" using x1 h1(3) nd(3) by (auto simp: dseg_append)
    have la: "l \<noteq> a" "l \<notin> set zs" "l \<notin> set ys" using snoc nd by auto
    define h2 where "h2 = h1(l \<mapsto> el\<lparr>en_next := en_next e\<rparr>)"
    have "dseg h2 None (tab ! i) xs (en_next e)"
      using dseg_new_next [of h1 None "tab ! i" zs l "Some a" el "en_next e"] x1 la l snoc by (simp add: h2_def)
    moreover have "dseg h2 (last_or None xs) (en_next e) ys None"
      using h1(2) la by (simp add: h2_def)
    ultimately have d2: "dseg (h2(a := None)) None (tab ! i) (xs @ ys) None"
      using nd by (subst dseg_upd) (auto simp: dseg_append)
    have "unlink e a i (h, tab) = Inr (h2(a := None), tab[i := tab ! i])"
      using s(2) snoc l unfolding unlink_def fst_conv snd_conv h1(1) by (simp add: entry_at_def h2_def last_or_def)
    then show thesis
    proof (rule that [OF _ d2])
      show "body (h2(a := None)) a = None" by (simp add: body_def)
      show "\<forall>b. b \<noteq> a \<longrightarrow> body (h2(a := None)) b = body h b" using h1(4) l by (auto simp: h2_def body_def)
      show "\<forall>b. b \<notin> set (xs @ a # ys) \<longrightarrow> (h2(a := None)) b = h b" using h1(3) snoc by (auto simp: h2_def)
    qed
  qed
qed


lemma body_hash: "body h' x = body h x \<Longrightarrow> (\<exists>e. h' x = Some e \<and> P (en_hash_key e)) = (\<exists>e. h x = Some e \<and> P (en_hash_key e))"
  by (cases "h' x"; cases "h x") (auto simp: body_def)

lemma remove_ok:
  assumes r: "represents t m" and n: "ht_nelem t \<le> n"
  obtains t' where "zc_hashtable_remove n t k = Inr t'" "represents t' (m(k := None))" "ht_nelem t' \<le> ht_nelem t"
proof (cases rule: get_entry_ok [OF r n, of k, case_names found missing])
  case missing
  then show thesis using that [of t] r by (simp add: zc_hashtable_remove_def fun_upd_idem)
next
  case (found a hk v)
  obtain cs where inv: "ht_inv t cs" and st: "stores (ht_hash t) (ht_entries t) m" using r by (auto simp: represents_def)
  have ch: "chains (ht_entries t) (ht_tab t) cs" "length cs = length (ht_tab t)" using inv by (simp_all add: ht_inv_def chains_def)
  obtain e where e: "ht_entries t a = Some e" using found(2) by (auto simp: body_def)
  have "a \<in> set (concat cs)" using inv e by (auto simp: ht_inv_def)
  then obtain i where i: "i < length cs" "a \<in> set (cs ! i)" by (rule in_concat)
  then obtain xs ys where c: "cs ! i = xs @ a # ys" by (meson split_list)
  have hi: "unat (en_hash_key e) mod ht_tab_size t = i" using inv i e unfolding ht_inv_def chains_def by fastforce
  have d: "dseg (ht_entries t) None (ht_tab t ! i) (xs @ a # ys) None" "distinct (xs @ a # ys)" "i < length (ht_tab t)"
    using ch i(1) c [symmetric] by (auto simp: chains_def distinct_concat_iff)
  obtain h' p' where u: "unlink e a i (ht_entries t, ht_tab t) = Inr (h', (ht_tab t)[i := p'])" "dseg h' None p' (xs @ ys) None"
    "body h' a = None" "\<forall>b. b \<noteq> a \<longrightarrow> body h' b = body (ht_entries t) b" "\<forall>b. b \<notin> set (xs @ a # ys) \<longrightarrow> h' b = ht_entries t b"
    by (rule unlink_ok [OF d e])
  define cs' where "cs' = cs[i := xs @ ys]"
  define t' where "t' = (drop_entry e t)\<lparr>ht_tab := (ht_tab t)[i := p'], ht_entries := h', ht_nelem := ht_nelem t - 1\<rparr>"
  have z: "zc_hashtable_remove n t k = Inr t'"
    using found(1) e hi u(1) by (simp add: zc_hashtable_remove_def entry_at_def Let_def t'_def)
  have ms: "mset (concat cs) = mset (a # concat cs')"
  proof -
    have "mset (concat cs') + mset (cs ! i) = mset (concat cs) + mset (xs @ ys)"
      unfolding cs'_def by (rule distinct_concat_update [OF i(1)])
    then show ?thesis by (simp add: c)
  qed
  have dist: "distinct (a # concat cs')" using ch(1) ms mset_eq_imp_distinct_iff unfolding chains_def by blast
  have "chains h' ((ht_tab t)[i := p']) cs'"
    unfolding chains_def
  proof (intro conjI allI impI ballI)
    fix j assume "j < length ((ht_tab t)[i := p'])"
    then have j: "j < length (ht_tab t)" "j < length cs" using ch(2) by simp_all
    have apart: "j \<noteq> i \<Longrightarrow> x \<in> set (cs ! j) \<Longrightarrow> x \<notin> set (xs @ a # ys)" for x
      using chains_apart [OF ch(1) j(1) d(3), of x] c by auto
    show "dseg h' None ((ht_tab t)[i := p'] ! j) (cs' ! j) None"
    proof (cases "j = i")
      case True
      then show ?thesis using u(2) j by (simp add: cs'_def)
    next
      case False
      then have "dseg h' None (ht_tab t ! j) (cs ! j) None"
        using ch(1) j apart u(5) by (subst dseg_frame [of "cs ! j" h' "ht_entries t"]) (auto simp: chains_def)
      then show ?thesis using False j by (simp add: cs'_def)
    qed
    fix x assume x: "x \<in> set (cs' ! j)"
    have xa: "x \<noteq> a" using dist mem_concat_nth [of j cs' x] x j by (auto simp: cs'_def)
    have "x \<in> set (cs ! j)" using x j c by (cases "j = i") (auto simp: cs'_def)
    then have "\<exists>e. ht_entries t x = Some e \<and> unat (en_hash_key e) mod length (ht_tab t) = j" using ch(1) j by (simp add: chains_def)
    then show "\<exists>e. h' x = Some e \<and> unat (en_hash_key e) mod length ((ht_tab t)[i := p']) = j"
      using body_hash [of h' x "ht_entries t" "\<lambda>hk. unat hk mod length (ht_tab t) = j"] u(4) xa by simp
  qed (use ch d dist in \<open>auto simp: cs'_def\<close>)
  moreover have "dom h' = set (concat cs')"
  proof -
    have "dom h' = dom (ht_entries t) - {a}"
    proof -
      have "h' b = None \<longleftrightarrow> b = a \<or> ht_entries t b = None" for b
        using u(3,4) by (cases "b = a") (force simp: body_def)+
      then show ?thesis by (auto simp: dom_def)
    qed
    also have "\<dots> = set (concat cs')" using inv mset_eq_setD [OF ms] dist by (auto simp: ht_inv_def)
    finally show ?thesis .
  qed
  ultimately have "ht_inv t' cs'"
    using inv mset_eq_length [OF ms] by (simp add: ht_inv_def t'_def)
  moreover have "stores (ht_hash t) h' (m(k := None))" by (rule stores_remove [OF st found(2) u(3)]) (use u(4) in blast)
  ultimately have "represents t' (m(k := None))" by (auto simp: represents_def t'_def)
  then show thesis using that [OF z] by (simp add: t'_def)
qed

section \<open>Cleaning\<close>

lemma free_chain_ok:
  "fpath (ht_entries t) p as \<Longrightarrow> distinct as \<Longrightarrow> length as \<le> n \<Longrightarrow>
    \<exists>d. free_chain n p t = Inr (t\<lparr>ht_entries := (ht_entries t) |` (- set as), ht_dropped := d\<rparr>)"
proof (induction as arbitrary: n p t)
  case Nil
  have "(ht_entries t) |` (- set []) = ht_entries t" by (simp add: restrict_map_def)
  moreover have "\<exists>d. t = t\<lparr>ht_dropped := d\<rparr>" by (intro exI [of _ "ht_dropped t"]) simp
  ultimately show ?case using Nil by auto
next
  case (Cons a as)
  obtain n' e where n: "n = Suc n'" "ht_entries t a = Some e" "p = Some a" "fpath (ht_entries t) (en_next e) as" "a \<notin> set as"
    using Cons.prems by (cases n) auto
  define t1 where "t1 = (drop_entry e t)\<lparr>ht_entries := (ht_entries t)(a := None)\<rparr>"
  have "fpath (ht_entries t1) (en_next e) as"
    using n(4,5) by (subst fpath_frame [of as _ "ht_entries t"]) (auto simp: t1_def)
  then obtain d where "free_chain n' (en_next e) t1 = Inr (t1\<lparr>ht_entries := (ht_entries t1) |` (- set as), ht_dropped := d\<rparr>)"
    using Cons.IH [of t1 "en_next e" n'] Cons.prems n(1) by auto
  moreover have "t1\<lparr>ht_entries := (ht_entries t1) |` (- set as), ht_dropped := d\<rparr> =
      t\<lparr>ht_entries := (ht_entries t) |` (- set (a # as)), ht_dropped := d\<rparr>"
    by (simp add: t1_def drop_entry_def restrict_map_def fun_eq_iff)
  ultimately show ?case using n by (auto simp: entry_at_def Let_def t1_def)
qed

lemma free_buckets_ok:
  "(\<And>i. i \<in> set is \<Longrightarrow> i < length (ht_tab t) \<and> fpath (ht_entries t) (ht_tab t ! i) (cs ! i)) \<Longrightarrow>
   distinct (concat (map ((!) cs) is)) \<Longrightarrow> distinct is \<Longrightarrow> length (concat (map ((!) cs) is)) \<le> n \<Longrightarrow>
   \<exists>t'. free_buckets n True is t = Inr t' \<and> ht_entries t' = (ht_entries t) |` (- set (concat (map ((!) cs) is))) \<and>
     length (ht_tab t') = length (ht_tab t) \<and> (\<forall>i. ht_tab t' ! i = (if i \<in> set is then None else ht_tab t ! i)) \<and>
     (\<exists>d e tab. t' = t\<lparr>ht_entries := e, ht_dropped := d, ht_tab := tab\<rparr>)"
proof (induction "is" arbitrary: t)
  case Nil
  have "\<exists>d e tab. t = t\<lparr>ht_entries := e, ht_dropped := d, ht_tab := tab\<rparr>"
    by (intro exI [of _ "ht_dropped t"] exI [of _ "ht_entries t"] exI [of _ "ht_tab t"]) simp
  moreover have "ht_entries t = (ht_entries t) |` (- {})" by (simp add: restrict_map_def)
  ultimately show ?case by auto
next
  case (Cons i "is")
  have i: "i < length (ht_tab t)" "fpath (ht_entries t) (ht_tab t ! i) (cs ! i)" "distinct (cs ! i)" "length (cs ! i) \<le> n"
    using Cons.prems by auto
  obtain d where f: "free_chain n (ht_tab t ! i) t = Inr (t\<lparr>ht_entries := (ht_entries t) |` (- set (cs ! i)), ht_dropped := d\<rparr>)"
    using free_chain_ok [OF i(2-4)] by blast
  define t1 where "t1 = t\<lparr>ht_entries := (ht_entries t) |` (- set (cs ! i)), ht_dropped := d, ht_tab := (ht_tab t)[i := None]\<rparr>"
  have "j < length (ht_tab t1) \<and> fpath (ht_entries t1) (ht_tab t1 ! j) (cs ! j)" if "j \<in> set is" for j
  proof -
    have "set (cs ! i) \<inter> set (cs ! j) = {}" "i \<noteq> j" using Cons.prems(2,3) that by auto
    then have "fpath (ht_entries t1) p (cs ! j) = fpath (ht_entries t) p (cs ! j)" for p
      by (intro fpath_frame) (auto simp: t1_def restrict_map_def)
    then show ?thesis using Cons.prems(1) [of j] that \<open>i \<noteq> j\<close> by (simp add: t1_def)
  qed
  then obtain t' where t': "free_buckets n True is t1 = Inr t'" "ht_entries t' = (ht_entries t1) |` (- set (concat (map ((!) cs) is)))"
    "length (ht_tab t') = length (ht_tab t1)" "\<forall>j. ht_tab t' ! j = (if j \<in> set is then None else ht_tab t1 ! j)"
    "\<exists>d e tab. t' = t1\<lparr>ht_entries := e, ht_dropped := d, ht_tab := tab\<rparr>"
    using Cons.IH [of t1] Cons.prems(2-4) by auto
  have "free_buckets n True (i # is) t = Inr t'" using i(1) f t'(1) by (simp add: t1_def)
  moreover have "ht_entries t' = (ht_entries t) |` (- set (concat (map ((!) cs) (i # is))))"
    unfolding t'(2) by (auto simp: t1_def restrict_map_def fun_eq_iff)
  moreover have "\<exists>d e tab. t' = t\<lparr>ht_entries := e, ht_dropped := d, ht_tab := tab\<rparr>"
    using t'(5) by (auto simp: t1_def)
  moreover have "ht_tab t' ! j = (if j \<in> set (i # is) then None else ht_tab t ! j)" for j
    using t'(4) i(1) by (cases "j = i") (auto simp: t1_def)
  ultimately show ?case using t'(3) by (auto simp: t1_def)
qed

lemma chains_empty: "0 < length tab \<Longrightarrow> (\<And>i. i < length tab \<Longrightarrow> tab ! i = None) \<Longrightarrow> chains h tab (replicate (length tab) [])"
  by (simp add: chains_def)

lemma clean_ok:
  assumes r: "represents t m" and n: "ht_nelem t \<le> n"
  obtains t' where "zc_hashtable_clean n t = Inr t'" "represents t' Map.empty" "ht_nelem t' = 0"
proof -
  obtain cs where inv: "ht_inv t cs" using r by (auto simp: represents_def)
  have all: "map ((!) cs) [0..<ht_tab_size t] = cs" using inv map_nth [of cs] by (simp add: ht_inv_def chains_def)
  have f: "i \<in> set [0..<ht_tab_size t] \<Longrightarrow> i < length (ht_tab t) \<and> fpath (ht_entries t) (ht_tab t ! i) (cs ! i)" for i
    using inv by (auto simp: ht_inv_def chains_def intro: dseg_fpath)
  have cs: "distinct (concat (map ((!) cs) [0..<ht_tab_size t]))" "length (concat (map ((!) cs) [0..<ht_tab_size t])) \<le> n"
    "dom (ht_entries t) = set (concat cs)"
    using inv n unfolding all by (simp_all add: ht_inv_def chains_def)
  obtain t1 where t1: "free_buckets n True [0..<ht_tab_size t] t = Inr t1" "ht_entries t1 = (ht_entries t) |` (- set (concat cs))"
    "length (ht_tab t1) = length (ht_tab t)" "\<forall>i. ht_tab t1 ! i = (if i \<in> set [0..<ht_tab_size t] then None else ht_tab t ! i)"
    "\<exists>d e tab. t1 = t\<lparr>ht_entries := e, ht_dropped := d, ht_tab := tab\<rparr>"
    using free_buckets_ok [OF f cs(1) distinct_upt cs(2)] unfolding all by blast
  have e: "ht_entries t1 = Map.empty" unfolding t1(2) cs(3) [symmetric] by (auto simp: restrict_map_def fun_eq_iff)
  have same: "ht_tab_size t1 = ht_tab_size t" "ht_equal t1 = ht_equal t" "ht_hash t1 = ht_hash t" using t1(5) by auto
  have "chains Map.empty (ht_tab t1) (replicate (length (ht_tab t1)) [])"
    using t1(3,4) inv by (intro chains_empty) (auto simp: ht_inv_def chains_def)
  then have "ht_inv (t1\<lparr>ht_nelem := 0\<rparr>) (replicate (length (ht_tab t1)) [])"
    using inv e same t1(3) by (simp add: ht_inv_def)
  then have "represents (t1\<lparr>ht_nelem := 0\<rparr>) Map.empty" using e by (auto simp: represents_def stores_def body_def)
  then show thesis using that t1(1) by (simp add: zc_hashtable_clean_def)
qed

lemma new_table_ok:
  assumes "zc_hashtable_new ca sz hash (=) kd vd = Some t" "0 < sz"
  shows "represents t Map.empty" "ht_nelem t = 0" "ht_hash t = hash"
proof -
  have t: "t = \<lparr>ht_nelem = 0, ht_tab = replicate sz None, ht_tab_size = sz, ht_hash = hash, ht_equal = (=),
        ht_key_del = kd, ht_value_del = vd, ht_entries = Map.empty, ht_dropped = []\<rparr>"
    using assms(1) by (auto simp: zc_hashtable_new_def split: if_splits)
  have "ht_inv t (replicate (length (ht_tab t)) [])"
    using chains_empty [of "ht_tab t" "ht_entries t"] assms(2) by (simp add: ht_inv_def t)
  then show "represents t Map.empty" by (auto simp: represents_def stores_def body_def t)
  show "ht_nelem t = 0" "ht_hash t = hash" by (simp_all add: t)
qed

section \<open>Visiting every entry\<close>

definition hdo :: "'a list \<Rightarrow> 'a option" where
  "hdo xs = (case xs of [] \<Rightarrow> None | x # _ \<Rightarrow> Some x)"

lemma hdo_simps [simp]: "hdo [] = None" "hdo (x # xs) = Some x" "hdo (xs @ ys) = (if xs = [] then hdo ys else hdo xs)"
  by (auto simp: hdo_def split: list.split)

lemma fpath_hdo: "fpath h p as \<Longrightarrow> p = hdo as"
  by (cases as) auto

lemma first_bucket_ok: "list_all2 (fpath h) ps cs \<Longrightarrow> first_bucket ps = hdo (concat cs)"
proof (induction rule: list_all2_induct)
  case (Cons p ps c cs)
  then show ?case using fpath_hdo [of h p c] by (cases c) auto
qed simp

lemma split_concat:
  "concat cs = p @ a # rest \<Longrightarrow> \<exists>i pre as. i < length cs \<and> cs ! i = pre @ a # as \<and> rest = as @ concat (drop (Suc i) cs)"
proof (induction cs arbitrary: p)
  case (Cons c cs)
  from Cons.prems have "c @ concat cs = p @ a # rest" by simp
  then consider (left) us where "c = p @ us" "us @ concat cs = a # rest" | (right) us where "concat cs = us @ a # rest"
    by (auto simp: append_eq_append_conv2)
  then show ?case
  proof cases
    case left
    show ?thesis
    proof (cases us)
      case Nil
      then have "concat cs = [] @ a # rest" using left(2) by simp
      from Cons.IH [OF this] show ?thesis by fastforce
    next
      case (Cons a' us')
      then show ?thesis using left by (intro exI [of _ 0] exI [of _ p] exI [of _ us']) simp
    qed
  next
    case right
    from Cons.IH [OF this] show ?thesis by fastforce
  qed
qed simp

lemma next_ok:
  assumes inv: "ht_inv t cs" and s: "concat cs = p @ a # rest"
  shows "zc_hashtable_next t a = Inr (hdo rest)"
proof -
  obtain i pre as where i: "i < length cs" "cs ! i = pre @ a # as" "rest = as @ concat (drop (Suc i) cs)"
    using split_concat [OF s] by blast
  have ch: "chains (ht_entries t) (ht_tab t) cs" "ht_tab_size t = length (ht_tab t)" "length cs = length (ht_tab t)"
    using inv by (simp_all add: ht_inv_def chains_def)
  have d: "dseg (ht_entries t) None (ht_tab t ! i) (pre @ a # as) None" using ch i(1) i(2) [symmetric] by (simp add: chains_def)
  then obtain e where e: "ht_entries t a = Some e" "en_next e = hdo as"
    by (auto simp: dseg_append dest: dseg_fpath fpath_hdo)
  have "a \<in> set (cs ! i)" using i(2) by simp
  then have h: "unat (en_hash_key e) mod length (ht_tab t) = i" using ch i(1) e(1) unfolding chains_def by fastforce
  have "list_all2 (fpath (ht_entries t)) (ht_tab t) cs"
    using ch unfolding chains_def list_all2_conv_all_nth by (auto intro: dseg_fpath)
  then have "first_bucket (drop (Suc i) (ht_tab t)) = hdo (concat (drop (Suc i) cs))"
    by (intro first_bucket_ok list_all2_dropI)
  then show ?thesis using e h ch(2) i(3) by (cases as) (simp_all add: zc_hashtable_next_def entry_at_def)
qed

lemma foreach_from_ok:
  "ht_inv t cs \<Longrightarrow> concat cs = p @ rest \<Longrightarrow> length rest \<le> n \<Longrightarrow> foreach_from n t (hdo rest) = Inr rest"
proof (induction rest arbitrary: p n)
  case (Cons a rest)
  then obtain n' where n: "n = Suc n'" "length rest \<le> n'" by (cases n) auto
  have "concat cs = (p @ [a]) @ rest" using Cons.prems(2) by simp
  from Cons.IH [OF Cons.prems(1) this n(2)] show ?case using next_ok [OF Cons.prems(1,2)] n(1) by simp
qed simp

lemma foreach_ok:
  assumes "ht_inv t cs" "ht_nelem t \<le> n"
  shows "zc_hashtable_foreach n t = Inr (concat cs)"
proof -
  have ch: "chains (ht_entries t) (ht_tab t) cs" "ht_tab_size t = length (ht_tab t)"
    using assms(1) by (simp_all add: ht_inv_def)
  have "list_all2 (fpath (ht_entries t)) (ht_tab t) cs"
    using ch(1) unfolding chains_def list_all2_conv_all_nth by (auto intro: dseg_fpath)
  then have "zc_hashtable_begin t = hdo (concat cs)" using ch(2) first_bucket_ok by (simp add: zc_hashtable_begin_def)
  then show ?thesis
    using foreach_from_ok [OF assms(1), of "[]" "concat cs" n] assms by (simp add: zc_hashtable_foreach_def ht_inv_def)
qed

section \<open>Any use of a table\<close>

datatype ('k, 'v) htop = Hput 'k 'v | Hget 'k | Hremove 'k | Hclean | Hall

datatype 'v hout = Rc int | Val "'v option" | Done | Values "'v list"

fun htop_run :: "nat \<Rightarrow> ('k, 'v) zcalloc \<Rightarrow> ('k, 'v) htop \<Rightarrow> ('k, 'v) ztable \<Rightarrow> ('v hout \<times> ('k, 'v) ztable) res" where
  "htop_run n ca (Hput k v) t = rbind (zc_hashtable_put n ca k v t) (\<lambda>(rc, t). Inr (Rc rc, t))"
| "htop_run n ca (Hget k) t = rbind (zc_hashtable_get n t k) (\<lambda>v. Inr (Val v, t))"
| "htop_run n ca (Hremove k) t = rbind (zc_hashtable_remove n t k) (\<lambda>t. Inr (Done, t))"
| "htop_run n ca Hclean t = rbind (zc_hashtable_clean n t) (\<lambda>t. Inr (Done, t))"
| "htop_run n ca Hall t = rbind (zc_hashtable_foreach n t) (\<lambda>as. Inr (Values (map (\<lambda>a. en_value (the (ht_entries t a))) as), t))"

fun htops_run :: "nat \<Rightarrow> ('k, 'v) zcalloc \<Rightarrow> ('k, 'v) htop list \<Rightarrow> ('k, 'v) ztable \<Rightarrow> ('v hout list \<times> ('k, 'v) ztable) res" where
  "htops_run n ca [] t = Inr ([], t)"
| "htops_run n ca (op # ops) t = rbind (htop_run n ca op t) (\<lambda>(out, t).
     rbind (htops_run n ca ops t) (\<lambda>(outs, t). Inr (out # outs, t)))"

text \<open>The same operations on a map; only a put of a new key may be refused.\<close>

fun map_op :: "('k, 'v) htop \<Rightarrow> ('k \<rightharpoonup> 'v) \<Rightarrow> 'v hout \<Rightarrow> ('k \<rightharpoonup> 'v) \<Rightarrow> bool" where
  "map_op (Hput k v) m out m' \<longleftrightarrow> out = Rc 0 \<and> m' = m(k \<mapsto> v) \<or> out = Rc (- 1) \<and> m' = m \<and> m k = None"
| "map_op (Hget k) m out m' \<longleftrightarrow> out = Val (m k) \<and> m' = m"
| "map_op (Hremove k) m out m' \<longleftrightarrow> out = Done \<and> m' = m(k := None)"
| "map_op Hclean m out m' \<longleftrightarrow> out = Done \<and> m' = Map.empty"
| "map_op Hall m out m' \<longleftrightarrow> (\<exists>ks. distinct ks \<and> set ks = dom m \<and> out = Values (map (\<lambda>k. the (m k)) ks)) \<and> m' = m"

fun map_ops :: "('k, 'v) htop list \<Rightarrow> ('k \<rightharpoonup> 'v) \<Rightarrow> 'v hout list \<Rightarrow> ('k \<rightharpoonup> 'v) \<Rightarrow> bool" where
  "map_ops [] m outs m' \<longleftrightarrow> outs = [] \<and> m' = m"
| "map_ops (op # ops) m outs m' \<longleftrightarrow> (\<exists>out outs' m1. outs = out # outs' \<and> map_op op m out m1 \<and> map_ops ops m1 outs' m')"

lemma map_ops_Cons:
  "map_ops (op # ops) m (out # outs) m' \<longleftrightarrow> (\<exists>m1. map_op op m out m1 \<and> map_ops ops m1 outs m')"
  by simp

lemma foreach_values:
  assumes "represents t m" "ht_nelem t \<le> n"
  shows "\<exists>as ks. zc_hashtable_foreach n t = Inr as \<and> distinct as \<and> set as = dom (ht_entries t) \<and> distinct ks \<and> set ks = dom m \<and>
    map (\<lambda>a. en_value (the (ht_entries t a))) as = map (\<lambda>k. the (m k)) ks"
proof -
  obtain cs where inv: "ht_inv t cs" and st: "stores (ht_hash t) (ht_entries t) m" using assms(1) by (auto simp: represents_def)
  define h where "h = ht_entries t"
  have as: "distinct (concat cs)" "set (concat cs) = dom h" using inv by (simp_all add: ht_inv_def chains_def h_def)
  have b: "body h a = Some (en_hash_key (the (h a)), key_at h a, en_value (the (h a)))" if "a \<in> dom h" for a
    using that by (auto simp: body_def key_at_def)
  have v: "m (key_at h a) = Some (en_value (the (h a)))" if "a \<in> dom h" for a
    using st b [OF that] unfolding stores_def h_def [symmetric] by blast
  have inj: "inj_on (key_at h) (dom h)"
  proof (rule inj_onI)
    fix a a' assume "a \<in> dom h" "a' \<in> dom h" "key_at h a = key_at h a'"
    then show "a = a'" using b [of a] b [of a'] st unfolding stores_def h_def [symmetric] by metis
  qed
  have "set (map (key_at h) (concat cs)) = dom m"
  proof
    show "set (map (key_at h) (concat cs)) \<subseteq> dom m" using v as(2) by auto
    show "dom m \<subseteq> set (map (key_at h) (concat cs))"
    proof
      fix k assume "k \<in> dom m"
      then obtain a hk x where "body h a = Some (hk, k, x)" using st unfolding stores_def h_def [symmetric] by blast
      then have "a \<in> dom h \<and> key_at h a = k" using body_iff [of h a k] by blast
      then show "k \<in> set (map (key_at h) (concat cs))" using as(2) by auto
    qed
  qed
  moreover have "distinct (map (key_at h) (concat cs))" using as inj by (simp add: distinct_map)
  moreover have "map (\<lambda>a. en_value (the (h a))) (concat cs) = map (\<lambda>k. the (m k)) (map (key_at h) (concat cs))"
    using v as(2) by auto
  ultimately show ?thesis using foreach_ok [OF inv assms(2)] as unfolding h_def by blast
qed

lemma hop_ok:
  assumes "represents t m" "ht_nelem t \<le> n" "fresh_calloc ca"
  obtains out t' m' where "htop_run n ca op t = Inr (out, t')" "map_op op m out m'" "represents t' m'" "ht_nelem t' \<le> ht_nelem t + 1"
proof (cases op)
  case (Hput k v)
  obtain rc t' where "zc_hashtable_put n ca k v t = Inr (rc, t')"
    "rc = 0 \<and> represents t' (m(k \<mapsto> v)) \<or> rc = - 1 \<and> represents t' m \<and> m k = None" "ht_nelem t' \<le> ht_nelem t + 1"
    by (rule tput_ok [OF assms])
  then show thesis using that [of "Rc rc" t' "if rc = 0 then m(k \<mapsto> v) else m"] Hput by auto
next
  case (Hget k)
  then show thesis using that [of "Val (m k)" t m] get_ok [OF assms(1,2)] assms(1) by simp
next
  case (Hremove k)
  obtain t' where "zc_hashtable_remove n t k = Inr t'" "represents t' (m(k := None))" "ht_nelem t' \<le> ht_nelem t"
    by (rule remove_ok [OF assms(1,2)])
  then show thesis using that [of Done t'] Hremove by simp
next
  case Hclean
  obtain t' where "zc_hashtable_clean n t = Inr t'" "represents t' Map.empty" "ht_nelem t' = 0"
    by (rule clean_ok [OF assms(1,2)])
  then show thesis using that [of Done t'] Hclean by simp
next
  case Hall
  obtain as ks where "zc_hashtable_foreach n t = Inr as" "distinct ks" "set ks = dom m"
    "map (\<lambda>a. en_value (the (ht_entries t a))) as = map (\<lambda>k. the (m k)) ks"
    using foreach_values [OF assms(1,2)] by blast
  then show thesis using that [of "Values (map (\<lambda>k. the (m k)) ks)" t m] Hall assms(1) by auto
qed

lemma hops_ok:
  assumes "fresh_calloc ca"
  shows "represents t m \<Longrightarrow> ht_nelem t + length ops \<le> n \<Longrightarrow>
    \<exists>outs t' m'. htops_run n ca ops t = Inr (outs, t') \<and> map_ops ops m outs m' \<and> represents t' m'"
proof (induction ops arbitrary: t m)
  case (Cons op ops)
  have n: "ht_nelem t \<le> n" using Cons.prems(2) by simp
  obtain out t1 m1 where s: "htop_run n ca op t = Inr (out, t1)" "map_op op m out m1" "represents t1 m1" "ht_nelem t1 \<le> ht_nelem t + 1"
    by (rule hop_ok [OF Cons.prems(1) n assms])
  have "ht_nelem t1 + length ops \<le> n" using s(4) Cons.prems(2) by simp
  then obtain outs t2 m2 where "htops_run n ca ops t1 = Inr (outs, t2)" "map_ops ops m1 outs m2" "represents t2 m2"
    using Cons.IH [OF s(3)] by blast
  then show ?case using s(1,2) by fastforce
qed auto

text \<open>
  C39: A hash table of zlog is a map: whatever its hash function and its first size are, any sequence of puts, gets,
  removals, cleanings and visits of all entries on a new table, across all its growing, never goes astray in its chains,
  ends within the fuel of one more than the operations, and answers as a map from keys to values does; only a put of a
  new key may be refused, when there is no memory, and then nothing is lost. A visit sees every entry exactly once.
\<close>

theorem hash_table_is_map:
  assumes "zc_hashtable_new ca sz hash (=) kd vd = Some t" "0 < sz" "fresh_calloc ca" "length ops \<le> n"
  shows "\<exists>outs t' m'. htops_run n ca ops t = Inr (outs, t') \<and> map_ops ops Map.empty outs m' \<and> represents t' m'"
  using hops_ok [OF assms(3) new_table_ok(1) [OF assms(1,2)]] new_table_ok(2) [OF assms(1,2)] assms(4) by simp

theorem hash_table_is_map_witness:
  "\<exists>t' m'. htops_run (Suc (Suc (Suc (Suc (Suc 0))))) \<lparr>zk_struct = True, zk_tab = (\<lambda>_. True),
      zk_entry = (\<lambda>h. if h 0 = None then Some 0 else if h 1 = None then Some 1 else None)\<rparr>
      [Hput 2 (7 :: nat), Hput 5 8, Hput 2 9, Hput 6 1, Hget 2]
      \<lparr>ht_nelem = 0, ht_tab = [None], ht_tab_size = 1, ht_hash = (\<lambda>k :: nat. if k = 2 then 0 else 1), ht_equal = (=),
        ht_key_del = False, ht_value_del = True, ht_entries = Map.empty, ht_dropped = []\<rparr> =
    Inr ([Rc 0, Rc 0, Rc 0, Rc (- 1), Val (Some 9)], t') \<and> represents t' m' \<and> m' 5 = Some 8 \<and> m' 6 = None"
proof -
  let ?n = "Suc (Suc (Suc (Suc (Suc 0))))"
  let ?ca = "\<lparr>zk_struct = True, zk_tab = (\<lambda>_. True),
    zk_entry = (\<lambda>h. if h 0 = None then Some 0 else if h 1 = None then Some 1 else None)\<rparr> :: (nat, nat) zcalloc"
  let ?t = "\<lparr>ht_nelem = 0, ht_tab = [None], ht_tab_size = 1, ht_hash = (\<lambda>k :: nat. if k = 2 then 0 else 1), ht_equal = (=),
        ht_key_del = False, ht_value_del = True, ht_entries = Map.empty, ht_dropped = []\<rparr> :: (nat, nat) ztable"
  let ?ops = "[Hput 2 7, Hput 5 8, Hput 2 9, Hput 6 1, Hget 2]"
  have new: "zc_hashtable_new ?ca 1 (\<lambda>k :: nat. if k = 2 then 0 else 1) (=) False True = Some ?t" by (simp add: zc_hashtable_new_def)
  have fresh: "fresh_calloc ?ca" by (auto simp: fresh_calloc_def split: if_splits)
  obtain outs t' m' where r: "htops_run ?n ?ca ?ops ?t = Inr (outs, t')" "map_ops ?ops Map.empty outs m'" "represents t' m'"
  proof -
    have l: "length ?ops \<le> ?n" by simp
    from hash_table_is_map [OF new zero_less_one fresh l] show thesis by (elim exE conjE) (rule that)
  qed
  have "(case htops_run ?n ?ca ?ops ?t of Inr x \<Rightarrow> fst x | _ \<Rightarrow> []) = [Rc 0, Rc 0, Rc 0, Rc (- 1), Val (Some 9)]"
    by (simp add: zc_hashtable_put_def zc_hashtable_get_def zc_hashtable_get_entry_def push_entry_def entry_at_def Let_def
        guard_def rd_def drop_entry_def zc_hashtable_rehash_def numeral_2_eq_2)
  then have outs: "outs = [Rc 0, Rc 0, Rc 0, Rc (- 1), Val (Some 9)]" unfolding r(1) by simp
  have "m' 5 = Some 8 \<and> m' 6 = None" using r(2) unfolding outs by (simp add: map_ops_Cons del: map_ops.simps(2))
  then show ?thesis using r unfolding outs by blast
qed

end
