(* ===== verification/ZlogEnv.thy ===== *)
theory ZlogEnv
  imports ZlogList ZlogTable
begin

text \<open>
  The categories of zlog and its life (\<open>category_table.c\<close>, \<open>mdc.c\<close>, \<open>zlog.c\<close>): the start, the change of the
  configuration, the end, the categories that a program asks for, and a message on its way to the rules. Parameters are
  \<open>zlog_conf_new\<close> (the file with the configuration), the output of a rule, the allocators and the locks of POSIX. Records
  are left out, and with them the loops of \<open>zlog_init_inner\<close> and \<open>zlog_reload\<close> that give the rules their records.
\<close>

section \<open>The table of the categories\<close>

text \<open>The values of the table are the addresses of the categories.\<close>

record zcats =
  ct_table :: "(string, nat) ztable"
  ct_mem :: "nat \<rightharpoonup> zcategory"

text \<open>What zlog calls: \<open>ze_addr\<close> is where a new category is put, \<open>ze_fuel\<close> bounds the walks along chains.\<close>

record zconf =
  zf_file :: string
  zf_rules :: "nat zlist"
  zf_rule_mem :: "nat \<rightharpoonup> zrule"
  zf_reload_conf_period :: nat

record zcalls =
  ze_lock :: int
  ze_unlock :: int
  ze_key_create :: int
  ze_atexit :: int
  ze_conf_new :: "string option \<Rightarrow> zconf option"
  ze_records_new :: bool
  ze_alloc :: zalloc
  ze_calloc :: "(string, nat) zcalloc"
  ze_addr :: "(nat \<rightharpoonup> zcategory) \<Rightarrow> nat"
  ze_fuel :: nat

definition zlog_category_table_new :: "zcalls \<Rightarrow> zcats option" where
  "zlog_category_table_new L =
     map_option (\<lambda>t. \<lparr>ct_table = t, ct_mem = Map.empty\<rparr>)
       (zc_hashtable_new (ze_calloc L) 20 zc_hashtable_str_hash zc_hashtable_str_equal False True)"

text \<open>The categories in the order in which \<open>zc_hashtable_foreach\<close> visits them.\<close>

definition cats_of :: "nat \<Rightarrow> (string, nat) ztable \<Rightarrow> nat list res" where
  "cats_of n t = rbind (zc_hashtable_foreach n t) (\<lambda>es. Inr (map (\<lambda>a. en_value (the (ht_entries t a))) es))"

fun update_cats :: "zalloc \<Rightarrow> (nat \<rightharpoonup> zrule) \<Rightarrow> nat zlist \<Rightarrow> nat list \<Rightarrow> (nat \<rightharpoonup> zcategory) \<Rightarrow> (int \<times> (nat \<rightharpoonup> zcategory)) res" where
  "update_cats al rh rules [] mem = Inr (0, mem)"
| "update_cats al rh rules (a # as) mem =
     (case mem a of
        None \<Rightarrow> Inl Undefined
      | Some c \<Rightarrow> rbind (zlog_category_update_rules al rh rules c) (\<lambda>(rc, c).
          if rc \<noteq> 0 then Inr (- 1, mem(a \<mapsto> c)) else update_cats al rh rules as (mem(a \<mapsto> c))))"

fun each_cat :: "(zcategory \<Rightarrow> zcategory) \<Rightarrow> nat list \<Rightarrow> (nat \<rightharpoonup> zcategory) \<Rightarrow> (nat \<rightharpoonup> zcategory) res" where
  "each_cat f [] mem = Inr mem"
| "each_cat f (a # as) mem = (case mem a of None \<Rightarrow> Inl Undefined | Some c \<Rightarrow> each_cat f as (mem(a \<mapsto> f c)))"

definition zlog_category_table_update_rules :: "zcalls \<Rightarrow> (nat \<rightharpoonup> zrule) \<Rightarrow> nat zlist \<Rightarrow> zcats \<Rightarrow> (int \<times> zcats) res" where
  "zlog_category_table_update_rules L rh new_rules cats =
     rbind (cats_of (ze_fuel L) (ct_table cats)) (\<lambda>as.
     rbind (update_cats (ze_alloc L) rh new_rules as (ct_mem cats)) (\<lambda>(rc, mem). Inr (rc, cats\<lparr>ct_mem := mem\<rparr>)))"

definition zlog_category_table_commit_rules :: "zcalls \<Rightarrow> zcats \<Rightarrow> zcats res" where
  "zlog_category_table_commit_rules L cats =
     rbind (cats_of (ze_fuel L) (ct_table cats)) (\<lambda>as.
     rbind (each_cat zlog_category_commit_rules as (ct_mem cats)) (\<lambda>mem. Inr (cats\<lparr>ct_mem := mem\<rparr>)))"

definition zlog_category_table_rollback_rules :: "zcalls \<Rightarrow> zcats \<Rightarrow> zcats res" where
  "zlog_category_table_rollback_rules L cats =
     rbind (cats_of (ze_fuel L) (ct_table cats)) (\<lambda>as.
     rbind (each_cat zlog_category_rollback_rules as (ct_mem cats)) (\<lambda>mem. Inr (cats\<lparr>ct_mem := mem\<rparr>)))"

definition zlog_category_table_fetch_category :: "zcalls \<Rightarrow> (nat \<rightharpoonup> zrule) \<Rightarrow> string \<Rightarrow> nat zlist \<Rightarrow> zcats \<Rightarrow> (nat option \<times> zcats) res" where
  "zlog_category_table_fetch_category L rh category_name rules cats =
     rbind (zc_hashtable_get (ze_fuel L) (ct_table cats) category_name) (\<lambda>p.
     if p \<noteq> None then Inr (p, cats)
     else rbind (zlog_category_new (ze_alloc L) rh category_name rules) (\<lambda>co.
       case co of
         None \<Rightarrow> Inr (None, cats)
       | Some c \<Rightarrow>
           let a = ze_addr L (ct_mem cats) in
           rbind (zc_hashtable_put (ze_fuel L) (ze_calloc L) (ca_name c) a (ct_table cats)) (\<lambda>(rc, t).
             if rc \<noteq> 0 then Inr (None, cats\<lparr>ct_table := t\<rparr>)
             else Inr (Some a, cats\<lparr>ct_table := t, ct_mem := (ct_mem cats)(a \<mapsto> c)\<rparr>))))"

section \<open>The life of zlog\<close>

record zenv =
  zv_conf :: "zconf option"
  zv_categories :: "zcats option"
  zv_records :: bool
  zv_default_category :: "nat option"
  zv_reload_conf_count :: nat
  zv_is_init :: bool
  zv_init_version :: nat

definition zenv0 :: zenv where
  "zenv0 = \<lparr>zv_conf = None, zv_categories = None, zv_records = False, zv_default_category = None, zv_reload_conf_count = 0,
     zv_is_init = False, zv_init_version = 0\<rparr>"

definition zlog_fini_inner :: "zenv \<Rightarrow> zenv" where
  "zlog_fini_inner e = e\<lparr>zv_categories := None, zv_default_category := None, zv_records := False, zv_conf := None\<rparr>"

definition zlog_init_inner :: "zcalls \<Rightarrow> string option \<Rightarrow> zenv \<Rightarrow> int \<times> zenv" where
  "zlog_init_inner L confpath e =
     (let (ok, e) =
        (if zv_init_version e \<noteq> 0 then (True, e)
         else if ze_key_create L \<noteq> 0 \<or> ze_atexit L \<noteq> 0 then (False, e)
         else (True, e\<lparr>zv_init_version := zv_init_version e + 1\<rparr>))
      in if \<not> ok then (- 1, zlog_fini_inner e)
         else case ze_conf_new L confpath of
           None \<Rightarrow> (- 1, zlog_fini_inner e)
         | Some conf \<Rightarrow>
             (case zlog_category_table_new L of
                None \<Rightarrow> (- 1, zlog_fini_inner e)
              | Some cats \<Rightarrow>
                  if \<not> ze_records_new L then (- 1, zlog_fini_inner e)
                  else (0, e\<lparr>zv_conf := Some conf, zv_categories := Some cats, zv_records := True\<rparr>)))"

text \<open>The result when the lock was taken and \<open>rc\<close> is what the function wants to return.\<close>

definition unlocked :: "zcalls \<Rightarrow> int \<Rightarrow> int" where
  "unlocked L rc = (if ze_unlock L \<noteq> 0 then - 1 else rc)"

definition zlog_init :: "zcalls \<Rightarrow> string option \<Rightarrow> zenv \<Rightarrow> int \<times> zenv" where
  "zlog_init L confpath e =
     (if ze_lock L \<noteq> 0 then (- 1, e)
      else if zv_is_init e then (- 1, e)
      else case zlog_init_inner L confpath e of (rc, e) \<Rightarrow>
        if rc \<noteq> 0 then (- 1, e)
        else (unlocked L 0, e\<lparr>zv_is_init := True, zv_init_version := zv_init_version e + 1\<rparr>))"

text \<open>A category is asked for under the rules of the configuration in use.\<close>

definition fetch_default :: "zcalls \<Rightarrow> string \<Rightarrow> zenv \<Rightarrow> (nat option \<times> zenv) res" where
  "fetch_default L cname e =
     (case zv_categories e of
        None \<Rightarrow> Inr (None, e)
      | Some cats \<Rightarrow>
          (case zv_conf e of
             None \<Rightarrow> Inl NullDeref
           | Some conf \<Rightarrow>
               rbind (zlog_category_table_fetch_category L (zf_rule_mem conf) cname (zf_rules conf) cats) (\<lambda>(p, cats).
                 Inr (p, e\<lparr>zv_categories := Some cats\<rparr>))))"

definition dzlog_init :: "zcalls \<Rightarrow> string option \<Rightarrow> string \<Rightarrow> zenv \<Rightarrow> (int \<times> zenv) res" where
  "dzlog_init L confpath cname e =
     (if ze_lock L \<noteq> 0 then Inr (- 1, e)
      else if zv_is_init e then Inr (- 1, e)
      else case zlog_init_inner L confpath e of (rc, e) \<Rightarrow>
        if rc \<noteq> 0 then Inr (- 1, e)
        else rbind (fetch_default L cname e) (\<lambda>(p, e).
          let e = e\<lparr>zv_default_category := p\<rparr> in
          if p = None then Inr (- 1, e)
          else Inr (unlocked L 0, e\<lparr>zv_is_init := True, zv_init_version := zv_init_version e + 1\<rparr>)))"

text \<open>A path, the null pointer (the last file), or -1 (the counter of messages has reached its period).\<close>

datatype zpath = Path string | LastFile | Period

definition zlog_reload :: "zcalls \<Rightarrow> zpath \<Rightarrow> zenv \<Rightarrow> (int \<times> zenv) res" where
  "zlog_reload L confpath e =
     (if ze_lock L \<noteq> 0 then Inr (- 1, e)
      else if \<not> zv_is_init e then Inr (unlocked L 0, e)
      else case zv_conf e of
        None \<Rightarrow> Inl NullDeref
      | Some conf \<Rightarrow>
          if confpath = Period \<and> \<not> zv_reload_conf_count e > zf_reload_conf_period conf then Inr (unlocked L 0, e)
          else
            let file = (case confpath of Path f \<Rightarrow> f | _ \<Rightarrow> zf_file conf); e = e\<lparr>zv_reload_conf_count := 0\<rparr> in
            case ze_conf_new L (Some file) of
              None \<Rightarrow> Inr (- 1, e)
            | Some new_conf \<Rightarrow>
                (case zv_categories e of
                   None \<Rightarrow> Inr (- 1, e)
                 | Some cats \<Rightarrow>
                     rbind (zlog_category_table_update_rules L (zf_rule_mem new_conf) (zf_rules new_conf) cats) (\<lambda>(rc, cats).
                     let c_up = rc = 0; e = e\<lparr>zv_categories := Some cats\<rparr> in
                     if \<not> c_up then
                       rbind (if c_up then zlog_category_table_rollback_rules L cats else Inr cats) (\<lambda>cats.
                         Inr (- 1, e\<lparr>zv_categories := Some cats\<rparr>))
                     else
                       let e = e\<lparr>zv_init_version := zv_init_version e + 1\<rparr> in
                       rbind (if c_up then zlog_category_table_commit_rules L cats else Inr cats) (\<lambda>cats.
                         Inr (unlocked L 0, e\<lparr>zv_categories := Some cats, zv_conf := Some new_conf\<rparr>)))))"

definition zlog_fini :: "zcalls \<Rightarrow> zenv \<Rightarrow> zenv" where
  "zlog_fini L e =
     (if ze_lock L \<noteq> 0 then e
      else if \<not> zv_is_init e then e
      else (zlog_fini_inner e)\<lparr>zv_is_init := False\<rparr>)"

text \<open>When the lock cannot be given back there is no category for the caller.\<close>

definition zlog_get_category :: "zcalls \<Rightarrow> string \<Rightarrow> zenv \<Rightarrow> (nat option \<times> zenv) res" where
  "zlog_get_category L cname e =
     (if ze_lock L \<noteq> 0 then Inr (None, e)
      else if \<not> zv_is_init e then Inr (None, e)
      else rbind (fetch_default L cname e) (\<lambda>(p, e). Inr (if ze_unlock L \<noteq> 0 then None else p, e)))"

definition dzlog_set_category :: "zcalls \<Rightarrow> string \<Rightarrow> zenv \<Rightarrow> (int \<times> zenv) res" where
  "dzlog_set_category L cname e =
     (if ze_lock L \<noteq> 0 then Inr (- 1, e)
      else if \<not> zv_is_init e then Inr (- 1, e)
      else rbind (fetch_default L cname e) (\<lambda>(p, e).
        Inr (if p = None then - 1 else unlocked L 0, e\<lparr>zv_default_category := p\<rparr>)))"

section \<open>A message\<close>

definition category_at :: "zenv \<Rightarrow> nat option \<Rightarrow> zcategory res" where
  "category_at e p =
     (case p of
        None \<Rightarrow> Inl NullDeref
      | Some a \<Rightarrow> (case zv_categories e of
          None \<Rightarrow> Inl Undefined
        | Some cats \<Rightarrow> (case ct_mem cats a of None \<Rightarrow> Inl Undefined | Some c \<Rightarrow> Inr c)))"

text \<open>
  Inside the lock, with the thread's buffers and the event in \<open>s\<close>: \<open>event\<close> fills in the event, \<open>out\<close> is
  \<open>zlog_rule_output\<close>, and \<open>thread\<close> the buffers of the thread, when it has some.
\<close>

definition log_locked :: "zcalls \<Rightarrow> ('s \<Rightarrow> 's option) \<Rightarrow> (zcategory \<Rightarrow> 's \<Rightarrow> 's) \<Rightarrow> (nat option \<Rightarrow> 's \<Rightarrow> int \<times> 's) \<Rightarrow> zcategory \<Rightarrow> 's \<Rightarrow> zenv
    \<Rightarrow> ('s \<times> zenv) res" where
  "log_locked L thread event out c s e =
     (case thread s of
        None \<Rightarrow> Inr (s, e)
      | Some s \<Rightarrow>
          rbind (zlog_category_output out c (event c s)) (\<lambda>(rc, s).
          if rc \<noteq> 0 then Inr (s, e)
          else case zv_conf e of
            None \<Rightarrow> Inl NullDeref
          | Some conf \<Rightarrow>
              if zf_reload_conf_period conf = 0 then Inr (s, e)
              else
                let e = e\<lparr>zv_reload_conf_count := zv_reload_conf_count e + 1\<rparr> in
                if zv_reload_conf_count e > zf_reload_conf_period conf then rbind (zlog_reload L Period e) (\<lambda>(_, e). Inr (s, e))
                else Inr (s, e)))"

definition vzlog :: "zcalls \<Rightarrow> ('s \<Rightarrow> 's option) \<Rightarrow> (zcategory \<Rightarrow> 's \<Rightarrow> 's) \<Rightarrow> (nat option \<Rightarrow> 's \<Rightarrow> int \<times> 's) \<Rightarrow> nat option \<Rightarrow> nat \<Rightarrow> 's \<Rightarrow> zenv
    \<Rightarrow> ('s \<times> zenv) res" where
  "vzlog L thread event out category level s e =
     rbind (category_at e category) (\<lambda>c.
     rbind (zlog_category_needless_level c level) (\<lambda>needless.
     if needless then Inr (s, e)
     else if \<not> zv_is_init e then Inr (s, e)
     else log_locked L thread event out c s e))"

definition vdzlog :: "zcalls \<Rightarrow> ('s \<Rightarrow> 's option) \<Rightarrow> (zcategory \<Rightarrow> 's \<Rightarrow> 's) \<Rightarrow> (nat option \<Rightarrow> 's \<Rightarrow> int \<times> 's) \<Rightarrow> nat \<Rightarrow> 's \<Rightarrow> zenv
    \<Rightarrow> ('s \<times> zenv) res" where
  "vdzlog L thread event out level s e =
     rbind (category_at e (zv_default_category e)) (\<lambda>c.
     rbind (zlog_category_needless_level c level) (\<lambda>needless.
     if needless then Inr (s, e)
     else if \<not> zv_is_init e then Inr (s, e)
     else if zv_default_category e = None then Inr (s, e)
     else log_locked L thread event out c s e))"

text \<open>\<open>zlog\<close> and \<open>dzlog\<close> are no copies of the two: one lets a null category through to where its name is read, the other asks
  for the level inside the lock, behind its checks.\<close>

definition zlog :: "zcalls \<Rightarrow> ('s \<Rightarrow> 's option) \<Rightarrow> (zcategory \<Rightarrow> 's \<Rightarrow> 's) \<Rightarrow> (nat option \<Rightarrow> 's \<Rightarrow> int \<times> 's) \<Rightarrow> nat option \<Rightarrow> nat \<Rightarrow> 's \<Rightarrow> zenv
    \<Rightarrow> ('s \<times> zenv) res" where
  "zlog L thread event out category level s e =
     rbind (if category = None then Inr False else rbind (category_at e category) (\<lambda>c. zlog_category_needless_level c level)) (\<lambda>needless.
     if needless then Inr (s, e)
     else if \<not> zv_is_init e then Inr (s, e)
     else case thread s of
       None \<Rightarrow> Inr (s, e)
     | Some _ \<Rightarrow> rbind (category_at e category) (\<lambda>c. log_locked L thread event out c s e))"

definition dzlog :: "zcalls \<Rightarrow> ('s \<Rightarrow> 's option) \<Rightarrow> (zcategory \<Rightarrow> 's \<Rightarrow> 's) \<Rightarrow> (nat option \<Rightarrow> 's \<Rightarrow> int \<times> 's) \<Rightarrow> nat \<Rightarrow> 's \<Rightarrow> zenv
    \<Rightarrow> ('s \<times> zenv) res" where
  "dzlog L thread event out level s e =
     (if \<not> zv_is_init e then Inr (s, e)
      else if zv_default_category e = None then Inr (s, e)
      else rbind (category_at e (zv_default_category e)) (\<lambda>c.
        rbind (zlog_category_needless_level c level) (\<lambda>needless.
        if needless then Inr (s, e) else log_locked L thread event out c s e)))"

definition zlog_level_enabled :: "nat option \<Rightarrow> nat \<Rightarrow> zenv \<Rightarrow> bool res" where
  "zlog_level_enabled category level e =
     (if category = None then Inr False
      else rbind (category_at e category) (\<lambda>c. rbind (zlog_category_needless_level c level) (\<lambda>needless. Inr (\<not> needless))))"

section \<open>The data of a thread for the log\<close>

text \<open>A key and its value, copied into arrays of 1025 bytes (\<open>mdc.c\<close>).\<close>

record zmdc_kv =
  mk_key :: string
  mk_value :: string
  mk_value_len :: nat

definition zlog_mdc_kv_new :: "zalloc \<Rightarrow> string \<Rightarrow> string \<Rightarrow> zmdc_kv option" where
  "zlog_mdc_kv_new al key value =
     (if \<not> za_ok al 2064 then None
      else Some \<lparr>mk_key = take 1024 key, mk_value = take 1024 value, mk_value_len = length value\<rparr>)"

definition zlog_mdc_new :: "zalloc \<Rightarrow> (string, zmdc_kv) zcalloc \<Rightarrow> (string, zmdc_kv) ztable option" where
  "zlog_mdc_new al ca =
     (if \<not> za_ok al 8 then None
      else zc_hashtable_new ca 20 zc_hashtable_str_hash zc_hashtable_str_equal False True)"

definition zlog_mdc_put :: "nat \<Rightarrow> zalloc \<Rightarrow> (string, zmdc_kv) zcalloc \<Rightarrow> string \<Rightarrow> string \<Rightarrow> (string, zmdc_kv) ztable
    \<Rightarrow> (int \<times> (string, zmdc_kv) ztable) res" where
  "zlog_mdc_put n al ca key value t =
     (case zlog_mdc_kv_new al key value of
        None \<Rightarrow> Inr (- 1, t)
      | Some kv \<Rightarrow> rbind (zc_hashtable_put n ca (mk_key kv) kv t) (\<lambda>(rc, t). Inr (if rc \<noteq> 0 then - 1 else 0, t)))"

definition zlog_mdc_get_kv :: "nat \<Rightarrow> (string, zmdc_kv) ztable \<Rightarrow> string \<Rightarrow> zmdc_kv option res" where
  "zlog_mdc_get_kv n t key = zc_hashtable_get n t key"

definition zlog_mdc_get :: "nat \<Rightarrow> (string, zmdc_kv) ztable \<Rightarrow> string \<Rightarrow> string option res" where
  "zlog_mdc_get n t key = rbind (zc_hashtable_get n t key) (\<lambda>kv. Inr (map_option mk_value kv))"

definition zlog_mdc_remove :: "nat \<Rightarrow> (string, zmdc_kv) ztable \<Rightarrow> string \<Rightarrow> (string, zmdc_kv) ztable res" where
  "zlog_mdc_remove n t key = zc_hashtable_remove n t key"

definition zlog_mdc_clean :: "nat \<Rightarrow> (string, zmdc_kv) ztable \<Rightarrow> (string, zmdc_kv) ztable res" where
  "zlog_mdc_clean n t = zc_hashtable_clean n t"

section \<open>The categories that are registered\<close>

definition cat_ok :: "zcategory \<Rightarrow> bool" where
  "cat_ok c \<longleftrightarrow> length (ca_level_bitmap c) = 32 \<and> ca_fit_rules c \<noteq> None \<and> ca_fit_rules_backup c = None"

definition registered :: "zcats \<Rightarrow> (string \<rightharpoonup> nat) \<Rightarrow> bool" where
  "registered cats m \<longleftrightarrow> represents (ct_table cats) m \<and>
     (\<forall>k a. m k = Some a \<longrightarrow> (\<exists>c. ct_mem cats a = Some c \<and> ca_name c = k \<and> cat_ok c))"

lemma registered_inj: "registered cats m \<Longrightarrow> m k = Some a \<Longrightarrow> m k' = Some a \<Longrightarrow> k = k'"
  unfolding registered_def by (metis option.inject)

lemma cats_of_ok:
  assumes r: "registered cats m" and n: "ht_nelem (ct_table cats) \<le> n"
  obtains as where "cats_of n (ct_table cats) = Inr as" "distinct as" "set as = ran m"
proof -
  have rep: "represents (ct_table cats) m" using r by (simp add: registered_def)
  obtain es ks where e: "zc_hashtable_foreach n (ct_table cats) = Inr es" "distinct ks" "set ks = dom m"
    "map (\<lambda>a. en_value (the (ht_entries (ct_table cats) a))) es = map (\<lambda>k. the (m k)) ks"
    using foreach_values [OF rep n] by blast
  have "inj_on (\<lambda>k. the (m k)) (dom m)" using registered_inj [OF r] by (auto simp: inj_on_def)
  then have "distinct (map (\<lambda>k. the (m k)) ks)" using e(2,3) by (simp add: distinct_map)
  moreover have "set (map (\<lambda>k. the (m k)) ks) = ran m" using e(3) by (force simp: ran_def)
  ultimately show thesis using that [of "map (\<lambda>k. the (m k)) ks"] e(1,4) by (simp add: cats_of_def)
qed

text \<open>What a change of the rules does to one category, as far as it got.\<close>

definition changed :: "(nat \<rightharpoonup> zrule) \<Rightarrow> nat option list \<Rightarrow> zcategory \<Rightarrow> zcategory \<Rightarrow> bool" where
  "changed rh ps c c' \<longleftrightarrow> ca_name c' = ca_name c \<and> fitted rh ps (zlog_category_commit_rules c') \<and>
     ca_fit_rules_backup (zlog_category_commit_rules c') = None"

definition undone :: "zcategory \<Rightarrow> zcategory \<Rightarrow> bool" where
  "undone c c' \<longleftrightarrow> zlog_category_rollback_rules c' = c\<lparr>ca_level_bitmap_backup := replicate 32 0\<rparr>"

lemma update_one:
  assumes "rules_valid rh (zl_items rules)" "cat_ok c"
  obtains rc c' where "zlog_category_update_rules al rh rules c = Inr (rc, c')" "undone c c'"
    "rc = 0 \<and> changed rh (zl_items rules) c c' \<or> rc = - 1 \<and> ca_fit_rules c' = None"
proof -
  obtain old where old: "ca_fit_rules c = Some old" "length (ca_level_bitmap c) = 32" "ca_fit_rules_backup c = None"
    using assms(2) by (auto simp: cat_ok_def)
  obtain rc c' where u: "zlog_category_update_rules al rh rules c = Inr (rc, c')" "rc = 0 \<or> rc = - 1"
    "zlog_category_rollback_rules c' = c\<lparr>ca_fit_rules_backup := None, ca_level_bitmap_backup := replicate 32 0\<rparr>"
    "rc = 0 \<longrightarrow> fitted rh (zl_items rules) (zlog_category_commit_rules c') \<and> ca_name c' = ca_name c \<and>
      ca_fit_rules_backup (zlog_category_commit_rules c') = None"
    by (rule update_ok [OF assms(1) old(1,2)])
  have c: "c\<lparr>ca_fit_rules_backup := None\<rparr> = c" using old(3) by (cases c) simp
  have "undone c c'" using u(3) c unfolding undone_def by simp
  moreover have "rc = - 1 \<Longrightarrow> ca_fit_rules c' = None"
    using u(1) by (auto simp: zlog_category_update_rules_def rbind_Inr_iff split: if_splits)
  ultimately show thesis using that [OF u(1)] u(2,4) by (auto simp: changed_def)
qed

lemma update_cats_ok:
  assumes v: "rules_valid rh (zl_items rules)"
  shows "distinct as \<Longrightarrow> \<forall>a \<in> set as. \<exists>c. mem a = Some c \<and> cat_ok c \<Longrightarrow>
    \<exists>rc mem'. update_cats al rh rules as mem = Inr (rc, mem') \<and> (\<forall>a. a \<notin> set as \<longrightarrow> mem' a = mem a) \<and>
      (\<forall>a \<in> set as. \<exists>c c'. mem a = Some c \<and> mem' a = Some c' \<and> (c' = c \<or> undone c c') \<and> (rc = 0 \<longrightarrow> changed rh (zl_items rules) c c')) \<and>
      (rc = 0 \<or> rc = - 1 \<and> (\<exists>a \<in> set as. \<exists>c'. mem' a = Some c' \<and> ca_fit_rules c' = None))"
proof (induction as arbitrary: mem)
  case (Cons a as)
  obtain c where c: "mem a = Some c" "cat_ok c" using Cons.prems(2) by auto
  obtain rc c' where u: "zlog_category_update_rules al rh rules c = Inr (rc, c')" "undone c c'"
    "rc = 0 \<and> changed rh (zl_items rules) c c' \<or> rc = - 1 \<and> ca_fit_rules c' = None"
    by (rule update_one [OF v c(2)])
  show ?case
  proof (cases "rc = 0")
    case False
    then have "update_cats al rh rules (a # as) mem = Inr (- 1, mem(a \<mapsto> c'))" "ca_fit_rules c' = None" using c(1) u(1,3) by auto
    moreover have "\<forall>b \<in> set (a # as). \<exists>c0 c1. mem b = Some c0 \<and> (mem(a \<mapsto> c')) b = Some c1 \<and> (c1 = c0 \<or> undone c0 c1)"
    proof
      fix b assume "b \<in> set (a # as)"
      then obtain c0 where "mem b = Some c0" using Cons.prems(2) by blast
      then show "\<exists>c0 c1. mem b = Some c0 \<and> (mem(a \<mapsto> c')) b = Some c1 \<and> (c1 = c0 \<or> undone c0 c1)" using c(1) u(2) by auto
    qed
    ultimately show ?thesis by (intro exI [of _ "- 1"] exI [of _ "mem(a \<mapsto> c')"]) auto
  next
    case True
    define mem1 where "mem1 = mem(a \<mapsto> c')"
    have m1: "\<And>b. b \<in> set as \<Longrightarrow> mem1 b = mem b" "mem1 a = Some c'" "\<And>b. b \<noteq> a \<Longrightarrow> mem1 b = mem b"
      using Cons.prems(1) by (auto simp: mem1_def)
    have ok: "\<forall>b \<in> set as. \<exists>c. mem1 b = Some c \<and> cat_ok c" using Cons.prems m1(1) by auto
    from Cons.prems(1) have "distinct as" by simp
    from Cons.IH [of mem1, OF this ok] obtain rc2 mem2 where r: "update_cats al rh rules as mem1 = Inr (rc2, mem2)"
      "\<forall>b. b \<notin> set as \<longrightarrow> mem2 b = mem1 b"
      "\<forall>b \<in> set as. \<exists>c0 c1. mem1 b = Some c0 \<and> mem2 b = Some c1 \<and> (c1 = c0 \<or> undone c0 c1) \<and> (rc2 = 0 \<longrightarrow> changed rh (zl_items rules) c0 c1)"
      "rc2 = 0 \<or> rc2 = - 1 \<and> (\<exists>b \<in> set as. \<exists>c1. mem2 b = Some c1 \<and> ca_fit_rules c1 = None)"
      by (elim exE conjE) (rule that)
    have a: "a \<notin> set as" "mem2 a = Some c'" using Cons.prems(1) r(2) m1(2) by auto
    have "update_cats al rh rules (a # as) mem = Inr (rc2, mem2)" using c(1) u(1) True r(1) by (simp add: mem1_def)
    moreover have "\<forall>b \<in> set (a # as). \<exists>c0 c1. mem b = Some c0 \<and> mem2 b = Some c1 \<and> (c1 = c0 \<or> undone c0 c1) \<and>
        (rc2 = 0 \<longrightarrow> changed rh (zl_items rules) c0 c1)"
      using r(3) a c(1) u(2,3) True m1(1) by auto
    moreover have "\<forall>b. b \<notin> set (a # as) \<longrightarrow> mem2 b = mem b" using r(2) m1(3) by simp
    ultimately show ?thesis using r(4) by (intro exI [of _ rc2] exI [of _ mem2]) auto
  qed
qed auto

lemma each_cat_ok:
  "distinct as \<Longrightarrow> \<forall>a \<in> set as. mem a \<noteq> None \<Longrightarrow>
    \<exists>mem'. each_cat f as mem = Inr mem' \<and> (\<forall>a. mem' a = (if a \<in> set as then map_option f (mem a) else mem a))"
proof (induction as arbitrary: mem)
  case (Cons a as)
  obtain c where c: "mem a = Some c" using Cons.prems(2) by auto
  define mem1 where "mem1 = mem(a \<mapsto> f c)"
  have "\<forall>b \<in> set as. mem1 b \<noteq> None" using Cons.prems(2) by (auto simp: mem1_def)
  then obtain mem' where m: "each_cat f as mem1 = Inr mem'" "\<forall>b. mem' b = (if b \<in> set as then map_option f (mem1 b) else mem1 b)"
    using Cons.IH [of mem1] Cons.prems(1) by auto
  have "each_cat f (a # as) mem = Inr mem'" using c m(1) by (simp add: mem1_def)
  moreover have "mem' b = (if b \<in> set (a # as) then map_option f (mem b) else mem b)" for b
    using c m(2) Cons.prems(1) by (simp add: mem1_def)
  ultimately show ?case by auto
qed auto

lemma category_new_returns:
  assumes "rules_valid rh (zl_items rules)"
  shows "\<exists>co. zlog_category_new al rh name rules = Inr co"
proof -
  define c0 where "c0 = \<lparr>ca_name = name, ca_name_len = length name, ca_level_bitmap = replicate 32 0,
    ca_level_bitmap_backup = replicate 32 0, ca_fit_rules = None, ca_fit_rules_backup = None\<rparr>"
  obtain rc c' where "zlog_category_obtain_rules al rh rules c0 = Inr (rc, c')" "same_but_fit c0 c'"
    "rc = 0 \<longrightarrow> fitted rh (zl_items rules) c'" "rc \<noteq> 0 \<longrightarrow> ca_fit_rules c' = None"
    by (rule obtain_rules_ok [OF assms, of al c0])
  then show ?thesis by (auto simp: zlog_category_new_def c0_def [symmetric])
qed


section \<open>A category that is asked for\<close>

lemma str_equal_eq: "zc_hashtable_str_equal = (=)"
  by (simp add: zc_hashtable_str_equal_def fun_eq_iff)

lemma new_cat_ok:
  assumes "rules_valid rh (zl_items rules)" "zlog_category_new al rh name rules = Inr (Some c)"
  shows "ca_name c = name" "cat_ok c" "fitted rh (zl_items rules) c"
proof -
  define c0 where "c0 = \<lparr>ca_name = name, ca_name_len = length name, ca_level_bitmap = replicate 32 0,
    ca_level_bitmap_backup = replicate 32 0, ca_fit_rules = None, ca_fit_rules_backup = None\<rparr>"
  obtain rc c' where o: "zlog_category_obtain_rules al rh rules c0 = Inr (rc, c')" "same_but_fit c0 c'"
    "rc = 0 \<longrightarrow> fitted rh (zl_items rules) c'" "rc \<noteq> 0 \<longrightarrow> ca_fit_rules c' = None"
    by (rule obtain_rules_ok [OF assms(1), of al c0])
  have c: "rc = 0" "c' = c" using assms(2) o(1) by (auto simp: zlog_category_new_def c0_def [symmetric] split: if_splits)
  show n: "ca_name c = name" using o(2) unfolding c same_but_fit_def c0_def by (cases c) simp
  show f: "fitted rh (zl_items rules) c" using o(3) c by simp
  have "ca_fit_rules_backup c = None" using o(2) unfolding c same_but_fit_def c0_def by (cases c) simp
  then show "cat_ok c" using f by (auto simp: cat_ok_def fitted_def covers_def)
qed

lemma fetch_ok:
  assumes r: "registered cats m" and n: "ht_nelem (ct_table cats) \<le> ze_fuel L" and f: "fresh_calloc (ze_calloc L)"
    and new: "\<And>mem. mem (ze_addr L mem) = None" and v: "rules_valid rh (zl_items rules)"
  obtains p cats' m' where "zlog_category_table_fetch_category L rh name rules cats = Inr (p, cats')" "registered cats' m'"
    "p = None \<and> m' = m \<and> m name = None \<or> (\<exists>a. p = Some a \<and> m' = m(name \<mapsto> a) \<and> (m name = None \<or> m name = Some a \<and> cats' = cats))"
    "ht_nelem (ct_table cats') \<le> ht_nelem (ct_table cats) + 1"
proof -
  have rep: "represents (ct_table cats) m" using r by (simp add: registered_def)
  note g = get_ok [OF rep n, of name]
  show thesis
  proof (cases "m name")
    case (Some a)
    then show thesis using that [of "Some a" cats m] g r by (simp add: zlog_category_table_fetch_category_def fun_upd_idem)
  next
    case None
    obtain co where co: "zlog_category_new (ze_alloc L) rh name rules = Inr co"
      using category_new_returns [OF v] by blast
    show thesis
    proof (cases co)
      case None: None
      then show thesis using that [of None cats m] g \<open>m name = None\<close> co r by (simp add: zlog_category_table_fetch_category_def)
    next
      case (Some c)
      note c = new_cat_ok [OF v co [unfolded Some]]
      define a where "a = ze_addr L (ct_mem cats)"
      have a: "ct_mem cats a = None" by (simp add: a_def new)
      obtain rc t' where p: "zc_hashtable_put (ze_fuel L) (ze_calloc L) name a (ct_table cats) = Inr (rc, t')"
        "rc = 0 \<and> represents t' (m(name \<mapsto> a)) \<or> rc = - 1 \<and> represents t' m \<and> m name = None" "ht_nelem t' \<le> ht_nelem (ct_table cats) + 1"
        by (rule tput_ok [OF rep n f])
      have z: "zlog_category_table_fetch_category L rh name rules cats =
          (if rc \<noteq> 0 then Inr (None, cats\<lparr>ct_table := t'\<rparr>) else Inr (Some a, cats\<lparr>ct_table := t', ct_mem := (ct_mem cats)(a \<mapsto> c)\<rparr>))"
        using g \<open>m name = None\<close> co Some c(1) p(1) by (simp add: zlog_category_table_fetch_category_def Let_def a_def [symmetric])
      have others: "m k = Some b \<Longrightarrow> b \<noteq> a" for k b using r a unfolding registered_def by (metis option.simps(3))
      show thesis
      proof (cases "rc = 0")
        case True
        have "registered (cats\<lparr>ct_table := t', ct_mem := (ct_mem cats)(a \<mapsto> c)\<rparr>) (m(name \<mapsto> a))"
          using r p(2) True c others by (auto simp: registered_def)
        then show thesis using that z True p(3) \<open>m name = None\<close> by simp
      next
        case False
        have "registered (cats\<lparr>ct_table := t'\<rparr>) m" using r p(2) False by (simp add: registered_def)
        then show thesis using that z False p(3) \<open>m name = None\<close> by simp
      qed
    qed
  qed
qed

section \<open>A change of the configuration\<close>

definition all_fitted :: "(nat \<rightharpoonup> zrule) \<Rightarrow> nat option list \<Rightarrow> zcats \<Rightarrow> (string \<rightharpoonup> nat) \<Rightarrow> bool" where
  "all_fitted rh ps cats m \<longleftrightarrow> (\<forall>k a. m k = Some a \<longrightarrow> (\<exists>c. ct_mem cats a = Some c \<and> fitted rh ps c))"

lemma table_update_ok:
  assumes r: "registered cats m" and n: "ht_nelem (ct_table cats) \<le> ze_fuel L" and v: "rules_valid rh (zl_items rules)"
  obtains rc cats1 where "zlog_category_table_update_rules L rh rules cats = Inr (rc, cats1)" "ct_table cats1 = ct_table cats"
    "rc = 0 \<and> (\<exists>cats2. zlog_category_table_commit_rules L cats1 = Inr cats2 \<and> ct_table cats2 = ct_table cats \<and> registered cats2 m \<and>
        all_fitted rh (zl_items rules) cats2 m) \<or>
     rc = - 1 \<and> (\<exists>k a c. m k = Some a \<and> ct_mem cats1 a = Some c \<and> ca_fit_rules c = None)"
    "\<exists>cats3. zlog_category_table_rollback_rules L cats1 = Inr cats3 \<and> (\<forall>k a. m k = Some a \<longrightarrow> (\<exists>c c'. ct_mem cats a = Some c \<and>
        ct_mem cats3 a = Some c' \<and> ca_fit_rules c' = ca_fit_rules c \<and> ca_level_bitmap c' = ca_level_bitmap c))"
proof -
  obtain as where as: "cats_of (ze_fuel L) (ct_table cats) = Inr as" "distinct as" "set as = ran m" by (rule cats_of_ok [OF r n])
  have ok: "\<forall>a \<in> set as. \<exists>c. ct_mem cats a = Some c \<and> cat_ok c" using r as(3) by (force simp: registered_def ran_def)
  obtain rc mem1 where u: "update_cats (ze_alloc L) rh rules as (ct_mem cats) = Inr (rc, mem1)"
    "\<forall>a. a \<notin> set as \<longrightarrow> mem1 a = ct_mem cats a"
    "\<forall>a \<in> set as. \<exists>c c'. ct_mem cats a = Some c \<and> mem1 a = Some c' \<and> (c' = c \<or> undone c c') \<and> (rc = 0 \<longrightarrow> changed rh (zl_items rules) c c')"
    "rc = 0 \<or> rc = - 1 \<and> (\<exists>a \<in> set as. \<exists>c'. mem1 a = Some c' \<and> ca_fit_rules c' = None)"
    using update_cats_ok [OF v as(2) ok, of "ze_alloc L"] by (elim exE conjE) (rule that)
  define cats1 where "cats1 = cats\<lparr>ct_mem := mem1\<rparr>"
  have z: "zlog_category_table_update_rules L rh rules cats = Inr (rc, cats1)"
    using as(1) u(1) by (simp add: zlog_category_table_update_rules_def cats1_def)
  have live: "\<forall>a \<in> set as. mem1 a \<noteq> None" using u(3) by force
  have each: "\<exists>mem'. each_cat f as mem1 = Inr mem' \<and> (\<forall>a. mem' a = (if a \<in> set as then map_option f (mem1 a) else mem1 a))" for f
    using each_cat_ok [OF as(2) live] by blast
  have in_as: "m k = Some a \<Longrightarrow> a \<in> set as" for k a using as(3) by (auto simp: ran_def)
  show thesis
  proof (rule that [OF z])
    show "ct_table cats1 = ct_table cats" by (simp add: cats1_def)
    show "rc = 0 \<and> (\<exists>cats2. zlog_category_table_commit_rules L cats1 = Inr cats2 \<and> ct_table cats2 = ct_table cats \<and> registered cats2 m \<and>
        all_fitted rh (zl_items rules) cats2 m) \<or>
      rc = - 1 \<and> (\<exists>k a c. m k = Some a \<and> ct_mem cats1 a = Some c \<and> ca_fit_rules c = None)"
    proof (cases "rc = 0")
      case False
      then show ?thesis using u(4) as(3) by (force simp: cats1_def ran_def)
    next
      case True
      obtain mem2 where m2: "each_cat zlog_category_commit_rules as mem1 = Inr mem2"
        "\<forall>a. mem2 a = (if a \<in> set as then map_option zlog_category_commit_rules (mem1 a) else mem1 a)" using each by blast
      have new: "\<exists>c. mem2 a = Some c \<and> ca_name c = k \<and> cat_ok c \<and> fitted rh (zl_items rules) c" if mk: "m k = Some a" for k a
      proof -
        obtain c c' where c: "ct_mem cats a = Some c" "mem1 a = Some c'" "changed rh (zl_items rules) c c'"
          using u(3) in_as [OF mk] True by blast
        have "ca_name c = k" using r mk c(1) unfolding registered_def by (metis option.inject)
        then have "ca_name (zlog_category_commit_rules c') = k" using c(3) by (simp add: changed_def zlog_category_commit_rules_def)
        moreover have "cat_ok (zlog_category_commit_rules c')" using c(3) by (auto simp: changed_def cat_ok_def fitted_def covers_def)
        ultimately show ?thesis using m2(2) in_as [OF mk] c by (simp add: changed_def)
      qed
      define cats2 where "cats2 = cats1\<lparr>ct_mem := mem2\<rparr>"
      have "zlog_category_table_commit_rules L cats1 = Inr cats2"
        using as(1) m2(1) by (simp add: zlog_category_table_commit_rules_def cats1_def cats2_def)
      moreover have "registered cats2 m" using r new by (force simp: registered_def cats2_def cats1_def)
      moreover have "all_fitted rh (zl_items rules) cats2 m" using new by (fastforce simp: all_fitted_def cats2_def)
      ultimately show ?thesis using True by (simp add: cats2_def cats1_def)
    qed
    obtain mem3 where m3: "each_cat zlog_category_rollback_rules as mem1 = Inr mem3"
      "\<forall>a. mem3 a = (if a \<in> set as then map_option zlog_category_rollback_rules (mem1 a) else mem1 a)" using each by blast
    have old: "\<exists>c c'. ct_mem cats a = Some c \<and> mem3 a = Some c' \<and> ca_fit_rules c' = ca_fit_rules c \<and> ca_level_bitmap c' = ca_level_bitmap c"
      if mk: "m k = Some a" for k a
    proof -
      obtain c c' where c: "ct_mem cats a = Some c" "mem1 a = Some c'" "c' = c \<or> undone c c'" "cat_ok c"
        using u(3) ok in_as [OF mk] by (metis option.inject)
      have "zlog_category_rollback_rules c = c" using c(4) by (simp add: cat_ok_def zlog_category_rollback_rules_def)
      then show ?thesis using c m3(2) in_as [OF mk] by (auto simp: undone_def)
    qed
    have "zlog_category_table_rollback_rules L cats1 = Inr (cats1\<lparr>ct_mem := mem3\<rparr>)"
      using as(1) m3(1) by (simp add: zlog_category_table_rollback_rules_def cats1_def)
    then show "\<exists>cats3. zlog_category_table_rollback_rules L cats1 = Inr cats3 \<and> (\<forall>k a. m k = Some a \<longrightarrow> (\<exists>c c'. ct_mem cats a = Some c \<and>
        ct_mem cats3 a = Some c' \<and> ca_fit_rules c' = ca_fit_rules c \<and> ca_level_bitmap c' = ca_level_bitmap c))"
      using old by (intro exI [of _ "cats1\<lparr>ct_mem := mem3\<rparr>"]) simp
  qed
qed

text \<open>
  C40: A change of the configuration while the program runs, whatever memory there is: when it succeeds every category that was
  ever asked for keeps its place and has exactly the rules that fit it in the new configuration; when the new file is no
  configuration nothing changes. But when a category could not take its new rules the change is not undone, although
  undoing it would have given every category back its rules and levels: a category is left without any rules.
\<close>

theorem reload_new_rules_or_broken:
  assumes "registered cats m" "ht_nelem (ct_table cats) \<le> ze_fuel L"
    and "zv_is_init e" "zv_categories e = Some cats" "zv_conf e = Some conf" "ze_lock L = 0" "ze_unlock L = 0"
    and "path = Period \<longrightarrow> zv_reload_conf_count e > zf_reload_conf_period conf"
    and "file = (case path of Path f \<Rightarrow> f | _ \<Rightarrow> zf_file conf)"
    and "\<forall>new. ze_conf_new L (Some file) = Some new \<longrightarrow> rules_valid (zf_rule_mem new) (zl_items (zf_rules new))"
  shows "\<exists>rc e' cats'. zlog_reload L path e = Inr (rc, e') \<and> zv_categories e' = Some cats' \<and> ct_table cats' = ct_table cats \<and>
    (rc = 0 \<and> (\<exists>new. ze_conf_new L (Some file) = Some new \<and> zv_conf e' = Some new \<and> registered cats' m \<and>
       all_fitted (zf_rule_mem new) (zl_items (zf_rules new)) cats' m) \<or>
     rc = - 1 \<and> ze_conf_new L (Some file) = None \<and> cats' = cats \<and> zv_conf e' = Some conf \<or>
     rc = - 1 \<and> zv_conf e' = Some conf \<and> (\<exists>k a c. m k = Some a \<and> ct_mem cats' a = Some c \<and> ca_fit_rules c = None) \<and>
       (\<exists>cats3. zlog_category_table_rollback_rules L cats' = Inr cats3 \<and> (\<forall>k a. m k = Some a \<longrightarrow> (\<exists>c c'. ct_mem cats a = Some c \<and>
         ct_mem cats3 a = Some c' \<and> ca_fit_rules c' = ca_fit_rules c \<and> ca_level_bitmap c' = ca_level_bitmap c))))"
proof (cases "ze_conf_new L (Some file)")
  case None
  then have "zlog_reload L path e = Inr (- 1, e\<lparr>zv_reload_conf_count := 0\<rparr>)"
    using assms(3-8) by (auto simp: zlog_reload_def Let_def assms(9))
  then show ?thesis using None assms(4,5) by simp
next
  case (Some new)
  have v: "rules_valid (zf_rule_mem new) (zl_items (zf_rules new))" using assms(10) Some by simp
  obtain rc cats1 where u: "zlog_category_table_update_rules L (zf_rule_mem new) (zf_rules new) cats = Inr (rc, cats1)" "ct_table cats1 = ct_table cats"
    "rc = 0 \<and> (\<exists>cats2. zlog_category_table_commit_rules L cats1 = Inr cats2 \<and> ct_table cats2 = ct_table cats \<and> registered cats2 m \<and>
        all_fitted (zf_rule_mem new) (zl_items (zf_rules new)) cats2 m) \<or>
     rc = - 1 \<and> (\<exists>k a c. m k = Some a \<and> ct_mem cats1 a = Some c \<and> ca_fit_rules c = None)"
    "\<exists>cats3. zlog_category_table_rollback_rules L cats1 = Inr cats3 \<and> (\<forall>k a. m k = Some a \<longrightarrow> (\<exists>c c'. ct_mem cats a = Some c \<and>
        ct_mem cats3 a = Some c' \<and> ca_fit_rules c' = ca_fit_rules c \<and> ca_level_bitmap c' = ca_level_bitmap c))"
    by (rule table_update_ok [OF assms(1,2) v])
  show ?thesis
  proof (cases "rc = 0")
    case True
    then obtain cats2 where c2: "zlog_category_table_commit_rules L cats1 = Inr cats2" "ct_table cats2 = ct_table cats" "registered cats2 m"
      "all_fitted (zf_rule_mem new) (zl_items (zf_rules new)) cats2 m" using u(3) by auto
    have "zlog_reload L path e = Inr (0, e\<lparr>zv_reload_conf_count := 0, zv_categories := Some cats2,
        zv_init_version := zv_init_version e + 1, zv_conf := Some new\<rparr>)"
      using assms(3-8) Some u(1) True c2(1) by (auto simp: zlog_reload_def Let_def assms(9) unlocked_def)
    then show ?thesis using Some c2 by simp
  next
    case False
    have "zlog_reload L path e = Inr (- 1, e\<lparr>zv_reload_conf_count := 0, zv_categories := Some cats1\<rparr>)"
      using assms(3-8) Some u(1) False by (auto simp: zlog_reload_def Let_def assms(9))
    then show ?thesis using False u(2-4) assms(5) by auto
  qed
qed

text \<open>No memory for the new list of rules: the category \<open>mac\<close> loses its rule, and is not given it back.\<close>

theorem reload_new_rules_or_broken_witness:
  "let L = \<lparr>ze_lock = 0, ze_unlock = 0, ze_key_create = 0, ze_atexit = 0,
        ze_conf_new = (\<lambda>_. Some \<lparr>zf_file = ''zlog.conf'', zf_rules = \<lparr>al_array = [None], al_len = 0, al_size = 1, al_del = True\<rparr>,
          zf_rule_mem = Map.empty, zf_reload_conf_period = 0\<rparr>),
        ze_records_new = True, ze_alloc = \<lparr>za_ok = (\<lambda>n. n \<noteq> 24), za_junk = (\<lambda>_. CHR 0x00)\<rparr>,
        ze_calloc = \<lparr>zk_struct = True, zk_tab = (\<lambda>_. True), zk_entry = (\<lambda>_. None)\<rparr>, ze_addr = (\<lambda>_. 0), ze_fuel = 1\<rparr>;
      t = \<lparr>ht_nelem = 1, ht_tab = [Some 5], ht_tab_size = 1, ht_hash = zc_hashtable_str_hash, ht_equal = (=), ht_key_del = False,
        ht_value_del = True, ht_entries = [5 \<mapsto> \<lparr>en_hash_key = zc_hashtable_str_hash ''mac'', en_key = ''mac'', en_value = 3,
          en_prev = None, en_next = None\<rparr>], ht_dropped = []\<rparr>;
      c = \<lparr>ca_name = ''mac'', ca_name_len = 3, ca_level_bitmap = replicate 32 255, ca_level_bitmap_backup = replicate 32 0,
        ca_fit_rules = Some \<lparr>al_array = [Some 9], al_len = 1, al_size = 1, al_del = False\<rparr>, ca_fit_rules_backup = None\<rparr>;
      conf = \<lparr>zf_file = ''zlog.conf'', zf_rules = \<lparr>al_array = [Some 9], al_len = 1, al_size = 1, al_del = True\<rparr>,
        zf_rule_mem = [9 \<mapsto> \<lparr>zr_category = ''*'', zr_level_bitmap = replicate 32 255\<rparr>], zf_reload_conf_period = 0\<rparr>;
      e = \<lparr>zv_conf = Some conf, zv_categories = Some \<lparr>ct_table = t, ct_mem = [3 \<mapsto> c]\<rparr>, zv_records = True, zv_default_category = None,
        zv_reload_conf_count = 0, zv_is_init = True, zv_init_version = 2\<rparr>
    in \<exists>e' cats' c'. zlog_reload L LastFile e = Inr (- 1, e') \<and> zv_conf e' = Some conf \<and> zv_categories e' = Some cats' \<and>
      ct_mem cats' 3 = Some c' \<and> ca_fit_rules c' = None"
proof -
  define L where "L = \<lparr>ze_lock = 0, ze_unlock = 0, ze_key_create = 0, ze_atexit = 0,
        ze_conf_new = (\<lambda>_. Some \<lparr>zf_file = ''zlog.conf'', zf_rules = \<lparr>al_array = [None], al_len = 0, al_size = 1, al_del = True\<rparr>,
          zf_rule_mem = Map.empty, zf_reload_conf_period = 0\<rparr>),
        ze_records_new = True, ze_alloc = \<lparr>za_ok = (\<lambda>n. n \<noteq> 24), za_junk = (\<lambda>_. CHR 0x00)\<rparr>,
        ze_calloc = \<lparr>zk_struct = True, zk_tab = (\<lambda>_. True), zk_entry = (\<lambda>_. None)\<rparr>, ze_addr = (\<lambda>_. 0), ze_fuel = 1\<rparr>"
  define t where "t = \<lparr>ht_nelem = 1, ht_tab = [Some 5], ht_tab_size = 1, ht_hash = zc_hashtable_str_hash, ht_equal = (=), ht_key_del = False,
        ht_value_del = True, ht_entries = [5 \<mapsto> \<lparr>en_hash_key = zc_hashtable_str_hash ''mac'', en_key = ''mac'', en_value = 3 :: nat,
          en_prev = None, en_next = None\<rparr>], ht_dropped = []\<rparr>"
  define c where "c = \<lparr>ca_name = ''mac'', ca_name_len = 3, ca_level_bitmap = replicate 32 255, ca_level_bitmap_backup = replicate 32 0,
        ca_fit_rules = Some \<lparr>al_array = [Some 9], al_len = 1, al_size = 1, al_del = False\<rparr>, ca_fit_rules_backup = None\<rparr>"
  define conf where "conf = \<lparr>zf_file = ''zlog.conf'', zf_rules = \<lparr>al_array = [Some 9], al_len = 1, al_size = 1, al_del = True\<rparr>,
        zf_rule_mem = [9 \<mapsto> \<lparr>zr_category = ''*'', zr_level_bitmap = replicate 32 255\<rparr>], zf_reload_conf_period = 0\<rparr>"
  define e where "e = \<lparr>zv_conf = Some conf, zv_categories = Some \<lparr>ct_table = t, ct_mem = [3 \<mapsto> c]\<rparr>, zv_records = True, zv_default_category = None,
        zv_reload_conf_count = 0, zv_is_init = True, zv_init_version = 2\<rparr>"
  have "ht_inv t [[5]]" by (simp add: ht_inv_def chains_def t_def)
  then have reg: "registered \<lparr>ct_table = t, ct_mem = [3 \<mapsto> c]\<rparr> [''mac'' \<mapsto> 3]"
    by (auto simp: registered_def represents_def stores_def body_def t_def c_def cat_ok_def)
  have p: "ht_nelem (ct_table \<lparr>ct_table = t, ct_mem = [3 \<mapsto> c]\<rparr>) \<le> ze_fuel L" "zv_is_init e"
    "zv_categories e = Some \<lparr>ct_table = t, ct_mem = [3 \<mapsto> c]\<rparr>" "zv_conf e = Some conf" "ze_lock L = 0" "ze_unlock L = 0"
    "LastFile = Period \<longrightarrow> zv_reload_conf_count e > zf_reload_conf_period conf"
    "''zlog.conf'' = (case LastFile of Path f \<Rightarrow> f | _ \<Rightarrow> zf_file conf)"
    "\<forall>new. ze_conf_new L (Some ''zlog.conf'') = Some new \<longrightarrow> rules_valid (zf_rule_mem new) (zl_items (zf_rules new))"
    by (simp_all add: e_def conf_def L_def t_def rules_valid_def zl_items_def)
  have conf_new: "ze_conf_new L (Some ''zlog.conf'') \<noteq> None" by (simp add: L_def)
  obtain rc e' cats' where z: "zlog_reload L LastFile e = Inr (rc, e')" "zv_categories e' = Some cats'"
    "rc = 0 \<or> zv_conf e' = Some conf \<and> (\<exists>k a c. [''mac'' \<mapsto> 3] k = Some a \<and> ct_mem cats' a = Some c \<and> ca_fit_rules c = None)"
  proof -
    have pick: "A \<and> P \<or> B \<and> N \<and> Q \<or> C \<and> D \<and> E \<and> F \<Longrightarrow> \<not> N \<Longrightarrow> A \<or> D \<and> E" for A P B N Q C D E F by blast
    have "\<exists>rc e' cats'. zlog_reload L LastFile e = Inr (rc, e') \<and> zv_categories e' = Some cats' \<and>
      (rc = 0 \<or> zv_conf e' = Some conf \<and> (\<exists>k a c. [''mac'' \<mapsto> 3] k = Some a \<and> ct_mem cats' a = Some c \<and> ca_fit_rules c = None))"
      using reload_new_rules_or_broken [OF reg p]
      by (elim exE conjE, intro exI conjI) (assumption, assumption, erule pick, rule conf_new)
    then show thesis by (elim exE conjE) (rule that)
  qed
  have "rc = - 1"
    using z(1) by (simp add: zlog_reload_def e_def L_def conf_def zlog_category_table_update_rules_def cats_of_def zc_hashtable_foreach_def
        zc_hashtable_begin_def zc_hashtable_next_def t_def c_def entry_at_def zlog_category_update_rules_def zlog_category_obtain_rules_def
        zc_arraylist_new_def Let_def)
  then show ?thesis using z unfolding Let_def L_def [symmetric] t_def [symmetric] c_def [symmetric] conf_def [symmetric] e_def [symmetric]
    by (auto split: if_splits)
qed

section \<open>The data of a thread, and calls without a category\<close>

lemma mdc_put_get:
  assumes "represents t m" "ht_nelem t \<le> n" "fresh_calloc ca" "zlog_mdc_put n al ca key value t = Inr (0, t')" "length key \<le> 1024"
  shows "zlog_mdc_get (n + 1) t' key = Inr (Some (take 1024 value))"
proof -
  obtain kv where kv: "zlog_mdc_kv_new al key value = Some kv" "mk_key kv = key" "mk_value kv = take 1024 value"
    using assms(4,5) by (auto simp: zlog_mdc_put_def zlog_mdc_kv_new_def split: if_splits)
  obtain rc t1 where p: "zc_hashtable_put n ca key kv t = Inr (rc, t1)"
    "rc = 0 \<and> represents t1 (m(key \<mapsto> kv)) \<or> rc = - 1 \<and> represents t1 m \<and> m key = None" "ht_nelem t1 \<le> ht_nelem t + 1"
    by (rule tput_ok [OF assms(1-3)])
  have "rc = 0" "t1 = t'" using assms(4) kv p(1) by (auto simp: zlog_mdc_put_def split: if_splits)
  then show ?thesis using get_ok [of t' "m(key \<mapsto> kv)" "n + 1" key] p(2,3) assms(2) kv(3) by (simp add: zlog_mdc_get_def)
qed

text \<open>The length that is kept of a value is the length before it was cut, and a key is looked up as it was before it was cut.\<close>

lemma mdc_length_beyond_value:
  "zlog_mdc_kv_new al key value = Some kv \<Longrightarrow> 1024 < length value \<Longrightarrow> length (mk_value kv) < mk_value_len kv"
  by (auto simp: zlog_mdc_kv_new_def split: if_splits)

lemma mdc_long_key_cut: "zlog_mdc_kv_new al key value = Some kv \<Longrightarrow> 1024 < length key \<Longrightarrow> mk_key kv \<noteq> key"
  by (auto simp: zlog_mdc_kv_new_def split: if_splits dest!: arg_cong [where f = length])

lemma vdzlog_needs_default: "zv_default_category e = None \<Longrightarrow> vdzlog L thread event out level s e = Inl NullDeref"
  by (simp add: vdzlog_def category_at_def)

lemma dzlog_without_default: "zv_default_category e = None \<Longrightarrow> dzlog L thread event out level s e = Inr (s, e)"
  by (simp add: dzlog_def)

lemma zlog_null_category: "zv_is_init e \<Longrightarrow> thread s = Some s' \<Longrightarrow> zlog L thread event out None level s e = Inl NullDeref"
  by (simp add: zlog_def category_at_def)

end
