(* ===== verification/Spec2Isabelle.thy ===== *)
theory Spec2Isabelle
  imports QuickMsgRing CmmQuickMsgRing MacThreads MacLoad OamFeu CmmUdp CmmZlog CmmThread AppStart AppCommand ZlogEnv
begin

text \<open>
  A verification development of the Picocom NR test MAC (\<open>src/mac\<close>, \<open>src/common\<close>, \<open>src/share\<close>).

  \<^bold>\<open>The program.\<close> The test MAC drives up to 4 PHY devices with 2 cells each over FAPI messages. \<open>main\<close> reads the
  options, initialises the MAC and starts a thread per cell; its own thread then runs an event loop with a console
  and a timer, which post messages to the rings of the cells. The thread of a cell polls its ring (\<open>macRevAppCtrlMsg\<close>)
  and the \<open>pcxx\<close> library, which calls back with groups of messages of the PHY (\<open>macRevL1Ctrl\<close>); the handlers move the
  cell through its states, and answer slot indications with the requests of a test case (\<open>macTtiTx\<close>). A further thread
  sends the trace of all messages to a socket. Requests of operation and maintenance pass through a front end that
  the timer polls. State lives in global arrays indexed by device and cell.

  \<^bold>\<open>The theories\<close>, in the order of their imports.
  \<^item> \<open>Prelude\<close>: machine words, faults and the error monad \<open>rbind\<close>, arrays with checked accesses,
    little-endian bytes, loops (\<open>foreach\<close>), and the locale \<open>step_frame\<close>: relations between the state before
    and after a computation, with one rule per construct of the monad.
  \<^item> \<open>Framing\<close>: what the two rings share, a locale of FIFO queues given by a put, a get and a relation to
    the list of queued messages, and chains of decoded records.
  \<^item> \<open>QuickMsgRing\<close> (\<open>common/src/quickMsgRing.c\<close>): the ring of 32-bit words between the application and
    the cells. \<open>qring\<close> is the handle, \<open>qrel\<close> relates a ring to its queue of messages; it refines the queue.
  \<^item> \<open>CmmQuickMsgRing\<close> (\<open>common/src/cmmQuickMsgRing.c\<close>): the ring of 64-bit words with free-running
    counters; its get loop is a partial function, since it need not end.
  \<^item> \<open>L1Layout\<close> (\<open>share/l1_api.h\<close>): the structures of the interface as C types, their sizes and offsets
    computed by the rules of the ABI, and the field accesses \<open>fld8\<close>, \<open>fld16\<close>, \<open>fld32\<close>, \<open>put16\<close>, ...
  \<^item> \<open>MacCell\<close> (\<open>mac_cell.c\<close>, \<open>mac_ue.c\<close>, \<open>ttiCmm.h\<close>): statistics, subcarrier spacing, frame arithmetic.
  \<^item> \<open>MacRx\<close> (\<open>mac_rx.c\<close>): the handlers that read the contents of indications.
  \<^item> \<open>FapiCodec\<close> (\<open>mac.c\<close>): the packers of the CONFIG, DL_TTI, UL_TTI and TX_DATA requests.
  \<^item> \<open>MacTrace\<close> (\<open>macTrace.c\<close>): the trace ring.
  \<^item> \<open>MacTx\<close> (\<open>macTx.c\<close>): the state \<open>mac\<close> of the whole MAC, the library as the record \<open>env\<close>, groups of
    messages and the send functions.
  \<^item> \<open>MacCore\<close> (\<open>mac.c\<close>, \<open>mac_rx.c\<close>, \<open>moduleInf.h\<close>): the state machine, loading of test cases, the dispatcher
    \<open>fapiMsgDec\<close>, the receive loop, the messages of the application, \<open>macInit\<close>.
  \<^item> \<open>MacSending\<close>, \<open>MacFrame\<close>: what the functions leave alone, as interpretations of \<open>step_frame\<close> for
    sending, for the statistics, for functions confined to a cell, and for orderly ones.
  \<^item> \<open>MacPhy\<close>: the state machine of a cell and groups of messages. \<open>MacSystem\<close>: the initial state,
    the messages of the application, the step relation of the system and its invariant.

  \<^item> \<open>CString\<close> (libc as far as the code uses it, \<open>common/inc/cmmMem.h\<close>): tokens, numbers, strings in blocks of
    characters, and the bounded copies of the code.
  \<^item> \<open>CmmMsgDesc\<close> (\<open>cmmMsgDesc.c\<close>, \<open>snprintbuf.c\<close>, \<open>platformCfgDes.c\<close>): descriptions of data and their printer. The
    pieces that are printed are those of a \<open>doc\<close>, a tree of tagged lines; \<open>platform_text\<close> is the text of a configuration.
  \<^item> \<open>CmmLog\<close> (\<open>cmmLog.c\<close>, \<open>cmmDebug.c\<close>, \<open>cmmApiInit.c\<close>, \<open>cmmMem.c\<close>): the pair of log files, debug levels, the
    platform configuration, checked allocation. \<open>CmmZlog\<close> (\<open>cmm_zlog.c\<close>): log categories, the dump of data.
    \<open>CmmUdp\<close> (\<open>cmmUdp.c\<close>, the Uu monitor of \<open>cmmApiInit.c\<close>): sockets with the descriptors that are open.
  \<^item> \<open>AppCli\<close> (\<open>src/main.c\<close>): options, console, timer, start and end of the program, and the steps of the whole program
    around those of the MAC. \<open>AppStart\<close> (\<open>src/main.c\<close>): the loading of the binary into memory and the set-up of the ports.
    \<open>AppCommand\<close>: console, ring and handler together, a refinement of the handlers by what is typed.
  \<^item> \<open>MacThreads\<close> (\<open>mac.c\<close>, \<open>src/main.c\<close>): the launch of the threads, their loops, and runs in which all threads
    interleave. \<open>CmmThread\<close> (\<open>cmm_thread.c\<close>, \<open>macTrace.c\<close>): the wrappers of POSIX threads and their handles.
  \<^item> \<open>OamFeu\<close> (\<open>mac_feu_fapi.c\<close> and its interfaces): the messages of the FEU and the eCPRI as packed structures, and the
    front end. \<open>MacLoad\<close> (\<open>macLoad.c\<close>): the built-in test case as lists of assignments to fields, and their execution;
    nothing in the program calls it.
  \<^item> The log library \<open>third_part/zlog/src\<close>, which the program is built with. \<open>ZlogBuf\<close> (\<open>buf.c\<close>): the buffers in which a line
    is put together. \<open>ZlogList\<close> (\<open>zc_arraylist.c\<close>, \<open>level.c\<close>, \<open>level_list.c\<close>, \<open>category.c\<close>): lists, levels, and the rules that
    fit a category. \<open>ZlogTable\<close> (\<open>zc_hashtable.c\<close>): hash tables as chains of entries in an explicit memory, which refine a map.
    \<open>ZlogEnv\<close> (\<open>category_table.c\<close>, \<open>mdc.c\<close>, \<open>zlog.c\<close>): start, change of the configuration, end, and messages.

  \<^bold>\<open>Modelling.\<close> A C function is a HOL function from the state to \<open>fault + result\<close>. An assertion that fails, a
  null pointer, an access outside an object and a loop without end are faults, and every theorem says which
  results are fault-free. Integers are words of their width. Static locals are part of the state. Buffers of
  the library are blocks of bytes under addresses. Loops over a C counter recurse over the number of rounds
  it allows; where a counter wraps before its bound the recursion gets as many rounds as there are bytes
  left to read (\<open>tlv_rounds\<close>, \<open>DlttiParams\<close>), after which the access is a fault in the code, too.

  \<^bold>\<open>What the theorems show.\<close> From \<open>main\<close> on, whatever is typed and however the threads interleave, the MAC stays
  well-formed; a thread that is stopped ends. Both rings are FIFO queues over every interleaving of sends and receives,
  and the exact conditions under which they accept a message; the codecs read exactly what an encoder wrote and
  produce messages that lead a receiver to their end; a group of requests describes itself, and a group
  received is handled message by message; the state of a cell after each message, the end of a test case and how
  the answers of the PHY start it anew, the isolation of the cells. A typed command arrives at the MAC with its numbers, and the next
  poll executes it; every page of the binary is read at the start; the thread handles in use are those of the living
  threads; a configuration is printed as the text of its fields, cut inside the buffer; the log files hold the latest of
  the log; the requests the front end survives, and that it forwards them byte for byte. In zlog, a line of the log is
  complete or marked as cut, each number has the level that was declared last for it, a category has exactly the rules that
  fit it, a hash table is a map under any sequence of operations, and a reload gives every category its new rules, changes
  nothing, or fails half way. Further theorems prove faults of the code: they are listed in the manifest as findings.

  \<^bold>\<open>Assumptions.\<close> The \<open>pcxx\<close> library and the files of a test case are parameters; hypotheses on them are
  stated where they are used (\<open>fresh_buffers\<close>: buffers handed out are new; \<open>launches_waiting\<close>: \<open>rte_eal_remote_launch\<close>
  starts a thread on a worker core that waits, and none on a core that runs one). The allocators of zlog are parameters, too;
  its walks along chains have fuel, and one step more than there are entries is enough. Threads run the operations
  atomically and interleaved. The sizes of structures are those of the little-endian LP64 targets.

  \<^bold>\<open>Not modelled.\<close> Time stamps and sleeps, the text of reports and prompts; the libraries DPDK, \<open>pcxx\<close> and libev,
  of which only the calls of the program appear; of zlog the configuration file, the files and pipes that rules write to,
  their rotation, records, formats and its own diagnostics; the builds for shared memory (\<open>ATLL_SHM\<close>) of \<open>main\<close> and \<open>macInit\<close>, which
  do not fit the types of the functions and arrays they name, with the thread \<open>rtThreadMain\<close> that only they start; the
  memory of two writers inside one ring operation.
\<close>

end
